(* ===== verification/Prelude.thy ===== *)
theory Prelude
  imports Main
begin

text \<open>
  What every component of the development shares.

  Time is an \<open>int\<close>, the nanoseconds of Go's \<open>time.Time\<close> and \<open>time.Duration\<close>.
  A Go function that returns \<open>(T, error)\<close> is a HOL function into \<open>error + T\<close>; the sentinel
  errors of the packages are the constructors of \<open>error\<close>, and wrapping with \<open>%w\<close>, which
  keeps the sentinel visible to \<open>errors.Is\<close>, keeps the constructor.

  A SQLite table is the list of its rows in insertion order, and a SQL statement of the source is
  the list operation it denotes (\<open>sql_update\<close>, \<open>sql_select\<close>, \<open>sql_order\<close>).
  The engine and the network can fail at any call: a definition that makes such calls takes a
  \<open>faults\<close> oracle, which says for each call site whether the call fails and with what text.
\<close>

section \<open>Automation shared by the components\<close>

named_theorems store_simps \<open>lookups in a store after an update\<close>
named_theorems frame_simps \<open>fields an operation does not touch\<close>
named_theorems op_defs \<open>definitions of the modelled operations\<close>

section \<open>Times, results and faults\<close>

type_synonym gotime = int
type_synonym duration = int

abbreviation Millisecond :: duration where "Millisecond \<equiv> 1000000"
abbreviation Second :: duration where "Second \<equiv> 1000000000"
abbreviation Minute :: duration where "Minute \<equiv> 60000000000"
abbreviation Hour :: duration where "Hour \<equiv> 3600000000000"

text \<open>Go's zero time, January 1 of year 1, in nanoseconds from the Unix epoch.\<close>

abbreviation zero_time :: gotime where "zero_time \<equiv> - 62135596800000000000"

text \<open>\<open>Truncate(time.Second)\<close>, which is also the resolution of \<open>datetime('now')\<close>.\<close>

definition truncate_second :: "gotime \<Rightarrow> gotime" where
  "truncate_second t = t - t mod Second"

text \<open>Go's integer division truncates towards zero.\<close>

definition go_quot :: "int \<Rightarrow> int \<Rightarrow> int" where
  "go_quot a b = sgn a * sgn b * (\<bar>a\<bar> div \<bar>b\<bar>)"

lemma go_quot_nonneg [simp]: "0 \<le> a \<Longrightarrow> 0 < b \<Longrightarrow> go_quot a b = a div b"
  by (cases "a = 0") (auto simp: go_quot_def)

datatype error =
    ErrInvalidTransition
  | ErrBranchNotFound
  | ErrNoRows
  | ErrInvalidKeyPart
  | ErrQueueEmpty
  | ErrAlreadyEnqueued
  | ErrLeaseConflict
  | ErrLeaseNotFound
  | ErrNilLease
  | ErrInvalidConfig
  | ErrDuplicate
  | ErrDuplicateSubmission
  | ErrAgentSessionNotFound
  | ErrAgentSessionAlreadyEnded
  | ErrAgentSessionAgentMismatch
  | ErrInvalidHeartbeatSecret
  | ErrAgentAssignmentNotFound
  | ErrTaskAlreadyClaimed
  | ErrVersionConflict
  | ErrHandoffRestricted
  | ErrAssignmentEnded
  | ErrInvalidEmitSubstatus
  | ErrAssignmentSubstatusRequired
  | ErrInvalidAssignmentSubstatus
  | ErrAssignmentGateNotPassed
  | ErrAssignmentComplianceNotPassed
  | ErrMalformedFinding
  | ErrMissingSessionID
  | ErrMissingAgentID
  | ErrMissingAssignment
  | ErrMissingStatus
  | ErrSessionNotFound
  | ErrSessionMismatch
  | ErrGitHubLinkNotFound
  | ErrFeedbackCacheNotFound
  | DBError string
  | ConstraintError string
  | RedisError string
  | OtherError string

text \<open>
  A fault oracle names, per call site of an operation, the failure of the engine or of the network
  there. \<open>no_faults\<close> is the run in which every call succeeds.
\<close>

type_synonym faults = "string \<Rightarrow> string option"

text \<open>
  An operation that calls others hands each of them the oracle of its own call sites: the part of its
  oracle under the name of the call.
\<close>

definition at_site :: "string \<Rightarrow> (string \<Rightarrow> 'x) \<Rightarrow> string \<Rightarrow> 'x" where
  "at_site name oracle site = oracle (name @ '' / '' @ site)"

definition no_faults :: faults where
  "no_faults site = None"

lemma no_faults_None [simp]: "no_faults site = None"
  by (simp add: no_faults_def)

lemma at_site_no_faults [simp]: "at_site name no_faults = no_faults"
  by (simp add: fun_eq_iff at_site_def)

text \<open>
  \<open>sql_try flt site bad k\<close>: the call at \<open>site\<close>; on a fault the operation returns the
  engine's error with the store \<open>bad\<close> (the store before the transaction, since Go's deferred
  \<open>Rollback\<close> runs), otherwise it goes on with \<open>k\<close>.
\<close>

definition sql_try :: "faults \<Rightarrow> string \<Rightarrow> 's \<Rightarrow> (error + 'a) \<times> 's \<Rightarrow> (error + 'a) \<times> 's" where
  "sql_try flt site bad k = (case flt site of Some e \<Rightarrow> (Inl (DBError e), bad) | None \<Rightarrow> k)"

lemma sql_try_no_faults [simp]: "sql_try no_faults site bad k = k"
  by (simp add: sql_try_def)

lemma sql_try_None [simp]: "flt site = None \<Longrightarrow> sql_try flt site bad k = k"
  by (simp add: sql_try_def)

lemma sql_try_Inr [simp]:
  "sql_try flt site bad k = (Inr x, s) \<longleftrightarrow> flt site = None \<and> k = (Inr x, s)"
  by (auto simp: sql_try_def split: option.splits)

lemma sql_try_split:
  "P (sql_try flt site bad k) \<longleftrightarrow>
     (\<forall>e. flt site = Some e \<longrightarrow> P (Inl (DBError e), bad)) \<and> (flt site = None \<longrightarrow> P k)"
  by (auto simp: sql_try_def split: option.splits)

lemma sql_try_split_asm:
  "P (sql_try flt site bad k) \<longleftrightarrow>
     \<not> ((\<exists>e. flt site = Some e \<and> \<not> P (Inl (DBError e), bad)) \<or> (flt site = None \<and> \<not> P k))"
  by (auto simp: sql_try_def split: option.splits)

lemmas sql_try_splits = sql_try_split sql_try_split_asm

section \<open>SQL statements on tables\<close>

definition sql_update :: "('r \<Rightarrow> bool) \<Rightarrow> ('r \<Rightarrow> 'r) \<Rightarrow> 'r list \<Rightarrow> 'r list" where
  "sql_update P f rows = map (\<lambda>r. if P r then f r else r) rows"

definition sql_affected :: "('r \<Rightarrow> bool) \<Rightarrow> 'r list \<Rightarrow> nat" where
  "sql_affected P rows = length (filter P rows)"

text \<open>\<open>SELECT ... LIMIT 1\<close> without an order reads the first matching row.\<close>

definition sql_row :: "('r \<Rightarrow> bool) \<Rightarrow> 'r list \<Rightarrow> 'r option" where
  "sql_row P rows = find P rows"

definition sql_order :: "('r \<Rightarrow> 'k::linorder) \<Rightarrow> 'r list \<Rightarrow> 'r list" where
  "sql_order k rows = sort_key k rows"

definition sql_order_desc :: "('r \<Rightarrow> int) \<Rightarrow> 'r list \<Rightarrow> 'r list" where
  "sql_order_desc k rows = sort_key (\<lambda>r. - k r) rows"

definition sql_first :: "'r list \<Rightarrow> 'r option" where
  "sql_first rows = (case rows of [] \<Rightarrow> None | r # _ \<Rightarrow> Some r)"

lemma length_sql_update [simp]: "length (sql_update P f rows) = length rows"
  by (simp add: sql_update_def)

lemma map_sql_update [store_simps]:
  "(\<And>r. P r \<Longrightarrow> g (f r) = g r) \<Longrightarrow> map g (sql_update P f rows) = map g rows"
  by (auto simp: sql_update_def)

lemma set_sql_update [store_simps]:
  "set (sql_update P f rows) = (\<lambda>r. if P r then f r else r) ` set rows"
  by (simp add: sql_update_def)

lemma find_cong_pred: "(\<And>r. r \<in> set rows \<Longrightarrow> P r = Q r) \<Longrightarrow> find P rows = find Q rows"
  by (induction rows) auto

lemma find_sql_update [store_simps]:
  "(\<And>r. P r \<Longrightarrow> Q (f r) = Q r) \<Longrightarrow>
   find Q (sql_update P f rows) = map_option (\<lambda>r. if P r then f r else r) (find Q rows)"
  by (induction rows) (auto simp: sql_update_def)

lemma find_None_filter: "find P rows = None \<longleftrightarrow> filter P rows = []"
  by (induction rows) auto

lemma find_Some_set: "find P rows = Some r \<Longrightarrow> r \<in> set rows \<and> P r"
  by (induction rows) (auto split: if_splits)

lemma sql_affected_pos: "0 < sql_affected P rows \<longleftrightarrow> (\<exists>r\<in>set rows. P r)"
  by (induction rows) (auto simp: sql_affected_def)

lemma sql_affected_zero [simp]: "sql_affected P rows = 0 \<longleftrightarrow> (\<forall>r\<in>set rows. \<not> P r)"
  by (induction rows) (auto simp: sql_affected_def)

lemma set_sql_order [simp]: "set (sql_order k rows) = set rows"
  by (simp add: sql_order_def)

lemma set_sql_order_desc [simp]: "set (sql_order_desc k rows) = set rows"
  by (simp add: sql_order_desc_def)

lemma sorted_sql_order: "sorted (map k (sql_order k rows))"
  by (simp add: sql_order_def)

lemma sql_first_Some: "sql_first rows = Some r \<Longrightarrow> r \<in> set rows"
  by (auto simp: sql_first_def split: list.splits)

lemma sql_first_None [simp]: "sql_first rows = None \<longleftrightarrow> rows = []"
  by (auto simp: sql_first_def split: list.splits)

text \<open>A key column that is distinct picks at most one row.\<close>

lemma distinct_key_unique:
  "distinct (map k rows) \<Longrightarrow> r \<in> set rows \<Longrightarrow> r' \<in> set rows \<Longrightarrow> k r = k r' \<Longrightarrow> r = r'"
  by (auto simp: distinct_map inj_on_def)

lemma find_distinct_key:
  "distinct (map k rows) \<Longrightarrow> r \<in> set rows \<Longrightarrow> find (\<lambda>x. k x = k r) rows = Some r"
  by (induction rows) (auto simp: rev_image_eqI)

lemma distinct_key_affected:
  "distinct (map k rows) \<Longrightarrow> sql_affected (\<lambda>r. k r = x) rows \<le> 1"
proof (induction rows)
  case (Cons a rows)
  then show ?case
    by (cases "k a = x") (auto simp: sql_affected_def filter_empty_conv image_iff)
qed (simp add: sql_affected_def)

section \<open>Go strings\<close>

text \<open>
  Go strings are byte strings; the ones this program compares, trims and lower-cases (statuses,
  keys, branch names) are ASCII, where \<open>strings.TrimSpace\<close> cuts the six ASCII space bytes and
  \<open>strings.ToLower\<close> maps the upper-case letters.
\<close>

definition is_space :: "char \<Rightarrow> bool" where
  "is_space c \<longleftrightarrow> c \<in> {CHR 0x20, CHR 0x09, CHR 0x0A, CHR 0x0B, CHR 0x0C, CHR 0x0D}"

definition TrimSpace :: "string \<Rightarrow> string" where
  "TrimSpace s = rev (dropWhile is_space (rev (dropWhile is_space s)))"

definition lower_char :: "char \<Rightarrow> char" where
  "lower_char c = (if 65 \<le> (of_char c :: nat) \<and> (of_char c :: nat) \<le> 90
                   then char_of ((of_char c :: nat) + 32) else c)"

definition ToLower :: "string \<Rightarrow> string" where
  "ToLower s = map lower_char s"

definition HasPrefix :: "string \<Rightarrow> string \<Rightarrow> bool" where
  "HasPrefix s p \<longleftrightarrow> length p \<le> length s \<and> take (length p) s = p"

definition TrimPrefix :: "string \<Rightarrow> string \<Rightarrow> string" where
  "TrimPrefix s p = (if HasPrefix s p then drop (length p) s else s)"

definition Contains :: "string \<Rightarrow> string \<Rightarrow> bool" where
  "Contains s t \<longleftrightarrow> (\<exists>i\<in>set [0..<Suc (length s)]. HasPrefix (drop i s) t)"

lemma HasPrefix_append [simp]: "HasPrefix (p @ s) p"
  by (simp add: HasPrefix_def)

lemma HasPrefix_iff: "HasPrefix s p \<longleftrightarrow> (\<exists>t. s = p @ t)"
  by (auto simp: HasPrefix_def) (metis append_take_drop_id)

lemma lower_char_idem [simp]: "lower_char (lower_char c) = lower_char c"
proof -
  have "(of_char c :: nat) < 256"
    using nat_of_char_less_256 [of c] by simp
  then show ?thesis
    by (auto simp: lower_char_def)
qed

lemma ToLower_idem [simp]: "ToLower (ToLower s) = ToLower s"
  by (simp add: ToLower_def)

lemma dropWhile_idem_rev:
  "dropWhile P (rev (dropWhile P (rev (dropWhile P xs)))) = rev (dropWhile P (rev (dropWhile P xs)))"
proof (cases "rev (dropWhile P (rev (dropWhile P xs)))")
  case Nil
  then show ?thesis by (simp only: Nil dropWhile.simps)
next
  case (Cons y ys)
  then obtain zs where zs: "dropWhile P xs = y # ys @ zs"
    by (metis append_Cons rev_append rev_rev_ident takeWhile_dropWhile_id)
  then have "\<not> P y"
    by (metis hd_dropWhile list.sel(1) list.simps(3))
  then show ?thesis
    using Cons by simp
qed

lemma TrimSpace_idem [simp]: "TrimSpace (TrimSpace s) = TrimSpace s"
  by (simp add: TrimSpace_def dropWhile_idem_rev)

lemma is_space_code: "is_space c \<Longrightarrow> (of_char c :: nat) \<le> 32"
  by (auto simp: is_space_def)

lemma is_space_lower [simp]: "is_space (lower_char c) = is_space c"
proof (cases "65 \<le> (of_char c :: nat) \<and> (of_char c :: nat) \<le> 90")
  case True
  then have "(of_char (lower_char c) :: nat) = of_char c + 32"
    by (simp add: lower_char_def)
  then show ?thesis
    using True is_space_code [of c] is_space_code [of "lower_char c"] by auto
qed (auto simp: lower_char_def)

lemma TrimSpace_ToLower: "TrimSpace (ToLower s) = ToLower (TrimSpace s)"
  by (simp add: TrimSpace_def ToLower_def dropWhile_map rev_map comp_def)

lemma TrimSpace_no_space: "\<forall>c\<in>set s. \<not> is_space c \<Longrightarrow> TrimSpace s = s"
proof -
  assume a: "\<forall>c\<in>set s. \<not> is_space c"
  have "dropWhile is_space s = s" using a by (cases s) auto
  moreover have "dropWhile is_space (rev s) = rev s" using a by (cases "rev s") (auto simp flip: set_rev [of s])
  ultimately show ?thesis by (simp add: TrimSpace_def)
qed

end
