(* ===== verification/Strconv.thy ===== *)
theory Strconv
  imports Prelude "HOL-Library.Word"
begin

text \<open>
  Decimal numbers in strings: \<open>FormatInt\<close> is what Go's \<open>strconv\<close> and \<open>fmt\<close> print for
  an integer, \<open>ParseInt\<close> is \<open>strconv.ParseInt(s, 10, 64)\<close>, which go-redis uses to read
  counters, and \<open>parseInt64\<close> is the hand-written parser of \<open>internal/scheduler/lease.go\<close>,
  whose \<open>int64\<close> arithmetic wraps around. Printing and parsing are inverse; the hand-written
  parser agrees with \<open>ParseInt\<close> on every digit string whose value fits.
\<close>

definition digit_char :: "nat \<Rightarrow> char" where
  "digit_char n = char_of (48 + n)"

definition is_digit :: "char \<Rightarrow> bool" where
  "is_digit c \<longleftrightarrow> 48 \<le> (of_char c :: nat) \<and> (of_char c :: nat) \<le> 57"

definition digit_val :: "char \<Rightarrow> nat" where
  "digit_val c = of_char c - 48"

fun format_nat :: "nat \<Rightarrow> string" where
  "format_nat n = (if n < 10 then [digit_char n] else format_nat (n div 10) @ [digit_char (n mod 10)])"

declare format_nat.simps [simp del]

definition FormatInt :: "int \<Rightarrow> string" where
  "FormatInt i = (if i < 0 then CHR ''-'' # format_nat (nat (- i)) else format_nat (nat i))"

definition digits_val :: "string \<Rightarrow> nat" where
  "digits_val s = foldl (\<lambda>n c. 10 * n + digit_val c) 0 s"

definition parse_nat :: "string \<Rightarrow> nat option" where
  "parse_nat s = (if s \<noteq> [] \<and> list_all is_digit s then Some (digits_val s) else None)"

abbreviation MaxInt64 :: int where "MaxInt64 \<equiv> 9223372036854775807"

definition in_int64 :: "int \<Rightarrow> bool" where
  "in_int64 i \<longleftrightarrow> - 9223372036854775808 \<le> i \<and> i \<le> MaxInt64"

text \<open>The wrap-around of \<open>int64\<close> arithmetic.\<close>

definition int64 :: "int \<Rightarrow> int" where
  "int64 i = sint (word_of_int i :: 64 word)"

definition ParseInt :: "string \<Rightarrow> int option" where
  "ParseInt s =
     (let v = (case s of
                 [] \<Rightarrow> None
               | c # t \<Rightarrow> if c = CHR ''-'' then map_option (\<lambda>n. - int n) (parse_nat t)
                          else if c = CHR ''+'' then map_option int (parse_nat t)
                          else map_option int (parse_nat s))
      in case v of Some i \<Rightarrow> if in_int64 i then Some i else None | None \<Rightarrow> None)"

text \<open>The loop of \<open>parseInt64\<close>, with Go's 64-bit arithmetic.\<close>

fun parse64_loop :: "string \<Rightarrow> 64 word \<Rightarrow> (error + 64 word)" where
  "parse64_loop [] n = Inr n"
| "parse64_loop (c # cs) n =
     (if \<not> is_digit c then Inl (OtherError ''invalid digit'')
      else parse64_loop cs (n * 10 + word_of_nat (digit_val c)))"

definition parseInt64 :: "string \<Rightarrow> error + int" where
  "parseInt64 s = (case parse64_loop s 0 of Inl e \<Rightarrow> Inl e | Inr n \<Rightarrow> Inr (sint n))"

section \<open>Printing and parsing\<close>

lemma int64_id: "in_int64 i \<Longrightarrow> int64 i = i"
  by (simp add: int64_def in_int64_def signed_of_int signed_take_bit_int_eq_self)

lemma int64_range: "in_int64 (int64 i)"
  using sint_greater_eq [of "word_of_int i :: 64 word"] sint_lt [of "word_of_int i :: 64 word"]
  by (simp add: int64_def in_int64_def)

lemma digit_char_props [simp]:
  "n < 10 \<Longrightarrow> is_digit (digit_char n)" "n < 10 \<Longrightarrow> digit_val (digit_char n) = n"
  by (simp_all add: is_digit_def digit_val_def digit_char_def)

lemma digits_val_snoc [simp]: "digits_val (s @ [c]) = 10 * digits_val s + digit_val c"
  by (simp add: digits_val_def)

lemma format_nat_digits [simp]: "list_all is_digit (format_nat n)"
proof (induction n rule: format_nat.induct)
  case (1 n)
  then show ?case by (subst format_nat.simps) simp
qed

lemma format_nat_nonempty [simp]: "format_nat n \<noteq> []"
  by (subst format_nat.simps) simp

lemma digits_val_format_nat [simp]: "digits_val (format_nat n) = n"
proof (induction n rule: format_nat.induct)
  case (1 n)
  then show ?case
    by (subst format_nat.simps) (simp add: digits_val_def)
qed

lemma parse_nat_format [simp]: "parse_nat (format_nat n) = Some n"
  by (simp add: parse_nat_def)

lemma format_nat_hd: "\<exists>c cs. format_nat n = c # cs \<and> is_digit c"
  using format_nat_digits [of n] format_nat_nonempty [of n]
  by (cases "format_nat n") auto

lemma not_digit [simp]:
  "\<not> is_digit (CHR ''-'')" "\<not> is_digit (CHR ''+'')" "\<not> is_digit (CHR ''|'')" "\<not> is_digit (CHR '':'')"
  by (simp_all add: is_digit_def)

lemma ParseInt_FormatInt [simp]: "in_int64 i \<Longrightarrow> ParseInt (FormatInt i) = Some i"
proof -
  assume i: "in_int64 i"
  obtain c cs where c: "format_nat (nat i) = c # cs" "is_digit c"
    using format_nat_hd by blast
  then have "c \<noteq> CHR ''-''" "c \<noteq> CHR ''+''" by auto
  then show ?thesis
    using i c parse_nat_format [of "nat i"]
    by (cases "i < 0") (simp_all add: ParseInt_def FormatInt_def)
qed

lemma FormatInt_inj: "in_int64 i \<Longrightarrow> in_int64 j \<Longrightarrow> FormatInt i = FormatInt j \<Longrightarrow> i = j"
  using ParseInt_FormatInt by fastforce

lemma FormatInt_no_bar: "CHR ''|'' \<notin> set (FormatInt i)"
proof -
  have "CHR ''|'' \<notin> set (format_nat n)" for n
    using format_nat_digits [of n] not_digit(3) by (auto simp only: list_all_iff)
  then show ?thesis by (simp add: FormatInt_def)
qed

text \<open>The hand-written loop computes the value modulo \<open>2 ^ 64\<close>.\<close>

lemma parse64_loop_ok:
  "list_all is_digit s \<Longrightarrow>
   parse64_loop s (word_of_nat m) = Inr (word_of_nat (foldl (\<lambda>n c. 10 * n + digit_val c) m s))"
proof (induction s arbitrary: m)
  case (Cons c s)
  have "word_of_nat m * 10 + word_of_nat (digit_val c) = (word_of_nat (10 * m + digit_val c) :: 64 word)"
    by simp
  with Cons show ?case by (simp del: of_nat_add of_nat_mult)
qed simp

lemma parse64_loop_error:
  "\<not> list_all is_digit s \<Longrightarrow> parse64_loop s n = Inl (OtherError ''invalid digit'')"
  by (induction s arbitrary: n) auto

lemma parseInt64_digits:
  "list_all is_digit s \<Longrightarrow> parseInt64 s = Inr (sint (word_of_nat (digits_val s) :: 64 word))"
  using parse64_loop_ok [of s 0] by (simp add: parseInt64_def digits_val_def)

lemma sint_small: "int n \<le> MaxInt64 \<Longrightarrow> sint (word_of_nat n :: 64 word) = int n"
  by (simp add: signed_of_nat signed_take_bit_int_eq_self)

lemma parseInt64_FormatInt: "0 \<le> i \<Longrightarrow> i \<le> MaxInt64 \<Longrightarrow> parseInt64 (FormatInt i) = Inr i"
  using parseInt64_digits [OF format_nat_digits, of "nat i"] sint_small [of "nat i"]
  by (simp add: FormatInt_def)

section \<open>Property of the lease timestamp parser\<close>

text \<open>
  \<open>parseInt64\<close> of \<open>lease.go\<close> accepts exactly the strings of decimal digits (the empty
  one included, as 0), returns for them the signed 64-bit reading of the value modulo \<open>2 ^ 64\<close>
  without an overflow error, and is the inverse of printing for every non-negative \<open>int64\<close>, as
  \<open>strconv.ParseInt\<close> is.
\<close>

theorem parse_int64_correct:
  "parseInt64 s = (if list_all is_digit s
     then Inr (sint (word_of_int (int (digits_val s)) :: 64 word))
     else Inl (OtherError ''invalid digit'')) \<and>
   (0 \<le> i \<and> i \<le> MaxInt64 \<longrightarrow>
     parseInt64 (FormatInt i) = Inr i \<and> ParseInt (FormatInt i) = Some i)"
proof (intro conjI impI)
  show "parseInt64 s = (if list_all is_digit s
     then Inr (sint (word_of_int (int (digits_val s)) :: 64 word))
     else Inl (OtherError ''invalid digit''))"
    by (simp add: parseInt64_digits) (simp add: parseInt64_def parse64_loop_error)
next
  assume i: "0 \<le> i \<and> i \<le> MaxInt64"
  then show "parseInt64 (FormatInt i) = Inr i"
    using parseInt64_FormatInt by simp
  show "ParseInt (FormatInt i) = Some i"
    using i by (intro ParseInt_FormatInt) (simp add: in_int64_def)
qed

theorem parse_int64_correct_witness:
  "parseInt64 (FormatInt 1700000000000) = Inr 1700000000000"
  using parse_int64_correct [of "''''" 1700000000000] by simp

end
