(* ===== verification/Redis.thy ===== *)
theory Redis
  imports Complex_Main Strconv
begin

text \<open>
  Redis keys (\<open>internal/redis/keys.go\<close>) and the interface to the server.

  The Redis server is not part of the repository. It is the parameter \<open>api\<close>, a record of the
  commands the program issues, on an abstract server state; \<open>redis_server api view\<close> states what
  the program relies on: with \<open>view\<close> what the server holds under a key (nothing, a string with
  an optional time to live in milliseconds, a float counter, or a sorted set), each command acts on its own key as
  documented and leaves the other keys alone. Sorted-set scores are \<open>real\<close> numbers.
  \<open>mem_api\<close> is an in-memory server that satisfies the laws.

  A call can fail on the network: the oracle \<open>rfaults\<close> says, per call site, whether it fails and
  whether the server had applied the command. A Lua script runs as one step on the server.
\<close>

section \<open>Keys\<close>

definition validateKeyPart :: "string \<Rightarrow> error option" where
  "validateKeyPart s = (if s = '''' \<or> CHR '':'' \<in> set s then Some ErrInvalidKeyPart else None)"

definition BuildKey :: "string \<Rightarrow> string \<Rightarrow> string \<Rightarrow> error + string" where
  "BuildKey repo kType i =
     (case find (\<lambda>p. validateKeyPart p \<noteq> None) [repo, kType, i] of
        Some p \<Rightarrow> Inl (the (validateKeyPart p))
      | None \<Rightarrow> Inr (''codero:'' @ repo @ '':'' @ kType @ '':'' @ i))"

definition key_part :: "string \<Rightarrow> bool" where
  "key_part s \<longleftrightarrow> s \<noteq> '''' \<and> CHR '':'' \<notin> set s"

lemma validateKeyPart_None [simp]: "validateKeyPart s = None \<longleftrightarrow> key_part s"
  by (simp add: validateKeyPart_def key_part_def)

lemma BuildKey_Inr [simp]:
  "BuildKey repo kType i = Inr k \<longleftrightarrow>
   key_part repo \<and> key_part kType \<and> key_part i \<and> k = ''codero:'' @ repo @ '':'' @ kType @ '':'' @ i"
  by (auto simp: BuildKey_def)

lemma BuildKey_Inl:
  "BuildKey repo kType i = Inl e \<longleftrightarrow>
   e = ErrInvalidKeyPart \<and> \<not> (key_part repo \<and> key_part kType \<and> key_part i)"
  by (auto simp: BuildKey_def validateKeyPart_def key_part_def)

lemma split_at_colon:
  assumes "a @ CHR '':'' # b = a' @ CHR '':'' # b'" and "CHR '':'' \<notin> set a" and "CHR '':'' \<notin> set a'"
  shows "a = a' \<and> b = b'"
  using assms
proof (induction a arbitrary: a')
  case Nil
  then show ?case by (cases a') auto
next
  case (Cons x a)
  then show ?case by (cases a') auto
qed

lemma BuildKey_inj:
  assumes "BuildKey repo t i = Inr k" and "BuildKey repo' t' i' = Inr k"
  shows "repo = repo' \<and> t = t' \<and> i = i'"
  using assms split_at_colon [of repo "t @ '':'' @ i" repo' "t' @ '':'' @ i'"]
    split_at_colon [of t i t' i']
  by (auto simp: key_part_def)

lemma key_part_const [simp]:
  "key_part ''queue''" "key_part ''pending''" "key_part ''vtime''" "key_part ''lease''"
  "key_part ''dispatch''" "key_part ''slots''" "key_part ''seq''" "key_part ''webhook''"
  by (simp_all add: key_part_def)

section \<open>The server\<close>

datatype entry =
    Absent
  | Str string "int option"
  | Flt real
  | SSet "(string \<times> real) list"

record 'r redis_api =
  rGET :: "string \<Rightarrow> 'r \<Rightarrow> string option"
  rTTL :: "string \<Rightarrow> 'r \<Rightarrow> int"
  rSET :: "string \<Rightarrow> string \<Rightarrow> 'r \<Rightarrow> 'r"
  rSETPX :: "string \<Rightarrow> string \<Rightarrow> int \<Rightarrow> 'r \<Rightarrow> 'r option"
  rSETNX :: "string \<Rightarrow> string \<Rightarrow> int \<Rightarrow> 'r \<Rightarrow> bool \<times> 'r"
  rPEXPIRE :: "string \<Rightarrow> int \<Rightarrow> 'r \<Rightarrow> 'r"
  rDEL :: "string \<Rightarrow> 'r \<Rightarrow> 'r"
  rINCRBY :: "string \<Rightarrow> int \<Rightarrow> 'r \<Rightarrow> int option \<times> 'r"
  rGETF :: "string \<Rightarrow> 'r \<Rightarrow> real option"
  rINCRBYFLOAT :: "string \<Rightarrow> real \<Rightarrow> 'r \<Rightarrow> 'r"
  rZRANGE :: "string \<Rightarrow> 'r \<Rightarrow> (string \<times> real) list"
  rZADDNX :: "string \<Rightarrow> real \<Rightarrow> string \<Rightarrow> 'r \<Rightarrow> int \<times> 'r"
  rZADD :: "string \<Rightarrow> real \<Rightarrow> string \<Rightarrow> 'r \<Rightarrow> 'r"
  rZPOPMIN :: "string \<Rightarrow> 'r \<Rightarrow> (string \<times> real) option \<times> 'r"
  rZREM :: "string \<Rightarrow> string \<Rightarrow> 'r \<Rightarrow> 'r"
  rTICK :: "int \<Rightarrow> 'r \<Rightarrow> 'r"
  lua_tonumber :: "string \<Rightarrow> int option"

definition zset_of :: "entry \<Rightarrow> (string \<times> real) list" where
  "zset_of e = (case e of SSet xs \<Rightarrow> xs | _ \<Rightarrow> [])"

definition not_str :: "entry \<Rightarrow> bool" where
  "not_str e = (case e of Absent \<Rightarrow> True | SSet _ \<Rightarrow> True | _ \<Rightarrow> False)"

definition zset_ok :: "(string \<times> real) list \<Rightarrow> bool" where
  "zset_ok xs \<longleftrightarrow> sorted (map snd xs) \<and> distinct (map fst xs)"

definition expire :: "int \<Rightarrow> entry \<Rightarrow> entry" where
  "expire ms e = (case e of
     Str v (Some t) \<Rightarrow> if t \<le> ms then Absent else Str v (Some (t - ms))
   | _ \<Rightarrow> e)"

text \<open>
  The documented behaviour of the commands. A string key holds an integer when its value is the
  decimal form of a 64-bit integer; \<open>INCRBY\<close> fails on another value and on overflow.
  \<open>tonumber\<close> of the script language reads decimal integers that a double holds exactly.
\<close>

locale redis_server =
  fixes api :: "'r redis_api"
    and view :: "'r \<Rightarrow> string \<Rightarrow> entry"
  assumes get_str: "view s k = Str v t' \<Longrightarrow> rGET api k s = Some v"
    and get_absent: "view s k = Absent \<Longrightarrow> rGET api k s = None"
    and ttl_absent: "view s k = Absent \<Longrightarrow> rTTL api k s = - 2"
    and ttl_none: "view s k = Str v None \<Longrightarrow> rTTL api k s = - 1"
    and ttl_some: "view s k = Str v (Some t) \<Longrightarrow>
                  0 \<le> rTTL api k s \<and> \<bar>1000 * rTTL api k s - t\<bar> < 1000"
    and ttl_pos: "view s k = Str v (Some t) \<Longrightarrow> 0 < t"
    and set_view: "view (rSET api k v s) = (view s)(k := Str v None)"
    and setpx: "0 < t \<Longrightarrow> \<exists>s'. rSETPX api k v t s = Some s' \<and>
                  view s' = (view s)(k := Str v (Some t))"
    and setpx_bad: "t \<le> 0 \<Longrightarrow> rSETPX api k v t s = None"
    and setnx: "0 < t \<Longrightarrow> fst (rSETNX api k v t s) = (view s k = Absent)"
    and setnx_view: "0 < t \<Longrightarrow> view (snd (rSETNX api k v t s)) =
                  (if view s k = Absent then (view s)(k := Str v (Some t)) else view s)"
    and pexpire: "view s k = Str v t' \<Longrightarrow> view (rPEXPIRE api k t s) =
                  (view s)(k := if t \<le> 0 then Absent else Str v (Some t))"
    and pexpire_frame: "k' \<noteq> k \<Longrightarrow> view (rPEXPIRE api k t s) k' = view s k'"
    and del: "view (rDEL api k s) = (view s)(k := Absent)"
    and incr_absent: "view s k = Absent \<Longrightarrow> in_int64 n \<Longrightarrow>
                  fst (rINCRBY api k n s) = Some n \<and>
                  view (snd (rINCRBY api k n s)) = (view s)(k := Str (FormatInt n) None)"
    and incr_int: "view s k = Str (FormatInt i) t' \<Longrightarrow> in_int64 i \<Longrightarrow> in_int64 (i + n) \<Longrightarrow>
                  fst (rINCRBY api k n s) = Some (i + n) \<and>
                  view (snd (rINCRBY api k n s)) = (view s)(k := Str (FormatInt (i + n)) t')"
    and zrange: "not_str (view s k) \<Longrightarrow> rZRANGE api k s = zset_of (view s k)"
    and zrange_ok: "zset_ok (zset_of (view s k))"
    and zaddnx: "not_str (view s k) \<Longrightarrow>
                  fst (rZADDNX api k x m s) = (if m \<in> fst ` set (zset_of (view s k)) then 0 else 1) \<and>
                  (\<exists>xs. view (snd (rZADDNX api k x m s)) = (view s)(k := SSet xs) \<and>
                     set xs = (if m \<in> fst ` set (zset_of (view s k)) then set (zset_of (view s k))
                               else insert (m, x) (set (zset_of (view s k)))))"
    and zadd: "not_str (view s k) \<Longrightarrow>
                  \<exists>xs. view (rZADD api k x m s) = (view s)(k := SSet xs) \<and>
                     set xs = insert (m, x) {p \<in> set (zset_of (view s k)). fst p \<noteq> m}"
    and zpop_empty: "not_str (view s k) \<Longrightarrow> zset_of (view s k) = [] \<Longrightarrow>
                  fst (rZPOPMIN api k s) = None \<and> view (snd (rZPOPMIN api k s)) = view s"
    and zpop: "zset_of (view s k) = p # ps \<Longrightarrow> fst (rZPOPMIN api k s) = Some p \<and>
                  view (snd (rZPOPMIN api k s)) = (view s)(k := if ps = [] then Absent else SSet ps)"
    and zrem: "not_str (view s k) \<Longrightarrow>
                  \<exists>e. view (rZREM api k m s) = (view s)(k := e) \<and> not_str e \<and>
                     zset_of e = filter (\<lambda>p. fst p \<noteq> m) (zset_of (view s k))"
    and tick: "0 \<le> ms \<Longrightarrow> view (rTICK api ms s) = (\<lambda>k. expire ms (view s k))"
    and tonumber: "\<bar>i\<bar> \<le> 9007199254740992 \<Longrightarrow> lua_tonumber api (FormatInt i) = Some i"
    and getf: "view s k = Flt x \<Longrightarrow> rGETF api k s = Some x"
    and getf_absent: "view s k = Absent \<Longrightarrow> rGETF api k s = None"
    and incrf: "view s k = Flt y \<Longrightarrow> view (rINCRBYFLOAT api k x s) = (view s)(k := Flt (y + x))"
    and incrf_absent: "view s k = Absent \<Longrightarrow> view (rINCRBYFLOAT api k x s) = (view s)(k := Flt x)"

type_synonym rfaults = "string \<Rightarrow> (string \<times> bool) option"

definition no_rfaults :: rfaults where
  "no_rfaults site = None"

lemma no_rfaults_None [simp]: "no_rfaults site = None"
  by (simp add: no_rfaults_def)

lemma at_site_no_rfaults [simp]: "at_site name no_rfaults = no_rfaults"
  by (simp add: fun_eq_iff at_site_def)

text \<open>One command or script through the client: the reply, or the network's error.\<close>

definition redis_call ::
  "rfaults \<Rightarrow> string \<Rightarrow> ('r \<Rightarrow> 'a \<times> 'r) \<Rightarrow> 'r \<Rightarrow> ('a \<Rightarrow> 'r \<Rightarrow> (error + 'b) \<times> 'r) \<Rightarrow> (error + 'b) \<times> 'r" where
  "redis_call rf site cmd s k =
     (case rf site of
        Some (e, applied) \<Rightarrow> (Inl (RedisError e), if applied then snd (cmd s) else s)
      | None \<Rightarrow> (case cmd s of (x, s') \<Rightarrow> k x s'))"

lemma redis_call_no_faults [simp]:
  "redis_call no_rfaults site cmd s k = k (fst (cmd s)) (snd (cmd s))"
  by (simp add: redis_call_def split: prod.splits)


section \<open>An in-memory server\<close>

text \<open>
  The server state is the key space itself; \<open>mem_view\<close> reads an entry that no command can have
  written (an elapsed time to live, a list that is no sorted set) as absent.
\<close>

type_synonym mem = "string \<Rightarrow> entry"

definition norm_entry :: "entry \<Rightarrow> entry" where
  "norm_entry e = (case e of
     Str v (Some t) \<Rightarrow> if 0 < t then e else Absent
   | SSet xs \<Rightarrow> if xs \<noteq> [] \<and> zset_ok xs then e else Absent
   | _ \<Rightarrow> e)"

definition mem_view :: "mem \<Rightarrow> string \<Rightarrow> entry" where
  "mem_view s k = norm_entry (s k)"

definition mem_incr :: "string \<Rightarrow> int \<Rightarrow> mem \<Rightarrow> int option \<times> mem" where
  "mem_incr k n s = (case mem_view s k of
     Absent \<Rightarrow> (Some n, s(k := Str (FormatInt n) None))
   | Str v t \<Rightarrow> (case ParseInt v of
       Some i \<Rightarrow> if in_int64 (i + n) then (Some (i + n), s(k := Str (FormatInt (i + n)) t)) else (None, s)
     | None \<Rightarrow> (None, s))
   | _ \<Rightarrow> (None, s))"

definition zput :: "(string \<times> real) list \<Rightarrow> entry" where
  "zput xs = (if xs = [] then Absent else SSet xs)"

definition zadd_list :: "string \<Rightarrow> real \<Rightarrow> (string \<times> real) list \<Rightarrow> (string \<times> real) list" where
  "zadd_list m x xs = insort_key snd (m, x) (filter (\<lambda>p. fst p \<noteq> m) xs)"

definition mem_api :: "mem redis_api" where
  "mem_api =
    \<lparr>rGET = (\<lambda>k s. case mem_view s k of Str v _ \<Rightarrow> Some v | _ \<Rightarrow> None),
     rTTL = (\<lambda>k s. case mem_view s k of Absent \<Rightarrow> - 2 | Str _ (Some t) \<Rightarrow> (t + 500) div 1000 | _ \<Rightarrow> - 1),
     rSET = (\<lambda>k v s. s(k := Str v None)),
     rSETPX = (\<lambda>k v t s. if t \<le> 0 then None else Some (s(k := Str v (Some t)))),
     rSETNX = (\<lambda>k v t s. if mem_view s k = Absent then (True, s(k := Str v (Some t))) else (False, s)),
     rPEXPIRE = (\<lambda>k t s. case mem_view s k of
        Str v _ \<Rightarrow> s(k := if t \<le> 0 then Absent else Str v (Some t)) | _ \<Rightarrow> s),
     rDEL = (\<lambda>k s. s(k := Absent)),
     rINCRBY = mem_incr,
     rGETF = (\<lambda>k s. case mem_view s k of Flt x \<Rightarrow> Some x | _ \<Rightarrow> None),
     rINCRBYFLOAT = (\<lambda>k x s. case mem_view s k of
        Absent \<Rightarrow> s(k := Flt x) | Flt y \<Rightarrow> s(k := Flt (y + x)) | _ \<Rightarrow> s),
     rZRANGE = (\<lambda>k s. zset_of (mem_view s k)),
     rZADDNX = (\<lambda>k x m s. let xs = zset_of (mem_view s k) in
        if m \<in> fst ` set xs then (0, s) else (1, s(k := SSet (zadd_list m x xs)))),
     rZADD = (\<lambda>k x m s. s(k := SSet (zadd_list m x (zset_of (mem_view s k))))),
     rZPOPMIN = (\<lambda>k s. case zset_of (mem_view s k) of
        [] \<Rightarrow> (None, s) | p # ps \<Rightarrow> (Some p, s(k := zput ps))),
     rZREM = (\<lambda>k m s. s(k := zput (filter (\<lambda>p. fst p \<noteq> m) (zset_of (mem_view s k))))),
     rTICK = (\<lambda>ms s k. expire ms (mem_view s k)),
     lua_tonumber = ParseInt\<rparr>"

lemma norm_simps [simp]:
  "norm_entry Absent = Absent" "norm_entry (Str v None) = Str v None" "norm_entry (Flt x) = Flt x"
  "0 < t \<Longrightarrow> norm_entry (Str v (Some t)) = Str v (Some t)"
  "norm_entry (norm_entry e) = norm_entry e"
  by (auto simp: norm_entry_def split: entry.splits option.splits)

lemma mem_view_upd [simp]: "mem_view (s(k := e)) = (mem_view s)(k := norm_entry e)"
  by (auto simp: mem_view_def)

lemma mem_view_norm [simp]: "norm_entry (mem_view s k) = mem_view s k"
  by (simp add: mem_view_def)

lemma mem_view_zset: "zset_ok (zset_of (mem_view s k))"
  by (auto simp: mem_view_def norm_entry_def zset_of_def zset_ok_def split: entry.splits option.splits)

lemma mem_view_ttl: "mem_view s k = Str v (Some t) \<Longrightarrow> 0 < t"
  by (auto simp: mem_view_def norm_entry_def split: entry.splits option.splits if_splits)

lemma mem_view_sset: "mem_view s k = SSet xs \<Longrightarrow> xs \<noteq> [] \<and> zset_ok xs"
  by (auto simp: mem_view_def norm_entry_def split: entry.splits option.splits if_splits)

lemma zset_ok_filter: "zset_ok xs \<Longrightarrow> zset_ok (filter P xs)"
  by (simp add: zset_ok_def sorted_filter distinct_map_filter)

lemma zset_ok_zadd: "zset_ok xs \<Longrightarrow> zset_ok (zadd_list m x xs)"
  using zset_ok_filter [of xs "\<lambda>p. fst p \<noteq> m"]
  by (auto simp: zset_ok_def zadd_list_def sorted_insort_key distinct_map set_insort_key
      inj_on_def distinct_insort)

lemma zadd_list_set: "set (zadd_list m x xs) = insert (m, x) {p \<in> set xs. fst p \<noteq> m}"
  by (auto simp: zadd_list_def set_insort_key)

lemma zadd_list_nonempty [simp]: "zadd_list m x xs \<noteq> []"
  by (simp add: zadd_list_def)

lemma norm_zput: "zset_ok xs \<Longrightarrow> norm_entry (zput xs) = zput xs"
  by (simp add: zput_def norm_entry_def)

interpretation mem: redis_server mem_api mem_view
proof unfold_locales
  fix s :: mem and k m :: string and x :: real
  let ?xs = "zset_of (mem_view s k)"
  have ok: "zset_ok (zadd_list m x ?xs)" by (simp add: zset_ok_zadd mem_view_zset)
  show "fst (rZADDNX mem_api k x m s) = (if m \<in> fst ` set ?xs then 0 else 1) \<and>
    (\<exists>ys. mem_view (snd (rZADDNX mem_api k x m s)) = (mem_view s)(k := SSet ys) \<and>
       set ys = (if m \<in> fst ` set ?xs then set ?xs else insert (m, x) (set ?xs)))"
    if "not_str (mem_view s k)"
  proof (cases "m \<in> fst ` set ?xs")
    case True
    then obtain ys where "mem_view s k = SSet ys"
      by (cases "mem_view s k") (auto simp: zset_of_def)
    then show ?thesis
      using True by (auto simp: mem_api_def Let_def zset_of_def intro!: exI [of _ ys])
  next
    case False
    then have "set (zadd_list m x ?xs) = insert (m, x) (set ?xs)"
      by (auto simp: zadd_list_set)
    then show ?thesis
      using False ok by (auto simp: mem_api_def norm_entry_def)
  qed
  show "\<exists>ys. mem_view (rZADD mem_api k x m s) = (mem_view s)(k := SSet ys) \<and>
     set ys = insert (m, x) {p \<in> set ?xs. fst p \<noteq> m}" if "not_str (mem_view s k)"
    using ok by (auto simp: mem_api_def norm_entry_def zadd_list_set intro!: exI [of _ "zadd_list m x ?xs"])
  show "\<exists>e. mem_view (rZREM mem_api k m s) = (mem_view s)(k := e) \<and> not_str e \<and>
     zset_of e = filter (\<lambda>p. fst p \<noteq> m) ?xs" if "not_str (mem_view s k)"
    using zset_ok_filter [OF mem_view_zset, of "\<lambda>p. fst p \<noteq> m" s k]
    by (intro exI [of _ "zput (filter (\<lambda>p. fst p \<noteq> m) ?xs)"])
      (simp add: mem_api_def norm_zput, simp add: zput_def not_str_def zset_of_def)
next
  fix s :: mem and k :: string and p ps
  assume z: "zset_of (mem_view s k) = p # ps"
  then have "zset_ok ps" using mem_view_zset [of s k] by (simp add: zset_ok_def)
  then show "fst (rZPOPMIN mem_api k s) = Some p \<and>
      mem_view (snd (rZPOPMIN mem_api k s)) = (mem_view s)(k := if ps = [] then Absent else SSet ps)"
    using z by (auto simp: mem_api_def norm_zput) (auto simp: zput_def)
next
  fix s :: mem and ms :: int
  assume "0 \<le> ms"
  then show "mem_view (rTICK mem_api ms s) = (\<lambda>k. expire ms (mem_view s k))"
    by (auto simp: mem_api_def mem_view_def expire_def norm_entry_def fun_eq_iff
        split: entry.splits option.splits)
next
  fix s :: mem and k :: string and i n :: int and t' :: "int option"
  assume v: "mem_view s k = Str (FormatInt i) t'" and "in_int64 i" "in_int64 (i + n)"
  then have "norm_entry (Str (FormatInt (i + n)) t') = Str (FormatInt (i + n)) t'"
    by (cases t') (auto dest: mem_view_ttl)
  then show "fst (rINCRBY mem_api k n s) = Some (i + n) \<and>
      mem_view (snd (rINCRBY mem_api k n s)) = (mem_view s)(k := Str (FormatInt (i + n)) t')"
    using v \<open>in_int64 i\<close> \<open>in_int64 (i + n)\<close> by (simp add: mem_api_def mem_incr_def)
next
  fix s :: mem and k v :: string and t :: int
  assume "mem_view s k = Str v (Some t)"
  then show "0 \<le> rTTL mem_api k s \<and> \<bar>1000 * rTTL mem_api k s - t\<bar> < 1000"
    using mem_view_ttl [of s k v t] by (simp add: mem_api_def) linarith
next
  fix s :: mem and k :: string
  show "zset_ok (zset_of (mem_view s k))" by (rule mem_view_zset)
next
  fix i :: int
  assume "\<bar>i\<bar> \<le> 9007199254740992"
  then have "in_int64 i" by (auto simp: in_int64_def)
  then show "lua_tonumber mem_api (FormatInt i) = Some i"
    by (simp add: mem_api_def)
qed (auto simp: mem_api_def mem_incr_def mem_view_ttl not_str_def zset_of_def
    split: entry.splits option.splits dest: mem_view_ttl)

section \<open>Counters\<close>

text \<open>\<open>counter_at view s key n\<close>: the key counts \<open>n\<close> (a missing key counts 0).\<close>

definition counter_at :: "('r \<Rightarrow> string \<Rightarrow> entry) \<Rightarrow> 'r \<Rightarrow> string \<Rightarrow> int \<Rightarrow> bool" where
  "counter_at view s key n \<longleftrightarrow> (view s key = Absent \<and> n = 0) \<or> view s key = Str (FormatInt n) None"

context redis_server
begin

lemma counter_get:
  "counter_at view s key n \<Longrightarrow> \<bar>n\<bar> \<le> 9007199254740992 \<Longrightarrow>
   (case rGET api key s of None \<Rightarrow> Some 0 | Some current \<Rightarrow> lua_tonumber api current) = Some n"
  by (auto simp: counter_at_def get_absent get_str tonumber)

lemma counter_incr:
  assumes "counter_at view s key n" and "in_int64 n" and "in_int64 (n + x)"
  shows "fst (rINCRBY api key x s) = Some (n + x) \<and>
    view (snd (rINCRBY api key x s)) = (view s)(key := Str (FormatInt (n + x)) None)"
  using assms incr_absent [of s key x] incr_int [of s key n None x]
  by (auto simp: counter_at_def)

lemma counter_incr_at:
  "counter_at view s key n \<Longrightarrow> in_int64 n \<Longrightarrow> in_int64 (n + x) \<Longrightarrow>
   fst (rINCRBY api key x s) = Some (n + x) \<and> counter_at view (snd (rINCRBY api key x s)) key (n + x)"
  using counter_incr [of s key n x] by (simp add: counter_at_def)

end

section \<open>Property of the key builder\<close>

text \<open>
  \<open>BuildKey\<close> rejects, with \<open>ErrInvalidKeyPart\<close>, exactly the calls with an empty part or
  a part that contains a colon, and two accepted calls give the same key only for the same repo, type
  and id: no two components can share a Redis key by accident.
\<close>

theorem build_key_correct:
  "(BuildKey repo t i = Inl ErrInvalidKeyPart \<longleftrightarrow>
      ('''' \<in> {repo, t, i} \<or> CHR '':'' \<in> set repo \<union> set t \<union> set i)) \<and>
   (BuildKey repo t i = BuildKey repo' t' i' \<and> BuildKey repo t i \<noteq> Inl ErrInvalidKeyPart \<longrightarrow>
      (repo, t, i) = (repo', t', i'))"
proof (intro conjI impI)
  show "BuildKey repo t i = Inl ErrInvalidKeyPart \<longleftrightarrow>
      ('''' \<in> {repo, t, i} \<or> CHR '':'' \<in> set repo \<union> set t \<union> set i)"
    by (auto simp: BuildKey_Inl key_part_def)
next
  assume a: "BuildKey repo t i = BuildKey repo' t' i' \<and> BuildKey repo t i \<noteq> Inl ErrInvalidKeyPart"
  then obtain k where k: "BuildKey repo t i = Inr k"
    by (metis BuildKey_Inl sum.exhaust)
  then have k': "BuildKey repo' t' i' = Inr k" using a by argo
  show "(repo, t, i) = (repo', t', i')"
    using BuildKey_inj [OF k k'] by blast
qed

theorem build_key_correct_witness:
  "BuildKey ''acme/api'' ''lease'' ''main'' \<noteq> BuildKey ''acme/api'' ''queue'' ''main''"
  using build_key_correct [of "''acme/api''" "''lease''" "''main''" "''acme/api''" "''queue''" "''main''"]
  by (auto simp: BuildKey_Inl key_part_def)

end
