(* ===== verification/Queue.thy ===== *)
theory Queue
  imports Redis
begin

text \<open>
  The dispatch queue: \<open>internal/scheduler/queue.go\<close>. A repo's queue is the sorted set under
  \<open>codero:repo:queue:pending\<close>, its virtual time the float under \<open>codero:repo:queue:vtime\<close>.
  Scores are \<open>real\<close>: the statements about priorities are weak inequalities, which rounding to
  a 64-bit float preserves.

  \<open>priority_queue\<close> is the contract the dispatcher relies on; its consequence, that draining the
  queue yields every entry once and in priority order, is proved in the locale and holds of the code
  by the \<open>sublocale\<close> of \<open>redis_queue\<close>.
\<close>

section \<open>Operations\<close>

record QueueEntry =
  q_repo :: string
  q_branch :: string
  q_priority :: real
  q_enqueued_at :: gotime
  q_weight :: real

text \<open>The entry a read returns: the fields the queue does not store have their zero value.\<close>

definition read_entry :: "string \<Rightarrow> string \<times> real \<Rightarrow> QueueEntry" where
  "read_entry repo m = \<lparr>q_repo = repo, q_branch = fst m, q_priority = snd m,
     q_enqueued_at = zero_time, q_weight = 0\<rparr>"

definition Enqueue :: "'r redis_api \<Rightarrow> rfaults \<Rightarrow> QueueEntry \<Rightarrow> 'r \<Rightarrow> (error + unit) \<times> 'r" where
  "Enqueue api rf entry s =
     (case BuildKey (q_repo entry) ''queue'' ''pending'' of
        Inl e \<Rightarrow> (Inl e, s)
      | Inr key \<Rightarrow>
         redis_call rf ''zadd nx'' (rZADDNX api key (q_priority entry) (q_branch entry)) s
          (\<lambda>added s'. if added = 0 then (Inl ErrAlreadyEnqueued, s') else (Inr (), s')))"

definition Dequeue :: "'r redis_api \<Rightarrow> rfaults \<Rightarrow> string \<Rightarrow> 'r \<Rightarrow> (error + QueueEntry) \<times> 'r" where
  "Dequeue api rf repo s =
     (case BuildKey repo ''queue'' ''pending'' of
        Inl e \<Rightarrow> (Inl e, s)
      | Inr key \<Rightarrow>
         redis_call rf ''zpopmin'' (rZPOPMIN api key) s
          (\<lambda>member s'. case member of
             None \<Rightarrow> (Inl ErrQueueEmpty, s')
           | Some m \<Rightarrow> (Inr (read_entry repo m), s')))"

definition Peek :: "'r redis_api \<Rightarrow> rfaults \<Rightarrow> string \<Rightarrow> 'r \<Rightarrow> error + QueueEntry" where
  "Peek api rf repo s =
     (case BuildKey repo ''queue'' ''pending'' of
        Inl e \<Rightarrow> Inl e
      | Inr key \<Rightarrow> (case rf ''zrange'' of
          Some (e, _) \<Rightarrow> Inl (RedisError e)
        | None \<Rightarrow> (case rZRANGE api key s of
             [] \<Rightarrow> Inl ErrQueueEmpty
           | m # _ \<Rightarrow> Inr (read_entry repo m))))"

definition Remove :: "'r redis_api \<Rightarrow> rfaults \<Rightarrow> string \<Rightarrow> string \<Rightarrow> 'r \<Rightarrow> (error + unit) \<times> 'r" where
  "Remove api rf repo branch s =
     (case BuildKey repo ''queue'' ''pending'' of
        Inl e \<Rightarrow> (Inl e, s)
      | Inr key \<Rightarrow>
         redis_call rf ''zrem'' (\<lambda>r. ((), rZREM api key branch r)) s (\<lambda>_ s'. (Inr (), s')))"

definition Len :: "'r redis_api \<Rightarrow> rfaults \<Rightarrow> string \<Rightarrow> 'r \<Rightarrow> error + int" where
  "Len api rf repo s =
     (case BuildKey repo ''queue'' ''pending'' of
        Inl e \<Rightarrow> Inl e
      | Inr key \<Rightarrow> (case rf ''zcard'' of
          Some (e, _) \<Rightarrow> Inl (RedisError e)
        | None \<Rightarrow> Inr (int (length (rZRANGE api key s)))))"

definition QueueList :: "'r redis_api \<Rightarrow> rfaults \<Rightarrow> string \<Rightarrow> 'r \<Rightarrow> error + QueueEntry list" where
  "QueueList api rf repo s =
     (case BuildKey repo ''queue'' ''pending'' of
        Inl e \<Rightarrow> Inl e
      | Inr key \<Rightarrow> (case rf ''zrange'' of
          Some (e, _) \<Rightarrow> Inl (RedisError e)
        | None \<Rightarrow> Inr (map (read_entry repo) (rZRANGE api key s))))"

definition UpdatePriority ::
  "'r redis_api \<Rightarrow> rfaults \<Rightarrow> string \<Rightarrow> string \<Rightarrow> real \<Rightarrow> 'r \<Rightarrow> (error + unit) \<times> 'r" where
  "UpdatePriority api rf repo branch priority s =
     (case BuildKey repo ''queue'' ''pending'' of
        Inl e \<Rightarrow> (Inl e, s)
      | Inr key \<Rightarrow>
         redis_call rf ''zadd'' (\<lambda>r. ((), rZADD api key priority branch r)) s (\<lambda>_ s'. (Inr (), s')))"

section \<open>Weighted fair queueing\<close>

definition ComputeWFQPriority :: "real \<Rightarrow> real \<Rightarrow> real" where
  "ComputeWFQPriority virtualTime weight0 =
     (let weight = (if weight0 \<le> 0 then 1 else weight0) in virtualTime + 1 / weight)"

definition VirtualTime_Get :: "'r redis_api \<Rightarrow> rfaults \<Rightarrow> string \<Rightarrow> 'r \<Rightarrow> error + real" where
  "VirtualTime_Get api rf repo s =
     (case BuildKey repo ''queue'' ''vtime'' of
        Inl e \<Rightarrow> Inl e
      | Inr key \<Rightarrow> (case rf ''get'' of
          Some (e, _) \<Rightarrow> Inl (RedisError e)
        | None \<Rightarrow> (case rGETF api key s of None \<Rightarrow> Inr 0 | Some v \<Rightarrow> Inr v)))"

definition VirtualTime_Advance ::
  "'r redis_api \<Rightarrow> rfaults \<Rightarrow> string \<Rightarrow> real \<Rightarrow> 'r \<Rightarrow> (error + unit) \<times> 'r" where
  "VirtualTime_Advance api rf repo weight0 s =
     (case BuildKey repo ''queue'' ''vtime'' of
        Inl e \<Rightarrow> (Inl e, s)
      | Inr key \<Rightarrow>
         (let weight = (if weight0 \<le> 0 then 1 else weight0); delta = 1 / weight in
          redis_call rf ''incrbyfloat'' (\<lambda>r. ((), rINCRBYFLOAT api key delta r)) s
            (\<lambda>_ s'. (Inr (), s'))))"

definition VirtualTime_Reset :: "'r redis_api \<Rightarrow> rfaults \<Rightarrow> string \<Rightarrow> 'r \<Rightarrow> (error + unit) \<times> 'r" where
  "VirtualTime_Reset api rf repo s =
     (case BuildKey repo ''queue'' ''vtime'' of
        Inl e \<Rightarrow> (Inl e, s)
      | Inr key \<Rightarrow> redis_call rf ''del'' (\<lambda>r. ((), rDEL api key r)) s (\<lambda>_ s'. (Inr (), s')))"

definition ComputeAgingPriority :: "real \<Rightarrow> duration \<Rightarrow> real \<Rightarrow> real" where
  "ComputeAgingPriority basePriority waitTime agingFactor0 =
     (let agingFactor = (if agingFactor0 \<le> 0 then 1 / 100 else agingFactor0);
          agingBonus = (real_of_int waitTime / 1000000000) * agingFactor
      in basePriority - agingBonus)"

definition hasPrefix :: "string \<Rightarrow> string list \<Rightarrow> bool" where
  "hasPrefix s prefixes \<longleftrightarrow> list_ex (\<lambda>p. length p \<le> length s \<and> take (length p) s = p) prefixes"

definition ClassifyWeight :: "string \<Rightarrow> real" where
  "ClassifyWeight branch =
     (if hasPrefix branch [''hotfix/'', ''urgent/'', ''critical/''] then 2
      else if hasPrefix branch [''release/'', ''rel/''] then 3 / 2
      else if hasPrefix branch [''experiment/'', ''exp/'', ''poc/''] then 1 / 2
      else 1)"

section \<open>The contract of a priority queue\<close>

text \<open>Running an operation \<open>n\<close> times, collecting its results.\<close>

primrec repeat_op :: "('s \<Rightarrow> 'a \<times> 's) \<Rightarrow> nat \<Rightarrow> 's \<Rightarrow> 'a list \<times> 's" where
  "repeat_op f 0 s = ([], s)"
| "repeat_op f (Suc n) s =
     (fst (f s) # fst (repeat_op f n (snd (f s))), snd (repeat_op f n (snd (f s))))"

text \<open>
  \<open>ok\<close> says that the queue's store is intact, \<open>contents\<close> lists the entries, best first;
  \<open>pop\<close> answers \<open>item p\<close> or \<open>none\<close>, \<open>push\<close> answers \<open>added\<close> or \<open>present\<close>.
\<close>

locale priority_queue =
  fixes ok :: "'s \<Rightarrow> bool"
    and contents :: "'s \<Rightarrow> (string \<times> real) list"
    and pop :: "'s \<Rightarrow> 'a \<times> 's"
    and item :: "string \<times> real \<Rightarrow> 'a"
    and none :: 'a
    and push :: "string \<Rightarrow> real \<Rightarrow> 's \<Rightarrow> 'b \<times> 's"
    and added :: 'b
    and present :: 'b
  assumes contents_ok: "ok s \<Longrightarrow> zset_ok (contents s)"
    and pop_empty: "ok s \<Longrightarrow> contents s = [] \<Longrightarrow> fst (pop s) = none"
    and pop_min: "ok s \<Longrightarrow> contents s = p # ps \<Longrightarrow>
                  fst (pop s) = item p \<and> ok (snd (pop s)) \<and> contents (snd (pop s)) = ps"
    and push_new: "ok s \<Longrightarrow> b \<notin> fst ` set (contents s) \<Longrightarrow>
                  fst (push b x s) = added \<and> ok (snd (push b x s)) \<and>
                  set (contents (snd (push b x s))) = insert (b, x) (set (contents s))"
    and push_old: "ok s \<Longrightarrow> b \<in> fst ` set (contents s) \<Longrightarrow>
                  fst (push b x s) = present \<and> ok (snd (push b x s)) \<and>
                  set (contents (snd (push b x s))) = set (contents s)"
begin

lemma drained:
  "ok s \<Longrightarrow> n = length (contents s) \<Longrightarrow> fst (repeat_op pop (Suc n) s) = map item (contents s) @ [none]"
proof (induction n arbitrary: s)
  case 0
  then show ?case using pop_empty by simp
next
  case (Suc n)
  then obtain p ps where c: "contents s = p # ps" by (cases "contents s") auto
  from pop_min [OF Suc.prems(1) c] Suc.IH [of "snd (pop s)"] Suc.prems(2) c show ?case by simp
qed

lemma drained_in_order:
  assumes "ok s"
  shows "fst (repeat_op pop (Suc (length (contents s))) s) = map item (contents s) @ [none] \<and>
    sorted (map snd (contents s)) \<and> distinct (map fst (contents s))"
  using drained [OF assms refl] contents_ok [OF assms] by (simp add: zset_ok_def)

text \<open>An entry that is strictly worse than the others is popped after all of them.\<close>

lemma pushed_last:
  assumes "ok s" and "b \<notin> fst ` set (contents s)" and "\<forall>p\<in>set (contents s). snd p < x"
  shows "last (contents (snd (push b x s))) = (b, x)"
proof -
  let ?c = "contents (snd (push b x s))"
  have ok: "zset_ok ?c" and set: "set ?c = insert (b, x) (set (contents s))"
    using push_new [OF assms(1,2), of x] contents_ok [of "snd (push b x s)"] by simp_all
  from set have "?c \<noteq> []" by (metis empty_iff empty_set insertI1)
  then obtain ys y where c: "?c = ys @ [y]" by (metis rev_exhaust)
  with ok have "\<forall>z\<in>set ?c. snd z \<le> snd y" by (auto simp: zset_ok_def sorted_append)
  with set have "x \<le> snd y" by (metis insertI1 snd_conv)
  moreover have "y \<in> insert (b, x) (set (contents s))"
    unfolding set [symmetric] c by simp
  ultimately have "y = (b, x)" using assms(3) by (metis insertE not_le)
  with c show ?thesis by simp
qed

end

section \<open>The queue in Redis\<close>

definition queue_key :: "string \<Rightarrow> string" where
  "queue_key repo = ''codero:'' @ repo @ '':queue:pending''"

definition vtime_key :: "string \<Rightarrow> string" where
  "vtime_key repo = ''codero:'' @ repo @ '':queue:vtime''"

definition queue_entry :: "string \<Rightarrow> string \<Rightarrow> real \<Rightarrow> QueueEntry" where
  "queue_entry repo b x = \<lparr>q_repo = repo, q_branch = b, q_priority = x, q_enqueued_at = zero_time, q_weight = 0\<rparr>"

lemma queue_key_eq [simp]:
  "key_part repo \<Longrightarrow> BuildKey repo ''queue'' ''pending'' = Inr (queue_key repo)"
  "key_part repo \<Longrightarrow> BuildKey repo ''queue'' ''vtime'' = Inr (vtime_key repo)"
  by (simp_all add: queue_key_def vtime_key_def)

locale redis_queue = redis_server api view
  for api :: "'r redis_api" and view +
  fixes repo :: string
  assumes repo: "key_part repo"

sublocale redis_queue \<subseteq> pq: priority_queue
  "\<lambda>s. not_str (view s (queue_key repo))" "\<lambda>s. rZRANGE api (queue_key repo) s"
  "Dequeue api no_rfaults repo" "\<lambda>p. Inr (read_entry repo p)" "Inl ErrQueueEmpty"
  "\<lambda>b x. Enqueue api no_rfaults (queue_entry repo b x)" "Inr ()" "Inl ErrAlreadyEnqueued"
proof unfold_locales
  fix s
  assume ok: "not_str (view s (queue_key repo))"
  note zr = zrange [OF ok]
  show "zset_ok (rZRANGE api (queue_key repo) s)" by (simp add: zr zrange_ok)
  show "fst (Dequeue api no_rfaults repo s) = Inl ErrQueueEmpty" if "rZRANGE api (queue_key repo) s = []"
    using zpop_empty [OF ok] that by (simp add: Dequeue_def repo zr)
  show "fst (Dequeue api no_rfaults repo s) = Inr (read_entry repo p) \<and>
      not_str (view (snd (Dequeue api no_rfaults repo s)) (queue_key repo)) \<and>
      rZRANGE api (queue_key repo) (snd (Dequeue api no_rfaults repo s)) = ps"
    if "rZRANGE api (queue_key repo) s = p # ps" for p ps
  proof -
    let ?s' = "snd (rZPOPMIN api (queue_key repo) s)"
    have z: "fst (rZPOPMIN api (queue_key repo) s) = Some p"
      "view ?s' (queue_key repo) = (if ps = [] then Absent else SSet ps)"
      using zpop [of s "queue_key repo" p ps] that zr by auto
    then have "not_str (view ?s' (queue_key repo))" by (simp add: not_str_def)
    with z show ?thesis
      using zrange [of ?s' "queue_key repo"] by (simp add: Dequeue_def repo zset_of_def)
  qed
  fix b x
  let ?r = "rZADDNX api (queue_key repo) x b s"
  obtain xs where xs: "view (snd ?r) (queue_key repo) = SSet xs"
    "set xs = (if b \<in> fst ` set (zset_of (view s (queue_key repo)))
       then set (zset_of (view s (queue_key repo)))
       else insert (b, x) (set (zset_of (view s (queue_key repo)))))"
    using zaddnx [OF ok, of x b] by auto
  have ok': "not_str (view (snd ?r) (queue_key repo))" by (simp add: xs not_str_def)
  show "fst (Enqueue api no_rfaults (queue_entry repo b x) s) = Inr () \<and>
      not_str (view (snd (Enqueue api no_rfaults (queue_entry repo b x) s)) (queue_key repo)) \<and>
      set (rZRANGE api (queue_key repo) (snd (Enqueue api no_rfaults (queue_entry repo b x) s))) =
        insert (b, x) (set (rZRANGE api (queue_key repo) s))"
    if "b \<notin> fst ` set (rZRANGE api (queue_key repo) s)"
    using that zaddnx [OF ok, of x b] ok' zrange [OF ok'] xs
    by (simp add: Enqueue_def queue_entry_def repo zr zset_of_def)
  show "fst (Enqueue api no_rfaults (queue_entry repo b x) s) = Inl ErrAlreadyEnqueued \<and>
      not_str (view (snd (Enqueue api no_rfaults (queue_entry repo b x) s)) (queue_key repo)) \<and>
      set (rZRANGE api (queue_key repo) (snd (Enqueue api no_rfaults (queue_entry repo b x) s))) =
        set (rZRANGE api (queue_key repo) s)"
    if "b \<in> fst ` set (rZRANGE api (queue_key repo) s)"
    using that zaddnx [OF ok, of x b] ok' zrange [OF ok'] xs
    by (simp add: Enqueue_def queue_entry_def repo zr zset_of_def)
qed

context redis_queue
begin

lemma queue_drained:
  "not_str (view s (queue_key repo)) \<Longrightarrow>
   fst (repeat_op (Dequeue api no_rfaults repo) (Suc (length (rZRANGE api (queue_key repo) s))) s) =
     map (\<lambda>p. Inr (read_entry repo p)) (rZRANGE api (queue_key repo) s) @ [Inl ErrQueueEmpty] \<and>
   sorted (map snd (rZRANGE api (queue_key repo) s)) \<and>
   distinct (map fst (rZRANGE api (queue_key repo) s))"
  by (rule pq.drained_in_order)

end

interpretation memq: redis_queue mem_api mem_view "''acme/api''"
  by unfold_locales (simp add: key_part_def)

lemma queue_vtime_keys [simp]: "queue_key repo \<noteq> vtime_key repo" "vtime_key repo \<noteq> queue_key repo"
  by (simp_all add: queue_key_def vtime_key_def)

context redis_server
begin

lemma enqueue_frame:
  assumes "key_part (q_repo e)" and "not_str (view s (queue_key (q_repo e)))"
    and "k \<noteq> queue_key (q_repo e)"
  shows "view (snd (Enqueue api rf e s)) k = view s k"
proof -
  let ?r = "rZADDNX api (queue_key (q_repo e)) (q_priority e) (q_branch e) s"
  have "view (snd ?r) k = view s k"
    using zaddnx [OF assms(2), of "q_priority e" "q_branch e"] assms(3) by auto
  then show ?thesis
    using assms(1)
    by (auto simp: Enqueue_def redis_call_def split: option.splits prod.splits if_splits)
qed

lemma enqueue_effect:
  assumes "key_part (q_repo e)" and "not_str (view s (queue_key (q_repo e)))"
  defines "old \<equiv> set (zset_of (view s (queue_key (q_repo e))))"
  shows "fst (Enqueue api no_rfaults e s) =
      (if q_branch e \<in> fst ` old then Inl ErrAlreadyEnqueued else Inr ())"
    and "set (zset_of (view (snd (Enqueue api no_rfaults e s)) (queue_key (q_repo e)))) =
      (if q_branch e \<in> fst ` old then old else insert (q_branch e, q_priority e) old)"
proof -
  let ?r = "rZADDNX api (queue_key (q_repo e)) (q_priority e) (q_branch e) s"
  obtain xs where xs: "fst ?r = (if q_branch e \<in> fst ` old then 0 else 1)"
    "view (snd ?r) (queue_key (q_repo e)) = SSet xs"
    "set xs = (if q_branch e \<in> fst ` old then old else insert (q_branch e, q_priority e) old)"
    using zaddnx [OF assms(2), of "q_priority e" "q_branch e"] unfolding old_def by auto
  have snd: "snd (Enqueue api no_rfaults e s) = snd ?r"
    and fst: "fst (Enqueue api no_rfaults e s) =
      (if fst ?r = 0 then Inl ErrAlreadyEnqueued else Inr ())"
    using assms(1) by (simp_all add: Enqueue_def)
  show "fst (Enqueue api no_rfaults e s) =
      (if q_branch e \<in> fst ` old then Inl ErrAlreadyEnqueued else Inr ())"
    unfolding fst xs(1) by simp
  show "set (zset_of (view (snd (Enqueue api no_rfaults e s)) (queue_key (q_repo e)))) =
      (if q_branch e \<in> fst ` old then old else insert (q_branch e, q_priority e) old)"
    unfolding snd xs(2) by (simp add: zset_of_def xs(3))
qed

lemma vtime_advance:
  assumes "key_part repo" and "view s (vtime_key repo) = Absent \<or> view s (vtime_key repo) = Flt v"
    and "VirtualTime_Get api no_rfaults repo s = Inr v"
  shows "VirtualTime_Get api no_rfaults repo (snd (VirtualTime_Advance api no_rfaults repo w s)) =
      Inr (v + 1 / (if w \<le> 0 then 1 else w))"
    and "k \<noteq> vtime_key repo \<Longrightarrow>
      view (snd (VirtualTime_Advance api no_rfaults repo w s)) k = view s k"
proof -
  let ?d = "1 / (if w \<le> 0 then 1 else w)"
  let ?s' = "rINCRBYFLOAT api (vtime_key repo) ?d s"
  have v: "view ?s' = (view s)(vtime_key repo := Flt (v + ?d))"
  proof (cases "view s (vtime_key repo) = Absent")
    case True
    then have "v = 0"
      using assms(1,3) getf_absent by (simp add: VirtualTime_Get_def)
    then show ?thesis using incrf_absent [OF True, of ?d] by simp
  next
    case False
    then show ?thesis using incrf [of s "vtime_key repo" v ?d] assms(2) by simp
  qed
  have s': "snd (VirtualTime_Advance api no_rfaults repo w s) = ?s'"
    using assms(1) by (simp add: VirtualTime_Advance_def Let_def)
  show "VirtualTime_Get api no_rfaults repo (snd (VirtualTime_Advance api no_rfaults repo w s)) =
      Inr (v + ?d)"
    unfolding s' using getf [of ?s' "vtime_key repo" "v + ?d"] v assms(1)
    by (simp add: VirtualTime_Get_def)
  show "k \<noteq> vtime_key repo \<Longrightarrow>
      view (snd (VirtualTime_Advance api no_rfaults repo w s)) k = view s k"
    unfolding s' by (simp add: v)
qed

end

text \<open>A queue on which the properties are exercised.\<close>

definition demo_queue :: mem where
  "demo_queue = snd (Enqueue mem_api no_rfaults (queue_entry ''acme/api'' ''fix'' 2)
     (snd (Enqueue mem_api no_rfaults (queue_entry ''acme/api'' ''feat'' 1) (\<lambda>_. Absent))))"

section \<open>Properties of the queue\<close>

text \<open>
  Draining a repo's queue with \<open>Dequeue\<close> returns every entry that \<open>List\<close> shows, each once
  and in the order of its priority, best first, and then \<open>ErrQueueEmpty\<close>: nothing is lost or
  served twice.
\<close>

theorem queue_drains_in_order:
  assumes "redis_server api view" and "key_part repo" and "not_str (view s (queue_key repo))"
  shows "\<exists>xs. QueueList api no_rfaults repo s = Inr (map (read_entry repo) xs) \<and>
    sorted (map snd xs) \<and> distinct (map fst xs) \<and>
    fst (repeat_op (Dequeue api no_rfaults repo) (Suc (length xs)) s) =
      map (\<lambda>p. Inr (read_entry repo p)) xs @ [Inl ErrQueueEmpty]"
proof -
  have q: "redis_queue api view repo"
    using assms(1,2) by (simp add: redis_queue_def redis_queue_axioms_def)
  show ?thesis
    using redis_queue.queue_drained [OF q assms(3)] assms(2)
    by (intro exI [of _ "rZRANGE api (queue_key repo) s"]) (simp add: QueueList_def)
qed

lemma demo_queue_eval:
  "mem_view demo_queue (queue_key ''acme/api'') = SSet [(''feat'', 1), (''fix'', 2)]"
  by (simp add: demo_queue_def Enqueue_def queue_entry_def key_part_def mem_api_def mem_view_def
      norm_entry_def zset_of_def zadd_list_def zset_ok_def)

theorem queue_drains_in_order_witness:
  "fst (repeat_op (Dequeue mem_api no_rfaults ''acme/api'') 3 demo_queue) =
     [Inr (read_entry ''acme/api'' (''feat'', 1)), Inr (read_entry ''acme/api'' (''fix'', 2)),
      Inl ErrQueueEmpty]"
proof -
  have kp: "key_part ''acme/api''" and ns: "not_str (mem_view demo_queue (queue_key ''acme/api''))"
    by (simp_all add: key_part_def demo_queue_eval not_str_def)
  obtain xs where xs: "QueueList mem_api no_rfaults ''acme/api'' demo_queue =
      Inr (map (read_entry ''acme/api'') xs)"
    "fst (repeat_op (Dequeue mem_api no_rfaults ''acme/api'') (Suc (length xs)) demo_queue) =
      map (\<lambda>p. Inr (read_entry ''acme/api'' p)) xs @ [Inl ErrQueueEmpty]"
    using queue_drains_in_order [of mem_api mem_view "''acme/api''" demo_queue]
      mem.redis_server_axioms kp ns by auto
  have "map (read_entry ''acme/api'') xs = map (read_entry ''acme/api'') [(''feat'', 1), (''fix'', 2)]"
    using xs(1) kp
    by (simp add: QueueList_def mem_api_def demo_queue_eval zset_of_def)
  then have "xs = [(''feat'', 1), (''fix'', 2)]"
    by (auto simp: read_entry_def map_eq_Cons_conv prod_eq_iff)
  with xs(2) show ?thesis by (simp add: numeral_3_eq_3)
qed

text \<open>
  \<open>Enqueue\<close> adds a branch with its priority when the branch is not queued; otherwise it
  answers \<open>ErrAlreadyEnqueued\<close> and the queued priority stays. The queues of other repos and all
  other keys are untouched, also when the call fails on the network.
\<close>

theorem enqueue_correct:
  assumes "redis_server api view" and "key_part (q_repo e)" and "not_str (view s (queue_key (q_repo e)))"
  shows "fst (Enqueue api no_rfaults e s) =
      (if q_branch e \<in> fst ` set (zset_of (view s (queue_key (q_repo e))))
       then Inl ErrAlreadyEnqueued else Inr ()) \<and>
    set (zset_of (view (snd (Enqueue api no_rfaults e s)) (queue_key (q_repo e)))) =
      (if q_branch e \<in> fst ` set (zset_of (view s (queue_key (q_repo e))))
       then set (zset_of (view s (queue_key (q_repo e))))
       else insert (q_branch e, q_priority e) (set (zset_of (view s (queue_key (q_repo e)))))) \<and>
    (\<forall>rf k. k \<noteq> queue_key (q_repo e) \<longrightarrow> view (snd (Enqueue api rf e s)) k = view s k)"
  using redis_server.enqueue_effect [OF assms] redis_server.enqueue_frame [OF assms] by blast

theorem enqueue_correct_witness:
  "fst (Enqueue mem_api no_rfaults (queue_entry ''acme/api'' ''fix'' 9) demo_queue) = Inl ErrAlreadyEnqueued \<and>
   fst (Enqueue mem_api no_rfaults (queue_entry ''acme/api'' ''new'' 9) demo_queue) = Inr ()"
  using enqueue_correct [OF mem.redis_server_axioms, of "queue_entry ''acme/api'' ''fix'' 9" demo_queue]
    enqueue_correct [OF mem.redis_server_axioms, of "queue_entry ''acme/api'' ''new'' 9" demo_queue]
  by (simp add: queue_entry_def demo_queue_eval zset_of_def not_str_def key_part_def)

text \<open>
  Virtual time is fair. Servicing a branch of weight \<open>w\<close> advances the repo's virtual time
  by \<open>1 / w\<close> (1 for a weight that is not positive) and touches nothing else; a branch that
  arrives afterwards with no larger weight gets no better priority than one that arrived before; and
  a longer wait never makes a priority worse.
\<close>

theorem virtual_time_fair:
  assumes "redis_server api view" and "key_part repo"
    and "view s (vtime_key repo) = Absent \<or> view s (vtime_key repo) = Flt v"
    and "VirtualTime_Get api no_rfaults repo s = Inr v" and "0 < w2" and "w2 \<le> w1"
    and "wait1 \<le> wait2"
  shows "VirtualTime_Get api no_rfaults repo (snd (VirtualTime_Advance api no_rfaults repo w s)) =
      Inr (v + 1 / (if w \<le> 0 then 1 else w)) \<and>
    ComputeWFQPriority v w1 \<le> ComputeWFQPriority (v + 1 / (if w \<le> 0 then 1 else w)) w2 \<and>
    (\<forall>k. k \<noteq> vtime_key repo \<longrightarrow> view (snd (VirtualTime_Advance api no_rfaults repo w s)) k = view s k) \<and>
    ComputeAgingPriority p wait2 f \<le> ComputeAgingPriority p wait1 f"
proof -
  note adv = redis_server.vtime_advance [OF assms(1-4)]
  have "1 / w1 \<le> 1 / w2" using assms(5,6) by (simp add: frac_le)
  moreover have "0 \<le> 1 / (if w \<le> 0 then 1 else w)" by simp
  ultimately have "ComputeWFQPriority v w1 \<le> ComputeWFQPriority (v + 1 / (if w \<le> 0 then 1 else w)) w2"
    unfolding ComputeWFQPriority_def Let_def using assms(5,6)
    by (simp add: add_increasing)
  moreover have "ComputeAgingPriority p wait2 f \<le> ComputeAgingPriority p wait1 f"
    using assms(7) by (simp add: ComputeAgingPriority_def Let_def)
  ultimately show ?thesis using adv by blast
qed

theorem virtual_time_fair_witness:
  "VirtualTime_Get mem_api no_rfaults ''acme/api''
     (snd (VirtualTime_Advance mem_api no_rfaults ''acme/api'' 2 (\<lambda>_. Absent))) = Inr (1 / 2) \<and>
   ComputeWFQPriority 0 2 \<le> ComputeWFQPriority (1 / 2) 1"
proof -
  have "VirtualTime_Get mem_api no_rfaults ''acme/api'' (\<lambda>_. Absent) = Inr 0"
    by (simp add: VirtualTime_Get_def key_part_def mem_api_def mem_view_def)
  then show ?thesis
    using virtual_time_fair [OF mem.redis_server_axioms, of "''acme/api''" "\<lambda>_. Absent" 0 1 2 1 2 2 0 0]
    by (simp add: key_part_def mem_view_def)
qed

end
