(* ===== verification/Lifecycle.thy ===== *)
theory Lifecycle
  imports Prelude
begin

text \<open>
  The two interfaces the lifecycle components share.

  \<open>lifecycle\<close> is the contract of a state machine: a step relation and its final states,
  which have no step. The branch machine and the assignment machine both satisfy it, and what
  follows from the contract alone (final states are absorbing, a state whose only predecessor is
  \<open>g\<close> is reached through \<open>g\<close>) is proved here once.

  \<open>fsm_library\<close> states what the program relies on of the third-party package
  \<open>looplab/fsm\<close>: \<open>Can\<close> and \<open>Event\<close> as its documentation describes them. The
  package is a parameter of the model (the record \<open>fsm_lib\<close>).
\<close>

section \<open>State machines\<close>

text \<open>A run of a machine: each state is a step from the one before.\<close>

fun trace :: "('s \<Rightarrow> 's \<Rightarrow> bool) \<Rightarrow> 's \<Rightarrow> 's list \<Rightarrow> bool" where
  "trace step s [] = True"
| "trace step s (t # ts) = (step s t \<and> trace step t ts)"

lemma trace_append [simp]:
  "trace step s (xs @ ys) \<longleftrightarrow> trace step s xs \<and> trace step (last (s # xs)) ys"
  by (induction xs arbitrary: s) auto

lemma trace_rtranclp: "trace step s ts \<Longrightarrow> step\<^sup>*\<^sup>* s (last (s # ts))"
proof (induction ts arbitrary: s)
  case (Cons t ts)
  then have "step s t" and "step\<^sup>*\<^sup>* t (last (t # ts))" by auto
  then show ?case by (simp add: converse_rtranclp_into_rtranclp)
qed simp

locale lifecycle =
  fixes step :: "'s \<Rightarrow> 's \<Rightarrow> bool"
    and final :: "'s \<Rightarrow> bool"
  assumes final_no_step: "final s \<Longrightarrow> \<not> step s t"
begin

lemma final_absorbing: "step\<^sup>*\<^sup>* s t \<Longrightarrow> final s \<Longrightarrow> t = s"
  by (induction rule: converse_rtranclp_induct) (auto simp: final_no_step)

lemma final_trace: "trace step s ts \<Longrightarrow> final s \<Longrightarrow> ts = []"
  by (cases ts) (auto simp: final_no_step)

lemma final_only_last:
  "trace step s ts \<Longrightarrow> i < length ts \<Longrightarrow> final (ts ! i) \<Longrightarrow> i = length ts - 1"
proof (induction ts arbitrary: s i)
  case (Cons t ts)
  show ?case
  proof (cases i)
    case 0
    with Cons.prems show ?thesis using final_trace [of t ts] by simp
  next
    case (Suc j)
    with Cons.prems Cons.IH [of t j] show ?thesis by auto
  qed
qed simp

text \<open>A state with a single predecessor is entered through it.\<close>

lemma gate_before:
  assumes pred: "\<And>x. step x t \<Longrightarrow> x = g"
  shows "trace step s ts \<Longrightarrow> i < length ts \<Longrightarrow> ts ! i = t \<Longrightarrow>
         (s # ts) ! i = g"
proof (induction ts arbitrary: s i)
  case (Cons u us)
  then show ?case
    by (cases i) (auto dest: pred)
qed simp

lemma gate_in_trace:
  assumes pred: "\<And>x. step x t \<Longrightarrow> x = g"
    and run: "trace step s ts" and fin: "t \<in> set ts"
  shows "g \<in> set (s # ts)"
proof -
  from fin obtain i where i: "i < length ts" "ts ! i = t"
    by (auto simp: in_set_conv_nth)
  then have "(s # ts) ! i = g"
    using gate_before [of t g s ts i] pred run by blast
  moreover have "(s # ts) ! i \<in> set (s # ts)"
    using i by (intro nth_mem) simp
  ultimately show ?thesis by simp
qed

end

section \<open>The FSM package\<close>

record fsm_event =
  ev_name :: string
  ev_src :: "string list"
  ev_dst :: string

record fsm_lib =
  fsm_Can :: "fsm_event list \<Rightarrow> string \<Rightarrow> string \<Rightarrow> bool"
  fsm_Event :: "fsm_event list \<Rightarrow> string \<Rightarrow> string \<Rightarrow> error + string"

locale fsm_library =
  fixes lib :: fsm_lib
  assumes can_iff:
      "fsm_Can lib evs cur nm \<longleftrightarrow> (\<exists>e\<in>set evs. ev_name e = nm \<and> cur \<in> set (ev_src e))"
    and event_moves:
      "fsm_Can lib evs cur nm \<Longrightarrow>
       (\<And>e. e \<in> set evs \<Longrightarrow> ev_name e = nm \<Longrightarrow> cur \<in> set (ev_src e) \<Longrightarrow> ev_dst e = d) \<Longrightarrow>
       d \<noteq> cur \<Longrightarrow> fsm_Event lib evs cur nm = Inr d"
begin

lemma can_member: "e \<in> set evs \<Longrightarrow> cur \<in> set (ev_src e) \<Longrightarrow> fsm_Can lib evs cur (ev_name e)"
  by (auto simp: can_iff)

end

text \<open>
  A machine that behaves as the package documents, by searching the event list. It shows that the
  contract can be met and evaluates in the witnesses.
\<close>

definition list_fsm :: fsm_lib where
  "list_fsm = \<lparr>fsm_Can = (\<lambda>evs cur nm. \<exists>e\<in>set evs. ev_name e = nm \<and> cur \<in> set (ev_src e)),
     fsm_Event = (\<lambda>evs cur nm.
       case find (\<lambda>e. ev_name e = nm \<and> cur \<in> set (ev_src e)) evs of
         None \<Rightarrow> Inl (OtherError ''event inappropriate in current state'')
       | Some e \<Rightarrow> if ev_dst e = cur then Inl (OtherError ''no transition'') else Inr (ev_dst e))\<rparr>"

interpretation listfsm: fsm_library list_fsm
proof unfold_locales
  fix evs cur nm d
  assume can: "fsm_Can list_fsm evs cur nm"
    and dst: "\<And>e. e \<in> set evs \<Longrightarrow> ev_name e = nm \<Longrightarrow> cur \<in> set (ev_src e) \<Longrightarrow> ev_dst e = d"
    and ne: "d \<noteq> cur"
  from can obtain e where
    e: "find (\<lambda>e. ev_name e = nm \<and> cur \<in> set (ev_src e)) evs = Some e"
    by (auto simp: list_fsm_def find_None_iff dest!: not_None_eq [THEN iffD1]
        intro: option.exhaust [of "find (\<lambda>e. ev_name e = nm \<and> cur \<in> set (ev_src e)) evs"])
  with find_Some_set [OF e] dst ne show "fsm_Event list_fsm evs cur nm = Inr d"
    by (auto simp: list_fsm_def)
qed (simp add: list_fsm_def)

end
