(* ===== verification/Branch_FSM.thy ===== *)
theory Branch_FSM
  imports Lifecycle
begin

text \<open>
  The branch lifecycle of \<open>internal/state/state.go\<close> and \<open>internal/state/fsm.go\<close>.

  The Go type \<open>State\<close> is a string with eleven named constants; a column may hold any other
  string, which is \<open>StateOther\<close>. \<open>transitions\<close> is the table of the source row by row.
  \<open>branch_step\<close> is the specification: the transitions T02 to T20 as the comments name them,
  with "any active" and "any" written as conditions. The theorems show that the table is exactly
  this relation, that the check through \<open>looplab/fsm\<close> accepts the same pairs, that
  \<open>merged\<close> is absorbing, and that \<open>merge_ready\<close> is entered through review.
\<close>

section \<open>States and the transition table\<close>

datatype state =
    StateSubmitted
  | StateWaiting
  | StateQueuedCLI
  | StateCLIReviewing
  | StateReviewApproved
  | StateMergeReady
  | StateStale
  | StateAbandoned
  | StateBlocked
  | StateExpired
  | StateMerged
  | StateOther string

fun state_str :: "state \<Rightarrow> string" where
  "state_str StateSubmitted = ''submitted''"
| "state_str StateWaiting = ''waiting''"
| "state_str StateQueuedCLI = ''queued_cli''"
| "state_str StateCLIReviewing = ''cli_reviewing''"
| "state_str StateReviewApproved = ''review_approved''"
| "state_str StateMergeReady = ''merge_ready''"
| "state_str StateStale = ''stale''"
| "state_str StateAbandoned = ''abandoned''"
| "state_str StateBlocked = ''blocked''"
| "state_str StateExpired = ''expired''"
| "state_str StateMerged = ''merged''"
| "state_str (StateOther s) = s"

definition transitions :: "(state \<times> state list) list" where
  "transitions =
    [(StateSubmitted, [StateWaiting, StateQueuedCLI, StateStale, StateAbandoned, StateBlocked, StateMerged]),
     (StateWaiting, [StateSubmitted, StateQueuedCLI, StateStale, StateAbandoned, StateBlocked, StateMerged]),
     (StateQueuedCLI, [StateCLIReviewing, StateExpired, StateStale, StateAbandoned, StateBlocked, StateMerged]),
     (StateCLIReviewing, [StateQueuedCLI, StateReviewApproved, StateStale, StateAbandoned, StateBlocked, StateMerged]),
     (StateReviewApproved, [StateSubmitted, StateMergeReady, StateStale, StateAbandoned, StateBlocked, StateMerged]),
     (StateMergeReady, [StateSubmitted, StateStale, StateAbandoned, StateBlocked, StateMerged]),
     (StateStale, [StateQueuedCLI, StateMerged]),
     (StateAbandoned, [StateQueuedCLI, StateMerged]),
     (StateBlocked, [StateQueuedCLI, StateMerged]),
     (StateExpired, [StateQueuedCLI, StateMerged]),
     (StateMerged, [])]"

definition ValidateTransition :: "state \<Rightarrow> state \<Rightarrow> error option" where
  "ValidateTransition from to =
     (case map_of transitions from of
        Some allowed \<Rightarrow> if to \<in> set allowed then None else Some ErrInvalidTransition
      | None \<Rightarrow> Some ErrInvalidTransition)"

definition ActiveStates :: "state list" where
  "ActiveStates = [StateSubmitted, StateWaiting, StateQueuedCLI, StateCLIReviewing,
     StateReviewApproved, StateMergeReady]"

definition IsTerminal :: "state \<Rightarrow> bool" where
  "IsTerminal s \<longleftrightarrow> s = StateMerged"

section \<open>The check through the FSM package\<close>

definition branchTransitionEventName :: "state \<Rightarrow> state \<Rightarrow> string" where
  "branchTransitionEventName from to =
     (case map_of transitions from of
        Some allowed \<Rightarrow>
          if to \<in> set allowed
          then ''transition_'' @ state_str from @ ''_to_'' @ state_str to else ''''
      | None \<Rightarrow> '''')"

definition buildBranchFSMEvents :: "fsm_event list" where
  "buildBranchFSMEvents =
     concat (map (\<lambda>(from, allowed).
       map (\<lambda>to. \<lparr>ev_name = branchTransitionEventName from to,
                  ev_src = [state_str from], ev_dst = state_str to\<rparr>) allowed) transitions)"

definition NewBranchFSM :: "state \<Rightarrow> string \<times> fsm_event list" where
  "NewBranchFSM initial =
     (if state_str initial = '''' then state_str StateSubmitted else state_str initial,
      buildBranchFSMEvents)"

definition validateBranchFSMTransition :: "fsm_lib \<Rightarrow> state \<Rightarrow> state \<Rightarrow> error option" where
  "validateBranchFSMTransition lib from to =
     (case ValidateTransition from to of
        Some e \<Rightarrow> Some e
      | None \<Rightarrow>
         (let eventName = branchTransitionEventName from to in
          if eventName = '''' then Some ErrInvalidTransition
          else (case NewBranchFSM from of (cur, evs) \<Rightarrow>
            if \<not> fsm_Can lib evs cur eventName then Some ErrInvalidTransition
            else (case fsm_Event lib evs cur eventName of
                    Inl _ \<Rightarrow> Some ErrInvalidTransition
                  | Inr _ \<Rightarrow> None))))"

section \<open>The specification\<close>

definition known :: "state \<Rightarrow> bool" where
  "known s = (case s of StateOther _ \<Rightarrow> False | _ \<Rightarrow> True)"

inductive branch_step :: "state \<Rightarrow> state \<Rightarrow> bool" where
  T02: "branch_step StateSubmitted StateWaiting"
| T03: "branch_step StateWaiting StateSubmitted"
| T04: "branch_step StateWaiting StateQueuedCLI"
| T05: "branch_step StateSubmitted StateQueuedCLI"
| T06: "branch_step StateQueuedCLI StateCLIReviewing"
| T07: "branch_step StateCLIReviewing StateQueuedCLI"
| T08: "branch_step StateCLIReviewing StateReviewApproved"
| T09: "branch_step StateReviewApproved StateSubmitted"
| T10: "branch_step StateReviewApproved StateMergeReady"
| T11: "branch_step StateMergeReady StateSubmitted"
| T12: "s \<in> set ActiveStates \<Longrightarrow> branch_step s StateStale"
| T13: "branch_step StateStale StateQueuedCLI"
| T14: "s \<in> set ActiveStates \<Longrightarrow> branch_step s StateAbandoned"
| T15: "branch_step StateAbandoned StateQueuedCLI"
| T16: "s \<in> set ActiveStates \<Longrightarrow> branch_step s StateBlocked"
| T17: "branch_step StateBlocked StateQueuedCLI"
| T18: "known s \<Longrightarrow> s \<noteq> StateMerged \<Longrightarrow> branch_step s StateMerged"
| T19: "branch_step StateQueuedCLI StateExpired"
| T20: "branch_step StateExpired StateQueuedCLI"

inductive_simps branch_step_to_merge_ready: "branch_step s StateMergeReady"
inductive_simps branch_step_to_review_approved: "branch_step s StateReviewApproved"
inductive_simps branch_step_to_cli_reviewing: "branch_step s StateCLIReviewing"
inductive_cases branch_step_from_merged: "branch_step StateMerged t"

lemma known_simps [simp]: "known StateMerged" "\<not> known (StateOther x)"
  by (auto simp: known_def)

lemma ActiveStates_known [simp]: "s \<in> set ActiveStates \<Longrightarrow> known s"
  by (auto simp: ActiveStates_def known_def)

lemma validate_table:
  "ValidateTransition from to = None \<longleftrightarrow>
   (\<exists>allowed. (from, allowed) \<in> set transitions \<and> to \<in> set allowed)"
  by (cases "from") (auto simp: ValidateTransition_def transitions_def)

lemma validate_ErrInvalid: "ValidateTransition from to \<noteq> None \<Longrightarrow> ValidateTransition from to = Some ErrInvalidTransition"
  by (auto simp: ValidateTransition_def split: option.splits if_splits)

lemma validate_imp_step: "ValidateTransition from to = None \<Longrightarrow> branch_step from to"
  by (cases "from")
    (auto simp: ValidateTransition_def transitions_def branch_step.simps ActiveStates_def known_def
      split: if_splits)

lemma step_imp_validate: "branch_step from to \<Longrightarrow> ValidateTransition from to = None"
proof (induction rule: branch_step.induct)
  case (T18 s)
  then show ?case by (cases s) (auto simp: ValidateTransition_def transitions_def)
qed (auto simp: ValidateTransition_def transitions_def ActiveStates_def)

lemmas validate_step_iff = iffI [OF validate_imp_step step_imp_validate]

lemma validate_is_step: "(\<lambda>s t. ValidateTransition s t = None) = branch_step"
  by (intro ext) (simp add: validate_step_iff)

lemma step_not_self: "\<not> branch_step s s"
  by (cases s) (auto simp: branch_step.simps ActiveStates_def)

lemma step_known: "branch_step s t \<Longrightarrow> known s \<and> known t"
  by (cases rule: branch_step.cases) (auto simp: known_def ActiveStates_def)

interpretation branch: lifecycle branch_step IsTerminal
  by unfold_locales (auto simp: IsTerminal_def ActiveStates_def elim!: branch_step_from_merged)

lemma known_str_inj: "known s \<Longrightarrow> known t \<Longrightarrow> state_str s = state_str t \<Longrightarrow> s = t"
  by (cases s; cases t) (auto simp: known_def)

lemma known_str_nonempty: "known s \<Longrightarrow> state_str s \<noteq> ''''"
  by (cases s) (auto simp: known_def)

lemma event_name_step:
  "branch_step from to \<Longrightarrow>
   branchTransitionEventName from to = ''transition_'' @ state_str from @ ''_to_'' @ state_str to"
  by (drule step_imp_validate)
    (auto simp: branchTransitionEventName_def ValidateTransition_def split: option.splits if_splits)

text \<open>The events of the machine are one per pair of the table.\<close>

lemma events_iff:
  "e \<in> set buildBranchFSMEvents \<longleftrightarrow>
   (\<exists>from to. branch_step from to \<and>
      e = \<lparr>ev_name = branchTransitionEventName from to, ev_src = [state_str from],
           ev_dst = state_str to\<rparr>)"
proof -
  have "e \<in> set buildBranchFSMEvents \<longleftrightarrow>
     (\<exists>from allowed to. (from, allowed) \<in> set transitions \<and> to \<in> set allowed \<and>
        e = \<lparr>ev_name = branchTransitionEventName from to, ev_src = [state_str from],
             ev_dst = state_str to\<rparr>)"
    by (auto simp: buildBranchFSMEvents_def)
  also have "\<dots> \<longleftrightarrow> (\<exists>from to. ValidateTransition from to = None \<and>
      e = \<lparr>ev_name = branchTransitionEventName from to, ev_src = [state_str from],
           ev_dst = state_str to\<rparr>)"
    unfolding validate_table by blast
  finally show ?thesis
    by (simp add: validate_step_iff)
qed

lemma event_dst_unique:
  assumes "branch_step from to" and "e \<in> set buildBranchFSMEvents"
    and "ev_name e = branchTransitionEventName from to" and "state_str from \<in> set (ev_src e)"
  shows "ev_dst e = state_str to"
proof -
  from assms(2) obtain f t where ft: "branch_step f t"
    "e = \<lparr>ev_name = branchTransitionEventName f t, ev_src = [state_str f], ev_dst = state_str t\<rparr>"
    by (auto simp: events_iff)
  then have "state_str f = state_str from" using assms(4) by simp
  then have "f = from"
    using ft(1) assms(1) by (auto dest: step_known intro: known_str_inj)
  then show ?thesis
    using ft assms(1,3) by (simp add: event_name_step)
qed

lemma fsm_check_agrees_lib:
  assumes "fsm_library lib"
  shows "validateBranchFSMTransition lib from to = ValidateTransition from to"
proof (cases "branch_step from to")
  case False
  then show ?thesis
    by (auto simp: validateBranchFSMTransition_def validate_step_iff split: option.splits
        dest: validate_imp_step)
next
  case True
  let ?nm = "branchTransitionEventName from to"
  from True have kn: "known from" "known to" and ne: "from \<noteq> to"
    using step_known step_not_self by auto
  have ev: "\<lparr>ev_name = ?nm, ev_src = [state_str from], ev_dst = state_str to\<rparr> \<in> set buildBranchFSMEvents"
    using True by (auto simp: events_iff)
  have can: "fsm_Can lib buildBranchFSMEvents (state_str from) ?nm"
    using fsm_library.can_member [OF assms ev] by simp
  have "fsm_Event lib buildBranchFSMEvents (state_str from) ?nm = Inr (state_str to)"
    using fsm_library.event_moves [OF assms can] event_dst_unique [OF True] kn ne known_str_inj
    by metis
  then show ?thesis
    using True can kn
    by (simp add: validateBranchFSMTransition_def NewBranchFSM_def event_name_step
        step_imp_validate known_str_nonempty)
qed

section \<open>Properties of the branch machine\<close>

text \<open>
  C1: the transition table of \<open>state.go\<close> is exactly the specified relation: a transition is
  accepted by \<open>ValidateTransition\<close> if and only if it is one of T02 to T20, where T12, T14 and T16
  start at any active state and T18 at any state but \<open>merged\<close>; every other pair is rejected
  with \<open>ErrInvalidTransition\<close>.
\<close>

theorem validate_transition_spec:
  "ValidateTransition from to = (if branch_step from to then None else Some ErrInvalidTransition)"
  using validate_step_iff [of "from" to] validate_ErrInvalid [of "from" to] by auto

text \<open>
  The second check of \<open>fsm.go\<close>, which builds a \<open>looplab/fsm\<close> machine and fires the
  transition's event, accepts and rejects the same pairs as the table: for every package that
  behaves as documented, \<open>validateBranchFSMTransition\<close> and \<open>ValidateTransition\<close> agree.
\<close>

theorem fsm_check_agrees:
  assumes "fsm_library lib"
  shows "validateBranchFSMTransition lib from to = ValidateTransition from to"
  by (rule fsm_check_agrees_lib [OF assms])

theorem fsm_check_agrees_witness:
  "fsm_library list_fsm \<and>
   validateBranchFSMTransition list_fsm StateQueuedCLI StateCLIReviewing = None \<and>
   validateBranchFSMTransition list_fsm StateMerged StateQueuedCLI = Some ErrInvalidTransition"
  using listfsm.fsm_library_axioms
    fsm_check_agrees [OF listfsm.fsm_library_axioms, of StateQueuedCLI StateCLIReviewing]
    fsm_check_agrees [OF listfsm.fsm_library_axioms, of StateMerged StateQueuedCLI]
  by (simp add: ValidateTransition_def transitions_def)

text \<open>
  A branch is reviewed before it becomes ready to merge: in every run of the machine that
  starts at \<open>submitted\<close> and contains \<open>merge_ready\<close>, the branch went through
  \<open>queued_cli\<close>, \<open>cli_reviewing\<close> and \<open>review_approved\<close>.
\<close>

theorem merge_ready_needs_review:
  assumes "trace (\<lambda>s t. ValidateTransition s t = None) StateSubmitted ts"
    and "StateMergeReady \<in> set ts"
  shows "StateReviewApproved \<in> set ts \<and> StateCLIReviewing \<in> set ts \<and> StateQueuedCLI \<in> set ts"
proof -
  note tr = assms(1) [unfolded validate_is_step]
  have ra: "StateReviewApproved \<in> set ts"
    using branch.gate_in_trace [OF _ tr assms(2), of StateReviewApproved]
    by (auto simp: branch_step_to_merge_ready)
  have cr: "StateCLIReviewing \<in> set ts"
    using branch.gate_in_trace [OF _ tr ra, of StateCLIReviewing]
    by (auto simp: branch_step_to_review_approved)
  have "StateQueuedCLI \<in> set ts"
    using branch.gate_in_trace [OF _ tr cr, of StateQueuedCLI]
    by (auto simp: branch_step_to_cli_reviewing)
  with ra cr show ?thesis by simp
qed

theorem merge_ready_needs_review_witness:
  "\<exists>ts. trace (\<lambda>s t. ValidateTransition s t = None) StateSubmitted ts \<and> StateMergeReady \<in> set ts \<and>
     StateReviewApproved \<in> set ts \<and> StateCLIReviewing \<in> set ts"
proof -
  let ?ts = "[StateQueuedCLI, StateCLIReviewing, StateReviewApproved, StateMergeReady]"
  have t: "trace (\<lambda>s t. ValidateTransition s t = None) StateSubmitted ?ts"
    by (simp add: ValidateTransition_def transitions_def)
  then show ?thesis
    using merge_ready_needs_review [OF t] by (intro exI [of _ ?ts]) simp
qed

text \<open>
  The machine has no dead end but \<open>merged\<close>: from every named state other than
  \<open>merged\<close> some sequence of transitions leads to \<open>merge_ready\<close>, and from \<open>merged\<close> no
  sequence leads anywhere else.
\<close>

theorem branch_progress:
  "(known s \<and> s \<noteq> StateMerged \<longrightarrow>
      (\<lambda>s t. ValidateTransition s t = None)\<^sup>*\<^sup>* s StateMergeReady) \<and>
   ((\<lambda>s t. ValidateTransition s t = None)\<^sup>*\<^sup>* StateMerged t \<longrightarrow> t = StateMerged)"
  unfolding validate_is_step
proof (intro conjI impI)
  assume s: "known s \<and> s \<noteq> StateMerged"
  have q: "branch_step\<^sup>*\<^sup>* StateQueuedCLI StateMergeReady"
    using trace_rtranclp [of branch_step StateQueuedCLI
        "[StateCLIReviewing, StateReviewApproved, StateMergeReady]"]
    by (simp add: branch_step.intros)
  have "branch_step\<^sup>*\<^sup>* s StateQueuedCLI \<or> branch_step\<^sup>*\<^sup>* s StateMergeReady"
    using s
    by (cases s)
      (auto simp: known_def intro: r_into_rtranclp branch_step.intros
        converse_rtranclp_into_rtranclp [of branch_step])
  with q show "branch_step\<^sup>*\<^sup>* s StateMergeReady"
    by (auto intro: rtranclp_trans)
next
  assume "branch_step\<^sup>*\<^sup>* StateMerged t"
  then show "t = StateMerged"
    by (rule branch.final_absorbing) (simp add: IsTerminal_def)
qed

theorem branch_progress_witness:
  "(\<lambda>s t. ValidateTransition s t = None)\<^sup>*\<^sup>* StateBlocked StateMergeReady"
  using branch_progress [of StateBlocked] by (simp add: known_def)

end
