(* ===== verification/Store.thy ===== *)
theory Store
  imports Branch_FSM
begin

text \<open>
  The SQLite database of \<open>internal/state\<close>: one record per row type, with the columns of
  the migrations under \<open>internal/state/migrations\<close>, and the record \<open>db\<close> of the
  tables. A nullable column is an \<open>option\<close>, a date is a \<open>gotime\<close>, an integer column an
  \<open>int\<close>. \<open>update_branches\<close> is an \<open>UPDATE branch_states\<close>; \<open>schema_ok\<close> collects the
  primary keys, the unique constraints and the foreign keys of the branch tables, which the engine
  enforces (\<open>PRAGMA foreign_keys=ON\<close>) by failing the statement.
\<close>

section \<open>Rows\<close>

record branch_row =
  b_id :: string
  b_repo :: string
  b_branch :: string
  b_head_hash :: string
  b_state :: state
  b_retry_count :: int
  b_max_retries :: int
  b_approved :: int
  b_ci_green :: int
  b_pending_events :: int
  b_unresolved_threads :: int
  b_owner_session_id :: string
  b_owner_session_last_seen :: "gotime option"
  b_queue_priority :: int
  b_submission_time :: "gotime option"
  b_lease_id :: "string option"
  b_lease_expires_at :: "gotime option"
  b_created_at :: gotime
  b_updated_at :: gotime
  b_pr_number :: int
  b_owner_agent :: string
  b_task_id :: string

record transition_row =
  st_branch :: string
  st_from :: state
  st_to :: state
  st_trigger :: string
  st_created_at :: gotime

record delivery_row =
  de_seq :: int
  de_repo :: string
  de_branch :: string
  de_head_hash :: string
  de_event_type :: string
  de_payload :: string
  de_created_at :: gotime

record webhook_row =
  wd_delivery_id :: string
  wd_event_type :: string
  wd_repo :: string
  wd_processed :: int
  wd_created_at :: gotime

record run_row =
  rr_id :: string
  rr_repo :: string
  rr_branch :: string
  rr_head_hash :: string
  rr_provider :: string
  rr_status :: string
  rr_started_at :: "gotime option"
  rr_finished_at :: "gotime option"
  rr_error :: string
  rr_created_at :: gotime

record finding_row =
  fi_id :: string
  fi_run_id :: string
  fi_repo :: string
  fi_branch :: string
  fi_severity :: string
  fi_category :: string
  fi_file :: string
  fi_line :: int
  fi_message :: string
  fi_source :: string
  fi_rule_id :: string
  fi_ts :: gotime
  fi_created_at :: gotime

section \<open>The database\<close>

record db =
  branch_states :: "branch_row list"
  state_transitions :: "transition_row list"
  delivery_events :: "delivery_row list"
  webhook_deliveries :: "webhook_row list"
  review_runs :: "run_row list"
  findings :: "finding_row list"

definition empty_db :: db where
  "empty_db = \<lparr>branch_states = [], state_transitions = [], delivery_events = [],
     webhook_deliveries = [], review_runs = [], findings = []\<rparr>"

definition branch_key :: "branch_row \<Rightarrow> string \<times> string" where
  "branch_key r = (b_repo r, b_branch r)"

definition at_branch :: "string \<Rightarrow> string \<Rightarrow> branch_row \<Rightarrow> bool" where
  "at_branch repo branch r \<longleftrightarrow> b_repo r = repo \<and> b_branch r = branch"

definition update_branches :: "(branch_row \<Rightarrow> bool) \<Rightarrow> (branch_row \<Rightarrow> branch_row) \<Rightarrow> db \<Rightarrow> db" where
  "update_branches P f d = d\<lparr>branch_states := sql_update P f (branch_states d)\<rparr>"

text \<open>\<open>INSERT INTO branch_states\<close>: the columns it does not name take the schema's defaults.\<close>

definition new_branch :: "string \<Rightarrow> string \<Rightarrow> string \<Rightarrow> state \<Rightarrow> gotime \<Rightarrow> branch_row" where
  "new_branch bid repo branch st now =
    \<lparr>b_id = bid, b_repo = repo, b_branch = branch, b_head_hash = '''', b_state = st,
     b_retry_count = 0, b_max_retries = 3, b_approved = 0, b_ci_green = 0,
     b_pending_events = 0, b_unresolved_threads = 0, b_owner_session_id = '''',
     b_owner_session_last_seen = None, b_queue_priority = 0, b_submission_time = None,
     b_lease_id = None, b_lease_expires_at = None, b_created_at = now, b_updated_at = now,
     b_pr_number = 0, b_owner_agent = '''', b_task_id = ''''\<rparr>"

definition schema_ok :: "db \<Rightarrow> bool" where
  "schema_ok d \<longleftrightarrow>
     distinct (map b_id (branch_states d)) \<and>
     distinct (map branch_key (branch_states d)) \<and>
     (\<forall>t\<in>set (state_transitions d). st_branch t \<in> b_id ` set (branch_states d)) \<and>
     distinct (map (\<lambda>e. (de_repo e, de_branch e, de_seq e)) (delivery_events d)) \<and>
     distinct (map wd_delivery_id (webhook_deliveries d)) \<and>
     distinct (map rr_id (review_runs d)) \<and>
     distinct (map fi_id (findings d)) \<and>
     (\<forall>f\<in>set (findings d). fi_run_id f \<in> rr_id ` set (review_runs d))"

lemma at_branch_key: "at_branch repo branch r \<longleftrightarrow> branch_key r = (repo, branch)"
  by (simp add: at_branch_def branch_key_def)

lemma update_branches_sel [simp]:
  "branch_states (update_branches P f d) = sql_update P f (branch_states d)"
  "state_transitions (update_branches P f d) = state_transitions d"
  "delivery_events (update_branches P f d) = delivery_events d"
  "webhook_deliveries (update_branches P f d) = webhook_deliveries d"
  "review_runs (update_branches P f d) = review_runs d"
  "findings (update_branches P f d) = findings d"
  by (simp_all add: update_branches_def)

lemma new_branch_sel [simp]:
  "b_id (new_branch bid repo branch st now) = bid"
  "b_repo (new_branch bid repo branch st now) = repo"
  "b_branch (new_branch bid repo branch st now) = branch"
  "b_state (new_branch bid repo branch st now) = st"
  "branch_key (new_branch bid repo branch st now) = (repo, branch)"
  by (simp_all add: new_branch_def branch_key_def)

lemma empty_db_ok [simp]: "schema_ok empty_db"
  by (simp add: schema_ok_def empty_db_def)

text \<open>The rows an \<open>UPDATE\<close> writes to, and the column it leaves alone, by key.\<close>

lemma schema_ok_id_unique:
  "schema_ok d \<Longrightarrow> r \<in> set (branch_states d) \<Longrightarrow> r' \<in> set (branch_states d) \<Longrightarrow>
   b_id r = b_id r' \<Longrightarrow> r = r'"
  unfolding schema_ok_def by (blast intro: distinct_key_unique [of b_id])

lemma schema_ok_find_id:
  "schema_ok d \<Longrightarrow> r \<in> set (branch_states d) \<Longrightarrow>
   find (\<lambda>x. b_id x = b_id r) (branch_states d) = Some r"
  unfolding schema_ok_def by (blast intro: find_distinct_key [of b_id])

end
