(* ===== verification/Branch_Store.thy ===== *)
theory Branch_Store
  imports Store
begin

text \<open>
  The branch repository: \<open>internal/state/repository.go\<close>, \<open>internal/state/pr_tracking.go\<close>
  and the task ingestion of \<open>internal/daemon/grpc/tasks.go\<close>, one definition per function.

  \<open>store_step\<close> is the relation of all the writes to the branch tables. By rule induction every
  reachable database satisfies \<open>branch_inv\<close>: the schema's constraints, and for every branch an
  audit trail that starts at an initial state, moves only along accepted transitions and ends at the
  state the row has. The argument \<open>now\<close> is \<open>datetime('now')\<close> or \<open>time.Now()\<close>.
\<close>

section \<open>Reading branches\<close>

record BranchRecord =
  ID :: string
  Repo :: string
  Branch :: string
  HeadHash :: string
  State :: state
  RetryCount :: int
  MaxRetries :: int
  Approved :: bool
  CIGreen :: bool
  PendingEvents :: int
  UnresolvedThreads :: int
  OwnerSessionID :: string
  OwnerSessionLastSeen :: "gotime option"
  QueuePriority :: int
  SubmissionTime :: "gotime option"
  LeaseID :: "string option"
  LeaseExpiresAt :: "gotime option"
  CreatedAt :: gotime
  UpdatedAt :: gotime

definition boolInt :: "bool \<Rightarrow> int" where
  "boolInt b = (if b then 1 else 0)"

definition scan_row :: "branch_row \<Rightarrow> BranchRecord" where
  "scan_row r =
    \<lparr>ID = b_id r, Repo = b_repo r, Branch = b_branch r, HeadHash = b_head_hash r,
     State = b_state r, RetryCount = b_retry_count r, MaxRetries = b_max_retries r,
     Approved = (b_approved r \<noteq> 0), CIGreen = (b_ci_green r \<noteq> 0),
     PendingEvents = b_pending_events r, UnresolvedThreads = b_unresolved_threads r,
     OwnerSessionID = b_owner_session_id r,
     OwnerSessionLastSeen = b_owner_session_last_seen r,
     QueuePriority = b_queue_priority r, SubmissionTime = b_submission_time r,
     LeaseID = b_lease_id r, LeaseExpiresAt = b_lease_expires_at r,
     CreatedAt = b_created_at r, UpdatedAt = b_updated_at r\<rparr>"

definition scanBranch :: "faults \<Rightarrow> branch_row option \<Rightarrow> error + BranchRecord" where
  "scanBranch flt row =
     (case flt ''scan branch'' of
        Some e \<Rightarrow> Inl (DBError e)
      | None \<Rightarrow> (case row of None \<Rightarrow> Inl ErrBranchNotFound | Some r \<Rightarrow> Inr (scan_row r)))"

definition scanBranches :: "faults \<Rightarrow> branch_row list \<Rightarrow> error + BranchRecord list" where
  "scanBranches flt rows =
     (case flt ''query branches'' of
        Some e \<Rightarrow> Inl (DBError e)
      | None \<Rightarrow> (case flt ''scan branch row'' of
                   Some e \<Rightarrow> Inl (DBError e)
                 | None \<Rightarrow> Inr (map scan_row rows)))"

definition GetBranch :: "faults \<Rightarrow> string \<Rightarrow> string \<Rightarrow> db \<Rightarrow> error + BranchRecord" where
  "GetBranch flt repo branch d = scanBranch flt (sql_row (at_branch repo branch) (branch_states d))"

definition GetBranchByID :: "faults \<Rightarrow> string \<Rightarrow> db \<Rightarrow> error + BranchRecord" where
  "GetBranchByID flt bid d = scanBranch flt (sql_row (\<lambda>r. b_id r = bid) (branch_states d))"

definition ListBranchesByState :: "faults \<Rightarrow> state \<Rightarrow> db \<Rightarrow> error + BranchRecord list" where
  "ListBranchesByState flt st d =
     scanBranches flt (sql_order b_updated_at (filter (\<lambda>r. b_state r = st) (branch_states d)))"

definition sql_active_states :: "state list" where
  "sql_active_states = [StateSubmitted, StateWaiting, StateQueuedCLI, StateCLIReviewing,
     StateReviewApproved, StateMergeReady]"

definition ListActiveBranches :: "faults \<Rightarrow> db \<Rightarrow> error + BranchRecord list" where
  "ListActiveBranches flt d =
     scanBranches flt (sql_order b_updated_at
       (filter (\<lambda>r. b_state r \<in> set sql_active_states) (branch_states d)))"

definition ListExpiredSessions :: "faults \<Rightarrow> gotime \<Rightarrow> duration \<Rightarrow> db \<Rightarrow> error + BranchRecord list" where
  "ListExpiredSessions flt now ttl d =
     (let threshold = now - ttl in
      scanBranches flt (sql_order (\<lambda>r. the (b_owner_session_last_seen r))
        (filter (\<lambda>r. b_state r \<in> set sql_active_states \<and>
                     (case b_owner_session_last_seen r of None \<Rightarrow> False | Some t \<Rightarrow> t < threshold))
          (branch_states d))))"

definition ListExpiredLeases :: "faults \<Rightarrow> gotime \<Rightarrow> db \<Rightarrow> error + BranchRecord list" where
  "ListExpiredLeases flt now d =
     scanBranches flt (sql_order (\<lambda>r. the (b_lease_expires_at r))
       (filter (\<lambda>r. b_state r = StateCLIReviewing \<and>
                    (case b_lease_expires_at r of None \<Rightarrow> False | Some t \<Rightarrow> t < now))
         (branch_states d)))"

section \<open>Transitions\<close>

text \<open>
  A failed \<open>Commit\<close> leaves the database as it was: the deferred rollback, or the engine, undoes
  the transaction.
\<close>

definition TransitionBranch ::
  "fsm_lib \<Rightarrow> faults \<Rightarrow> gotime \<Rightarrow> string \<Rightarrow> state \<Rightarrow> state \<Rightarrow> string \<Rightarrow> db \<Rightarrow> (error + unit) \<times> db" where
  "TransitionBranch lib flt now bid from to trigger d =
     (case validateBranchFSMTransition lib from to of
        Some e \<Rightarrow> (Inl e, d)
      | None \<Rightarrow>
        sql_try flt ''begin'' d (sql_try flt ''read state'' d
         (case sql_row (\<lambda>r. b_id r = bid) (branch_states d) of
            None \<Rightarrow> (Inl ErrBranchNotFound, d)
          | Some r \<Rightarrow>
              if b_state r \<noteq> from then (Inl ErrInvalidTransition, d)
              else sql_try flt ''update state'' d
               (let d1 = update_branches (\<lambda>x. b_id x = bid)
                           (\<lambda>x. x\<lparr>b_state := to, b_updated_at := now\<rparr>) d in
                sql_try flt ''insert audit'' d
                 (let d2 = d1\<lparr>state_transitions := state_transitions d1 @
                        [\<lparr>st_branch = bid, st_from = from, st_to = to,
                          st_trigger = trigger, st_created_at = now\<rparr>]\<rparr> in
                  sql_try flt ''commit'' d (Inr (), d2))))))"

definition UpdateHeadHashAndTransition ::
  "faults \<Rightarrow> gotime \<Rightarrow> string \<Rightarrow> string \<Rightarrow> state \<Rightarrow> state \<Rightarrow> string \<Rightarrow> db \<Rightarrow> (error + unit) \<times> db" where
  "UpdateHeadHashAndTransition flt now bid newHeadHash from to trigger d =
     (case ValidateTransition from to of
        Some e \<Rightarrow> (Inl e, d)
      | None \<Rightarrow>
        sql_try flt ''begin'' d (sql_try flt ''read state'' d
         (case sql_row (\<lambda>r. b_id r = bid) (branch_states d) of
            None \<Rightarrow> (Inl ErrBranchNotFound, d)
          | Some r \<Rightarrow>
              if b_state r \<noteq> from then (Inl ErrInvalidTransition, d)
              else sql_try flt ''update'' d
               (let d1 = update_branches (\<lambda>x. b_id x = bid)
                      (\<lambda>x. x\<lparr>b_head_hash := newHeadHash, b_state := to, b_updated_at := now\<rparr>) d in
                sql_try flt ''insert audit'' d
                 (let d2 = d1\<lparr>state_transitions := state_transitions d1 @
                        [\<lparr>st_branch = bid, st_from = from, st_to = to,
                          st_trigger = trigger, st_created_at = now\<rparr>]\<rparr> in
                  sql_try flt ''commit'' d (Inr (), d2))))))"

section \<open>Single-statement updates\<close>

text \<open>One \<open>UPDATE branch_states\<close> through \<open>db.sql.Exec\<close>.\<close>

definition exec_update ::
  "faults \<Rightarrow> (branch_row \<Rightarrow> bool) \<Rightarrow> (branch_row \<Rightarrow> branch_row) \<Rightarrow> db \<Rightarrow> (error + unit) \<times> db" where
  "exec_update flt P f d = sql_try flt ''exec'' d (Inr (), update_branches P f d)"

definition IncrementRetryCount :: "faults \<Rightarrow> gotime \<Rightarrow> string \<Rightarrow> db \<Rightarrow> (error + int) \<times> db" where
  "IncrementRetryCount flt now bid d =
     sql_try flt ''exec'' d
      (case sql_row (\<lambda>r. b_id r = bid) (branch_states d) of
         None \<Rightarrow> (Inl ErrNoRows, d)
       | Some r \<Rightarrow> (Inr (b_retry_count r + 1),
           update_branches (\<lambda>x. b_id x = bid)
             (\<lambda>x. x\<lparr>b_retry_count := b_retry_count x + 1, b_updated_at := now\<rparr>) d))"

definition ResetRetryCount :: "faults \<Rightarrow> gotime \<Rightarrow> string \<Rightarrow> db \<Rightarrow> (error + unit) \<times> db" where
  "ResetRetryCount flt now bid =
     exec_update flt (\<lambda>x. b_id x = bid) (\<lambda>x. x\<lparr>b_retry_count := 0, b_updated_at := now\<rparr>)"

definition UpdateQueuePriority :: "faults \<Rightarrow> gotime \<Rightarrow> string \<Rightarrow> int \<Rightarrow> db \<Rightarrow> (error + unit) \<times> db" where
  "UpdateQueuePriority flt now bid priority =
     exec_update flt (\<lambda>x. b_id x = bid) (\<lambda>x. x\<lparr>b_queue_priority := priority, b_updated_at := now\<rparr>)"

definition UpdateLeaseInfo ::
  "faults \<Rightarrow> gotime \<Rightarrow> string \<Rightarrow> string \<Rightarrow> gotime \<Rightarrow> db \<Rightarrow> (error + unit) \<times> db" where
  "UpdateLeaseInfo flt now bid leaseID expiresAt =
     exec_update flt (\<lambda>x. b_id x = bid)
       (\<lambda>x. x\<lparr>b_lease_id := Some leaseID, b_lease_expires_at := Some expiresAt, b_updated_at := now\<rparr>)"

definition ClearLeaseInfo :: "faults \<Rightarrow> gotime \<Rightarrow> string \<Rightarrow> db \<Rightarrow> (error + unit) \<times> db" where
  "ClearLeaseInfo flt now bid =
     exec_update flt (\<lambda>x. b_id x = bid)
       (\<lambda>x. x\<lparr>b_lease_id := None, b_lease_expires_at := None, b_updated_at := now\<rparr>)"

definition UpdatePRNumber ::
  "faults \<Rightarrow> gotime \<Rightarrow> string \<Rightarrow> string \<Rightarrow> int \<Rightarrow> db \<Rightarrow> (error + unit) \<times> db" where
  "UpdatePRNumber flt now repo branch prNumber =
     exec_update flt (at_branch repo branch) (\<lambda>x. x\<lparr>b_pr_number := prNumber, b_updated_at := now\<rparr>)"

definition UpdateOwnerAgent ::
  "faults \<Rightarrow> gotime \<Rightarrow> string \<Rightarrow> string \<Rightarrow> string \<Rightarrow> db \<Rightarrow> (error + unit) \<times> db" where
  "UpdateOwnerAgent flt now repo branch agentID d =
     (if agentID = '''' then (Inr (), d)
      else exec_update flt (at_branch repo branch)
             (\<lambda>x. x\<lparr>b_owner_agent := agentID, b_updated_at := now\<rparr>) d)"

definition UpdateSessionHeartbeat ::
  "faults \<Rightarrow> gotime \<Rightarrow> string \<Rightarrow> string \<Rightarrow> db \<Rightarrow> (error + unit) \<times> db" where
  "UpdateSessionHeartbeat flt now repo branch =
     exec_update flt (at_branch repo branch)
       (\<lambda>x. x\<lparr>b_owner_session_last_seen := Some now, b_updated_at := now\<rparr>)"

definition UpdateMergeReadiness ::
  "faults \<Rightarrow> gotime \<Rightarrow> string \<Rightarrow> bool \<Rightarrow> bool \<Rightarrow> int \<Rightarrow> int \<Rightarrow> db \<Rightarrow> (error + unit) \<times> db" where
  "UpdateMergeReadiness flt now bid approved ciGreen pendingEvents unresolvedThreads =
     exec_update flt (\<lambda>x. b_id x = bid)
       (\<lambda>x. x\<lparr>b_approved := boolInt approved, b_ci_green := boolInt ciGreen,
              b_pending_events := pendingEvents, b_unresolved_threads := unresolvedThreads,
              b_updated_at := now\<rparr>)"

definition UpdateHeadHash :: "faults \<Rightarrow> gotime \<Rightarrow> string \<Rightarrow> string \<Rightarrow> db \<Rightarrow> (error + unit) \<times> db" where
  "UpdateHeadHash flt now bid headHash =
     exec_update flt (\<lambda>x. b_id x = bid) (\<lambda>x. x\<lparr>b_head_hash := headHash, b_updated_at := now\<rparr>)"

section \<open>Inserting branches\<close>

text \<open>
  The only two inserts: \<open>UpsertPRTracking\<close>, whose new rows have the state \<open>active\<close>, and
  \<open>IngestTask\<close>. A primary-key clash on \<open>id\<close> is not covered by the \<open>ON CONFLICT\<close> clauses and
  fails the statement.
\<close>

definition UpsertPRTracking ::
  "faults \<Rightarrow> gotime \<Rightarrow> string \<Rightarrow> string \<Rightarrow> string \<Rightarrow> int \<Rightarrow> db \<Rightarrow> (error + unit) \<times> db" where
  "UpsertPRTracking flt now uuid repo branch prNumber d =
     (if repo = '''' \<or> branch = '''' then (Inl (OtherError ''pr tracking: repo and branch are required''), d)
      else if prNumber \<le> 0 then (Inl (OtherError ''pr tracking: pr number must be positive''), d)
      else sql_try flt ''exec'' d
       (if \<exists>r\<in>set (branch_states d). at_branch repo branch r
        then (Inr (), update_branches (at_branch repo branch)
                (\<lambda>x. x\<lparr>b_pr_number := prNumber, b_updated_at := now\<rparr>) d)
        else if \<exists>r\<in>set (branch_states d). b_id r = uuid
        then (Inl (ConstraintError ''branch_states.id''), d)
        else (Inr (), d\<lparr>branch_states := branch_states d @
                [(new_branch uuid repo branch (StateOther ''active'') now)\<lparr>b_pr_number := prNumber\<rparr>]\<rparr>)))"

definition GetPRNumber :: "faults \<Rightarrow> string \<Rightarrow> string \<Rightarrow> db \<Rightarrow> error + int" where
  "GetPRNumber flt repo branch d =
     (case flt ''query'' of
        Some e \<Rightarrow> Inl (DBError e)
      | None \<Rightarrow> (case sql_row (at_branch repo branch) (branch_states d) of
                   None \<Rightarrow> Inr 0
                 | Some r \<Rightarrow> Inr (b_pr_number r)))"

definition ingest_branch :: "string \<Rightarrow> string \<Rightarrow> string" where
  "ingest_branch branch taskId = (if branch = '''' then ''codero/'' @ taskId else branch)"

definition IngestTask ::
  "faults \<Rightarrow> gotime \<Rightarrow> string \<Rightarrow> string \<Rightarrow> string \<Rightarrow> string \<Rightarrow> string \<Rightarrow> db \<Rightarrow> (error + unit) \<times> db" where
  "IngestTask flt now uuid taskId repo title branch0 d =
     (if taskId = '''' then (Inl (OtherError ''task_id is required''), d)
      else if repo = '''' then (Inl (OtherError ''repo is required''), d)
      else if title = '''' then (Inl (OtherError ''title is required''), d)
      else let branch = ingest_branch branch0 taskId in
       sql_try flt ''insert'' d
        (case sql_row (at_branch repo branch) (branch_states d) of
           Some r \<Rightarrow>
             sql_try flt ''rows affected'' d (sql_try flt ''existing branch lookup'' d
              (if b_task_id r \<noteq> taskId
               then (Inl (OtherError ''branch already tracked for a different task''), d)
               else (Inr (), d)))
         | None \<Rightarrow>
             if \<exists>r\<in>set (branch_states d). b_id r = uuid
             then (Inl (ConstraintError ''branch_states.id''), d)
             else let d1 = d\<lparr>branch_states := branch_states d @
                         [(new_branch uuid repo branch StateSubmitted now)\<lparr>b_task_id := taskId\<rparr>]\<rparr> in
              sql_try flt ''rows affected'' d1 (Inr (), d1)))"

section \<open>Delivery events, webhook deliveries, review runs and findings\<close>

definition AppendDeliveryEvent ::
  "faults \<Rightarrow> gotime \<Rightarrow> int \<Rightarrow> string \<Rightarrow> string \<Rightarrow> string \<Rightarrow> string \<Rightarrow> string \<Rightarrow> db \<Rightarrow> (error + unit) \<times> db" where
  "AppendDeliveryEvent flt now seq repo branch headHash eventType payload d =
     sql_try flt ''append delivery event'' d
      (if \<exists>e\<in>set (delivery_events d). de_repo e = repo \<and> de_branch e = branch \<and> de_seq e = seq
       then (Inl (ConstraintError ''delivery_events''), d)
       else (Inr (), d\<lparr>delivery_events := delivery_events d @
         [\<lparr>de_seq = seq, de_repo = repo, de_branch = branch, de_head_hash = headHash,
           de_event_type = eventType, de_payload = payload, de_created_at = now\<rparr>]\<rparr>))"

definition seqs_of :: "string \<Rightarrow> string \<Rightarrow> db \<Rightarrow> int list" where
  "seqs_of repo branch d =
     map de_seq (filter (\<lambda>e. de_repo e = repo \<and> de_branch e = branch) (delivery_events d))"

definition GetDeliverySeqFloor :: "faults \<Rightarrow> string \<Rightarrow> string \<Rightarrow> db \<Rightarrow> error + int" where
  "GetDeliverySeqFloor flt repo branch d =
     (case flt ''delivery seq floor'' of
        Some e \<Rightarrow> Inl (DBError e)
      | None \<Rightarrow> (case seqs_of repo branch d of
                   [] \<Rightarrow> Inr 0
                 | s # ss \<Rightarrow> Inr (foldl max s ss)))"

definition ListDeliveryEvents :: "faults \<Rightarrow> string \<Rightarrow> string \<Rightarrow> int \<Rightarrow> db \<Rightarrow> error + delivery_row list" where
  "ListDeliveryEvents flt repo branch sinceSeq d =
     (case flt ''list delivery events'' of
        Some e \<Rightarrow> Inl (DBError e)
      | None \<Rightarrow> Inr (sql_order de_seq
          (filter (\<lambda>e. de_repo e = repo \<and> de_branch e = branch \<and> sinceSeq < de_seq e)
            (delivery_events d))))"

definition MarkWebhookDelivery ::
  "faults \<Rightarrow> gotime \<Rightarrow> string \<Rightarrow> string \<Rightarrow> string \<Rightarrow> db \<Rightarrow> (error + bool) \<times> db" where
  "MarkWebhookDelivery flt now deliveryID eventType repo d =
     sql_try flt ''mark webhook delivery'' d
      (if \<exists>w\<in>set (webhook_deliveries d). wd_delivery_id w = deliveryID
       then (Inr False, d)
       else (Inr True, d\<lparr>webhook_deliveries := webhook_deliveries d @
         [\<lparr>wd_delivery_id = deliveryID, wd_event_type = eventType, wd_repo = repo,
           wd_processed = 1, wd_created_at = now\<rparr>]\<rparr>))"

definition IsWebhookProcessed :: "faults \<Rightarrow> string \<Rightarrow> db \<Rightarrow> error + bool" where
  "IsWebhookProcessed flt deliveryID d =
     (case flt ''check webhook processed'' of
        Some e \<Rightarrow> Inl (DBError e)
      | None \<Rightarrow> Inr (0 < sql_affected
          (\<lambda>w. wd_delivery_id w = deliveryID \<and> wd_processed w = 1) (webhook_deliveries d)))"

definition CreateReviewRun ::
  "faults \<Rightarrow> gotime \<Rightarrow> string \<Rightarrow> string \<Rightarrow> string \<Rightarrow> string \<Rightarrow> string \<Rightarrow> string \<Rightarrow> gotime option \<Rightarrow> db \<Rightarrow>
   (error + unit) \<times> db" where
  "CreateReviewRun flt now rid repo branch headHash provider status startedAt d =
     sql_try flt ''create review run'' d
      (if \<exists>r\<in>set (review_runs d). rr_id r = rid then (Inl (ConstraintError ''review_runs.id''), d)
       else (Inr (), d\<lparr>review_runs := review_runs d @
         [\<lparr>rr_id = rid, rr_repo = repo, rr_branch = branch, rr_head_hash = headHash,
           rr_provider = provider, rr_status = status, rr_started_at = startedAt,
           rr_finished_at = None, rr_error = '''', rr_created_at = now\<rparr>]\<rparr>))"

definition UpdateReviewRun ::
  "faults \<Rightarrow> string \<Rightarrow> string \<Rightarrow> string \<Rightarrow> gotime \<Rightarrow> db \<Rightarrow> (error + unit) \<times> db" where
  "UpdateReviewRun flt rid status errMsg finishedAt d =
     sql_try flt ''update review run'' d
      (Inr (), d\<lparr>review_runs := sql_update (\<lambda>r. rr_id r = rid)
         (\<lambda>r. r\<lparr>rr_status := status, rr_error := errMsg, rr_finished_at := Some finishedAt\<rparr>)
         (review_runs d)\<rparr>)"

definition IsPipelineRunning :: "faults \<Rightarrow> string \<Rightarrow> string \<Rightarrow> db \<Rightarrow> error + bool" where
  "IsPipelineRunning flt repo branch d =
     (if repo = '''' \<or> branch = '''' then Inr False
      else (case flt ''check running pipeline'' of
        Some e \<Rightarrow> Inl (DBError e)
      | None \<Rightarrow> Inr (0 < sql_affected
          (\<lambda>r. rr_repo r = repo \<and> rr_branch r = branch \<and> rr_status r \<in> {''pending'', ''running''})
          (review_runs d))))"

text \<open>The insert of one finding: the statement of both \<open>InsertFinding\<close> and \<open>InsertFindings\<close>.\<close>

definition insert_finding :: "finding_row \<Rightarrow> db \<Rightarrow> error + db" where
  "insert_finding f d =
     (if fi_id f \<in> fi_id ` set (findings d) then Inl (ConstraintError ''findings.id'')
      else if fi_run_id f \<notin> rr_id ` set (review_runs d) then Inl (ConstraintError ''findings.run_id'')
      else Inr (d\<lparr>findings := findings d @ [f]\<rparr>))"

definition InsertFinding :: "faults \<Rightarrow> finding_row \<Rightarrow> db \<Rightarrow> (error + unit) \<times> db" where
  "InsertFinding flt f d =
     sql_try flt ''insert finding'' d
      (case insert_finding f d of Inl e \<Rightarrow> (Inl e, d) | Inr d' \<Rightarrow> (Inr (), d'))"

definition ListFindings :: "faults \<Rightarrow> string \<Rightarrow> string \<Rightarrow> db \<Rightarrow> error + finding_row list" where
  "ListFindings flt repo branch d =
     (case flt ''list findings'' of
        Some e \<Rightarrow> Inl (DBError e)
      | None \<Rightarrow> Inr (sql_order fi_ts
          (filter (\<lambda>f. fi_repo f = repo \<and> fi_branch f = branch) (findings d))))"

text \<open>The loop of \<open>InsertFindings\<close>: it stops at the first finding that fails.\<close>

fun insert_all :: "faults \<Rightarrow> finding_row list \<Rightarrow> db \<Rightarrow> error + db" where
  "insert_all flt [] d = Inr d"
| "insert_all flt (f # fs) d =
     (case flt (''exec '' @ fi_id f) of
        Some e \<Rightarrow> Inl (DBError e)
      | None \<Rightarrow> (case insert_finding f d of Inl e \<Rightarrow> Inl e | Inr d' \<Rightarrow> insert_all flt fs d'))"

definition InsertFindings :: "faults \<Rightarrow> finding_row list \<Rightarrow> db \<Rightarrow> (error + unit) \<times> db" where
  "InsertFindings flt fs d =
     (if fs = [] then (Inr (), d)
      else sql_try flt ''begin'' d (sql_try flt ''prepare'' d
       (case insert_all flt fs d of
          Inl e \<Rightarrow> (Inl e, d)
        | Inr d' \<Rightarrow> sql_try flt ''commit'' d (Inr (), d'))))"

section \<open>The audit trail\<close>

text \<open>The transitions recorded for a branch, oldest first, and what makes them a history of it.\<close>

definition audit :: "db \<Rightarrow> string \<Rightarrow> (state \<times> state) list" where
  "audit d bid =
     map (\<lambda>t. (st_from t, st_to t)) (filter (\<lambda>t. st_branch t = bid) (state_transitions d))"

fun audit_chain :: "state \<Rightarrow> (state \<times> state) list \<Rightarrow> state \<Rightarrow> bool" where
  "audit_chain s [] t \<longleftrightarrow> s = t"
| "audit_chain s ((a, b) # xs) t \<longleftrightarrow> a = s \<and> ValidateTransition a b = None \<and> audit_chain b xs t"

definition trail_ok :: "(state \<times> state) list \<Rightarrow> state \<Rightarrow> bool" where
  "trail_ok xs t \<longleftrightarrow> audit_chain StateSubmitted xs t \<or> (xs = [] \<and> t = StateOther ''active'')"

definition branch_inv :: "db \<Rightarrow> bool" where
  "branch_inv d \<longleftrightarrow> schema_ok d \<and>
     (\<forall>r\<in>set (branch_states d). trail_ok (audit d (b_id r)) (b_state r))"

inductive store_step :: "fsm_lib \<Rightarrow> db \<Rightarrow> db \<Rightarrow> bool" for lib where
  transition: "TransitionBranch lib flt now bid from to trig d = (res, d') \<Longrightarrow> store_step lib d d'"
| head_transition:
    "UpdateHeadHashAndTransition flt now bid h from to trig d = (res, d') \<Longrightarrow> store_step lib d d'"
| increment: "IncrementRetryCount flt now bid d = (resn, d') \<Longrightarrow> store_step lib d d'"
| reset: "ResetRetryCount flt now bid d = (res, d') \<Longrightarrow> store_step lib d d'"
| priority: "UpdateQueuePriority flt now bid p d = (res, d') \<Longrightarrow> store_step lib d d'"
| lease: "UpdateLeaseInfo flt now bid l ex d = (res, d') \<Longrightarrow> store_step lib d d'"
| clear_lease: "ClearLeaseInfo flt now bid d = (res, d') \<Longrightarrow> store_step lib d d'"
| pr_number: "UpdatePRNumber flt now repo branch n d = (res, d') \<Longrightarrow> store_step lib d d'"
| owner_agent: "UpdateOwnerAgent flt now repo branch a d = (res, d') \<Longrightarrow> store_step lib d d'"
| heartbeat: "UpdateSessionHeartbeat flt now repo branch d = (res, d') \<Longrightarrow> store_step lib d d'"
| readiness: "UpdateMergeReadiness flt now bid ap ci pe ut d = (res, d') \<Longrightarrow> store_step lib d d'"
| head_hash: "UpdateHeadHash flt now bid h d = (res, d') \<Longrightarrow> store_step lib d d'"
| upsert_pr: "UpsertPRTracking flt now uuid repo branch n d = (res, d') \<Longrightarrow> store_step lib d d'"
| ingest: "IngestTask flt now uuid task repo title branch d = (res, d') \<Longrightarrow> store_step lib d d'"
| delivery: "AppendDeliveryEvent flt now seq repo branch h et pl d = (res, d') \<Longrightarrow> store_step lib d d'"
| webhook: "MarkWebhookDelivery flt now did et repo d = (resb, d') \<Longrightarrow> store_step lib d d'"
| create_run: "CreateReviewRun flt now rid repo branch h prov stat sa d = (res, d') \<Longrightarrow> store_step lib d d'"
| update_run: "UpdateReviewRun flt rid stat em fa d = (res, d') \<Longrightarrow> store_step lib d d'"
| finding: "InsertFinding flt f d = (res, d') \<Longrightarrow> store_step lib d d'"
| insert_findings: "InsertFindings flt fs d = (res, d') \<Longrightarrow> store_step lib d d'"

lemma audit_chain_snoc [simp]:
  "audit_chain s (xs @ [(a, b)]) t \<longleftrightarrow> audit_chain s xs a \<and> ValidateTransition a b = None \<and> b = t"
  by (induction s xs t rule: audit_chain.induct) auto

lemma audit_chain_trace:
  "audit_chain s xs t \<Longrightarrow> trace branch_step s (map snd xs)"
  by (induction s xs t rule: audit_chain.induct) (auto intro: validate_imp_step)

lemma audit_chain_last:
  "audit_chain s xs t \<Longrightarrow> t = (if xs = [] then s else snd (last xs))"
  by (induction s xs t rule: audit_chain.induct) auto

lemma audit_update_branches [simp]: "audit (update_branches P f d) bid = audit d bid"
  by (simp add: audit_def)

text \<open>An update that keeps the keys and the state of the rows keeps the invariant.\<close>

definition branch_frame :: "(branch_row \<Rightarrow> branch_row) \<Rightarrow> bool" where
  "branch_frame f \<longleftrightarrow> (\<forall>x. b_id (f x) = b_id x \<and> branch_key (f x) = branch_key x)"

lemma update_ids: "branch_frame f \<Longrightarrow> map b_id (sql_update P f rows) = map b_id rows"
  and update_keys: "branch_frame f \<Longrightarrow> map branch_key (sql_update P f rows) = map branch_key rows"
  by (simp_all add: branch_frame_def map_sql_update)

lemma update_id_set: "branch_frame f \<Longrightarrow> b_id ` set (sql_update P f rows) = b_id ` set rows"
  using update_ids [of f P rows] by (metis set_map)

lemma schema_ok_update:
  assumes "schema_ok d" and "branch_frame f"
  shows "schema_ok (update_branches P f d)"
  using assms by (simp add: schema_ok_def update_ids update_keys update_id_set)

lemma branch_inv_update:
  assumes "branch_inv d" and "branch_frame f" and "\<And>x. P x \<Longrightarrow> b_state (f x) = b_state x"
  shows "branch_inv (update_branches P f d)"
  using assms schema_ok_update [OF _ assms(2)]
  by (auto simp: branch_inv_def set_sql_update branch_frame_def)

lemma branch_inv_exec_update:
  assumes "exec_update flt P f d = (res, d')" and "branch_inv d"
    and "branch_frame f" and "\<And>x. P x \<Longrightarrow> b_state (f x) = b_state x"
  shows "branch_inv d'"
  using assms branch_inv_update [of d f P]
  by (auto simp: exec_update_def sql_try_def split: option.splits)

text \<open>A transition writes the row's state and the audit row together.\<close>

definition apply_transition ::
  "string \<Rightarrow> (branch_row \<Rightarrow> branch_row) \<Rightarrow> transition_row \<Rightarrow> db \<Rightarrow> db" where
  "apply_transition bid f t d =
     (let d1 = update_branches (\<lambda>x. b_id x = bid) f d in
      d1\<lparr>state_transitions := state_transitions d1 @ [t]\<rparr>)"

lemma apply_transition_sel [simp]:
  "branch_states (apply_transition bid f t d) = sql_update (\<lambda>x. b_id x = bid) f (branch_states d)"
  "state_transitions (apply_transition bid f t d) = state_transitions d @ [t]"
  by (simp_all add: apply_transition_def Let_def)

lemma schema_ok_apply_transition:
  assumes "schema_ok d" and "branch_frame f" and "bid \<in> b_id ` set (branch_states d)"
    and "st_branch t = bid"
  shows "schema_ok (apply_transition bid f t d)"
proof -
  have "schema_ok (update_branches (\<lambda>x. b_id x = bid) f d)"
    using assms by (simp add: schema_ok_update)
  moreover have "bid \<in> b_id ` set (sql_update (\<lambda>x. b_id x = bid) f (branch_states d))"
    using assms(2,3) by (simp add: update_id_set)
  ultimately show ?thesis
    using assms(4) by (auto simp: schema_ok_def apply_transition_def Let_def)
qed

lemma branch_inv_apply_transition:
  assumes inv: "branch_inv d" and r: "r \<in> set (branch_states d)" "b_id r = bid"
    and f: "branch_frame f" "\<And>x. b_state (f x) = st_to t"
    and t: "st_branch t = bid" "st_from t = b_state r"
      "ValidateTransition (st_from t) (st_to t) = None"
  shows "branch_inv (apply_transition bid f t d)"
proof -
  let ?d = "apply_transition bid f t d"
  have sch: "schema_ok d" using inv by (simp add: branch_inv_def)
  have "trail_ok (audit ?d (b_id x)) (b_state x)"
    if x: "x \<in> set (branch_states ?d)" for x
  proof -
    obtain y where y: "y \<in> set (branch_states d)" "x = (if b_id y = bid then f y else y)"
      using x by (auto simp: set_sql_update)
    have ty: "trail_ok (audit d (b_id y)) (b_state y)"
      using inv y(1) by (simp add: branch_inv_def)
    show ?thesis
    proof (cases "b_id y = bid")
      case True
      then have "y = r" using schema_ok_id_unique [OF sch y(1) r(1)] r(2) by simp
      then show ?thesis
        using True y(2) f ty t
        by (auto simp: trail_ok_def audit_def branch_frame_def)
          (auto simp: ValidateTransition_def transitions_def)
    next
      case False
      then show ?thesis using y(2) ty t(1) by (simp add: audit_def)
    qed
  qed
  then show ?thesis
    using schema_ok_apply_transition [OF sch f(1) _ t(1)] r by (auto simp: branch_inv_def)
qed

section \<open>What the operations do\<close>

lemma TransitionBranch_cases:
  assumes "TransitionBranch lib flt now bid from to trig d = (res, d')" and "fsm_library lib"
  shows "(\<exists>e. res = Inl e) \<and> d' = d \<or>
    (\<exists>r. res = Inr () \<and> ValidateTransition from to = None \<and>
       r \<in> set (branch_states d) \<and> b_id r = bid \<and> b_state r = from \<and>
       d' = apply_transition bid (\<lambda>x. x\<lparr>b_state := to, b_updated_at := now\<rparr>)
              \<lparr>st_branch = bid, st_from = from, st_to = to, st_trigger = trig, st_created_at = now\<rparr> d)"
  using assms(1)
  by (auto simp: TransitionBranch_def fsm_check_agrees_lib [OF assms(2)] sql_try_def sql_row_def
      apply_transition_def Let_def
      split: option.splits if_splits dest!: find_Some_set)

lemma UpdateHeadHashAndTransition_cases:
  assumes "UpdateHeadHashAndTransition flt now bid h from to trig d = (res, d')"
  shows "(\<exists>e. res = Inl e) \<and> d' = d \<or>
    (\<exists>r. res = Inr () \<and> ValidateTransition from to = None \<and>
       r \<in> set (branch_states d) \<and> b_id r = bid \<and> b_state r = from \<and>
       d' = apply_transition bid (\<lambda>x. x\<lparr>b_head_hash := h, b_state := to, b_updated_at := now\<rparr>)
              \<lparr>st_branch = bid, st_from = from, st_to = to, st_trigger = trig, st_created_at = now\<rparr> d)"
  using assms
  by (auto simp: UpdateHeadHashAndTransition_def sql_try_def sql_row_def apply_transition_def Let_def
      split: option.splits if_splits dest!: find_Some_set)

lemma branch_frame_upd [simp]:
  "branch_frame (\<lambda>x. x\<lparr>b_state := s, b_updated_at := now\<rparr>)"
  "branch_frame (\<lambda>x. x\<lparr>b_head_hash := h, b_state := s, b_updated_at := now\<rparr>)"
  "branch_frame (\<lambda>x. x\<lparr>b_retry_count := g x, b_updated_at := now\<rparr>)"
  "branch_frame (\<lambda>x. x\<lparr>b_queue_priority := p, b_updated_at := now\<rparr>)"
  "branch_frame (\<lambda>x. x\<lparr>b_lease_id := l, b_lease_expires_at := e, b_updated_at := now\<rparr>)"
  "branch_frame (\<lambda>x. x\<lparr>b_pr_number := n, b_updated_at := now\<rparr>)"
  "branch_frame (\<lambda>x. x\<lparr>b_owner_agent := a, b_updated_at := now\<rparr>)"
  "branch_frame (\<lambda>x. x\<lparr>b_owner_session_last_seen := t, b_updated_at := now\<rparr>)"
  "branch_frame (\<lambda>x. x\<lparr>b_approved := a1, b_ci_green := a2, b_pending_events := a3,
     b_unresolved_threads := a4, b_updated_at := now\<rparr>)"
  "branch_frame (\<lambda>x. x\<lparr>b_head_hash := h, b_updated_at := now\<rparr>)"
  by (simp_all add: branch_frame_def branch_key_def)

text \<open>A new row has a fresh key, so no audit row is about it.\<close>

lemma branch_inv_new_row:
  assumes "branch_inv d" and "b_id r \<notin> b_id ` set (branch_states d)"
    and "branch_key r \<notin> branch_key ` set (branch_states d)"
    and "b_state r = StateSubmitted \<or> b_state r = StateOther ''active''"
  shows "branch_inv (d\<lparr>branch_states := branch_states d @ [r]\<rparr>)"
proof -
  have "audit d (b_id r) = []"
    using assms(1,2) unfolding branch_inv_def schema_ok_def audit_def
    by (simp add: filter_empty_conv) (metis (no_types))
  moreover have "audit (d\<lparr>branch_states := rows\<rparr>) bid = audit d bid" for rows bid
    by (simp add: audit_def)
  ultimately show ?thesis
    using assms by (auto simp: branch_inv_def schema_ok_def trail_ok_def)
qed

lemma branch_inv_cong:
  assumes "branch_inv d" and "branch_states d' = branch_states d"
    and "state_transitions d' = state_transitions d" and "schema_ok d'"
  shows "branch_inv d'"
  using assms by (simp add: branch_inv_def audit_def)

lemma insert_finding_keeps:
  assumes "insert_finding f d = Inr d'"
  shows "branch_states d' = branch_states d" and "state_transitions d' = state_transitions d"
    and "schema_ok d \<Longrightarrow> schema_ok d'" and "findings d' = findings d @ [f]"
    and "webhook_deliveries d' = webhook_deliveries d"
  using assms by (auto simp: insert_finding_def schema_ok_def split: if_splits)

lemma insert_all_keeps:
  "insert_all flt fs d = Inr d' \<Longrightarrow>
   branch_states d' = branch_states d \<and> state_transitions d' = state_transitions d \<and>
   (schema_ok d \<longrightarrow> schema_ok d') \<and> findings d' = findings d @ fs \<and>
   webhook_deliveries d' = webhook_deliveries d"
proof (induction flt fs d arbitrary: d' rule: insert_all.induct)
  case (2 flt f fs d)
  from "2.prems" obtain d1 where d1: "insert_finding f d = Inr d1"
    "flt (''exec '' @ fi_id f) = None" "insert_all flt fs d1 = Inr d'"
    by (auto split: option.splits sum.splits)
  then show ?case
    using "2.IH" [OF d1(2,1,3)] insert_finding_keeps [OF d1(1)] by simp
qed simp

lemma schema_ok_AppendDeliveryEvent:
  "AppendDeliveryEvent flt now sq repo branch h et pl d = (res, d') \<Longrightarrow> schema_ok d \<Longrightarrow> schema_ok d'"
  by (simp add: AppendDeliveryEvent_def sql_try_def schema_ok_def image_iff split: option.splits if_splits) force

lemma schema_ok_MarkWebhookDelivery:
  "MarkWebhookDelivery flt now did et repo d = (res, d') \<Longrightarrow> schema_ok d \<Longrightarrow> schema_ok d'"
  by (simp add: MarkWebhookDelivery_def sql_try_def schema_ok_def image_iff split: option.splits if_splits) force

lemma schema_ok_CreateReviewRun:
  "CreateReviewRun flt now rid repo branch h prov stat sa d = (res, d') \<Longrightarrow> schema_ok d \<Longrightarrow> schema_ok d'"
  by (simp add: CreateReviewRun_def sql_try_def schema_ok_def image_iff split: option.splits if_splits) force

lemma schema_ok_UpdateReviewRun:
  assumes "UpdateReviewRun flt rid stat em fa d = (res, d')" and "schema_ok d"
  shows "schema_ok d'"
proof -
  let ?f = "\<lambda>r::run_row. r\<lparr>rr_status := stat, rr_error := em, rr_finished_at := Some fa\<rparr>"
  have m: "map rr_id (sql_update (\<lambda>r. rr_id r = rid) ?f rows) = map rr_id rows" for rows
    by (simp add: map_sql_update)
  have "rr_id ` set (sql_update (\<lambda>r. rr_id r = rid) ?f rows) = rr_id ` set rows" for rows
    using m [of rows] by (metis set_map)
  with m show ?thesis
    using assms by (auto simp: UpdateReviewRun_def sql_try_def schema_ok_def split: option.splits)
qed

text \<open>
  Every write is one of four kinds: an update that keeps keys and states, a validated transition
  with its audit row, a new branch, or a write to other tables.
\<close>

inductive branch_write :: "db \<Rightarrow> db \<Rightarrow> bool" where
  fields: "branch_frame f \<Longrightarrow> (\<And>x. b_state (f x) = b_state x) \<Longrightarrow> branch_write d (update_branches P f d)"
| move: "r \<in> set (branch_states d) \<Longrightarrow> b_id r = bid \<Longrightarrow> branch_frame f \<Longrightarrow>
    (\<And>x. b_state (f x) = st_to t) \<Longrightarrow> st_branch t = bid \<Longrightarrow> st_from t = b_state r \<Longrightarrow>
    ValidateTransition (st_from t) (st_to t) = None \<Longrightarrow> branch_write d (apply_transition bid f t d)"
| new_row: "b_id r \<notin> b_id ` set (branch_states d) \<Longrightarrow> branch_key r \<notin> branch_key ` set (branch_states d) \<Longrightarrow>
    b_state r = StateSubmitted \<or> b_state r = StateOther ''active'' \<Longrightarrow>
    branch_write d (d\<lparr>branch_states := branch_states d @ [r]\<rparr>)"
| other: "branch_states d' = branch_states d \<Longrightarrow> state_transitions d' = state_transitions d \<Longrightarrow>
    (schema_ok d \<Longrightarrow> schema_ok d') \<Longrightarrow> branch_write d d'"

lemma branch_write_refl [simp]: "branch_write d d"
  by (rule other) auto

lemma exec_update_write:
  assumes "exec_update flt P f d = (res, d')" and "branch_frame f"
    and "\<And>x. b_state (f x) = b_state x"
  shows "branch_write d d'"
  using assms fields [OF assms(2,3), of d P]
  by (auto simp: exec_update_def sql_try_def split: option.splits)

lemma TransitionBranch_write:
  assumes "TransitionBranch lib flt now bid from to trig d = (res, d')" and "fsm_library lib"
  shows "branch_write d d'"
  using TransitionBranch_cases [OF assms]
  by (elim disjE exE conjE) (auto intro!: move)

lemma UpdateHeadHashAndTransition_write:
  assumes "UpdateHeadHashAndTransition flt now bid h from to trig d = (res, d')"
  shows "branch_write d d'"
  using UpdateHeadHashAndTransition_cases [OF assms]
  by (elim disjE exE conjE) (auto intro!: move)

lemma IncrementRetryCount_write:
  assumes "IncrementRetryCount flt now bid d = (res, d')"
  shows "branch_write d d'"
  using assms
  by (auto simp: IncrementRetryCount_def sql_try_def split: option.splits intro!: fields)

lemma UpsertPRTracking_write:
  assumes "UpsertPRTracking flt now uuid repo branch n d = (res, d')"
  shows "branch_write d d'"
  using assms
  by (auto simp: UpsertPRTracking_def sql_try_def at_branch_key branch_key_def image_iff
      split: option.splits if_splits intro!: fields new_row)

lemma IngestTask_write:
  assumes "IngestTask flt now uuid task repo title branch0 d = (res, d')"
  shows "branch_write d d'"
  using assms
  by (auto simp: IngestTask_def sql_try_def Let_def sql_row_def at_branch_key branch_key_def
      find_None_iff image_iff
      split: option.splits if_splits intro!: new_row)

lemma InsertFinding_write:
  assumes "InsertFinding flt f d = (res, d')"
  shows "branch_write d d'"
proof (cases "d' = d")
  case False
  then have "insert_finding f d = Inr d'"
    using assms by (auto simp: InsertFinding_def sql_try_def split: option.splits sum.splits)
  then show ?thesis using insert_finding_keeps by (intro other) auto
qed simp

lemma InsertFindings_write:
  assumes "InsertFindings flt fs d = (res, d')"
  shows "branch_write d d'"
proof (cases "d' = d")
  case False
  then have "insert_all flt fs d = Inr d'"
    using assms
    by (auto simp: InsertFindings_def sql_try_def split: option.splits sum.splits if_splits)
  then show ?thesis using insert_all_keeps [of flt fs d d'] by (intro other) auto
qed simp

lemma AppendDeliveryEvent_write:
  assumes "AppendDeliveryEvent flt now sq repo branch h et pl d = (res, d')"
  shows "branch_write d d'"
  using assms
  by (intro other schema_ok_AppendDeliveryEvent [OF assms])
    (auto simp: AppendDeliveryEvent_def sql_try_def split: option.splits if_splits)

lemma MarkWebhookDelivery_write:
  assumes "MarkWebhookDelivery flt now did et repo d = (res, d')"
  shows "branch_write d d'"
  using assms
  by (intro other schema_ok_MarkWebhookDelivery [OF assms])
    (auto simp: MarkWebhookDelivery_def sql_try_def split: option.splits if_splits)

lemma CreateReviewRun_write:
  assumes "CreateReviewRun flt now rid repo branch h prov stat sa d = (res, d')"
  shows "branch_write d d'"
  using assms
  by (intro other schema_ok_CreateReviewRun [OF assms])
    (auto simp: CreateReviewRun_def sql_try_def split: option.splits if_splits)

lemma UpdateReviewRun_write:
  assumes "UpdateReviewRun flt rid stat em fa d = (res, d')"
  shows "branch_write d d'"
  using assms
  by (intro other schema_ok_UpdateReviewRun [OF assms])
    (auto simp: UpdateReviewRun_def sql_try_def split: option.splits if_splits)

lemmas single_updates = ResetRetryCount_def UpdateQueuePriority_def UpdateLeaseInfo_def
  ClearLeaseInfo_def UpdatePRNumber_def UpdateSessionHeartbeat_def UpdateMergeReadiness_def
  UpdateHeadHash_def

lemma store_step_write:
  assumes "store_step lib d d'" and "fsm_library lib"
  shows "branch_write d d'"
  using assms(1)
proof (cases rule: store_step.cases)
  case owner_agent
  then show ?thesis
    by (auto simp: UpdateOwnerAgent_def split: if_splits intro: exec_update_write)
qed (auto simp: single_updates assms(2) intro: exec_update_write TransitionBranch_write
      UpdateHeadHashAndTransition_write IncrementRetryCount_write UpsertPRTracking_write
      IngestTask_write InsertFinding_write InsertFindings_write
      AppendDeliveryEvent_write MarkWebhookDelivery_write CreateReviewRun_write UpdateReviewRun_write)

lemma branch_write_inv: "branch_write d d' \<Longrightarrow> branch_inv d \<Longrightarrow> branch_inv d'"
proof (induction rule: branch_write.induct)
  case (other d' d)
  then show ?case using branch_inv_cong [of d d'] by (simp add: branch_inv_def)
qed (auto intro: branch_inv_update branch_inv_apply_transition branch_inv_new_row)

section \<open>Refinement of the branch machine\<close>

text \<open>
  What the branch machine sees of the database: per branch id, no row yet or the row's state. The
  machine creates a branch at \<open>submitted\<close>, or tracks it at \<open>active\<close>, and moves it by T02 to T20.
\<close>

definition branch_of :: "db \<Rightarrow> string \<Rightarrow> state option" where
  "branch_of d bid = map_option b_state (sql_row (\<lambda>r. b_id r = bid) (branch_states d))"

inductive life_step :: "state option \<Rightarrow> state option \<Rightarrow> bool" where
  created: "life_step None (Some StateSubmitted)"
| tracked: "life_step None (Some (StateOther ''active''))"
| moved: "branch_step s t \<Longrightarrow> life_step (Some s) (Some t)"

inductive_cases life_step_from_Some: "life_step (Some s) t"

interpretation life: lifecycle life_step "\<lambda>s. s = Some StateMerged \<or> s = Some (StateOther ''active'')"
  by unfold_locales
    (auto simp: ActiveStates_def elim!: life_step_from_Some branch_step_from_merged dest: step_known)

lemma find_id_update:
  "branch_frame f \<Longrightarrow> find (\<lambda>r. b_id r = x) (sql_update P f rows) =
     map_option (\<lambda>r. if P r then f r else r) (find (\<lambda>r. b_id r = x) rows)"
  by (rule find_sql_update) (simp add: branch_frame_def)

lemma branch_of_update:
  "branch_frame f \<Longrightarrow>
   branch_of (update_branches P f d) bid =
     map_option (\<lambda>r. b_state (if P r then f r else r)) (sql_row (\<lambda>r. b_id r = bid) (branch_states d))"
  by (simp add: branch_of_def sql_row_def find_id_update option.map_comp comp_def)

lemma branch_of_row:
  "schema_ok d \<Longrightarrow> r \<in> set (branch_states d) \<Longrightarrow> branch_of d (b_id r) = Some (b_state r)"
  by (simp add: branch_of_def sql_row_def schema_ok_find_id)

lemma branch_of_apply_transition:
  assumes "schema_ok d" and "r \<in> set (branch_states d)" and "b_id r = bid" and "branch_frame f"
    and "\<And>x. b_state (f x) = st_to t"
  shows "branch_of (apply_transition bid f t d) x =
    (if x = bid then Some (st_to t) else branch_of d x)"
  using assms schema_ok_find_id [OF assms(1,2)]
  by (auto simp: branch_of_def sql_row_def find_id_update option.map_comp comp_def
      intro!: map_option_cong dest: find_Some_set)

lemma branch_of_new_row:
  assumes "b_id r \<notin> b_id ` set (branch_states d)"
  shows "branch_of (d\<lparr>branch_states := branch_states d @ [r]\<rparr>) x =
    (if x = b_id r then Some (b_state r) else branch_of d x)"
proof -
  have *: "find P (xs @ [y]) = (case find P xs of Some z \<Rightarrow> Some z | None \<Rightarrow> if P y then Some y else None)"
    for P xs and y :: branch_row
    by (induction xs) auto
  show ?thesis
    using assms
    by (auto simp: branch_of_def sql_row_def * image_iff split: option.splits dest!: find_Some_set)
qed

lemma branch_write_refines:
  assumes "branch_write d d'" and "schema_ok d"
  shows "branch_of d' x = branch_of d x \<or> life_step (branch_of d x) (branch_of d' x)"
  using assms
proof (induction rule: branch_write.induct)
  case (fields f d P)
  then have "branch_of (update_branches P f d) x = branch_of d x"
    unfolding branch_of_update [OF fields(1)] by (simp add: branch_of_def if_distrib cong: if_cong)
  then show ?case ..
next
  case (move r d bid f t)
  then show ?case
    using branch_of_apply_transition [OF move(8,1,2,3,4)] branch_of_row [OF move(8,1)]
    by (auto simp: validate_step_iff intro: moved)
next
  case (new_row r d)
  have "branch_of d (b_id r) = None"
    using new_row(1) by (auto simp: branch_of_def sql_row_def find_None_iff image_iff)
  then show ?case
    using branch_of_new_row [OF new_row(1)] new_row(3) by (auto intro: created tracked)
next
  case (other d' d)
  then show ?case by (simp add: branch_of_def)
qed

lemma store_steps_inv:
  "(store_step lib)\<^sup>*\<^sup>* d d' \<Longrightarrow> fsm_library lib \<Longrightarrow> branch_inv d \<Longrightarrow> branch_inv d'"
  by (induction rule: rtranclp_induct) (auto intro: branch_write_inv store_step_write)

lemma store_steps_life:
  assumes "(store_step lib)\<^sup>*\<^sup>* d d'" and "fsm_library lib" and "branch_inv d"
  shows "life_step\<^sup>*\<^sup>* (branch_of d x) (branch_of d' x)"
  using assms(1)
proof (induction rule: rtranclp_induct)
  case (step y z)
  have "branch_inv y" using store_steps_inv [OF step(1) assms(2,3)] .
  then have "branch_of z x = branch_of y x \<or> life_step (branch_of y x) (branch_of z x)"
    using branch_write_refines [OF store_step_write [OF step(2) assms(2)]]
    by (simp add: branch_inv_def)
  then show ?case using step(3) by (auto intro: rtranclp.rtrancl_into_rtrancl)
qed simp

lemma branch_inv_empty [simp]: "branch_inv empty_db"
  by (simp add: branch_inv_def) (simp add: empty_db_def)

lemma transition_atomic:
  assumes "fsm_library lib" and "fst (TransitionBranch lib flt now bid from to trig d) = Inl e"
  shows "snd (TransitionBranch lib flt now bid from to trig d) = d"
  using TransitionBranch_cases [OF prod.collapse [symmetric] assms(1)] assms(2)
  by (metis sum.distinct(1))

lemma transition_result:
  assumes "fsm_library lib"
  shows "fst (TransitionBranch lib no_faults now bid from to trig d) =
      (if ValidateTransition from to = None
       then (case branch_of d bid of None \<Rightarrow> Inl ErrBranchNotFound
             | Some s \<Rightarrow> if s = from then Inr () else Inl ErrInvalidTransition)
       else Inl ErrInvalidTransition)"
  using validate_ErrInvalid [of "from" to]
  by (auto simp: TransitionBranch_def fsm_check_agrees_lib [OF assms] branch_of_def
      split: option.splits)

lemma transition_effect:
  assumes "fsm_library lib" and "schema_ok d"
    and "TransitionBranch lib flt now bid from to trig d = (Inr (), d')"
  shows "branch_of d' x = (if x = bid then Some to else branch_of d x)"
    and "audit d' x = (if x = bid then audit d x @ [(from, to)] else audit d x)"
proof -
  obtain r where r: "r \<in> set (branch_states d)" "b_id r = bid"
    and d': "d' = apply_transition bid (\<lambda>x. x\<lparr>b_state := to, b_updated_at := now\<rparr>)
      \<lparr>st_branch = bid, st_from = from, st_to = to, st_trigger = trig, st_created_at = now\<rparr> d"
    using TransitionBranch_cases [OF assms(3,1)] by auto
  show "branch_of d' x = (if x = bid then Some to else branch_of d x)"
    unfolding d' using branch_of_apply_transition [OF assms(2) r] by simp
  show "audit d' x = (if x = bid then audit d x @ [(from, to)] else audit d x)"
    unfolding d' by (simp add: audit_def)
qed

lemma upsert_new_active:
  assumes "UpsertPRTracking flt now uuid repo branch n d = (Inr (), d1)"
    and "branch_of d uuid = None" and "branch_of d1 uuid \<noteq> None"
  shows "branch_of d1 uuid = Some (StateOther ''active'')"
proof (cases "\<exists>r\<in>set (branch_states d). at_branch repo branch r")
  case True
  then have "d1 = update_branches (at_branch repo branch)
      (\<lambda>x. x\<lparr>b_pr_number := n, b_updated_at := now\<rparr>) d"
    using assms(1) by (auto simp: UpsertPRTracking_def sql_try_def split: option.splits if_splits)
  then have "branch_of d1 uuid = None"
    using assms(2) by (simp add: branch_of_update) (simp add: branch_of_def)
  with assms(3) show ?thesis by simp
next
  case False
  then have "d1 = d\<lparr>branch_states := branch_states d @
      [(new_branch uuid repo branch (StateOther ''active'') now)\<lparr>b_pr_number := n\<rparr>]\<rparr>"
    and "uuid \<notin> b_id ` set (branch_states d)"
    using assms(1)
    by (auto simp: UpsertPRTracking_def sql_try_def split: option.splits if_splits)
  then show ?thesis
    using branch_of_new_row
      [of "(new_branch uuid repo branch (StateOther ''active'') now)\<lparr>b_pr_number := n\<rparr>" d uuid]
    by simp
qed

text \<open>A webhook delivery once recorded stays recorded.\<close>

lemma empty_db_webhooks [simp]: "webhook_deliveries empty_db = []"
  by (simp add: empty_db_def)

lemma store_step_webhooks:
  "store_step lib d d' \<Longrightarrow> \<exists>ws. webhook_deliveries d' = webhook_deliveries d @ ws \<and>
     (\<forall>w\<in>set ws. wd_processed w = 1)"
proof (induction rule: store_step.induct)
  case (insert_findings flt fs d res d')
  then show ?case
  proof (cases "d' = d")
    case False
    then have "insert_all flt fs d = Inr d'"
      using insert_findings
      by (auto simp: InsertFindings_def sql_try_def split: option.splits sum.splits if_splits)
    then show ?thesis using insert_all_keeps [of flt fs d d'] by simp
  qed simp
qed (auto simp: TransitionBranch_def UpdateHeadHashAndTransition_def IncrementRetryCount_def
    single_updates exec_update_def UpdateOwnerAgent_def UpsertPRTracking_def IngestTask_def
    AppendDeliveryEvent_def MarkWebhookDelivery_def CreateReviewRun_def UpdateReviewRun_def
    InsertFinding_def insert_finding_def sql_try_def Let_def
    split: option.splits if_splits sum.splits)

lemma store_steps_webhooks:
  "(store_step lib)\<^sup>*\<^sup>* d d' \<Longrightarrow> \<exists>ws. webhook_deliveries d' = webhook_deliveries d @ ws \<and>
     (\<forall>w\<in>set ws. wd_processed w = 1)"
proof (induction rule: rtranclp_induct)
  case (step y z)
  then show ?case using store_step_webhooks [OF step(2)] by auto
qed simp

lemma insert_all_succeeds:
  "(\<exists>d'. insert_all no_faults fs d = Inr d') \<longleftrightarrow>
      distinct (map fi_id fs) \<and> set (map fi_id fs) \<inter> set (map fi_id (findings d)) = {} \<and>
      fi_run_id ` set fs \<subseteq> rr_id ` set (review_runs d)"
proof (induction fs arbitrary: d)
  case (Cons f fs)
  show ?case
  proof (cases "insert_finding f d")
    case (Inl e)
    then have "fi_id f \<in> fi_id ` set (findings d) \<or> fi_run_id f \<notin> rr_id ` set (review_runs d)"
      by (auto simp: insert_finding_def split: if_splits)
    with Inl show ?thesis by auto
  next
    case (Inr d1)
    then have "findings d1 = findings d @ [f]" "review_runs d1 = review_runs d"
      "fi_id f \<notin> fi_id ` set (findings d)" "fi_run_id f \<in> rr_id ` set (review_runs d)"
      by (auto simp: insert_finding_def split: if_splits)
    then show ?thesis using Inr Cons [of d1] by auto
  qed
qed simp

lemma case_option_lt:
  "(case x of None \<Rightarrow> False | Some t \<Rightarrow> t < n) \<longleftrightarrow> (\<exists>t. x = Some t \<and> t < n)"
  by (cases x) auto

text \<open>A database on which the properties are exercised: one ingested and queued branch.\<close>

definition demo_db :: db where
  "demo_db = snd (TransitionBranch list_fsm no_faults 5 ''b1'' StateSubmitted StateQueuedCLI ''submit''
     (snd (IngestTask no_faults 3 ''b1'' ''t1'' ''acme/api'' ''Fix'' ''feat'' empty_db)))"

definition demo_run_db :: db where
  "demo_run_db = snd (CreateReviewRun no_faults 1 ''r1'' ''acme/api'' ''feat'' ''h'' ''stub'' ''running''
     None empty_db)"

definition demo_finding :: finding_row where
  "demo_finding = \<lparr>fi_id = ''f1'', fi_run_id = ''r1'', fi_repo = ''acme/api'', fi_branch = ''feat'',
     fi_severity = ''error'', fi_category = '''', fi_file = ''a.go'', fi_line = 3,
     fi_message = ''m'', fi_source = ''stub'', fi_rule_id = '''', fi_ts = 1, fi_created_at = 1\<rparr>"

section \<open>Properties of the branch repository\<close>

text \<open>
  C2: every database reachable from the empty one by any sequence of the writes of the branch
  repository, with engine failures at any point, satisfies the invariant: ids and (repo, branch)
  pairs are unique, audit rows belong to a branch, and the audit trail of every branch starts at
  \<open>submitted\<close>, follows accepted transitions only and ends at the state of its row (or the branch
  is only tracked and has no trail).
\<close>

theorem reachable_branch_inv:
  assumes "fsm_library lib" and "(store_step lib)\<^sup>*\<^sup>* empty_db d"
  shows "branch_inv d"
  using store_steps_inv [OF assms(2,1)] by simp

lemma demo_db_eval:
  "branch_states demo_db =
     [(new_branch ''b1'' ''acme/api'' ''feat'' StateSubmitted 3)
        \<lparr>b_task_id := ''t1'', b_state := StateQueuedCLI, b_updated_at := 5\<rparr>]"
  "state_transitions demo_db =
     [\<lparr>st_branch = ''b1'', st_from = StateSubmitted, st_to = StateQueuedCLI,
       st_trigger = ''submit'', st_created_at = 5\<rparr>]"
  by (simp_all add: demo_db_def IngestTask_def TransitionBranch_def empty_db_def sql_row_def
      fsm_check_agrees_lib [OF listfsm.fsm_library_axioms] ValidateTransition_def transitions_def
      ingest_branch_def sql_update_def Let_def)

lemma demo_db_steps: "(store_step list_fsm)\<^sup>*\<^sup>* empty_db demo_db"
proof -
  let ?d1 = "snd (IngestTask no_faults 3 ''b1'' ''t1'' ''acme/api'' ''Fix'' ''feat'' empty_db)"
  have "store_step list_fsm empty_db ?d1"
    by (rule ingest) (rule prod.collapse [symmetric])
  moreover have "store_step list_fsm ?d1 demo_db"
    unfolding demo_db_def by (rule transition) (rule prod.collapse [symmetric])
  ultimately show ?thesis by (meson r_into_rtranclp rtranclp.rtrancl_into_rtrancl)
qed

theorem reachable_branch_inv_witness:
  "fsm_library list_fsm \<and> (store_step list_fsm)\<^sup>*\<^sup>* empty_db demo_db \<and> branch_inv demo_db"
  using reachable_branch_inv [OF listfsm.fsm_library_axioms demo_db_steps]
    listfsm.fsm_library_axioms demo_db_steps by simp

text \<open>
  C3: \<open>TransitionBranch\<close> is atomic and complete. Whatever fails, the database is unchanged when it
  returns an error; without engine failures it succeeds exactly when the transition is accepted and
  the branch exists in the state \<open>from\<close>, it answers \<open>ErrBranchNotFound\<close> for an accepted
  transition of an unknown branch and \<open>ErrInvalidTransition\<close> otherwise; when it succeeds, the
  branch is in \<open>to\<close>, every other branch has the state it had, and the audit trail of exactly
  this branch grew by the transition.
\<close>

theorem transition_branch_correct:
  assumes "fsm_library lib" and "schema_ok d"
  shows "(\<forall>e. fst (TransitionBranch lib flt now bid from to trig d) = Inl e \<longrightarrow>
      snd (TransitionBranch lib flt now bid from to trig d) = d) \<and>
    fst (TransitionBranch lib no_faults now bid from to trig d) =
      (if ValidateTransition from to = None
       then (case branch_of d bid of None \<Rightarrow> Inl ErrBranchNotFound
             | Some s \<Rightarrow> if s = from then Inr () else Inl ErrInvalidTransition)
       else Inl ErrInvalidTransition) \<and>
    (TransitionBranch lib flt now bid from to trig d = (Inr (), d') \<longrightarrow>
      (\<forall>x. branch_of d' x = (if x = bid then Some to else branch_of d x)) \<and>
      (\<forall>x. audit d' x = (if x = bid then audit d x @ [(from, to)] else audit d x)))"
  by (intro conjI allI impI transition_atomic [OF assms(1)] transition_result [OF assms(1)]
      transition_effect [OF assms])

theorem transition_branch_correct_witness:
  "let d = demo_db;
       (res, d') = TransitionBranch list_fsm no_faults 9 ''b1'' StateQueuedCLI StateCLIReviewing ''lease'' d
   in schema_ok d \<and> res = Inr () \<and> branch_of d' ''b1'' = Some StateCLIReviewing \<and>
      audit d' ''b1'' = [(StateSubmitted, StateQueuedCLI), (StateQueuedCLI, StateCLIReviewing)]"
proof -
  have sch: "schema_ok demo_db"
    using store_steps_inv [OF demo_db_steps listfsm.fsm_library_axioms branch_inv_empty]
    by (simp add: branch_inv_def)
  have st: "branch_of demo_db ''b1'' = Some StateQueuedCLI"
    and au: "audit demo_db ''b1'' = [(StateSubmitted, StateQueuedCLI)]"
    by (simp_all add: demo_db_eval branch_of_def sql_row_def audit_def)
  obtain res d' where rd: "TransitionBranch list_fsm no_faults 9 ''b1'' StateQueuedCLI StateCLIReviewing ''lease'' demo_db
      = (res, d')"
    by (cases "TransitionBranch list_fsm no_faults 9 ''b1'' StateQueuedCLI StateCLIReviewing ''lease'' demo_db")
  then have "res = Inr ()"
    using transition_branch_correct [OF listfsm.fsm_library_axioms sch,
        of no_faults 9 "''b1''" StateQueuedCLI StateCLIReviewing "''lease''"] st
    by (simp add: ValidateTransition_def transitions_def)
  then show ?thesis
    using transition_branch_correct [OF listfsm.fsm_library_axioms sch,
        of no_faults 9 "''b1''" StateQueuedCLI StateCLIReviewing "''lease''" d'] rd sch st au
    by simp
qed

text \<open>
  C4: the database refines the branch machine: along any sequence of writes, with failures
  anywhere, what is seen of a branch (no row, or the row's state) changes only by the steps of the
  machine: creation at \<open>submitted\<close>, tracking at \<open>active\<close>, or a transition T02 to T20. In
  particular a merged branch stays merged and no row disappears.
\<close>

theorem store_refines_branch_machine:
  assumes "fsm_library lib" and "(store_step lib)\<^sup>*\<^sup>* empty_db d" and "(store_step lib)\<^sup>*\<^sup>* d d'"
  shows "life_step\<^sup>*\<^sup>* (branch_of d bid) (branch_of d' bid) \<and>
    (branch_of d bid = Some StateMerged \<longrightarrow> branch_of d' bid = Some StateMerged) \<and>
    (branch_of d bid \<noteq> None \<longrightarrow> branch_of d' bid \<noteq> None)"
proof -
  have inv: "branch_inv d" using store_steps_inv [OF assms(2,1)] by simp
  have steps: "life_step\<^sup>*\<^sup>* (branch_of d bid) (branch_of d' bid)"
    by (rule store_steps_life [OF assms(3,1) inv])
  have "branch_of d' bid \<noteq> None" if "branch_of d bid \<noteq> None"
    using steps that by (induction rule: rtranclp_induct) (auto elim: life_step.cases)
  then show ?thesis
    using steps life.final_absorbing [OF steps] by auto
qed

theorem store_refines_branch_machine_witness:
  "life_step\<^sup>*\<^sup>* (branch_of empty_db ''b1'') (branch_of demo_db ''b1'') \<and>
   branch_of demo_db ''b1'' = Some StateQueuedCLI"
  using store_refines_branch_machine [OF listfsm.fsm_library_axioms _ demo_db_steps, of "''b1''"]
  by (simp add: demo_db_eval branch_of_def sql_row_def)

text \<open>
  A branch that \<open>UpsertPRTracking\<close> creates never enters the lifecycle: its state
  \<open>active\<close> is not a state of the machine, so that every later \<open>TransitionBranch\<close> on it,
  from any state to any state, answers an error, whatever else happens in between.
\<close>

theorem tracked_branch_is_stuck:
  assumes "fsm_library lib" and "branch_inv d"
    and "UpsertPRTracking flt now uuid repo branch n d = (Inr (), d1)"
    and "branch_of d uuid = None" and "branch_of d1 uuid \<noteq> None"
    and "(store_step lib)\<^sup>*\<^sup>* d1 d2"
  shows "branch_of d2 uuid = Some (StateOther ''active'') \<and>
    fst (TransitionBranch lib flt2 now2 uuid from to trig d2) \<noteq> Inr ()"
proof -
  have s1: "store_step lib d d1" by (rule upsert_pr [OF assms(3)])
  have inv1: "branch_inv d1"
    using branch_write_inv [OF store_step_write [OF s1 assms(1)] assms(2)] .
  have "branch_of d1 uuid = Some (StateOther ''active'')"
    by (rule upsert_new_active [OF assms(3,4,5)])
  then have act: "branch_of d2 uuid = Some (StateOther ''active'')"
    using life.final_absorbing [OF store_steps_life [OF assms(6,1) inv1, of uuid]] by simp
  have "fst (TransitionBranch lib flt2 now2 uuid from to trig d2) \<noteq> Inr ()"
  proof
    assume "fst (TransitionBranch lib flt2 now2 uuid from to trig d2) = Inr ()"
    then obtain r where "ValidateTransition from to = None" "r \<in> set (branch_states d2)"
      "b_id r = uuid" "b_state r = from"
      using TransitionBranch_cases [OF prod.collapse [symmetric] assms(1),
          of flt2 now2 uuid "from" to trig d2] by auto
    moreover have "schema_ok d2"
      using store_steps_inv [OF assms(6,1) inv1] by (simp add: branch_inv_def)
    ultimately have "from = StateOther ''active''" "branch_step from to"
      using act branch_of_row by (auto dest: validate_imp_step)
    then show False using step_known by fastforce
  qed
  with act show ?thesis ..
qed

theorem tracked_branch_is_stuck_witness:
  "let d1 = snd (UpsertPRTracking no_faults 4 ''b2'' ''acme/api'' ''fix'' 7 empty_db)
   in branch_of d1 ''b2'' = Some (StateOther ''active'') \<and>
      fst (TransitionBranch list_fsm no_faults 9 ''b2'' (StateOther ''active'') StateQueuedCLI ''submit'' d1)
        \<noteq> Inr ()"
proof -
  let ?u = "UpsertPRTracking no_faults 4 ''b2'' ''acme/api'' ''fix'' 7 empty_db"
  have "?u = (Inr (), snd ?u)" and "branch_of (snd ?u) ''b2'' \<noteq> None"
    and "branch_of empty_db ''b2'' = None"
    by (simp_all add: UpsertPRTracking_def empty_db_def branch_of_def sql_row_def)
  then show ?thesis
    using tracked_branch_is_stuck [OF listfsm.fsm_library_axioms branch_inv_empty, of no_faults 4 "''b2''"
        "''acme/api''" "''fix''" 7 "snd ?u" "snd ?u"]
    by (auto simp: Let_def)
qed

text \<open>
  The durable webhook dedup answers "new" at most once per delivery id: after a successful
  \<open>MarkWebhookDelivery\<close>, and whatever is written in between, \<open>IsWebhookProcessed\<close> is true and
  every later \<open>MarkWebhookDelivery\<close> of the id answers false and writes nothing.
\<close>

theorem webhook_marked_once:
  assumes "(store_step lib)\<^sup>*\<^sup>* empty_db d"
    and "MarkWebhookDelivery flt now did et repo d = (Inr b, d1)"
    and "(store_step lib)\<^sup>*\<^sup>* d1 d2"
  shows "IsWebhookProcessed no_faults did d2 = Inr True \<and>
    MarkWebhookDelivery no_faults now2 did et2 repo2 d2 = (Inr False, d2)"
proof -
  have "\<forall>w\<in>set (webhook_deliveries d). wd_processed w = 1"
    using store_steps_webhooks [OF assms(1)] by auto
  then have "\<exists>w\<in>set (webhook_deliveries d1). wd_delivery_id w = did \<and> wd_processed w = 1"
    using assms(2) by (auto simp: MarkWebhookDelivery_def sql_try_def split: option.splits if_splits)
  then have "\<exists>w\<in>set (webhook_deliveries d2). wd_delivery_id w = did \<and> wd_processed w = 1"
    using store_steps_webhooks [OF assms(3)] by auto
  then show ?thesis
    by (auto simp: IsWebhookProcessed_def MarkWebhookDelivery_def sql_affected_pos)
qed

theorem webhook_marked_once_witness:
  "let d1 = snd (MarkWebhookDelivery no_faults 1 ''d-1'' ''push'' ''acme/api'' empty_db)
   in fst (MarkWebhookDelivery no_faults 1 ''d-1'' ''push'' ''acme/api'' empty_db) = Inr True \<and>
      MarkWebhookDelivery no_faults 2 ''d-1'' ''push'' ''acme/api'' d1 = (Inr False, d1)"
proof -
  let ?m = "MarkWebhookDelivery no_faults 1 ''d-1'' ''push'' ''acme/api'' empty_db"
  have m: "?m = (Inr True, snd ?m)"
    by (simp add: MarkWebhookDelivery_def empty_db_def)
  show ?thesis
    using webhook_marked_once [OF rtranclp.rtrancl_refl m rtranclp.rtrancl_refl,
        of 2 "''push''" "''acme/api''"] m
    by (metis fst_conv)
qed

text \<open>
  The two audit queries return exactly the branches they are for, in the order of their
  deadline, and each listed branch admits the transitions the auditors apply: an expired lease can be
  requeued (T07) or blocked (T16), an expired session can be abandoned (T14).
\<close>

theorem expired_queries_exact:
  "(\<exists>bs. ListExpiredLeases no_faults now d = Inr bs \<and>
      set bs = scan_row ` {r \<in> set (branch_states d). b_state r = StateCLIReviewing \<and>
                   (\<exists>t. b_lease_expires_at r = Some t \<and> t < now)} \<and>
      sorted (map (\<lambda>b. the (LeaseExpiresAt b)) bs) \<and>
      list_all (\<lambda>b. ValidateTransition (State b) StateQueuedCLI = None \<and>
                     ValidateTransition (State b) StateBlocked = None) bs) \<and>
   (\<exists>bs. ListExpiredSessions no_faults now ttl d = Inr bs \<and>
      set bs = scan_row ` {r \<in> set (branch_states d). b_state r \<in> set ActiveStates \<and>
                   (\<exists>t. b_owner_session_last_seen r = Some t \<and> t < now - ttl)} \<and>
      sorted (map (\<lambda>b. the (OwnerSessionLastSeen b)) bs) \<and>
      list_all (\<lambda>b. ValidateTransition (State b) StateAbandoned = None) bs)"
proof -
  have v: "ValidateTransition StateCLIReviewing StateQueuedCLI = None"
    "ValidateTransition StateCLIReviewing StateBlocked = None"
    and va: "s \<in> set ActiveStates \<Longrightarrow> ValidateTransition s StateAbandoned = None" for s
    using step_imp_validate branch_step.intros by (auto simp: ActiveStates_def)
  have so: "sorted (map k (sql_order k rows))" for k :: "branch_row \<Rightarrow> int" and rows
    by (rule sorted_sql_order)
  show ?thesis
    using so [of "\<lambda>r. the (b_lease_expires_at r)"] so [of "\<lambda>r. the (b_owner_session_last_seen r)"]
    by (simp add: ListExpiredLeases_def ListExpiredSessions_def scanBranches_def scan_row_def
        comp_def list_all_iff v va sql_active_states_def ActiveStates_def [symmetric]
        case_option_lt Let_def)
qed

text \<open>
  \<open>InsertFindings\<close> is all or nothing: it either stores the findings of the batch in order
  after the ones that were there, or returns an error and stores none of them. Without engine
  failures it succeeds exactly when the batch's ids are new and distinct and its runs exist.
\<close>

theorem insert_findings_atomic:
  "(fst (InsertFindings flt fs d) = Inr () \<longrightarrow> findings (snd (InsertFindings flt fs d)) = findings d @ fs) \<and>
   (fst (InsertFindings flt fs d) \<noteq> Inr () \<longrightarrow> snd (InsertFindings flt fs d) = d) \<and>
   (fst (InsertFindings no_faults fs d) = Inr () \<longleftrightarrow>
      distinct (map fi_id fs) \<and> set (map fi_id fs) \<inter> set (map fi_id (findings d)) = {} \<and>
      fi_run_id ` set fs \<subseteq> rr_id ` set (review_runs d))"
proof (intro conjI)
  show "fst (InsertFindings flt fs d) = Inr () \<longrightarrow> findings (snd (InsertFindings flt fs d)) = findings d @ fs"
    using insert_all_keeps [of flt fs d]
    by (cases "insert_all flt fs d") (simp_all add: InsertFindings_def sql_try_def split: option.splits)
  show "fst (InsertFindings flt fs d) \<noteq> Inr () \<longrightarrow> snd (InsertFindings flt fs d) = d"
    by (auto simp: InsertFindings_def sql_try_def split: option.splits sum.splits)
  show "fst (InsertFindings no_faults fs d) = Inr () \<longleftrightarrow>
      distinct (map fi_id fs) \<and> set (map fi_id fs) \<inter> set (map fi_id (findings d)) = {} \<and>
      fi_run_id ` set fs \<subseteq> rr_id ` set (review_runs d)"
    using insert_all_succeeds [of fs d]
    by (cases "insert_all no_faults fs d") (auto simp: InsertFindings_def)
qed

theorem insert_findings_atomic_witness:
  "findings (snd (InsertFindings no_faults [demo_finding] demo_run_db)) = [demo_finding] \<and>
   snd (InsertFindings no_faults [demo_finding, demo_finding] demo_run_db) = demo_run_db"
proof -
  have "rr_id ` set (review_runs demo_run_db) = {''r1''}" "findings demo_run_db = []"
    "fi_id demo_finding = ''f1''" "fi_run_id demo_finding = ''r1''"
    by (simp_all add: demo_run_db_def CreateReviewRun_def empty_db_def demo_finding_def)
  then show ?thesis
    using insert_findings_atomic [of no_faults "[demo_finding]" demo_run_db]
      insert_findings_atomic [of no_faults "[demo_finding, demo_finding]" demo_run_db]
    by simp
qed

end
