(* ===== verification/Slots.thy ===== *)
theory Slots
  imports Queue Branch_Store
begin

text \<open>
  Dispatch slots (\<open>internal/scheduler/slot.go\<close>) and the stall detector
  (\<open>internal/scheduler/stall.go\<close>). The counter of a repo is the decimal string under
  \<open>codero:repo:dispatch:slots\<close>; the two Lua scripts are one step each. \<open>slot_run\<close> is any
  interleaving of acquisitions and releases by any number of dispatchers, with network failures.
\<close>

section \<open>Slots\<close>

definition slotKey :: "string \<Rightarrow> error + string" where
  "slotKey repo = BuildKey repo ''dispatch'' ''slots''"

definition acquire_slot_script :: "'r redis_api \<Rightarrow> string \<Rightarrow> int \<Rightarrow> 'r \<Rightarrow> (string + int) \<times> 'r" where
  "acquire_slot_script api key limit s =
     (case (case rGET api key s of
              None \<Rightarrow> Some 0
            | Some current \<Rightarrow> lua_tonumber api current) of
        None \<Rightarrow> (Inl ''attempt to compare nil with number'', s)
      | Some count \<Rightarrow>
          if limit \<le> count then (Inr 0, s)
          else (case rINCRBY api key 1 s of
                  (Some n, s') \<Rightarrow> (Inr n, s')
                | (None, s') \<Rightarrow> (Inl ''ERR value is not an integer or out of range'', s')))"

definition AcquireSlot :: "'r redis_api \<Rightarrow> rfaults \<Rightarrow> string \<Rightarrow> int \<Rightarrow> 'r \<Rightarrow> (error + bool) \<times> 'r" where
  "AcquireSlot api rf repo limit s =
     (case slotKey repo of
        Inl e \<Rightarrow> (Inl e, s)
      | Inr key \<Rightarrow>
         redis_call rf ''acquire slot'' (acquire_slot_script api key limit) s
          (\<lambda>result s'. case result of
             Inl err \<Rightarrow> (Inl (RedisError err), s')
           | Inr n \<Rightarrow> (Inr (0 < n), s')))"

definition release_slot_script :: "'r redis_api \<Rightarrow> string \<Rightarrow> 'r \<Rightarrow> (string + int) \<times> 'r" where
  "release_slot_script api key s =
     (case rGET api key s of
        None \<Rightarrow> (Inr 0, s)
      | Some current \<Rightarrow>
          (case lua_tonumber api current of
             None \<Rightarrow> (Inl ''attempt to compare nil with number'', s)
           | Some count \<Rightarrow>
               if count \<le> 0 then (Inr 0, s)
               else (case rINCRBY api key (- 1) s of
                       (Some n, s') \<Rightarrow> (Inr n, s')
                     | (None, s') \<Rightarrow> (Inl ''ERR value is not an integer or out of range'', s'))))"

definition ReleaseSlot :: "'r redis_api \<Rightarrow> rfaults \<Rightarrow> string \<Rightarrow> 'r \<Rightarrow> (error + unit) \<times> 'r" where
  "ReleaseSlot api rf repo s =
     (case slotKey repo of
        Inl e \<Rightarrow> (Inl e, s)
      | Inr key \<Rightarrow>
         redis_call rf ''release slot'' (release_slot_script api key) s
          (\<lambda>result s'. case result of
             Inl err \<Rightarrow> (Inl (RedisError err), s')
           | Inr _ \<Rightarrow> (Inr (), s')))"

definition GetSlotCount :: "'r redis_api \<Rightarrow> rfaults \<Rightarrow> string \<Rightarrow> 'r \<Rightarrow> error + int" where
  "GetSlotCount api rf repo s =
     (case slotKey repo of
        Inl e \<Rightarrow> Inl e
      | Inr key \<Rightarrow> (case rf ''get'' of
          Some (e, _) \<Rightarrow> Inl (RedisError e)
        | None \<Rightarrow> (case rGET api key s of
            None \<Rightarrow> Inr 0
          | Some v \<Rightarrow> (case ParseInt v of
              Some n \<Rightarrow> Inr n
            | None \<Rightarrow> Inl (RedisError ''strconv.ParseInt: invalid syntax'')))))"

definition SetSlotCount :: "'r redis_api \<Rightarrow> rfaults \<Rightarrow> string \<Rightarrow> int \<Rightarrow> 'r \<Rightarrow> (error + unit) \<times> 'r" where
  "SetSlotCount api rf repo count s =
     (case slotKey repo of
        Inl e \<Rightarrow> (Inl e, s)
      | Inr key \<Rightarrow>
         if count \<le> 0
         then redis_call rf ''del'' (\<lambda>r. ((), rDEL api key r)) s (\<lambda>_ s'. (Inr (), s'))
         else redis_call rf ''set'' (\<lambda>r. ((), rSET api key (FormatInt count) r)) s (\<lambda>_ s'. (Inr (), s')))"

definition ResetSlotCount :: "'r redis_api \<Rightarrow> rfaults \<Rightarrow> string \<Rightarrow> 'r \<Rightarrow> (error + unit) \<times> 'r" where
  "ResetSlotCount api rf repo s =
     (case slotKey repo of
        Inl e \<Rightarrow> (Inl e, s)
      | Inr key \<Rightarrow> redis_call rf ''del'' (\<lambda>r. ((), rDEL api key r)) s (\<lambda>_ s'. (Inr (), s')))"

section \<open>The stall detector\<close>

record StallStatus =
  QueueEmpty :: bool
  TotalItems :: int
  BlockedItems :: int
  BlockedRatio :: real
  IsStalled :: bool

definition isBranchBlocked :: "faults \<Rightarrow> string \<Rightarrow> string \<Rightarrow> db \<Rightarrow> error + bool" where
  "isBranchBlocked flt repo branch d =
     (case flt (''query '' @ branch) of
        Some e \<Rightarrow> Inl (DBError e)
      | None \<Rightarrow> (case sql_row (at_branch repo branch) (branch_states d) of
                   None \<Rightarrow> Inr False
                 | Some r \<Rightarrow> Inr (b_max_retries r \<le> b_retry_count r)))"

text \<open>The loop that counts blocked entries; it stops at the first query that fails.\<close>

fun count_blocked :: "faults \<Rightarrow> string \<Rightarrow> QueueEntry list \<Rightarrow> db \<Rightarrow> int \<Rightarrow> error + int" where
  "count_blocked flt repo [] d n = Inr n"
| "count_blocked flt repo (e # es) d n =
     (case isBranchBlocked flt repo (q_branch e) d of
        Inl err \<Rightarrow> Inl err
      | Inr blocked \<Rightarrow> count_blocked flt repo es d (if blocked then n + 1 else n))"

definition CheckStalled ::
  "'r redis_api \<Rightarrow> rfaults \<Rightarrow> faults \<Rightarrow> real \<Rightarrow> string \<Rightarrow> 'r \<Rightarrow> db \<Rightarrow> error + StallStatus" where
  "CheckStalled api rf flt maxRatio repo s d =
     (case QueueList api rf repo s of
        Inl e \<Rightarrow> Inl e
      | Inr entries \<Rightarrow>
         if entries = []
         then Inr \<lparr>QueueEmpty = True, TotalItems = 0, BlockedItems = 0, BlockedRatio = 0, IsStalled = False\<rparr>
         else (case count_blocked flt repo entries d 0 of
             Inl e \<Rightarrow> Inl e
           | Inr n \<Rightarrow>
              (let total = int (length entries); ratio = real_of_int n / real_of_int total in
               Inr \<lparr>QueueEmpty = False, TotalItems = total, BlockedItems = n, BlockedRatio = ratio,
                    IsStalled = (maxRatio \<le> ratio \<and> 0 < total)\<rparr>)))"

section \<open>The counter\<close>

definition slot_key :: "string \<Rightarrow> string" where
  "slot_key repo = ''codero:'' @ repo @ '':dispatch:slots''"

lemma slotKey_eq [simp]: "key_part repo \<Longrightarrow> slotKey repo = Inr (slot_key repo)"
  by (simp add: slotKey_def slot_key_def)

inductive slot_step :: "'r redis_api \<Rightarrow> string \<Rightarrow> int \<Rightarrow> 'r \<Rightarrow> 'r \<Rightarrow> bool" for api repo limit where
  acquire: "slot_step api repo limit s (snd (AcquireSlot api rf repo limit s))"
| release: "slot_step api repo limit s (snd (ReleaseSlot api rf repo s))"

context redis_server
begin

lemma acquire_slot_script_effect:
  assumes "counter_at view s key n" and "0 \<le> n" and "n \<le> 9007199254740992"
  shows "if limit \<le> n then acquire_slot_script api key limit s = (Inr 0, s)
    else fst (acquire_slot_script api key limit s) = Inr (n + 1) \<and>
         counter_at view (snd (acquire_slot_script api key limit s)) key (n + 1)"
proof -
  have "\<bar>n\<bar> \<le> 9007199254740992" using assms(2,3) by simp
  note g = counter_get [OF assms(1) this]
  have i: "in_int64 n" "in_int64 (n + 1)" using assms(2,3) by (simp_all add: in_int64_def)
  show ?thesis
    using counter_incr_at [OF assms(1) i] g by (auto simp: acquire_slot_script_def split: prod.splits)
qed

lemma release_slot_script_effect:
  assumes "counter_at view s key n" and "0 \<le> n" and "n \<le> 9007199254740992"
  shows "counter_at view (snd (release_slot_script api key s)) key (if n = 0 then 0 else n - 1)"
proof -
  have "\<bar>n\<bar> \<le> 9007199254740992" using assms(2,3) by simp
  note g = counter_get [OF assms(1) this]
  have i: "in_int64 n" "in_int64 (n + - 1)" using assms(2,3) by (simp_all add: in_int64_def)
  show ?thesis
    using counter_incr_at [OF assms(1) i] g assms(1,2)
    by (auto simp: release_slot_script_def split: prod.splits option.splits)
qed

lemma snd_AcquireSlot:
  "key_part repo \<Longrightarrow> snd (AcquireSlot api rf repo limit s) \<in> {s, snd (acquire_slot_script api (slot_key repo) limit s)}"
  by (auto simp: AcquireSlot_def redis_call_def split: option.splits prod.splits sum.splits)

lemma snd_ReleaseSlot:
  "key_part repo \<Longrightarrow> snd (ReleaseSlot api rf repo s) \<in> {s, snd (release_slot_script api (slot_key repo) s)}"
  by (auto simp: ReleaseSlot_def redis_call_def split: option.splits prod.splits sum.splits)

lemma slot_step_bound:
  assumes "slot_step api repo limit s s'" and "key_part repo" and "limit \<le> 9007199254740992"
    and "counter_at view s (slot_key repo) n" and "0 \<le> n" and "n \<le> limit"
  shows "\<exists>n'. counter_at view s' (slot_key repo) n' \<and> 0 \<le> n' \<and> n' \<le> limit"
  using assms(1)
proof cases
  case (acquire rf)
  show ?thesis
    using snd_AcquireSlot [OF assms(2), of rf limit s]
      acquire_slot_script_effect [OF assms(4,5), of limit] assms(3-6) acquire
    by (auto split: if_splits)
next
  case (release rf)
  show ?thesis
    using snd_ReleaseSlot [OF assms(2), of rf s]
      release_slot_script_effect [OF assms(4,5)] assms(3-6) release
    by (auto split: if_splits)
qed

end

lemma count_blocked_ok:
  "count_blocked no_faults repo es d n =
   Inr (n + int (length (filter (\<lambda>e. isBranchBlocked no_faults repo (q_branch e) d = Inr True) es)))"
proof (induction es arbitrary: n)
  case (Cons e es)
  obtain b where "isBranchBlocked no_faults repo (q_branch e) d = Inr b"
    by (cases "sql_row (at_branch repo (q_branch e)) (branch_states d)")
      (auto simp: isBranchBlocked_def)
  then show ?case using Cons by (cases b) (simp_all del: no_faults_None)
qed simp

lemma length_filter_full: "length xs \<le> length (filter P xs) \<longleftrightarrow> (\<forall>x\<in>set xs. P x)"
proof (induction xs)
  case (Cons x xs)
  have "length (filter P xs) \<le> length xs" by simp
  then have "\<not> Suc (length xs) \<le> length (filter P xs)" by linarith
  with Cons show ?case by (cases "P x") simp_all
qed simp

lemma ratio_one: "0 < n \<Longrightarrow> 1 \<le> real k / real n \<longleftrightarrow> n \<le> k"
  by (simp add: field_simps)

section \<open>Properties of slots and stalls\<close>

text \<open>
  C7: the number of slots in use never leaves \<open>0 .. limit\<close>, whatever interleaving of
  acquisitions and releases by any number of dispatchers happened and whatever calls failed; the
  count read back is that number, and \<open>AcquireSlot\<close> grants a slot exactly when it is below the
  limit.
\<close>

theorem slots_never_exceed_limit:
  assumes "redis_server api view" and "key_part repo" and "0 \<le> limit" and "limit \<le> 9007199254740992"
    and "counter_at view s (slot_key repo) n" and "0 \<le> n" and "n \<le> limit"
    and "(slot_step api repo limit)\<^sup>*\<^sup>* s s'"
  shows "\<exists>n'. 0 \<le> n' \<and> n' \<le> limit \<and> GetSlotCount api no_rfaults repo s' = Inr n' \<and>
    fst (AcquireSlot api no_rfaults repo limit s') = Inr (n' < limit)"
proof -
  have "\<exists>n'. counter_at view s' (slot_key repo) n' \<and> 0 \<le> n' \<and> n' \<le> limit"
    using assms(8)
  proof (induction rule: rtranclp_induct)
    case (step y z)
    then show ?case
      using redis_server.slot_step_bound [OF assms(1) step(2) assms(2,4)] by blast
  qed (use assms(5-7) in blast)
  then obtain n' where n': "counter_at view s' (slot_key repo) n'" "0 \<le> n'" "n' \<le> limit" by blast
  have "GetSlotCount api no_rfaults repo s' = Inr n'"
    using n' assms(2,4) redis_server.get_absent [OF assms(1)] redis_server.get_str [OF assms(1)]
    by (auto simp: GetSlotCount_def counter_at_def in_int64_def)
  moreover have "fst (AcquireSlot api no_rfaults repo limit s') = Inr (n' < limit)"
    using redis_server.acquire_slot_script_effect [OF assms(1) n'(1,2), of limit] n'(2,3) assms(2,4)
    by (auto simp: AcquireSlot_def split: if_splits)
  ultimately show ?thesis using n' by blast
qed

theorem slots_never_exceed_limit_witness:
  "\<exists>n'. 0 \<le> n' \<and> n' \<le> 1 \<and>
     GetSlotCount mem_api no_rfaults ''acme'' (snd (AcquireSlot mem_api no_rfaults ''acme'' 1 (\<lambda>_. Absent))) = Inr n' \<and>
     fst (AcquireSlot mem_api no_rfaults ''acme'' 1
       (snd (AcquireSlot mem_api no_rfaults ''acme'' 1 (\<lambda>_. Absent)))) = Inr (n' < 1)"
proof -
  have s: "counter_at mem_view (\<lambda>_. Absent) (slot_key ''acme'') 0"
    by (simp add: counter_at_def mem_view_def)
  have k: "key_part ''acme''" by (simp add: key_part_def)
  show ?thesis
    using slots_never_exceed_limit [OF mem.redis_server_axioms k _ _ s, of 1
        "snd (AcquireSlot mem_api no_rfaults ''acme'' 1 (\<lambda>_. Absent))"]
    by (simp add: slot_step.intros r_into_rtranclp)
qed

text \<open>
  With the detector's ratio of 1, \<open>CheckStalled\<close> reports a stall exactly when the queue has
  entries and every one of them is a branch whose retry count has reached its maximum; the counts it
  reports are those of the queue, and it always answers when the queries work.
\<close>

theorem stall_detection_exact:
  assumes "QueueList api no_rfaults repo s = Inr es"
  shows "\<exists>st. CheckStalled api no_rfaults no_faults 1 repo s d = Inr st \<and>
    (IsStalled st \<longleftrightarrow> es \<noteq> [] \<and>
      (\<forall>e\<in>set es. \<exists>r. sql_row (at_branch repo (q_branch e)) (branch_states d) = Some r \<and>
         b_max_retries r \<le> b_retry_count r)) \<and>
    (QueueEmpty st \<longleftrightarrow> es = []) \<and> TotalItems st = int (length es)"
proof -
  let ?bl = "filter (\<lambda>e. isBranchBlocked no_faults repo (q_branch e) d = Inr True) es"
  have bl: "isBranchBlocked no_faults repo b d = Inr True \<longleftrightarrow>
      (\<exists>r. sql_row (at_branch repo b) (branch_states d) = Some r \<and> b_max_retries r \<le> b_retry_count r)" for b
    by (auto simp: isBranchBlocked_def split: option.splits)
  have "length es \<le> length ?bl \<longleftrightarrow> (\<forall>e\<in>set es. isBranchBlocked no_faults repo (q_branch e) d = Inr True)"
    by (rule length_filter_full)
  then show ?thesis
    using assms ratio_one [of "length es" "length ?bl"]
    by (cases "es = []") (simp_all add: CheckStalled_def count_blocked_ok Let_def bl)
qed

theorem stall_detection_exact_witness:
  "\<exists>st. CheckStalled mem_api no_rfaults no_faults 1 ''acme/api'' demo_queue empty_db = Inr st \<and>
     \<not> IsStalled st \<and> TotalItems st = 2"
proof -
  have l: "QueueList mem_api no_rfaults ''acme/api'' demo_queue =
      Inr (map (read_entry ''acme/api'') [(''feat'', 1), (''fix'', 2)])"
    by (simp add: QueueList_def key_part_def mem_api_def demo_queue_eval zset_of_def)
  from stall_detection_exact [OF l, of empty_db] obtain st where
    st: "CheckStalled mem_api no_rfaults no_faults 1 ''acme/api'' demo_queue empty_db = Inr st"
    "\<not> IsStalled st" "TotalItems st = int (length (map (read_entry ''acme/api'') [(''feat'', 1), (''fix'', 2)]))"
    by (simp add: empty_db_def sql_row_def) blast
  then show ?thesis by simp
qed

end
