(* ===== verification/Assignment.thy ===== *)
theory Assignment
  imports Lifecycle
begin

text \<open>
  The assignment lifecycle and its compliance rules: \<open>internal/state/assignment_fsm.go\<close> and the
  part of \<open>internal/state/assignment_compliance.go\<close> that does not touch the database.

  The Go type \<open>assignmentLifecycleState\<close> is a string with six named constants; a column may hold
  any other string, which is \<open>assignmentStateOther\<close>. The struct \<open>AgentSession\<close> and the
  struct \<open>AgentAssignment\<close> are records; the table rows of the next theory extend them with the
  columns the structs leave out. A map that is written as a JSON detail is the list of its entries.

  \<open>asg_step\<close> is the specification of the machine, and an instance of the contract
  \<open>lifecycle\<close> it shares with the branch machine.
\<close>

section \<open>States and substatuses\<close>

datatype assignmentLifecycleState =
    assignmentStateActive
  | assignmentStateBlocked
  | assignmentStateCompleted
  | assignmentStateCancelled
  | assignmentStateSuperseded
  | assignmentStateLost
  | assignmentStateOther string

fun asg_state_str :: "assignmentLifecycleState \<Rightarrow> string" where
  "asg_state_str assignmentStateActive = ''active''"
| "asg_state_str assignmentStateBlocked = ''blocked''"
| "asg_state_str assignmentStateCompleted = ''completed''"
| "asg_state_str assignmentStateCancelled = ''cancelled''"
| "asg_state_str assignmentStateSuperseded = ''superseded''"
| "asg_state_str assignmentStateLost = ''lost''"
| "asg_state_str (assignmentStateOther s) = s"

definition activeAssignmentSubstatusSet :: "string list" where
  "activeAssignmentSubstatusSet =
     [''in_progress'', ''needs_revision'', ''waiting_for_ci'', ''waiting_for_merge_approval'']"

definition blockedAssignmentSubstatusSet :: "string list" where
  "blockedAssignmentSubstatusSet =
     [''blocked_credential_failure'', ''blocked_merge_conflict'', ''blocked_external_dependency'',
      ''blocked_ci_failure'', ''blocked_policy'']"

definition completedAssignmentSubstatusSet :: "string list" where
  "completedAssignmentSubstatusSet =
     [''terminal_finished'', ''terminal_waiting_for_comments'', ''terminal_waiting_for_next_task'']"

definition terminalAssignmentSubstatusSet :: "string list" where
  "terminalAssignmentSubstatusSet =
     [''terminal_finished'', ''terminal_waiting_for_comments'', ''terminal_waiting_for_next_task'',
      ''terminal_cancelled'', ''terminal_lost'', ''terminal_stuck_abandoned'']"

definition normalizeAssignmentSubstatus :: "string \<Rightarrow> string" where
  "normalizeAssignmentSubstatus substatus = ToLower (TrimSpace substatus)"

section \<open>The assignment machine\<close>

definition assignmentEventName :: "assignmentLifecycleState \<Rightarrow> assignmentLifecycleState \<Rightarrow> string" where
  "assignmentEventName from to = ''transition_'' @ asg_state_str from @ ''_to_'' @ asg_state_str to"

definition asg_event :: "assignmentLifecycleState \<Rightarrow> assignmentLifecycleState \<Rightarrow> fsm_event" where
  "asg_event from to =
     \<lparr>ev_name = assignmentEventName from to, ev_src = [asg_state_str from], ev_dst = asg_state_str to\<rparr>"

definition buildAssignmentFSMEvents :: "fsm_event list" where
  "buildAssignmentFSMEvents =
    [asg_event assignmentStateActive assignmentStateBlocked,
     asg_event assignmentStateActive assignmentStateCompleted,
     asg_event assignmentStateActive assignmentStateCancelled,
     asg_event assignmentStateActive assignmentStateSuperseded,
     asg_event assignmentStateActive assignmentStateLost,
     asg_event assignmentStateBlocked assignmentStateActive,
     asg_event assignmentStateBlocked assignmentStateCompleted,
     asg_event assignmentStateBlocked assignmentStateCancelled,
     asg_event assignmentStateBlocked assignmentStateSuperseded,
     asg_event assignmentStateBlocked assignmentStateLost]"

definition NewAssignmentFSM :: "assignmentLifecycleState \<Rightarrow> string \<times> fsm_event list" where
  "NewAssignmentFSM initial =
     (if asg_state_str initial = '''' then asg_state_str assignmentStateActive else asg_state_str initial,
      buildAssignmentFSMEvents)"

definition ValidateAssignmentStateTransition ::
  "fsm_lib \<Rightarrow> assignmentLifecycleState \<Rightarrow> assignmentLifecycleState \<Rightarrow> error option" where
  "ValidateAssignmentStateTransition lib from to =
     (case NewAssignmentFSM from of (cur, evs) \<Rightarrow>
        if \<not> fsm_Can lib evs cur (assignmentEventName from to)
        then Some ErrInvalidAssignmentSubstatus else None)"

definition ValidateAssignmentSubstatus :: "assignmentLifecycleState \<Rightarrow> string \<Rightarrow> error option" where
  "ValidateAssignmentSubstatus st substatus =
     (let normalized = normalizeAssignmentSubstatus substatus;
          ok = (case st of
            assignmentStateActive \<Rightarrow> normalized = '''' \<or> normalized \<in> set activeAssignmentSubstatusSet
          | assignmentStateBlocked \<Rightarrow> normalized \<in> set blockedAssignmentSubstatusSet
          | assignmentStateCompleted \<Rightarrow> normalized \<in> set completedAssignmentSubstatusSet
          | assignmentStateCancelled \<Rightarrow> normalized = ''terminal_cancelled''
          | assignmentStateSuperseded \<Rightarrow> normalized = ''terminal_waiting_for_next_task''
          | assignmentStateLost \<Rightarrow> normalized = ''terminal_lost'' \<or> normalized = ''terminal_stuck_abandoned''
          | assignmentStateOther _ \<Rightarrow> False)
      in if ok then None else Some ErrInvalidAssignmentSubstatus)"

section \<open>Substatus checks\<close>

definition validateAttachAssignmentSubstatus :: "string \<Rightarrow> error + string" where
  "validateAttachAssignmentSubstatus substatus =
     (let normalized = normalizeAssignmentSubstatus substatus in
      if normalized = '''' then Inr ''in_progress''
      else if normalized \<in> set activeAssignmentSubstatusSet then Inr normalized
      else Inl ErrInvalidAssignmentSubstatus)"

definition validateTerminalAssignmentSubstatus ::
  "string \<Rightarrow> string \<Rightarrow> error + assignmentLifecycleState \<times> string" where
  "validateTerminalAssignmentSubstatus status substatus =
     (let st = ToLower (TrimSpace status); sub = normalizeAssignmentSubstatus substatus;
          bad = Inl ErrInvalidAssignmentSubstatus in
      if sub = '''' then Inl ErrAssignmentSubstatusRequired
      else if st = ''blocked'' then
        if sub \<notin> set blockedAssignmentSubstatusSet then bad else Inr (assignmentStateBlocked, sub)
      else if st = ''cancelled'' \<or> st = ''canceled'' then
        if sub \<noteq> ''terminal_cancelled'' then bad else Inr (assignmentStateCancelled, sub)
      else if st = ''lost'' \<or> st = ''expired'' then
        if sub \<noteq> ''terminal_lost'' \<and> sub \<noteq> ''terminal_stuck_abandoned'' then bad
        else Inr (assignmentStateLost, sub)
      else if sub \<in> set blockedAssignmentSubstatusSet then
        if st \<noteq> '''' \<and> st \<noteq> ''blocked'' then bad else Inr (assignmentStateBlocked, sub)
      else if sub = ''terminal_cancelled'' then
        if st \<noteq> '''' \<and> st \<noteq> ''cancelled'' \<and> st \<noteq> ''canceled'' then bad
        else Inr (assignmentStateCancelled, sub)
      else if sub = ''terminal_lost'' \<or> sub = ''terminal_stuck_abandoned'' then
        if st \<noteq> '''' \<and> st \<noteq> ''lost'' \<and> st \<noteq> ''expired'' then bad
        else Inr (assignmentStateLost, sub)
      else if sub \<in> set completedAssignmentSubstatusSet then Inr (assignmentStateCompleted, sub)
      else if sub \<in> set terminalAssignmentSubstatusSet then Inr (assignmentStateCompleted, sub)
      else bad)"

definition assignmentActivityStateFromSubstatus :: "string \<Rightarrow> string" where
  "assignmentActivityStateFromSubstatus substatus =
     (let normalized = normalizeAssignmentSubstatus substatus in
      if normalized = '''' then ''active''
      else if HasPrefix normalized ''blocked_'' then ''blocked''
      else if HasPrefix normalized ''waiting_for_'' then ''waiting''
      else if HasPrefix normalized ''terminal_'' then ''completed''
      else ''active'')"

definition assignmentStateFromSubstatus :: "string \<Rightarrow> assignmentLifecycleState" where
  "assignmentStateFromSubstatus substatus =
     (let normalized = normalizeAssignmentSubstatus substatus in
      if normalized = '''' then assignmentStateOther ''''
      else if normalized = ''waiting_for_merge_approval'' then assignmentStateBlocked
      else if HasPrefix normalized ''blocked_'' then assignmentStateBlocked
      else if normalized = ''terminal_cancelled'' then assignmentStateCancelled
      else if normalized = ''terminal_lost'' \<or> normalized = ''terminal_stuck_abandoned''
        then assignmentStateLost
      else if HasPrefix normalized ''terminal_'' then assignmentStateCompleted
      else assignmentStateActive)"

definition blockedReasonFromSubstatus :: "string \<Rightarrow> string" where
  "blockedReasonFromSubstatus substatus =
     (let normalized = normalizeAssignmentSubstatus substatus in
      if HasPrefix normalized ''blocked_'' then TrimPrefix normalized ''blocked_'' else '''')"

definition isSystemOwnedTerminalSubstatus :: "string \<Rightarrow> bool" where
  "isSystemOwnedTerminalSubstatus substatus \<longleftrightarrow>
     substatus \<in> {''terminal_waiting_for_next_task'', ''terminal_lost'', ''terminal_stuck_abandoned''}"

definition validateEmitSubstatusNormalized :: "string \<Rightarrow> error option" where
  "validateEmitSubstatusNormalized substatus =
     (if substatus = '''' then Some ErrInvalidEmitSubstatus
      else if substatus \<in> set activeAssignmentSubstatusSet then None
      else if substatus \<in> set blockedAssignmentSubstatusSet then None
      else if substatus \<in> set terminalAssignmentSubstatusSet then
        if isSystemOwnedTerminalSubstatus substatus then Some ErrInvalidEmitSubstatus else None
      else Some ErrInvalidEmitSubstatus)"

definition nextWaitingAssignmentSubstatus :: "string \<Rightarrow> bool \<Rightarrow> bool \<Rightarrow> int \<Rightarrow> int \<Rightarrow> string" where
  "nextWaitingAssignmentSubstatus branchState approved ciGreen pendingEvents unresolvedThreads =
     (if \<not> ciGreen then ''waiting_for_ci''
      else if (branchState = ''merge_ready'' \<or> branchState = ''merged'') \<and>
              approved \<and> pendingEvents = 0 \<and> unresolvedThreads = 0 then ''in_progress''
      else if approved \<and> pendingEvents = 0 \<and> unresolvedThreads = 0 then ''in_progress''
      else ''waiting_for_merge_approval'')"

section \<open>Sessions and assignments\<close>

record AgentSession =
  s_session_id :: string
  s_agent_id :: string
  s_mode :: string
  s_tmux_session_name :: string
  s_started_at :: gotime
  s_last_seen_at :: gotime
  s_last_progress_at :: "gotime option"
  s_last_io_at :: "gotime option"
  s_ended_at :: "gotime option"
  s_end_reason :: string
  s_inferred_status :: string
  s_inferred_status_updated_at :: "gotime option"

record AgentAssignment =
  a_id :: string
  a_session_id :: string
  a_agent_id :: string
  a_repo :: string
  a_branch :: string
  a_worktree :: string
  a_task_id :: string
  a_state :: assignmentLifecycleState
  a_blocked_reason :: string
  a_substatus :: string
  a_version :: int
  a_delivery_state :: string
  a_started_at :: gotime
  a_ended_at :: "gotime option"
  a_end_reason :: string
  a_superseded_by :: "string option"

datatype json = JStr string | JInt int | JBool bool | JTime gotime | JStrs "string list" | JErr error

type_synonym detail = "(string \<times> json) list"

definition detail_set :: "string \<Rightarrow> json \<Rightarrow> detail \<Rightarrow> detail" where
  "detail_set k v dt = filter (\<lambda>e. fst e \<noteq> k) dt @ [(k, v)]"

section \<open>Rule evaluation\<close>

abbreviation assignmentBranchHoldTTL :: duration where
  "assignmentBranchHoldTTL \<equiv> 72 * Hour"

abbreviation assignmentBranchHoldForceCancelTTL :: duration where
  "assignmentBranchHoldForceCancelTTL \<equiv> assignmentBranchHoldTTL + assignmentBranchHoldTTL div 2"

abbreviation assignmentHeartbeatTTL :: duration where
  "assignmentHeartbeatTTL \<equiv> 30 * Second"

abbreviation assignmentProgressTTL :: duration where
  "assignmentProgressTTL \<equiv> 60 * Minute"

definition mergeGateReason :: "bool \<Rightarrow> string \<Rightarrow> bool \<Rightarrow> bool \<Rightarrow> int \<Rightarrow> int \<Rightarrow> string" where
  "mergeGateReason pass branchState approved ciGreen pendingEvents unresolvedThreads =
     (if pass then ''merge_ready''
      else if branchState = '''' then ''branch_not_found''
      else if branchState \<noteq> ''merge_ready'' \<and> branchState \<noteq> ''merged'' then ''branch_not_merge_ready''
      else if \<not> approved then ''approval_missing''
      else if \<not> ciGreen then ''ci_not_green''
      else if pendingEvents > 0 then ''pending_events''
      else if unresolvedThreads > 0 then ''unresolved_threads''
      else ''merge_gate_blocked'')"

definition evaluateRule003BranchHoldTTL ::
  "gotime \<Rightarrow> 'a AgentAssignment_scheme option \<Rightarrow> bool \<times> bool \<times> detail" where
  "evaluateRule003BranchHoldTTL now assignment =
     (case assignment of
        None \<Rightarrow> (False, False, [(''reason'', JStr ''assignment_missing'')])
      | Some a \<Rightarrow>
         (let age = max 0 (now - a_started_at a);
              pass = age \<le> assignmentBranchHoldTTL;
              forceCancel = age > assignmentBranchHoldForceCancelTTL;
              reason = (if forceCancel then ''force_release_required''
                        else if \<not> pass then ''branch_hold_ttl_exceeded'' else ''within_ttl'')
          in (pass, forceCancel,
              [(''hold_age_seconds'', JInt (age div Second)),
               (''hold_ttl_seconds'', JInt (assignmentBranchHoldTTL div Second)),
               (''force_cancel_ttl_seconds'', JInt (assignmentBranchHoldForceCancelTTL div Second)),
               (''reason'', JStr reason)])))"

record rule004Evaluation =
  r4_pass :: bool
  r4_failure_path :: string
  r4_classification :: string
  r4_detail :: detail

definition heartbeat_age :: "gotime \<Rightarrow> 's AgentSession_scheme \<Rightarrow> duration" where
  "heartbeat_age now s = max 0 (now - s_last_seen_at s)"

definition progress_age ::
  "gotime \<Rightarrow> 's AgentSession_scheme \<Rightarrow> 'a AgentAssignment_scheme option \<Rightarrow> duration" where
  "progress_age now s assignment =
     (let progressRef = (case s_last_progress_at s of
            Some t \<Rightarrow> t
          | None \<Rightarrow> (case assignment of
              Some a \<Rightarrow> if a_started_at a > s_started_at s then a_started_at a else s_started_at s
            | None \<Rightarrow> s_started_at s))
      in max 0 (now - progressRef))"

definition evaluateRule004HeartbeatProgress ::
  "gotime \<Rightarrow> 's AgentSession_scheme option \<Rightarrow> 'a AgentAssignment_scheme option \<Rightarrow> rule004Evaluation" where
  "evaluateRule004HeartbeatProgress now session assignment =
     (case session of
        None \<Rightarrow> \<lparr>r4_pass = False, r4_failure_path = ''lost'', r4_classification = ''infrastructure_failure'',
                r4_detail = [(''reason'', JStr ''session_missing'')]\<rparr>
      | Some s \<Rightarrow>
         (let heartbeatAge = heartbeat_age now s; progressAge = progress_age now s assignment;
              detail = [(''heartbeat_age_seconds'', JInt (heartbeatAge div Second)),
                        (''heartbeat_ttl_seconds'', JInt (assignmentHeartbeatTTL div Second)),
                        (''progress_age_seconds'', JInt (progressAge div Second)),
                        (''progress_ttl_seconds'', JInt (assignmentProgressTTL div Second)),
                        (''reason'', JStr ''protocol_ok'')] @
                       (case s_last_progress_at s of
                          Some t \<Rightarrow> [(''last_progress_at'', JTime t)] | None \<Rightarrow> [])
          in if heartbeatAge > assignmentHeartbeatTTL then
               \<lparr>r4_pass = False, r4_failure_path = ''lost'', r4_classification = ''infrastructure_failure'',
                r4_detail = detail_set ''reason'' (JStr ''heartbeat_missing'') detail\<rparr>
             else if progressAge > assignmentProgressTTL then
               \<lparr>r4_pass = False, r4_failure_path = ''stuck'', r4_classification = ''stuck_assignment'',
                r4_detail = detail_set ''reason'' (JStr ''progress_stale'') detail\<rparr>
             else \<lparr>r4_pass = True, r4_failure_path = '''', r4_classification = '''', r4_detail = detail\<rparr>))"

definition assignmentCompletionError :: "(string \<times> string) list \<Rightarrow> error option" where
  "assignmentCompletionError blockers =
     (if length blockers = 1 \<and> map_of blockers ''RULE-001'' = Some ''fail'' then Some ErrAssignmentGateNotPassed
      else if blockers \<noteq> [] then Some ErrAssignmentComplianceNotPassed
      else None)"

section \<open>The specification\<close>

definition asg_live :: "assignmentLifecycleState \<Rightarrow> bool" where
  "asg_live s \<longleftrightarrow> s = assignmentStateActive \<or> s = assignmentStateBlocked"

definition asg_final :: "assignmentLifecycleState \<Rightarrow> bool" where
  "asg_final s \<longleftrightarrow> s \<in> {assignmentStateCompleted, assignmentStateCancelled, assignmentStateSuperseded,
     assignmentStateLost}"

inductive asg_step :: "assignmentLifecycleState \<Rightarrow> assignmentLifecycleState \<Rightarrow> bool" where
  pause: "asg_step assignmentStateActive assignmentStateBlocked"
| resume: "asg_step assignmentStateBlocked assignmentStateActive"
| close: "asg_live s \<Longrightarrow> asg_final t \<Longrightarrow> asg_step s t"

inductive_simps asg_step_iff: "asg_step s t"

interpretation asg: lifecycle asg_step asg_final
  by unfold_locales (auto simp: asg_step_iff asg_final_def asg_live_def)

text \<open>Strings that spell a named state are that state.\<close>

definition canonical :: "assignmentLifecycleState \<Rightarrow> bool" where
  "canonical s = (case s of assignmentStateOther n \<Rightarrow>
     n \<notin> {''active'', ''blocked'', ''completed'', ''cancelled'', ''superseded'', ''lost''} | _ \<Rightarrow> True)"

lemma asg_state_str_inj: "canonical s \<Longrightarrow> canonical t \<Longrightarrow> asg_state_str s = asg_state_str t \<Longrightarrow> s = t"
  by (cases s; cases t) (auto simp: canonical_def)

definition asg_pairs :: "(assignmentLifecycleState \<times> assignmentLifecycleState) list" where
  "asg_pairs =
     concat (map (\<lambda>(s, o'). (s, o') # map (Pair s) [assignmentStateCompleted, assignmentStateCancelled,
                 assignmentStateSuperseded, assignmentStateLost])
       [(assignmentStateActive, assignmentStateBlocked), (assignmentStateBlocked, assignmentStateActive)])"

lemma build_events: "buildAssignmentFSMEvents = map (\<lambda>(s, t). asg_event s t) asg_pairs"
  by (simp add: buildAssignmentFSMEvents_def asg_pairs_def)

lemma asg_pairs_step: "(s, t) \<in> set asg_pairs \<longleftrightarrow> asg_step s t"
  by (auto simp: asg_pairs_def asg_step_iff asg_live_def asg_final_def)

lemma bex_events: "(\<exists>e\<in>set buildAssignmentFSMEvents. P e) \<longleftrightarrow> (\<exists>s t. asg_step s t \<and> P (asg_event s t))"
  by (simp add: build_events Bex_def asg_pairs_step [symmetric] image_iff split_paired_Ex) blast

lemma asg_step_canonical: "asg_step s t \<Longrightarrow> canonical s \<and> canonical t"
  by (auto simp: asg_step_iff asg_live_def asg_final_def canonical_def)

lemma asg_step_names: "asg_step s t \<Longrightarrow> asg_state_str s \<noteq> ''''"
  by (auto simp: asg_step_iff asg_live_def)

context fsm_library
begin

lemma validate_assignment_iff:
  assumes "canonical from" and "canonical to"
  shows "ValidateAssignmentStateTransition lib from to = None \<longleftrightarrow> asg_step from to"
proof -
  let ?cur = "if asg_state_str from = '''' then asg_state_str assignmentStateActive else asg_state_str from"
  have "ValidateAssignmentStateTransition lib from to = None \<longleftrightarrow>
      fsm_Can lib buildAssignmentFSMEvents ?cur (assignmentEventName from to)"
    by (simp add: ValidateAssignmentStateTransition_def NewAssignmentFSM_def)
  also have "\<dots> \<longleftrightarrow>
      (\<exists>s t. asg_step s t \<and> assignmentEventName s t = assignmentEventName from to \<and> ?cur = asg_state_str s)"
    unfolding can_iff bex_events by (simp add: asg_event_def)
  also have "\<dots> \<longleftrightarrow> asg_step from to"
  proof
    assume "\<exists>s t. asg_step s t \<and> assignmentEventName s t = assignmentEventName from to \<and> ?cur = asg_state_str s"
    then obtain s t where st: "asg_step s t" "assignmentEventName s t = assignmentEventName from to"
      "?cur = asg_state_str s" by blast
    have "asg_state_str from \<noteq> ''''"
      using st(2) st(3) [symmetric] by (auto simp: assignmentEventName_def)
    then have "s = from"
      using st(3) asg_step_canonical [OF st(1)] assms(1) by (auto intro: asg_state_str_inj)
    then have "t = to"
      using st(2) asg_step_canonical [OF st(1)] assms(2)
      by (auto simp: assignmentEventName_def intro: asg_state_str_inj)
    with \<open>s = from\<close> st(1) show "asg_step from to" by simp
  qed (use asg_step_names in auto)
  finally show ?thesis .
qed

end

section \<open>Normalised substatuses\<close>

lemma normalize_idem [simp]:
  "normalizeAssignmentSubstatus (normalizeAssignmentSubstatus s) = normalizeAssignmentSubstatus s"
  by (simp add: normalizeAssignmentSubstatus_def TrimSpace_ToLower)

definition all_substatuses :: "string list" where
  "all_substatuses = activeAssignmentSubstatusSet @ blockedAssignmentSubstatusSet @ terminalAssignmentSubstatusSet"

lemmas substatus_sets = activeAssignmentSubstatusSet_def blockedAssignmentSubstatusSet_def
  completedAssignmentSubstatusSet_def terminalAssignmentSubstatusSet_def

lemma normalize_substatus [simp]: "s \<in> set all_substatuses \<Longrightarrow> normalizeAssignmentSubstatus s = s"
  by (auto simp: all_substatuses_def substatus_sets normalizeAssignmentSubstatus_def TrimSpace_no_space
      is_space_def ToLower_def lower_char_def)

lemma terminal_result:
  assumes "validateTerminalAssignmentSubstatus status substatus = Inr (st, sub)"
  shows "sub = normalizeAssignmentSubstatus substatus \<and> sub \<in> set all_substatuses \<and>
     (st, sub) \<in> Pair assignmentStateBlocked ` set blockedAssignmentSubstatusSet \<union>
        Pair assignmentStateCompleted ` set completedAssignmentSubstatusSet \<union>
        {(assignmentStateCancelled, ''terminal_cancelled''), (assignmentStateLost, ''terminal_lost''),
         (assignmentStateLost, ''terminal_stuck_abandoned'')}"
  using assms
  by (auto simp: validateTerminalAssignmentSubstatus_def Let_def substatus_sets all_substatuses_def
      split: if_splits)

text \<open>The emit check over the fifteen substatuses, by evaluation.\<close>

lemma emit_table:
  "\<forall>sub\<in>set all_substatuses. validateEmitSubstatusNormalized sub = None \<longrightarrow>
     (ValidateAssignmentSubstatus (assignmentStateFromSubstatus sub) sub = None \<longleftrightarrow>
      sub \<noteq> ''waiting_for_merge_approval'')"
  by code_simp

section \<open>Properties\<close>

text \<open>
  The assignment machine. \<open>ValidateAssignmentStateTransition\<close> accepts exactly the pause
  (active to blocked), the resume (blocked to active) and, from these two states, the closing into
  one of the four final states; a final state is never left, so in a run every state but the last one
  is active or blocked.
\<close>

theorem assignment_machine_correct:
  assumes "fsm_library lib" and "canonical from" and "canonical to"
  shows "(ValidateAssignmentStateTransition lib from to = None \<longleftrightarrow>
        (from = assignmentStateActive \<and> to = assignmentStateBlocked) \<or>
        (from = assignmentStateBlocked \<and> to = assignmentStateActive) \<or>
        (asg_live from \<and> asg_final to)) \<and>
     (asg_final from \<longrightarrow> ValidateAssignmentStateTransition lib from to \<noteq> None) \<and>
     (\<forall>ts. trace (\<lambda>s t. canonical s \<and> canonical t \<and> ValidateAssignmentStateTransition lib s t = None) from ts \<longrightarrow>
        (\<forall>i < length ts. asg_final (ts ! i) \<longrightarrow> i = length ts - 1))"
proof -
  have v: "ValidateAssignmentStateTransition lib s t = None \<longleftrightarrow> asg_step s t" if "canonical s" "canonical t" for s t
    using fsm_library.validate_assignment_iff [OF assms(1) that] .
  have "(\<lambda>s t. canonical s \<and> canonical t \<and> ValidateAssignmentStateTransition lib s t = None) = asg_step"
    using v asg_step_canonical by (intro ext) auto
  then show ?thesis
    using v [OF assms(2,3)] asg.final_only_last asg.final_no_step [of "from" to] by (auto simp: asg_step_iff)
qed

theorem assignment_machine_correct_witness:
  "ValidateAssignmentStateTransition list_fsm assignmentStateActive assignmentStateLost = None \<and>
   ValidateAssignmentStateTransition list_fsm assignmentStateLost assignmentStateActive \<noteq> None"
  using assignment_machine_correct [OF listfsm.fsm_library_axioms, of assignmentStateActive assignmentStateLost]
    assignment_machine_correct [OF listfsm.fsm_library_axioms, of assignmentStateLost assignmentStateActive]
  by (simp add: canonical_def asg_live_def asg_final_def)

text \<open>
  The substatus tables agree with the machine, with one exception. A pair that the finalisation
  check accepts has the normalised substatus, which is valid for the state it names, is the state an
  emit of the same substatus would set, and names a blocked or final state; a blank substatus is
  always refused. An emit of an accepted substatus sets a state for which that substatus is valid,
  except for \<open>waiting_for_merge_approval\<close>: it is an active substatus, but the emit sets the state
  blocked, for which \<open>ValidateAssignmentSubstatus\<close> refuses it.
\<close>

theorem substatus_tables_agree:
  "(\<forall>status substatus st sub. validateTerminalAssignmentSubstatus status substatus = Inr (st, sub) \<longrightarrow>
      sub = normalizeAssignmentSubstatus substatus \<and> ValidateAssignmentSubstatus st sub = None \<and>
      assignmentStateFromSubstatus sub = st \<and> (st = assignmentStateBlocked \<or> asg_final st)) \<and>
   (\<forall>status substatus. TrimSpace substatus = '''' \<longrightarrow>
      validateTerminalAssignmentSubstatus status substatus = Inl ErrAssignmentSubstatusRequired) \<and>
   (\<forall>sub. validateEmitSubstatusNormalized sub = None \<longrightarrow>
      (ValidateAssignmentSubstatus (assignmentStateFromSubstatus sub) sub = None \<longleftrightarrow>
         sub \<noteq> ''waiting_for_merge_approval''))"
proof (intro conjI allI impI)
  fix status substatus st sub
  assume a: "validateTerminalAssignmentSubstatus status substatus = Inr (st, sub)"
  note r = terminal_result [OF a]
  show "sub = normalizeAssignmentSubstatus substatus" using r by simp
  show "ValidateAssignmentSubstatus st sub = None" "assignmentStateFromSubstatus sub = st"
    "st = assignmentStateBlocked \<or> asg_final st"
    using r by (auto simp: ValidateAssignmentSubstatus_def assignmentStateFromSubstatus_def Let_def
        asg_final_def substatus_sets HasPrefix_def)
next
  fix status substatus assume "TrimSpace substatus = ''''"
  then show "validateTerminalAssignmentSubstatus status substatus = Inl ErrAssignmentSubstatusRequired"
    by (simp add: validateTerminalAssignmentSubstatus_def normalizeAssignmentSubstatus_def ToLower_def Let_def)
next
  fix sub assume a: "validateEmitSubstatusNormalized sub = None"
  then have "sub \<in> set all_substatuses"
    by (auto simp: validateEmitSubstatusNormalized_def all_substatuses_def split: if_splits)
  then show "ValidateAssignmentSubstatus (assignmentStateFromSubstatus sub) sub = None \<longleftrightarrow>
      sub \<noteq> ''waiting_for_merge_approval''"
    using emit_table a by blast
qed

theorem substatus_tables_agree_witness:
  "validateTerminalAssignmentSubstatus ''Cancelled '' ''terminal_cancelled'' =
     Inr (assignmentStateCancelled, ''terminal_cancelled'') \<and>
   assignmentStateFromSubstatus ''terminal_cancelled'' = assignmentStateCancelled \<and>
   ValidateAssignmentSubstatus (assignmentStateFromSubstatus ''waiting_for_merge_approval'')
     ''waiting_for_merge_approval'' \<noteq> None"
proof -
  have a: "validateTerminalAssignmentSubstatus ''Cancelled '' ''terminal_cancelled'' =
     Inr (assignmentStateCancelled, ''terminal_cancelled'')" by code_simp
  have b: "validateEmitSubstatusNormalized ''waiting_for_merge_approval'' = None" by code_simp
  show ?thesis
    using substatus_tables_agree [THEN conjunct1, rule_format, OF a]
      substatus_tables_agree [THEN conjunct2, THEN conjunct2, rule_format, OF b] a by simp
qed

end
