(* ===== verification/Agent_Store.thy ===== *)
theory Agent_Store
  imports Assignment Branch_Store "HOL-Library.Char_ord" "HOL-Library.List_Lexorder"
begin

text \<open>
  The session and assignment tables of the same database, and the transactions on them.

  \<open>agent_db\<close> has the tables of the branch repository as its field \<open>core\<close> and adds the tables
  of migrations 5 to 30. A row extends the Go struct that is scanned from it with the columns the
  struct leaves out; columns that no modelled operation reads or writes are left out. A nullable text
  column that is only read through \<open>sql.NullString\<close> or \<open>COALESCE\<close> is a \<open>string\<close>, the
  empty one for NULL. A JSON column is the JSON value.

  A transaction body ends in \<open>Rollback\<close>, the return that leaves the deferred rollback to run, or
  in \<open>Commit\<close>; \<open>run_tx\<close> adds the begin and the commit, which can fail. \<open>uuid\<close> is the
  sequence of values of \<open>uuid.New()\<close>, indexed by what they are drawn for.
\<close>

section \<open>Rows\<close>

record session_row = AgentSession +
  s_heartbeat_secret :: string
  s_context_pressure :: string
  s_last_compact_at :: "gotime option"
  s_compact_count :: int
  s_repo :: string
  s_branch :: string
  s_output_bytes :: int
  s_attribution_source :: string
  s_attribution_confidence :: string
  s_last_recovered_at :: "gotime option"

record assignment_row = AgentAssignment +
  a_successor_session_id :: string
  a_last_emit_at :: "gotime option"
  a_suggested_substatus_last :: string
  a_actual_substatus_last :: string
  a_deviation_count :: int

datatype payload = PayloadJSON detail | PayloadText string

record AgentEvent =
  ae_id :: int
  ae_session_id :: string
  ae_agent_id :: string
  ae_event_type :: string
  ae_payload :: payload
  ae_created_at :: gotime

text \<open>A rule; its texts (name and description), which no operation reads, are left out. The action
  list in the table is \<open>None\<close> when the column is not a JSON list of strings.\<close>

record agentRuleDefinition =
  ru_rule_id :: string
  ru_kind :: string
  ru_enforcement :: string
  ru_violation_action :: "string list"
  ru_routing_target :: string
  ru_rule_version :: int
  ru_active :: bool

record rule_row =
  rt_rule_id :: string
  rt_kind :: string
  rt_enforcement :: string
  rt_violation_action :: "string list option"
  rt_routing_target :: string
  rt_rule_version :: int
  rt_active :: int

record check_row =
  rc_check_id :: string
  rc_assignment_id :: string
  rc_session_id :: string
  rc_rule_id :: string
  rc_rule_version :: int
  rc_checked_at :: gotime
  rc_result :: string
  rc_violation_raised :: int
  rc_violation_action_taken :: "string list"
  rc_detail :: detail
  rc_resolved_at :: "gotime option"
  rc_resolved_by :: string

record SessionArchive =
  sa_archive_id :: string
  sa_session_id :: string
  sa_agent_id :: string
  sa_task_id :: string
  sa_repo :: string
  sa_branch :: string
  sa_result :: string
  sa_started_at :: gotime
  sa_ended_at :: gotime
  sa_duration_seconds :: int
  sa_commit_count :: int
  sa_merge_sha :: string
  sa_task_source :: string
  sa_archived_at :: gotime

record ActivityCounters =
  RuntimeBytes :: int
  OutputBytes :: int
  OutputLines :: int
  ToolCalls :: int
  FileWrites :: int
  DiffChanges :: int
  ProcEvents :: int

record activity_row = ActivityCounters +
  sc_session_id :: string
  sc_bucket :: int

record agent_db =
  core :: db
  agent_sessions :: "session_row list"
  agent_assignments :: "assignment_row list"
  agent_events :: "AgentEvent list"
  agent_rules :: "rule_row list"
  assignment_rule_checks :: "check_row list"
  session_archives :: "SessionArchive list"
  session_activity :: "activity_row list"

text \<open>The rules that migrations 8 and 9 insert.\<close>

definition seeded_rule :: "string \<Rightarrow> string \<Rightarrow> string list \<Rightarrow> string \<Rightarrow> rule_row" where
  "seeded_rule rid kind actions target =
     \<lparr>rt_rule_id = rid, rt_kind = kind, rt_enforcement = ''hard'', rt_violation_action = Some actions,
      rt_routing_target = target, rt_rule_version = 1, rt_active = 1\<rparr>"

definition seeded_rules :: "rule_row list" where
  "seeded_rules =
    [seeded_rule ''RULE-001'' ''gate'' [''block'', ''notify''] ''routing_team'',
     seeded_rule ''RULE-002'' ''report'' [''block'', ''fail''] ''routing_team'',
     seeded_rule ''RULE-003'' ''hold'' [''block'', ''notify''] ''tech_lead'',
     seeded_rule ''RULE-004'' ''protocol'' [''block'', ''log'', ''notify''] ''infra'']"

definition empty_agent_db :: agent_db where
  "empty_agent_db = \<lparr>core = empty_db, agent_sessions = [], agent_assignments = [], agent_events = [],
     agent_rules = seeded_rules, assignment_rule_checks = [], session_archives = [], session_activity = []\<rparr>"

section \<open>Transactions\<close>

datatype 'a tx_result = Rollback "error + 'a" | Commit "error + 'a" agent_db

definition run_tx :: "faults \<Rightarrow> (agent_db \<Rightarrow> 'a tx_result) \<Rightarrow> agent_db \<Rightarrow> (error + 'a) \<times> agent_db" where
  "run_tx flt body d =
     (case flt ''begin'' of
        Some e \<Rightarrow> (Inl (DBError e), d)
      | None \<Rightarrow> (case body d of
          Rollback r \<Rightarrow> (r, d)
        | Commit r d' \<Rightarrow> (case flt ''commit'' of Some e \<Rightarrow> (Inl (DBError e), d) | None \<Rightarrow> (r, d'))))"

text \<open>A statement at a call site, and the test \<open>if err != nil { return err }\<close> after it.\<close>

definition stmt :: "faults \<Rightarrow> string \<Rightarrow> error + 'x \<Rightarrow> error + 'x" where
  "stmt flt site r = (case flt site of Some e \<Rightarrow> Inl (DBError e) | None \<Rightarrow> r)"

definition and_then :: "error + 'x \<Rightarrow> ('x \<Rightarrow> error + 'y) \<Rightarrow> error + 'y" where
  "and_then r k = (case r of Inl e \<Rightarrow> Inl e | Inr x \<Rightarrow> k x)"

definition tx_bind :: "error + 'x \<Rightarrow> ('x \<Rightarrow> 'a tx_result) \<Rightarrow> 'a tx_result" where
  "tx_bind r k = (case r of Inl e \<Rightarrow> Rollback (Inl e) | Inr x \<Rightarrow> k x)"

section \<open>Statements\<close>

definition upd_sessions :: "(session_row \<Rightarrow> bool) \<Rightarrow> (session_row \<Rightarrow> session_row) \<Rightarrow> agent_db \<Rightarrow> agent_db" where
  "upd_sessions P f d = d\<lparr>agent_sessions := sql_update P f (agent_sessions d)\<rparr>"

definition upd_assignments ::
  "(assignment_row \<Rightarrow> bool) \<Rightarrow> (assignment_row \<Rightarrow> assignment_row) \<Rightarrow> agent_db \<Rightarrow> agent_db" where
  "upd_assignments P f d = d\<lparr>agent_assignments := sql_update P f (agent_assignments d)\<rparr>"

definition upd_core :: "(branch_row \<Rightarrow> bool) \<Rightarrow> (branch_row \<Rightarrow> branch_row) \<Rightarrow> agent_db \<Rightarrow> agent_db" where
  "upd_core P f d = d\<lparr>core := update_branches P f (core d)\<rparr>"

definition open_session :: "'a AgentSession_scheme \<Rightarrow> bool" where
  "open_session s \<longleftrightarrow> s_ended_at s = None"

definition open_asg :: "'a AgentAssignment_scheme \<Rightarrow> bool" where
  "open_asg a \<longleftrightarrow> a_ended_at a = None"

text \<open>The unique index \<open>idx_agent_assignments_live_task_id\<close>.\<close>

definition live_tasks_unique :: "assignment_row list \<Rightarrow> bool" where
  "live_tasks_unique rows \<longleftrightarrow> distinct (map a_task_id (filter (\<lambda>a. open_asg a \<and> a_task_id a \<noteq> '''') rows))"

definition insert_assignment :: "assignment_row \<Rightarrow> agent_db \<Rightarrow> error + agent_db" where
  "insert_assignment r d =
     (if a_id r \<in> a_id ` set (agent_assignments d)
      then Inl (ConstraintError ''UNIQUE constraint failed: agent_assignments.assignment_id'')
      else if \<not> live_tasks_unique (agent_assignments d @ [r])
      then Inl (ConstraintError ''UNIQUE constraint failed: agent_assignments.task_id'')
      else if a_session_id r \<notin> s_session_id ` set (agent_sessions d)
      then Inl (ConstraintError ''FOREIGN KEY constraint failed'')
      else Inr (d\<lparr>agent_assignments := agent_assignments d @ [r]\<rparr>))"

text \<open>\<open>INSERT INTO agent_events\<close>; the id is the next of the AUTOINCREMENT sequence.\<close>

definition next_event_id :: "AgentEvent list \<Rightarrow> int" where
  "next_event_id evs = (if evs = [] then 1 else ae_id (last evs) + 1)"

definition insert_event ::
  "gotime \<Rightarrow> string \<Rightarrow> string \<Rightarrow> string \<Rightarrow> payload \<Rightarrow> agent_db \<Rightarrow> error + agent_db" where
  "insert_event now sid aid ty pl d =
     (if sid \<notin> s_session_id ` set (agent_sessions d)
      then Inl (ConstraintError ''FOREIGN KEY constraint failed'')
      else Inr (d\<lparr>agent_events := agent_events d @
        [\<lparr>ae_id = next_event_id (agent_events d), ae_session_id = sid, ae_agent_id = aid, ae_event_type = ty,
          ae_payload = pl, ae_created_at = truncate_second now\<rparr>]\<rparr>))"

definition appendAgentEventTx ::
  "faults \<Rightarrow> gotime \<Rightarrow> string \<Rightarrow> string \<Rightarrow> string \<Rightarrow> detail \<Rightarrow> agent_db \<Rightarrow> error + agent_db" where
  "appendAgentEventTx flt now sid aid ty pl d = stmt flt ''append event'' (insert_event now sid aid ty (PayloadJSON pl) d)"

definition clearAssignmentBranchOwnershipTx ::
  "faults \<Rightarrow> gotime \<Rightarrow> AgentAssignment \<Rightarrow> agent_db \<Rightarrow> error + agent_db" where
  "clearAssignmentBranchOwnershipTx flt now a d =
     (if a_repo a = '''' \<or> a_branch a = '''' then Inr d
      else stmt flt ''clear branch ownership'' (Inr (upd_core
        (\<lambda>r. at_branch (a_repo a) (a_branch a) r \<and> b_owner_session_id r = a_session_id a)
        (\<lambda>r. r\<lparr>b_owner_session_id := '''', b_owner_session_last_seen := None, b_owner_agent := '''',
               b_updated_at := truncate_second now\<rparr>) d)))"

section \<open>Compliance rules\<close>

definition default_rule :: "string \<Rightarrow> string \<Rightarrow> string list \<Rightarrow> string \<Rightarrow> agentRuleDefinition" where
  "default_rule rid kind actions target =
     \<lparr>ru_rule_id = rid, ru_kind = kind, ru_enforcement = ''hard'', ru_violation_action = actions,
      ru_routing_target = target, ru_rule_version = 1, ru_active = True\<rparr>"

definition defaultAgentRuleDefinitions :: "(string \<times> agentRuleDefinition) list" where
  "defaultAgentRuleDefinitions =
    [(''RULE-001'', default_rule ''RULE-001'' ''gate'' [''block'', ''notify''] ''routing_team''),
     (''RULE-002'', default_rule ''RULE-002'' ''report'' [''block'', ''fail''] ''routing_team''),
     (''RULE-003'', default_rule ''RULE-003'' ''hold'' [''block'', ''notify''] ''tech_lead''),
     (''RULE-004'', default_rule ''RULE-004'' ''protocol'' [''block'', ''log'', ''notify''] ''infra'')]"

definition scan_rule :: "rule_row \<Rightarrow> error + agentRuleDefinition" where
  "scan_rule r =
     (case rt_violation_action r of
        None \<Rightarrow> Inl (OtherError ''decode actions'')
      | Some acts \<Rightarrow> Inr \<lparr>ru_rule_id = rt_rule_id r, ru_kind = rt_kind r, ru_enforcement = rt_enforcement r,
          ru_violation_action = acts, ru_routing_target = rt_routing_target r,
          ru_rule_version = rt_rule_version r, ru_active = (rt_active r \<noteq> 0)\<rparr>)"

fun scan_rules :: "rule_row list \<Rightarrow> error + agentRuleDefinition list" where
  "scan_rules [] = Inr []"
| "scan_rules (r # rs) =
     (case scan_rule r of
        Inl e \<Rightarrow> Inl e
      | Inr x \<Rightarrow> (case scan_rules rs of Inl e \<Rightarrow> Inl e | Inr xs \<Rightarrow> Inr (x # xs)))"

definition listActiveAgentRuleDefinitionsTx :: "faults \<Rightarrow> agent_db \<Rightarrow> error + agentRuleDefinition list" where
  "listActiveAgentRuleDefinitionsTx flt d =
     and_then (stmt flt ''list active agent rules''
       (scan_rules (sort_key (\<lambda>r. rt_rule_id r) (sort_key (\<lambda>r. - rt_rule_version r)
          (filter (\<lambda>r. rt_active r = 1) (agent_rules d))))))
     (\<lambda>rules. if rules \<noteq> [] then Inr rules else Inr (map snd defaultAgentRuleDefinitions))"

definition loadAgentRuleDefinitionTx :: "faults \<Rightarrow> string \<Rightarrow> agent_db \<Rightarrow> error + agentRuleDefinition" where
  "loadAgentRuleDefinitionTx flt ruleID d =
     stmt flt ''load agent rule''
       (case sql_first (sort_key (\<lambda>r. - rt_active r) (sort_key (\<lambda>r. - rt_rule_version r)
               (filter (\<lambda>r. rt_rule_id r = ruleID) (agent_rules d)))) of
          None \<Rightarrow> (case map_of defaultAgentRuleDefinitions ruleID of
                     Some fallback \<Rightarrow> Inr fallback | None \<Rightarrow> Inl ErrNoRows)
        | Some r \<Rightarrow> scan_rule r)"

text \<open>\<open>INSERT INTO assignment_rule_checks\<close> with its keys and references.\<close>

definition insert_check :: "check_row \<Rightarrow> agent_db \<Rightarrow> error + agent_db" where
  "insert_check r d =
     (if rc_check_id r \<in> rc_check_id ` set (assignment_rule_checks d)
      then Inl (ConstraintError ''UNIQUE constraint failed: assignment_rule_checks.check_id'')
      else if (rc_assignment_id r, rc_rule_id r, rc_rule_version r) \<in>
          (\<lambda>c. (rc_assignment_id c, rc_rule_id c, rc_rule_version c)) ` set (assignment_rule_checks d)
      then Inl (ConstraintError ''UNIQUE constraint failed: assignment_rule_checks'')
      else if rc_assignment_id r \<notin> a_id ` set (agent_assignments d) \<or>
          rc_session_id r \<notin> s_session_id ` set (agent_sessions d) \<or>
          (rc_rule_id r, rc_rule_version r) \<notin> (\<lambda>x. (rt_rule_id x, rt_rule_version x)) ` set (agent_rules d)
      then Inl (ConstraintError ''FOREIGN KEY constraint failed'')
      else Inr (d\<lparr>assignment_rule_checks := assignment_rule_checks d @ [r]\<rparr>))"

fun seed_checks ::
  "faults \<Rightarrow> gotime \<Rightarrow> (string \<Rightarrow> string) \<Rightarrow> string \<Rightarrow> string \<Rightarrow> agentRuleDefinition list \<Rightarrow> agent_db \<Rightarrow> error + agent_db" where
  "seed_checks flt now uuid aid sid [] d = Inr d"
| "seed_checks flt now uuid aid sid (rule # rules) d =
     and_then (stmt flt ''seed assignment rule checks'' (insert_check
       \<lparr>rc_check_id = uuid (''seed '' @ ru_rule_id rule), rc_assignment_id = aid, rc_session_id = sid,
        rc_rule_id = ru_rule_id rule, rc_rule_version = ru_rule_version rule,
        rc_checked_at = truncate_second now, rc_result = ''pending'', rc_violation_raised = 0,
        rc_violation_action_taken = [], rc_detail = [], rc_resolved_at = None, rc_resolved_by = ''''\<rparr> d))
     (\<lambda>d'. seed_checks flt now uuid aid sid rules d')"

definition seedPendingAssignmentRuleChecksTx ::
  "faults \<Rightarrow> gotime \<Rightarrow> (string \<Rightarrow> string) \<Rightarrow> string \<Rightarrow> string \<Rightarrow> agent_db \<Rightarrow> error + agent_db" where
  "seedPendingAssignmentRuleChecksTx flt now uuid aid sid d =
     and_then (listActiveAgentRuleDefinitionsTx flt d) (\<lambda>rules. seed_checks flt now uuid aid sid rules d)"

definition set_check ::
  "gotime \<Rightarrow> string \<Rightarrow> string list \<Rightarrow> detail \<Rightarrow> string \<Rightarrow> check_row \<Rightarrow> check_row" where
  "set_check now result actions detail resolvedBy c =
     c\<lparr>rc_checked_at := truncate_second now, rc_result := result,
       rc_violation_raised := (if result = ''pass'' then 0 else 1),
       rc_violation_action_taken := actions, rc_detail := detail,
       rc_resolved_at := (if result = ''pass'' then Some (truncate_second now) else None),
       rc_resolved_by := (if result = ''pass'' then resolvedBy else '''')\<rparr>"

definition recordAssignmentRuleCheckTx ::
  "faults \<Rightarrow> gotime \<Rightarrow> (string \<Rightarrow> string) \<Rightarrow> string \<Rightarrow> string \<Rightarrow> string \<Rightarrow> string \<Rightarrow> bool \<Rightarrow> detail \<Rightarrow> string \<Rightarrow>
   agent_db \<Rightarrow> error + agent_db" where
  "recordAssignmentRuleCheckTx flt now uuid aid sid ruleID result violationRaised detail resolvedBy d =
     and_then (loadAgentRuleDefinitionTx flt ruleID d) (\<lambda>rule.
       let actions = (if violationRaised then ru_violation_action rule else []);
           P = (\<lambda>c. rc_assignment_id c = aid \<and> rc_rule_id c = ruleID \<and> rc_rule_version c = ru_rule_version rule)
       in if result \<noteq> ''pass'' \<and> result \<noteq> ''fail'' then Inl (OtherError ''invalid result'')
          else and_then (stmt flt ''record rule check'' (Inr
              (d\<lparr>assignment_rule_checks := sql_update P (set_check now result actions detail resolvedBy)
                   (assignment_rule_checks d)\<rparr>)))
            (\<lambda>d'. if sql_affected P (assignment_rule_checks d) > 0 then Inr d'
              else stmt flt ''insert rule check'' (insert_check
                (set_check now result actions detail resolvedBy
                  \<lparr>rc_check_id = uuid ruleID, rc_assignment_id = aid, rc_session_id = sid,
                   rc_rule_id = ru_rule_id rule, rc_rule_version = ru_rule_version rule,
                   rc_checked_at = now, rc_result = '''', rc_violation_raised = 0,
                   rc_violation_action_taken = [], rc_detail = [], rc_resolved_at = None,
                   rc_resolved_by = ''''\<rparr>) d')))"

definition evaluateRule001CompletionTx ::
  "faults \<Rightarrow> 'a AgentAssignment_scheme \<Rightarrow> agent_db \<Rightarrow> error + bool \<times> detail" where
  "evaluateRule001CompletionTx flt a d =
     (if a_repo a = '''' \<or> a_branch a = '''' then Inr (True, [(''reason'', JStr ''not_applicable'')])
      else stmt flt ''evaluate RULE-001''
       (case sql_row (at_branch (a_repo a) (a_branch a)) (branch_states (core d)) of
          None \<Rightarrow> Inr (False, [(''reason'', JStr ''branch_not_found'')])
        | Some b \<Rightarrow>
           (let st = state_str (b_state b);
                pass = (st = ''merge_ready'' \<or> st = ''merged'') \<and> b_approved b \<noteq> 0 \<and> b_ci_green b \<noteq> 0 \<and>
                       b_pending_events b = 0 \<and> b_unresolved_threads b = 0
            in Inr (pass,
              [(''branch_state'', JStr st), (''approved'', JBool (b_approved b \<noteq> 0)),
               (''ci_green'', JBool (b_ci_green b \<noteq> 0)), (''pending_events'', JInt (b_pending_events b)),
               (''unresolved_threads'', JInt (b_unresolved_threads b)),
               (''reason'', JStr (mergeGateReason pass st (b_approved b \<noteq> 0) (b_ci_green b \<noteq> 0)
                  (b_pending_events b) (b_unresolved_threads b)))]))))"

definition activeRuleBlockersTx :: "faults \<Rightarrow> string \<Rightarrow> agent_db \<Rightarrow> error + (string \<times> string) list" where
  "activeRuleBlockersTx flt aid d =
     stmt flt ''list assignment rule blockers'' (Inr
       (map (\<lambda>c. (rc_rule_id c, rc_result c))
         (sort_key (\<lambda>c. rc_rule_id c)
           (filter (\<lambda>c. rc_assignment_id c = aid \<and> rc_result c \<noteq> ''pass'' \<and>
                (\<exists>r\<in>set (agent_rules d). rt_rule_id r = rc_rule_id c \<and>
                    rt_rule_version r = rc_rule_version c \<and> rt_active r = 1))
             (assignment_rule_checks d)))))"

section \<open>Archives\<close>

definition nullIfEmpty :: "string \<Rightarrow> string" where
  "nullIfEmpty v = (if TrimSpace v = '''' then '''' else v)"

text \<open>\<open>math.Round\<close> of the seconds, and negative durations to 0.\<close>

definition archive_duration :: "gotime \<Rightarrow> gotime \<Rightarrow> int" where
  "archive_duration started ended = max 0 ((2 * (ended - started) + Second) div (2 * Second))"

definition writeSessionArchiveTx ::
  "faults \<Rightarrow> gotime \<Rightarrow> (string \<Rightarrow> string) \<Rightarrow> SessionArchive \<Rightarrow> agent_db \<Rightarrow> error + agent_db" where
  "writeSessionArchiveTx flt now uuid ar d =
     (let archiveID = (if sa_archive_id ar = '''' then uuid ''archive'' else sa_archive_id ar);
          archivedAt = (if sa_archived_at ar = zero_time then now else sa_archived_at ar)
      in stmt flt ''write session archive''
         (if archiveID \<in> sa_archive_id ` set (session_archives d)
          then Inl (ConstraintError ''UNIQUE constraint failed: session_archives.archive_id'')
          else Inr (d\<lparr>session_archives := session_archives d @
            [ar\<lparr>sa_archive_id := archiveID, sa_task_id := nullIfEmpty (sa_task_id ar),
                sa_repo := nullIfEmpty (sa_repo ar), sa_branch := nullIfEmpty (sa_branch ar),
                sa_started_at := truncate_second (sa_started_at ar),
                sa_ended_at := truncate_second (sa_ended_at ar),
                sa_duration_seconds := archive_duration (sa_started_at ar) (sa_ended_at ar),
                sa_merge_sha := nullIfEmpty (sa_merge_sha ar),
                sa_task_source := nullIfEmpty (sa_task_source ar),
                sa_archived_at := truncate_second archivedAt\<rparr>]\<rparr>)))"

definition archiveSessionTx ::
  "faults \<Rightarrow> gotime \<Rightarrow> (string \<Rightarrow> string) \<Rightarrow> string \<Rightarrow> string \<Rightarrow> string \<Rightarrow> string \<Rightarrow> gotime \<Rightarrow> agent_db \<Rightarrow> error + agent_db" where
  "archiveSessionTx flt clock uuid sid result mergeSHA fallbackTaskID now d =
     and_then (stmt flt ''archive load session''
       (case sql_row (\<lambda>s. s_session_id s = sid) (agent_sessions d) of
          None \<Rightarrow> Inl ErrAgentSessionNotFound | Some s \<Rightarrow> Inr s)) (\<lambda>s.
     let endTime = (case s_ended_at s of Some t \<Rightarrow> t | None \<Rightarrow> now);
         result1 = (if TrimSpace result = '''' then s_end_reason s else result);
         finalResult = (if TrimSpace result1 = '''' then ''ended'' else result1)
     in and_then (stmt flt ''archive load assignment'' (Inr
          (sql_first (sql_order_desc a_started_at (filter (\<lambda>a. a_session_id a = sid) (agent_assignments d))))))
        (\<lambda>asg.
          let task = (case asg of Some a \<Rightarrow> a_task_id a | None \<Rightarrow> '''')
          in writeSessionArchiveTx flt clock uuid
             \<lparr>sa_archive_id = '''', sa_session_id = sid, sa_agent_id = s_agent_id s,
              sa_task_id = (if task = '''' then fallbackTaskID else task),
              sa_repo = (case asg of Some a \<Rightarrow> a_repo a | None \<Rightarrow> ''''),
              sa_branch = (case asg of Some a \<Rightarrow> a_branch a | None \<Rightarrow> ''''),
              sa_result = finalResult, sa_started_at = s_started_at s, sa_ended_at = endTime,
              sa_duration_seconds = 0, sa_commit_count = 0, sa_merge_sha = mergeSHA, sa_task_source = '''',
              sa_archived_at = zero_time\<rparr> d))"

definition ArchiveSession ::
  "faults \<Rightarrow> gotime \<Rightarrow> (string \<Rightarrow> string) \<Rightarrow> string \<Rightarrow> string \<Rightarrow> string \<Rightarrow> agent_db \<Rightarrow> (error + unit) \<times> agent_db" where
  "ArchiveSession flt now uuid sid result mergeSHA =
     run_tx flt (\<lambda>d. tx_bind (archiveSessionTx flt now uuid sid result mergeSHA '''' now d)
       (\<lambda>d'. Commit (Inr ()) d'))"

definition GetSessionArchive :: "faults \<Rightarrow> string \<Rightarrow> agent_db \<Rightarrow> error + SessionArchive" where
  "GetSessionArchive flt sid d =
     stmt flt ''get session archive''
      (case sql_first (sql_order_desc sa_archived_at (filter (\<lambda>a. sa_session_id a = sid) (session_archives d))) of
         None \<Rightarrow> Inl ErrAgentSessionNotFound | Some a \<Rightarrow> Inr a)"

definition ListSessionArchives :: "faults \<Rightarrow> int \<Rightarrow> agent_db \<Rightarrow> error + SessionArchive list" where
  "ListSessionArchives flt limit d =
     (let n = (if limit \<le> 0 then 100 else limit) in
      stmt flt ''list session archives'' (Inr (take (nat n) (sql_order_desc sa_archived_at (session_archives d)))))"

end
