(* ===== verification/Sessions.thy ===== *)
theory Sessions
  imports Agent_Store
begin

text \<open>
  Agent sessions: the operations of \<open>internal/state/agent_sessions.go\<close>, one definition per
  function, on the tables of the theory before. \<open>now\<close> is the clock at the call; the other
  arguments are those of the Go function, after the fault oracle and the sources of fresh identifiers.
  \<open>parse_uuid\<close> stands for \<open>uuid.Parse\<close> of the package \<open>google/uuid\<close>: whether it
  accepts the string.
\<close>

section \<open>Statuses and attribution\<close>

definition NormalizeStatus :: "string \<Rightarrow> string" where
  "NormalizeStatus s =
     (let n = ToLower (TrimSpace s) in
      if n \<in> {''working'', ''pretooluse'', ''posttooluse''} then ''working''
      else if n \<in> {''waiting_for_input'', ''waiting'', ''notification''} then ''waiting_for_input''
      else if n = ''idle'' then ''idle''
      else if n \<in> {''unknown'', ''''} then ''unknown''
      else '''')"

definition StatusPrecedence :: "string \<Rightarrow> int" where
  "StatusPrecedence s =
     (if s = ''waiting_for_input'' then 3 else if s = ''working'' then 2 else if s = ''idle'' then 1 else 0)"

definition NormalizeAttributionSource :: "string \<Rightarrow> string" where
  "NormalizeAttributionSource s =
     (let n = ToLower (TrimSpace s) in
      if n \<in> {''explicit_heartbeat'', ''hook_metadata'', ''launch_context'', ''assignment_state'', ''unresolved''}
      then n
      else if n \<in> {'''', ''unknown''} then ''unknown''
      else '''')"

definition AttributionConfidenceForSource :: "string \<Rightarrow> string" where
  "AttributionConfidenceForSource source =
     (let n = NormalizeAttributionSource source in
      if n \<in> {''explicit_heartbeat'', ''hook_metadata''} then ''high''
      else if n \<in> {''launch_context'', ''assignment_state''} then ''medium''
      else if n = ''unresolved'' then ''low''
      else ''unknown'')"

definition IsActionableStatus :: "string \<Rightarrow> bool" where
  "IsActionableStatus s \<longleftrightarrow> s = ''waiting_for_input'' \<or> s = ''working''"

section \<open>Single statements on a session\<close>

definition exec_sessions ::
  "faults \<Rightarrow> string \<Rightarrow> (session_row \<Rightarrow> bool) \<Rightarrow> (session_row \<Rightarrow> session_row) \<Rightarrow> agent_db \<Rightarrow> (error + unit) \<times> agent_db" where
  "exec_sessions flt site P f d = sql_try flt site d (Inr (), upd_sessions P f d)"

definition open_with_id :: "string \<Rightarrow> session_row \<Rightarrow> bool" where
  "open_with_id sid s \<longleftrightarrow> s_session_id s = sid \<and> open_session s"

definition UpdateInferredStatus ::
  "faults \<Rightarrow> gotime \<Rightarrow> string \<Rightarrow> string \<Rightarrow> agent_db \<Rightarrow> (error + unit) \<times> agent_db" where
  "UpdateInferredStatus flt now sid newStatus d =
     (let st = NormalizeStatus newStatus in
      if st = '''' then (Inl (OtherError ''invalid inferred_status value''), d)
      else exec_sessions flt ''update inferred status''
        (\<lambda>s. open_with_id sid s \<and> StatusPrecedence st \<ge> StatusPrecedence (s_inferred_status s))
        (\<lambda>s. s\<lparr>s_inferred_status := st, s_inferred_status_updated_at := Some now\<rparr>) d)"

definition UpdateSessionRepoBranch ::
  "faults \<Rightarrow> string \<Rightarrow> string \<Rightarrow> string \<Rightarrow> agent_db \<Rightarrow> (error + unit) \<times> agent_db" where
  "UpdateSessionRepoBranch flt sid repo branch d =
     (if repo = '''' \<and> branch = '''' then (Inr (), d)
      else exec_sessions flt ''update session repo/branch'' (open_with_id sid)
        (\<lambda>s. s\<lparr>s_repo := (if repo \<noteq> '''' then repo else s_repo s),
               s_branch := (if branch \<noteq> '''' then branch else s_branch s)\<rparr>) d)"

definition UpdateSessionRuntimeAttribution ::
  "faults \<Rightarrow> string \<Rightarrow> string \<Rightarrow> agent_db \<Rightarrow> (error + unit) \<times> agent_db" where
  "UpdateSessionRuntimeAttribution flt sid source d =
     (let n = NormalizeAttributionSource source in
      if n = '''' then (Inl (OtherError ''invalid source''), d)
      else exec_sessions flt ''update session runtime attribution'' (open_with_id sid)
        (\<lambda>s. s\<lparr>s_attribution_source := n, s_attribution_confidence := AttributionConfidenceForSource n\<rparr>) d)"

definition UpdateSessionRepoBranchAttribution ::
  "faults \<Rightarrow> string \<Rightarrow> string \<Rightarrow> string \<Rightarrow> string \<Rightarrow> agent_db \<Rightarrow> (error + unit) \<times> agent_db" where
  "UpdateSessionRepoBranchAttribution flt sid repo branch source d =
     (case UpdateSessionRepoBranch flt sid repo branch d of
        (Inl e, d') \<Rightarrow> (Inl e, d')
      | (Inr _, d') \<Rightarrow>
          if repo = '''' \<and> branch = '''' then (Inr (), d')
          else if source = '''' then (Inr (), d')
          else UpdateSessionRuntimeAttribution flt sid source d')"

definition MarkSessionRecovered ::
  "faults \<Rightarrow> gotime \<Rightarrow> string \<Rightarrow> gotime \<Rightarrow> agent_db \<Rightarrow> (error + unit) \<times> agent_db" where
  "MarkSessionRecovered flt now sid recoveredAt =
     exec_sessions flt ''mark session recovered'' (open_with_id sid)
       (\<lambda>s. s\<lparr>s_last_recovered_at := Some (if recoveredAt = zero_time then now else recoveredAt)\<rparr>)"

definition MarkSessionRecoveredWithLastSeen ::
  "faults \<Rightarrow> gotime \<Rightarrow> string \<Rightarrow> gotime \<Rightarrow> gotime \<Rightarrow> agent_db \<Rightarrow> (error + unit) \<times> agent_db" where
  "MarkSessionRecoveredWithLastSeen flt now sid lastSeenAt recoveredAt =
     (let r = (if recoveredAt = zero_time then now else recoveredAt);
          l = (if lastSeenAt = zero_time then r else lastSeenAt)
      in run_tx flt (\<lambda>d. tx_bind (stmt flt ''update session'' (Inr
           (upd_sessions (open_with_id sid)
             (\<lambda>s. s\<lparr>s_last_seen_at := l, s_last_recovered_at := Some r\<rparr>) d)))
           (\<lambda>d'. Commit (Inr ()) d')))"

definition UpdateSessionOutputBytes ::
  "faults \<Rightarrow> string \<Rightarrow> int \<Rightarrow> agent_db \<Rightarrow> (error + unit) \<times> agent_db" where
  "UpdateSessionOutputBytes flt sid outputBytes d =
     (if outputBytes \<le> 0 then (Inr (), d)
      else exec_sessions flt ''update session output bytes'' (open_with_id sid)
        (\<lambda>s. s\<lparr>s_output_bytes := max (s_output_bytes s) outputBytes\<rparr>) d)"

definition SetContextPressure :: "faults \<Rightarrow> string \<Rightarrow> string \<Rightarrow> agent_db \<Rightarrow> (error + unit) \<times> agent_db" where
  "SetContextPressure flt sid level =
     exec_sessions flt ''set context pressure'' (\<lambda>s. s_session_id s = sid)
       (\<lambda>s. s\<lparr>s_context_pressure := level\<rparr>)"

definition RecordCompact :: "faults \<Rightarrow> gotime \<Rightarrow> string \<Rightarrow> agent_db \<Rightarrow> (error + unit) \<times> agent_db" where
  "RecordCompact flt now sid =
     exec_sessions flt ''record compact'' (\<lambda>s. s_session_id s = sid)
       (\<lambda>s. s\<lparr>s_compact_count := s_compact_count s + 1, s_last_compact_at := Some (truncate_second now)\<rparr>)"

definition TransitionIdleSessions ::
  "faults \<Rightarrow> gotime \<Rightarrow> gotime \<Rightarrow> agent_db \<Rightarrow> (error + unit) \<times> agent_db" where
  "TransitionIdleSessions flt now threshold =
     exec_sessions flt ''transition idle sessions''
       (\<lambda>s. open_session s \<and> s_inferred_status s \<notin> {''waiting_for_input'', ''unknown''} \<and>
            (case s_last_io_at s of None \<Rightarrow> False | Some t \<Rightarrow> t < threshold) \<and>
            (case s_inferred_status_updated_at s of None \<Rightarrow> False | Some t \<Rightarrow> t < threshold))
       (\<lambda>s. s\<lparr>s_inferred_status := ''idle'', s_inferred_status_updated_at := Some now\<rparr>)"

section \<open>Activity samples\<close>

definition counters_IsZero :: "'a ActivityCounters_scheme \<Rightarrow> bool" where
  "counters_IsZero c \<longleftrightarrow> RuntimeBytes c \<le> 0 \<and> OutputBytes c \<le> 0 \<and> OutputLines c \<le> 0 \<and> ToolCalls c \<le> 0 \<and>
     FileWrites c \<le> 0 \<and> DiffChanges c \<le> 0 \<and> ProcEvents c \<le> 0"

definition clampActivityCounters :: "ActivityCounters \<Rightarrow> ActivityCounters" where
  "clampActivityCounters c =
     \<lparr>RuntimeBytes = max 0 (RuntimeBytes c), OutputBytes = max 0 (OutputBytes c),
      OutputLines = max 0 (OutputLines c), ToolCalls = max 0 (ToolCalls c),
      FileWrites = max 0 (FileWrites c), DiffChanges = max 0 (DiffChanges c),
      ProcEvents = max 0 (ProcEvents c)\<rparr>"

text \<open>A bucket is the minute since the epoch; its text \<open>2006-01-02T15:04\<close> sorts the same way.\<close>

definition bucket_of :: "gotime \<Rightarrow> int" where
  "bucket_of t = t div Minute"

definition max_counters :: "ActivityCounters \<Rightarrow> activity_row \<Rightarrow> activity_row" where
  "max_counters c r =
     r\<lparr>RuntimeBytes := max (RuntimeBytes r) (RuntimeBytes c), OutputBytes := max (OutputBytes r) (OutputBytes c),
       OutputLines := max (OutputLines r) (OutputLines c), ToolCalls := max (ToolCalls r) (ToolCalls c),
       FileWrites := max (FileWrites r) (FileWrites c), DiffChanges := max (DiffChanges r) (DiffChanges c),
       ProcEvents := max (ProcEvents r) (ProcEvents c)\<rparr>"

definition at_bucket :: "string \<Rightarrow> int \<Rightarrow> activity_row \<Rightarrow> bool" where
  "at_bucket sid b r \<longleftrightarrow> sc_session_id r = sid \<and> sc_bucket r = b"

definition RecordActivitySample ::
  "faults \<Rightarrow> gotime \<Rightarrow> string \<Rightarrow> ActivityCounters \<Rightarrow> agent_db \<Rightarrow> (error + unit) \<times> agent_db" where
  "RecordActivitySample flt now sid counters d =
     (let c = clampActivityCounters counters; b = bucket_of now in
      if counters_IsZero c then (Inr (), d)
      else sql_try flt ''record activity sample'' d (Inr (), d\<lparr>session_activity :=
        (if \<exists>r\<in>set (session_activity d). at_bucket sid b r
         then sql_update (at_bucket sid b) (max_counters c) (session_activity d)
         else session_activity d @
           [\<lparr>RuntimeBytes = RuntimeBytes c, OutputBytes = OutputBytes c, OutputLines = OutputLines c,
             ToolCalls = ToolCalls c, FileWrites = FileWrites c, DiffChanges = DiffChanges c,
             ProcEvents = ProcEvents c, sc_session_id = sid, sc_bucket = b\<rparr>])\<rparr>))"

definition GetActivitySamples :: "faults \<Rightarrow> gotime \<Rightarrow> string \<Rightarrow> int \<Rightarrow> agent_db \<Rightarrow> error + activity_row list" where
  "GetActivitySamples flt now sid minutes d =
     stmt flt ''get activity samples'' (Inr (sql_order sc_bucket
       (filter (\<lambda>r. sc_session_id r = sid \<and> sc_bucket r \<ge> bucket_of (now - minutes * Minute)) (session_activity d))))"

section \<open>Registration\<close>

text \<open>A new row: the columns the insert does not name take the schema's defaults.\<close>

definition new_session :: "gotime \<Rightarrow> string \<Rightarrow> string \<Rightarrow> string \<Rightarrow> string \<Rightarrow> string \<Rightarrow> session_row" where
  "new_session now sid aid mode tmux secret =
     \<lparr>s_session_id = sid, s_agent_id = aid, s_mode = mode, s_tmux_session_name = tmux,
      s_started_at = truncate_second now, s_last_seen_at = truncate_second now, s_last_progress_at = None,
      s_last_io_at = None, s_ended_at = None, s_end_reason = '''', s_inferred_status = ''unknown'',
      s_inferred_status_updated_at = None, s_heartbeat_secret = secret, s_context_pressure = ''normal'',
      s_last_compact_at = None, s_compact_count = 0, s_repo = '''', s_branch = '''', s_output_bytes = 0,
      s_attribution_source = ''unknown'', s_attribution_confidence = ''unknown'', s_last_recovered_at = None\<rparr>"

definition upsert_session ::
  "gotime \<Rightarrow> string \<Rightarrow> string \<Rightarrow> string \<Rightarrow> string \<Rightarrow> string \<Rightarrow> agent_db \<Rightarrow> agent_db" where
  "upsert_session now sid aid mode tmux secret d =
     (if sid \<in> s_session_id ` set (agent_sessions d)
      then upd_sessions (\<lambda>s. s_session_id s = sid)
        (\<lambda>s. s\<lparr>s_agent_id := aid, s_mode := (if mode = '''' then s_mode s else mode),
               s_tmux_session_name := (if tmux = '''' then s_tmux_session_name s else tmux),
               s_ended_at := None, s_end_reason := '''', s_last_seen_at := truncate_second now,
               s_heartbeat_secret := (if s_heartbeat_secret s = '''' then secret else s_heartbeat_secret s)\<rparr>) d
      else d\<lparr>agent_sessions := agent_sessions d @ [new_session now sid aid mode tmux secret]\<rparr>)"

definition RegisterAgentSessionWithSecret ::
  "(string \<Rightarrow> bool) \<Rightarrow> faults \<Rightarrow> gotime \<Rightarrow> string \<Rightarrow> string \<Rightarrow> string \<Rightarrow> string \<Rightarrow> string \<Rightarrow>
   agent_db \<Rightarrow> (error + string) \<times> agent_db" where
  "RegisterAgentSessionWithSecret parse_uuid flt now uuid sid aid mode tmux =
     run_tx flt (\<lambda>d.
       tx_bind (stmt flt ''check existing row'' (Inr (sql_row (\<lambda>s. s_session_id s = sid) (agent_sessions d)))) (\<lambda>row.
       if (case row of Some s \<Rightarrow> \<not> open_session s \<and> parse_uuid sid | None \<Rightarrow> False)
       then Rollback (Inl ErrAgentSessionAlreadyEnded)
       else
         let existing = TrimSpace (case row of Some s \<Rightarrow> s_heartbeat_secret s | None \<Rightarrow> '''');
             secret = (if existing = '''' then uuid else existing)
         in tx_bind (stmt flt ''upsert session'' (Inr (upsert_session now sid aid mode tmux secret d))) (\<lambda>d1.
            tx_bind (stmt flt ''append event''
              (insert_event now sid aid ''session_registered'' (PayloadJSON [(''mode'', JStr mode)]) d1))
            (\<lambda>d2. Commit (Inr secret) d2))))"

definition RegisterAgentSession ::
  "(string \<Rightarrow> bool) \<Rightarrow> faults \<Rightarrow> gotime \<Rightarrow> string \<Rightarrow> string \<Rightarrow> string \<Rightarrow> string \<Rightarrow> string \<Rightarrow>
   agent_db \<Rightarrow> (error + unit) \<times> agent_db" where
  "RegisterAgentSession parse_uuid flt now uuid sid aid mode tmux d =
     (case RegisterAgentSessionWithSecret parse_uuid flt now uuid sid aid mode tmux d of
        (Inl e, d') \<Rightarrow> (Inl e, d') | (Inr _, d') \<Rightarrow> (Inr (), d'))"

definition ValidateHeartbeatSecret :: "faults \<Rightarrow> string \<Rightarrow> string \<Rightarrow> agent_db \<Rightarrow> error + unit" where
  "ValidateHeartbeatSecret flt sid secret d =
     stmt flt ''validate heartbeat secret''
      (case sql_row (open_with_id sid) (agent_sessions d) of
         None \<Rightarrow> Inl ErrAgentSessionNotFound
       | Some s \<Rightarrow> if s_heartbeat_secret s = '''' \<or> s_heartbeat_secret s \<noteq> secret
                   then Inl ErrInvalidHeartbeatSecret else Inr ())"

section \<open>Reading sessions and assignments\<close>

definition scanAgentSession :: "session_row \<Rightarrow> AgentSession" where
  "scanAgentSession r = AgentSession.truncate r"

definition scanAgentAssignment :: "assignment_row \<Rightarrow> AgentAssignment" where
  "scanAgentAssignment r = AgentAssignment.truncate r"

definition GetAgentSession :: "faults \<Rightarrow> string \<Rightarrow> agent_db \<Rightarrow> error + AgentSession" where
  "GetAgentSession flt sid d =
     stmt flt ''get agent session''
      (case sql_row (\<lambda>s. s_session_id s = sid) (agent_sessions d) of
         None \<Rightarrow> Inl ErrAgentSessionNotFound | Some s \<Rightarrow> Inr (scanAgentSession s))"

definition ConfirmAgentSession :: "faults \<Rightarrow> string \<Rightarrow> string \<Rightarrow> agent_db \<Rightarrow> error + unit" where
  "ConfirmAgentSession flt sid aid d =
     and_then (GetAgentSession flt sid d) (\<lambda>s.
       if s_ended_at s \<noteq> None then Inl ErrAgentSessionAlreadyEnded
       else if aid \<noteq> '''' \<and> s_agent_id s \<noteq> aid then Inl ErrAgentSessionAgentMismatch
       else Inr ())"

definition ListActiveAgentSessions :: "faults \<Rightarrow> agent_db \<Rightarrow> error + AgentSession list" where
  "ListActiveAgentSessions flt d =
     stmt flt ''list active agent sessions''
       (Inr (map scanAgentSession (sql_order_desc s_last_seen_at (filter open_session (agent_sessions d)))))"

text \<open>The part after the last slash.\<close>

definition short_repo :: "string \<Rightarrow> string" where
  "short_repo repo = rev (takeWhile (\<lambda>c. c \<noteq> CHR ''/'') (rev repo))"

definition FindActiveSessionForBranch ::
  "faults \<Rightarrow> string \<Rightarrow> string \<Rightarrow> agent_db \<Rightarrow> error + AgentSession option" where
  "FindActiveSessionForBranch flt repo branch d =
     stmt flt ''find active session for branch'' (Inr (map_option scanAgentSession
       (sql_first (sql_order_desc s_last_seen_at
         (filter (\<lambda>s. open_session s \<and> s_branch s = branch \<and> (s_repo s = repo \<or> s_repo s = short_repo repo))
           (agent_sessions d))))))"

definition ListExpiredAgentSessions ::
  "faults \<Rightarrow> gotime \<Rightarrow> duration \<Rightarrow> agent_db \<Rightarrow> error + AgentSession list" where
  "ListExpiredAgentSessions flt now ttl d =
     (let threshold = truncate_second (now - ttl) in
      stmt flt ''list expired agent sessions'' (Inr (map scanAgentSession
        (sql_order s_last_seen_at (filter (\<lambda>s. open_session s \<and> s_last_seen_at s < threshold) (agent_sessions d))))))"

definition latest_asg :: "(assignment_row \<Rightarrow> bool) \<Rightarrow> agent_db \<Rightarrow> assignment_row option" where
  "latest_asg P d = sql_first (sql_order_desc a_started_at (filter P (agent_assignments d)))"

definition get_asg :: "faults \<Rightarrow> string \<Rightarrow> assignment_row option \<Rightarrow> error + AgentAssignment" where
  "get_asg flt site row =
     stmt flt site (case row of None \<Rightarrow> Inl ErrAgentAssignmentNotFound | Some a \<Rightarrow> Inr (scanAgentAssignment a))"

definition GetActiveAgentAssignment :: "faults \<Rightarrow> string \<Rightarrow> agent_db \<Rightarrow> error + AgentAssignment" where
  "GetActiveAgentAssignment flt sid d =
     get_asg flt ''get active assignment'' (latest_asg (\<lambda>a. a_session_id a = sid \<and> open_asg a) d)"

definition GetAgentAssignmentByID :: "faults \<Rightarrow> string \<Rightarrow> agent_db \<Rightarrow> error + AgentAssignment" where
  "GetAgentAssignmentByID flt aid d =
     get_asg flt ''get assignment'' (sql_row (\<lambda>a. a_id a = aid) (agent_assignments d))"

definition GetActiveAssignmentByTaskID :: "faults \<Rightarrow> string \<Rightarrow> agent_db \<Rightarrow> error + AgentAssignment" where
  "GetActiveAssignmentByTaskID flt task d =
     get_asg flt ''get assignment by task'' (latest_asg (\<lambda>a. a_task_id a = task \<and> open_asg a) d)"

definition ListAgentAssignments :: "faults \<Rightarrow> string \<Rightarrow> agent_db \<Rightarrow> error + AgentAssignment list" where
  "ListAgentAssignments flt sid d =
     stmt flt ''list agent assignments'' (Inr (map scanAgentAssignment
       (sql_order a_started_at (filter (\<lambda>a. a_session_id a = sid) (agent_assignments d)))))"

definition AppendAgentEvent ::
  "faults \<Rightarrow> gotime \<Rightarrow> string \<Rightarrow> string \<Rightarrow> string \<Rightarrow> string \<Rightarrow> agent_db \<Rightarrow> (error + int) \<times> agent_db" where
  "AppendAgentEvent flt now sid aid ty pl d =
     (case stmt flt ''append agent event'' (insert_event now sid aid ty (PayloadText pl) d) of
        Inl e \<Rightarrow> (Inl e, d)
      | Inr d' \<Rightarrow> (Inr (next_event_id (agent_events d)), d'))"

definition ListAgentEvents :: "faults \<Rightarrow> string \<Rightarrow> int \<Rightarrow> agent_db \<Rightarrow> error + AgentEvent list" where
  "ListAgentEvents flt sid sinceID d =
     stmt flt ''list agent events'' (Inr
       (sql_order ae_id (filter (\<lambda>e. ae_session_id e = sid \<and> ae_id e > sinceID) (agent_events d))))"

definition ListRecentAgentEvents :: "faults \<Rightarrow> int \<Rightarrow> agent_db \<Rightarrow> error + AgentEvent list" where
  "ListRecentAgentEvents flt limit d =
     stmt flt ''list recent agent events'' (Inr
       (let rows = sql_order_desc ae_created_at (sql_order_desc ae_id (agent_events d))
        in if limit < 0 then rows else take (nat limit) rows))"

text \<open>The struct fields that the context query does not scan keep their zero values.\<close>

definition scan_context :: "session_row \<times> assignment_row \<Rightarrow> AgentSession \<times> AgentAssignment" where
  "scan_context c =
     ((scanAgentSession (fst c))\<lparr>s_tmux_session_name := '''', s_last_io_at := None, s_inferred_status := '''',
        s_inferred_status_updated_at := None\<rparr>,
      (scanAgentAssignment (snd c))\<lparr>a_delivery_state := ''''\<rparr>)"

definition open_contexts :: "agent_db \<Rightarrow> (session_row \<times> assignment_row) list" where
  "open_contexts d =
     filter (\<lambda>(s, a). a_session_id a = s_session_id s \<and> open_session s \<and> open_asg a)
       (List.product (agent_sessions d) (agent_assignments d))"

definition loadActiveAssignmentContextTx ::
  "faults \<Rightarrow> string \<Rightarrow> agent_db \<Rightarrow> error + (AgentSession \<times> AgentAssignment)" where
  "loadActiveAssignmentContextTx flt sid d =
     stmt flt ''load active assignment context''
      (case sql_first (sql_order_desc (\<lambda>c. a_started_at (snd c))
              (filter (\<lambda>c. s_session_id (fst c) = sid) (open_contexts d))) of
         None \<Rightarrow> Inl ErrAgentAssignmentNotFound | Some c \<Rightarrow> Inr (scan_context c))"

definition listActiveAssignmentContextsTx ::
  "faults \<Rightarrow> agent_db \<Rightarrow> error + (AgentSession \<times> AgentAssignment) list" where
  "listActiveAssignmentContextsTx flt d =
     stmt flt ''list active assignment contexts''
       (Inr (map scan_context (sql_order (\<lambda>c. a_started_at (snd c)) (open_contexts d))))"

section \<open>Heartbeat\<close>

text \<open>A missing assignment is no error for the callers of the context query.\<close>

definition opt_context ::
  "faults \<Rightarrow> string \<Rightarrow> agent_db \<Rightarrow> error + (AgentSession \<times> AgentAssignment) option" where
  "opt_context flt sid d =
     (case loadActiveAssignmentContextTx flt sid d of
        Inl e \<Rightarrow> if e = ErrAgentAssignmentNotFound then Inr None else Inl e
      | Inr c \<Rightarrow> Inr (Some c))"

text \<open>The verdict of a rule: pass, resolved by codero, or fail with a violation.\<close>

definition record_verdict ::
  "faults \<Rightarrow> gotime \<Rightarrow> (string \<Rightarrow> string) \<Rightarrow> string \<Rightarrow> string \<Rightarrow> string \<Rightarrow> bool \<Rightarrow> detail \<Rightarrow> agent_db \<Rightarrow> error + agent_db" where
  "record_verdict flt now uuid aid sid ruleID pass detail d =
     recordAssignmentRuleCheckTx flt now uuid aid sid ruleID (if pass then ''pass'' else ''fail'') (\<not> pass)
       detail (if pass then ''codero'' else '''') d"

definition rule004_detail :: "rule004Evaluation \<Rightarrow> detail" where
  "rule004_detail r =
     (if r4_pass r then r4_detail r
      else detail_set ''classification'' (JStr (r4_classification r))
        (detail_set ''failure_path'' (JStr (r4_failure_path r)) (r4_detail r)))"

definition UpdateAgentSessionHeartbeat ::
  "faults \<Rightarrow> gotime \<Rightarrow> (string \<Rightarrow> string) \<Rightarrow> string \<Rightarrow> bool \<Rightarrow> agent_db \<Rightarrow> (error + unit) \<times> agent_db" where
  "UpdateAgentSessionHeartbeat flt clock uuid sid markProgress =
     (let now = truncate_second clock;
          touch = (\<lambda>s. if markProgress
             then s\<lparr>s_last_seen_at := now, s_last_io_at := Some now, s_last_progress_at := Some now\<rparr>
             else s\<lparr>s_last_seen_at := now\<rparr>)
      in run_tx flt (\<lambda>d.
        tx_bind (stmt flt ''update heartbeat'' (Inr (upd_sessions (open_with_id sid) touch d))) (\<lambda>d1.
        if sql_affected (open_with_id sid) (agent_sessions d) = 0 then Rollback (Inl ErrAgentSessionNotFound)
        else tx_bind (opt_context flt sid d1) (\<lambda>ctx.
          case ctx of
            None \<Rightarrow> Commit (Inr ()) d1
          | Some (s, a) \<Rightarrow>
             let s' = (if markProgress
                  then s\<lparr>s_last_seen_at := now, s_last_io_at := Some now, s_last_progress_at := Some now\<rparr>
                  else s\<lparr>s_last_seen_at := now\<rparr>);
                 rule004 = evaluateRule004HeartbeatProgress now (Some s') (Some a)
             in tx_bind (record_verdict flt clock uuid (a_id a) sid ''RULE-004'' (r4_pass rule004)
                   (rule004_detail rule004) d1) (\<lambda>d2. Commit (Inr ()) d2)))))"

section \<open>Expiry\<close>

definition close_asg ::
  "gotime \<Rightarrow> string \<Rightarrow> assignmentLifecycleState \<Rightarrow> string \<Rightarrow> string \<Rightarrow> assignment_row \<Rightarrow> assignment_row" where
  "close_asg now reason st blocked sub a =
     a\<lparr>a_ended_at := Some now, a_end_reason := reason, a_state := st, a_blocked_reason := blocked,
       a_substatus := sub, a_version := a_version a + 1\<rparr>"

definition close_session :: "gotime \<Rightarrow> string \<Rightarrow> session_row \<Rightarrow> session_row" where
  "close_session now reason s = s\<lparr>s_ended_at := Some now, s_end_reason := reason\<rparr>"

definition expire_detail :: "string \<Rightarrow> detail \<Rightarrow> detail" where
  "expire_detail reason detail =
     (let d1 = (if reason = ''expired'' \<and> map_of detail ''reason'' = Some (JStr ''protocol_ok'')
          then detail_set ''classification'' (JStr ''infrastructure_failure'')
            (detail_set ''failure_path'' (JStr ''lost'') (detail_set ''reason'' (JStr ''heartbeat_missing'') detail))
          else detail)
      in if reason = ''stuck_abandoned''
         then detail_set ''classification'' (JStr ''stuck_assignment'')
            (detail_set ''failure_path'' (JStr ''stuck'') (detail_set ''reason'' (JStr ''progress_stale'') d1))
         else d1)"

definition ExpireAgentSession ::
  "faults \<Rightarrow> gotime \<Rightarrow> (string \<Rightarrow> string) \<Rightarrow> string \<Rightarrow> string \<Rightarrow> agent_db \<Rightarrow> (error + unit) \<times> agent_db" where
  "ExpireAgentSession flt clock uuid sid reason0 =
     (let reason = (if reason0 = '''' then ''expired'' else reason0);
          now = truncate_second clock;
          sub = (if reason = ''stuck_abandoned'' then ''terminal_stuck_abandoned'' else ''terminal_lost'')
      in run_tx flt (\<lambda>d.
        tx_bind (opt_context flt sid d) (\<lambda>ctx.
        tx_bind (stmt flt ''update session'' (Inr (upd_sessions (open_with_id sid) (close_session now reason) d))) (\<lambda>d1.
        if sql_affected (open_with_id sid) (agent_sessions d) = 0 then Rollback (Inl ErrAgentSessionNotFound)
        else tx_bind (case ctx of
              None \<Rightarrow> Inr d1
            | Some (s, a) \<Rightarrow> recordAssignmentRuleCheckTx flt clock uuid (a_id a) sid ''RULE-004'' ''fail'' True
                (expire_detail reason (r4_detail (evaluateRule004HeartbeatProgress now (Some s) (Some a)))) '''' d1) (\<lambda>d2.
        tx_bind (stmt flt ''end assignments'' (Inr (upd_assignments (\<lambda>a. a_session_id a = sid \<and> open_asg a)
              (close_asg now reason assignmentStateLost '''' sub) d2))) (\<lambda>d3.
        tx_bind (case ctx of
              None \<Rightarrow> Inr d3
            | Some (s, a) \<Rightarrow> clearAssignmentBranchOwnershipTx flt clock a d3) (\<lambda>d4.
        tx_bind (stmt flt ''append event''
            (case sql_row (\<lambda>s. s_session_id s = sid) (agent_sessions d4) of
               None \<Rightarrow> Inr d4
             | Some s \<Rightarrow> insert_event clock sid (s_agent_id s) ''session_expired''
                  (PayloadJSON [(''reason'', JStr reason)]) d4)) (\<lambda>d5.
        tx_bind (archiveSessionTx flt clock uuid sid reason '''' '''' now d5) (\<lambda>d6.
        Commit (Inr ()) d6)))))))))"

section \<open>Attaching an assignment\<close>

definition new_assignment :: "AgentAssignment \<Rightarrow> assignment_row" where
  "new_assignment a = AgentAssignment.extend
     (a\<lparr>a_version := 1, a_delivery_state := ''idle'', a_ended_at := None, a_end_reason := '''',
        a_superseded_by := None\<rparr>)
     (assignment_row.fields '''' None '''' '''' 0)"

definition supersede_asg :: "gotime \<Rightarrow> string \<Rightarrow> assignment_row \<Rightarrow> assignment_row" where
  "supersede_asg now by' a =
     (close_asg now ''superseded'' assignmentStateSuperseded '''' ''terminal_waiting_for_next_task'' a)
       \<lparr>a_superseded_by := Some by'\<rparr>"

definition AttachAgentAssignment ::
  "faults \<Rightarrow> gotime \<Rightarrow> (string \<Rightarrow> string) \<Rightarrow> AgentAssignment option \<Rightarrow> agent_db \<Rightarrow> (error + unit) \<times> agent_db" where
  "AttachAgentAssignment flt clock uuid arg d0 =
     (case arg of None \<Rightarrow> (Inl (OtherError ''attach agent assignment: nil assignment''), d0)
      | Some asg0 \<Rightarrow> (case validateAttachAssignmentSubstatus (a_substatus asg0) of
          Inl e \<Rightarrow> (Inl e, d0)
        | Inr sub \<Rightarrow>
          (let now = truncate_second clock;
               asg = asg0\<lparr>a_substatus := sub, a_state := assignmentStateActive, a_blocked_reason := '''',
                  a_started_at := (if a_started_at asg0 = zero_time then now else a_started_at asg0)\<rparr>;
               sid = a_session_id asg
           in run_tx flt (\<lambda>d.
            tx_bind (stmt flt ''touch session'' (Inr (upd_sessions (open_with_id sid)
                (\<lambda>s. s\<lparr>s_last_seen_at := now, s_last_progress_at := Some now\<rparr>) d))) (\<lambda>d1.
            if sql_affected (open_with_id sid) (agent_sessions d) = 0 then Rollback (Inl ErrAgentSessionNotFound)
            else tx_bind (stmt flt ''check existing'' (Inr (latest_asg (\<lambda>a. a_session_id a = sid \<and> open_asg a) d1))) (\<lambda>existing.
            if (case existing of Some x \<Rightarrow> a_repo x = a_repo asg \<and> a_branch x = a_branch asg \<and> a_task_id x = a_task_id asg
                | None \<Rightarrow> False)
            then Commit (Inr ()) d1
            else tx_bind (stmt flt ''supersede'' (Inr (upd_assignments (\<lambda>a. a_session_id a = sid \<and> open_asg a)
                  (supersede_asg now (a_id asg)) d1))) (\<lambda>d2.
            tx_bind (stmt flt ''insert'' (insert_assignment (new_assignment asg) d2)) (\<lambda>d3.
            tx_bind (seedPendingAssignmentRuleChecksTx flt clock uuid (a_id asg) sid d3) (\<lambda>d4.
            tx_bind (recordAssignmentRuleCheckTx flt clock uuid (a_id asg) sid ''RULE-002'' ''pass'' False
                [(''state'', JStr ''active''), (''substatus'', JStr sub)] ''codero'' d4) (\<lambda>d5.
            tx_bind (case evaluateRule003BranchHoldTTL now (Some asg) of (pass, _, detail) \<Rightarrow>
                record_verdict flt clock uuid (a_id asg) sid ''RULE-003'' pass detail d5) (\<lambda>d6.
            tx_bind (recordAssignmentRuleCheckTx flt clock uuid (a_id asg) sid ''RULE-004'' ''pass'' False
                (r4_detail (evaluateRule004HeartbeatProgress now (Some
                   \<lparr>s_session_id = sid, s_agent_id = a_agent_id asg, s_mode = '''', s_tmux_session_name = '''',
                    s_started_at = now, s_last_seen_at = now, s_last_progress_at = Some now, s_last_io_at = None,
                    s_ended_at = None, s_end_reason = '''', s_inferred_status = '''',
                    s_inferred_status_updated_at = None\<rparr>) (Some asg))) ''codero'' d6) (\<lambda>d7.
            tx_bind (stmt flt ''append event'' (insert_event clock sid (a_agent_id asg) ''assignment_attached''
                (PayloadJSON [(''assignment_id'', JStr (a_id asg)), (''repo'', JStr (a_repo asg)),
                  (''branch'', JStr (a_branch asg)), (''worktree'', JStr (a_worktree asg)),
                  (''task_id'', JStr (a_task_id asg)), (''substatus'', JStr sub)]) d7)) (\<lambda>d8.
            Commit (Inr ()) d8)))))))))) d0)))"

text \<open>SQLite's \<open>LIKE\<close>: \<open>%\<close> matches any text, \<open>_\<close> any character, letters in
  either case.\<close>

fun sql_like :: "string \<Rightarrow> string \<Rightarrow> bool" where
  "sql_like [] t \<longleftrightarrow> t = []"
| "sql_like (p # ps) t \<longleftrightarrow>
     (if p = CHR ''%'' then \<exists>i\<in>set [0..<Suc (length t)]. sql_like ps (drop i t)
      else case t of [] \<Rightarrow> False
           | c # cs \<Rightarrow> (p = CHR ''_'' \<or> lower_char p = lower_char c) \<and> sql_like ps cs)"

definition zero_assignment :: AgentAssignment where
  "zero_assignment = \<lparr>a_id = '''', a_session_id = '''', a_agent_id = '''', a_repo = '''', a_branch = '''',
     a_worktree = '''', a_task_id = '''', a_state = assignmentStateOther '''', a_blocked_reason = '''',
     a_substatus = '''', a_version = 0, a_delivery_state = '''', a_started_at = zero_time, a_ended_at = None,
     a_end_reason = '''', a_superseded_by = None\<rparr>"

definition PromoteSessionToTrackedAssignment ::
  "faults \<Rightarrow> gotime \<Rightarrow> (string \<Rightarrow> string) \<Rightarrow> string \<Rightarrow> agent_db \<Rightarrow> (error + unit) \<times> agent_db" where
  "PromoteSessionToTrackedAssignment flt clock uuid sid d =
     (if sid = '''' then (Inl (OtherError ''promote session: session_id is required''), d)
      else sql_try flt ''promote load session'' d
       (case sql_row (open_with_id sid) (agent_sessions d) of
          None \<Rightarrow> (Inl ErrAgentSessionNotFound, d)
        | Some s \<Rightarrow>
          if s_repo s = '''' \<or> s_branch s = '''' then (Inr (), d)
          else sql_try flt ''promote check branch'' d
           (if sql_affected (\<lambda>b. (b_repo b = s_repo s \<or> sql_like (''%/'' @ s_repo s) (b_repo b)) \<and>
                 b_branch b = s_branch s) (branch_states (core d)) = 0 then (Inr (), d)
            else
             (let attach = (\<lambda>worktree task sub. AttachAgentAssignment flt clock uuid (Some (zero_assignment
                    \<lparr>a_id := uuid ''assignment'', a_session_id := sid, a_agent_id := s_agent_id s,
                     a_repo := s_repo s, a_branch := s_branch s, a_worktree := worktree, a_task_id := task,
                     a_substatus := (if sub = '''' then ''in_progress'' else sub)\<rparr>)) d)
              in case GetActiveAgentAssignment flt sid d of
                   Inl e \<Rightarrow> if e = ErrAgentAssignmentNotFound then attach '''' '''' '''' else (Inl e, d)
                 | Inr a \<Rightarrow> if a_repo a = s_repo s \<and> a_branch a = s_branch s then (Inr (), d)
                            else attach (a_worktree a) (a_task_id a) (a_substatus a)))))"

definition SetSessionTaskID ::
  "faults \<Rightarrow> string \<Rightarrow> string \<Rightarrow> string \<Rightarrow> agent_db \<Rightarrow> (error + unit) \<times> agent_db" where
  "SetSessionTaskID flt sid task repo d =
     (if sid = '''' then (Inl (OtherError ''set session task id: session_id is required''), d)
      else if task = '''' then (Inl (OtherError ''set session task id: task_id is required''), d)
      else sql_try flt ''set session task id'' d
       (let P = (\<lambda>a. a_session_id a = sid \<and> open_asg a);
            d1 = upd_assignments P (\<lambda>a. a\<lparr>a_task_id := task, a_repo := (if repo \<noteq> '''' then repo else a_repo a),
                   a_version := a_version a + 1\<rparr>) d
        in if \<not> live_tasks_unique (agent_assignments d1)
           then (Inl (ConstraintError ''UNIQUE constraint failed: agent_assignments.task_id''), d)
           else if sql_affected P (agent_assignments d) = 0 then (Inl ErrAgentAssignmentNotFound, d)
           else (Inr (), d1)))"

section \<open>Finalisation\<close>

record AgentSessionCompletion =
  co_task_id :: string
  co_status :: string
  co_substatus :: string
  co_summary :: string
  co_tests :: "string list"
  co_finished_at :: gotime

definition completion_payload :: "AgentSessionCompletion \<Rightarrow> payload" where
  "completion_payload c = PayloadJSON
     [(''task_id'', JStr (co_task_id c)), (''status'', JStr (co_status c)), (''substatus'', JStr (co_substatus c)),
      (''summary'', JStr (co_summary c)), (''tests'', JStrs (co_tests c)), (''finished_at'', JTime (co_finished_at c))]"

text \<open>The rule checks of a finalisation that names a valid substatus.\<close>

definition finalize_rules ::
  "faults \<Rightarrow> gotime \<Rightarrow> (string \<Rightarrow> string) \<Rightarrow> gotime \<Rightarrow> AgentSessionCompletion \<Rightarrow> assignmentLifecycleState \<Rightarrow> string \<Rightarrow>
   AgentSession \<Rightarrow> AgentAssignment \<Rightarrow> agent_db \<Rightarrow> error + agent_db" where
  "finalize_rules flt clock uuid finishedAt c target sub s a d =
     and_then (recordAssignmentRuleCheckTx flt clock uuid (a_id a) (s_session_id s) ''RULE-002'' ''pass'' False
        [(''state'', JStr (asg_state_str target)), (''status'', JStr (co_status c)), (''substatus'', JStr sub)]
        ''codero'' d) (\<lambda>d1.
     and_then (case evaluateRule003BranchHoldTTL finishedAt (Some a) of (pass, _, detail) \<Rightarrow>
        record_verdict flt clock uuid (a_id a) (s_session_id s) ''RULE-003'' pass detail d1) (\<lambda>d2.
     and_then (let r = evaluateRule004HeartbeatProgress finishedAt (Some s) (Some a) in
        record_verdict flt clock uuid (a_id a) (s_session_id s) ''RULE-004'' (r4_pass r) (rule004_detail r) d2) (\<lambda>d3.
     and_then (if target = assignmentStateCompleted then evaluateRule001CompletionTx flt a d3
               else Inr (True, [(''reason'', JStr ''not_applicable'')])) (\<lambda>(pass, detail).
     record_verdict flt clock uuid (a_id a) (s_session_id s) ''RULE-001'' pass detail d3))))"

text \<open>The writes after the checks: both rows are ended, ownership released, event and archive written.\<close>

definition finalize_close ::
  "faults \<Rightarrow> gotime \<Rightarrow> (string \<Rightarrow> string) \<Rightarrow> gotime \<Rightarrow> AgentSessionCompletion \<Rightarrow> assignmentLifecycleState \<Rightarrow> string \<Rightarrow>
   AgentSession \<Rightarrow> AgentAssignment option \<Rightarrow> agent_db \<Rightarrow> error + agent_db" where
  "finalize_close flt clock uuid finishedAt c target sub s active d =
     and_then (stmt flt ''end session'' (Inr (upd_sessions (open_with_id (s_session_id s))
        (close_session finishedAt (co_status c)) d))) (\<lambda>d1.
     and_then (case active of
          None \<Rightarrow> Inr d1
        | Some a \<Rightarrow> and_then (stmt flt ''end assignment'' (Inr (upd_assignments (\<lambda>x. a_id x = a_id a \<and> open_asg x)
              (close_asg finishedAt (co_status c) target (blockedReasonFromSubstatus sub) sub) d1)))
            (clearAssignmentBranchOwnershipTx flt clock a)) (\<lambda>d2.
     let c' = (case active of Some a \<Rightarrow> if co_task_id c = '''' then c\<lparr>co_task_id := a_task_id a\<rparr> else c | None \<Rightarrow> c)
     in and_then (stmt flt ''append event'' (insert_event clock (s_session_id s) (s_agent_id s) ''session_finalized''
          (completion_payload c') d2)) (\<lambda>d3.
        archiveSessionTx flt clock uuid (s_session_id s) (co_status c) '''' (co_task_id c') finishedAt d3)))"

definition FinalizeAgentSession ::
  "faults \<Rightarrow> gotime \<Rightarrow> (string \<Rightarrow> string) \<Rightarrow> string \<Rightarrow> string \<Rightarrow> AgentSessionCompletion \<Rightarrow> agent_db \<Rightarrow>
   (error + unit) \<times> agent_db" where
  "FinalizeAgentSession flt clock uuid sid aid c =
     run_tx flt (\<lambda>d.
       tx_bind (stmt flt ''finalize load session''
         (case sql_row (\<lambda>s. s_session_id s = sid) (agent_sessions d) of
            None \<Rightarrow> Inl ErrAgentSessionNotFound | Some s \<Rightarrow> Inr (scanAgentSession s))) (\<lambda>s.
       if s_ended_at s \<noteq> None then Rollback (Inl ErrAgentSessionAlreadyEnded)
       else if aid \<noteq> '''' \<and> s_agent_id s \<noteq> aid then Rollback (Inl ErrAgentSessionAgentMismatch)
       else
         let finishedAt = (if co_finished_at c = zero_time then clock else co_finished_at c) in
         tx_bind (stmt flt ''finalize load assignment'' (Inr (map_option scanAgentAssignment
            (latest_asg (\<lambda>a. a_session_id a = sid \<and> open_asg a) d)))) (\<lambda>active.
         case validateTerminalAssignmentSubstatus (co_status c) (co_substatus c) of
           Inl e \<Rightarrow>
             (case active of
                None \<Rightarrow> Rollback (Inl e)
              | Some a \<Rightarrow> tx_bind (recordAssignmentRuleCheckTx flt clock uuid (a_id a) sid ''RULE-002'' ''fail'' True
                    [(''status'', JStr (co_status c)), (''substatus'', JStr (co_substatus c)), (''reason'', JErr e)]
                    '''' d) (\<lambda>d1. Commit (Inl e) d1))
         | Inr (target, sub) \<Rightarrow>
             tx_bind (case active of
                None \<Rightarrow> Inr (None, d)
              | Some a \<Rightarrow>
                  and_then (finalize_rules flt clock uuid finishedAt c target sub s a d) (\<lambda>d1.
                  if target = assignmentStateCompleted
                  then and_then (activeRuleBlockersTx flt (a_id a) d1) (\<lambda>b. Inr (assignmentCompletionError b, d1))
                  else Inr (None, d1))) (\<lambda>(blockErr, d1).
             case blockErr of
               Some e \<Rightarrow> Commit (Inl e) d1
             | None \<Rightarrow> tx_bind (finalize_close flt clock uuid finishedAt c target sub s active d1)
                        (\<lambda>d2. Commit (Inr ()) d2)))))"

section \<open>Rule monitor\<close>

definition monitor_end ::
  "faults \<Rightarrow> gotime \<Rightarrow> gotime \<Rightarrow> AgentSession \<Rightarrow> AgentAssignment \<Rightarrow> rule004Evaluation \<Rightarrow> agent_db \<Rightarrow> error + agent_db" where
  "monitor_end flt clock now s a r d =
     (let stuck = (r4_failure_path r = ''stuck'');
          reason = (if stuck then ''stuck_abandoned'' else ''lost'');
          sub = (if stuck then ''terminal_stuck_abandoned'' else ''terminal_lost'');
          ty = (if stuck then ''session_protocol_stuck'' else ''session_protocol_lost'')
      in and_then (stmt flt ''monitor end session'' (Inr (upd_sessions (open_with_id (s_session_id s))
            (close_session now reason) d))) (\<lambda>d1.
         and_then (stmt flt ''monitor end assignment'' (Inr (upd_assignments (\<lambda>x. a_id x = a_id a \<and> open_asg x)
            (close_asg now reason assignmentStateLost '''' sub) d1))) (\<lambda>d2.
         and_then (clearAssignmentBranchOwnershipTx flt clock a d2) (\<lambda>d3.
         appendAgentEventTx flt clock (s_session_id s) (s_agent_id s) ty
           [(''assignment_id'', JStr (a_id a)), (''rule_id'', JStr ''RULE-004''),
            (''failure_path'', JStr (r4_failure_path r)), (''classification'', JStr (r4_classification r)),
            (''substatus'', JStr sub)] d3))))"

definition monitor_cancel ::
  "faults \<Rightarrow> gotime \<Rightarrow> gotime \<Rightarrow> AgentSession \<Rightarrow> AgentAssignment \<Rightarrow> detail \<Rightarrow> agent_db \<Rightarrow> error + agent_db" where
  "monitor_cancel flt clock now s a detail d =
     and_then (stmt flt ''monitor cancel assignment'' (Inr (upd_assignments (\<lambda>x. a_id x = a_id a \<and> open_asg x)
        (close_asg now ''cancelled'' assignmentStateCancelled '''' ''terminal_cancelled'') d))) (\<lambda>d1.
     and_then (clearAssignmentBranchOwnershipTx flt clock a d1) (\<lambda>d2.
     appendAgentEventTx flt clock (s_session_id s) (s_agent_id s) ''assignment_auto_cancelled''
       [(''assignment_id'', JStr (a_id a)), (''rule_id'', JStr ''RULE-003''),
        (''substatus'', JStr ''terminal_cancelled''),
        (''reason'', case map_of detail ''reason'' of Some v \<Rightarrow> v | None \<Rightarrow> JStr '''')] d2))"

text \<open>One round of the loop.\<close>

definition monitor_one ::
  "faults \<Rightarrow> gotime \<Rightarrow> (string \<Rightarrow> string) \<Rightarrow> gotime \<Rightarrow> AgentSession \<times> AgentAssignment \<Rightarrow> agent_db \<Rightarrow> error + agent_db" where
  "monitor_one flt clock uuid now ctx d =
     (case ctx of (s, a) \<Rightarrow>
       let r = evaluateRule004HeartbeatProgress now (Some s) (Some a) in
       and_then (record_verdict flt clock uuid (a_id a) (s_session_id s) ''RULE-004'' (r4_pass r) (rule004_detail r) d) (\<lambda>d1.
       if \<not> r4_pass r then monitor_end flt clock now s a r d1
       else (case evaluateRule003BranchHoldTTL now (Some a) of (pass, forceCancel, detail) \<Rightarrow>
         and_then (record_verdict flt clock uuid (a_id a) (s_session_id s) ''RULE-003'' pass detail d1) (\<lambda>d2.
         if forceCancel then monitor_cancel flt clock now s a detail d2 else Inr d2))))"

fun monitor_all ::
  "faults \<Rightarrow> gotime \<Rightarrow> (string \<Rightarrow> string) \<Rightarrow> gotime \<Rightarrow> (AgentSession \<times> AgentAssignment) list \<Rightarrow> agent_db \<Rightarrow> error + agent_db" where
  "monitor_all flt clock uuid now [] d = Inr d"
| "monitor_all flt clock uuid now (c # cs) d =
     and_then (monitor_one flt clock (\<lambda>n. uuid (a_id (snd c) @ n)) now c d) (monitor_all flt clock uuid now cs)"

definition MonitorAgentAssignmentRules ::
  "faults \<Rightarrow> gotime \<Rightarrow> (string \<Rightarrow> string) \<Rightarrow> gotime \<Rightarrow> agent_db \<Rightarrow> (error + unit) \<times> agent_db" where
  "MonitorAgentAssignmentRules flt clock uuid now0 =
     (let now = (if now0 = zero_time then truncate_second clock else now0) in
      run_tx flt (\<lambda>d.
        tx_bind (listActiveAssignmentContextsTx flt d) (\<lambda>contexts.
        tx_bind (monitor_all flt clock uuid now contexts d) (\<lambda>d'. Commit (Inr ()) d'))))"

section \<open>Waiting states\<close>

definition ReconcileAgentAssignmentWaitingState ::
  "faults \<Rightarrow> gotime \<Rightarrow> string \<Rightarrow> string \<Rightarrow> agent_db \<Rightarrow> (error + unit) \<times> agent_db" where
  "ReconcileAgentAssignmentWaitingState flt clock repo branch =
     run_tx flt (\<lambda>d.
       tx_bind (stmt flt ''reconcile load branch'' (Inr (sql_row (at_branch repo branch) (branch_states (core d))))) (\<lambda>row.
       case row of
         None \<Rightarrow> Rollback (Inr ())
       | Some b \<Rightarrow>
         tx_bind (stmt flt ''reconcile load assignment'' (Inr (map_option scanAgentAssignment
           (latest_asg (\<lambda>a. a_repo a = repo \<and> a_branch a = branch \<and> open_asg a) d)))) (\<lambda>asg.
         case asg of
           None \<Rightarrow> Rollback (Inr ())
         | Some a \<Rightarrow>
           let current = normalizeAssignmentSubstatus (a_substatus a);
               st = state_str (b_state b);
               nxt = nextWaitingAssignmentSubstatus st (b_approved b \<noteq> 0) (b_ci_green b \<noteq> 0)
                         (b_pending_events b) (b_unresolved_threads b)
           in if current \<noteq> ''waiting_for_ci'' \<and> current \<noteq> ''waiting_for_merge_approval'' then Rollback (Inr ())
              else if nxt = current then Rollback (Inr ())
              else
                let ns = assignmentStateFromSubstatus nxt;
                    nextState = (if ns = assignmentStateOther '''' then assignmentStateActive else ns)
                in tx_bind (stmt flt ''reconcile update assignment'' (Inr
                     (upd_assignments (\<lambda>x. a_id x = a_id a \<and> open_asg x)
                       (\<lambda>x. x\<lparr>a_state := nextState, a_blocked_reason := '''', a_substatus := nxt,
                              a_version := a_version x + 1\<rparr>) d))) (\<lambda>d1.
                   tx_bind (appendAgentEventTx flt clock (a_session_id a) (a_agent_id a) ''assignment_substatus_updated''
                     [(''assignment_id'', JStr (a_id a)), (''repo'', JStr repo), (''branch'', JStr branch),
                      (''from_substatus'', JStr current), (''to_substatus'', JStr nxt), (''branch_state'', JStr st),
                      (''approved'', JBool (b_approved b \<noteq> 0)), (''ci_green'', JBool (b_ci_green b \<noteq> 0)),
                      (''pending_events'', JInt (b_pending_events b)),
                      (''unresolved_threads'', JInt (b_unresolved_threads b))] d1) (\<lambda>d2.
                   Commit (Inr ()) d2)))))"

section \<open>Claiming a task\<close>

definition isLiveTaskConstraintError :: "error \<Rightarrow> bool" where
  "isLiveTaskConstraintError e =
     (case e of
        ConstraintError m \<Rightarrow> HasPrefix m ''UNIQUE''
      | DBError m \<Rightarrow> Contains m ''idx_agent_assignments_live_task_id''
      | _ \<Rightarrow> False)"

definition loadLiveTaskClaimTx :: "faults \<Rightarrow> string \<Rightarrow> agent_db \<Rightarrow> error + string \<times> string" where
  "loadLiveTaskClaimTx flt task d =
     stmt flt ''load live task claim''
      (case sql_row (\<lambda>a. a_task_id a = task \<and> open_asg a) (agent_assignments d) of
         None \<Rightarrow> Inl ErrAgentAssignmentNotFound
       | Some a \<Rightarrow> Inr (a_id a, a_session_id a))"

definition claimed_assignment :: "gotime \<Rightarrow> string \<Rightarrow> string \<Rightarrow> string \<Rightarrow> string \<Rightarrow> AgentAssignment" where
  "claimed_assignment now aid sid agent task =
     zero_assignment\<lparr>a_id := aid, a_session_id := sid, a_agent_id := agent, a_task_id := task,
       a_state := assignmentStateActive, a_substatus := ''in_progress'', a_version := 1, a_started_at := now\<rparr>"

text \<open>The insert with its reaction to a lost race for the task.\<close>

definition accept_insert ::
  "faults \<Rightarrow> gotime \<Rightarrow> gotime \<Rightarrow> (string \<Rightarrow> string) \<Rightarrow> string \<Rightarrow> string \<Rightarrow> string \<Rightarrow> agent_db \<Rightarrow> AgentAssignment tx_result" where
  "accept_insert flt clock now uuid sid agent task d =
     (let aid = uuid ''assignment''; asg = claimed_assignment now aid sid agent task in
      case stmt flt ''insert'' (insert_assignment (new_assignment asg) d) of
        Inl e \<Rightarrow>
          if isLiveTaskConstraintError e
          then tx_bind (loadLiveTaskClaimTx flt task d) (\<lambda>(xid, xsid).
            if xsid = sid
            then tx_bind (get_asg flt ''reload row'' (sql_row (\<lambda>a. a_id a = xid) (agent_assignments d)))
              (\<lambda>a. Rollback (Inr a))
            else Rollback (Inl ErrTaskAlreadyClaimed))
          else Rollback (Inl e)
      | Inr d1 \<Rightarrow>
          tx_bind (seedPendingAssignmentRuleChecksTx flt clock uuid aid sid d1) (\<lambda>d2.
          tx_bind (stmt flt ''touch session'' (Inr (upd_sessions (\<lambda>s. s_session_id s = sid)
            (\<lambda>s. s\<lparr>s_last_seen_at := now, s_last_progress_at := Some now\<rparr>) d2))) (\<lambda>d3.
          Commit (Inr asg) d3)))"

definition AcceptTask ::
  "faults \<Rightarrow> gotime \<Rightarrow> (string \<Rightarrow> string) \<Rightarrow> string \<Rightarrow> string \<Rightarrow> agent_db \<Rightarrow> (error + AgentAssignment) \<times> agent_db" where
  "AcceptTask flt clock uuid sid task d0 =
     (if sid = '''' then (Inl (OtherError ''accept task: session_id is required''), d0)
      else if task = '''' then (Inl (OtherError ''accept task: task_id is required''), d0)
      else let now = truncate_second clock in
       run_tx flt (\<lambda>d.
        tx_bind (stmt flt ''accept load session''
          (case sql_row (\<lambda>s. s_session_id s = sid) (agent_sessions d) of
             None \<Rightarrow> Inl ErrAgentSessionNotFound | Some s \<Rightarrow> Inr s)) (\<lambda>s.
        if s_ended_at s \<noteq> None then Rollback (Inl ErrAgentSessionAlreadyEnded)
        else tx_bind (stmt flt ''check existing claim'' (Inr
            (sql_row (\<lambda>a. a_task_id a = task \<and> open_asg a) (agent_assignments d)))) (\<lambda>claim.
        case claim of
          Some x \<Rightarrow>
            if a_session_id x \<noteq> sid then Rollback (Inl ErrTaskAlreadyClaimed)
            else tx_bind (get_asg flt ''reload idempotent row'' (sql_row (\<lambda>a. a_id a = a_id x) (agent_assignments d)))
              (\<lambda>a. Rollback (Inr a))
        | None \<Rightarrow>
            tx_bind (stmt flt ''check prior'' (Inr
              (sql_row (\<lambda>a. a_session_id a = sid \<and> open_asg a \<and> a_task_id a \<noteq> task) (agent_assignments d)))) (\<lambda>prior.
            tx_bind (case prior of
                None \<Rightarrow> Inr d
              | Some p \<Rightarrow> stmt flt ''supersede prior'' (Inr (upd_assignments (\<lambda>a. a_id a = a_id p \<and> open_asg a)
                   (supersede_asg now (uuid ''assignment'')) d))) (\<lambda>d1.
            tx_bind (stmt flt ''check handoff'' (Inr (sql_first (sql_order_desc (\<lambda>a. the (a_ended_at a))
                (filter (\<lambda>a. a_task_id a = task \<and> \<not> open_asg a \<and> a_successor_session_id a \<noteq> '''')
                  (agent_assignments d1)))))) (\<lambda>nominee.
            if (case nominee of Some a \<Rightarrow> a_successor_session_id a \<noteq> sid | None \<Rightarrow> False)
            then Rollback (Inl ErrHandoffRestricted)
            else accept_insert flt clock now uuid sid (s_agent_id s) task d1)))))) d0)"

section \<open>Emitting an update\<close>

definition emit_update ::
  "gotime \<Rightarrow> string \<Rightarrow> int \<Rightarrow> int \<Rightarrow> assignment_row \<Rightarrow> assignment_row" where
  "emit_update now sub nextVersion deviationCount a =
     (let a1 = a\<lparr>a_state := assignmentStateFromSubstatus sub, a_substatus := sub,
            a_blocked_reason := blockedReasonFromSubstatus sub, a_version := nextVersion,
            a_last_emit_at := Some now, a_actual_substatus_last := sub, a_deviation_count := deviationCount\<rparr>
      in if sub \<in> set terminalAssignmentSubstatusSet
         then a1\<lparr>a_ended_at := Some now, a_end_reason := sub\<rparr> else a1)"

definition EmitAssignmentUpdate ::
  "faults \<Rightarrow> gotime \<Rightarrow> string \<Rightarrow> int \<Rightarrow> string \<Rightarrow> agent_db \<Rightarrow> (error + AgentAssignment) \<times> agent_db" where
  "EmitAssignmentUpdate flt clock aid currentVersion newSubstatus d0 =
     (let sub = normalizeAssignmentSubstatus newSubstatus; now = truncate_second clock;
          isTerminal = (sub \<in> set terminalAssignmentSubstatusSet) in
      case validateEmitSubstatusNormalized sub of
        Some e \<Rightarrow> (Inl e, d0)
      | None \<Rightarrow> run_tx flt (\<lambda>d.
          tx_bind (get_asg flt ''emit load row'' (sql_row (\<lambda>a. a_id a = aid) (agent_assignments d))) (\<lambda>asg.
          if a_ended_at asg \<noteq> None then Rollback (Inl ErrAssignmentEnded)
          else if a_version asg \<noteq> currentVersion then Rollback (Inl ErrVersionConflict)
          else tx_bind (stmt flt ''emit load deviation state''
              (case sql_row (\<lambda>a. a_id a = aid) (agent_assignments d) of
                 None \<Rightarrow> Inl ErrNoRows | Some r \<Rightarrow> Inr r)) (\<lambda>r.
          let dev = (if a_suggested_substatus_last r \<noteq> '''' \<and> a_suggested_substatus_last r \<noteq> sub
                     then a_deviation_count r + 1 else a_deviation_count r);
              P = (\<lambda>a. a_id a = aid \<and> a_version a = currentVersion);
              n = sql_affected P (agent_assignments d)
          in tx_bind (stmt flt ''emit update row'' (Inr (upd_assignments P
                (emit_update now sub (currentVersion + 1) dev) d))) (\<lambda>d1.
             if n = 0 then Rollback (Inl ErrVersionConflict)
             else if n \<noteq> 1 then Rollback (Inl (OtherError ''unexpected rows affected''))
             else tx_bind (if isTerminal
                 then appendAgentEventTx flt clock (a_session_id asg) (a_agent_id asg) ''assignment_substatus_updated''
                   [(''assignment_id'', JStr (a_id asg)), (''repo'', JStr (a_repo asg)),
                    (''branch'', JStr (a_branch asg)), (''from_substatus'', JStr (a_substatus asg)),
                    (''to_substatus'', JStr sub), (''end_reason'', JStr sub)] d1
                 else Inr d1) (\<lambda>d2.
             let out = asg\<lparr>a_state := assignmentStateFromSubstatus sub, a_substatus := sub,
                  a_blocked_reason := blockedReasonFromSubstatus sub, a_version := currentVersion + 1\<rparr>
             in Commit (Inr (if isTerminal then out\<lparr>a_ended_at := Some now, a_end_reason := sub\<rparr> else out)) d2))))) d0)"

section \<open>Operator actions\<close>

definition operator_target :: "string \<Rightarrow> (assignmentLifecycleState \<times> string \<times> string \<times> bool) option" where
  "operator_target action =
     (if action = ''pause'' then Some (assignmentStateBlocked, ''blocked_policy'', '''', False)
      else if action = ''resume'' then Some (assignmentStateActive, ''in_progress'', '''', False)
      else if action = ''abandon'' then Some (assignmentStateLost, ''terminal_stuck_abandoned'', ''operator_abandoned'', True)
      else if action = ''close'' then Some (assignmentStateCancelled, ''terminal_cancelled'', ''operator_closed'', True)
      else None)"

definition PerformAssignmentAction ::
  "fsm_lib \<Rightarrow> faults \<Rightarrow> gotime \<Rightarrow> string \<Rightarrow> string \<Rightarrow> agent_db \<Rightarrow> (error + unit) \<times> agent_db" where
  "PerformAssignmentAction lib flt now aid action0 =
     (let action = ToLower (TrimSpace action0) in
      run_tx flt (\<lambda>d.
        tx_bind (get_asg flt ''action load assignment'' (sql_row (\<lambda>a. a_id a = aid) (agent_assignments d))) (\<lambda>asg.
        if a_ended_at asg \<noteq> None then Rollback (Inl (OtherError ''assignment already ended''))
        else case operator_target action of
          None \<Rightarrow> Rollback (Inl (OtherError ''unknown action''))
        | Some (nextState, nextSub, endReason, isTerminal) \<Rightarrow>
           (case ValidateAssignmentStateTransition lib (a_state asg) nextState of
              Some e \<Rightarrow> Rollback (Inl e)
            | None \<Rightarrow>
               tx_bind (stmt flt ''action update'' (Inr (upd_assignments (\<lambda>a. a_id a = aid \<and> open_asg a)
                  (\<lambda>a. let a1 = a\<lparr>a_state := nextState, a_substatus := nextSub,
                          a_blocked_reason := blockedReasonFromSubstatus nextSub, a_version := a_version a + 1\<rparr>
                       in if isTerminal then a1\<lparr>a_ended_at := Some now, a_end_reason := endReason\<rparr> else a1) d))) (\<lambda>d1.
               tx_bind (appendAgentEventTx flt now (a_session_id asg) (a_agent_id asg) ''operator_action_applied''
                  [(''assignment_id'', JStr aid), (''action'', JStr action), (''from_state'', JStr (asg_state_str (a_state asg))),
                   (''to_state'', JStr (asg_state_str nextState)), (''next_substatus'', JStr nextSub)] d1) (\<lambda>d2.
               tx_bind (if isTerminal then clearAssignmentBranchOwnershipTx flt now asg d2 else Inr d2) (\<lambda>d3.
               Commit (Inr ()) d3)))))))"

section \<open>The session store\<close>

text \<open>\<open>internal/session/session.go\<close>: the argument checks and the translation of errors.\<close>

definition RegisterWithTmux ::
  "(string \<Rightarrow> bool) \<Rightarrow> faults \<Rightarrow> gotime \<Rightarrow> string \<Rightarrow> string \<Rightarrow> string \<Rightarrow> string \<Rightarrow> string \<Rightarrow>
   agent_db \<Rightarrow> (error + string) \<times> agent_db" where
  "RegisterWithTmux parse_uuid flt now uuid sid aid mode tmux d =
     (if sid = '''' then (Inl ErrMissingSessionID, d)
      else if aid = '''' then (Inl ErrMissingAgentID, d)
      else RegisterAgentSessionWithSecret parse_uuid flt now uuid sid aid mode tmux d)"

definition Register where
  "Register parse_uuid flt now uuid sid aid mode d = RegisterWithTmux parse_uuid flt now uuid sid aid mode '''' d"

definition session_error :: "error \<Rightarrow> error" where
  "session_error e =
     (if e = ErrAgentSessionNotFound \<or> e = ErrAgentSessionAlreadyEnded then ErrSessionNotFound
      else if e = ErrAgentSessionAgentMismatch then ErrSessionMismatch else e)"

definition Confirm :: "faults \<Rightarrow> string \<Rightarrow> string \<Rightarrow> agent_db \<Rightarrow> error + unit" where
  "Confirm flt sid aid d =
     (if sid = '''' then Inl ErrMissingSessionID
      else if aid = '''' then Inl ErrMissingAgentID
      else (case ConfirmAgentSession flt sid aid d of Inl e \<Rightarrow> Inl (session_error e) | Inr u \<Rightarrow> Inr u))"

definition lift_core :: "(db \<Rightarrow> (error + 'a) \<times> db) \<Rightarrow> agent_db \<Rightarrow> (error + 'a) \<times> agent_db" where
  "lift_core f d = (case f (core d) of (r, c) \<Rightarrow> (r, d\<lparr>core := c\<rparr>))"

definition Store_Heartbeat ::
  "faults \<Rightarrow> gotime \<Rightarrow> (string \<Rightarrow> string) \<Rightarrow> string \<Rightarrow> string \<Rightarrow> bool \<Rightarrow> agent_db \<Rightarrow> (error + unit) \<times> agent_db" where
  "Store_Heartbeat flt now uuid sid secret markProgress d =
     (if sid = '''' then (Inl ErrMissingSessionID, d)
      else case ValidateHeartbeatSecret flt sid secret d of
        Inl e \<Rightarrow> (Inl e, d)
      | Inr _ \<Rightarrow> (case UpdateAgentSessionHeartbeat flt now uuid sid markProgress d of
          (Inl e, d1) \<Rightarrow> (Inl e, d1)
        | (Inr _, d1) \<Rightarrow> (case GetActiveAgentAssignment flt sid d1 of
            Inl e \<Rightarrow> if e = ErrAgentAssignmentNotFound then (Inr (), d1) else (Inl e, d1)
          | Inr a \<Rightarrow>
              if a_repo a \<noteq> '''' \<and> a_branch a \<noteq> ''''
              then (case lift_core (UpdateSessionHeartbeat flt (truncate_second now) (a_repo a) (a_branch a)) d1 of
                  (Inl e, d2) \<Rightarrow> (Inl e, d2)
                | (Inr _, d2) \<Rightarrow>
                    (Inr (), snd (lift_core (UpdateOwnerAgent flt (truncate_second now) (a_repo a) (a_branch a) (a_agent_id a)) d2)))
              else (Inr (), d1))))"

definition HeartbeatWithStatus ::
  "faults \<Rightarrow> gotime \<Rightarrow> (string \<Rightarrow> string) \<Rightarrow> string \<Rightarrow> string \<Rightarrow> bool \<Rightarrow> string \<Rightarrow> agent_db \<Rightarrow> (error + unit) \<times> agent_db" where
  "HeartbeatWithStatus flt now uuid sid secret markProgress status d =
     (case Store_Heartbeat flt now uuid sid secret markProgress d of
        (Inl e, d1) \<Rightarrow> (Inl e, d1)
      | (Inr _, d1) \<Rightarrow>
          if status \<noteq> '''' \<and> NormalizeStatus status \<noteq> ''''
          then UpdateInferredStatus flt now sid (NormalizeStatus status) d1
          else (Inr (), d1))"

definition Store_Get ::
  "faults \<Rightarrow> string \<Rightarrow> string \<Rightarrow> agent_db \<Rightarrow> error + AgentSession \<times> AgentAssignment option" where
  "Store_Get flt sid aid d =
     (if sid = '''' then Inl ErrMissingSessionID
      else case GetAgentSession flt sid d of
        Inl e \<Rightarrow> Inl (if e = ErrAgentSessionNotFound then ErrSessionNotFound else e)
      | Inr s \<Rightarrow>
          if aid \<noteq> '''' \<and> s_agent_id s \<noteq> aid then Inl ErrSessionMismatch
          else (case GetActiveAgentAssignment flt sid d of
              Inl e \<Rightarrow> if e = ErrAgentAssignmentNotFound then Inr (s, None) else Inl e
            | Inr a \<Rightarrow> Inr (s, Some a)))"

definition AttachAssignment ::
  "(string \<Rightarrow> bool) \<Rightarrow> faults \<Rightarrow> gotime \<Rightarrow> (string \<Rightarrow> string) \<Rightarrow> string \<Rightarrow> string \<Rightarrow> string \<Rightarrow> string \<Rightarrow> string \<Rightarrow>
   string \<Rightarrow> string \<Rightarrow> string \<Rightarrow> agent_db \<Rightarrow> (error + unit) \<times> agent_db" where
  "AttachAssignment parse_uuid flt now uuid sid aid repo branch worktree mode task sub d =
     (if sid = '''' then (Inl ErrMissingSessionID, d)
      else if aid = '''' then (Inl ErrMissingAgentID, d)
      else if repo = '''' \<or> branch = '''' then (Inl ErrMissingAssignment, d)
      else sql_try flt ''check branch'' d
       (if sql_affected (at_branch repo branch) (branch_states (core d)) = 0 then (Inl ErrBranchNotFound, d)
        else (case RegisterAgentSession parse_uuid flt now (uuid ''secret'') sid aid mode '''' d of
            (Inl e, d1) \<Rightarrow> (Inl e, d1)
          | (Inr _, d1) \<Rightarrow>
             (case AttachAgentAssignment flt now uuid (Some (zero_assignment\<lparr>a_id := uuid ''assignment'',
                  a_session_id := sid, a_agent_id := aid, a_repo := repo, a_branch := branch, a_worktree := worktree,
                  a_task_id := task, a_substatus := sub\<rparr>)) d1 of
                (Inl e, d2) \<Rightarrow> (Inl e, d2)
              | (Inr _, d2) \<Rightarrow> sql_try flt ''sync branch state'' d2 (Inr (), upd_core (at_branch repo branch)
                   (\<lambda>b. b\<lparr>b_owner_session_id := sid, b_owner_session_last_seen := Some (truncate_second now),
                          b_owner_agent := aid, b_updated_at := truncate_second now\<rparr>) d2)))))"

definition Finalize ::
  "faults \<Rightarrow> gotime \<Rightarrow> (string \<Rightarrow> string) \<Rightarrow> string \<Rightarrow> string \<Rightarrow> AgentSessionCompletion \<Rightarrow> agent_db \<Rightarrow>
   (error + unit) \<times> agent_db" where
  "Finalize flt now uuid sid aid c d =
     (if sid = '''' then (Inl ErrMissingSessionID, d)
      else if aid = '''' then (Inl ErrMissingAgentID, d)
      else if co_status c = '''' then (Inl ErrMissingStatus, d)
      else (case FinalizeAgentSession flt now uuid sid aid c d of
          (Inl e, d') \<Rightarrow> (Inl (session_error e), d')
        | (Inr u, d') \<Rightarrow> (Inr u, d')))"

end
