(* ===== verification/Session_Inv.thy ===== *)
theory Session_Inv
  imports Sessions
begin

text \<open>
  What every sequence of session operations keeps. \<open>agent_step\<close> has one rule per writing
  operation, with any outcome; \<open>agent_write\<close> classifies the committed writes, and the proofs about
  all operations go through it. \<open>agent_inv\<close> is the invariant: keys are unique, a session has at
  most one live assignment, a task at most one live claim, and a live assignment a live session.
\<close>

section \<open>Results of transactions\<close>

lemma stmt_Inr [simp]: "stmt flt site r = Inr x \<longleftrightarrow> flt site = None \<and> r = Inr x"
  by (auto simp: stmt_def split: option.splits)

lemma stmt_no_faults [simp]: "stmt no_faults site r = r"
  by (simp add: stmt_def)

lemma and_then_Inr [simp]: "and_then r k = Inr y \<longleftrightarrow> (\<exists>x. r = Inr x \<and> k x = Inr y)"
  by (cases r) (auto simp: and_then_def)

lemma tx_bind_Commit [simp]: "tx_bind r k = Commit x d \<longleftrightarrow> (\<exists>y. r = Inr y \<and> k y = Commit x d)"
  by (cases r) (auto simp: tx_bind_def)

lemma tx_bind_Rollback [simp]: "tx_bind r k = Rollback (Inr x) \<longleftrightarrow> (\<exists>y. r = Inr y \<and> k y = Rollback (Inr x))"
  by (cases r) (auto simp: tx_bind_def)

lemma and_then_simps [simp]: "and_then (Inl e) k = Inl e" "and_then (Inr x) k = k x"
  by (simp_all add: and_then_def)
lemma tx_bind_simps [simp]: "tx_bind (Inl e) k = Rollback (Inl e)" "tx_bind (Inr x) k = k x"
  by (simp_all add: tx_bind_def)

text \<open>A transaction leaves the database as it was, or commits what its body computed.\<close>

lemma run_tx_cases:
  assumes "run_tx flt body d = (r, d')"
  shows "d' = d \<or> (body d = Commit r d' \<and> flt ''begin'' = None \<and> flt ''commit'' = None)"
  using assms by (auto simp: run_tx_def split: option.splits tx_result.splits)

lemma run_tx_result:
  assumes "run_tx flt body d = (r, d')" and "d' \<noteq> d \<or> (\<exists>x. r = Inr x)"
  shows "body d = Commit r d' \<or> (d' = d \<and> (\<exists>x. r = Inr x \<and> body d = Rollback (Inr x)))"
  using assms by (auto simp: run_tx_def split: option.splits tx_result.splits)
section \<open>The tables the invariant speaks about\<close>

definition tabs :: "agent_db \<Rightarrow> db \<times> session_row list \<times> assignment_row list \<times> rule_row list" where
  "tabs d = (core d, agent_sessions d, agent_assignments d, agent_rules d)"

lemma tabs_upd [simp]:
  "tabs (upd_sessions P f d) = (core d, sql_update P f (agent_sessions d), agent_assignments d, agent_rules d)"
  "tabs (upd_assignments Q g d) = (core d, agent_sessions d, sql_update Q g (agent_assignments d), agent_rules d)"
  "tabs (upd_core B h d) = (update_branches B h (core d), agent_sessions d, agent_assignments d, agent_rules d)"
  by (simp_all add: tabs_def upd_sessions_def upd_assignments_def upd_core_def)

lemma upd_sel [simp]:
  "agent_sessions (upd_sessions P f d) = sql_update P f (agent_sessions d)"
  "agent_assignments (upd_sessions P f d) = agent_assignments d"
  "core (upd_sessions P f d) = core d" "agent_rules (upd_sessions P f d) = agent_rules d"
  "agent_sessions (upd_assignments Q g d) = agent_sessions d"
  "agent_assignments (upd_assignments Q g d) = sql_update Q g (agent_assignments d)"
  "core (upd_assignments Q g d) = core d" "agent_rules (upd_assignments Q g d) = agent_rules d"
  "agent_sessions (upd_core B h d) = agent_sessions d" "agent_assignments (upd_core B h d) = agent_assignments d"
  "core (upd_core B h d) = update_branches B h (core d)" "agent_rules (upd_core B h d) = agent_rules d"
  "session_archives (upd_sessions P f d) = session_archives d"
  "session_archives (upd_assignments Q g d) = session_archives d"
  "session_archives (upd_core B h d) = session_archives d"
  "assignment_rule_checks (upd_sessions P f d) = assignment_rule_checks d"
  "assignment_rule_checks (upd_assignments Q g d) = assignment_rule_checks d"
  "assignment_rule_checks (upd_core B h d) = assignment_rule_checks d"
  by (simp_all add: upd_sessions_def upd_assignments_def upd_core_def)

lemma insert_check_tabs: "insert_check r d = Inr d' \<Longrightarrow> tabs d' = tabs d \<and> session_archives d' = session_archives d"
  by (auto simp: insert_check_def tabs_def split: if_splits)

lemma seed_checks_tabs:
  "seed_checks flt now uuid aid sid rules d = Inr d' \<Longrightarrow> tabs d' = tabs d \<and> session_archives d' = session_archives d"
  by (induction flt now uuid aid sid rules d rule: seed_checks.induct) (auto dest!: insert_check_tabs)

lemma seed_tabs:
  "seedPendingAssignmentRuleChecksTx flt now uuid aid sid d = Inr d' \<Longrightarrow>
   tabs d' = tabs d \<and> session_archives d' = session_archives d"
  by (auto simp: seedPendingAssignmentRuleChecksTx_def dest: seed_checks_tabs)

lemma record_tabs:
  "recordAssignmentRuleCheckTx flt now uuid aid sid rule result v detail by' d = Inr d' \<Longrightarrow>
   tabs d' = tabs d \<and> session_archives d' = session_archives d"
  by (auto simp: recordAssignmentRuleCheckTx_def Let_def tabs_def split: if_splits dest!: insert_check_tabs)

lemma verdict_tabs:
  "record_verdict flt now uuid aid sid rule pass detail d = Inr d' \<Longrightarrow>
   tabs d' = tabs d \<and> session_archives d' = session_archives d"
  unfolding record_verdict_def by (rule record_tabs)

lemma hold_tabs:
  "(case e of (pass, x, detail) \<Rightarrow> record_verdict flt now uuid aid sid rule pass detail d) = Inr d' \<Longrightarrow>
   tabs d' = tabs d \<and> session_archives d' = session_archives d"
  by (auto split: prod.splits dest: verdict_tabs)

lemma insert_event_tabs:
  "insert_event now sid aid ty pl d = Inr d' \<Longrightarrow> tabs d' = tabs d \<and> session_archives d' = session_archives d"
  by (auto simp: insert_event_def tabs_def split: if_splits)
lemma append_event_tabs:
  "appendAgentEventTx flt now sid aid ty pl d = Inr d' \<Longrightarrow> tabs d' = tabs d \<and> session_archives d' = session_archives d"
  by (auto simp: appendAgentEventTx_def dest: insert_event_tabs)

lemma archive_tabs:
  "archiveSessionTx flt clock uuid sid result sha task now d = Inr d' \<Longrightarrow> tabs d' = tabs d"
  by (auto simp: archiveSessionTx_def writeSessionArchiveTx_def Let_def tabs_def split: if_splits)

text \<open>Releasing ownership is a write of the branch repository that keeps keys and states.\<close>

lemma clear_ownership_tabs:
  assumes "clearAssignmentBranchOwnershipTx flt now a d = Inr d'"
  shows "branch_write (core d) (core d') \<and> tabs d' = (core d', agent_sessions d, agent_assignments d, agent_rules d) \<and>
    session_archives d' = session_archives d"
proof (cases "a_repo a = '''' \<or> a_branch a = ''''")
  case False
  then show ?thesis
    using assms by (auto simp: clearAssignmentBranchOwnershipTx_def intro!: fields simp: branch_frame_def branch_key_def)
qed (use assms in \<open>auto simp: clearAssignmentBranchOwnershipTx_def tabs_def\<close>)

lemmas tabs_rules = seed_tabs record_tabs verdict_tabs insert_event_tabs append_event_tabs archive_tabs

section \<open>Writes\<close>

definition session_le :: "session_row \<Rightarrow> session_row \<Rightarrow> bool" where
  "session_le s s' \<longleftrightarrow> s_session_id s' = s_session_id s \<and>
     (s_heartbeat_secret s \<noteq> '''' \<longrightarrow> s_heartbeat_secret s' = s_heartbeat_secret s) \<and>
     (s_inferred_status s = ''waiting_for_input'' \<longrightarrow> s_inferred_status s' = ''waiting_for_input'') \<and>
     s_output_bytes s \<le> s_output_bytes s' \<and> s_compact_count s \<le> s_compact_count s'"

definition asg_le :: "assignment_row \<Rightarrow> assignment_row \<Rightarrow> bool" where
  "asg_le a a' \<longleftrightarrow> a_id a' = a_id a \<and> a_session_id a' = a_session_id a \<and>
     (a' = a \<or> (open_asg a \<and> a_version a < a_version a'))"

inductive agent_write :: "agent_db \<Rightarrow> agent_db \<Rightarrow> bool" where
  rows: "tabs d' = (c', map h (agent_sessions d), map g (agent_assignments d), agent_rules d) \<Longrightarrow>
     branch_write (core d) c' \<Longrightarrow>
     (\<forall>s\<in>set (agent_sessions d). session_le s (h s)) \<Longrightarrow>
     (\<forall>a\<in>set (agent_assignments d). asg_le a (g a)) \<Longrightarrow>
     (\<forall>a\<in>set (agent_assignments d). \<forall>s\<in>set (agent_sessions d).
        open_asg (g a) \<and> s_session_id s = a_session_id a \<and> open_session s \<longrightarrow> open_session (h s)) \<Longrightarrow>
     (live_tasks_unique (agent_assignments d) \<Longrightarrow> live_tasks_unique (agent_assignments d')) \<Longrightarrow>
     agent_write d d'"
| new_session: "tabs d' = (core d, agent_sessions d @ [s], agent_assignments d, agent_rules d) \<Longrightarrow>
     s_session_id s \<notin> s_session_id ` set (agent_sessions d) \<Longrightarrow> open_session s \<Longrightarrow> agent_write d d'"
| claim: "tabs d' = (core d, agent_sessions d, agent_assignments d @ [a], agent_rules d) \<Longrightarrow>
     insert_assignment a d = Inr d'' \<Longrightarrow> a_version a = 1 \<Longrightarrow>
     (\<exists>s\<in>set (agent_sessions d). s_session_id s = a_session_id a \<and> open_session s) \<Longrightarrow>
     (\<forall>x\<in>set (agent_assignments d). a_session_id x = a_session_id a \<longrightarrow> \<not> open_asg x) \<Longrightarrow> agent_write d d'"

lemma asg_le_refl [simp]: "asg_le a a"
  by (simp add: asg_le_def)

lemma session_le_refl [simp]: "session_le s s"
  by (simp add: session_le_def)

text \<open>Closing rows, and updates that keep the task, keep the live claims unique.\<close>

lemma live_tasks_shrink:
  assumes "\<And>a. a \<in> set rows \<Longrightarrow> a_task_id (g a) = a_task_id a" and "\<And>a. a \<in> set rows \<Longrightarrow> open_asg (g a) \<Longrightarrow> open_asg a"
    and "live_tasks_unique rows"
  shows "live_tasks_unique (map g rows)"
  using assms
proof (induction rows)
  case (Cons a rows)
  then have IH: "live_tasks_unique (map g rows)"
    by (auto simp: live_tasks_unique_def split: if_splits)
  have "a_task_id (g a) \<notin> set (map a_task_id (filter (\<lambda>x. open_asg x \<and> a_task_id x \<noteq> '''') (map g rows)))"
    if "open_asg (g a)" "a_task_id (g a) \<noteq> ''''"
    using Cons.prems that by (fastforce simp: live_tasks_unique_def split: if_splits)
  then show ?case
    using IH by (auto simp: live_tasks_unique_def)
qed (simp add: live_tasks_unique_def)

text \<open>The common cases of the first rule.\<close>

lemma write_aux: "tabs d' = tabs d \<Longrightarrow> agent_write d d'"
  by (rule rows [of _ "core d" "\<lambda>s. s" _ "\<lambda>a. a"]) (auto simp: tabs_def)

lemma write_core: "tabs d' = (core d', agent_sessions d, agent_assignments d, agent_rules d) \<Longrightarrow>
    branch_write (core d) (core d') \<Longrightarrow> agent_write d d'"
  by (rule rows [of _ "core d'" "\<lambda>s. s" _ "\<lambda>a. a"]) (auto simp: tabs_def)

lemma write_sessions:
  assumes "\<And>s. P s \<Longrightarrow> session_le s (f s)" and "\<And>s. P s \<Longrightarrow> open_session s \<Longrightarrow> open_session (f s)"
  shows "agent_write d (upd_sessions P f d)"
  using assms by (intro rows [of _ "core d" "\<lambda>s. if P s then f s else s" _ "\<lambda>a. a"]) (auto simp: sql_update_def)

lemma write_assignments:
  assumes "\<And>a. P a \<Longrightarrow> asg_le a (f a)" and "\<And>a. P a \<Longrightarrow> a_task_id (f a) = a_task_id a"
    and "\<And>a. P a \<Longrightarrow> open_asg a"
  shows "agent_write d (upd_assignments P f d)"
proof (rule rows [of _ "core d" "\<lambda>s. s" _ "\<lambda>a. if P a then f a else a"])
  assume "live_tasks_unique (agent_assignments d)"
  then show "live_tasks_unique (agent_assignments (upd_assignments P f d))"
    using live_tasks_shrink [of "agent_assignments d" "\<lambda>a. if P a then f a else a"] assms(2,3)
    by (auto simp: sql_update_def split: if_splits)
qed (use assms in \<open>auto simp: sql_update_def\<close>)

lemma write_close:
  assumes "tabs d' = (core d, sql_update (open_with_id sid) (close_session now reason) (agent_sessions d),
      sql_update P (close_asg now reason st br sub) (agent_assignments d), agent_rules d)"
    and "\<And>a. P a \<Longrightarrow> open_asg a"
    and "\<And>a. a \<in> set (agent_assignments d) \<Longrightarrow> a_session_id a = sid \<Longrightarrow> open_asg a \<Longrightarrow> P a"
  shows "agent_write d d'"
proof (rule rows [of _ "core d" "\<lambda>s. if open_with_id sid s then close_session now reason s else s" _
      "\<lambda>a. if P a then close_asg now reason st br sub a else a"])
  assume "live_tasks_unique (agent_assignments d)"
  then show "live_tasks_unique (agent_assignments d')"
    using live_tasks_shrink [of "agent_assignments d" "\<lambda>a. if P a then close_asg now reason st br sub a else a"] assms(1,2)
    by (auto simp: tabs_def sql_update_def close_asg_def split: if_splits)
qed (use assms in \<open>auto simp: sql_update_def open_with_id_def close_session_def close_asg_def session_le_def
     asg_le_def open_asg_def split: if_splits\<close>)

section \<open>The invariant\<close>

definition agent_inv :: "agent_db \<Rightarrow> bool" where
  "agent_inv d \<longleftrightarrow> branch_inv (core d) \<and>
     distinct (map s_session_id (agent_sessions d)) \<and> distinct (map a_id (agent_assignments d)) \<and>
     (\<forall>a\<in>set (agent_assignments d). \<forall>b\<in>set (agent_assignments d).
        open_asg a \<and> open_asg b \<and> a_session_id a = a_session_id b \<longrightarrow> a = b) \<and>
     live_tasks_unique (agent_assignments d) \<and>
     (\<forall>a\<in>set (agent_assignments d). open_asg a \<longrightarrow>
        (\<exists>s\<in>set (agent_sessions d). s_session_id s = a_session_id a \<and> open_session s)) \<and>
     (\<forall>a\<in>set (agent_assignments d). 1 \<le> a_version a) \<and>
     agent_rules d = seeded_rules"

lemma agent_inv_empty [simp]: "agent_inv empty_agent_db"
  by (simp add: agent_inv_def empty_agent_db_def live_tasks_unique_def)

lemma asg_le_open: "asg_le a a' \<Longrightarrow> open_asg a' \<Longrightarrow> open_asg a"
  by (auto simp: asg_le_def)

lemma agent_write_inv: "agent_write d d' \<Longrightarrow> agent_inv d \<Longrightarrow> agent_inv d'"
proof (induction rule: agent_write.induct)
  case (rows d' c' h d g)
  have t: "core d' = c'" "agent_sessions d' = map h (agent_sessions d)"
    "agent_assignments d' = map g (agent_assignments d)" "agent_rules d' = agent_rules d"
    using rows(1) by (auto simp: tabs_def)
  have "map s_session_id (agent_sessions d') = map s_session_id (agent_sessions d)"
    "map a_id (agent_assignments d') = map a_id (agent_assignments d)"
    using rows(3,4) t by (auto simp: session_le_def asg_le_def)
  then have ids: "distinct (map s_session_id (agent_sessions d'))" "distinct (map a_id (agent_assignments d'))"
    using rows(7) by (simp_all add: agent_inv_def)
  have one: "g a = g b" if "a \<in> set (agent_assignments d)" "b \<in> set (agent_assignments d)"
    "open_asg (g a)" "open_asg (g b)" "a_session_id (g a) = a_session_id (g b)" for a b
  proof -
    have "open_asg a" "open_asg b" "a_session_id a = a_session_id b"
      using that rows(4) asg_le_open [of a "g a"] asg_le_open [of b "g b"] by (auto simp: asg_le_def)
    then have "a = b" using that(1,2) rows(7) by (auto simp: agent_inv_def)
    then show ?thesis by simp
  qed
  have live: "\<exists>s\<in>set (agent_sessions d'). s_session_id s = a_session_id (g a) \<and> open_session s"
    if a: "a \<in> set (agent_assignments d)" "open_asg (g a)" for a
  proof -
    have "open_asg a" using a rows(4) asg_le_open by blast
    then obtain s where s: "s \<in> set (agent_sessions d)" "s_session_id s = a_session_id a" "open_session s"
      using a(1) rows(7) by (auto simp: agent_inv_def)
    then have "open_session (h s)" using rows(5) a by blast
    moreover have "s_session_id (h s) = a_session_id (g a)"
      using s rows(3,4) a(1) by (auto simp: session_le_def asg_le_def)
    ultimately show ?thesis using s(1) t(2) by auto
  qed
  have ver: "1 \<le> a_version (g a)" if "a \<in> set (agent_assignments d)" for a
    using that rows(4,7) by (fastforce simp: agent_inv_def asg_le_def)
  have "live_tasks_unique (agent_assignments d')" "branch_inv c'"
    using rows(2,6,7) branch_write_inv by (auto simp: agent_inv_def)
  then show ?case
    using rows(7) ids one live ver t(1,4) unfolding agent_inv_def t(3) by auto
next
  case (new_session d' d s)
  then show ?case by (auto simp: agent_inv_def tabs_def)
next
  case (claim d' d a d'')
  then show ?case
    by (auto simp: agent_inv_def tabs_def insert_assignment_def split: if_splits)
qed

lemma agent_writes_inv: "agent_write\<^sup>*\<^sup>* d d' \<Longrightarrow> agent_inv d \<Longrightarrow> agent_inv d'"
  by (induction rule: rtranclp_induct) (auto intro: agent_write_inv)

section \<open>The writes of each operation\<close>

lemma latest_asg_Some: "latest_asg P d = Some a \<Longrightarrow> a \<in> set (agent_assignments d) \<and> P a"
  by (auto simp: latest_asg_def dest!: sql_first_Some)

lemma latest_asg_None: "latest_asg P d = None \<longleftrightarrow> (\<forall>a\<in>set (agent_assignments d). \<not> P a)"
  unfolding latest_asg_def sql_first_None by (metis filter_False filter_empty_conv set_sql_order_desc empty_set set_empty)

lemma exec_sessions_write:
  assumes "exec_sessions flt site P f d = (r, d')"
    and "\<And>s. P s \<Longrightarrow> session_le s (f s)" and "\<And>s. P s \<Longrightarrow> open_session s \<Longrightarrow> open_session (f s)"
  shows "agent_write d d'"
  using assms(1) write_sessions [OF assms(2,3)] write_aux [of d d]
  by (auto simp: exec_sessions_def split: sql_try_splits)

lemma UpdateInferredStatus_write: "UpdateInferredStatus flt now sid st d = (r, d') \<Longrightarrow> agent_write d d'"
  by (auto simp: UpdateInferredStatus_def Let_def session_le_def open_session_def StatusPrecedence_def
      intro: write_aux split: if_splits elim!: exec_sessions_write)

lemma session_fields_write:
  "UpdateSessionRepoBranch flt sid repo branch d = (r, d') \<Longrightarrow> agent_write d d'"
  "UpdateSessionRuntimeAttribution flt sid source d = (r, d') \<Longrightarrow> agent_write d d'"
  "MarkSessionRecovered flt now sid t d = (r, d') \<Longrightarrow> agent_write d d'"
  "UpdateSessionOutputBytes flt sid n d = (r, d') \<Longrightarrow> agent_write d d'"
  "SetContextPressure flt sid level d = (r, d') \<Longrightarrow> agent_write d d'"
  "RecordCompact flt now sid d = (r, d') \<Longrightarrow> agent_write d d'"
  "TransitionIdleSessions flt now t d = (r, d') \<Longrightarrow> agent_write d d'"
  by (auto simp: UpdateSessionRepoBranch_def UpdateSessionRuntimeAttribution_def MarkSessionRecovered_def
      UpdateSessionOutputBytes_def SetContextPressure_def RecordCompact_def TransitionIdleSessions_def Let_def
      session_le_def open_session_def intro: write_aux split: if_splits elim!: exec_sessions_write)

lemma MarkSessionRecoveredWithLastSeen_write:
  "MarkSessionRecoveredWithLastSeen flt now sid t u d = (r, d') \<Longrightarrow> agent_write d d'"
  by (auto simp: MarkSessionRecoveredWithLastSeen_def Let_def session_le_def open_session_def dest!: run_tx_cases
      intro: write_aux intro!: write_sessions)

lemma RecordActivitySample_write: "RecordActivitySample flt now sid c d = (r, d') \<Longrightarrow> agent_write d d'"
  by (auto simp: RecordActivitySample_def Let_def tabs_def split: sql_try_splits if_splits intro!: write_aux)

lemma AppendAgentEvent_write: "AppendAgentEvent flt now sid aid ty pl d = (r, d') \<Longrightarrow> agent_write d d'"
  by (auto simp: AppendAgentEvent_def split: sum.splits dest!: insert_event_tabs intro!: write_aux)

lemma ArchiveSession_write: "ArchiveSession flt now uuid sid result sha d = (r, d') \<Longrightarrow> agent_write d d'"
  by (auto simp: ArchiveSession_def dest!: run_tx_cases archive_tabs intro!: write_aux)

lemma upsert_session_write: "agent_write d (upsert_session now sid aid mode tmux secret d)"
proof (cases "sid \<in> s_session_id ` set (agent_sessions d)")
  case True
  then show ?thesis
    by (auto simp: upsert_session_def session_le_def open_session_def intro!: write_sessions)
next
  case False
  then show ?thesis
    by (intro new_session [of _ _ "new_session now sid aid mode tmux secret"])
       (auto simp: upsert_session_def tabs_def new_session_def open_session_def)
qed

lemma Register_write:
  assumes "RegisterAgentSessionWithSecret pu flt now uuid sid aid mode tmux d = (r, d')"
  shows "agent_write\<^sup>*\<^sup>* d d'"
proof (cases "d' = d")
  case False
  then obtain secret where
    i: "insert_event now sid aid ''session_registered'' (PayloadJSON [(''mode'', JStr mode)])
          (upsert_session now sid aid mode tmux secret d) = Inr d'"
    using run_tx_cases [OF assms [unfolded RegisterAgentSessionWithSecret_def]]
    by (auto simp: Let_def split: if_splits)
  have "agent_write (upsert_session now sid aid mode tmux secret d) d'"
    using insert_event_tabs [OF i] by (intro write_aux) simp
  then show ?thesis
    using upsert_session_write by (meson converse_rtranclp_into_rtranclp rtranclp.rtrancl_refl)
qed simp

lemma RegisterAgentSession_write:
  "RegisterAgentSession pu flt now uuid sid aid mode tmux d = (r, d') \<Longrightarrow> agent_write\<^sup>*\<^sup>* d d'"
  by (auto simp: RegisterAgentSession_def split: prod.splits sum.splits dest: Register_write)

lemma Heartbeat_write:
  assumes "UpdateAgentSessionHeartbeat flt clock uuid sid mark d = (r, d')"
  shows "agent_write d d'"
proof (cases "d' = d")
  case True
  then show ?thesis by (simp add: write_aux)
next
  case False
  let ?f = "\<lambda>s. if mark then s\<lparr>s_last_seen_at := truncate_second clock, s_last_io_at := Some (truncate_second clock),
       s_last_progress_at := Some (truncate_second clock)\<rparr> else s\<lparr>s_last_seen_at := truncate_second clock\<rparr>"
  have "tabs d' = tabs (upd_sessions (open_with_id sid) ?f d)"
    using run_tx_cases [OF assms [unfolded UpdateAgentSessionHeartbeat_def Let_def]] False
    by (auto simp: Let_def simp del: tabs_upd split: if_splits option.splits prod.splits dest!: verdict_tabs)
  then show ?thesis
    by (intro rows [of _ "core d" "\<lambda>s. if open_with_id sid s then ?f s else s" _ "\<lambda>a. a"])
       (auto simp: sql_update_def session_le_def open_session_def tabs_def)
qed

lemma scan_sel [simp]:
  "a_id (scanAgentAssignment a) = a_id a" "a_session_id (scanAgentAssignment a) = a_session_id a"
  "a_repo (scanAgentAssignment a) = a_repo a" "a_branch (scanAgentAssignment a) = a_branch a"
  "a_task_id (scanAgentAssignment a) = a_task_id a" "a_state (scanAgentAssignment a) = a_state a"
  "a_substatus (scanAgentAssignment a) = a_substatus a" "a_version (scanAgentAssignment a) = a_version a"
  "a_ended_at (scanAgentAssignment a) = a_ended_at a" "a_agent_id (scanAgentAssignment a) = a_agent_id a"
  "a_started_at (scanAgentAssignment a) = a_started_at a"
  "s_session_id (scanAgentSession s) = s_session_id s" "s_ended_at (scanAgentSession s) = s_ended_at s"
  "s_agent_id (scanAgentSession s) = s_agent_id s" "s_last_seen_at (scanAgentSession s) = s_last_seen_at s"
  "s_last_progress_at (scanAgentSession s) = s_last_progress_at s" "s_started_at (scanAgentSession s) = s_started_at s"
  by (simp_all add: scanAgentAssignment_def scanAgentSession_def AgentAssignment.truncate_def AgentSession.truncate_def)

text \<open>Closing a session with all its live assignments, and then releasing the branch.\<close>

lemma close_writes:
  assumes "tabs d1 = (core d, sql_update (open_with_id sid) (close_session now reason) (agent_sessions d),
      sql_update P (close_asg now reason st br sub) (agent_assignments d), agent_rules d)"
    and "\<And>a. P a \<Longrightarrow> open_asg a"
    and "\<And>a. a \<in> set (agent_assignments d) \<Longrightarrow> a_session_id a = sid \<Longrightarrow> open_asg a \<Longrightarrow> P a"
    and "branch_write (core d1) (core d')"
    and "tabs d' = (core d', agent_sessions d1, agent_assignments d1, agent_rules d1)"
  shows "agent_write\<^sup>*\<^sup>* d d'"
proof -
  have "agent_write d d1" by (rule write_close [OF assms(1,2,3)])
  moreover have "agent_write d1 d'" using assms(4,5) by (intro write_core) auto
  ultimately show ?thesis by (meson converse_rtranclp_into_rtranclp rtranclp.rtrancl_refl)
qed

lemma Expire_write:
  assumes "ExpireAgentSession flt clock uuid sid reason d = (r, d')"
  shows "agent_write\<^sup>*\<^sup>* d d'"
proof (cases "d' = d")
  case False
  define rs where "rs = (if reason = '''' then ''expired'' else reason)"
  define sub where "sub = (if rs = ''stuck_abandoned'' then ''terminal_stuck_abandoned'' else ''terminal_lost'')"
  let ?now = "truncate_second clock" and ?P = "\<lambda>a. a_session_id a = sid \<and> open_asg a"
  let ?d1 = "upd_sessions (open_with_id sid) (close_session ?now rs) d"
    and ?U = "upd_assignments ?P (close_asg ?now rs assignmentStateLost '''' sub)"
  obtain ctx :: "(AgentSession \<times> AgentAssignment) option" and d2 d4 d5 where
    raw: "(case ctx of None \<Rightarrow> Inr ?d1
            | Some (s, a) \<Rightarrow> recordAssignmentRuleCheckTx flt clock uuid (a_id a) sid ''RULE-004'' ''fail'' True
                (expire_detail rs (r4_detail (evaluateRule004HeartbeatProgress ?now (Some s) (Some a)))) '''' ?d1) = Inr d2"
      "(case ctx of None \<Rightarrow> Inr (?U d2) | Some (s, a) \<Rightarrow> clearAssignmentBranchOwnershipTx flt clock a (?U d2)) = Inr d4"
      "(case sql_row (\<lambda>s. s_session_id s = sid) (agent_sessions d4) of None \<Rightarrow> Inr d4
         | Some s \<Rightarrow> insert_event clock sid (s_agent_id s) ''session_expired'' (PayloadJSON [(''reason'', JStr rs)]) d4) = Inr d5"
      "archiveSessionTx flt clock uuid sid rs '''' '''' ?now d5 = Inr d'"
    using run_tx_cases [OF assms [unfolded ExpireAgentSession_def Let_def]] False
    unfolding rs_def [symmetric] sub_def [symmetric]
    by (auto split: if_splits)
  define d3 where "d3 = ?U d2"
  have d2: "tabs d2 = tabs ?d1"
    using raw(1) by (auto simp del: tabs_upd split: option.splits prod.splits dest: record_tabs)
  note d3 = d3_def
  have d4: "d4 = d3 \<or> (\<exists>a. clearAssignmentBranchOwnershipTx flt clock a d3 = Inr d4)"
    using raw(2) unfolding d3_def by (auto split: option.splits prod.splits)
  have d': "tabs d' = tabs d4"
    using raw(3) archive_tabs [OF raw(4)] by (auto split: option.splits dest: insert_event_tabs)
  have c: "branch_write (core d3) (core d4) \<and> tabs d4 = (core d4, agent_sessions d3, agent_assignments d3, agent_rules d3)"
    using d4 clear_ownership_tabs by (auto simp: tabs_def)
  show ?thesis
  proof (rule close_writes)
    show "tabs d3 = (core d, sql_update (open_with_id sid) (close_session ?now rs) (agent_sessions d),
      sql_update ?P (close_asg ?now rs assignmentStateLost '''' sub) (agent_assignments d), agent_rules d)"
      using d2 d3 by (auto simp: tabs_def)
    show "branch_write (core d3) (core d')" "tabs d' = (core d', agent_sessions d3, agent_assignments d3, agent_rules d3)"
      using c d' by (auto simp: tabs_def)
  qed auto
qed simp

lemma bex_sql_update: "(\<exists>x\<in>set (sql_update P f rows). Q x) \<longleftrightarrow> (\<exists>x\<in>set rows. Q (if P x then f x else x))"
  unfolding set_sql_update by blast
lemma new_assignment_sel [simp]:
  "a_id (new_assignment a) = a_id a" "a_session_id (new_assignment a) = a_session_id a"
  "a_task_id (new_assignment a) = a_task_id a" "a_version (new_assignment a) = 1"
  "a_ended_at (new_assignment a) = None" "a_state (new_assignment a) = a_state a"
  "a_substatus (new_assignment a) = a_substatus a" "a_repo (new_assignment a) = a_repo a"
  "a_branch (new_assignment a) = a_branch a"
  by (simp_all add: new_assignment_def AgentAssignment.extend_def assignment_row.fields_def)

lemma insert_assignment_tabs:
  "insert_assignment a d = Inr d' \<Longrightarrow> tabs d' = (core d, agent_sessions d, agent_assignments d @ [a], agent_rules d) \<and>
     session_archives d' = session_archives d"
  by (auto simp: insert_assignment_def tabs_def split: if_splits)

lemma supersede_le: "open_asg a \<Longrightarrow> asg_le a (supersede_asg now by' a) \<and>
    a_task_id (supersede_asg now by' a) = a_task_id a \<and> \<not> open_asg (supersede_asg now by' a)"
  by (simp add: supersede_asg_def close_asg_def asg_le_def open_asg_def)

text \<open>The session is live, its live assignments are superseded, and the new one is inserted.\<close>

lemma supersede_insert_writes:
  assumes "\<exists>s\<in>set (agent_sessions d). s_session_id s = a_session_id a \<and> open_session s"
    and "\<And>x. P x \<Longrightarrow> open_asg x"
    and "\<And>x. x \<in> set (agent_assignments d) \<Longrightarrow> a_session_id x = a_session_id a \<Longrightarrow> open_asg x \<Longrightarrow> P x"
    and "insert_assignment (new_assignment a) (upd_assignments P (supersede_asg now by') d) = Inr d1"
  shows "agent_write\<^sup>*\<^sup>* d d1"
proof -
  let ?d = "upd_assignments P (supersede_asg now by') d"
  have "agent_write d ?d" using assms(2) supersede_le by (intro write_assignments) auto
  moreover have "agent_write ?d d1"
  proof (rule claim)
    show "tabs d1 = (core ?d, agent_sessions ?d, agent_assignments ?d @ [new_assignment a], agent_rules ?d)"
      using insert_assignment_tabs [OF assms(4)] by simp
    show "\<forall>x\<in>set (agent_assignments ?d). a_session_id x = a_session_id (new_assignment a) \<longrightarrow> \<not> open_asg x"
      using assms(2,3) supersede_le by (fastforce simp: set_sql_update asg_le_def)
  qed (use assms in auto)
  ultimately show ?thesis by (meson converse_rtranclp_into_rtranclp rtranclp.rtrancl_refl)
qed

lemma touch_write:
  "agent_write d (upd_sessions P (\<lambda>s. s\<lparr>s_last_seen_at := t, s_last_progress_at := u\<rparr>) d)"
  by (rule write_sessions) (auto simp: session_le_def open_session_def)

lemma Attach_cases:
  assumes "AttachAgentAssignment flt clock uuid arg d = (r, d')" and "d' \<noteq> d"
  obtains asg0 asg where "arg = Some asg0" and "a_session_id asg = a_session_id asg0"
    and "sql_affected (open_with_id (a_session_id asg)) (agent_sessions d) \<noteq> 0"
    and "d' = upd_sessions (open_with_id (a_session_id asg)) (\<lambda>s. s\<lparr>s_last_seen_at := truncate_second clock, s_last_progress_at := Some (truncate_second clock)\<rparr>) d \<or>
     (\<exists>d3. insert_assignment (new_assignment asg)
        (upd_assignments (\<lambda>a. a_session_id a = a_session_id asg \<and> open_asg a) (supersede_asg (truncate_second clock) (a_id asg))
          (upd_sessions (open_with_id (a_session_id asg)) (\<lambda>s. s\<lparr>s_last_seen_at := truncate_second clock, s_last_progress_at := Some (truncate_second clock)\<rparr>) d)) = Inr d3 \<and>
        tabs d' = tabs d3)"
proof (cases arg)
  case None
  then show ?thesis using assms by (auto simp: AttachAgentAssignment_def)
next
  case (Some asg0)
  let ?now = "truncate_second clock"
  obtain sub where sub: "validateAttachAssignmentSubstatus (a_substatus asg0) = Inr sub"
    using assms Some by (auto simp: AttachAgentAssignment_def split: sum.splits)
  define asg where "asg = asg0\<lparr>a_substatus := sub, a_state := assignmentStateActive, a_blocked_reason := '''',
      a_started_at := (if a_started_at asg0 = zero_time then ?now else a_started_at asg0)\<rparr>"
  note run = run_tx_cases [OF assms(1) [unfolded AttachAgentAssignment_def Some option.case sub sum.case Let_def
        asg_def [symmetric]]]
  show ?thesis
    by (rule that [of asg0 asg])
       (use Some run assms(2) in \<open>auto simp del: tabs_upd simp: asg_def [THEN arg_cong [where f = a_session_id]] split: if_splits option.splits
        dest!: seed_tabs record_tabs hold_tabs insert_event_tabs\<close>)
qed

lemma Attach_write:
  assumes "AttachAgentAssignment flt clock uuid arg d = (r, d')"
  shows "agent_write\<^sup>*\<^sup>* d d'"
proof (cases "d' = d")
  case False
  let ?now = "truncate_second clock"
  let ?T = "\<lambda>sid. upd_sessions (open_with_id sid) (\<lambda>s. s\<lparr>s_last_seen_at := ?now, s_last_progress_at := Some ?now\<rparr>) d"
  obtain asg0 asg where "arg = Some asg0" "a_session_id asg = a_session_id asg0"
    and sess: "sql_affected (open_with_id (a_session_id asg)) (agent_sessions d) \<noteq> 0"
    and alt: "d' = ?T (a_session_id asg) \<or>
     (\<exists>d3. insert_assignment (new_assignment asg)
        (upd_assignments (\<lambda>a. a_session_id a = a_session_id asg \<and> open_asg a) (supersede_asg ?now (a_id asg))
          (?T (a_session_id asg))) = Inr d3 \<and> tabs d' = tabs d3)"
    using assms False by (rule Attach_cases)
  let ?sid = "a_session_id asg"
  have live: "\<exists>s\<in>set (agent_sessions (?T ?sid)). s_session_id s = ?sid \<and> open_session s"
  proof -
    obtain s where "s \<in> set (agent_sessions d)" "open_with_id ?sid s" using sess by auto
    then show ?thesis
      unfolding upd_sel bex_sql_update by (auto simp: open_with_id_def open_session_def intro!: bexI [of _ s])
  qed
  from alt show ?thesis
  proof
    assume "d' = ?T ?sid"
    then show ?thesis using touch_write by (simp add: r_into_rtranclp)
  next
    assume "\<exists>d3. insert_assignment (new_assignment asg)
        (upd_assignments (\<lambda>a. a_session_id a = ?sid \<and> open_asg a) (supersede_asg ?now (a_id asg)) (?T ?sid)) = Inr d3 \<and>
        tabs d' = tabs d3"
    then obtain d3 where d3: "insert_assignment (new_assignment asg)
        (upd_assignments (\<lambda>a. a_session_id a = ?sid \<and> open_asg a) (supersede_asg ?now (a_id asg)) (?T ?sid)) = Inr d3"
      "tabs d' = tabs d3" by blast
    have "agent_write d (?T ?sid)" by (rule touch_write)
    moreover have "agent_write\<^sup>*\<^sup>* (?T ?sid) d3" by (rule supersede_insert_writes [OF live _ _ d3(1)]) auto
    moreover have "agent_write d3 d'" using d3(2) by (rule write_aux)
    ultimately show ?thesis by (meson converse_rtranclp_into_rtranclp rtranclp.rtrancl_into_rtrancl)
  qed
qed simp

lemma Promote_write:
  "PromoteSessionToTrackedAssignment flt clock uuid sid d = (r, d') \<Longrightarrow> agent_write\<^sup>*\<^sup>* d d'"
  by (auto simp: PromoteSessionToTrackedAssignment_def Let_def split: if_splits sql_try_splits option.splits sum.splits
      dest: Attach_write)

lemma SetSessionTaskID_write:
  assumes "SetSessionTaskID flt sid task repo d = (r, d')"
  shows "agent_write d d'"
proof (cases "d' = d")
  case False
  let ?g = "\<lambda>a. if a_session_id a = sid \<and> open_asg a then a\<lparr>a_task_id := task,
      a_repo := (if repo \<noteq> '''' then repo else a_repo a), a_version := a_version a + 1\<rparr> else a"
  have "tabs d' = (core d, agent_sessions d, map ?g (agent_assignments d), agent_rules d) \<and>
      live_tasks_unique (agent_assignments d')"
    using assms False by (auto simp: SetSessionTaskID_def Let_def sql_update_def split: if_splits sql_try_splits)
  then show ?thesis
    by (intro rows [of _ "core d" "\<lambda>s. s" _ ?g]) (auto simp: asg_le_def)
qed (simp add: write_aux)

lemma finalize_rules_tabs:
  "finalize_rules flt clock uuid t c target sub s a d = Inr d' \<Longrightarrow>
   tabs d' = tabs d \<and> session_archives d' = session_archives d"
  by (auto simp: finalize_rules_def Let_def dest!: record_tabs hold_tabs verdict_tabs split: if_splits)

lemma finalize_close_writes:
  assumes "finalize_close flt clock uuid t c target sub s active d = Inr d'"
    and "active = map_option scanAgentAssignment (latest_asg (\<lambda>a. a_session_id a = s_session_id s \<and> open_asg a) d)"
    and "agent_inv d"
  shows "agent_write\<^sup>*\<^sup>* d d'"
proof -
  let ?C = "close_asg t (co_status c) target (blockedReasonFromSubstatus sub) sub"
  let ?P = "case active of None \<Rightarrow> \<lambda>x. False | Some a \<Rightarrow> \<lambda>x. a_id x = a_id a \<and> open_asg x"
  let ?d1 = "upd_sessions (open_with_id (s_session_id s)) (close_session t (co_status c)) d"
  define d2 where "d2 = upd_assignments ?P ?C ?d1"
  have none: "upd_assignments (\<lambda>x. False) ?C ?d1 = ?d1" by (simp add: upd_assignments_def sql_update_def)
  have "branch_write (core d2) (core d') \<and> tabs d' = (core d', agent_sessions d2, agent_assignments d2, agent_rules d2)"
    using assms(1) none
    by (cases active) (auto simp: finalize_close_def Let_def d2_def tabs_def [abs_def] dest!: insert_event_tabs archive_tabs clear_ownership_tabs)
  moreover have "?P x" if "x \<in> set (agent_assignments d)" "a_session_id x = s_session_id s" "open_asg x" for x
    using assms(2,3) that latest_asg_None [of "\<lambda>a. a_session_id a = s_session_id s \<and> open_asg a" d]
    by (auto split: option.splits simp: agent_inv_def dest!: latest_asg_Some)
  moreover have "open_asg x" if "?P x" for x using that by (auto split: option.splits)
  moreover have "tabs d2 = (core d, sql_update (open_with_id (s_session_id s)) (close_session t (co_status c)) (agent_sessions d),
      sql_update ?P ?C (agent_assignments d), agent_rules d)" by (simp add: d2_def)
  ultimately show ?thesis
    by (intro close_writes [of d2 d "s_session_id s" t "co_status c" ?P target "blockedReasonFromSubstatus sub" sub d']) blast+
qed

lemma tabs_inv: "tabs d' = tabs d \<Longrightarrow> agent_inv d' = agent_inv d"
  by (simp add: agent_inv_def tabs_def)

lemma tabs_latest: "tabs d' = tabs d \<Longrightarrow> latest_asg P d' = latest_asg P d"
  by (simp add: latest_asg_def tabs_def)

lemma Finalize_write:
  assumes "FinalizeAgentSession flt clock uuid sid aid c d = (r, d')" and "agent_inv d"
  shows "agent_write\<^sup>*\<^sup>* d d'"
proof (cases "d' = d")
  case False
  let ?t = "if co_finished_at c = zero_time then clock else co_finished_at c"
  obtain row where row: "sql_row (\<lambda>s. s_session_id s = sid) (agent_sessions d) = Some row"
    using run_tx_cases [OF assms(1) [unfolded FinalizeAgentSession_def Let_def]] False by (auto split: option.splits)
  let ?active = "map_option scanAgentAssignment (latest_asg (\<lambda>a. a_session_id a = sid \<and> open_asg a) d)"
  have sid: "s_session_id row = sid" using row by (auto simp: sql_row_def dest: find_Some_set)
  note run = run_tx_cases [OF assms(1) [unfolded FinalizeAgentSession_def Let_def]]
  show ?thesis
  proof (cases "validateTerminalAssignmentSubstatus (co_status c) (co_substatus c)")
    case (Inl e)
    then have "tabs d' = tabs d"
      using run False row by (auto split: option.splits if_splits dest!: record_tabs)
    then show ?thesis by (simp add: write_aux r_into_rtranclp)
  next
    case (Inr p)
    obtain target sub where p: "p = (target, sub)" by fastforce
    obtain d1 where d1: "tabs d1 = tabs d"
      "d' = d1 \<or> finalize_close flt clock uuid ?t c target sub (scanAgentSession row) ?active d1 = Inr d'"
    proof (cases "latest_asg (\<lambda>a. a_session_id a = sid \<and> open_asg a) d")
      case None
      then show ?thesis using run False row Inr p by (intro that [of d]) (auto split: if_splits)
    next
      case (Some a)
      obtain d1 where d1: "finalize_rules flt clock uuid ?t c target sub (scanAgentSession row) (scanAgentAssignment a) d = Inr d1"
        "d' = d1 \<or> finalize_close flt clock uuid ?t c target sub (scanAgentSession row) (Some (scanAgentAssignment a)) d1 = Inr d'"
        using run False
        by (cases "target = assignmentStateCompleted") (auto simp: row Inr p Some split: if_splits option.splits)
      show ?thesis using finalize_rules_tabs [OF d1(1)] d1(2) Some by (intro that [of d1]) simp_all
    qed
    from d1(2) show ?thesis
    proof
      assume f: "finalize_close flt clock uuid ?t c target sub (scanAgentSession row) ?active d1 = Inr d'"
      have "agent_write\<^sup>*\<^sup>* d1 d'"
        by (rule finalize_close_writes [OF f]) (use assms(2) sid in \<open>simp_all add: tabs_latest [OF d1(1)] tabs_inv [OF d1(1)]\<close>)
      then show ?thesis using write_aux [OF d1(1)] by (rule converse_rtranclp_into_rtranclp [rotated])
    qed (use d1(1) write_aux in blast)
  qed
qed simp

text \<open>
  The monitor: while it runs, the live assignments of a session in the list of contexts are the one of
  the context, since rows are only closed.
\<close>

definition ctx_ok :: "agent_db \<Rightarrow> AgentSession \<times> AgentAssignment \<Rightarrow> bool" where
  "ctx_ok d c \<longleftrightarrow> (\<forall>x\<in>set (agent_assignments d). a_session_id x = s_session_id (fst c) \<and> open_asg x \<longrightarrow>
      a_id x = a_id (snd c))"

definition closes :: "agent_db \<Rightarrow> agent_db \<Rightarrow> bool" where
  "closes d d' \<longleftrightarrow> (\<exists>g. agent_assignments d' = map g (agent_assignments d) \<and>
      (\<forall>a. a_id (g a) = a_id a \<and> a_session_id (g a) = a_session_id a \<and> (open_asg (g a) \<longrightarrow> open_asg a)))"

lemma ctx_ok_closes: "ctx_ok d c \<Longrightarrow> closes d d' \<Longrightarrow> ctx_ok d' c"
  by (auto simp: ctx_ok_def closes_def)

lemma closes_update: "agent_assignments d' = sql_update P (close_asg now reason st br sub) (agent_assignments d) \<Longrightarrow> closes d d'"
  unfolding closes_def sql_update_def
  by (rule exI [of _ "\<lambda>a. if P a then close_asg now reason st br sub a else a"]) (auto simp: close_asg_def open_asg_def)

lemma closes_same: "agent_assignments d' = agent_assignments d \<Longrightarrow> closes d d'"
  unfolding closes_def by (rule exI [of _ "\<lambda>a. a"]) auto

lemma close_asg_le: "open_asg a \<Longrightarrow> asg_le a (close_asg now reason st br sub a) \<and> a_task_id (close_asg now reason st br sub a) = a_task_id a"
  by (simp add: close_asg_def asg_le_def)

lemma monitor_end_writes:
  assumes "monitor_end flt clock now s a r d = Inr d'" and "ctx_ok d (s, a)"
  shows "agent_write\<^sup>*\<^sup>* d d' \<and> closes d d'"
proof -
  let ?P = "\<lambda>x. a_id x = a_id a \<and> open_asg x"
  define stuck where "stuck = (r4_failure_path r = ''stuck'')"
  define reason where "reason = (if stuck then ''stuck_abandoned'' else ''lost'')"
  define sub where "sub = (if stuck then ''terminal_stuck_abandoned'' else ''terminal_lost'')"
  define d2 where "d2 = upd_assignments ?P (close_asg now reason assignmentStateLost '''' sub)
      (upd_sessions (open_with_id (s_session_id s)) (close_session now reason) d)"
  have d2: "tabs d2 = (core d, sql_update (open_with_id (s_session_id s)) (close_session now reason) (agent_sessions d),
       sql_update ?P (close_asg now reason assignmentStateLost '''' sub) (agent_assignments d), agent_rules d)"
    by (simp add: d2_def)
  have d': "branch_write (core d2) (core d')" "tabs d' = (core d', agent_sessions d2, agent_assignments d2, agent_rules d2)"
    using assms(1) unfolding monitor_end_def Let_def stuck_def [symmetric] reason_def [symmetric] sub_def [symmetric]
    by (auto simp: d2_def tabs_def dest!: clear_ownership_tabs append_event_tabs)
  have "agent_write\<^sup>*\<^sup>* d d'"
    using assms(2) d' by (intro close_writes [OF d2]) (auto simp: ctx_ok_def)
  moreover have "closes d d'" using d2 d' by (intro closes_update) (auto simp: tabs_def)
  ultimately show ?thesis by simp
qed

lemma monitor_cancel_writes:
  assumes "monitor_cancel flt clock now s a detail d = Inr d'"
  shows "agent_write\<^sup>*\<^sup>* d d' \<and> closes d d'"
proof -
  let ?d3 = "upd_assignments (\<lambda>x. a_id x = a_id a \<and> open_asg x)
      (close_asg now ''cancelled'' assignmentStateCancelled '''' ''terminal_cancelled'') d"
  have "agent_write d ?d3" using close_asg_le by (intro write_assignments) auto
  moreover have d': "branch_write (core ?d3) (core d')" "tabs d' = (core d', agent_sessions ?d3, agent_assignments ?d3, agent_rules ?d3)"
    using assms by (auto simp: monitor_cancel_def tabs_def dest!: clear_ownership_tabs append_event_tabs)
  moreover have "closes d d'" using d'(2) by (intro closes_update) (auto simp: tabs_def)
  ultimately show ?thesis
    using write_core [of d' ?d3] by (meson converse_rtranclp_into_rtranclp rtranclp.rtrancl_refl)
qed

lemma ctx_ok_tabs: "tabs d' = tabs d \<Longrightarrow> ctx_ok d' c = ctx_ok d c" and closes_tabs: "tabs e = tabs d \<Longrightarrow> closes e d' = closes d d'"
  by (simp_all add: ctx_ok_def closes_def tabs_def)

lemma monitor_one_writes:
  assumes "monitor_one flt clock uuid now c d = Inr d'" and "ctx_ok d c"
  shows "agent_write\<^sup>*\<^sup>* d d' \<and> closes d d'"
proof -
  obtain s a where c: "c = (s, a)" by fastforce
  let ?r = "evaluateRule004HeartbeatProgress now (Some s) (Some a)"
  obtain d1 where d1: "tabs d1 = tabs d" and
    alt: "d' = d1 \<or> monitor_end flt clock now s a ?r d1 = Inr d' \<or> (\<exists>detail. monitor_cancel flt clock now s a detail d1 = Inr d')"
  proof -
    obtain pass fc detail where h: "evaluateRule003BranchHoldTTL now (Some a) = (pass, fc, detail)"
      using prod_cases3 by blast
    obtain x where x: "record_verdict flt clock uuid (a_id a) (s_session_id s) ''RULE-004'' (r4_pass ?r) (rule004_detail ?r) d = Inr x"
      and k: "(if \<not> r4_pass ?r then monitor_end flt clock now s a ?r x
          else and_then (record_verdict flt clock uuid (a_id a) (s_session_id s) ''RULE-003'' pass detail x)
            (\<lambda>d2. if fc then monitor_cancel flt clock now s a detail d2 else Inr d2)) = Inr d'"
      using assms(1) unfolding monitor_one_def Let_def c prod.case h and_then_Inr by blast
    note xt = verdict_tabs [OF x]
    show ?thesis
    proof (cases "r4_pass ?r")
      case True
      with k obtain y where y: "record_verdict flt clock uuid (a_id a) (s_session_id s) ''RULE-003'' pass detail x = Inr y"
        "(if fc then monitor_cancel flt clock now s a detail y else Inr y) = Inr d'" by auto
      show ?thesis by (rule that [of y]) (use xt verdict_tabs [OF y(1)] y(2) in \<open>auto split: if_splits\<close>)
    next
      case False
      then show ?thesis using k xt by (intro that [of x]) simp_all
    qed
  qed
  have "agent_write\<^sup>*\<^sup>* d1 d' \<and> closes d1 d'"
    using alt assms(2) monitor_end_writes [of flt clock now s a ?r d1 d'] monitor_cancel_writes [of flt clock now s a _ d1 d']
    by (auto simp: ctx_ok_tabs [OF d1] c intro: closes_same)
  then show ?thesis
    using write_aux [OF d1] closes_tabs [OF d1] by (auto intro: converse_rtranclp_into_rtranclp)
qed

lemma monitor_all_writes:
  "monitor_all flt clock uuid now cs d = Inr d' \<Longrightarrow> (\<forall>c\<in>set cs. ctx_ok d c) \<Longrightarrow> agent_write\<^sup>*\<^sup>* d d'"
proof (induction cs arbitrary: d)
  case (Cons c cs)
  then obtain d1 where d1: "monitor_one flt clock (\<lambda>n. uuid (a_id (snd c) @ n)) now c d = Inr d1"
    "monitor_all flt clock uuid now cs d1 = Inr d'" by auto
  have "agent_write\<^sup>*\<^sup>* d d1" "closes d d1" using monitor_one_writes [OF d1(1)] Cons.prems(2) by auto
  moreover have "agent_write\<^sup>*\<^sup>* d1 d'"
    using Cons.IH [OF d1(2)] Cons.prems(2) ctx_ok_closes [OF _ calculation(2)] by (metis list.set_intros(2))
  ultimately show ?case by (meson rtranclp_trans)
qed auto

lemma open_contexts_ok: "agent_inv d \<Longrightarrow> c \<in> set (open_contexts d) \<Longrightarrow> ctx_ok d (scan_context c)"
  by (auto simp: open_contexts_def ctx_ok_def scan_context_def agent_inv_def)

lemma Monitor_write:
  assumes "MonitorAgentAssignmentRules flt clock uuid now d = (r, d')" and "agent_inv d"
  shows "agent_write\<^sup>*\<^sup>* d d'"
proof (cases "d' = d")
  case False
  then show ?thesis
    using run_tx_cases [OF assms(1) [unfolded MonitorAgentAssignmentRules_def Let_def]] open_contexts_ok [OF assms(2)]
    by (auto simp: listActiveAssignmentContextsTx_def elim!: monitor_all_writes)
qed simp

lemma asg_update_write:
  assumes "tabs d' = tabs (upd_assignments P f d)"
    and "\<And>a. P a \<Longrightarrow> asg_le a (f a)" and "\<And>a. P a \<Longrightarrow> a_task_id (f a) = a_task_id a" and "\<And>a. P a \<Longrightarrow> open_asg a"
  shows "agent_write\<^sup>*\<^sup>* d d'"
proof -
  have "agent_write d (upd_assignments P f d)" by (rule write_assignments [OF assms(2,3,4)])
  moreover have "agent_write (upd_assignments P f d) d'" using assms(1) by (rule write_aux)
  ultimately show ?thesis by (meson converse_rtranclp_into_rtranclp rtranclp.rtrancl_refl)
qed

lemma Reconcile_write:
  assumes "ReconcileAgentAssignmentWaitingState flt clock repo branch d = (r, d')"
  shows "agent_write\<^sup>*\<^sup>* d d'"
proof (cases "d' = d")
  case False
  obtain aid st sub where
    "tabs d' = tabs (upd_assignments (\<lambda>x. a_id x = aid \<and> open_asg x)
       (\<lambda>x. x\<lparr>a_state := st, a_blocked_reason := '''', a_substatus := sub, a_version := a_version x + 1\<rparr>) d)"
    using run_tx_cases [OF assms [unfolded ReconcileAgentAssignmentWaitingState_def]] False
    by (auto simp: Let_def simp del: tabs_upd split: option.splits if_splits dest!: append_event_tabs)
  then show ?thesis by (rule asg_update_write) (auto simp: asg_le_def)
qed simp

lemma accept_insert_Commit:
  "accept_insert flt clock now uuid sid agent task d = Commit r d' \<Longrightarrow>
   \<exists>d1 d2. insert_assignment (new_assignment (claimed_assignment now (uuid ''assignment'') sid agent task)) d = Inr d1 \<and>
     tabs d2 = tabs d1 \<and>
     d' = upd_sessions (\<lambda>s. s_session_id s = sid) (\<lambda>s. s\<lparr>s_last_seen_at := now, s_last_progress_at := Some now\<rparr>) d2"
  by (auto simp: accept_insert_def Let_def split: sum.splits if_splits dest!: seed_tabs)

lemma claimed_sel [simp]:
  "a_id (claimed_assignment now aid sid agent task) = aid"
  "a_session_id (claimed_assignment now aid sid agent task) = sid"
  "a_task_id (claimed_assignment now aid sid agent task) = task"
  "a_state (claimed_assignment now aid sid agent task) = assignmentStateActive"
  "a_version (claimed_assignment now aid sid agent task) = 1"
  by (simp_all add: claimed_assignment_def)

text \<open>A claim that commits: the prior live assignment, if any, is superseded, and one row is inserted.\<close>

lemma AcceptTask_Commit:
  assumes "AcceptTask flt clock uuid sid task d = (r, d')" and "d' \<noteq> d"
  obtains s P d1 d2 where "sql_row (\<lambda>s. s_session_id s = sid) (agent_sessions d) = Some s" "open_session s"
    "\<forall>a\<in>set (agent_assignments d). \<not> (a_task_id a = task \<and> open_asg a)"
    "\<And>x. P x \<Longrightarrow> open_asg x"
    "\<And>x. agent_inv d \<Longrightarrow> x \<in> set (agent_assignments d) \<Longrightarrow> a_session_id x = sid \<Longrightarrow> open_asg x \<Longrightarrow> P x"
    "insert_assignment (new_assignment (claimed_assignment (truncate_second clock) (uuid ''assignment'') sid (s_agent_id s) task))
       (upd_assignments P (supersede_asg (truncate_second clock) (uuid ''assignment'')) d) = Inr d1"
    "tabs d2 = tabs d1" "r = Inr (claimed_assignment (truncate_second clock) (uuid ''assignment'') sid (s_agent_id s) task)"
    "d' = upd_sessions (\<lambda>s. s_session_id s = sid) (\<lambda>s. s\<lparr>s_last_seen_at := truncate_second clock,
       s_last_progress_at := Some (truncate_second clock)\<rparr>) d2"
proof -
  let ?now = "truncate_second clock" and ?Q = "\<lambda>a. a_session_id a = sid \<and> open_asg a \<and> a_task_id a \<noteq> task"
  let ?prior = "sql_row ?Q (agent_assignments d)"
  let ?P = "\<lambda>a. case ?prior of None \<Rightarrow> False | Some p \<Rightarrow> a_id a = a_id p \<and> open_asg a"
  let ?S = "upd_assignments ?P (supersede_asg ?now (uuid ''assignment'')) d"
  have ne: "sid \<noteq> ''''" "task \<noteq> ''''" using assms by (auto simp: AcceptTask_def split: if_splits)
  have none: "upd_assignments (\<lambda>x. False) f d = d" for f by (simp add: upd_assignments_def sql_update_def)
  note run = run_tx_cases [OF assms(1) [unfolded AcceptTask_def if_not_P [OF ne(1)] if_not_P [OF ne(2)] Let_def]]
  obtain s where s: "sql_row (\<lambda>s. s_session_id s = sid) (agent_sessions d) = Some s" "open_session s"
    "sql_row (\<lambda>a. a_task_id a = task \<and> open_asg a) (agent_assignments d) = None"
    "accept_insert flt clock ?now uuid sid (s_agent_id s) task ?S = Commit r d'"
    using run assms(2) none
    by (cases ?prior) (auto simp: open_session_def split: option.splits if_splits)
  from accept_insert_Commit [OF s(4)] obtain d1 d2 where d12:
    "insert_assignment (new_assignment (claimed_assignment ?now (uuid ''assignment'') sid (s_agent_id s) task)) ?S = Inr d1"
    "tabs d2 = tabs d1" "d' = upd_sessions (\<lambda>s. s_session_id s = sid)
       (\<lambda>s. s\<lparr>s_last_seen_at := ?now, s_last_progress_at := Some ?now\<rparr>) d2" by blast
  have r: "r = Inr (claimed_assignment ?now (uuid ''assignment'') sid (s_agent_id s) task)"
    using s(4) by (auto simp: accept_insert_def Let_def split: sum.splits if_splits)
  have free: "\<forall>a\<in>set (agent_assignments d). \<not> (a_task_id a = task \<and> open_asg a)"
    using s(3) by (auto simp: sql_row_def find_None_iff)
  have P: "?P x" if "agent_inv d" "x \<in> set (agent_assignments d)" "a_session_id x = sid" "open_asg x" for x
  proof (cases ?prior)
    case None
    then show ?thesis using that free by (auto simp: sql_row_def find_None_iff)
  next
    case (Some p)
    then have "p \<in> set (agent_assignments d)" "a_session_id p = sid" "open_asg p"
      by (auto simp: sql_row_def dest!: find_Some_set)
    then show ?thesis using that Some by (auto simp: agent_inv_def)
  qed
  show thesis
    by (rule that [OF s(1,2) free _ P d12(1,2) r d12(3)]) (auto split: option.splits)
qed

lemma AcceptTask_write:
  assumes "AcceptTask flt clock uuid sid task d = (r, d')" and "agent_inv d"
  shows "agent_write\<^sup>*\<^sup>* d d'"
proof (cases "d' = d")
  case False
  show ?thesis
  proof (rule AcceptTask_Commit [OF assms(1) False])
    fix s P d1 d2
    assume s: "sql_row (\<lambda>s. s_session_id s = sid) (agent_sessions d) = Some s" "open_session s"
      and P: "\<And>x. P x \<Longrightarrow> open_asg x"
        "\<And>x. agent_inv d \<Longrightarrow> x \<in> set (agent_assignments d) \<Longrightarrow> a_session_id x = sid \<Longrightarrow> open_asg x \<Longrightarrow> P x"
      and i: "insert_assignment (new_assignment (claimed_assignment (truncate_second clock) (uuid ''assignment'') sid (s_agent_id s) task))
       (upd_assignments P (supersede_asg (truncate_second clock) (uuid ''assignment'')) d) = Inr d1"
      and d2: "tabs d2 = tabs d1"
      and d': "d' = upd_sessions (\<lambda>s. s_session_id s = sid) (\<lambda>s. s\<lparr>s_last_seen_at := truncate_second clock,
       s_last_progress_at := Some (truncate_second clock)\<rparr>) d2"
    have "s \<in> set (agent_sessions d)" "s_session_id s = sid"
      using s(1) by (auto simp: sql_row_def dest: find_Some_set)
    then have "agent_write\<^sup>*\<^sup>* d d1"
      using s(2) P assms(2) by (intro supersede_insert_writes [OF _ _ _ i]) auto
    moreover have "agent_write d1 d2" using d2 by (rule write_aux)
    moreover have "agent_write d2 d'" unfolding d' by (rule touch_write)
    ultimately show ?thesis by (meson rtranclp.rtrancl_into_rtrancl)
  qed
qed simp

lemma emit_update_sel [simp]:
  "a_id (emit_update now sub v dev a) = a_id a" "a_session_id (emit_update now sub v dev a) = a_session_id a"
  "a_task_id (emit_update now sub v dev a) = a_task_id a" "a_version (emit_update now sub v dev a) = v"
  "a_state (emit_update now sub v dev a) = assignmentStateFromSubstatus sub"
  "a_substatus (emit_update now sub v dev a) = sub"
  "open_asg (emit_update now sub v dev a) \<longleftrightarrow> sub \<notin> set terminalAssignmentSubstatusSet \<and> open_asg a"
  by (simp_all add: emit_update_def Let_def open_asg_def)

lemma Emit_Commit:
  assumes "EmitAssignmentUpdate flt clock aid v newSub d = (r, d')" and "d' \<noteq> d \<or> (\<exists>x. r = Inr x)"
  obtains x dev out where "x \<in> set (agent_assignments d)" "a_id x = aid" "open_asg x" "a_version x = v"
    "sql_row (\<lambda>a. a_id a = aid) (agent_assignments d) = Some x"
    "validateEmitSubstatusNormalized (normalizeAssignmentSubstatus newSub) = None"
    "tabs d' = tabs (upd_assignments (\<lambda>a. a_id a = aid \<and> a_version a = v)
       (emit_update (truncate_second clock) (normalizeAssignmentSubstatus newSub) (v + 1) dev) d)"
    "r = Inr out" "a_version out = v + 1" "a_substatus out = normalizeAssignmentSubstatus newSub"
proof -
  let ?sub = "normalizeAssignmentSubstatus newSub"
  have ok: "validateEmitSubstatusNormalized ?sub = None"
    using assms by (auto simp: EmitAssignmentUpdate_def Let_def split: option.splits)
  note run = run_tx_result [OF assms(1) [unfolded EmitAssignmentUpdate_def Let_def ok option.case] assms(2)]
  obtain x where x: "sql_row (\<lambda>a. a_id a = aid) (agent_assignments d) = Some x"
    using run by (auto simp: get_asg_def split: option.splits)
  then have "x \<in> set (agent_assignments d)" "a_id x = aid" by (auto simp: sql_row_def dest: find_Some_set)
  with x show thesis
    using run ok
    by (auto simp: get_asg_def open_asg_def Let_def simp del: tabs_upd split: if_splits
        dest!: append_event_tabs intro!: that)
qed

lemma Emit_write:
  assumes "EmitAssignmentUpdate flt clock aid v newSub d = (r, d')" and "agent_inv d"
  shows "agent_write\<^sup>*\<^sup>* d d'"
proof (cases "d' = d")
  case False
  show ?thesis
  proof (rule Emit_Commit [OF assms(1) disjI1 [OF False]])
    fix x dev
    assume x: "x \<in> set (agent_assignments d)" "a_id x = aid" "open_asg x" "a_version x = v"
      and t: "tabs d' = tabs (upd_assignments (\<lambda>a. a_id a = aid \<and> a_version a = v)
       (emit_update (truncate_second clock) (normalizeAssignmentSubstatus newSub) (v + 1) dev) d)"
    let ?f = "emit_update (truncate_second clock) (normalizeAssignmentSubstatus newSub) (v + 1) dev"
    have "a = x" if "a \<in> set (agent_assignments d)" "a_id a = aid" for a
      using that x assms(2) by (auto simp: agent_inv_def intro: distinct_key_unique [of a_id])
    then have "sql_update (\<lambda>a. a_id a = aid \<and> a_version a = v) ?f (agent_assignments d) =
        sql_update (\<lambda>a. a_id a = aid \<and> a_version a = v \<and> open_asg a) ?f (agent_assignments d)"
      using x(3) by (auto simp: sql_update_def)
    then have "tabs d' = tabs (upd_assignments (\<lambda>a. a_id a = aid \<and> a_version a = v \<and> open_asg a) ?f d)"
      using t by simp
    then show ?thesis by (rule asg_update_write) (auto simp: asg_le_def)
  qed
qed simp

lemma Action_write:
  assumes "PerformAssignmentAction lib flt now aid action d = (r, d')"
  shows "agent_write\<^sup>*\<^sup>* d d'"
proof (cases "d' = d")
  case False
  obtain st sub reason fin d2 where
    d2: "tabs d2 = tabs (upd_assignments (\<lambda>a. a_id a = aid \<and> open_asg a)
      (\<lambda>a. let a1 = a\<lparr>a_state := st, a_substatus := sub, a_blocked_reason := blockedReasonFromSubstatus sub,
               a_version := a_version a + 1\<rparr>
           in if fin then a1\<lparr>a_ended_at := Some now, a_end_reason := reason\<rparr> else a1) d)"
    and d': "d' = d2 \<or> (\<exists>a. clearAssignmentBranchOwnershipTx flt now a d2 = Inr d')"
  proof -
    note run = run_tx_cases [OF assms [unfolded PerformAssignmentAction_def Let_def]]
    obtain st sub reason fin where tgt: "operator_target (ToLower (TrimSpace action)) = Some (st, sub, reason, fin)"
      using run False by (auto split: if_splits option.splits)
    let ?U = "upd_assignments (\<lambda>a. a_id a = aid \<and> open_asg a)
      (\<lambda>a. let a1 = a\<lparr>a_state := st, a_substatus := sub, a_blocked_reason := blockedReasonFromSubstatus sub,
               a_version := a_version a + 1\<rparr>
           in if fin then a1\<lparr>a_ended_at := Some now, a_end_reason := reason\<rparr> else a1) d"
    obtain s g ty pl d2 where "appendAgentEventTx flt now s g ty pl ?U = Inr d2"
      "d' = d2 \<or> (\<exists>a. clearAssignmentBranchOwnershipTx flt now a d2 = Inr d')"
      using run False tgt by (cases fin; auto simp: Let_def split: if_splits option.splits; blast)
    then show ?thesis
      using append_event_tabs by (intro that [of d2]) blast+
  qed
  have "agent_write\<^sup>*\<^sup>* d d2" by (rule asg_update_write [OF d2]) (auto simp: asg_le_def Let_def)
  moreover have "agent_write d2 d'"
    using d' write_aux [of d2 d2] write_core [of d' d2] clear_ownership_tabs by blast
  ultimately show ?thesis by (rule rtranclp.rtrancl_into_rtrancl)
qed simp

section \<open>All operations\<close>

text \<open>
  The store of \<open>internal/session\<close> writes through these operations and through the branch
  repository (\<open>lift_core\<close>); the synchronisation of a branch at the end of
  \<open>AttachAssignment\<close> and the ownership columns are the rule \<open>branches\<close>.
\<close>

inductive agent_step :: "fsm_lib \<Rightarrow> (string \<Rightarrow> bool) \<Rightarrow> agent_db \<Rightarrow> agent_db \<Rightarrow> bool" for lib pu where
  register: "RegisterAgentSessionWithSecret pu flt now uid sid aid mode tmux d = (rs, d') \<Longrightarrow> agent_step lib pu d d'"
| heartbeat: "UpdateAgentSessionHeartbeat flt now uuid sid mark d = (r, d') \<Longrightarrow> agent_step lib pu d d'"
| status: "UpdateInferredStatus flt now sid st d = (r, d') \<Longrightarrow> agent_step lib pu d d'"
| repo_branch: "UpdateSessionRepoBranch flt sid repo branch d = (r, d') \<Longrightarrow> agent_step lib pu d d'"
| attribution: "UpdateSessionRuntimeAttribution flt sid source d = (r, d') \<Longrightarrow> agent_step lib pu d d'"
| recovered: "MarkSessionRecovered flt now sid t d = (r, d') \<Longrightarrow> agent_step lib pu d d'"
| recovered_seen: "MarkSessionRecoveredWithLastSeen flt now sid t u d = (r, d') \<Longrightarrow> agent_step lib pu d d'"
| output_bytes: "UpdateSessionOutputBytes flt sid n d = (r, d') \<Longrightarrow> agent_step lib pu d d'"
| pressure: "SetContextPressure flt sid level d = (r, d') \<Longrightarrow> agent_step lib pu d d'"
| compact: "RecordCompact flt now sid d = (r, d') \<Longrightarrow> agent_step lib pu d d'"
| idle: "TransitionIdleSessions flt now t d = (r, d') \<Longrightarrow> agent_step lib pu d d'"
| sample: "RecordActivitySample flt now sid counters d = (r, d') \<Longrightarrow> agent_step lib pu d d'"
| event: "AppendAgentEvent flt now sid aid ty pl d = (rn, d') \<Longrightarrow> agent_step lib pu d d'"
| archive: "ArchiveSession flt now uuid sid result sha d = (r, d') \<Longrightarrow> agent_step lib pu d d'"
| expire: "ExpireAgentSession flt now uuid sid reason d = (r, d') \<Longrightarrow> agent_step lib pu d d'"
| attach: "AttachAgentAssignment flt now uuid arg d = (r, d') \<Longrightarrow> agent_step lib pu d d'"
| promote: "PromoteSessionToTrackedAssignment flt now uuid sid d = (r, d') \<Longrightarrow> agent_step lib pu d d'"
| set_task: "SetSessionTaskID flt sid task repo d = (r, d') \<Longrightarrow> agent_step lib pu d d'"
| finalize: "FinalizeAgentSession flt now uuid sid aid c d = (r, d') \<Longrightarrow> agent_step lib pu d d'"
| monitor: "MonitorAgentAssignmentRules flt now uuid t d = (r, d') \<Longrightarrow> agent_step lib pu d d'"
| reconcile: "ReconcileAgentAssignmentWaitingState flt now repo branch d = (r, d') \<Longrightarrow> agent_step lib pu d d'"
| accept: "AcceptTask flt now uuid sid task d = (ra, d') \<Longrightarrow> agent_step lib pu d d'"
| emit: "EmitAssignmentUpdate flt now aid v sub d = (ra, d') \<Longrightarrow> agent_step lib pu d d'"
| action: "PerformAssignmentAction lib flt now aid act d = (r, d') \<Longrightarrow> agent_step lib pu d d'"
| branches: "store_step lib (core d) c \<Longrightarrow> agent_step lib pu d (d\<lparr>core := c\<rparr>)"
| own_branch: "agent_step lib pu d (upd_core (at_branch repo branch)
     (\<lambda>b. b\<lparr>b_owner_session_id := sid, b_owner_session_last_seen := seen, b_owner_agent := aid, b_updated_at := now\<rparr>) d)"

lemma agent_step_write:
  assumes "agent_step lib pu d d'" and "fsm_library lib" and "agent_inv d"
  shows "agent_write\<^sup>*\<^sup>* d d'"
  using assms(1)
proof (cases rule: agent_step.cases)
  case (branches c)
  then show ?thesis
    using store_step_write [OF _ assms(2)] by (intro r_into_rtranclp write_core) (auto simp: tabs_def)
next
  case (own_branch repo branch sid seen aid now)
  then show ?thesis
    by (intro r_into_rtranclp write_core) (auto intro!: fields simp: branch_frame_def branch_key_def)
qed (auto simp: assms(3) intro: Register_write Heartbeat_write UpdateInferredStatus_write session_fields_write
      MarkSessionRecoveredWithLastSeen_write RecordActivitySample_write AppendAgentEvent_write ArchiveSession_write
      Expire_write Attach_write Promote_write SetSessionTaskID_write Finalize_write Monitor_write Reconcile_write
      AcceptTask_write Emit_write Action_write)

lemma agent_steps_inv:
  assumes "(agent_step lib pu)\<^sup>*\<^sup>* d d'" and "fsm_library lib" and "agent_inv d"
  shows "agent_inv d' \<and> agent_write\<^sup>*\<^sup>* d d'"
  using assms(1)
proof (induction rule: rtranclp_induct)
  case (step y z)
  then show ?case
    using agent_step_write [OF step.hyps(2) assms(2)] agent_writes_inv by (meson rtranclp_trans)
qed (simp add: assms(3))

end
