(* ===== verification/Review_Store.thy ===== *)
theory Review_Store
  imports Complex_Main Session_Inv Strconv
begin

text \<open>
  The tables around a review: links to GitHub (\<open>internal/state/github_links.go\<close>), the feedback
  cache (\<open>feedback_cache.go\<close>), submissions (\<open>submissions.go\<close>), pre-commit results
  (\<open>record_precommit.go\<close> and the first part of \<open>proving.go\<close>), token metrics (the end of
  \<open>agent_sessions.go\<close>) and the merge predicates (\<open>merge_predicate.go\<close>). A column that may
  be \<open>NULL\<close> is an \<open>option\<close>, since a comparison with \<open>NULL\<close> selects no row.
\<close>

section \<open>Tables\<close>

record GitHubLink =
  gl_link_id :: string
  gl_task_id :: string
  gl_repo_full_name :: string
  gl_pr_number :: int
  gl_issue_number :: int
  gl_branch_name :: string
  gl_head_sha :: string
  gl_pr_state :: string
  gl_last_ci_run_id :: string
  gl_last_synced_at :: "gotime option"

record link_row =
  lr_link_id :: string
  lr_task_id :: string
  lr_repo_full_name :: string
  lr_pr_number :: "int option"
  lr_issue_number :: "int option"
  lr_branch_name :: "string option"
  lr_head_sha :: "string option"
  lr_pr_state :: "string option"
  lr_last_ci_run_id :: "string option"
  lr_last_synced_at :: "gotime option"

record FeedbackCache =
  fc_cache_id :: string
  fc_assignment_id :: string
  fc_session_id :: string
  fc_task_id :: string
  fc_ci_snapshot :: string
  fc_coderabbit_snapshot :: string
  fc_human_review_snapshot :: string
  fc_compliance_snapshot :: string
  fc_context_block :: string
  fc_snapshot_at :: gotime
  fc_cache_hash :: string
  fc_source_status :: string

record SubmissionRecord =
  su_submission_id :: string
  su_assignment_id :: string
  su_session_id :: string
  su_repo :: string
  su_branch :: string
  su_head_sha :: string
  su_diff_hash :: string
  su_attempt_local :: int
  su_attempt_remote :: int
  su_state :: string
  su_result :: string
  su_created_at :: gotime
  su_updated_at :: gotime

record PrecommitReview =
  pc_id :: string
  pc_repo :: string
  pc_branch :: string
  pc_provider :: string
  pc_status :: string
  pc_error :: string
  pc_created_at :: gotime

record TokenMetricRow =
  tm_id :: int
  tm_session_id :: string
  tm_litellm_request_id :: "string option"
  tm_model :: string
  tm_prompt_tokens :: int
  tm_completion_tokens :: int
  tm_cumulative_prompt_tokens :: int
  tm_cumulative_completion_tokens :: int
  tm_request_time :: gotime
  tm_synced_at :: gotime

record review_db =
  agents :: agent_db
  codero_github_links :: "link_row list"
  task_feedback_cache :: "FeedbackCache list"
  submissions :: "SubmissionRecord list"
  precommit_reviews :: "PrecommitReview list"
  session_token_metrics :: "TokenMetricRow list"

definition empty_review_db :: review_db where
  "empty_review_db = \<lparr>agents = empty_agent_db, codero_github_links = [], task_feedback_cache = [], submissions = [],
     precommit_reviews = [], session_token_metrics = []\<rparr>"

section \<open>Links\<close>

definition nullInt :: "int \<Rightarrow> int option" where
  "nullInt v = (if v = 0 then None else Some v)"

definition nullStr :: "string \<Rightarrow> string option" where
  "nullStr v = (if v = '''' then None else Some v)"

definition pr_state_ok :: "string option \<Rightarrow> bool" where
  "pr_state_ok st \<longleftrightarrow> (case st of None \<Rightarrow> True | Some v \<Rightarrow> v \<in> {''open'', ''closed'', ''merged''})"

definition link_columns :: "gotime \<Rightarrow> GitHubLink \<Rightarrow> link_row \<Rightarrow> link_row" where
  "link_columns now link r = r\<lparr>lr_repo_full_name := gl_repo_full_name link,
     lr_pr_number := nullInt (gl_pr_number link), lr_issue_number := nullInt (gl_issue_number link),
     lr_branch_name := nullStr (gl_branch_name link), lr_head_sha := nullStr (gl_head_sha link),
     lr_pr_state := nullStr (gl_pr_state link), lr_last_ci_run_id := nullStr (gl_last_ci_run_id link),
     lr_last_synced_at := Some now\<rparr>"

text \<open>The result carries the argument as the function leaves it, with its id and time set.\<close>

definition UpsertGitHubLink ::
  "faults \<Rightarrow> gotime \<Rightarrow> string \<Rightarrow> GitHubLink \<Rightarrow> review_db \<Rightarrow> (error + GitHubLink) \<times> review_db" where
  "UpsertGitHubLink flt clock uuid link0 d =
     (let now = truncate_second clock;
          link = link0\<lparr>gl_link_id := (if gl_link_id link0 = '''' then uuid else gl_link_id link0), gl_last_synced_at := Some now\<rparr>
      in sql_try flt ''upsert github link'' d
        (if \<not> pr_state_ok (nullStr (gl_pr_state link)) then (Inl (ConstraintError ''CHECK constraint failed: pr_state''), d)
         else if gl_task_id link \<in> lr_task_id ` set (codero_github_links d)
         then (Inr link, d\<lparr>codero_github_links := sql_update (\<lambda>r. lr_task_id r = gl_task_id link) (link_columns now link)
                 (codero_github_links d)\<rparr>)
         else if gl_link_id link \<in> lr_link_id ` set (codero_github_links d)
         then (Inl (ConstraintError ''UNIQUE constraint failed: codero_github_links.link_id''), d)
         else (Inr link, d\<lparr>codero_github_links := codero_github_links d @
            [link_columns now link \<lparr>lr_link_id = gl_link_id link, lr_task_id = gl_task_id link, lr_repo_full_name = '''',
               lr_pr_number = None, lr_issue_number = None, lr_branch_name = None, lr_head_sha = None, lr_pr_state = None,
               lr_last_ci_run_id = None, lr_last_synced_at = None\<rparr>]\<rparr>)))"

definition null_str :: "string option \<Rightarrow> string" where
  "null_str v = (case v of None \<Rightarrow> '''' | Some x \<Rightarrow> x)"

definition scan_link :: "link_row \<Rightarrow> GitHubLink" where
  "scan_link r = \<lparr>gl_link_id = lr_link_id r, gl_task_id = lr_task_id r, gl_repo_full_name = lr_repo_full_name r,
     gl_pr_number = (case lr_pr_number r of None \<Rightarrow> 0 | Some n \<Rightarrow> n),
     gl_issue_number = (case lr_issue_number r of None \<Rightarrow> 0 | Some n \<Rightarrow> n),
     gl_branch_name = null_str (lr_branch_name r), gl_head_sha = null_str (lr_head_sha r),
     gl_pr_state = null_str (lr_pr_state r), gl_last_ci_run_id = null_str (lr_last_ci_run_id r),
     gl_last_synced_at = lr_last_synced_at r\<rparr>"

definition scanGitHubLink :: "faults \<Rightarrow> link_row option \<Rightarrow> error + GitHubLink" where
  "scanGitHubLink flt row =
     stmt flt ''scan github link'' (case row of None \<Rightarrow> Inl ErrGitHubLinkNotFound | Some r \<Rightarrow> Inr (scan_link r))"

definition GetLinkByTaskID :: "faults \<Rightarrow> string \<Rightarrow> review_db \<Rightarrow> error + GitHubLink" where
  "GetLinkByTaskID flt task d = scanGitHubLink flt (sql_row (\<lambda>r. lr_task_id r = task) (codero_github_links d))"

definition GetLinkByRepoPR :: "faults \<Rightarrow> string \<Rightarrow> int \<Rightarrow> review_db \<Rightarrow> error + GitHubLink" where
  "GetLinkByRepoPR flt repo n d =
     scanGitHubLink flt (sql_row (\<lambda>r. lr_repo_full_name r = repo \<and> lr_pr_number r = Some n) (codero_github_links d))"

definition GetLinkByBranch :: "faults \<Rightarrow> string \<Rightarrow> string \<Rightarrow> review_db \<Rightarrow> error + GitHubLink" where
  "GetLinkByBranch flt repo branch d =
     scanGitHubLink flt (sql_row (\<lambda>r. lr_repo_full_name r = repo \<and> lr_branch_name r = Some branch) (codero_github_links d))"

definition update_link ::
  "faults \<Rightarrow> string \<Rightarrow> (link_row \<Rightarrow> link_row) \<Rightarrow> review_db \<Rightarrow> (error + unit) \<times> review_db" where
  "update_link flt linkID f d =
     sql_try flt ''update link'' d
      (if sql_affected (\<lambda>r. lr_link_id r = linkID) (codero_github_links d) = 0 then (Inl ErrGitHubLinkNotFound, d)
       else (Inr (), d\<lparr>codero_github_links := sql_update (\<lambda>r. lr_link_id r = linkID) f (codero_github_links d)\<rparr>))"

definition UpdateLinkPRState ::
  "faults \<Rightarrow> gotime \<Rightarrow> string \<Rightarrow> string \<Rightarrow> review_db \<Rightarrow> (error + unit) \<times> review_db" where
  "UpdateLinkPRState flt clock linkID prState d =
     sql_try flt ''update link'' d
      (if \<not> pr_state_ok (Some prState) \<and> sql_affected (\<lambda>r. lr_link_id r = linkID) (codero_github_links d) > 0
       then (Inl (ConstraintError ''CHECK constraint failed: pr_state''), d)
       else update_link flt linkID (\<lambda>r. r\<lparr>lr_pr_state := Some prState, lr_last_synced_at := Some (truncate_second clock)\<rparr>) d)"

definition UpdateLinkHeadSHA ::
  "faults \<Rightarrow> gotime \<Rightarrow> string \<Rightarrow> string \<Rightarrow> review_db \<Rightarrow> (error + unit) \<times> review_db" where
  "UpdateLinkHeadSHA flt clock linkID sha =
     update_link flt linkID (\<lambda>r. r\<lparr>lr_head_sha := Some sha, lr_last_synced_at := Some (truncate_second clock)\<rparr>)"

definition UpdateLinkCIRunID ::
  "faults \<Rightarrow> gotime \<Rightarrow> string \<Rightarrow> string \<Rightarrow> review_db \<Rightarrow> (error + unit) \<times> review_db" where
  "UpdateLinkCIRunID flt clock linkID run =
     update_link flt linkID (\<lambda>r. r\<lparr>lr_last_ci_run_id := Some run, lr_last_synced_at := Some (truncate_second clock)\<rparr>)"

section \<open>Feedback cache\<close>

text \<open>\<open>NULL\<close> snapshots are read back as empty strings and never compared, so the columns keep the strings.\<close>

definition UpsertFeedbackCache ::
  "faults \<Rightarrow> gotime \<Rightarrow> string \<Rightarrow> FeedbackCache \<Rightarrow> review_db \<Rightarrow> (error + unit) \<times> review_db" where
  "UpsertFeedbackCache flt clock uuid fc0 d =
     (let fc = fc0\<lparr>fc_cache_id := (if fc_cache_id fc0 = '''' then uuid else fc_cache_id fc0), fc_snapshot_at := truncate_second clock\<rparr>
      in sql_try flt ''upsert feedback cache'' d
        (if fc_assignment_id fc \<notin> a_id ` set (agent_assignments (agents d)) \<or>
            fc_session_id fc \<notin> s_session_id ` set (agent_sessions (agents d))
         then (Inl (ConstraintError ''FOREIGN KEY constraint failed''), d)
         else if fc_assignment_id fc \<in> fc_assignment_id ` set (task_feedback_cache d)
         then (Inr (), d\<lparr>task_feedback_cache := sql_update (\<lambda>r. fc_assignment_id r = fc_assignment_id fc)
                (\<lambda>r. fc\<lparr>fc_cache_id := fc_cache_id r\<rparr>) (task_feedback_cache d)\<rparr>)
         else if fc_cache_id fc \<in> fc_cache_id ` set (task_feedback_cache d)
         then (Inl (ConstraintError ''UNIQUE constraint failed: task_feedback_cache.cache_id''), d)
         else (Inr (), d\<lparr>task_feedback_cache := task_feedback_cache d @ [fc]\<rparr>)))"

definition scanFeedbackCache :: "faults \<Rightarrow> FeedbackCache option \<Rightarrow> error + FeedbackCache" where
  "scanFeedbackCache flt row =
     stmt flt ''scan feedback cache'' (case row of None \<Rightarrow> Inl ErrFeedbackCacheNotFound | Some r \<Rightarrow> Inr r)"

definition GetFeedbackCacheByAssignment :: "faults \<Rightarrow> string \<Rightarrow> review_db \<Rightarrow> error + FeedbackCache" where
  "GetFeedbackCacheByAssignment flt aid d =
     scanFeedbackCache flt (sql_row (\<lambda>r. fc_assignment_id r = aid) (task_feedback_cache d))"

definition GetFeedbackCacheByTaskID :: "faults \<Rightarrow> string \<Rightarrow> review_db \<Rightarrow> error + FeedbackCache" where
  "GetFeedbackCacheByTaskID flt task d =
     scanFeedbackCache flt (sql_first (sql_order_desc fc_snapshot_at
       (filter (\<lambda>r. fc_task_id r = task) (task_feedback_cache d))))"

definition InvalidateFeedbackCache :: "faults \<Rightarrow> string \<Rightarrow> review_db \<Rightarrow> (error + unit) \<times> review_db" where
  "InvalidateFeedbackCache flt aid d =
     sql_try flt ''invalidate feedback cache'' d
      (Inr (), d\<lparr>task_feedback_cache := filter (\<lambda>r. fc_assignment_id r \<noteq> aid) (task_feedback_cache d)\<rparr>)"

definition InvalidateFeedbackCacheByTaskID :: "faults \<Rightarrow> string \<Rightarrow> review_db \<Rightarrow> (error + unit) \<times> review_db" where
  "InvalidateFeedbackCacheByTaskID flt task d =
     sql_try flt ''invalidate feedback cache by task'' d
      (Inr (), d\<lparr>task_feedback_cache := filter (\<lambda>r. fc_task_id r \<noteq> task) (task_feedback_cache d)\<rparr>)"

section \<open>Submissions\<close>

text \<open>
  The partial unique index on assignment, diff hash and head is checked before the primary key: SQLite
  checks the indices of a table latest first.
\<close>

definition CreateSubmission ::
  "faults \<Rightarrow> gotime \<Rightarrow> SubmissionRecord \<Rightarrow> review_db \<Rightarrow> (error + unit) \<times> review_db" where
  "CreateSubmission flt clock rec d =
     sql_try flt ''insert submission'' d
      (if su_assignment_id rec \<noteq> '''' \<and>
          (\<exists>r\<in>set (submissions d). su_assignment_id r = su_assignment_id rec \<and> su_diff_hash r = su_diff_hash rec \<and>
             su_head_sha r = su_head_sha rec)
       then (Inl ErrDuplicateSubmission, d)
       else if su_submission_id rec \<in> su_submission_id ` set (submissions d)
       then (Inl (ConstraintError ''UNIQUE constraint failed: submissions.submission_id''), d)
       else (Inr (), d\<lparr>submissions := submissions d @
         [rec\<lparr>su_created_at := truncate_second clock, su_updated_at := truncate_second clock\<rparr>]\<rparr>))"

definition GetSubmissionsByBranch :: "faults \<Rightarrow> string \<Rightarrow> string \<Rightarrow> review_db \<Rightarrow> error + SubmissionRecord list" where
  "GetSubmissionsByBranch flt repo branch d =
     stmt flt ''query submissions'' (Inr (sql_order_desc su_created_at
       (filter (\<lambda>r. su_repo r = repo \<and> su_branch r = branch) (submissions d))))"

definition GetSubmissionByID :: "faults \<Rightarrow> string \<Rightarrow> review_db \<Rightarrow> error + SubmissionRecord option" where
  "GetSubmissionByID flt sid d =
     stmt flt ''scan submission'' (Inr (sql_row (\<lambda>r. su_submission_id r = sid) (submissions d)))"

definition UpdateSubmissionState ::
  "faults \<Rightarrow> gotime \<Rightarrow> string \<Rightarrow> string \<Rightarrow> string \<Rightarrow> review_db \<Rightarrow> (error + unit) \<times> review_db" where
  "UpdateSubmissionState flt clock sid st result d =
     sql_try flt ''update submission'' d
      (if sql_affected (\<lambda>r. su_submission_id r = sid) (submissions d) = 0 then (Inl (OtherError ''submission not found''), d)
       else (Inr (), d\<lparr>submissions := sql_update (\<lambda>r. su_submission_id r = sid)
         (\<lambda>r. r\<lparr>su_state := st, su_result := result, su_updated_at := truncate_second clock\<rparr>) (submissions d)\<rparr>))"

definition SubmissionCountForBranch :: "faults \<Rightarrow> string \<Rightarrow> string \<Rightarrow> review_db \<Rightarrow> error + int" where
  "SubmissionCountForBranch flt repo branch d =
     stmt flt ''count submissions'' (Inr (int (sql_affected (\<lambda>r. su_repo r = repo \<and> su_branch r = branch) (submissions d))))"

text \<open>\<open>ORDER BY created_at DESC, submission_id DESC\<close>: of two rows the first one below is the later one.\<close>

fun later_submission :: "SubmissionRecord \<Rightarrow> SubmissionRecord option \<Rightarrow> SubmissionRecord" where
  "later_submission r None = r"
| "later_submission r (Some q) =
     (if su_created_at q < su_created_at r \<or> (su_created_at q = su_created_at r \<and> su_submission_id q \<le> su_submission_id r)
      then r else q)"

definition LatestSubmissionForBranch :: "faults \<Rightarrow> string \<Rightarrow> string \<Rightarrow> review_db \<Rightarrow> error + string" where
  "LatestSubmissionForBranch flt repo branch d =
     stmt flt ''latest submission''
      (case foldr (\<lambda>r q. Some (later_submission r q))
          (filter (\<lambda>r. su_repo r = repo \<and> su_branch r = branch) (submissions d)) None of
         None \<Rightarrow> Inr '''' | Some r \<Rightarrow> Inr (su_submission_id r))"

section \<open>Pre-commit results\<close>

definition CreatePrecommitReview ::
  "faults \<Rightarrow> gotime \<Rightarrow> PrecommitReview \<Rightarrow> review_db \<Rightarrow> (error + unit) \<times> review_db" where
  "CreatePrecommitReview flt clock r d =
     sql_try flt ''create precommit review'' d
      (if pc_id r \<in> pc_id ` set (precommit_reviews d)
       then (Inl (ConstraintError ''UNIQUE constraint failed: precommit_reviews.id''), d)
       else (Inr (), d\<lparr>precommit_reviews := precommit_reviews d @ [r\<lparr>pc_created_at := truncate_second clock\<rparr>]\<rparr>))"

definition CreatePrecommitReviewIdempotent ::
  "faults \<Rightarrow> gotime \<Rightarrow> PrecommitReview \<Rightarrow> review_db \<Rightarrow> (error + unit) \<times> review_db" where
  "CreatePrecommitReviewIdempotent flt clock r d =
     sql_try flt ''create precommit review'' d
      (if pc_id r \<in> pc_id ` set (precommit_reviews d) then (Inr (), d)
       else (Inr (), d\<lparr>precommit_reviews := precommit_reviews d @ [r\<lparr>pc_created_at := truncate_second clock\<rparr>]\<rparr>))"

definition ListPrecommitReviewsByRepo ::
  "faults \<Rightarrow> string \<Rightarrow> gotime \<Rightarrow> review_db \<Rightarrow> error + PrecommitReview list" where
  "ListPrecommitReviewsByRepo flt repo since d =
     stmt flt ''list precommit reviews'' (Inr (sql_order_desc pc_created_at
       (filter (\<lambda>r. pc_repo r = repo \<and> since \<le> pc_created_at r) (precommit_reviews d))))"

definition insert_run :: "run_row \<Rightarrow> review_db \<Rightarrow> error + review_db" where
  "insert_run r d =
     (let a = agents d; c = core a in
      if rr_id r \<in> rr_id ` set (review_runs c) then Inl (ConstraintError ''UNIQUE constraint failed: review_runs.id'')
      else Inr (d\<lparr>agents := a\<lparr>core := c\<lparr>review_runs := review_runs c @ [r]\<rparr>\<rparr>\<rparr>))"

definition RecordPrecommitResult ::
  "faults \<Rightarrow> gotime \<Rightarrow> (string \<Rightarrow> string) \<Rightarrow> string \<Rightarrow> string \<Rightarrow> string \<Rightarrow> string \<Rightarrow> int \<Rightarrow> string \<Rightarrow> review_db \<Rightarrow>
   (error + unit) \<times> review_db" where
  "RecordPrecommitResult flt now uuid repo branch headHash result durationMS checks d =
     (if result \<noteq> ''pass'' \<and> result \<noteq> ''fail'' then (Inl (OtherError ''invalid result''), d)
      else let precommitStatus = (if result = ''pass'' then ''passed'' else ''failed'');
               runStatus = (if result = ''pass'' then ''completed'' else ''failed'');
               errMsg = (if result = ''fail'' \<and> checks \<noteq> '''' then ''checks: '' @ checks
                         else if result = ''fail'' then ''gate failed'' else '''')
      in if durationMS < 0 then (Inl (OtherError ''durationMS cannot be negative''), d)
      else let startedAt = (if durationMS > 0 then now + int64 (- durationMS * Millisecond) else now)
      in sql_try flt ''begin'' d (sql_try flt ''insert precommit_reviews'' d
        (if uuid ''precommit'' \<in> pc_id ` set (precommit_reviews d)
         then (Inl (ConstraintError ''UNIQUE constraint failed: precommit_reviews.id''), d)
         else let d1 = d\<lparr>precommit_reviews := precommit_reviews d @
             [\<lparr>pc_id = uuid ''precommit'', pc_repo = repo, pc_branch = branch, pc_provider = ''precommit'',
               pc_status = precommitStatus, pc_error = errMsg, pc_created_at = now\<rparr>]\<rparr>
         in sql_try flt ''insert review_runs'' d
           (case insert_run \<lparr>rr_id = uuid ''run'', rr_repo = repo, rr_branch = branch, rr_head_hash = headHash,
               rr_provider = ''precommit'', rr_status = runStatus, rr_started_at = Some startedAt,
               rr_finished_at = Some now, rr_error = errMsg, rr_created_at = now\<rparr> d1 of
              Inl e \<Rightarrow> (Inl e, d)
            | Inr d2 \<Rightarrow> sql_try flt ''commit'' d (Inr (), d2)))))"

definition InsertReviewRun ::
  "faults \<Rightarrow> gotime \<Rightarrow> string \<Rightarrow> string \<Rightarrow> string \<Rightarrow> string \<Rightarrow> string \<Rightarrow> string \<Rightarrow> review_db \<Rightarrow> (error + unit) \<times> review_db" where
  "InsertReviewRun flt now rid repo branch headHash provider status d =
     sql_try flt ''insert review run'' d
      (case insert_run \<lparr>rr_id = rid, rr_repo = repo, rr_branch = branch, rr_head_hash = headHash, rr_provider = provider,
          rr_status = status, rr_started_at = Some now, rr_finished_at = Some now, rr_error = '''', rr_created_at = now\<rparr> d of
         Inl e \<Rightarrow> (Inl e, d)
       | Inr d' \<Rightarrow> (Inr (), d'))"

section \<open>Token metrics\<close>

text \<open>
  The row id is assigned by \<open>AUTOINCREMENT\<close>: above every id the table has held, which the
  model takes from the rows, since no statement deletes one. \<open>INSERT OR IGNORE\<close> drops a row whose
  request id is in the table; \<open>NULL\<close> is not equal to \<open>NULL\<close> there.
\<close>

definition next_metric_id :: "TokenMetricRow list \<Rightarrow> int" where
  "next_metric_id rows = foldr (\<lambda>r n. max (tm_id r) n) rows 0 + 1"

definition UpsertTokenMetric ::
  "faults \<Rightarrow> gotime \<Rightarrow> TokenMetricRow \<Rightarrow> review_db \<Rightarrow> (error + unit) \<times> review_db" where
  "UpsertTokenMetric flt clock row d =
     sql_try flt ''upsert token metric'' d
      (if \<exists>r\<in>set (session_token_metrics d). tm_litellm_request_id row \<noteq> None \<and>
            tm_litellm_request_id r = tm_litellm_request_id row
       then (Inr (), d)
       else (Inr (), d\<lparr>session_token_metrics := session_token_metrics d @
         [row\<lparr>tm_id := next_metric_id (session_token_metrics d),
              tm_request_time := truncate_second (tm_request_time row), tm_synced_at := truncate_second clock\<rparr>]\<rparr>))"

definition GetTokenMetrics :: "faults \<Rightarrow> string \<Rightarrow> review_db \<Rightarrow> error + TokenMetricRow list" where
  "GetTokenMetrics flt sid d =
     stmt flt ''get token metrics''
       (Inr (sql_order tm_request_time (filter (\<lambda>r. tm_session_id r = sid) (session_token_metrics d))))"

definition GetLatestSyncedRequestTime :: "faults \<Rightarrow> review_db \<Rightarrow> error + gotime" where
  "GetLatestSyncedRequestTime flt d =
     stmt flt ''latest request time''
      (case map tm_request_time (session_token_metrics d) of
         [] \<Rightarrow> Inr zero_time
       | t # ts \<Rightarrow> Inr (foldr max ts t))"

record TokenMetricSummary =
  ts_session_id :: string
  ts_total_requests :: int
  ts_total_prompt_tokens :: int
  ts_total_completion_tokens :: int
  ts_peak_cumulative_prompt_tokens :: int
  ts_avg_prompt_per_request :: rat
  ts_models :: "string list"
  ts_context_pressure :: string
  ts_last_compact_at :: "gotime option"
  ts_compact_count :: int

definition summary_add :: "TokenMetricRow \<Rightarrow> TokenMetricSummary \<Rightarrow> TokenMetricSummary" where
  "summary_add r s = s\<lparr>ts_total_requests := ts_total_requests s + 1,
     ts_total_prompt_tokens := int64 (ts_total_prompt_tokens s + tm_prompt_tokens r),
     ts_total_completion_tokens := int64 (ts_total_completion_tokens s + tm_completion_tokens r),
     ts_peak_cumulative_prompt_tokens :=
       (if tm_cumulative_prompt_tokens r > ts_peak_cumulative_prompt_tokens s then tm_cumulative_prompt_tokens r
        else ts_peak_cumulative_prompt_tokens s),
     ts_models := (if tm_model r \<in> set (ts_models s) then ts_models s else ts_models s @ [tm_model r])\<rparr>"

definition empty_summary :: "string \<Rightarrow> TokenMetricSummary" where
  "empty_summary sid = \<lparr>ts_session_id = sid, ts_total_requests = 0, ts_total_prompt_tokens = 0,
     ts_total_completion_tokens = 0, ts_peak_cumulative_prompt_tokens = 0, ts_avg_prompt_per_request = 0,
     ts_models = [], ts_context_pressure = '''', ts_last_compact_at = None, ts_compact_count = 0\<rparr>"

text \<open>
  The column \<open>context_pressure\<close> is never \<open>NULL\<close> in this program (its default is
  \<open>normal\<close>), so the default branch is the one of a missing session. The float quotient is the
  rational one.
\<close>

definition GetTokenMetricSummary :: "faults \<Rightarrow> string \<Rightarrow> review_db \<Rightarrow> error + TokenMetricSummary" where
  "GetTokenMetricSummary flt sid d =
     stmt flt ''token summary'' (
       let rows = sql_order tm_request_time (filter (\<lambda>r. tm_session_id r = sid) (session_token_metrics d));
           s1 = fold summary_add rows (empty_summary sid);
           s2 = (if ts_total_requests s1 > 0
                 then s1\<lparr>ts_avg_prompt_per_request := of_int (ts_total_prompt_tokens s1) / of_int (ts_total_requests s1)\<rparr>
                 else s1)
       in stmt flt ''session row''
        (case sql_row (\<lambda>s. s_session_id s = sid) (agent_sessions (agents d)) of
           None \<Rightarrow> Inr (s2\<lparr>ts_context_pressure := ''normal''\<rparr>)
         | Some s \<Rightarrow> Inr (s2\<lparr>ts_context_pressure := s_context_pressure s, ts_compact_count := s_compact_count s,
                          ts_last_compact_at := s_last_compact_at s\<rparr>)))"

section \<open>Merge readiness\<close>

datatype MergePredicate =
    PredicateApproved | PredicateCIGreen | PredicateNoUnresolvedConvo
  | PredicateNoPendingEvents | PredicateGateChecksPassed | PredicateNoBlockingReasons

definition AllMergePredicates :: "MergePredicate list" where
  "AllMergePredicates = [PredicateApproved, PredicateCIGreen, PredicateNoUnresolvedConvo,
     PredicateNoPendingEvents, PredicateGateChecksPassed, PredicateNoBlockingReasons]"

record MergePredicateResult =
  mp_predicate :: MergePredicate
  mp_passed :: bool
  mp_reason :: string

record MergeReadinessResult =
  mr_ready :: bool
  mr_results :: "MergePredicateResult list"
  mr_blocking_reasons :: "string list"
  mr_passed_count :: int
  mr_total_predicates :: int

definition ternaryReason :: "bool \<Rightarrow> string \<Rightarrow> string \<Rightarrow> string" where
  "ternaryReason ok pass fail = (if ok then pass else fail)"

text \<open>\<open>MAX(finished_at)\<close> of a branch's runs: \<open>NULL\<close> when no run has finished.\<close>

definition latest_finish :: "string \<Rightarrow> string \<Rightarrow> run_row list \<Rightarrow> gotime option" where
  "latest_finish repo branch runs =
     (case List.map_filter rr_finished_at (filter (\<lambda>r. rr_repo r = repo \<and> rr_branch r = branch) runs) of
        [] \<Rightarrow> None | t # ts \<Rightarrow> Some (foldr max ts t))"

definition failed_gates :: "string \<Rightarrow> db \<Rightarrow> nat" where
  "failed_gates bid c =
     length [r \<leftarrow> review_runs c. rr_status r = ''failed'' \<and> rr_finished_at r \<noteq> None \<and>
       rr_finished_at r = latest_finish (rr_repo r) (rr_branch r) (review_runs c) \<and>
       (\<exists>b\<in>set (branch_states c). b_id b = bid \<and> at_branch (rr_repo r) (rr_branch r) b)]"

text \<open>The loop over the results.\<close>

fun tally_results ::
  "MergePredicateResult list \<Rightarrow> bool \<Rightarrow> string list \<Rightarrow> int \<Rightarrow> bool \<times> string list \<times> int" where
  "tally_results [] ready blocking passed = (ready, blocking, passed)"
| "tally_results (r # rs) ready blocking passed =
     (if mp_passed r then tally_results rs ready blocking (passed + 1)
      else tally_results rs False (if mp_reason r \<noteq> '''' then blocking @ [mp_reason r] else blocking) passed)"

definition merge_results :: "branch_row \<Rightarrow> nat \<Rightarrow> MergePredicateResult list" where
  "merge_results r failed =
    [\<lparr>mp_predicate = PredicateApproved, mp_passed = b_approved r \<noteq> 0,
      mp_reason = ternaryReason (b_approved r \<noteq> 0) '''' ''PR not approved''\<rparr>,
     \<lparr>mp_predicate = PredicateCIGreen, mp_passed = b_ci_green r \<noteq> 0,
      mp_reason = ternaryReason (b_ci_green r \<noteq> 0) '''' ''CI checks not green''\<rparr>,
     \<lparr>mp_predicate = PredicateNoUnresolvedConvo, mp_passed = b_unresolved_threads r = 0,
      mp_reason = ternaryReason (b_unresolved_threads r = 0) ''''
        (FormatInt (b_unresolved_threads r) @ '' unresolved review threads'')\<rparr>,
     \<lparr>mp_predicate = PredicateNoPendingEvents, mp_passed = b_pending_events r = 0,
      mp_reason = ternaryReason (b_pending_events r = 0) '''' (FormatInt (b_pending_events r) @ '' pending webhook events'')\<rparr>,
     \<lparr>mp_predicate = PredicateGateChecksPassed, mp_passed = failed = 0,
      mp_reason = ternaryReason (failed = 0) '''' ''latest gate run failed''\<rparr>,
     \<lparr>mp_predicate = PredicateNoBlockingReasons, mp_passed = b_state r \<noteq> StateBlocked,
      mp_reason = ternaryReason (b_state r \<noteq> StateBlocked) '''' ''branch is in blocked state''\<rparr>]"

definition EvaluateMergeReadiness :: "faults \<Rightarrow> string \<Rightarrow> review_db \<Rightarrow> error + MergeReadinessResult" where
  "EvaluateMergeReadiness flt bid d =
     stmt flt ''branch state''
      (case sql_row (\<lambda>r. b_id r = bid) (branch_states (core (agents d))) of
         None \<Rightarrow> Inl ErrNoRows
       | Some r \<Rightarrow>
         let failed = (case flt ''failed gates'' of Some _ \<Rightarrow> 0 | None \<Rightarrow> failed_gates bid (core (agents d)));
             results = merge_results r failed
         in case tally_results results True [] 0 of (ready, blocking, passed) \<Rightarrow>
           Inr \<lparr>mr_ready = ready, mr_results = results, mr_blocking_reasons = blocking, mr_passed_count = passed,
                mr_total_predicates = int (length results)\<rparr>)"

lemma foldr_max_ge: "x \<in> set (t # ts) \<Longrightarrow> x \<le> foldr max ts (t :: 'a :: linorder)"
  by (induction ts) (auto simp: le_max_iff_disj)

lemma foldr_max_mem: "foldr max ts (t :: 'a :: linorder) \<in> set (t # ts)"
  by (induction ts) (auto simp: max_def)

text \<open>The latest finish is the finish of a run of the branch, and no run of it finished later.\<close>

lemma latest_finish_is:
  assumes r: "r \<in> set runs" "rr_repo r = repo" "rr_branch r = branch" "rr_finished_at r = Some t"
  shows "rr_finished_at r = latest_finish repo branch runs \<longleftrightarrow>
    (\<forall>q\<in>set runs. \<forall>u. rr_repo q = repo \<and> rr_branch q = branch \<and> rr_finished_at q = Some u \<longrightarrow> u \<le> t)"
proof -
  let ?ts = "List.map_filter rr_finished_at (filter (\<lambda>r. rr_repo r = repo \<and> rr_branch r = branch) runs)"
  have mem: "u \<in> set ?ts \<longleftrightarrow> (\<exists>q\<in>set runs. rr_repo q = repo \<and> rr_branch q = branch \<and> rr_finished_at q = Some u)" for u
    by (force simp: map_filter_def)
  have t: "t \<in> set ?ts"
    using r by (auto simp only: mem)
  then obtain x xs where xs: "?ts = x # xs"
    by (cases ?ts) auto
  have le: "u \<le> foldr max xs x" if "u \<in> set ?ts" for u
    using that foldr_max_ge [of u x xs] by (simp only: xs)
  have "foldr max xs x \<in> set ?ts"
    using foldr_max_mem [of xs x] by (simp only: xs)
  then have "foldr max xs x = t \<longleftrightarrow> (\<forall>u\<in>set ?ts. u \<le> t)"
    using le t by (metis order.antisym)
  moreover have "latest_finish repo branch runs = Some (foldr max xs x)"
    by (simp add: latest_finish_def xs)
  ultimately have "rr_finished_at r = latest_finish repo branch runs \<longleftrightarrow> (\<forall>u\<in>set ?ts. u \<le> t)"
    using r(4) by auto
  then show ?thesis
    unfolding Ball_def mem by blast
qed

definition gate_failed :: "branch_row \<Rightarrow> db \<Rightarrow> bool" where
  "gate_failed b c \<longleftrightarrow> (\<exists>r\<in>set (review_runs c). \<exists>t. at_branch (rr_repo r) (rr_branch r) b \<and> rr_status r = ''failed'' \<and>
     rr_finished_at r = Some t \<and>
     (\<forall>q\<in>set (review_runs c). \<forall>u. at_branch (rr_repo q) (rr_branch q) b \<and> rr_finished_at q = Some u \<longrightarrow> u \<le> t))"

lemma failed_gates_gate_failed:
  assumes "schema_ok c" "b \<in> set (branch_states c)"
  shows "failed_gates (b_id b) c = 0 \<longleftrightarrow> \<not> gate_failed b c"
proof -
  have uniq: "(\<exists>b'\<in>set (branch_states c). b_id b' = b_id b \<and> P b') \<longleftrightarrow> P b" for P
    using schema_ok_id_unique [OF assms(1) _ assms(2)] assms(2) by blast
  have last: "rr_finished_at r \<noteq> None \<and> rr_finished_at r = latest_finish (rr_repo r) (rr_branch r) (review_runs c) \<longleftrightarrow>
      (\<exists>t. rr_finished_at r = Some t \<and> (\<forall>q\<in>set (review_runs c). \<forall>u. at_branch (rr_repo q) (rr_branch q) b \<and>
         rr_finished_at q = Some u \<longrightarrow> u \<le> t))"
    if "r \<in> set (review_runs c)" "at_branch (rr_repo r) (rr_branch r) b" for r
  proof -
    have "at_branch (rr_repo q) (rr_branch q) b \<longleftrightarrow> rr_repo q = rr_repo r \<and> rr_branch q = rr_branch r" for q
      using that(2) by (auto simp: at_branch_def)
    then show ?thesis
      using latest_finish_is [OF that(1) refl refl] by (cases "rr_finished_at r") auto
  qed
  have "failed_gates (b_id b) c = 0 \<longleftrightarrow> (\<forall>r\<in>set (review_runs c). \<not> (rr_status r = ''failed'' \<and>
      (rr_finished_at r \<noteq> None \<and> rr_finished_at r = latest_finish (rr_repo r) (rr_branch r) (review_runs c)) \<and>
      at_branch (rr_repo r) (rr_branch r) b))"
    unfolding failed_gates_def length_0_conv filter_empty_conv uniq by blast
  also have "\<dots> \<longleftrightarrow> \<not> gate_failed b c"
    unfolding gate_failed_def using last by blast
  finally show ?thesis .
qed

text \<open>What the loop computes: readiness is that every result passed, and each failing one is named once.\<close>

lemma tally_results_is:
  "(\<forall>r\<in>set rs. mp_passed r \<or> mp_reason r \<noteq> '''') \<Longrightarrow>
   tally_results rs ready blocking passed =
     (ready \<and> list_all mp_passed rs, blocking @ map mp_reason (filter (\<lambda>r. \<not> mp_passed r) rs),
      passed + int (length (filter mp_passed rs)))"
  by (induction rs arbitrary: ready blocking passed) auto

lemma merge_results_reasons: "\<forall>r\<in>set (merge_results b n). mp_passed r \<or> mp_reason r \<noteq> ''''"
  by (simp add: merge_results_def ternaryReason_def)

definition demo_merge_db :: review_db where
  "demo_merge_db = empty_review_db\<lparr>agents := empty_agent_db\<lparr>core := empty_db\<lparr>
     branch_states := [(new_branch ''b1'' ''acme/api'' ''feature'' StateMergeReady 0)\<lparr>b_approved := 1, b_ci_green := 1\<rparr>],
     review_runs := [\<lparr>rr_id = ''r1'', rr_repo = ''acme/api'', rr_branch = ''feature'', rr_head_hash = ''h'',
       rr_provider = ''precommit'', rr_status = ''failed'', rr_started_at = Some 1, rr_finished_at = Some 2,
       rr_error = '''', rr_created_at = 2\<rparr>]\<rparr>\<rparr>\<rparr>"



end
