(* ===== verification/Delivery.thy ===== *)
theory Delivery
  imports Redis Branch_Store
begin

text \<open>
  The delivery stream (\<open>internal/delivery/delivery.go\<close>) and the webhook deduplicator
  (\<open>internal/webhook/dedup.go\<close>): both use Redis for coordination and SQLite as the durable
  source, and act on the pair of the server's state and the database. A payload is its JSON text, the
  result of \<open>json.Marshal\<close>.

  \<open>append_all\<close> is a sequence of appends in which any call may fail: the sequence numbers stay
  strictly increasing, also after Redis lost its data and \<open>InitSeqFloor\<close> ran.
\<close>

section \<open>The stream\<close>

definition encodeBranch :: "string \<Rightarrow> string" where
  "encodeBranch branch =
     (if branch = '''' then ''default''
      else map (\<lambda>c. if c = CHR '':'' then CHR ''_'' else c)
             (map (\<lambda>c. if c = CHR ''/'' then CHR ''_'' else c) branch))"

definition seqKey :: "string \<Rightarrow> string \<Rightarrow> error + string" where
  "seqKey repo branch = BuildKey repo ''seq'' (encodeBranch branch)"

definition seq_floor_script :: "'r redis_api \<Rightarrow> string \<Rightarrow> int \<Rightarrow> 'r \<Rightarrow> (string + unit) \<times> 'r" where
  "seq_floor_script api key flr s =
     (case rGET api key s of
        None \<Rightarrow> (Inr (), rSET api key (FormatInt flr) s)
      | Some cur \<Rightarrow> (case (lua_tonumber api cur, lua_tonumber api (FormatInt flr)) of
            (Some c, Some f) \<Rightarrow> (Inr (), if c < f then rSET api key (FormatInt flr) s else s)
          | _ \<Rightarrow> (Inl ''attempt to compare nil with number'', s)))"

definition InitSeqFloor ::
  "'r redis_api \<Rightarrow> rfaults \<Rightarrow> faults \<Rightarrow> string \<Rightarrow> string \<Rightarrow> 'r \<Rightarrow> db \<Rightarrow> (error + unit) \<times> 'r" where
  "InitSeqFloor api rf flt repo branch s d =
     (case GetDeliverySeqFloor flt repo branch d of
        Inl e \<Rightarrow> (Inl e, s)
      | Inr flr \<Rightarrow>
         if flr = 0 then (Inr (), s)
         else (case seqKey repo branch of
             Inl e \<Rightarrow> (Inl e, s)
           | Inr key \<Rightarrow>
              redis_call rf ''init seq floor'' (seq_floor_script api key flr) s
               (\<lambda>r s'. case r of Inl e \<Rightarrow> (Inl (RedisError e), s') | Inr _ \<Rightarrow> (Inr (), s'))))"

text \<open>
  \<open>Append\<close> returns the sequence number and the error: when the insert fails the number is
  claimed already.
\<close>

definition Append ::
  "'r redis_api \<Rightarrow> rfaults \<Rightarrow> faults \<Rightarrow> gotime \<Rightarrow> string \<Rightarrow> string \<Rightarrow> string \<Rightarrow> string \<Rightarrow> error + string \<Rightarrow>
   'r \<Rightarrow> db \<Rightarrow> (int \<times> error option) \<times> 'r \<times> db" where
  "Append api rf flt now repo branch headHash evType payload s d =
     (case payload of
        Inl e \<Rightarrow> ((0, Some e), s, d)
      | Inr payloadJSON \<Rightarrow>
        (case seqKey repo branch of
           Inl e \<Rightarrow> ((0, Some e), s, d)
         | Inr key \<Rightarrow>
           (case rf ''incr'' of
              Some (e, applied) \<Rightarrow>
                ((0, Some (RedisError e)), if applied then snd (rINCRBY api key 1 s) else s, d)
            | None \<Rightarrow>
              (case rINCRBY api key 1 s of
                 (None, s') \<Rightarrow> ((0, Some (RedisError ''ERR value is not an integer or out of range'')), s', d)
               | (Some seq, s') \<Rightarrow>
                 (case AppendDeliveryEvent flt now seq repo branch headHash evType payloadJSON d of
                    (Inl e, d') \<Rightarrow> ((seq, Some e), s', d')
                  | (Inr _, d') \<Rightarrow> ((seq, None), s', d'))))))"

definition AppendFindingBundle where
  "AppendFindingBundle api rf flt now repo branch headHash payload s d =
     Append api rf flt now repo branch headHash ''finding_bundle'' payload s d"

definition AppendSystem where
  "AppendSystem api rf flt now repo branch headHash marshal reason details s d =
     Append api rf flt now repo branch headHash ''system'' (marshal reason details) s d"

definition AppendStateTransition where
  "AppendStateTransition api rf flt now repo branch headHash marshal from to trigger s d =
     Append api rf flt now repo branch headHash ''state_transition'' (marshal from to trigger) s d"

definition Replay :: "faults \<Rightarrow> string \<Rightarrow> string \<Rightarrow> int \<Rightarrow> db \<Rightarrow> error + delivery_row list" where
  "Replay flt repo branch sinceSeq d = ListDeliveryEvents flt repo branch sinceSeq d"

definition CurrentSeq :: "'r redis_api \<Rightarrow> rfaults \<Rightarrow> faults \<Rightarrow> string \<Rightarrow> string \<Rightarrow> 'r \<Rightarrow> db \<Rightarrow> error + int" where
  "CurrentSeq api rf flt repo branch s d =
     (case seqKey repo branch of
        Inl e \<Rightarrow> Inl e
      | Inr key \<Rightarrow>
         (case rf ''get'' of
            Some _ \<Rightarrow> GetDeliverySeqFloor flt repo branch d
          | None \<Rightarrow> (case rGET api key s of
              None \<Rightarrow> GetDeliverySeqFloor flt repo branch d
            | Some v \<Rightarrow> (case ParseInt v of
                Some n \<Rightarrow> Inr n
              | None \<Rightarrow> GetDeliverySeqFloor flt repo branch d))))"

section \<open>The deduplicator\<close>

definition sanitizeForKey :: "string \<Rightarrow> string" where
  "sanitizeForKey s = (if s = '''' then ''empty'' else map (\<lambda>c. if c = CHR '':'' then CHR ''_'' else c) s)"

definition dedupKey :: "string \<Rightarrow> string \<Rightarrow> error + string" where
  "dedupKey repo deliveryID = BuildKey repo ''webhook'' (sanitizeForKey deliveryID)"

definition dedupTTL :: duration where
  "dedupTTL = 86400 * Second"

text \<open>Step 1, the Redis hot path: whether the key was there, and the key it set.\<close>

definition dedup_redis ::
  "'r redis_api \<Rightarrow> rfaults \<Rightarrow> string \<Rightarrow> string \<Rightarrow> 'r \<Rightarrow> bool \<times> string option \<times> 'r" where
  "dedup_redis api rf repo deliveryID s =
     (case dedupKey repo deliveryID of
        Inl _ \<Rightarrow> (False, None, s)
      | Inr key \<Rightarrow>
         (case rf ''setnx'' of
            Some (_, applied) \<Rightarrow>
              (False, None, if applied then snd (rSETNX api key ''1'' (dedupTTL div Millisecond) s) else s)
          | None \<Rightarrow> (case rSETNX api key ''1'' (dedupTTL div Millisecond) s of
              (True, s') \<Rightarrow> (False, Some key, s')
            | (False, s') \<Rightarrow> (True, None, s'))))"

definition Check ::
  "'r redis_api \<Rightarrow> rfaults \<Rightarrow> faults \<Rightarrow> gotime \<Rightarrow> string \<Rightarrow> string \<Rightarrow> string \<Rightarrow> 'r \<Rightarrow> db \<Rightarrow>
   (error + unit) \<times> 'r \<times> db" where
  "Check api rf flt now deliveryID eventType repo s d =
     (if deliveryID = '''' then (Inl (OtherError ''dedup: delivery_id must not be empty''), s, d)
      else (case dedup_redis api rf repo deliveryID s of
        (True, _, s') \<Rightarrow> (Inl ErrDuplicate, s', d)
      | (False, redisKey, s') \<Rightarrow>
         (case MarkWebhookDelivery flt now deliveryID eventType repo d of
            (Inl e, d') \<Rightarrow>
              (Inl e,
               (case redisKey of
                  None \<Rightarrow> s'
                | Some key \<Rightarrow> (case rf ''del'' of
                    None \<Rightarrow> rDEL api key s'
                  | Some (_, applied) \<Rightarrow> if applied then rDEL api key s' else s')),
               d')
          | (Inr inserted, d') \<Rightarrow> (if inserted then Inr () else Inl ErrDuplicate, s', d'))))"

definition IsKnown :: "faults \<Rightarrow> string \<Rightarrow> db \<Rightarrow> error + bool" where
  "IsKnown flt deliveryID d = IsWebhookProcessed flt deliveryID d"

section \<open>Sequence numbers\<close>

definition seq_key :: "string \<Rightarrow> string \<Rightarrow> string" where
  "seq_key repo branch = ''codero:'' @ repo @ '':seq:'' @ encodeBranch branch"

lemma encodeBranch_key [simp]: "key_part (encodeBranch branch)"
  by (auto simp: encodeBranch_def key_part_def)

lemma seqKey_eq [simp]: "key_part repo \<Longrightarrow> seqKey repo branch = Inr (seq_key repo branch)"
  by (simp add: seqKey_def seq_key_def)

text \<open>The counter is at least as large as every stored sequence number of the branch.\<close>

definition seq_ok :: "('r \<Rightarrow> string \<Rightarrow> entry) \<Rightarrow> 'r \<Rightarrow> db \<Rightarrow> string \<Rightarrow> string \<Rightarrow> int \<Rightarrow> bool" where
  "seq_ok view s d repo branch c \<longleftrightarrow>
     counter_at view s (seq_key repo branch) c \<and> 0 \<le> c \<and> (\<forall>x\<in>set (seqs_of repo branch d). x \<le> c)"

definition of_branch :: "string \<Rightarrow> string \<Rightarrow> delivery_row list \<Rightarrow> delivery_row list" where
  "of_branch repo branch es = filter (\<lambda>e. de_repo e = repo \<and> de_branch e = branch) es"

lemma seqs_of_branch: "seqs_of repo branch d = map de_seq (of_branch repo branch (delivery_events d))"
  by (simp add: seqs_of_def of_branch_def)

lemma AppendDeliveryEvent_fresh:
  assumes "seq \<notin> set (seqs_of repo branch d)"
  shows "AppendDeliveryEvent flt now seq repo branch h ty pl d =
    (case flt ''append delivery event'' of
       Some e \<Rightarrow> (Inl (DBError e), d)
     | None \<Rightarrow> (Inr (), d\<lparr>delivery_events := delivery_events d @
         [\<lparr>de_seq = seq, de_repo = repo, de_branch = branch, de_head_hash = h,
           de_event_type = ty, de_payload = pl, de_created_at = now\<rparr>]\<rparr>))"
  using assms by (auto simp: AppendDeliveryEvent_def sql_try_def seqs_of_def split: option.splits)

lemma foldl_max_bounds:
  "(\<forall>x\<in>set (a # xs). x \<le> foldl max (a :: int) xs) \<and> foldl max a xs \<in> set (a # xs)"
proof (induction xs arbitrary: a)
  case (Cons x xs)
  have "max a x = a \<or> max a x = x" by linarith
  then show ?case using Cons [of "max a x"] by (auto simp: max_def split: if_splits)
qed simp

lemma floor_total: "\<exists>f. GetDeliverySeqFloor no_faults repo branch d = Inr f"
  by (cases "seqs_of repo branch d") (simp_all add: GetDeliverySeqFloor_def)

lemma floor_bounds:
  assumes "GetDeliverySeqFloor no_faults repo branch d = Inr f"
  shows "(seqs_of repo branch d = [] \<longrightarrow> f = 0) \<and> (\<forall>x\<in>set (seqs_of repo branch d). x \<le> f) \<and>
    (seqs_of repo branch d \<noteq> [] \<longrightarrow> f \<in> set (seqs_of repo branch d))"
proof (cases "seqs_of repo branch d")
  case (Cons a xs)
  then have "f = foldl max a xs" using assms by (simp add: GetDeliverySeqFloor_def)
  then show ?thesis using foldl_max_bounds [of a xs] Cons by simp
qed (use assms in \<open>simp add: GetDeliverySeqFloor_def\<close>)

text \<open>One append: the number it claims is above all stored ones, and an event is stored iff it succeeds.\<close>

context redis_server
begin

lemma append_step:
  assumes "seq_ok view s d repo branch c" and "key_part repo" and "c < MaxInt64"
    and "Append api rf flt now repo branch h ty pl s d = ((seq, err), s', d')"
  shows "\<exists>c' new. seq_ok view s' d' repo branch c' \<and> c \<le> c' \<and> c' \<le> c + 1 \<and>
    delivery_events d' = delivery_events d @ new \<and>
    (if err = None then seq = c + 1 \<and> c' = c + 1 \<and> map de_seq new = [seq] \<and> of_branch repo branch new = new
     else new = [])"
proof -
  let ?key = "seq_key repo branch"
  have c: "counter_at view s ?key c" "0 \<le> c" and le: "\<forall>x\<in>set (seqs_of repo branch d). x \<le> c"
    using assms(1) by (auto simp: seq_ok_def)
  have i: "in_int64 c" "in_int64 (c + 1)" using c(2) assms(3) by (simp_all add: in_int64_def)
  note inc = counter_incr_at [OF c(1) i]
  have fresh: "c + 1 \<notin> set (seqs_of repo branch d)" using le by force
  have "(s' = s \<and> d' = d \<and> err \<noteq> None) \<or> (s' = snd (rINCRBY api ?key 1 s) \<and> d' = d \<and> err \<noteq> None) \<or>
     (s' = snd (rINCRBY api ?key 1 s) \<and> seq = c + 1 \<and> err = None \<and>
      (\<exists>x. delivery_events d' = delivery_events d @ [x] \<and> de_seq x = seq \<and> de_repo x = repo \<and> de_branch x = branch))"
    using assms(2,4) inc
    by (auto simp: Append_def AppendDeliveryEvent_fresh [OF fresh]
        split: sum.splits option.splits prod.splits if_splits)
  then show ?thesis
  proof (elim disjE conjE exE)
    assume "s' = s" "d' = d" "err \<noteq> None"
    then show ?thesis using assms(1) by (intro exI [of _ c] exI [of _ "[]"]) auto
  next
    assume e: "s' = snd (rINCRBY api ?key 1 s)" "d' = d" "err \<noteq> None"
    then have "seq_ok view s' d' repo branch (c + 1)"
      using inc c(2) le by (auto simp: seq_ok_def)
    then show ?thesis using e by (intro exI [of _ "c + 1"] exI [of _ "[]"]) auto
  next
    fix x
    assume e: "s' = snd (rINCRBY api ?key 1 s)" "seq = c + 1" "err = None"
      "delivery_events d' = delivery_events d @ [x]" "de_seq x = seq" "de_repo x = repo" "de_branch x = branch"
    then have "seq_ok view s' d' repo branch (c + 1)"
      using inc c(2) le by (auto simp: seq_ok_def seqs_of_branch of_branch_def)
    then show ?thesis
      using e by (intro exI [of _ "c + 1"] exI [of _ "[x]"]) (auto simp: of_branch_def)
  qed
qed

lemma init_floor_ok:
  assumes "counter_at view s (seq_key repo branch) c" and "0 \<le> c" and "c \<le> 9007199254740992"
    and "key_part repo" and "\<forall>x\<in>set (seqs_of repo branch d). 0 < x \<and> x \<le> 9007199254740992"
  shows "\<exists>c'. fst (InitSeqFloor api no_rfaults no_faults repo branch s d) = Inr () \<and>
    seq_ok view (snd (InitSeqFloor api no_rfaults no_faults repo branch s d)) d repo branch c' \<and>
    c \<le> c' \<and> c' \<le> 9007199254740992"
proof -
  obtain f where f: "GetDeliverySeqFloor no_faults repo branch d = Inr f"
    using floor_total by blast
  note fb = floor_bounds [OF f]
  show ?thesis
  proof (cases "f = 0")
    case True
    then have "seqs_of repo branch d = []" using fb assms(5) by force
    then show ?thesis
      using True f assms(1-3) by (auto simp: InitSeqFloor_def seq_ok_def)
  next
    case False
    then have ff: "0 < f" "f \<le> 9007199254740992" using fb assms(5) by force+
    have tn: "lua_tonumber api (FormatInt f) = Some f" "lua_tonumber api (FormatInt c) = Some c"
      using tonumber ff assms(2,3) by simp_all
    let ?r = "seq_floor_script api (seq_key repo branch) f s"
    have "fst ?r = Inr ()"
      and "counter_at view (snd ?r) (seq_key repo branch) (max c f)"
      using assms(1) get_absent [of s "seq_key repo branch"] get_str [of s "seq_key repo branch"] tn ff
      by (auto simp: seq_floor_script_def counter_at_def set_view max_def)
    then show ?thesis
      using False f fb ff assms(2,3,4)
      by (intro exI [of _ "max c f"]) (auto simp: InitSeqFloor_def seq_ok_def max_def)
  qed
qed

end

text \<open>A sequence of appends to one stream, each with its own failures.\<close>

fun append_all ::
  "'r redis_api \<Rightarrow> string \<Rightarrow> string \<Rightarrow> (rfaults \<times> faults \<times> gotime \<times> string \<times> string \<times> (error + string)) list \<Rightarrow>
   'r \<Rightarrow> db \<Rightarrow> (int \<times> error option) list \<times> 'r \<times> db" where
  "append_all api repo branch [] s d = ([], s, d)"
| "append_all api repo branch ((rf, flt, now, h, ty, pl) # as) s d =
     (case Append api rf flt now repo branch h ty pl s d of (r, s1, d1) \<Rightarrow>
       (case append_all api repo branch as s1 d1 of (rs, s2, d2) \<Rightarrow> (r # rs, s2, d2)))"

definition claimed :: "(int \<times> error option) list \<Rightarrow> int list" where
  "claimed rs = map fst (filter (\<lambda>r. snd r = None) rs)"

context redis_server
begin

lemma append_all_ok:
  assumes "seq_ok view s d repo branch c" and "key_part repo" and "c + int (length as) \<le> MaxInt64"
    and "append_all api repo branch as s d = (rs, s', d')"
  shows "\<exists>news. delivery_events d' = delivery_events d @ news \<and> of_branch repo branch news = news \<and>
    map de_seq news = claimed rs \<and> sorted_wrt (<) (c # claimed rs)"
  using assms
proof (induction as arbitrary: s d c rs)
  case (Cons a as)
  obtain rf flt now h ty pl where a: "a = (rf, flt, now, h, ty, pl)" by (cases a)
  obtain q er s1 d1 where r: "Append api rf flt now repo branch h ty pl s d = ((q, er), s1, d1)"
    by (metis prod.exhaust)
  obtain rs1 where rs: "append_all api repo branch as s1 d1 = (rs1, s', d')" "rs = (q, er) # rs1"
    using Cons.prems(4) r a by (auto split: prod.splits)
  from append_step [OF Cons.prems(1,2) _ r] Cons.prems(3) obtain c1 new where
    c1: "seq_ok view s1 d1 repo branch c1" "c \<le> c1" "c1 \<le> c + 1"
    "delivery_events d1 = delivery_events d @ new"
    "if er = None then q = c + 1 \<and> c1 = c + 1 \<and> map de_seq new = [q] \<and> of_branch repo branch new = new
     else new = []" by auto
  have "c1 + int (length as) \<le> MaxInt64" using Cons.prems(3) c1(3) by simp
  from Cons.IH [OF c1(1) Cons.prems(2) this rs(1)] obtain news where
    n: "delivery_events d' = delivery_events d1 @ news" "of_branch repo branch news = news"
    "map de_seq news = claimed rs1" "sorted_wrt (<) (c1 # claimed rs1)" by blast
  show ?case
    using n c1(2,4,5) rs(2)
    by (intro exI [of _ "new @ news"]) (auto simp: claimed_def of_branch_def split: if_splits)
qed (simp add: claimed_def of_branch_def)

end

lemma replay_new:
  assumes "delivery_events d' = delivery_events d @ news" and "of_branch repo branch news = news"
    and "\<forall>x\<in>set (seqs_of repo branch d). x \<le> f" and "sorted_wrt (<) (f # map de_seq news)"
  shows "Replay no_faults repo branch f d' = Inr news"
proof -
  have old: "filter (\<lambda>e. de_repo e = repo \<and> de_branch e = branch \<and> f < de_seq e) (delivery_events d) = []"
    using assms(3) by (auto simp: filter_empty_conv seqs_of_def)
  have nw: "\<forall>e\<in>set news. de_repo e = repo \<and> de_branch e = branch \<and> f < de_seq e"
    using assms(2,4) by (auto simp: of_branch_def filter_id_conv)
  have "sorted (map de_seq news)"
    using assms(4) strict_sorted_imp_sorted [of "map de_seq news"] by simp
  then have "sort_key de_seq news = news" by (rule sort_key_id_if_sorted)
  then show ?thesis
    using old nw by (simp add: Replay_def ListDeliveryEvents_def sql_order_def assms(1) filter_id_conv)
qed

section \<open>Properties of the stream and of the deduplicator\<close>

text \<open>
  C8: sequence numbers survive the loss of Redis. Whatever the counter holds (nothing, after a
  restart), \<open>InitSeqFloor\<close> raises it to the durable floor; then in any sequence of appends, with
  failures of the network and of the database at any point, the numbers of the appends that succeed
  are strictly increasing and above every number stored before, exactly these events are added, and
  \<open>Replay\<close> from the old floor returns them in the order of the appends.
\<close>

theorem delivery_stream_monotone:
  assumes "redis_server api view" and "key_part repo"
    and "counter_at view s (seq_key repo branch) c" and "0 \<le> c" and "c \<le> 9007199254740992"
    and "\<forall>x\<in>set (seqs_of repo branch d). 0 < x \<and> x \<le> 9007199254740992"
    and "InitSeqFloor api no_rfaults no_faults repo branch s d = (r0, s1)"
    and "append_all api repo branch as s1 d = (rs, s2, d2)"
    and "int (length as) \<le> MaxInt64 - 9007199254740992"
    and "GetDeliverySeqFloor no_faults repo branch d = Inr f"
  shows "r0 = Inr () \<and> sorted_wrt (<) (f # claimed rs) \<and>
    (\<exists>news. delivery_events d2 = delivery_events d @ news \<and> map de_seq news = claimed rs \<and>
       Replay no_faults repo branch f d2 = Inr news)"
proof -
  obtain c' where c': "r0 = Inr ()" "seq_ok view s1 d repo branch c'" "c' \<le> 9007199254740992"
    using redis_server.init_floor_ok [OF assms(1,3,4,5,2,6)] assms(7) by auto
  have "c' + int (length as) \<le> MaxInt64" using c'(3) assms(9) by simp
  from redis_server.append_all_ok [OF assms(1) c'(2) assms(2) this assms(8)] obtain news where
    n: "delivery_events d2 = delivery_events d @ news" "of_branch repo branch news = news"
    "map de_seq news = claimed rs" "sorted_wrt (<) (c' # claimed rs)" by blast
  note fb = floor_bounds [OF assms(10)]
  have "f \<le> c'" using fb c'(2) by (cases "seqs_of repo branch d = []") (auto simp: seq_ok_def)
  then have srt: "sorted_wrt (<) (f # claimed rs)" using n(4) by auto
  then show ?thesis
    using c'(1) n replay_new [OF n(1,2), of f] fb by auto
qed

theorem delivery_stream_monotone_witness:
  "\<exists>rs s2 d2. append_all mem_api ''acme'' ''feat/x''
      [(no_rfaults, no_faults, 1, ''h'', ''system'', Inr ''{}''),
       (no_rfaults, \<lambda>_. Some ''disk full'', 2, ''h'', ''system'', Inr ''{}''),
       (no_rfaults, no_faults, 3, ''h'', ''system'', Inr ''{}'')] (\<lambda>_. Absent) empty_db = (rs, s2, d2) \<and>
     sorted_wrt (<) (0 # claimed rs)"
proof -
  let ?as = "[(no_rfaults, no_faults, 1, ''h'', ''system'', Inr ''{}''),
       (no_rfaults, \<lambda>_. Some ''disk full'', 2, ''h'', ''system'', Inr ''{}''),
       (no_rfaults, no_faults, 3, ''h'', ''system'', Inr ''{}'')]"
  obtain rs s2 d2 where a: "append_all mem_api ''acme'' ''feat/x'' ?as (\<lambda>_. Absent) empty_db = (rs, s2, d2)"
    by (metis prod.exhaust)
  have k: "key_part ''acme''" and c: "counter_at mem_view (\<lambda>_. Absent) (seq_key ''acme'' ''feat/x'') 0"
    by (simp_all add: key_part_def counter_at_def mem_view_def)
  have z: "GetDeliverySeqFloor no_faults ''acme'' ''feat/x'' empty_db = Inr 0" "seqs_of ''acme'' ''feat/x'' empty_db = []"
    by (simp_all add: GetDeliverySeqFloor_def seqs_of_def empty_db_def)
  have i: "InitSeqFloor mem_api no_rfaults no_faults ''acme'' ''feat/x'' (\<lambda>_. Absent) empty_db = (Inr (), \<lambda>_. Absent)"
    by (simp add: InitSeqFloor_def z)
  have "sorted_wrt (<) (0 # claimed rs)"
    using delivery_stream_monotone [OF mem.redis_server_axioms k c _ _ _ i a _ z(1)] z(2) by simp
  with a show ?thesis by blast
qed

text \<open>
  A webhook delivery is accepted at most once, whatever happens to Redis. After \<open>Check\<close>
  accepted a delivery, every later \<open>Check\<close> of it with a working database answers
  \<open>ErrDuplicate\<close>, for any state of the Redis server (its data may be lost) and any network
  failure; and when the first \<open>Check\<close> fails in the database with a working Redis, the hot-path key
  is rolled back, so that a retry is accepted.
\<close>

theorem dedup_accepts_once:
  assumes "redis_server api view"
  shows "(Check api rf flt now did ty repo s d = (Inr (), s1, d1) \<and>
      (store_step lib)\<^sup>*\<^sup>* d1 d2 \<longrightarrow>
      fst (Check api rf2 no_faults now2 did ty2 repo2 any d2) = Inl ErrDuplicate) \<and>
    (did \<noteq> '''' \<and> (\<forall>w\<in>set (webhook_deliveries d). wd_delivery_id w \<noteq> did) \<and>
      key_part repo \<and> (\<forall>k. dedupKey repo did = Inr k \<longrightarrow> view s k = Absent) \<and>
      flt ''mark webhook delivery'' = Some e \<and> Check api no_rfaults flt now did ty repo s d = (r, s1', d1') \<longrightarrow>
      r = Inl (DBError e) \<and> fst (Check api no_rfaults no_faults now2 did ty repo s1' d1') = Inr ())"
proof (intro conjI impI)
  assume a: "Check api rf flt now did ty repo s d = (Inr (), s1, d1) \<and> (store_step lib)\<^sup>*\<^sup>* d1 d2"
  have ne: "did \<noteq> ''''" and m: "MarkWebhookDelivery flt now did ty repo d = (Inr True, d1)"
    using a by (auto simp: Check_def split: if_splits prod.splits bool.splits sum.splits)
  have "\<exists>w\<in>set (webhook_deliveries d1). wd_delivery_id w = did"
    using m by (auto simp: MarkWebhookDelivery_def sql_try_def split: option.splits if_splits)
  then have "\<exists>w\<in>set (webhook_deliveries d2). wd_delivery_id w = did"
    using store_steps_webhooks [of lib d1 d2] a by auto
  then have "MarkWebhookDelivery no_faults now2 did ty2 repo2 d2 = (Inr False, d2)"
    by (auto simp: MarkWebhookDelivery_def)
  then show "fst (Check api rf2 no_faults now2 did ty2 repo2 any d2) = Inl ErrDuplicate"
    using ne by (auto simp: Check_def split: prod.splits bool.splits)
next
  assume a: "did \<noteq> '''' \<and> (\<forall>w\<in>set (webhook_deliveries d). wd_delivery_id w \<noteq> did) \<and>
      key_part repo \<and> (\<forall>k. dedupKey repo did = Inr k \<longrightarrow> view s k = Absent) \<and>
      flt ''mark webhook delivery'' = Some e \<and> Check api no_rfaults flt now did ty repo s d = (r, s1', d1')"
  let ?k = "''codero:'' @ repo @ '':webhook:'' @ sanitizeForKey did"
  have key: "dedupKey repo did = Inr ?k"
    using a by (auto simp: dedupKey_def key_part_def sanitizeForKey_def)
  let ?t = "dedupTTL div Millisecond"
  have t: "0 < ?t" by (simp add: dedupTTL_def)
  have red: "dedup_redis api no_rfaults repo did x = (False, Some ?k, snd (rSETNX api ?k ''1'' ?t x))"
    if "view x ?k = Absent" for x
    using redis_server.setnx [OF assms t, of ?k "''1''" x] that key
    by (auto simp: dedup_redis_def split: prod.splits)
  have fail: "MarkWebhookDelivery flt now did ty repo d = (Inl (DBError e), d)"
    using a by (simp add: MarkWebhookDelivery_def sql_try_def)
  have c: "r = Inl (DBError e)" "d1' = d" "s1' = rDEL api ?k (snd (rSETNX api ?k ''1'' ?t s))"
    using a red [of s] key fail by (auto simp: Check_def)
  then have "view s1' ?k = Absent" using redis_server.del [OF assms] by simp
  moreover have "fst (MarkWebhookDelivery no_faults now2 did ty repo d) = Inr True"
    using a by (auto simp: MarkWebhookDelivery_def)
  ultimately show "fst (Check api no_rfaults no_faults now2 did ty repo s1' d1') = Inr ()"
    using red [of s1'] a c(2) by (auto simp: Check_def split: prod.splits)
  show "r = Inl (DBError e)" by (rule c(1))
qed

theorem dedup_accepts_once_witness:
  "let (r1, s1, d1) = Check mem_api no_rfaults no_faults 1 ''d-1'' ''push'' ''acme'' (\<lambda>_. Absent) empty_db
   in r1 = Inr () \<and> fst (Check mem_api no_rfaults no_faults 2 ''d-1'' ''push'' ''acme'' (\<lambda>_. Absent) d1) = Inl ErrDuplicate"
proof -
  obtain r1 s1 d1 where c: "Check mem_api no_rfaults no_faults 1 ''d-1'' ''push'' ''acme'' (\<lambda>_. Absent) empty_db = (r1, s1, d1)"
    by (metis prod.exhaust)
  then have "r1 = Inr ()"
    by (simp add: Check_def dedup_redis_def dedupKey_def sanitizeForKey_def key_part_def mem_api_def mem_view_def
        MarkWebhookDelivery_def empty_db_def BuildKey_def validateKeyPart_def)
  then show ?thesis
    using c dedup_accepts_once [OF mem.redis_server_axioms, of no_rfaults no_faults 1 "''d-1''" "''push''" "''acme''"
        "\<lambda>_. Absent" empty_db s1 d1 list_fsm d1 no_rfaults 2 "''push''" "''acme''" "\<lambda>_. Absent"]
    by simp
qed

end
