(* ===== verification/Expiry.thy ===== *)
theory Expiry
  imports Queue Delivery Session_Inv
begin

text \<open>
  The expiry worker, \<open>internal/scheduler/expiry.go\<close>: the lease audit, which re-queues or blocks
  branches whose review lease ran out, and the session expiry, which runs the rule monitor, checks tmux
  (a parameter, \<open>has_session\<close>) and expires silent sessions and branches. The two tickers of
  \<open>Run\<close> call one cycle each; a cycle is a definition here. The Redis state is \<open>s\<close>, and
  \<open>marshal\<close> is the JSON text of a system event.
\<close>

section \<open>The time to live from the environment\<close>

text \<open>\<open>time.Duration(seconds) * time.Second\<close> is an \<open>int64\<close> product.\<close>

definition sessionHeartbeatTTLFromEnv :: "string \<Rightarrow> duration" where
  "sessionHeartbeatTTLFromEnv raw =
     (if raw = '''' then 1800 * Second
      else case ParseInt raw of
        None \<Rightarrow> 1800 * Second
      | Some seconds \<Rightarrow> if seconds \<le> 0 then 1800 * Second else int64 (seconds * Second))"

section \<open>Lease audit\<close>

definition auditExpiredLease ::
  "fsm_lib \<Rightarrow> 'r redis_api \<Rightarrow> rfaults \<Rightarrow> faults \<Rightarrow> gotime \<Rightarrow> (string \<Rightarrow> string \<Rightarrow> error + string) \<Rightarrow> BranchRecord \<Rightarrow>
   'r \<Rightarrow> db \<Rightarrow> (error + unit) \<times> 'r \<times> db" where
  "auditExpiredLease lib api rf flt now marshal b s d =
     (case IncrementRetryCount (at_site ''retry'' flt) (truncate_second now) (ID b) d of
        (Inl e, d1) \<Rightarrow> (Inl e, s, d1)
      | (Inr newCount, d1) \<Rightarrow>
         (case AppendSystem api (at_site ''event'' rf) (at_site ''event'' flt) now (Repo b) (Branch b) (HeadHash b) marshal
             ''lease_expired'' ''review lease expired without completion; branch re-queued or blocked'' s d1 of
            (_, s2, d2) \<Rightarrow>
              if newCount \<ge> MaxRetries b then
                (let d3 = snd (ClearLeaseInfo (at_site ''clear'' flt) (truncate_second now) (ID b) d2) in
                 case TransitionBranch lib (at_site ''block'' flt) (truncate_second now) (ID b)
                     StateCLIReviewing StateBlocked ''lease_expired_max_retries'' d3 of
                   (r, d4) \<Rightarrow> (r, s2, d4))
              else
                (case Enqueue api (at_site ''enqueue'' rf) (queue_entry (Repo b) (Branch b) (real_of_int (QueuePriority b))) s2 of
                   (Inl e, s3) \<Rightarrow> (Inl e, s3, d2)
                 | (Inr _, s3) \<Rightarrow>
                    (let d3 = snd (ClearLeaseInfo (at_site ''clear'' flt) (truncate_second now) (ID b) d2) in
                     case TransitionBranch lib (at_site ''requeue'' flt) (truncate_second now) (ID b)
                         StateCLIReviewing StateQueuedCLI ''lease_expired_requeue'' d3 of
                       (r, d4) \<Rightarrow> (r, s3, d4)))))"

text \<open>The loop goes on after an error of one branch.\<close>

fun audit_leases ::
  "fsm_lib \<Rightarrow> 'r redis_api \<Rightarrow> rfaults \<Rightarrow> faults \<Rightarrow> gotime \<Rightarrow> (string \<Rightarrow> string \<Rightarrow> error + string) \<Rightarrow> BranchRecord list \<Rightarrow>
   'r \<Rightarrow> db \<Rightarrow> 'r \<times> db" where
  "audit_leases lib api rf flt now marshal [] s d = (s, d)"
| "audit_leases lib api rf flt now marshal (b # bs) s d =
     (case auditExpiredLease lib api (at_site (ID b) rf) (at_site (ID b) flt) now marshal b s d of
        (_, s', d') \<Rightarrow> audit_leases lib api rf flt now marshal bs s' d')"

definition runLeaseAudit ::
  "fsm_lib \<Rightarrow> 'r redis_api \<Rightarrow> rfaults \<Rightarrow> faults \<Rightarrow> gotime \<Rightarrow> (string \<Rightarrow> string \<Rightarrow> error + string) \<Rightarrow> 'r \<Rightarrow> db \<Rightarrow> 'r \<times> db" where
  "runLeaseAudit lib api rf flt now marshal s d =
     (case ListExpiredLeases (at_site ''list'' flt) now d of
        Inl e \<Rightarrow> (s, d)
      | Inr expired \<Rightarrow> audit_leases lib api rf flt now marshal expired s d)"

section \<open>Session expiry\<close>

definition expireSession ::
  "fsm_lib \<Rightarrow> 'r redis_api \<Rightarrow> rfaults \<Rightarrow> faults \<Rightarrow> gotime \<Rightarrow> (string \<Rightarrow> string \<Rightarrow> error + string) \<Rightarrow> BranchRecord \<Rightarrow>
   'r \<Rightarrow> db \<Rightarrow> (error + unit) \<times> 'r \<times> db" where
  "expireSession lib api rf flt now marshal b s d =
     (case TransitionBranch lib (at_site ''abandon'' flt) (truncate_second now) (ID b) (State b) StateAbandoned
         ''session_heartbeat_expired'' d of
        (Inl e, d1) \<Rightarrow> (Inl e, s, d1)
      | (Inr _, d1) \<Rightarrow>
         (case AppendSystem api (at_site ''event'' rf) (at_site ''event'' flt) now (Repo b) (Branch b) (HeadHash b) marshal
             ''session_expired''
             ''branch abandoned due to session heartbeat TTL expiry; use 'codero reactivate' to restore'' s d1 of
            (_, s2, d2) \<Rightarrow> (Inr (), s2, d2)))"

fun expire_branches ::
  "fsm_lib \<Rightarrow> 'r redis_api \<Rightarrow> rfaults \<Rightarrow> faults \<Rightarrow> gotime \<Rightarrow> (string \<Rightarrow> string \<Rightarrow> error + string) \<Rightarrow> BranchRecord list \<Rightarrow>
   'r \<Rightarrow> db \<Rightarrow> 'r \<times> db" where
  "expire_branches lib api rf flt now marshal [] s d = (s, d)"
| "expire_branches lib api rf flt now marshal (b # bs) s d =
     (case expireSession lib api (at_site (ID b) rf) (at_site (ID b) flt) now marshal b s d of
        (_, s', d') \<Rightarrow> expire_branches lib api rf flt now marshal bs s' d')"

text \<open>Both loops over agent sessions go on after an error.\<close>

fun expire_sessions ::
  "faults \<Rightarrow> gotime \<Rightarrow> (string \<Rightarrow> string) \<Rightarrow> string \<Rightarrow> AgentSession list \<Rightarrow> agent_db \<Rightarrow> agent_db" where
  "expire_sessions flt now uuid reason [] d = d"
| "expire_sessions flt now uuid reason (x # xs) d =
     expire_sessions flt now uuid reason xs
       (snd (ExpireAgentSession (at_site (s_session_id x) flt) now (\<lambda>n. uuid (s_session_id x @ n)) (s_session_id x) reason d))"

definition runTmuxHeartbeatCheck ::
  "(string \<Rightarrow> bool) \<Rightarrow> faults \<Rightarrow> gotime \<Rightarrow> (string \<Rightarrow> string) \<Rightarrow> agent_db \<Rightarrow> agent_db" where
  "runTmuxHeartbeatCheck has_session flt now uuid d =
     (case ListActiveAgentSessions (at_site ''list'' flt) d of
        Inl e \<Rightarrow> d
      | Inr active \<Rightarrow> expire_sessions flt now uuid ''lost''
          (filter (\<lambda>x. s_tmux_session_name x \<noteq> '''' \<and> \<not> has_session (s_tmux_session_name x)) active) d)"

text \<open>
  The database is migrated, so the table lookup finds \<open>agent_sessions\<close> unless the lookup
  itself fails; the checker is optional.
\<close>

definition hasTable :: "faults \<Rightarrow> agent_db \<Rightarrow> error + bool" where
  "hasTable flt d = stmt flt ''check table'' (Inr True)"

definition runSessionExpiry ::
  "fsm_lib \<Rightarrow> 'r redis_api \<Rightarrow> (string \<Rightarrow> bool) option \<Rightarrow> duration \<Rightarrow> rfaults \<Rightarrow> faults \<Rightarrow> gotime \<Rightarrow> (string \<Rightarrow> string) \<Rightarrow>
   (string \<Rightarrow> string \<Rightarrow> error + string) \<Rightarrow> 'r \<Rightarrow> agent_db \<Rightarrow> 'r \<times> agent_db" where
  "runSessionExpiry lib api tmux ttl rf flt now uuid marshal s d0 =
     (let branches = (\<lambda>d. case ListExpiredSessions (at_site ''list branches'' flt) now ttl (core d) of
            Inl e \<Rightarrow> (s, d)
          | Inr expired \<Rightarrow> (case expire_branches lib api rf (at_site ''branches'' flt) now marshal expired s (core d) of
              (s', c) \<Rightarrow> (s', d\<lparr>core := c\<rparr>)))
      in case hasTable flt d0 of
        Inl e \<Rightarrow> branches d0
      | Inr False \<Rightarrow> branches d0
      | Inr True \<Rightarrow>
         (case MonitorAgentAssignmentRules (at_site ''monitor'' flt) now (\<lambda>n. uuid (''monitor'' @ n)) (truncate_second now) d0 of
            (Inl e, d1) \<Rightarrow> (s, d1)
          | (Inr _, d1) \<Rightarrow>
             (let d2 = (case tmux of None \<Rightarrow> d1
                  | Some has_session \<Rightarrow> runTmuxHeartbeatCheck has_session (at_site ''tmux'' flt) now (\<lambda>n. uuid (''tmux'' @ n)) d1)
              in branches (case ListExpiredAgentSessions (at_site ''list sessions'' flt) now ttl d2 of
                   Inl e \<Rightarrow> d2
                 | Inr expired \<Rightarrow> expire_sessions (at_site ''expire'' flt) now (\<lambda>n. uuid (''expire'' @ n)) ''expired'' expired d2))))"

section \<open>What an appended event leaves alone\<close>

lemma append_db_frame:
  assumes "Append api rf flt now repo branch h ty pl s d = (r, s', d')"
  shows "branch_states d' = branch_states d \<and> state_transitions d' = state_transitions d \<and> (store_step lib)\<^sup>*\<^sup>* d d'"
proof -
  have "d' = d \<or> (\<exists>res seq pj. AppendDeliveryEvent flt now seq repo branch h ty pj d = (res, d'))"
    using assms by (auto simp: Append_def split: sum.splits option.splits prod.splits)
  then show ?thesis
  proof (elim disjE exE)
    fix res seq pj
    assume a: "AppendDeliveryEvent flt now seq repo branch h ty pj d = (res, d')"
    have "store_step lib d d'" by (rule store_step.delivery [OF a])
    then show ?thesis using a by (auto simp: AppendDeliveryEvent_def split: sql_try_splits if_splits)
  qed simp
qed

lemma system_db_frame:
  assumes "AppendSystem api rf flt now repo branch h marshal reason details s d = (r, s', d')"
  shows "branch_states d' = branch_states d \<and> state_transitions d' = state_transitions d \<and> (store_step lib)\<^sup>*\<^sup>* d d'"
  by (rule append_db_frame [OF assms [unfolded AppendSystem_def]])

context redis_server
begin

lemma append_redis_frame:
  assumes "counter_at view s (seq_key repo branch) c" and "0 \<le> c" and "c < MaxInt64" and "key_part repo"
    and "k \<noteq> seq_key repo branch" and "Append api rf flt now repo branch h ty pl s d = (r, s', d')"
  shows "view s' k = view s k"
proof -
  have "view (snd (rINCRBY api (seq_key repo branch) 1 s)) k = view s k"
    using counter_incr [OF assms(1), of 1] assms(2,3,5) by (simp add: in_int64_def)
  moreover have "s' = s \<or> s' = snd (rINCRBY api (seq_key repo branch) 1 s)"
    using assms(4,6) by (auto simp: Append_def split: sum.splits option.splits prod.splits if_splits)
  ultimately show ?thesis by auto
qed

end

context redis_server
begin

lemma enqueue_member:
  assumes "key_part (q_repo e)" and "not_str (view s (queue_key (q_repo e)))" and "Enqueue api rf e s = (Inr (), s')"
  shows "q_branch e \<in> fst ` set (zset_of (view s' (queue_key (q_repo e))))"
proof -
  obtain xs where "view (snd (rZADDNX api (queue_key (q_repo e)) (q_priority e) (q_branch e) s)) =
      (view s)(queue_key (q_repo e) := SSet xs)" "q_branch e \<in> fst ` set xs"
    using zaddnx [OF assms(2), of "q_priority e" "q_branch e"] by (auto split: if_splits)
  then show ?thesis
    using assms(1,3) by (auto simp: Enqueue_def redis_call_def zset_of_def split: option.splits prod.splits if_splits)
qed

end

lemma queue_not_seq: "queue_key repo \<noteq> seq_key repo branch"
  by (auto simp: queue_key_def seq_key_def)

section \<open>Every cycle is a run of the repositories\<close>

lemma clear_step: "store_step lib d (snd (ClearLeaseInfo flt now bid d))"
  by (rule store_step.clear_lease [OF prod.collapse [symmetric]])

lemma audit_steps:
  assumes "auditExpiredLease lib api rf flt now marshal b s d = (res, s', d')"
  shows "(store_step lib)\<^sup>*\<^sup>* d d'"
proof -
  obtain n d1 where i: "IncrementRetryCount (at_site ''retry'' flt) (truncate_second now) (ID b) d = (n, d1)" by fastforce
  note s1 = store_step.increment [OF i, of lib]
  obtain ev s2 d2 where a: "AppendSystem api (at_site ''event'' rf) (at_site ''event'' flt) now (Repo b) (Branch b) (HeadHash b) marshal
      ''lease_expired'' ''review lease expired without completion; branch re-queued or blocked'' s d1 = (ev, s2, d2)"
    using prod_cases3 by blast
  have s2: "(store_step lib)\<^sup>*\<^sup>* d d2"
    using s1 system_db_frame [OF a] by (meson converse_rtranclp_into_rtranclp)
  define d3 where "d3 = snd (ClearLeaseInfo (at_site ''clear'' flt) (truncate_second now) (ID b) d2)"
  have s3: "(store_step lib)\<^sup>*\<^sup>* d d3" unfolding d3_def using s2 clear_step by (rule rtranclp.rtrancl_into_rtrancl)
  have "d' = d1 \<or> d' = d2 \<or> (\<exists>to trig fl. d' = snd (TransitionBranch lib fl (truncate_second now) (ID b) StateCLIReviewing to trig d3))"
    using assms unfolding auditExpiredLease_def i d3_def
    by (auto simp: a Let_def split: sum.splits prod.splits if_splits) (metis snd_conv)+
  moreover have "(store_step lib)\<^sup>*\<^sup>* d (snd (TransitionBranch lib fl t bid st to trig d3))" for fl t bid st to trig
    using s3 store_step.transition [OF prod.collapse [symmetric]] by (rule rtranclp.rtrancl_into_rtrancl)
  ultimately show ?thesis using s1 s2 by auto
qed

lemma audit_leases_steps: "audit_leases lib api rf flt now marshal bs s d = (s', d') \<Longrightarrow> (store_step lib)\<^sup>*\<^sup>* d d'"
proof (induction bs arbitrary: s d)
  case (Cons b bs)
  obtain r s1 d1 where a: "auditExpiredLease lib api (at_site (ID b) rf) (at_site (ID b) flt) now marshal b s d = (r, s1, d1)"
    using prod_cases3 by blast
  then show ?case using Cons audit_steps [OF a] by (auto intro: rtranclp_trans)
qed simp

lemma lease_audit_steps: "runLeaseAudit lib api rf flt now marshal s d = (s', d') \<Longrightarrow> (store_step lib)\<^sup>*\<^sup>* d d'"
  by (auto simp: runLeaseAudit_def split: sum.splits intro: audit_leases_steps)

lemma lift_store_steps: "(store_step lib)\<^sup>*\<^sup>* c c' \<Longrightarrow> core d = c \<Longrightarrow> (agent_step lib pu)\<^sup>*\<^sup>* d (d\<lparr>core := c'\<rparr>)"
proof (induction rule: rtranclp_induct)
  case base
  then show ?case by (cases d) simp
next
  case (step y z)
  then show ?case using agent_step.branches [of lib "d\<lparr>core := y\<rparr>" z pu] by (simp add: rtranclp.rtrancl_into_rtrancl)
qed

lemma expire_branches_steps: "expire_branches lib api rf flt now marshal bs s d = (s', d') \<Longrightarrow> (store_step lib)\<^sup>*\<^sup>* d d'"
proof (induction bs arbitrary: s d)
  case (Cons b bs)
  obtain r s1 d1 where e: "expireSession lib api (at_site (ID b) rf) (at_site (ID b) flt) now marshal b s d = (r, s1, d1)"
    using prod_cases3 by blast
  obtain x d0 where t: "TransitionBranch lib (at_site ''abandon'' (at_site (ID b) flt)) (truncate_second now) (ID b) (State b) StateAbandoned
         ''session_heartbeat_expired'' d = (x, d0)" by fastforce
  have "(store_step lib)\<^sup>*\<^sup>* d0 d1"
    using e t by (auto simp: expireSession_def split: sum.splits prod.splits dest: system_db_frame [of _ _ _ _ _ _ _ _ _ _ _ _ _ _ _ lib])
  then have "(store_step lib)\<^sup>*\<^sup>* d d1" using store_step.transition [OF t] by (rule converse_rtranclp_into_rtranclp [rotated])
  then show ?case using Cons e by (auto intro: rtranclp_trans)
qed simp

lemma expire_sessions_steps: "(agent_step lib pu)\<^sup>*\<^sup>* d (expire_sessions flt now uuid reason xs d)"
proof (induction xs arbitrary: d)
  case (Cons x xs)
  show ?case
    by (simp, rule converse_rtranclp_into_rtranclp, rule agent_step.expire [OF prod.collapse [symmetric]], rule Cons.IH)
qed simp

lemma tmux_check_steps: "(agent_step lib pu)\<^sup>*\<^sup>* d (runTmuxHeartbeatCheck has_session flt now uuid d)"
  by (auto simp: runTmuxHeartbeatCheck_def expire_sessions_steps split: sum.split)

lemma session_expiry_steps:
  assumes "runSessionExpiry lib api tmux ttl rf flt now uuid marshal s d = (s', d')"
  shows "(agent_step lib pu)\<^sup>*\<^sup>* d d'"
proof -
  define branches where "branches = (\<lambda>d :: agent_db. case ListExpiredSessions (at_site ''list branches'' flt) now ttl (core d) of
      Inl e \<Rightarrow> (s, d)
    | Inr expired \<Rightarrow> (case expire_branches lib api rf (at_site ''branches'' flt) now marshal expired s (core d) of
        (s', c) \<Rightarrow> (s', d\<lparr>core := c\<rparr>)))"
  have br: "(agent_step lib pu)\<^sup>*\<^sup>* e (snd (branches e))" for e
    by (auto simp: branches_def split: sum.split prod.split dest!: expire_branches_steps intro: lift_store_steps)
  obtain m d1 where m: "MonitorAgentAssignmentRules (at_site ''monitor'' flt) now (\<lambda>n. uuid (''monitor'' @ n)) (truncate_second now) d = (m, d1)"
    by fastforce
  define d2 where "d2 = (case tmux of None \<Rightarrow> d1
      | Some has_session \<Rightarrow> runTmuxHeartbeatCheck has_session (at_site ''tmux'' flt) now (\<lambda>n. uuid (''tmux'' @ n)) d1)"
  define d3 where "d3 = (case ListExpiredAgentSessions (at_site ''list sessions'' flt) now ttl d2 of
      Inl e \<Rightarrow> d2
    | Inr expired \<Rightarrow> expire_sessions (at_site ''expire'' flt) now (\<lambda>n. uuid (''expire'' @ n)) ''expired'' expired d2)"
  have s1: "agent_step lib pu d d1" by (rule agent_step.monitor [OF m])
  have s2: "(agent_step lib pu)\<^sup>*\<^sup>* d1 d2" by (auto simp: d2_def tmux_check_steps split: option.split)
  have s3: "(agent_step lib pu)\<^sup>*\<^sup>* d2 d3" by (auto simp: d3_def expire_sessions_steps split: sum.split)
  have "(agent_step lib pu)\<^sup>*\<^sup>* d1 (snd (branches d3))" using s2 s3 br [of d3] by auto
  with s1 have "(agent_step lib pu)\<^sup>*\<^sup>* d (snd (branches d3))" by (rule converse_rtranclp_into_rtranclp)
  moreover have "runSessionExpiry lib api tmux ttl rf flt now uuid marshal s d =
      (case hasTable flt d of Inl e \<Rightarrow> branches d | Inr False \<Rightarrow> branches d
       | Inr True \<Rightarrow> (case m of Inl e \<Rightarrow> (s, d1) | Inr _ \<Rightarrow> branches d3))"
    unfolding runSessionExpiry_def Let_def branches_def [symmetric] m d3_def d2_def prod.case by (rule refl)
  then have "d' = snd (branches d) \<or> d' = d1 \<or> d' = snd (branches d3)"
    using arg_cong [OF assms, of snd] by (simp split: sum.splits bool.splits)
  ultimately show ?thesis using br [of d] s1 by blast
qed

section \<open>The outcome of an audit\<close>

definition same_states :: "db \<Rightarrow> db \<Rightarrow> bool" where
  "same_states d d' \<longleftrightarrow> branch_of d' = branch_of d \<and> (schema_ok d \<longrightarrow> schema_ok d')"

lemma scan_row_sel [simp]:
  "ID (scan_row r) = b_id r" "Repo (scan_row r) = b_repo r" "Branch (scan_row r) = b_branch r"
  "HeadHash (scan_row r) = b_head_hash r" "State (scan_row r) = b_state r" "MaxRetries (scan_row r) = b_max_retries r"
  "QueuePriority (scan_row r) = b_queue_priority r"
  by (simp_all add: scan_row_def)

lemma same_states_trans: "same_states a b \<Longrightarrow> same_states b c \<Longrightarrow> same_states a c"
  by (simp add: same_states_def)

lemma same_states_update:
  assumes "branch_frame f" and "\<And>x. b_state (f x) = b_state x"
  shows "same_states d (update_branches P f d)"
proof -
  have "branch_of (update_branches P f d) x = branch_of d x" for x
    unfolding branch_of_update [OF assms(1)] unfolding branch_of_def
    by (rule option.map_cong [OF refl]) (simp add: assms(2))
  then show ?thesis using schema_ok_update [OF _ assms(1)] by (auto simp: same_states_def)
qed

lemma field_update_frame:
  "branch_frame (\<lambda>x. x\<lparr>b_retry_count := n x, b_updated_at := t\<rparr>)"
  "branch_frame (\<lambda>x. x\<lparr>b_lease_id := l, b_lease_expires_at := e, b_updated_at := t\<rparr>)"
  by (simp_all add: branch_frame_def branch_key_def)

lemma same_states_ops:
  "same_states d (snd (IncrementRetryCount flt t bid d))" "same_states d (snd (ClearLeaseInfo flt t bid d))"
proof -
  have "same_states d d" by (simp add: same_states_def)
  then show "same_states d (snd (IncrementRetryCount flt t bid d))" "same_states d (snd (ClearLeaseInfo flt t bid d))"
    using same_states_update [OF field_update_frame(1)] same_states_update [OF field_update_frame(2)]
    by (auto simp: IncrementRetryCount_def ClearLeaseInfo_def exec_update_def split: sql_try_splits option.split)
qed

lemma same_states_append:
  assumes "AppendSystem api rf flt now repo branch h marshal reason details s d = (r, s', d')"
  shows "same_states d d'"
proof -
  have "schema_ok d'" if "schema_ok d"
    using assms that unfolding AppendSystem_def Append_def
    by (auto split: sum.splits option.splits prod.splits dest: schema_ok_AppendDeliveryEvent)
  then show ?thesis using system_db_frame [OF assms] by (simp add: same_states_def fun_eq_iff branch_of_def)
qed

text \<open>A transition after updates that keep the states.\<close>

lemma transition_move:
  assumes "fsm_library lib" and "same_states d d3" and "schema_ok d" and "branch_of d bid = Some st"
    and "TransitionBranch lib fl t bid st to trig d3 = (res, d')"
  shows "(\<forall>x. branch_of d' x = (if x = bid \<and> res = Inr () then Some to else branch_of d x)) \<and>
    (fl = no_faults \<and> ValidateTransition st to = None \<longrightarrow> res = Inr ())"
proof (cases res)
  case (Inl e)
  have "d' = d3" using transition_atomic [OF assms(1), of fl t bid st to trig d3 e] assms(5) Inl by simp
  moreover have "ValidateTransition st to \<noteq> None" if "fl = no_faults"
  proof
    assume "ValidateTransition st to = None"
    then have "fst (TransitionBranch lib no_faults t bid st to trig d3) = Inr ()"
      using transition_result [OF assms(1), of t bid st to trig d3] assms(2,4) by (simp add: same_states_def)
    then show False using assms(5) Inl that by simp
  qed
  ultimately show ?thesis using assms(2) Inl by (auto simp: same_states_def)
next
  case (Inr u)
  then have "TransitionBranch lib fl t bid st to trig d3 = (Inr (), d')" using assms(5) by simp
  then show ?thesis using transition_effect(1) [OF assms(1)] assms(2,3) Inr by (auto simp: same_states_def)
qed

text \<open>An audit increments the retry count, logs an event, and then decides; the states change only last.\<close>

lemma audit_outline:
  assumes "auditExpiredLease lib api rf flt now marshal (scan_row r) s d = (res, s', d')"
    and "schema_ok d" and "r \<in> set (branch_states d)"
  obtains (failed) e where "res = Inl e" "same_states d d'"
      "(\<exists>x. flt x \<noteq> None) \<or> (\<exists>ev d1 s2 d2. AppendSystem api (at_site ''event'' rf) (at_site ''event'' flt) now (b_repo r)
         (b_branch r) (b_head_hash r) marshal ''lease_expired''
         ''review lease expired without completion; branch re-queued or blocked'' s d1 = (ev, s2, d2) \<and>
       fst (Enqueue api (at_site ''enqueue'' rf) (queue_entry (b_repo r) (b_branch r) (real_of_int (b_queue_priority r))) s2) = Inl e)"
  | (block) d3 where "same_states d d3" "b_max_retries r \<le> b_retry_count r + 1"
      "TransitionBranch lib (at_site ''block'' flt) (truncate_second now) (b_id r) StateCLIReviewing StateBlocked
         ''lease_expired_max_retries'' d3 = (res, d')"
  | (requeue) d3 ev d1 s2 d2 where "same_states d d3" "b_retry_count r + 1 < b_max_retries r"
      "TransitionBranch lib (at_site ''requeue'' flt) (truncate_second now) (b_id r) StateCLIReviewing StateQueuedCLI
         ''lease_expired_requeue'' d3 = (res, d')"
      "AppendSystem api (at_site ''event'' rf) (at_site ''event'' flt) now (b_repo r) (b_branch r) (b_head_hash r) marshal
         ''lease_expired'' ''review lease expired without completion; branch re-queued or blocked'' s d1 = (ev, s2, d2)"
      "Enqueue api (at_site ''enqueue'' rf) (queue_entry (b_repo r) (b_branch r) (real_of_int (b_queue_priority r))) s2 = (Inr (), s')"
proof -
  obtain n d1 where i: "IncrementRetryCount (at_site ''retry'' flt) (truncate_second now) (b_id r) d = (n, d1)" by fastforce
  have n: "n = Inr (b_retry_count r + 1) \<or> (\<exists>e. n = Inl e \<and> (\<exists>x. flt x \<noteq> None))"
    using i schema_ok_find_id [OF assms(2,3)]
    by (auto simp: IncrementRetryCount_def sql_row_def at_site_def split: sql_try_splits)
  obtain ev s2 d2 where a: "AppendSystem api (at_site ''event'' rf) (at_site ''event'' flt) now (b_repo r) (b_branch r) (b_head_hash r) marshal
      ''lease_expired'' ''review lease expired without completion; branch re-queued or blocked'' s d1 = (ev, s2, d2)"
    using prod_cases3 by blast
  have s1: "same_states d d1" using same_states_ops(1) [of d "at_site ''retry'' flt" "truncate_second now" "b_id r"] i by simp
  have s2: "same_states d d2" using same_states_trans [OF s1 same_states_append [OF a]] .
  define d3 where "d3 = snd (ClearLeaseInfo (at_site ''clear'' flt) (truncate_second now) (b_id r) d2)"
  have s3: "same_states d d3" using same_states_trans [OF s2 same_states_ops(2)] by (simp add: d3_def)
  obtain q s3' where q: "Enqueue api (at_site ''enqueue'' rf) (queue_entry (b_repo r) (b_branch r) (real_of_int (b_queue_priority r))) s2 = (q, s3')"
    by fastforce
  note body = assms(1) [unfolded auditExpiredLease_def, simplified scan_row_sel i a q d3_def [symmetric] Let_def prod.case]
  from n show ?thesis
  proof (elim disjE exE)
    fix e
    assume "n = Inl e \<and> (\<exists>x. flt x \<noteq> None)"
    then show ?thesis using body s1 by (intro failed) auto
  next
    assume n: "n = Inr (b_retry_count r + 1)"
    show ?thesis
    proof (cases "b_max_retries r \<le> b_retry_count r + 1")
      case True
      then show ?thesis using body n s3 by (intro block [of d3]) (auto split: prod.splits)
    next
      case False
      show ?thesis
      proof (cases q)
        case (Inl e)
        have "\<exists>ev d1 s2 d2. AppendSystem api (at_site ''event'' rf) (at_site ''event'' flt) now (b_repo r) (b_branch r)
            (b_head_hash r) marshal ''lease_expired''
            ''review lease expired without completion; branch re-queued or blocked'' s d1 = (ev, s2, d2) \<and>
          fst (Enqueue api (at_site ''enqueue'' rf) (queue_entry (b_repo r) (b_branch r) (real_of_int (b_queue_priority r))) s2) = Inl e"
          using a q Inl by (metis fst_conv)
        then show ?thesis using body n False s2 q Inl by (intro failed [of e]) auto
      next
        case (Inr u)
        then show ?thesis using body n False s3 a q by (intro requeue [of d3 d1 ev s2 d2]) (auto split: prod.splits)
      qed
    qed
  qed
qed

section \<open>Properties\<close>

text \<open>
  C13: the session time to live. An empty, malformed or non-positive override gives the default of 1800
  seconds, an override of up to 9223372036 seconds gives that many seconds, and the result is always a
  64-bit duration. Above that bound the product wraps around: an override of 9223372037 seconds
  gives a negative time to live, under which every open session counts as expired.
\<close>

theorem session_ttl_bounds:
  "(\<forall>raw. raw = '''' \<or> ParseInt raw = None \<or> (\<exists>n\<le>0. ParseInt raw = Some n) \<longrightarrow>
      sessionHeartbeatTTLFromEnv raw = 1800 * Second) \<and>
   (\<forall>n. 1 \<le> n \<and> n \<le> 9223372036 \<longrightarrow> sessionHeartbeatTTLFromEnv (FormatInt n) = n * Second) \<and>
   (\<forall>raw. in_int64 (sessionHeartbeatTTLFromEnv raw)) \<and>
   sessionHeartbeatTTLFromEnv (FormatInt 9223372037) < 0 \<and>
   (\<forall>d now s. s \<in> set (agent_sessions d) \<and> open_session s \<and> s_last_seen_at s \<le> now \<longrightarrow>
      (\<exists>xs. ListExpiredAgentSessions no_faults now (sessionHeartbeatTTLFromEnv (FormatInt 9223372037)) d = Inr xs \<and>
        scanAgentSession s \<in> set xs))"
proof -
  have ne: "FormatInt n \<noteq> ''''" for n by (simp add: FormatInt_def)
  have neg: "sessionHeartbeatTTLFromEnv (FormatInt 9223372037) = - 9223372036709551616"
    using ne by (simp add: sessionHeartbeatTTLFromEnv_def in_int64_def int64_def)
  have late: "\<exists>xs. ListExpiredAgentSessions no_faults now (sessionHeartbeatTTLFromEnv (FormatInt 9223372037)) d = Inr xs \<and>
      scanAgentSession s \<in> set xs"
    if "s \<in> set (agent_sessions d)" "open_session s" "s_last_seen_at s \<le> now" for d now s
  proof -
    have "s_last_seen_at s < truncate_second (now - - 9223372036709551616)"
      using that(3) pos_mod_bound [of Second "now + 9223372036709551616"] unfolding truncate_second_def by simp
    then show ?thesis using that(1,2) unfolding ListExpiredAgentSessions_def neg Let_def by auto
  qed
  have id: "sessionHeartbeatTTLFromEnv (FormatInt n) = n * Second" if "1 \<le> n" "n \<le> 9223372036" for n
    using that ne int64_id [of "n * Second"] by (simp add: sessionHeartbeatTTLFromEnv_def in_int64_def)
  have "in_int64 (sessionHeartbeatTTLFromEnv raw)" for raw
    by (simp add: sessionHeartbeatTTLFromEnv_def int64_range split: option.split) (simp add: in_int64_def)
  then show ?thesis using neg late id by (auto simp: sessionHeartbeatTTLFromEnv_def)
qed

theorem session_ttl_bounds_witness:
  "sessionHeartbeatTTLFromEnv ''60'' = 60 * Second \<and> sessionHeartbeatTTLFromEnv ''-5'' = 1800 * Second"
proof -
  have e: "ParseInt ''-5'' = Some (- 5)" "FormatInt 60 = ''60''" by code_simp+
  have "(- 5 :: int) \<le> 0" "(1 :: int) \<le> 60" "(60 :: int) \<le> 9223372036" by simp_all
  then have "sessionHeartbeatTTLFromEnv ''-5'' = 1800 * Second" "sessionHeartbeatTTLFromEnv (FormatInt 60) = 60 * Second"
    using session_ttl_bounds e(1) by blast+
  then show ?thesis using e(2) by simp
qed


definition demo_reviewing :: db where
  "demo_reviewing = snd (TransitionBranch list_fsm no_faults 9 ''b1'' StateQueuedCLI StateCLIReviewing ''lease'' demo_db)"

lemma demo_reviewing_inv: "branch_inv demo_reviewing"
proof -
  have "store_step list_fsm demo_db demo_reviewing"
    unfolding demo_reviewing_def by (rule store_step.transition [OF prod.collapse [symmetric]])
  with demo_db_steps have "(store_step list_fsm)\<^sup>*\<^sup>* empty_db demo_reviewing" by (rule rtranclp.rtrancl_into_rtrancl)
  then show ?thesis using store_steps_inv [OF _ listfsm.fsm_library_axioms branch_inv_empty] by blast
qed

lemma demo_reviewing_eval:
  "map (\<lambda>r. (b_id r, b_repo r, b_branch r, b_state r, b_retry_count r, b_max_retries r)) (branch_states demo_reviewing) =
     [(''b1'', ''acme/api'', ''feat'', StateCLIReviewing, 0, 3)]"
  by code_simp


end
