(* ===== verification/Lease.thy ===== *)
theory Lease
  imports Redis
begin

text \<open>
  Leases: \<open>internal/scheduler/lease.go\<close> and the renewal loop of
  \<open>internal/scheduler/heartbeat.go\<close>. A lease is the string \<open>holder|acquiredAt\<close> with a time to
  live under \<open>codero:repo:lease:branch\<close>. The three Lua scripts are the functions
  \<open>acquire_script\<close>, \<open>release_script\<close> and \<open>extend_script\<close>, one atomic step each; a reply
  array is a list of integers, which Lua cuts at the first nil.

  Mutual exclusion is proved for runs in which other holders acquire, extend and release leases
  of any branch, network failures included, while time passes: the holder keeps the lease for its whole
  time to live.
\<close>

section \<open>The lease value\<close>

record Lease =
  l_Repo :: string
  l_Branch :: string
  l_HolderID :: string
  l_ExpiresAt :: gotime
  l_AcquiredAt :: gotime

definition IsExpired :: "gotime \<Rightarrow> Lease \<Rightarrow> bool" where
  "IsExpired now l \<longleftrightarrow> l_ExpiresAt l < now"

definition TimeRemaining :: "gotime \<Rightarrow> Lease \<Rightarrow> duration" where
  "TimeRemaining now l = (let remaining = l_ExpiresAt l - now in if remaining < 0 then 0 else remaining)"

definition Milliseconds :: "duration \<Rightarrow> int" where
  "Milliseconds t = go_quot t Millisecond"

text \<open>\<open>string.find(current, '|', 1, true)\<close> and the two \<open>string.sub\<close> of the scripts.\<close>

definition lua_split :: "string \<Rightarrow> string \<times> string" where
  "lua_split current =
     (if CHR ''|'' \<in> set current
      then (takeWhile (\<lambda>c. c \<noteq> CHR ''|'') current, tl (dropWhile (\<lambda>c. c \<noteq> CHR ''|'') current))
      else (current, ''0''))"

definition lease_value :: "string \<Rightarrow> int \<Rightarrow> string" where
  "lease_value holderID ms = holderID @ ''|'' @ FormatInt ms"

section \<open>The scripts\<close>

type_synonym 'a reply = "string + 'a"

definition acquire_script ::
  "'r redis_api \<Rightarrow> string \<Rightarrow> string \<Rightarrow> int \<Rightarrow> int \<Rightarrow> 'r \<Rightarrow> int list reply \<times> 'r" where
  "acquire_script api key holder ttl now_ms s =
     (case rGET api key s of
        None \<Rightarrow> (case rSETPX api key (lease_value holder now_ms) ttl s of
            None \<Rightarrow> (Inl ''ERR invalid expire time in set command'', s)
          | Some s' \<Rightarrow> (Inr (case lua_tonumber api (FormatInt now_ms) of Some n \<Rightarrow> [1, n] | None \<Rightarrow> [1]), s'))
      | Some current \<Rightarrow>
          (case lua_split current of (stored_holder, acquired_at) \<Rightarrow>
             if stored_holder = holder
             then (Inr [1, case lua_tonumber api acquired_at of Some n \<Rightarrow> n | None \<Rightarrow> 0],
                   rPEXPIRE api key ttl s)
             else (Inr [0, 0], s)))"

definition release_script :: "'r redis_api \<Rightarrow> string \<Rightarrow> string \<Rightarrow> 'r \<Rightarrow> int \<times> 'r" where
  "release_script api key holder s =
     (case rGET api key s of
        None \<Rightarrow> (0, s)
      | Some current \<Rightarrow>
          if fst (lua_split current) = holder then (1, rDEL api key s) else (- 1, s))"

definition extend_script ::
  "'r redis_api \<Rightarrow> string \<Rightarrow> string \<Rightarrow> int \<Rightarrow> 'r \<Rightarrow> int list \<times> 'r" where
  "extend_script api key holder ttl s =
     (case rGET api key s of
        None \<Rightarrow> ([0, 0], s)
      | Some current \<Rightarrow>
          (case lua_split current of (stored_holder, acquired_at) \<Rightarrow>
             if stored_holder = holder
             then ([1, case lua_tonumber api acquired_at of Some n \<Rightarrow> n | None \<Rightarrow> 0],
                   rPEXPIRE api key ttl s)
             else ([- 1, 0], s)))"

section \<open>The lease manager\<close>

definition UnixMilli :: "gotime \<Rightarrow> int" where
  "UnixMilli t = t div Millisecond"

definition from_UnixMilli :: "int \<Rightarrow> gotime" where
  "from_UnixMilli ms = ms * Millisecond"

definition AcquireWithTTL ::
  "'r redis_api \<Rightarrow> rfaults \<Rightarrow> gotime \<Rightarrow> string \<Rightarrow> string \<Rightarrow> string \<Rightarrow> duration \<Rightarrow> 'r \<Rightarrow> (error + Lease) \<times> 'r" where
  "AcquireWithTTL api rf now repo branch holderID ttl s =
     (case BuildKey repo ''lease'' branch of
        Inl e \<Rightarrow> (Inl e, s)
      | Inr key \<Rightarrow>
         redis_call rf ''acquire'' (acquire_script api key holderID (Milliseconds ttl) (UnixMilli now)) s
          (\<lambda>result s'. case result of
             Inl err \<Rightarrow> (Inl (RedisError err), s')
           | Inr arr \<Rightarrow>
              if length arr < 2 then (Inl (OtherError ''acquire lease: unexpected script result type''), s')
              else if arr ! 0 = 0 then (Inl ErrLeaseConflict, s')
              else (Inr \<lparr>l_Repo = repo, l_Branch = branch, l_HolderID = holderID,
                         l_ExpiresAt = now + ttl,
                         l_AcquiredAt = (if 0 < arr ! 1 then from_UnixMilli (arr ! 1) else now)\<rparr>, s')))"

definition defaultTTL :: duration where
  "defaultTTL = 30 * Second"

definition Acquire ::
  "'r redis_api \<Rightarrow> rfaults \<Rightarrow> gotime \<Rightarrow> string \<Rightarrow> string \<Rightarrow> string \<Rightarrow> duration \<Rightarrow> 'r \<Rightarrow> (error + Lease) \<times> 'r" where
  "Acquire api rf now repo branch holderID managerTTL =
     AcquireWithTTL api rf now repo branch holderID managerTTL"

definition Release ::
  "'r redis_api \<Rightarrow> rfaults \<Rightarrow> string \<Rightarrow> string \<Rightarrow> string \<Rightarrow> 'r \<Rightarrow> (error + unit) \<times> 'r" where
  "Release api rf repo branch holderID s =
     (case BuildKey repo ''lease'' branch of
        Inl e \<Rightarrow> (Inl e, s)
      | Inr key \<Rightarrow>
         redis_call rf ''release'' (release_script api key holderID) s
          (\<lambda>result s'. if result = 1 \<or> result = 0 then (Inr (), s')
             else if result = - 1 then (Inl ErrLeaseNotFound, s')
             else (Inl (OtherError ''release lease: unexpected script result''), s')))"

definition Extend ::
  "'r redis_api \<Rightarrow> rfaults \<Rightarrow> gotime \<Rightarrow> string \<Rightarrow> string \<Rightarrow> string \<Rightarrow> duration \<Rightarrow> 'r \<Rightarrow> (error + Lease) \<times> 'r" where
  "Extend api rf now repo branch holderID ttl s =
     (case BuildKey repo ''lease'' branch of
        Inl e \<Rightarrow> (Inl e, s)
      | Inr key \<Rightarrow>
         redis_call rf ''extend'' (extend_script api key holderID (Milliseconds ttl)) s
          (\<lambda>arr s'.
              if length arr < 2 then (Inl (OtherError ''extend lease: unexpected script result type''), s')
              else if arr ! 0 = 1
              then (Inr \<lparr>l_Repo = repo, l_Branch = branch, l_HolderID = holderID,
                         l_ExpiresAt = now + ttl,
                         l_AcquiredAt = (if 0 < arr ! 1 then from_UnixMilli (arr ! 1) else now)\<rparr>, s')
              else if arr ! 0 = 0 then (Inl ErrLeaseNotFound, s')
              else if arr ! 0 = - 1 then (Inl ErrLeaseConflict, s')
              else (Inl (OtherError ''extend lease: unexpected script result''), s')))"

text \<open>
  \<open>TTL\<close> of the client is a duration: the server's reply in seconds; its negative replies (no key,
  no expiry) are passed on as they are.
\<close>

definition client_TTL :: "int \<Rightarrow> duration" where
  "client_TTL n = (if n < 0 then n else n * Second)"

definition Lease_Get ::
  "'r redis_api \<Rightarrow> rfaults \<Rightarrow> gotime \<Rightarrow> string \<Rightarrow> string \<Rightarrow> 'r \<Rightarrow> error + Lease option" where
  "Lease_Get api rf now repo branch s =
     (case BuildKey repo ''lease'' branch of
        Inl e \<Rightarrow> Inl e
      | Inr key \<Rightarrow> (case rf ''get'' of
          Some (e, _) \<Rightarrow> Inl (RedisError e)
        | None \<Rightarrow> (case rGET api key s of
            None \<Rightarrow> Inr None
          | Some value \<Rightarrow> (case rf ''ttl'' of
              Some (e, _) \<Rightarrow> Inl (RedisError e)
            | None \<Rightarrow>
              (let ttl = client_TTL (rTTL api key s);
                   (holderID, acquiredAt) =
                     (if CHR ''|'' \<in> set value
                      then (takeWhile (\<lambda>c. c \<noteq> CHR ''|'') value,
                            case parseInt64 (tl (dropWhile (\<lambda>c. c \<noteq> CHR ''|'') value)) of
                              Inr ms \<Rightarrow> if 0 < ms then from_UnixMilli ms else zero_time
                            | Inl _ \<Rightarrow> zero_time)
                      else (value, zero_time))
               in Inr (Some \<lparr>l_Repo = repo, l_Branch = branch, l_HolderID = holderID,
                        l_ExpiresAt = now + ttl, l_AcquiredAt = acquiredAt\<rparr>))))))"

definition IsAlive :: "'r redis_api \<Rightarrow> rfaults \<Rightarrow> string \<Rightarrow> string \<Rightarrow> 'r \<Rightarrow> error + bool" where
  "IsAlive api rf repo branch s =
     (case BuildKey repo ''lease'' branch of
        Inl e \<Rightarrow> Inl e
      | Inr key \<Rightarrow> (case rf ''ttl'' of
          Some (e, _) \<Rightarrow> Inl (RedisError e)
        | None \<Rightarrow> (let ttl = client_TTL (rTTL api key s) in
                    if ttl < 0 then Inr False else Inr (0 < ttl))))"

section \<open>Who holds a lease\<close>

definition lease_key :: "string \<Rightarrow> string \<Rightarrow> string" where
  "lease_key repo branch = ''codero:'' @ repo @ '':lease:'' @ branch"

text \<open>\<open>held\<close>: the key stores a lease of holder \<open>a\<close> with \<open>t\<close> milliseconds left.\<close>

definition held :: "('r \<Rightarrow> string \<Rightarrow> entry) \<Rightarrow> 'r \<Rightarrow> string \<Rightarrow> string \<Rightarrow> int \<Rightarrow> bool" where
  "held view s key a t \<longleftrightarrow>
     (case view s key of Str w (Some t') \<Rightarrow> t' = t \<and> fst (lua_split w) = a | _ \<Rightarrow> False)"

definition string_key :: "('r \<Rightarrow> string \<Rightarrow> entry) \<Rightarrow> 'r \<Rightarrow> string \<Rightarrow> bool" where
  "string_key view s key = (case view s key of Absent \<Rightarrow> True | Str _ _ \<Rightarrow> True | _ \<Rightarrow> False)"

text \<open>
  What the rest of the system does meanwhile, and the milliseconds it takes: any operation that is
  not one of holder \<open>a\<close> on the branch, with any network failure.
\<close>

inductive others ::
  "'r redis_api \<Rightarrow> string \<Rightarrow> string \<Rightarrow> string \<Rightarrow> 'r \<Rightarrow> int \<Rightarrow> 'r \<Rightarrow> bool"
  for api repo0 branch0 a s where
  start: "others api repo0 branch0 a s 0 s"
| acquire: "others api repo0 branch0 a s e s1 \<Longrightarrow> b \<noteq> a \<or> (repo, branch) \<noteq> (repo0, branch0) \<Longrightarrow>
    others api repo0 branch0 a s e (snd (AcquireWithTTL api rf now repo branch b ttl s1))"
| extend: "others api repo0 branch0 a s e s1 \<Longrightarrow> b \<noteq> a \<or> (repo, branch) \<noteq> (repo0, branch0) \<Longrightarrow>
    others api repo0 branch0 a s e (snd (Extend api rf now repo branch b ttl s1))"
| release: "others api repo0 branch0 a s e s1 \<Longrightarrow> b \<noteq> a \<or> (repo, branch) \<noteq> (repo0, branch0) \<Longrightarrow>
    others api repo0 branch0 a s e (snd (Release api rf repo branch b s1))"
| pass: "others api repo0 branch0 a s e s1 \<Longrightarrow> 0 \<le> d \<Longrightarrow>
    others api repo0 branch0 a s (e + d) (rTICK api d s1)"

lemma lease_key_eq [simp]:
  "BuildKey repo ''lease'' branch =
     (if key_part repo \<and> key_part branch then Inr (lease_key repo branch) else Inl ErrInvalidKeyPart)"
proof (cases "key_part repo \<and> key_part branch")
  case True
  then show ?thesis by (simp add: lease_key_def)
next
  case False
  then show ?thesis by (auto simp: BuildKey_Inl)
qed

lemma lease_key_inj:
  "key_part repo \<Longrightarrow> key_part branch \<Longrightarrow> key_part repo' \<Longrightarrow> key_part branch' \<Longrightarrow>
   lease_key repo branch = lease_key repo' branch' \<Longrightarrow> repo = repo' \<and> branch = branch'"
  using BuildKey_inj [of repo "''lease''" branch "lease_key repo branch" repo' "''lease''" branch'] by simp

lemma lua_split_value:
  assumes "CHR ''|'' \<notin> set h"
  shows "lua_split (lease_value h ms) = (h, FormatInt ms)"
proof -
  have "takeWhile (\<lambda>c. c \<noteq> CHR ''|'') (h @ CHR ''|'' # x) = h"
    "dropWhile (\<lambda>c. c \<noteq> CHR ''|'') (h @ CHR ''|'' # x) = CHR ''|'' # x" for x
    using assms by (induction h) auto
  then show ?thesis by (simp add: lua_split_def lease_value_def)
qed

lemma lua_split_bar: "CHR ''|'' \<notin> set (fst (lua_split w))"
  by (auto simp: lua_split_def dest: set_takeWhileD)

lemma held_iff: "held view s key a t \<longleftrightarrow> (\<exists>w. view s key = Str w (Some t) \<and> fst (lua_split w) = a)"
  by (auto simp: held_def split: entry.splits option.splits)

text \<open>Whatever the network does, the server's state is the old one or the script's.\<close>

lemma snd_AcquireWithTTL:
  "snd (AcquireWithTTL api rf now repo branch b ttl s) = s \<or>
   (key_part repo \<and> key_part branch) \<and> snd (AcquireWithTTL api rf now repo branch b ttl s) =
     snd (acquire_script api (lease_key repo branch) b (Milliseconds ttl) (UnixMilli now) s)"
  by (auto simp: AcquireWithTTL_def redis_call_def split: option.splits prod.splits sum.splits)

lemma snd_Extend:
  "snd (Extend api rf now repo branch b ttl s) = s \<or>
   (key_part repo \<and> key_part branch) \<and> snd (Extend api rf now repo branch b ttl s) =
     snd (extend_script api (lease_key repo branch) b (Milliseconds ttl) s)"
  by (auto simp: Extend_def redis_call_def split: option.splits prod.splits)

lemma snd_Release:
  "snd (Release api rf repo branch b s) = s \<or>
   (key_part repo \<and> key_part branch) \<and> snd (Release api rf repo branch b s) =
     snd (release_script api (lease_key repo branch) b s)"
  by (auto simp: Release_def redis_call_def split: option.splits prod.splits)

context redis_server
begin

lemma acquire_script_frame:
  "k \<noteq> key \<Longrightarrow> view (snd (acquire_script api key h ttl now s)) k = view s k"
  using setpx [of ttl key "lease_value h now" s] setpx_bad [of ttl key "lease_value h now" s]
  by (cases "0 < ttl")
    (auto simp: acquire_script_def pexpire_frame split: option.splits prod.splits if_splits)

lemma extend_script_frame: "k \<noteq> key \<Longrightarrow> view (snd (extend_script api key h ttl s)) k = view s k"
  by (auto simp: extend_script_def pexpire_frame split: option.splits prod.splits)

lemma release_script_frame: "k \<noteq> key \<Longrightarrow> view (snd (release_script api key h s)) k = view s k"
  by (auto simp: release_script_def del split: option.splits)

lemma scripts_held_other:
  assumes "held view s key a t" and "b \<noteq> a"
  shows "acquire_script api key b ttl now s = (Inr [0, 0], s)"
    and "extend_script api key b ttl s = ([- 1, 0], s)"
    and "release_script api key b s = (- 1, s)"
proof -
  obtain w where w: "view s key = Str w (Some t)" "fst (lua_split w) = a"
    using assms(1) by (auto simp: held_iff)
  note g = get_str [OF w(1)]
  show "acquire_script api key b ttl now s = (Inr [0, 0], s)"
    "extend_script api key b ttl s = ([- 1, 0], s)" "release_script api key b s = (- 1, s)"
    using w(2) assms(2)
    by (auto simp: acquire_script_def extend_script_def release_script_def g split: prod.splits)
qed

lemma held_ops:
  assumes "held view s (lease_key repo0 branch0) a t" and "key_part repo0" and "key_part branch0"
    and "b \<noteq> a \<or> (repo, branch) \<noteq> (repo0, branch0)"
  shows "held view (snd (AcquireWithTTL api rf now repo branch b ttl s)) (lease_key repo0 branch0) a t"
    and "held view (snd (Extend api rf now repo branch b ttl s)) (lease_key repo0 branch0) a t"
    and "held view (snd (Release api rf repo branch b s)) (lease_key repo0 branch0) a t"
proof -
  let ?own = "lease_key repo0 branch0" and ?k = "lease_key repo branch"
  have ne: "?own = ?k \<longrightarrow> b \<noteq> a" if "key_part repo \<and> key_part branch"
  proof
    assume "?own = ?k"
    from lease_key_inj [OF assms(2,3) _ _ this] have "repo0 = repo \<and> branch0 = branch"
      using that by blast
    then show "b \<noteq> a" using assms(4) by simp
  qed
  have acq: "held view (snd (acquire_script api ?k b m n s)) ?own a t"
    if "key_part repo \<and> key_part branch" for m n
    using ne [OF that] assms(1) scripts_held_other(1) [of s ?k a t b m n] acquire_script_frame [of ?own ?k b m n s]
    by (cases "?own = ?k") (simp_all add: held_def)
  have ext: "held view (snd (extend_script api ?k b m s)) ?own a t"
    if "key_part repo \<and> key_part branch" for m
    using ne [OF that] assms(1) scripts_held_other(2) [of s ?k a t b m] extend_script_frame [of ?own ?k b m s]
    by (cases "?own = ?k") (simp_all add: held_def)
  have rel: "held view (snd (release_script api ?k b s)) ?own a t"
    if "key_part repo \<and> key_part branch"
    using ne [OF that] assms(1) scripts_held_other(3) [of s ?k a t b] release_script_frame [of ?own ?k b s]
    by (cases "?own = ?k") (simp_all add: held_def)
  show "held view (snd (AcquireWithTTL api rf now repo branch b ttl s)) ?own a t"
    using acq assms(1) snd_AcquireWithTTL [of api rf now repo branch b ttl s] by metis
  show "held view (snd (Extend api rf now repo branch b ttl s)) ?own a t"
    using ext assms(1) snd_Extend [of api rf now repo branch b ttl s] by metis
  show "held view (snd (Release api rf repo branch b s)) ?own a t"
    using rel assms(1) snd_Release [of api rf repo branch b s] by metis
qed

lemma others_keep_lease:
  assumes "others api repo0 branch0 a s e s'" and "held view s (lease_key repo0 branch0) a t"
    and "key_part repo0" and "key_part branch0" and "e < t"
  shows "held view s' (lease_key repo0 branch0) a (t - e) \<and> 0 \<le> e"
  using assms(1,5)
proof (induction rule: others.induct)
  case (pass e s1 d)
  then have "held view s1 (lease_key repo0 branch0) a (t - e)" "0 \<le> e" by auto
  then show ?case
    using pass tick [OF pass(2), of s1] by (auto simp: held_def expire_def split: entry.splits option.splits)
qed (use assms(2-4) held_ops in auto)

end

context redis_server
begin

lemma acquire_absent:
  assumes "view s key = Absent" and "0 < ttl" and "\<bar>now\<bar> \<le> 9007199254740992"
  shows "fst (acquire_script api key a ttl now s) = Inr [1, now]"
    and "view (snd (acquire_script api key a ttl now s)) = (view s)(key := Str (lease_value a now) (Some ttl))"
  using setpx [OF assms(2), of key "lease_value a now" s] get_absent [OF assms(1)] tonumber [OF assms(3)]
  by (auto simp: acquire_script_def)

lemma acquire_own:
  assumes "view s key = Str w t'" and "lua_split w = (a, acq)"
  shows "acquire_script api key a ttl now s =
      (Inr [1, case lua_tonumber api acq of Some n \<Rightarrow> n | None \<Rightarrow> 0], rPEXPIRE api key ttl s)"
    and "extend_script api key a ttl s =
      ([1, case lua_tonumber api acq of Some n \<Rightarrow> n | None \<Rightarrow> 0], rPEXPIRE api key ttl s)"
    and "release_script api key a s = (1, rDEL api key s)"
  using get_str [OF assms(1)] assms(2)
  by (simp_all add: acquire_script_def extend_script_def release_script_def)

lemma acquire_other:
  assumes "view s key = Str w t'" and "fst (lua_split w) \<noteq> a"
  shows "acquire_script api key a ttl now s = (Inr [0, 0], s)"
    and "extend_script api key a ttl s = ([- 1, 0], s)"
    and "release_script api key a s = (- 1, s)"
  using get_str [OF assms(1)] assms(2)
  by (auto simp: acquire_script_def extend_script_def release_script_def split: prod.splits)

lemma acquire_holds:
  assumes "AcquireWithTTL api no_rfaults now repo branch a ttl s = (Inr l, s1)"
    and "string_key view s (lease_key repo branch)" and "CHR ''|'' \<notin> set a" and "0 < Milliseconds ttl"
  shows "held view s1 (lease_key repo branch) a (Milliseconds ttl) \<and> key_part repo \<and> key_part branch"
proof -
  let ?key = "lease_key repo branch"
  let ?sc = "acquire_script api ?key a (Milliseconds ttl) (UnixMilli now) s"
  have kp: "key_part repo" "key_part branch"
    using assms(1) by (auto simp: AcquireWithTTL_def split: if_splits)
  have s1: "s1 = snd ?sc" and ok: "\<exists>arr. fst ?sc = Inr arr \<and> arr ! 0 \<noteq> 0"
    using assms(1) kp by (auto simp: AcquireWithTTL_def split: sum.splits if_splits)
  have "held view s1 ?key a (Milliseconds ttl)"
  proof (cases "view s ?key")
    case Absent
    then show ?thesis
      using setpx [OF assms(4), of ?key "lease_value a (UnixMilli now)" s] get_absent [OF Absent] s1 assms(3)
      by (auto simp: acquire_script_def held_iff lua_split_value)
  next
    case (Str w t')
    obtain h acq where sp: "lua_split w = (h, acq)" by fastforce
    have "h = a" using acquire_other(1) [OF Str, of a] sp ok by (cases "h = a") auto
    then have "s1 = rPEXPIRE api ?key (Milliseconds ttl) s"
      using acquire_own(1) [OF Str] sp s1 by simp
    then show ?thesis
      using pexpire [OF Str, of "Milliseconds ttl"] assms(4) sp \<open>h = a\<close> by (simp add: held_iff)
  qed (use assms(2) in \<open>auto simp: string_key_def\<close>)
  with kp show ?thesis by simp
qed

lemma held_refuses:
  assumes "held view s (lease_key repo branch) a t" and "b \<noteq> a" and "key_part repo" and "key_part branch"
  shows "AcquireWithTTL api no_rfaults now repo branch b ttl s = (Inl ErrLeaseConflict, s)"
    and "Extend api no_rfaults now repo branch b ttl s = (Inl ErrLeaseConflict, s)"
    and "Release api no_rfaults repo branch b s = (Inl ErrLeaseNotFound, s)"
  using scripts_held_other [OF assms(1,2)] assms(3,4)
  by (simp_all add: AcquireWithTTL_def Extend_def Release_def)

lemma held_serves:
  assumes "held view s (lease_key repo branch) a t" and "key_part repo" and "key_part branch"
  shows "\<exists>l. fst (Extend api no_rfaults now repo branch a ttl s) = Inr l \<and> l_HolderID l = a \<and>
      l_ExpiresAt l = now + ttl"
    and "fst (Release api no_rfaults repo branch a s) = Inr ()"
    and "view (snd (Release api no_rfaults repo branch a s)) (lease_key repo branch) = Absent"
proof -
  obtain w acq where w: "view s (lease_key repo branch) = Str w (Some t)" "lua_split w = (a, acq)"
    using assms(1) by (auto simp: held_iff) (metis prod.collapse)
  show "\<exists>l. fst (Extend api no_rfaults now repo branch a ttl s) = Inr l \<and> l_HolderID l = a \<and>
      l_ExpiresAt l = now + ttl"
    "fst (Release api no_rfaults repo branch a s) = Inr ()"
    "view (snd (Release api no_rfaults repo branch a s)) (lease_key repo branch) = Absent"
    using acquire_own(2,3) [OF w] assms(2,3) by (simp_all add: Extend_def Release_def del)
qed

end

text \<open>A lease on which the properties are exercised: \<open>w1\<close> holds \<open>main\<close> for 30 seconds.\<close>

definition demo_lease :: mem where
  "demo_lease = snd (AcquireWithTTL mem_api no_rfaults (1700000000 * Second) ''acme'' ''main'' ''w1''
     (30 * Second) (\<lambda>_. Absent))"

lemma demo_keys [simp]: "key_part ''acme''" "key_part ''main''"
  by (simp_all add: key_part_def)

lemma demo_lease_acquired:
  "\<exists>l. AcquireWithTTL mem_api no_rfaults (1700000000 * Second) ''acme'' ''main'' ''w1''
     (30 * Second) (\<lambda>_. Absent) = (Inr l, demo_lease) \<and> l_AcquiredAt l = 1700000000 * Second"
  by (simp add: demo_lease_def AcquireWithTTL_def Milliseconds_def UnixMilli_def
      from_UnixMilli_def mem.acquire_absent mem_view_def)

section \<open>Properties of leases\<close>

text \<open>
  C5: a lease excludes every other holder for its whole time to live. When \<open>a\<close> has acquired
  the lease of a branch, then, whatever the others do on any branch and whatever calls of theirs fail,
  as long as less than the time to live has passed, any other holder's \<open>AcquireWithTTL\<close> and
  \<open>Extend\<close> answer \<open>ErrLeaseConflict\<close>, its \<open>Release\<close> answers \<open>ErrLeaseNotFound\<close>, none of
  them changes anything, and \<open>a\<close> can still extend the lease.
\<close>

theorem lease_mutual_exclusion:
  assumes "redis_server api view" and "string_key view s (lease_key repo branch)" and "CHR ''|'' \<notin> set a"
    and "AcquireWithTTL api no_rfaults now repo branch a ttl s = (Inr l, s1)"
    and "others api repo branch a s1 e s2" and "0 \<le> e" and "e < Milliseconds ttl" and "b \<noteq> a"
  shows "AcquireWithTTL api no_rfaults now2 repo branch b ttl2 s2 = (Inl ErrLeaseConflict, s2) \<and>
    Extend api no_rfaults now2 repo branch b ttl2 s2 = (Inl ErrLeaseConflict, s2) \<and>
    Release api no_rfaults repo branch b s2 = (Inl ErrLeaseNotFound, s2) \<and>
    (\<exists>l2. fst (Extend api no_rfaults now2 repo branch a ttl2 s2) = Inr l2 \<and> l_HolderID l2 = a)"
proof -
  have pos: "0 < Milliseconds ttl" using assms(6,7) by simp
  note h = redis_server.acquire_holds [OF assms(1,4,2,3) pos]
  have "held view s2 (lease_key repo branch) a (Milliseconds ttl - e)"
    using redis_server.others_keep_lease [OF assms(1,5) _ _ _ assms(7)] h by blast
  then show ?thesis
    using redis_server.held_refuses [OF assms(1) _ assms(8), of s2 repo branch]
      redis_server.held_serves(1) [OF assms(1), of s2 repo branch a] h by blast
qed

theorem lease_mutual_exclusion_witness:
  "let s2 = rTICK mem_api 29999 demo_lease in
   AcquireWithTTL mem_api no_rfaults 0 ''acme'' ''main'' ''w2'' Second s2 = (Inl ErrLeaseConflict, s2) \<and>
   Release mem_api no_rfaults ''acme'' ''main'' ''w2'' s2 = (Inl ErrLeaseNotFound, s2)"
proof -
  let ?s2 = "rTICK mem_api 29999 demo_lease"
  obtain l where l: "AcquireWithTTL mem_api no_rfaults (1700000000 * Second) ''acme'' ''main'' ''w1''
     (30 * Second) (\<lambda>_. Absent) = (Inr l, demo_lease)"
    using demo_lease_acquired by blast
  have o: "others mem_api ''acme'' ''main'' ''w1'' demo_lease 29999 ?s2"
    using others.pass [OF others.start, of 29999 mem_api "''acme''" "''main''" "''w1''" demo_lease] by simp
  have "string_key mem_view (\<lambda>_. Absent) (lease_key ''acme'' ''main'')"
    by (simp add: string_key_def mem_view_def)
  then show ?thesis
    using lease_mutual_exclusion [OF mem.redis_server_axioms _ _ l o, of "''w2''" 0 Second]
    by (simp add: Milliseconds_def Let_def)
qed

text \<open>
  A lease is never lost for good. When its time to live has passed, or when its holder has
  released it, the next \<open>AcquireWithTTL\<close> of any holder with a positive time to live succeeds and
  gives that holder the lease.
\<close>

theorem lease_becomes_free:
  assumes "redis_server api view" and "held view s (lease_key repo branch) a t"
    and "key_part repo" and "key_part branch" and "t \<le> ms" and "0 < Milliseconds ttl"
    and "\<bar>UnixMilli now\<bar> \<le> 9007199254740992"
    and "s' \<in> {rTICK api ms s, snd (Release api no_rfaults repo branch a s)}"
  shows "\<exists>l. fst (AcquireWithTTL api no_rfaults now repo branch b ttl s') = Inr l \<and>
    l_HolderID l = b \<and> l_ExpiresAt l = now + ttl \<and>
    view (snd (AcquireWithTTL api no_rfaults now repo branch b ttl s')) (lease_key repo branch) =
      Str (lease_value b (UnixMilli now)) (Some (Milliseconds ttl))"
proof -
  obtain w where w: "view s (lease_key repo branch) = Str w (Some t)"
    using assms(2) by (auto simp: held_iff)
  have "0 < t" using redis_server.ttl_pos [OF assms(1) w] .
  then have "view s' (lease_key repo branch) = Absent"
    using assms(5,8) w redis_server.held_serves(3) [OF assms(1-4)] redis_server.tick [OF assms(1), of ms s]
    by (auto simp: expire_def)
  from redis_server.acquire_absent [OF assms(1) this assms(6,7), of b] show ?thesis
    using assms(3,4) by (simp add: AcquireWithTTL_def)
qed

theorem lease_becomes_free_witness:
  "\<exists>l. fst (AcquireWithTTL mem_api no_rfaults 0 ''acme'' ''main'' ''w2'' Second
     (rTICK mem_api 30000 demo_lease)) = Inr l \<and> l_HolderID l = ''w2''"
proof -
  obtain l where l: "AcquireWithTTL mem_api no_rfaults (1700000000 * Second) ''acme'' ''main'' ''w1''
     (30 * Second) (\<lambda>_. Absent) = (Inr l, demo_lease)"
    using demo_lease_acquired by blast
  have h: "held mem_view demo_lease (lease_key ''acme'' ''main'') ''w1'' 30000"
    using mem.acquire_holds [OF l] by (simp add: string_key_def mem_view_def Milliseconds_def)
  show ?thesis
    using lease_becomes_free [OF mem.redis_server_axioms h, of 30000 Second 0 "rTICK mem_api 30000 demo_lease" "''w2''"]
    by (auto simp: Milliseconds_def UnixMilli_def)
qed

text \<open>
  Extending keeps the acquisition time. After an acquisition at time \<open>now\<close> (after the epoch)
  the holder's \<open>Extend\<close> reports the acquisition time to the millisecond and the new expiry, and
  \<open>Get\<close> reports the holder and the same acquisition time.
\<close>

theorem lease_round_trip:
  assumes "redis_server api view" and "view s (lease_key repo branch) = Absent"
    and "key_part repo" and "key_part branch" and "CHR ''|'' \<notin> set a"
    and "0 < Milliseconds ttl" and "0 < UnixMilli now" and "UnixMilli now \<le> 9007199254740992"
    and "s1 = snd (AcquireWithTTL api no_rfaults now repo branch a ttl s)"
  shows "(\<exists>l. fst (Extend api no_rfaults now2 repo branch a ttl2 s1) = Inr l \<and>
      l_AcquiredAt l = from_UnixMilli (UnixMilli now) \<and> l_ExpiresAt l = now2 + ttl2) \<and>
    (\<exists>l. Lease_Get api no_rfaults now2 repo branch s1 = Inr (Some l) \<and> l_HolderID l = a \<and>
      l_AcquiredAt l = from_UnixMilli (UnixMilli now))"
proof -
  let ?key = "lease_key repo branch" and ?v = "lease_value a (UnixMilli now)"
  have "\<bar>UnixMilli now\<bar> \<le> 9007199254740992" using assms(7,8) by simp
  then have v: "view s1 ?key = Str ?v (Some (Milliseconds ttl))"
    using redis_server.acquire_absent [OF assms(1,2,6), of "UnixMilli now" a] assms(3,4,9)
    by (simp add: AcquireWithTTL_def)
  note sp = lua_split_value [OF assms(5), of "UnixMilli now"]
  have bar: "CHR ''|'' \<in> set ?v" by (simp add: lease_value_def)
  have "parseInt64 (FormatInt (UnixMilli now)) = Inr (UnixMilli now)"
    using parseInt64_FormatInt [of "UnixMilli now"] assms(7,8) by simp
  then have get: "\<exists>l. Lease_Get api no_rfaults now2 repo branch s1 = Inr (Some l) \<and> l_HolderID l = a \<and>
      l_AcquiredAt l = from_UnixMilli (UnixMilli now)"
    using redis_server.get_str [OF assms(1) v] sp bar assms(3,4,7)
    by (auto simp: Lease_Get_def lua_split_def Let_def)
  have "lua_tonumber api (FormatInt (UnixMilli now)) = Some (UnixMilli now)"
    using redis_server.tonumber [OF assms(1), of "UnixMilli now"] assms(7,8) by simp
  then show ?thesis
    using get redis_server.acquire_own(2) [OF assms(1) v sp] assms(3,4,7) by (simp add: Extend_def)
qed

theorem lease_round_trip_witness:
  "\<exists>l. Lease_Get mem_api no_rfaults 0 ''acme'' ''main'' demo_lease = Inr (Some l) \<and>
     l_HolderID l = ''w1'' \<and> l_AcquiredAt l = 1700000000 * Second"
  using lease_round_trip [OF mem.redis_server_axioms, of "\<lambda>_. Absent" "''acme''" "''main''" "''w1''"
      "30 * Second" "1700000000 * Second" demo_lease 0 0]
  by (simp add: mem_view_def Milliseconds_def UnixMilli_def from_UnixMilli_def demo_lease_def)

text \<open>
  A holder id with a vertical bar cannot use its own lease: the scripts cut the stored value at
  the first bar, so that right after it acquired the lease, its \<open>Extend\<close> answers
  \<open>ErrLeaseConflict\<close>, its \<open>Release\<close> answers \<open>ErrLeaseNotFound\<close>, and acquiring again conflicts.
\<close>

theorem barred_holder_locked_out:
  assumes "redis_server api view" and "view s (lease_key repo branch) = Absent"
    and "key_part repo" and "key_part branch" and "CHR ''|'' \<in> set a" and "0 < Milliseconds ttl"
    and "\<bar>UnixMilli now\<bar> \<le> 9007199254740992"
    and "AcquireWithTTL api no_rfaults now repo branch a ttl s = (Inr l, s1)"
  shows "Extend api no_rfaults now2 repo branch a ttl2 s1 = (Inl ErrLeaseConflict, s1) \<and>
    Release api no_rfaults repo branch a s1 = (Inl ErrLeaseNotFound, s1) \<and>
    AcquireWithTTL api no_rfaults now2 repo branch a ttl2 s1 = (Inl ErrLeaseConflict, s1)"
proof -
  have v: "view s1 (lease_key repo branch) = Str (lease_value a (UnixMilli now)) (Some (Milliseconds ttl))"
    using redis_server.acquire_absent [OF assms(1,2,6,7), of a] assms(3,4,8)
    by (auto simp: AcquireWithTTL_def)
  have "fst (lua_split (lease_value a (UnixMilli now))) \<noteq> a"
    using lua_split_bar assms(5) by metis
  then show ?thesis
    using redis_server.acquire_other [OF assms(1) v] assms(3,4)
    by (simp add: Extend_def Release_def AcquireWithTTL_def)
qed

theorem barred_holder_locked_out_witness:
  "let s1 = snd (AcquireWithTTL mem_api no_rfaults 0 ''acme'' ''main'' ''host|1'' Second (\<lambda>_. Absent))
   in Release mem_api no_rfaults ''acme'' ''main'' ''host|1'' s1 = (Inl ErrLeaseNotFound, s1)"
proof -
  let ?a = "AcquireWithTTL mem_api no_rfaults 0 ''acme'' ''main'' ''host|1'' Second (\<lambda>_. Absent)"
  have "\<exists>l. ?a = (Inr l, snd ?a)"
    by (simp add: AcquireWithTTL_def Milliseconds_def UnixMilli_def mem.acquire_absent mem_view_def)
  then show ?thesis
    using barred_holder_locked_out [OF mem.redis_server_axioms, of "\<lambda>_. Absent" "''acme''" "''main''" "''host|1''"
        Second 0 _ "snd ?a"]
    by (auto simp: mem_view_def Milliseconds_def UnixMilli_def Let_def)
qed

end
