(* ===== verification/Heartbeat.thy ===== *)
theory Heartbeat
  imports Lease Lifecycle
begin

text \<open>
  Lease renewal: \<open>internal/scheduler/heartbeat.go\<close>. The goroutine \<open>run\<close> waits for one of three
  events (the context ends, \<open>Stop\<close> is called, the ticker fires); \<open>run_event\<close> is one pass of
  its loop, \<open>hb_run\<close> a sequence of passes, each with its own time and network behaviour. The mutex
  makes each update of the fields one step.
\<close>

section \<open>Configuration and state\<close>

record HeartbeatConfig =
  Interval :: duration
  LeaseTTL :: duration
  MaxMisses :: int

definition DefaultHeartbeatConfig :: HeartbeatConfig where
  "DefaultHeartbeatConfig = \<lparr>Interval = 10 * Second, LeaseTTL = 30 * Second, MaxMisses = 3\<rparr>"

record Heartbeat =
  hb_lease :: "Lease option"
  hb_config :: HeartbeatConfig
  hb_stopped :: bool
  hb_misses :: int
  hb_lastErr :: "error option"
  hb_running :: bool

definition StartHeartbeat :: "Lease option \<Rightarrow> HeartbeatConfig \<Rightarrow> error + Heartbeat" where
  "StartHeartbeat lease cfg =
     (if lease = None then Inl ErrNilLease
      else if Interval cfg \<le> 0 \<or> MaxMisses cfg \<le> 0 then Inl ErrInvalidConfig
      else Inr \<lparr>hb_lease = lease, hb_config = cfg, hb_stopped = False, hb_misses = 0,
                hb_lastErr = None, hb_running = True\<rparr>)"

section \<open>The loop\<close>

datatype hb_event = CtxDone | StopCh | Tick

definition releaseAndStop :: "'r redis_api \<Rightarrow> rfaults \<Rightarrow> Heartbeat \<Rightarrow> 'r \<Rightarrow> Heartbeat \<times> 'r" where
  "releaseAndStop api rf hb s =
     (let s' = (case hb_lease hb of
                  Some l \<Rightarrow> snd (Release api rf (l_Repo l) (l_Branch l) (l_HolderID l) s)
                | None \<Rightarrow> s)
      in (hb\<lparr>hb_stopped := True, hb_lease := None, hb_running := False\<rparr>, s'))"

definition run_event ::
  "'r redis_api \<Rightarrow> rfaults \<Rightarrow> gotime \<Rightarrow> hb_event \<Rightarrow> Heartbeat \<Rightarrow> 'r \<Rightarrow> Heartbeat \<times> 'r" where
  "run_event api rf now ev hb s =
     (if \<not> hb_running hb then (hb, s)
      else case ev of
        CtxDone \<Rightarrow> releaseAndStop api rf hb s
      | StopCh \<Rightarrow> releaseAndStop api rf hb s
      | Tick \<Rightarrow>
         (case hb_lease hb of
            None \<Rightarrow> (hb, s)
          | Some l \<Rightarrow>
             (case Extend api rf now (l_Repo l) (l_Branch l) (l_HolderID l) (LeaseTTL (hb_config hb)) s of
                (Inl err, s') \<Rightarrow>
                  (let hb' = hb\<lparr>hb_misses := hb_misses hb + 1, hb_lastErr := Some err\<rparr> in
                   if MaxMisses (hb_config hb) \<le> hb_misses hb' then releaseAndStop api rf hb' s'
                   else (hb', s'))
              | (Inr newLease, s') \<Rightarrow> (hb\<lparr>hb_misses := 0, hb_lease := Some newLease\<rparr>, s'))))"

fun hb_run :: "'r redis_api \<Rightarrow> (rfaults \<times> gotime \<times> hb_event) list \<Rightarrow> Heartbeat \<Rightarrow> 'r \<Rightarrow> Heartbeat \<times> 'r" where
  "hb_run api [] hb s = (hb, s)"
| "hb_run api ((rf, now, ev) # evs) hb s =
     (case run_event api rf now ev hb s of (hb', s') \<Rightarrow> hb_run api evs hb' s')"

text \<open>\<open>Stop\<close> marks the heartbeat stopped, signals the loop and waits for it.\<close>

definition Stop :: "'r redis_api \<Rightarrow> rfaults \<Rightarrow> gotime \<Rightarrow> Heartbeat \<Rightarrow> 'r \<Rightarrow> Heartbeat \<times> 'r" where
  "Stop api rf now hb s =
     (if hb_stopped hb then (hb, s) else run_event api rf now StopCh (hb\<lparr>hb_stopped := True\<rparr>) s)"

definition current_lease :: "Heartbeat \<Rightarrow> Lease option" where
  "current_lease hb = (if hb_stopped hb \<or> hb_lease hb = None then None else hb_lease hb)"

record HeartbeatStatus =
  hs_Repo :: string
  hs_Branch :: string
  hs_HolderID :: string
  hs_Misses :: int
  hs_LastErr :: "error option"
  hs_ExpiresAt :: gotime

definition Status :: "Heartbeat \<Rightarrow> HeartbeatStatus" where
  "Status hb =
     (if hb_stopped hb then \<lparr>hs_Repo = '''', hs_Branch = '''', hs_HolderID = '''',
          hs_Misses = hb_misses hb, hs_LastErr = hb_lastErr hb, hs_ExpiresAt = zero_time\<rparr>
      else case hb_lease hb of
        None \<Rightarrow> \<lparr>hs_Repo = '''', hs_Branch = '''', hs_HolderID = '''',
          hs_Misses = hb_misses hb, hs_LastErr = hb_lastErr hb, hs_ExpiresAt = zero_time\<rparr>
      | Some l \<Rightarrow> \<lparr>hs_Repo = l_Repo l, hs_Branch = l_Branch l, hs_HolderID = l_HolderID l,
          hs_Misses = hb_misses hb, hs_LastErr = hb_lastErr hb, hs_ExpiresAt = l_ExpiresAt l\<rparr>)"

definition IsHealthy :: "HeartbeatStatus \<Rightarrow> bool" where
  "IsHealthy st \<longleftrightarrow> hs_Misses st = 0 \<and> hs_LastErr st = None"

section \<open>The invariant of the loop\<close>

definition hb_inv :: "Heartbeat \<Rightarrow> bool" where
  "hb_inv hb \<longleftrightarrow>
     (if hb_running hb then hb_lease hb \<noteq> None \<and> 0 \<le> hb_misses hb \<and> hb_misses hb < MaxMisses (hb_config hb)
      else hb_stopped hb \<and> hb_lease hb = None)"

definition hb_for :: "string \<Rightarrow> string \<Rightarrow> string \<Rightarrow> Heartbeat \<Rightarrow> bool" where
  "hb_for repo branch a hb \<longleftrightarrow>
     (\<forall>l. hb_lease hb = Some l \<longrightarrow> l_Repo l = repo \<and> l_Branch l = branch \<and> l_HolderID l = a)"

lemma releaseAndStop_sel [simp]:
  "hb_running (fst (releaseAndStop api rf hb s)) = False"
  "hb_stopped (fst (releaseAndStop api rf hb s)) = True"
  "hb_lease (fst (releaseAndStop api rf hb s)) = None"
  "hb_config (fst (releaseAndStop api rf hb s)) = hb_config hb"
  "hb_misses (fst (releaseAndStop api rf hb s)) = hb_misses hb"
  by (simp_all add: releaseAndStop_def Let_def)

lemma Extend_lease:
  assumes "fst (Extend api rf now repo branch a ttl s) = Inr l"
  shows "l_Repo l = repo \<and> l_Branch l = branch \<and> l_HolderID l = a \<and> l_ExpiresAt l = now + ttl"
  using assms by (auto simp: Extend_def redis_call_def split: option.splits prod.splits if_splits)

lemma run_event_stopped: "\<not> hb_running hb \<Longrightarrow> run_event api rf now ev hb s = (hb, s)"
  by (simp add: run_event_def)

lemma run_event_tick_ok:
  assumes "hb_running hb" and "hb_lease hb = Some l"
    and "Extend api rf now (l_Repo l) (l_Branch l) (l_HolderID l) (LeaseTTL (hb_config hb)) s = (Inr l', s')"
  shows "run_event api rf now Tick hb s = (hb\<lparr>hb_misses := 0, hb_lease := Some l'\<rparr>, s')"
  using assms by (simp add: run_event_def)

lemma run_event_tick_miss:
  assumes "hb_running hb" and "hb_lease hb = Some l"
    and "Extend api rf now (l_Repo l) (l_Branch l) (l_HolderID l) (LeaseTTL (hb_config hb)) s = (Inl err, s')"
  shows "run_event api rf now Tick hb s =
    (let hb' = hb\<lparr>hb_misses := hb_misses hb + 1, hb_lastErr := Some err\<rparr> in
     if MaxMisses (hb_config hb) \<le> hb_misses hb + 1 then releaseAndStop api rf hb' s' else (hb', s'))"
  using assms by (simp add: run_event_def Let_def)

lemma run_event_inv:
  assumes "hb_inv hb" and "hb_for repo branch a hb" and "run_event api rf now ev hb s = (hb', s')"
  shows "hb_inv hb' \<and> hb_for repo branch a hb' \<and> hb_config hb' = hb_config hb"
proof (cases "hb_running hb \<and> ev = Tick")
  case False
  then have "(hb', s') = (hb, s) \<or> (hb', s') = releaseAndStop api rf hb s"
    using assms(3) by (cases ev) (auto simp: run_event_def split: if_splits)
  then show ?thesis
    using assms(1,2) by (auto simp: hb_inv_def hb_for_def releaseAndStop_def)
next
  case True
  then obtain l where l: "hb_lease hb = Some l" using assms(1) by (auto simp: hb_inv_def)
  obtain r s1 where e: "Extend api rf now (l_Repo l) (l_Branch l) (l_HolderID l)
      (LeaseTTL (hb_config hb)) s = (r, s1)" by fastforce
  show ?thesis
  proof (cases r)
    case (Inl err)
    then show ?thesis
      using run_event_tick_miss [OF _ l, of api rf now s err s1] e True assms
      by (auto simp: hb_inv_def hb_for_def releaseAndStop_def Let_def split: if_splits)
  next
    case (Inr l')
    then show ?thesis
      using run_event_tick_ok [OF _ l, of api rf now s l' s1] e True assms l
        Extend_lease [of api rf now "l_Repo l" "l_Branch l" "l_HolderID l" "LeaseTTL (hb_config hb)" s l']
      by (auto simp: hb_inv_def hb_for_def)
  qed
qed

lemma hb_run_inv:
  "hb_inv hb \<Longrightarrow> hb_for repo branch a hb \<Longrightarrow> hb_run api evs hb s = (hb', s') \<Longrightarrow>
   hb_inv hb' \<and> hb_for repo branch a hb' \<and> hb_config hb' = hb_config hb"
proof (induction api evs hb s rule: hb_run.induct)
  case (2 api rf now ev evs hb s)
  obtain h1 s1 where r: "run_event api rf now ev hb s = (h1, s1)" by fastforce
  from run_event_inv [OF "2.prems"(1,2) r] "2.IH" [OF r [symmetric]] "2.prems"(3) r
  show ?case by auto
qed auto

text \<open>A tick whose renewal fails on the network is a miss; enough of them end the loop.\<close>

lemma Extend_network_error:
  assumes "rf ''extend'' = Some (e, ap)" and "key_part repo" and "key_part branch"
  shows "\<exists>s'. Extend api rf now repo branch a ttl s = (Inl (RedisError e), s')"
  using assms by (simp add: Extend_def redis_call_def)

lemma missed_tick:
  assumes "hb_inv hb" and "hb_for repo branch a hb" and "key_part repo" and "key_part branch"
    and "hb_running hb" and "rf ''extend'' \<noteq> None" and "run_event api rf now Tick hb s = (hb', s')"
  shows "\<not> hb_running hb' \<or> hb_misses hb' = hb_misses hb + 1"
proof -
  obtain l where l: "hb_lease hb = Some l" "l_Repo l = repo" "l_Branch l = branch"
    using assms(1,2,5) by (auto simp: hb_inv_def hb_for_def)
  obtain e ap where "rf ''extend'' = Some (e, ap)" using assms(6) by auto
  from Extend_network_error [of rf, OF this assms(3,4)] l obtain s1 where
    "Extend api rf now (l_Repo l) (l_Branch l) (l_HolderID l) (LeaseTTL (hb_config hb)) s =
      (Inl (RedisError e), s1)" by metis
  from run_event_tick_miss [OF assms(5) l(1) this] assms(7) show ?thesis
    by (auto simp: Let_def releaseAndStop_def split: if_splits)
qed

lemma hb_run_stopped: "\<not> hb_running hb \<Longrightarrow> hb_run api evs hb s = (hb, s)"
  by (induction evs) (auto simp: run_event_stopped)

lemma missed_ticks_stop:
  assumes "hb_inv hb" and "hb_for repo branch a hb" and "key_part repo" and "key_part branch"
    and "\<forall>(rf, now, ev)\<in>set evs. ev = Tick \<and> rf ''extend'' \<noteq> None"
    and "MaxMisses (hb_config hb) \<le> hb_misses hb + int (length evs)"
    and "hb_run api evs hb s = (hb', s')"
  shows "\<not> hb_running hb'"
  using assms
proof (induction api evs hb s rule: hb_run.induct)
  case (1 api hb s)
  then show ?case by (auto simp: hb_inv_def split: if_splits)
next
  case (2 api rf now ev evs hb s)
  show ?case
  proof (cases "hb_running hb")
    case False
    then show ?thesis
      using "2.prems"(7) hb_run_stopped [OF False, of api "(rf, now, ev) # evs" s] by simp
  next
    case True
    obtain h1 s1 where r: "run_event api rf now ev hb s = (h1, s1)" by fastforce
    have tick: "ev = Tick" "rf ''extend'' \<noteq> None" using "2.prems"(5) by auto
    note inv = run_event_inv [OF "2.prems"(1,2) r]
    have run: "hb_run api evs h1 s1 = (hb', s')" using "2.prems"(7) r by simp
    show ?thesis
    proof (cases "hb_running h1")
      case False
      then show ?thesis using run hb_run_stopped [OF False, of api evs s1] by simp
    next
      case h1: True
      have "hb_misses h1 = hb_misses hb + 1"
        using missed_tick [of hb repo branch a rf, OF "2.prems"(1-4) True tick(2) r [unfolded tick(1)]] h1 by simp
      then show ?thesis
        using "2.IH" [OF r [symmetric] _ _ "2.prems"(3,4)] inv run "2.prems"(5,6) by auto
    qed
  qed
qed

lemma Start_inv:
  assumes "StartHeartbeat (Some l) cfg = Inr hb"
  shows "hb_inv hb \<and> hb_for (l_Repo l) (l_Branch l) (l_HolderID l) hb \<and> hb_running hb \<and>
    hb_config hb = cfg \<and> hb_misses hb = 0"
  using assms by (auto simp: StartHeartbeat_def hb_inv_def hb_for_def split: if_splits)

context redis_server
begin

lemma release_not_held:
  assumes "string_key view s (lease_key repo branch)" and "key_part repo" and "key_part branch"
  shows "\<not> held view (snd (Release api no_rfaults repo branch a s)) (lease_key repo branch) a t"
proof (cases "view s (lease_key repo branch)")
  case (Str w t')
  then show ?thesis
    using acquire_own(3) [OF Str, of a "snd (lua_split w)"] acquire_other(3) [OF Str, of a] assms(2,3)
    by (cases "fst (lua_split w) = a") (auto simp: Release_def held_iff del prod_eq_iff)
qed (use assms get_absent in \<open>auto simp: string_key_def Release_def release_script_def held_iff\<close>)

end

section \<open>Properties of the heartbeat\<close>

text \<open>
  C6: the renewal loop. From a valid start, after any sequence of events with any network
  behaviour, a running heartbeat has a lease of the same branch and holder and fewer misses than
  \<open>MaxMisses\<close>, and a finished one is stopped and shows no lease; \<open>MaxMisses\<close> failing ticks in a
  row end the loop; and when it ends through \<open>Stop\<close> with a working connection the holder no
  longer holds the lease.
\<close>

theorem heartbeat_loop_correct:
  assumes "redis_server api view" and "StartHeartbeat (Some l) cfg = Inr hb"
    and "key_part (l_Repo l)" and "key_part (l_Branch l)" and "hb_run api evs hb s = (hb1, s1)"
    and "string_key view s1 (lease_key (l_Repo l) (l_Branch l))"
  shows "(if hb_running hb1
      then (\<exists>l'. hb_lease hb1 = Some l' \<and> l_Repo l' = l_Repo l \<and> l_Branch l' = l_Branch l \<and>
              l_HolderID l' = l_HolderID l) \<and> 0 \<le> hb_misses hb1 \<and> hb_misses hb1 < MaxMisses cfg
      else hb_stopped hb1 \<and> current_lease hb1 = None) \<and>
    (list_all (\<lambda>(rf, now, ev). ev = Tick \<and> rf ''extend'' \<noteq> None) evs \<and> MaxMisses cfg \<le> int (length evs) \<longrightarrow>
      \<not> hb_running hb1) \<and>
    (hb_running hb1 \<and> \<not> hb_stopped hb1 \<longrightarrow>
      (\<forall>t. \<not> held view (snd (Stop api no_rfaults now hb1 s1)) (lease_key (l_Repo l) (l_Branch l))
             (l_HolderID l) t))"
proof -
  note st = Start_inv [OF assms(2)]
  have inv: "hb_inv hb1" "hb_for (l_Repo l) (l_Branch l) (l_HolderID l) hb1" "hb_config hb1 = cfg"
    using hb_run_inv [of hb "l_Repo l" "l_Branch l" "l_HolderID l" api evs s hb1 s1] st assms(5) by auto
  have 1: "if hb_running hb1
      then (\<exists>l'. hb_lease hb1 = Some l' \<and> l_Repo l' = l_Repo l \<and> l_Branch l' = l_Branch l \<and>
              l_HolderID l' = l_HolderID l) \<and> 0 \<le> hb_misses hb1 \<and> hb_misses hb1 < MaxMisses cfg
      else hb_stopped hb1 \<and> current_lease hb1 = None"
    using inv by (auto simp: hb_inv_def hb_for_def current_lease_def split: if_splits)
  have 2: "\<not> hb_running hb1"
    if "list_all (\<lambda>(rf, now, ev). ev = Tick \<and> rf ''extend'' \<noteq> None) evs \<and> MaxMisses cfg \<le> int (length evs)"
    using missed_ticks_stop [OF _ _ assms(3,4) _ _ assms(5)] st that by (auto simp: list_all_iff)
  have 3: "\<not> held view (snd (Stop api no_rfaults now hb1 s1)) (lease_key (l_Repo l) (l_Branch l))
      (l_HolderID l) t" if run: "hb_running hb1 \<and> \<not> hb_stopped hb1" for t
  proof -
    obtain l' where l': "hb_lease hb1 = Some l'" "l_Repo l' = l_Repo l" "l_Branch l' = l_Branch l"
      "l_HolderID l' = l_HolderID l" using 1 run by auto
    then have "snd (Stop api no_rfaults now hb1 s1) =
        snd (Release api no_rfaults (l_Repo l) (l_Branch l) (l_HolderID l) s1)"
      using run by (simp add: Stop_def run_event_def releaseAndStop_def)
    then show ?thesis using redis_server.release_not_held [OF assms(1,6,3,4)] by simp
  qed
  from 1 2 3 show ?thesis by blast
qed

definition demo_hb :: Heartbeat where
  "demo_hb = \<lparr>hb_lease = Some \<lparr>l_Repo = ''acme'', l_Branch = ''main'', l_HolderID = ''w1'',
     l_ExpiresAt = 0, l_AcquiredAt = 0\<rparr>, hb_config = DefaultHeartbeatConfig, hb_stopped = False,
     hb_misses = 0, hb_lastErr = None, hb_running = True\<rparr>"

definition lost_network :: rfaults where
  "lost_network site = Some (''dial tcp: timeout'', False)"

theorem heartbeat_loop_correct_witness:
  "\<not> hb_running (fst (hb_run mem_api [(lost_network, 1, Tick), (lost_network, 2, Tick), (lost_network, 3, Tick)]
      demo_hb demo_lease))"
proof -
  let ?l = "\<lparr>l_Repo = ''acme'', l_Branch = ''main'', l_HolderID = ''w1'', l_ExpiresAt = 0, l_AcquiredAt = 0\<rparr>"
  let ?evs = "[(lost_network, 1, Tick), (lost_network, 2, Tick), (lost_network, 3, Tick)]"
  have st: "StartHeartbeat (Some ?l) DefaultHeartbeatConfig = Inr demo_hb"
    by (simp add: StartHeartbeat_def DefaultHeartbeatConfig_def demo_hb_def)
  obtain h1 s1 where r: "hb_run mem_api ?evs demo_hb demo_lease = (h1, s1)" by fastforce
  have "snd (hb_run mem_api ?evs demo_hb demo_lease) = demo_lease"
    by (simp add: run_event_def demo_hb_def DefaultHeartbeatConfig_def lost_network_def Extend_def
        Release_def releaseAndStop_def redis_call_def Let_def)
  moreover have "string_key mem_view demo_lease (lease_key ''acme'' ''main'')"
    using demo_lease_acquired mem.acquire_holds [of _ "''acme''" "''main''"]
    by (fastforce simp: string_key_def mem_view_def Milliseconds_def held_iff)
  moreover have "list_all (\<lambda>(rf, now, ev). ev = Tick \<and> rf ''extend'' \<noteq> None) ?evs"
    "MaxMisses DefaultHeartbeatConfig \<le> int (length ?evs)"
    by (auto simp: lost_network_def DefaultHeartbeatConfig_def)
  ultimately have "\<not> hb_running h1"
    using heartbeat_loop_correct [OF mem.redis_server_axioms st _ _ r] r by simp
  then show ?thesis using r by simp
qed

text \<open>
  A heartbeat that recovers is reported unhealthy for ever: the loop resets the miss count but
  not the last error, so after one missed and one successful renewal the status shows no misses and
  \<open>IsHealthy\<close> is still false, although the code says that it is true for an active heartbeat with
  no missed beats.
\<close>

theorem recovered_heartbeat_unhealthy:
  assumes "hb_inv hb" and "hb_running hb" and "\<not> hb_stopped hb" and "hb_lease hb = Some l"
    and "key_part (l_Repo l)" and "key_part (l_Branch l)" and "hb_misses hb + 1 < MaxMisses (hb_config hb)"
    and "rf1 ''extend'' = Some (e, False)"
    and "fst (Extend api rf2 now2 (l_Repo l) (l_Branch l) (l_HolderID l) (LeaseTTL (hb_config hb)) s) = Inr l2"
    and "hb_run api [(rf1, now1, Tick), (rf2, now2, Tick)] hb s = (hb2, s2)"
  shows "hb_running hb2 \<and> hs_Misses (Status hb2) = 0 \<and> \<not> IsHealthy (Status hb2)"
proof -
  let ?h1 = "hb\<lparr>hb_misses := hb_misses hb + 1, hb_lastErr := Some (RedisError e)\<rparr>"
  have "Extend api rf1 now1 (l_Repo l) (l_Branch l) (l_HolderID l) (LeaseTTL (hb_config hb)) s =
      (Inl (RedisError e), s)"
    using assms(5,6,8) by (simp add: Extend_def redis_call_def)
  from run_event_tick_miss [OF assms(2,4) this] assms(7)
  have r1: "run_event api rf1 now1 Tick hb s = (?h1, s)" by (simp add: Let_def)
  obtain s3 where "Extend api rf2 now2 (l_Repo l) (l_Branch l) (l_HolderID l) (LeaseTTL (hb_config hb)) s = (Inr l2, s3)"
    using assms(9) by (metis prod.collapse)
  with run_event_tick_ok [of ?h1 l api rf2 now2 s l2 s3] assms(2,4)
  have "run_event api rf2 now2 Tick ?h1 s = (?h1\<lparr>hb_misses := 0, hb_lease := Some l2\<rparr>, s3)" by simp
  with r1 assms(10) have "hb2 = ?h1\<lparr>hb_misses := 0, hb_lease := Some l2\<rparr>" by simp
  with assms(2,3) show ?thesis by (simp add: Status_def IsHealthy_def)
qed

theorem recovered_heartbeat_unhealthy_witness:
  "\<not> IsHealthy (Status (fst (hb_run mem_api [(lost_network, 1, Tick), (no_rfaults, 2, Tick)] demo_hb demo_lease)))"
proof -
  let ?r = "hb_run mem_api [(lost_network, 1, Tick), (no_rfaults, 2, Tick)] demo_hb demo_lease"
  let ?l = "\<lparr>l_Repo = ''acme'', l_Branch = ''main'', l_HolderID = ''w1'', l_ExpiresAt = 0, l_AcquiredAt = 0\<rparr>"
  obtain l where "AcquireWithTTL mem_api no_rfaults (1700000000 * Second) ''acme'' ''main'' ''w1''
     (30 * Second) (\<lambda>_. Absent) = (Inr l, demo_lease)"
    using demo_lease_acquired by blast
  from mem.acquire_holds [OF this]
  have h: "held mem_view demo_lease (lease_key ''acme'' ''main'') ''w1'' 30000"
    by (simp add: string_key_def mem_view_def Milliseconds_def)
  obtain l2 where l2: "fst (Extend mem_api no_rfaults 2 ''acme'' ''main'' ''w1'' (30 * Second) demo_lease) = Inr l2"
    using mem.held_serves(1) [OF h, of 2 "30 * Second"] by auto
  have i: "hb_inv demo_hb" "hb_running demo_hb" "\<not> hb_stopped demo_hb" "hb_lease demo_hb = Some ?l"
    "hb_misses demo_hb + 1 < MaxMisses (hb_config demo_hb)"
    by (simp_all add: hb_inv_def demo_hb_def DefaultHeartbeatConfig_def)
  obtain h2 s2 where r: "?r = (h2, s2)" by fastforce
  show ?thesis
    using recovered_heartbeat_unhealthy [OF i(1-4) _ _ i(5) _ _ r, of "''dial tcp: timeout''" l2] l2 r
    by (simp del: hb_run.simps add: lost_network_def demo_hb_def DefaultHeartbeatConfig_def)
qed

end
