(* ===== verification/Normalizer.thy ===== *)
theory Normalizer
  imports Strconv
begin

text \<open>
  Findings: \<open>internal/normalizer/normalizer.go\<close>, which turns a provider's raw finding into the
  canonical one, and \<open>internal/webhook/normalizer.go\<close>, which reads findings out of a review's text
  (the two regular expressions are parameters, since the package \<open>regexp\<close> matches them).
\<close>

section \<open>Canonical findings\<close>

datatype Severity = SeverityError | SeverityWarning | SeverityInfo

fun severity_str :: "Severity \<Rightarrow> string" where
  "severity_str SeverityError = ''error''"
| "severity_str SeverityWarning = ''warning''"
| "severity_str SeverityInfo = ''info''"

definition validSeverities :: "(string \<times> Severity) list" where
  "validSeverities =
    [(''error'', SeverityError), (''err'', SeverityError), (''critical'', SeverityError), (''fatal'', SeverityError),
     (''warning'', SeverityWarning), (''warn'', SeverityWarning), (''medium'', SeverityWarning),
     (''info'', SeverityInfo), (''information'', SeverityInfo), (''note'', SeverityInfo), (''suggestion'', SeverityInfo),
     (''low'', SeverityInfo), (''hint'', SeverityInfo)]"

record Finding =
  f_severity :: Severity
  f_category :: string
  f_file :: string
  f_line :: int
  f_message :: string
  f_source :: string
  f_timestamp :: gotime
  f_rule_id :: string

record RawFinding =
  w_severity :: string
  w_category :: string
  w_file :: string
  w_line :: int
  w_message :: string
  w_source :: string
  w_rule_id :: string
  w_timestamp :: gotime

definition normalizeSeverity :: "string \<Rightarrow> Severity" where
  "normalizeSeverity raw =
     (case map_of validSeverities (ToLower (TrimSpace raw)) of Some sev \<Rightarrow> sev | None \<Rightarrow> SeverityInfo)"

definition normalizeCategory :: "string \<Rightarrow> string" where
  "normalizeCategory raw = (let cat = ToLower (TrimSpace raw) in if cat = '''' then ''general'' else cat)"

definition normalizeLineNumber :: "int \<Rightarrow> int" where
  "normalizeLineNumber line = (if line < 0 then 0 else line)"

definition Normalize :: "RawFinding \<Rightarrow> string \<Rightarrow> gotime \<Rightarrow> error + Finding" where
  "Normalize raw source now =
     (let msg = TrimSpace (w_message raw) in
      if msg = '''' then Inl ErrMalformedFinding
      else let src1 = TrimSpace (w_source raw);
               src2 = (if src1 = '''' then TrimSpace source else src1);
               src = (if src2 = '''' then ''unknown'' else src2);
               ts = (if w_timestamp raw = zero_time then now else w_timestamp raw)
      in Inr \<lparr>f_severity = normalizeSeverity (w_severity raw), f_category = normalizeCategory (w_category raw),
           f_file = TrimSpace (w_file raw), f_line = normalizeLineNumber (w_line raw), f_message = msg, f_source = src,
           f_timestamp = truncate_second ts, f_rule_id = TrimSpace (w_rule_id raw)\<rparr>)"

text \<open>The errors carry the index of their finding, as in the message \<open>finding[i]\<close>.\<close>

fun normalize_from :: "nat \<Rightarrow> RawFinding list \<Rightarrow> string \<Rightarrow> gotime \<Rightarrow> Finding list \<times> (nat \<times> error) list" where
  "normalize_from i [] source now = ([], [])"
| "normalize_from i (raw # raws) source now =
     (case normalize_from (Suc i) raws source now of (fs, errs) \<Rightarrow>
       (case Normalize raw source now of
          Inl e \<Rightarrow> (fs, (i, e) # errs)
        | Inr f \<Rightarrow> (f # fs, errs)))"

definition NormalizeAll :: "RawFinding list \<Rightarrow> string \<Rightarrow> gotime \<Rightarrow> Finding list \<times> (nat \<times> error) list" where
  "NormalizeAll raws source now = normalize_from 0 raws source now"

section \<open>Findings in the text of a review\<close>

definition reviewSeverity :: "string \<Rightarrow> string" where
  "reviewSeverity st = (if st = ''changes_requested'' then ''error'' else if st = ''approved'' then ''info'' else ''warning'')"

fun split_lines :: "string \<Rightarrow> string list" where
  "split_lines [] = [[]]"
| "split_lines (c # cs) =
     (if c = CHR 0x0A then [] # split_lines cs
      else (case split_lines cs of [] \<Rightarrow> [[c]] | l # ls \<Rightarrow> (c # l) # ls))"

text \<open>A match is the file, the digits of the line and the rest; \<open>strconv.Atoi\<close> of the digits gives 0 on an error, and the
  largest or smallest \<open>int\<close> when out of range.\<close>

definition atoi_or_zero :: "string \<Rightarrow> int" where
  "atoi_or_zero s = (case ParseInt s of Some n \<Rightarrow> n
     | None \<Rightarrow> (if s \<noteq> '''' \<and> list_all is_digit s then MaxInt64 else 0))"

definition review_line ::
  "(string \<Rightarrow> (string \<times> string \<times> string) option) \<Rightarrow> (string \<Rightarrow> (string \<times> string \<times> string) option) \<Rightarrow> string \<Rightarrow>
   (string \<times> int \<times> string) option" where
  "review_line reFileLineColon reDashFileLine line0 =
     (let line = TrimSpace line0 in
      if line = '''' then None
      else case reFileLineColon line of
        Some (file, num, msg) \<Rightarrow> Some (file, atoi_or_zero num, msg)
      | None \<Rightarrow> (case reDashFileLine line of
          Some (file, num, rest) \<Rightarrow>
            (let msg = TrimSpace rest in Some (file, atoi_or_zero num, if msg = '''' then line else msg))
        | None \<Rightarrow> None))"

text \<open>The file, line and message of each finding; the other columns are constant.\<close>

definition normalizeReviewFindings ::
  "(string \<Rightarrow> (string \<times> string \<times> string) option) \<Rightarrow> (string \<Rightarrow> (string \<times> string \<times> string) option) \<Rightarrow> string \<Rightarrow>
   (string \<times> int \<times> string) list" where
  "normalizeReviewFindings reFileLineColon reDashFileLine body0 =
     (let body = TrimSpace body0 in
      if body = '''' then []
      else case List.map_filter (review_line reFileLineColon reDashFileLine) (split_lines body) of
        [] \<Rightarrow> [('''', 0, if 500 < length body then take 500 body else body)]
      | fs \<Rightarrow> fs)"

section \<open>Properties\<close>

definition well_formed :: "Finding \<Rightarrow> bool" where
  "well_formed f \<longleftrightarrow> f_message f \<noteq> '''' \<and> f_source f \<noteq> '''' \<and> f_category f \<noteq> '''' \<and> 0 \<le> f_line f \<and>
     f_timestamp f mod Second = 0"

text \<open>A canonical finding written back as a raw one.\<close>

definition raw_of :: "Finding \<Rightarrow> RawFinding" where
  "raw_of f = \<lparr>w_severity = severity_str (f_severity f), w_category = f_category f, w_file = f_file f, w_line = f_line f,
     w_message = f_message f, w_source = f_source f, w_rule_id = f_rule_id f, w_timestamp = f_timestamp f\<rparr>"

lemma truncate_second_idem [simp]: "truncate_second (truncate_second t) = truncate_second t"
  by (simp add: truncate_second_def)

lemma truncate_second_mod [simp]: "truncate_second t mod Second = 0"
  by (simp add: truncate_second_def minus_mod_self1)

lemma ToLower_append [simp]: "ToLower (s @ t) = ToLower s @ ToLower t"
  by (simp add: ToLower_def)

lemma normalizeSeverity_str [simp]: "normalizeSeverity (severity_str sev) = sev"
  by (cases sev; simp only:) (code_simp, code_simp, code_simp)

lemma normalizeCategory_fix: "normalizeCategory (normalizeCategory raw) = normalizeCategory raw"
proof -
  have "TrimSpace ''general'' = ''general''" "ToLower ''general'' = ''general''" by code_simp+
  then show ?thesis by (simp add: normalizeCategory_def Let_def TrimSpace_ToLower)
qed

lemma normalizeCategory_nonempty [simp]: "normalizeCategory raw \<noteq> ''''"
  by (simp add: normalizeCategory_def Let_def)

lemma normalize_ok:
  "Normalize raw source now = Inr f \<Longrightarrow>
   f_message f = TrimSpace (w_message raw) \<and> f_file f = TrimSpace (w_file raw) \<and> f_rule_id f = TrimSpace (w_rule_id raw) \<and>
   f_severity f = normalizeSeverity (w_severity raw) \<and> f_category f = normalizeCategory (w_category raw) \<and>
   TrimSpace (f_source f) = f_source f \<and> f_line f = max 0 (w_line raw) \<and> f_message f \<noteq> '''' \<and> f_source f \<noteq> '''' \<and>
   f_timestamp f = truncate_second (if w_timestamp raw = zero_time then now else w_timestamp raw)"
proof -
  have "TrimSpace ''unknown'' = ''unknown''" by code_simp
  then show "Normalize raw source now = Inr f \<Longrightarrow> ?thesis"
    by (auto simp: Normalize_def Let_def normalizeLineNumber_def split: if_splits)
qed

lemma normalize_from_parts:
  assumes "normalize_from i raws source now = (fs, errs)"
  shows "map Inr fs = filter (\<lambda>r. \<not> isl r) (map (\<lambda>r. Normalize r source now) raws) \<and>
    errs = [(i + k, ErrMalformedFinding). k \<leftarrow> [0..<length raws], TrimSpace (w_message (raws ! k)) = '''']"
  using assms
proof (induction raws arbitrary: i fs errs)
  case (Cons raw raws)
  obtain fs' errs' where r: "normalize_from (Suc i) raws source now = (fs', errs')" by fastforce
  have shift: "[(i + k, ErrMalformedFinding). k \<leftarrow> [0..<length (raw # raws)], TrimSpace (w_message ((raw # raws) ! k)) = ''''] =
     (if TrimSpace (w_message raw) = '''' then [(i, ErrMalformedFinding)] else []) @
     [(Suc i + k, ErrMalformedFinding). k \<leftarrow> [0..<length raws], TrimSpace (w_message (raws ! k)) = '''']"
    by (simp add: upt_conv_Cons map_Suc_upt [symmetric] comp_def cong: if_cong del: upt_Suc)
  show ?case
    using Cons.prems Cons.IH [OF r] r unfolding shift
    by (auto simp: Normalize_def Let_def split: if_splits)
qed simp

lemma normalize_raw_of:
  assumes "Normalize raw source now = Inr f" and "f_timestamp f \<noteq> zero_time"
  shows "Normalize (raw_of f) source' now' = Inr f"
proof -
  have "normalizeLineNumber (f_line f) = f_line f" "normalizeCategory (f_category f) = f_category f"
    "truncate_second (f_timestamp f) = f_timestamp f" "TrimSpace (f_message f) = f_message f"
    "TrimSpace (f_file f) = f_file f" "TrimSpace (f_rule_id f) = f_rule_id f" "TrimSpace (f_source f) = f_source f"
    using normalize_ok [OF assms(1)] by (simp_all add: normalizeLineNumber_def normalizeCategory_fix)
  moreover have "f_message f \<noteq> ''''" "f_source f \<noteq> ''''"
    using normalize_ok [OF assms(1)] by blast+
  ultimately show ?thesis
    using assms(2) by (simp add: Normalize_def raw_of_def Let_def)
qed

text \<open>
  Normalisation keeps everything that can be kept. Exactly the raw findings without a message are
  reported, each with its index, and the others come out in order; what comes out has a
  message, a source, a category, a line of at least 0 and a time of whole seconds, and normalising it
  again, under any source and at any time, gives it back.
\<close>

theorem normalize_all_correct:
  assumes "NormalizeAll raws source now = (fs, errs)"
  shows "length fs + length errs = length raws \<and>
    map Inr fs = map (\<lambda>r. Normalize r source now) (filter (\<lambda>r. TrimSpace (w_message r) \<noteq> '''') raws) \<and>
    errs = [(k, ErrMalformedFinding). k \<leftarrow> [0..<length raws], TrimSpace (w_message (raws ! k)) = ''''] \<and>
    (\<forall>f\<in>set fs. well_formed f \<and> (\<forall>source' now'. f_timestamp f \<noteq> zero_time \<longrightarrow> Normalize (raw_of f) source' now' = Inr f))"
proof -
  have ok: "\<not> isl (Normalize r source now) \<longleftrightarrow> TrimSpace (w_message r) \<noteq> ''''" for r
    by (simp add: Normalize_def Let_def)
  note parts = normalize_from_parts [OF assms [unfolded NormalizeAll_def]]
  have fs: "map Inr fs = map (\<lambda>r. Normalize r source now) (filter (\<lambda>r. TrimSpace (w_message r) \<noteq> '''') raws)"
    using parts by (simp add: filter_map comp_def ok)
  have "length errs = length (filter (\<lambda>k. TrimSpace (w_message (raws ! k)) = '''') [0..<length raws])"
    using parts by (simp add: length_concat comp_def if_distrib [of length] sum_list_map_filter' [symmetric] sum_list_triv cong: if_cong)
  also have "\<dots> = length (filter (\<lambda>r. TrimSpace (w_message r) = '''') raws)"
    using length_filter_map [of "\<lambda>r. TrimSpace (w_message r) = ''''" "\<lambda>k. raws ! k" "[0..<length raws]"] by (simp add: map_nth comp_def)
  finally have "length fs + length errs = length raws"
    using arg_cong [OF fs, of length] sum_length_filter_compl [of "\<lambda>r. TrimSpace (w_message r) = ''''" raws] by simp
  moreover have "well_formed f \<and> (\<forall>source' now'. f_timestamp f \<noteq> zero_time \<longrightarrow> Normalize (raw_of f) source' now' = Inr f)"
    if "f \<in> set fs" for f
  proof -
    have "Inr f \<in> set (map Inr fs :: (error + Finding) list)" using that by simp
    then obtain r where r: "Normalize r source now = Inr f" unfolding fs by auto
    have "well_formed f"
      using normalize_ok [OF r] unfolding well_formed_def by (auto simp del: append_Nil)
    then show ?thesis using normalize_raw_of [OF r] by blast
  qed
  moreover have "errs = [(k, ErrMalformedFinding). k \<leftarrow> [0..<length raws], TrimSpace (w_message (raws ! k)) = '''']"
    using conjunct2 [OF parts] unfolding add_0 .
  ultimately show ?thesis using fs by blast
qed

definition demo_raws :: "RawFinding list" where
  "demo_raws =
    [\<lparr>w_severity = ''CRITICAL'', w_category = '' Security '', w_file = ''a.go'', w_line = - 3, w_message = '' leak '',
      w_source = '''', w_rule_id = '''', w_timestamp = 5000000007\<rparr>,
     \<lparr>w_severity = '''', w_category = '''', w_file = '''', w_line = 0, w_message = ''  '',
      w_source = '''', w_rule_id = '''', w_timestamp = 0\<rparr>]"

theorem normalize_all_correct_witness:
  "\<exists>f. NormalizeAll demo_raws ''coderabbit'' 9 = ([f], [(1, ErrMalformedFinding)]) \<and> f_severity f = SeverityError \<and>
     f_category f = ''security'' \<and> f_line f = 0 \<and> Normalize (raw_of f) '''' 0 = Inr f"
proof -
  obtain fs errs where n: "NormalizeAll demo_raws ''coderabbit'' 9 = (fs, errs)" by fastforce
  have "map (\<lambda>f. (f_severity f, f_category f, f_line f, f_timestamp f)) (fst (NormalizeAll demo_raws ''coderabbit'' 9)) =
      [(SeverityError, ''security'', 0, 5000000000)] \<and> snd (NormalizeAll demo_raws ''coderabbit'' 9) = [(1, ErrMalformedFinding)]"
    by code_simp
  then obtain f where f: "fs = [f]" "errs = [(1, ErrMalformedFinding)]" "f_severity f = SeverityError"
      "f_category f = ''security''" "f_line f = 0" "f_timestamp f = 5000000000"
    unfolding n by (cases fs) auto
  have "Normalize (raw_of f) '''' 0 = Inr f"
    using normalize_all_correct [OF n] f(1,6) by auto
  then show ?thesis using n f by auto
qed

end
