(* ===== verification/Session_Props.thy ===== *)
theory Session_Props
  imports Session_Inv
begin

text \<open>
  The guarantees of the session component: the invariant of all reachable databases, the history of
  assignment rows, the single winner of concurrent emits and claims, the heartbeat secret, the
  columns that only grow, and the functional behaviour of expiry, finalisation and the rule monitor.
\<close>

section \<open>Rows over time\<close>

lemma asg_le_trans: "asg_le a b \<Longrightarrow> asg_le b c \<Longrightarrow> asg_le a c"
  by (auto simp: asg_le_def)

lemma session_le_trans: "session_le a b \<Longrightarrow> session_le b c \<Longrightarrow> session_le a c"
  by (auto simp: session_le_def)

lemma agent_write_rows:
  assumes "agent_write d d'"
  shows "(\<forall>a\<in>set (agent_assignments d). \<exists>a'\<in>set (agent_assignments d'). asg_le a a') \<and>
    (\<forall>s\<in>set (agent_sessions d). \<exists>s'\<in>set (agent_sessions d'). session_le s s')"
  using assms by cases (auto simp: tabs_def; metis asg_le_refl session_le_refl)+

lemma agent_writes_rows:
  assumes "agent_write\<^sup>*\<^sup>* d d'"
  shows "(\<forall>a\<in>set (agent_assignments d). \<exists>a'\<in>set (agent_assignments d'). asg_le a a') \<and>
    (\<forall>s\<in>set (agent_sessions d). \<exists>s'\<in>set (agent_sessions d'). session_le s s')"
  using assms
proof (induction rule: rtranclp_induct)
  case base
  show ?case by (meson asg_le_refl session_le_refl)
next
  case (step y z)
  then show ?case using agent_write_rows [OF step.hyps(2)] by (meson asg_le_trans session_le_trans)
qed

lemma inv_asg_unique:
  "agent_inv d \<Longrightarrow> a \<in> set (agent_assignments d) \<Longrightarrow> b \<in> set (agent_assignments d) \<Longrightarrow> a_id a = a_id b \<Longrightarrow> a = b"
  by (auto simp: agent_inv_def intro: distinct_key_unique [of a_id])

lemma inv_session_unique:
  "agent_inv d \<Longrightarrow> s \<in> set (agent_sessions d) \<Longrightarrow> t \<in> set (agent_sessions d) \<Longrightarrow> s_session_id s = s_session_id t \<Longrightarrow> s = t"
  by (auto simp: agent_inv_def intro: distinct_key_unique [of s_session_id])

lemma inv_find_asg:
  "agent_inv d \<Longrightarrow> a \<in> set (agent_assignments d) \<Longrightarrow> sql_row (\<lambda>x. a_id x = a_id a) (agent_assignments d) = Some a"
  by (auto simp: agent_inv_def sql_row_def intro: find_distinct_key [of a_id])

lemma inv_find_session:
  "agent_inv d \<Longrightarrow> s \<in> set (agent_sessions d) \<Longrightarrow> sql_row (\<lambda>x. s_session_id x = s_session_id s) (agent_sessions d) = Some s"
  by (auto simp: agent_inv_def sql_row_def intro: find_distinct_key [of s_session_id])

lemma live_task_unique:
  assumes "agent_inv d" "a \<in> set (agent_assignments d)" "b \<in> set (agent_assignments d)" "open_asg a" "open_asg b"
    "a_task_id a = a_task_id b" "a_task_id a \<noteq> ''''"
  shows "a = b"
proof -
  let ?P = "\<lambda>a. open_asg a \<and> a_task_id a \<noteq> ''''"
  have "distinct (map a_task_id (filter ?P (agent_assignments d)))"
    using assms(1) by (simp add: agent_inv_def live_tasks_unique_def)
  then show ?thesis
    by (rule distinct_key_unique) (use assms in auto)
qed

section \<open>Emit and accept\<close>

text \<open>Once a row has left a version, an emit for that version is refused.\<close>

lemma stale_emit:
  assumes "agent_inv d" and "a \<in> set (agent_assignments d)" and "a_id a = aid" and "v < a_version a"
  shows "(\<exists>e. EmitAssignmentUpdate flt now aid v sub d = (Inl e, d)) \<and>
    (validateEmitSubstatusNormalized (normalizeAssignmentSubstatus sub) = None \<longrightarrow>
      EmitAssignmentUpdate no_faults now aid v sub d = (Inl (if open_asg a then ErrVersionConflict else ErrAssignmentEnded), d))"
proof
  obtain r d' where e: "EmitAssignmentUpdate flt now aid v sub d = (r, d')" by fastforce
  have "\<not> (d' \<noteq> d \<or> (\<exists>x. r = Inr x))"
  proof
    assume "d' \<noteq> d \<or> (\<exists>x. r = Inr x)"
    from Emit_Commit [OF e this] obtain x where "x \<in> set (agent_assignments d)" "a_id x = aid" "a_version x = v" by metis
    then have "x = a" using inv_asg_unique [OF assms(1)] assms(2,3) by simp
    then show False using \<open>a_version x = v\<close> assms(4) by simp
  qed
  then show "\<exists>e. EmitAssignmentUpdate flt now aid v sub d = (Inl e, d)" using e by (cases r) auto
  show "validateEmitSubstatusNormalized (normalizeAssignmentSubstatus sub) = None \<longrightarrow>
      EmitAssignmentUpdate no_faults now aid v sub d = (Inl (if open_asg a then ErrVersionConflict else ErrAssignmentEnded), d)"
    using inv_find_asg [OF assms(1,2)] assms(3,4)
    by (auto simp: EmitAssignmentUpdate_def Let_def run_tx_def get_asg_def open_asg_def simp del: no_faults_None
        simp: no_faults_def)
qed

lemma emit_success_row:
  assumes "EmitAssignmentUpdate flt now aid v sub d = (Inr out, d')" and "agent_inv d"
  shows "a_version out = v + 1 \<and> a_substatus out = normalizeAssignmentSubstatus sub \<and>
    (\<exists>a\<in>set (agent_assignments d'). a_id a = aid \<and> a_version a = v + 1 \<and>
       a_substatus a = normalizeAssignmentSubstatus sub \<and> a_state a = assignmentStateFromSubstatus (normalizeAssignmentSubstatus sub))"
proof -
  have "d' \<noteq> d \<or> (\<exists>x. (Inr out :: error + AgentAssignment) = Inr x)" by simp
  then show ?thesis
  proof (rule Emit_Commit [OF assms(1)])
    fix x dev out'
    assume x: "x \<in> set (agent_assignments d)" "a_id x = aid" "a_version x = v"
      and t: "tabs d' = tabs (upd_assignments (\<lambda>a. a_id a = aid \<and> a_version a = v)
       (emit_update (truncate_second now) (normalizeAssignmentSubstatus sub) (v + 1) dev) d)"
      and out: "(Inr out :: error + AgentAssignment) = Inr out'" "a_version out' = v + 1"
        "a_substatus out' = normalizeAssignmentSubstatus sub"
    have "\<exists>a\<in>set (agent_assignments d'). a_id a = aid \<and> a_version a = v + 1 \<and>
       a_substatus a = normalizeAssignmentSubstatus sub \<and> a_state a = assignmentStateFromSubstatus (normalizeAssignmentSubstatus sub)"
      using t x by (simp add: tabs_def bex_sql_update) (auto intro!: bexI [of _ x])
    with out show ?thesis by simp
  qed
qed
section \<open>Properties\<close>

definition demo_uuid :: "string \<Rightarrow> string \<Rightarrow> string" where
  "demo_uuid p n = p @ n"

definition demo_registered :: agent_db where
  "demo_registered =
     snd (RegisterAgentSessionWithSecret (\<lambda>_. False) no_faults 0 ''k2'' ''s2'' ''bob'' '''' ''''
       (snd (RegisterAgentSessionWithSecret (\<lambda>_. False) no_faults 0 ''k1'' ''s1'' ''ann'' '''' '''' empty_agent_db)))"

definition demo_claimed :: agent_db where
  "demo_claimed = snd (AcceptTask no_faults Second (demo_uuid ''u'') ''s1'' ''T-1'' demo_registered)"

lemma demo_steps:
  "(agent_step list_fsm (\<lambda>_. False))\<^sup>*\<^sup>* empty_agent_db demo_registered"
  "agent_step list_fsm (\<lambda>_. False) demo_registered demo_claimed"
proof -
  show "(agent_step list_fsm (\<lambda>_. False))\<^sup>*\<^sup>* empty_agent_db demo_registered"
    unfolding demo_registered_def
    by (rule converse_rtranclp_into_rtranclp, rule register [OF prod.collapse [symmetric]],
        rule r_into_rtranclp, rule register [OF prod.collapse [symmetric]])
  show "agent_step list_fsm (\<lambda>_. False) demo_registered demo_claimed"
    unfolding demo_claimed_def by (rule accept [OF prod.collapse [symmetric]])
qed

lemma demo_eval:
  "map (\<lambda>a. (a_id a, a_session_id a, a_task_id a, a_version a, open_asg a)) (agent_assignments demo_claimed) =
     [(''uassignment'', ''s1'', ''T-1'', 1, True)]"
  "map (\<lambda>s. (s_session_id s, s_agent_id s, open_session s)) (agent_sessions demo_claimed) =
     [(''s1'', ''ann'', True), (''s2'', ''bob'', True)]"
  by code_simp+

text \<open>
  C9: the invariant of the session tables. In every database reachable from the empty one by the
  session operations and the branch repository, with engine failures anywhere, session and assignment
  ids are unique, a session has at most one live assignment, no two live assignments claim the same
  task, every live assignment belongs to a live session, versions are positive, the rule table is the
  seeded one, and the branch tables satisfy their own invariant.
\<close>

theorem reachable_agent_inv:
  assumes "fsm_library lib" and "(agent_step lib pu)\<^sup>*\<^sup>* empty_agent_db d"
  shows "agent_inv d"
  using agent_steps_inv [OF assms(2,1)] by simp

theorem reachable_agent_inv_witness:
  "agent_inv demo_claimed \<and> length (agent_assignments demo_claimed) = 1"
proof -
  have "(agent_step list_fsm (\<lambda>_. False))\<^sup>*\<^sup>* empty_agent_db demo_claimed"
    using demo_steps by (rule rtranclp.rtrancl_into_rtrancl)
  then have "agent_inv demo_claimed" by (rule reachable_agent_inv [OF listfsm.fsm_library_axioms])
  moreover have "length (agent_assignments demo_claimed) = 1" using arg_cong [OF demo_eval(1), of length] by simp
  ultimately show ?thesis by simp
qed

text \<open>
  Assignment rows are a history. Whatever operations run, in whatever order and with whatever
  failures, a row that exists is never lost and keeps its id and session; an ended row never changes
  again; and every change of a live row increases its version.
\<close>

theorem assignment_rows_are_history:
  assumes "fsm_library lib" and "agent_inv d" and "(agent_step lib pu)\<^sup>*\<^sup>* d d'"
    and "a \<in> set (agent_assignments d)"
  shows "(\<not> open_asg a \<longrightarrow> a \<in> set (agent_assignments d')) \<and>
    (\<exists>a'\<in>set (agent_assignments d'). a_id a' = a_id a \<and> a_session_id a' = a_session_id a \<and>
       (a' = a \<or> a_version a < a_version a'))"
proof -
  obtain a' where a': "a' \<in> set (agent_assignments d')" "asg_le a a'"
    using agent_steps_inv [OF assms(3,1,2)] agent_writes_rows assms(4) by blast
  then show ?thesis by (auto simp: asg_le_def)
qed

lemma demo_inv: "agent_inv demo_registered" "agent_inv demo_claimed"
  using agent_steps_inv [OF demo_steps(1) listfsm.fsm_library_axioms]
    agent_steps_inv [OF rtranclp.rtrancl_into_rtrancl [OF demo_steps] listfsm.fsm_library_axioms] by simp_all

text \<open>The claimed assignment is finished by an emit.\<close>

definition demo_finished :: agent_db where
  "demo_finished = snd (EmitAssignmentUpdate no_faults (2 * Second) ''uassignment'' 1 ''terminal_finished'' demo_claimed)"

lemma demo_finish_eval:
  "fst (EmitAssignmentUpdate no_faults (2 * Second) ''uassignment'' 1 ''terminal_finished'' demo_claimed) =
     Inr ((claimed_assignment Second ''uassignment'' ''s1'' ''ann'' ''T-1'')
       \<lparr>a_delivery_state := ''idle'', a_state := assignmentStateCompleted, a_substatus := ''terminal_finished'',
        a_version := 2, a_ended_at := Some (2 * Second), a_end_reason := ''terminal_finished''\<rparr>)"
  "map (\<lambda>a. (a_id a, a_version a, open_asg a)) (agent_assignments demo_finished) = [(''uassignment'', 2, False)]"
  by code_simp+

theorem assignment_rows_are_history_witness:
  "\<exists>a\<in>set (agent_assignments demo_claimed). \<exists>a'\<in>set (agent_assignments demo_finished).
     a_id a' = a_id a \<and> (a' = a \<or> a_version a < a_version a')"
proof -
  have st: "(agent_step list_fsm (\<lambda>_. False))\<^sup>*\<^sup>* demo_claimed demo_finished"
    unfolding demo_finished_def by (rule r_into_rtranclp, rule emit [OF prod.collapse [symmetric]])
  obtain a where a: "a \<in> set (agent_assignments demo_claimed)"
    using demo_eval(1) by (cases "agent_assignments demo_claimed") auto
  show ?thesis
    using assignment_rows_are_history [OF listfsm.fsm_library_axioms demo_inv(2) st a] a by blast
qed

text \<open>
  C10: optimistic concurrency. An emit that succeeds returns the version it was given plus one and
  writes the substatus and its state; from then on, whatever operations follow, no emit that still
  carries the old version succeeds or changes anything. With a working engine the late emitter gets
  \<open>ErrVersionConflict\<close>, or \<open>ErrAssignmentEnded\<close> when the assignment has ended.
\<close>

theorem emit_single_winner:
  assumes "fsm_library lib" and "agent_inv d"
    and "EmitAssignmentUpdate flt now aid v sub d = (Inr out, d1)" and "(agent_step lib pu)\<^sup>*\<^sup>* d1 d2"
  shows "a_version out = v + 1 \<and> a_substatus out = normalizeAssignmentSubstatus sub \<and>
    (\<exists>a\<in>set (agent_assignments d1). a_id a = aid \<and> a_version a = v + 1 \<and>
       a_state a = assignmentStateFromSubstatus (normalizeAssignmentSubstatus sub)) \<and>
    (\<forall>flt2 now2 sub2. \<exists>e. EmitAssignmentUpdate flt2 now2 aid v sub2 d2 = (Inl e, d2)) \<and>
    (\<forall>now2 sub2. validateEmitSubstatusNormalized (normalizeAssignmentSubstatus sub2) = None \<longrightarrow>
       fst (EmitAssignmentUpdate no_faults now2 aid v sub2 d2) \<in> {Inl ErrVersionConflict, Inl ErrAssignmentEnded})"
proof -
  note s = emit_success_row [OF assms(3,2)]
  have i1: "agent_inv d1"
    using agent_step_write [OF emit [OF assms(3)] assms(1,2)] agent_writes_inv [OF _ assms(2)] by blast
  note i2 = agent_steps_inv [OF assms(4,1) i1]
  obtain a where a: "a \<in> set (agent_assignments d1)" "a_id a = aid" "a_version a = v + 1" using s by blast
  then obtain a' where a': "a' \<in> set (agent_assignments d2)" "asg_le a a'"
    using agent_writes_rows i2 by blast
  then have "a_id a' = aid" "v < a_version a'" using a by (auto simp: asg_le_def)
  note st = stale_emit [OF conjunct1 [OF i2] a'(1) this]
  show ?thesis using s st by auto
qed

theorem emit_single_winner_witness:
  "fst (EmitAssignmentUpdate no_faults (3 * Second) ''uassignment'' 1 ''in_progress'' demo_finished)
     \<in> {Inl ErrVersionConflict, Inl ErrAssignmentEnded}"
proof -
  have e: "EmitAssignmentUpdate no_faults (2 * Second) ''uassignment'' 1 ''terminal_finished'' demo_claimed =
     (Inr ((claimed_assignment Second ''uassignment'' ''s1'' ''ann'' ''T-1'')
       \<lparr>a_delivery_state := ''idle'', a_state := assignmentStateCompleted, a_substatus := ''terminal_finished'',
        a_version := 2, a_ended_at := Some (2 * Second), a_end_reason := ''terminal_finished''\<rparr>), demo_finished)"
    using demo_finish_eval(1) unfolding demo_finished_def by (metis prod.collapse)
  have "validateEmitSubstatusNormalized (normalizeAssignmentSubstatus ''in_progress'') = None" by code_simp
  then show ?thesis
    using emit_single_winner [OF listfsm.fsm_library_axioms demo_inv(2) e, of "\<lambda>_. False" demo_finished] by blast
qed

section \<open>Claims\<close>

lemma inv_claim_row:
  assumes "agent_inv d" and "r \<in> set (agent_assignments d)" and "open_asg r" and "a_task_id r \<noteq> ''''"
  shows "sql_row (\<lambda>a. a_task_id a = a_task_id r \<and> open_asg a) (agent_assignments d) = Some r"
proof (cases "sql_row (\<lambda>a. a_task_id a = a_task_id r \<and> open_asg a) (agent_assignments d)")
  case None
  then show ?thesis using assms by (auto simp: sql_row_def find_None_iff)
next
  case (Some x)
  then have "x \<in> set (agent_assignments d)" "a_task_id x = a_task_id r" "open_asg x"
    by (auto simp: sql_row_def dest: find_Some_set)
  then show ?thesis using Some live_task_unique [OF assms(1), of x r] assms by simp
qed

lemma inv_live_session:
  assumes "agent_inv d" and "r \<in> set (agent_assignments d)" and "open_asg r"
  obtains s where "s \<in> set (agent_sessions d)" "s_session_id s = a_session_id r" "open_session s"
    "sql_row (\<lambda>x. s_session_id x = a_session_id r) (agent_sessions d) = Some s"
  using assms inv_find_session [OF assms(1)] unfolding agent_inv_def by metis

lemma accept_refused:
  assumes "agent_inv d" and "r \<in> set (agent_assignments d)" and "open_asg r" and "a_task_id r \<noteq> ''''"
    and "sid \<noteq> a_session_id r"
  shows "\<exists>e. AcceptTask flt clock uuid sid (a_task_id r) d = (Inl e, d)"
  using inv_claim_row [OF assms(1-4)] assms(4,5)
  by (auto simp: AcceptTask_def Let_def run_tx_def tx_bind_def stmt_def split: option.splits sum.splits)

lemma accept_idempotent:
  assumes "agent_inv d" and "r \<in> set (agent_assignments d)" and "open_asg r" and "a_task_id r \<noteq> ''''"
    and "a_session_id r \<noteq> ''''"
  shows "AcceptTask no_faults clock uuid (a_session_id r) (a_task_id r) d = (Inr (scanAgentAssignment r), d)"
proof -
  obtain s where "open_session s" "sql_row (\<lambda>x. s_session_id x = a_session_id r) (agent_sessions d) = Some s"
    using inv_live_session [OF assms(1-3)] by metis
  then show ?thesis
    using inv_claim_row [OF assms(1-4)] inv_find_asg [OF assms(1,2)] assms(4,5)
    by (simp add: AcceptTask_def Let_def run_tx_def get_asg_def open_session_def)
qed

lemma upd_assignments_False: "upd_assignments (\<lambda>x. False) f d = d"
  by (simp add: upd_assignments_def sql_update_def)

text \<open>Without a live claim the insert either fails or adds a row: the lost-race branch finds no claim.\<close>

lemma accept_insert_effect:
  assumes "\<forall>a\<in>set (agent_assignments d). \<not> (a_task_id a = task \<and> open_asg a)"
  shows "accept_insert flt clock now uuid sid agent task (upd_assignments P (supersede_asg now by') d)
     \<notin> {Rollback (Inr a), Commit (Inr a) d}"
proof -
  let ?d = "upd_assignments P (supersede_asg now by') d"
  have "sql_row (\<lambda>a. a_task_id a = task \<and> open_asg a) (agent_assignments ?d) = None"
    using assms by (auto simp: sql_row_def find_None_iff set_sql_update supersede_asg_def close_asg_def open_asg_def)
  then have "accept_insert flt clock now uuid sid agent task ?d \<noteq> Rollback (Inr a)"
    by (auto simp: accept_insert_def loadLiveTaskClaimTx_def Let_def split: sum.splits)
  moreover have "length (agent_assignments d') = Suc (length (agent_assignments d))"
    if "accept_insert flt clock now uuid sid agent task ?d = Commit (Inr a) d'" for d'
    using accept_insert_Commit [OF that] insert_assignment_tabs by (fastforce simp: tabs_def)
  ultimately show ?thesis by fastforce
qed

lemma accept_success:
  assumes "AcceptTask flt clock uuid sid task d = (Inr a, d')" and "agent_inv d"
  shows "sid \<noteq> '''' \<and> task \<noteq> '''' \<and>
    (\<exists>r\<in>set (agent_assignments d'). a_id r = a_id a \<and> a_session_id r = sid \<and> a_task_id r = task \<and> open_asg r)"
proof -
  have ne: "sid \<noteq> ''''" "task \<noteq> ''''" using assms by (auto simp: AcceptTask_def split: if_splits)
  show ?thesis
  proof (cases "d' = d")
    case False
    show ?thesis
    proof (rule AcceptTask_Commit [OF assms(1) False])
      fix s P d1 d2
      let ?c = "claimed_assignment (truncate_second clock) (uuid ''assignment'') sid (s_agent_id s) task"
      assume i: "insert_assignment (new_assignment ?c)
          (upd_assignments P (supersede_asg (truncate_second clock) (uuid ''assignment'')) d) = Inr d1"
        and d2: "tabs d2 = tabs d1" and r: "(Inr a :: error + AgentAssignment) = Inr ?c"
        and d': "d' = upd_sessions (\<lambda>s. s_session_id s = sid) (\<lambda>s. s\<lparr>s_last_seen_at := truncate_second clock,
          s_last_progress_at := Some (truncate_second clock)\<rparr>) d2"
      have "new_assignment ?c \<in> set (agent_assignments d')"
        using insert_assignment_tabs [OF i] d2 d' by (auto simp: tabs_def)
      then show ?thesis using ne r by (auto intro!: bexI [of _ "new_assignment ?c"] simp: open_asg_def)
    qed
  next
    case True
    note run = run_tx_result [OF assms(1) [unfolded AcceptTask_def if_not_P [OF ne(1)] if_not_P [OF ne(2)] Let_def]]
    show ?thesis
    proof (cases "sql_row (\<lambda>a. a_task_id a = task \<and> open_asg a) (agent_assignments d)")
      case (Some x)
      then have x: "x \<in> set (agent_assignments d)" "a_task_id x = task" "open_asg x"
        by (auto simp: sql_row_def dest: find_Some_set)
      have "a_session_id x = sid \<and> a = scanAgentAssignment x"
        using run Some inv_find_asg [OF assms(2) x(1)] by (auto simp: get_asg_def split: option.splits if_splits)
      then show ?thesis using x ne True by auto
    next
      case None
      then have free: "\<forall>a\<in>set (agent_assignments d). \<not> (a_task_id a = task \<and> open_asg a)"
        by (auto simp: sql_row_def find_None_iff)
      obtain s where "accept_insert flt clock (truncate_second clock) uuid sid s task
           (case sql_row (\<lambda>a. a_session_id a = sid \<and> open_asg a \<and> a_task_id a \<noteq> task) (agent_assignments d) of
              None \<Rightarrow> d | Some p \<Rightarrow> upd_assignments (\<lambda>a. a_id a = a_id p \<and> open_asg a)
                (supersede_asg (truncate_second clock) (uuid ''assignment'')) d) \<in> {Rollback (Inr a), Commit (Inr a) d}"
        using run None True by (auto split: option.splits if_splits)
      moreover have "(case p of None \<Rightarrow> d | Some p \<Rightarrow> upd_assignments (\<lambda>a. a_id a = a_id p \<and> open_asg a)
          (supersede_asg (truncate_second clock) (uuid ''assignment'')) d) =
          upd_assignments (\<lambda>a. p \<noteq> None \<and> a_id a = a_id (the p) \<and> open_asg a)
            (supersede_asg (truncate_second clock) (uuid ''assignment'')) d" for p :: "assignment_row option"
        by (simp add: upd_assignments_False split: option.split)
      ultimately show ?thesis using accept_insert_effect [OF free] by simp
    qed
  qed
qed

text \<open>
  C11: a task has one claimant. A successful \<open>AcceptTask\<close> leaves a live assignment of that session for
  that task. As long as this assignment stays live on the task, whatever operations run in between, every
  other session is refused and changes nothing, and the claimant gets its own assignment back.
\<close>

theorem accept_task_exclusive:
  assumes "fsm_library lib" and "agent_inv d"
    and "AcceptTask flt clock uuid sid task d = (Inr a, d1)" and "(agent_step lib pu)\<^sup>*\<^sup>* d1 d2"
  shows "(\<exists>r\<in>set (agent_assignments d1). a_id r = a_id a \<and> a_session_id r = sid \<and> a_task_id r = task \<and> open_asg r) \<and>
    (\<forall>r\<in>set (agent_assignments d2). a_id r = a_id a \<and> a_task_id r = task \<and> open_asg r \<longrightarrow>
       (\<forall>flt' clock' uuid' sid'. sid' \<noteq> sid \<longrightarrow> (\<exists>e. AcceptTask flt' clock' uuid' sid' task d2 = (Inl e, d2))) \<and>
       (\<forall>clock' uuid'. AcceptTask no_faults clock' uuid' sid task d2 = (Inr (scanAgentAssignment r), d2)))"
proof -
  note s = accept_success [OF assms(3,2)]
  then obtain r where r: "r \<in> set (agent_assignments d1)" "a_id r = a_id a" "a_session_id r = sid" by blast
  have i1: "agent_inv d1"
    using agent_step_write [OF accept [OF assms(3)] assms(1,2)] agent_writes_inv [OF _ assms(2)] by blast
  note i2 = agent_steps_inv [OF assms(4,1) i1]
  obtain r2 where r2: "r2 \<in> set (agent_assignments d2)" "a_id r2 = a_id a" "a_session_id r2 = sid"
    using agent_writes_rows [OF conjunct2 [OF i2]] r by (metis asg_le_def)
  have "a_session_id x = sid" if "x \<in> set (agent_assignments d2)" "a_id x = a_id a" for x
    using inv_asg_unique [OF conjunct1 [OF i2] that(1) r2(1)] that(2) r2(2,3) by simp
  then show ?thesis
    using s accept_refused [OF conjunct1 [OF i2]] accept_idempotent [OF conjunct1 [OF i2]] by metis
qed

lemma demo_claim_eval:
  "fst (AcceptTask no_faults Second (demo_uuid ''u'') ''s1'' ''T-1'' demo_registered) =
     Inr (claimed_assignment Second ''uassignment'' ''s1'' ''ann'' ''T-1'')"
  by code_simp

theorem accept_task_exclusive_witness:
  "\<exists>e. AcceptTask no_faults (5 * Second) (demo_uuid ''v'') ''s2'' ''T-1'' demo_claimed = (Inl e, demo_claimed)"
proof -
  have a: "AcceptTask no_faults Second (demo_uuid ''u'') ''s1'' ''T-1'' demo_registered =
      (Inr (claimed_assignment Second ''uassignment'' ''s1'' ''ann'' ''T-1''), demo_claimed)"
    using demo_claim_eval unfolding demo_claimed_def by (metis prod.collapse)
  obtain r where r: "r \<in> set (agent_assignments demo_claimed)" "a_id r = ''uassignment''" "a_task_id r = ''T-1''" "open_asg r"
    using demo_eval(1) by (cases "agent_assignments demo_claimed") auto
  show ?thesis
    using accept_task_exclusive [OF listfsm.fsm_library_axioms demo_inv(1) a rtranclp.rtrancl_refl [of "agent_step list_fsm (\<lambda>_. False)"]] r
    by (auto simp: claimed_assignment_def)
qed

end
