(* ===== verification/Session_Gate.thy ===== *)
theory Session_Gate
  imports Session_Props
begin

text \<open>
  The enforcement of the compliance rules: what a finalisation checks before it closes a session, what
  the rule monitor closes, and the heartbeat secret. The rule checks go through the table
  \<open>assignment_rule_checks\<close>; the lemmas here follow a verdict from its evaluation to the
  row and from the row to the list of blockers.
\<close>

section \<open>Rule checks\<close>

definition rule_ids :: "string list" where
  "rule_ids = [''RULE-001'', ''RULE-002'', ''RULE-003'', ''RULE-004'']"

lemma load_seeded:
  assumes "loadAgentRuleDefinitionTx flt rid d = Inr rule" and "agent_rules d = seeded_rules" and "rid \<in> set rule_ids"
  shows "ru_rule_version rule = 1 \<and> ru_rule_id rule = rid"
  using assms(1,3) unfolding loadAgentRuleDefinitionTx_def assms(2)
  by (auto simp: rule_ids_def seeded_rules_def seeded_rule_def sql_first_def scan_rule_def)

text \<open>Recording a verdict leaves a row with it and keeps the rows of the other rules.\<close>

lemma record_check:
  assumes "recordAssignmentRuleCheckTx flt now uuid aid sid rid result v detail by' d = Inr d'"
    and "agent_rules d = seeded_rules" and "rid \<in> set rule_ids"
  shows "(\<exists>c\<in>set (assignment_rule_checks d'). rc_assignment_id c = aid \<and> rc_rule_id c = rid \<and> rc_rule_version c = 1 \<and>
       rc_result c = result) \<and>
    (\<forall>c\<in>set (assignment_rule_checks d). rc_rule_id c \<noteq> rid \<longrightarrow> c \<in> set (assignment_rule_checks d'))"
proof -
  obtain rule where rule: "loadAgentRuleDefinitionTx flt rid d = Inr rule"
    using assms(1) by (auto simp: recordAssignmentRuleCheckTx_def)
  note ru = load_seeded [OF rule assms(2,3)]
  let ?P = "\<lambda>c. rc_assignment_id c = aid \<and> rc_rule_id c = rid \<and> rc_rule_version c = 1"
  show ?thesis
  proof (cases "\<exists>c\<in>set (assignment_rule_checks d). ?P c")
    case True
    then have "sql_affected ?P (assignment_rule_checks d) > 0"
      by (auto simp: sql_affected_def filter_empty_conv)
    then have "assignment_rule_checks d' = sql_update ?P (set_check now result (if v then ru_violation_action rule else []) detail by')
        (assignment_rule_checks d)"
      using assms(1) rule ru by (auto simp: recordAssignmentRuleCheckTx_def Let_def split: if_splits)
    note d' = this
    from True obtain c where c: "c \<in> set (assignment_rule_checks d)" "?P c" by blast
    let ?S = "set_check now result (if v then ru_violation_action rule else []) detail by'"
    have "?S c \<in> set (assignment_rule_checks d')"
      unfolding d' set_sql_update using c by (auto intro!: image_eqI [of _ _ c])
    moreover have "e \<in> set (assignment_rule_checks d')"
      if "e \<in> set (assignment_rule_checks d)" "rc_rule_id e \<noteq> rid" for e
      unfolding d' set_sql_update using that by (auto intro!: image_eqI [of _ _ e])
    ultimately show ?thesis using c by (auto intro!: bexI [of _ "?S c"] simp: set_check_def)
  next
    case False
    then have "sql_affected ?P (assignment_rule_checks d) = 0"
      "sql_update ?P f (assignment_rule_checks d) = assignment_rule_checks d" for f
      by (auto simp: sql_affected_def sql_update_def filter_empty_conv intro!: map_idI)
    then show ?thesis
      using assms(1) rule ru
      by (auto simp: recordAssignmentRuleCheckTx_def Let_def insert_check_def set_check_def simp del: sql_affected_zero
          split: if_splits)
  qed
qed

text \<open>Without blockers every check of an active rule has passed.\<close>

lemma no_blockers:
  assumes "activeRuleBlockersTx flt aid d = Inr b" and "assignmentCompletionError b = None"
    and "agent_rules d = seeded_rules" and "c \<in> set (assignment_rule_checks d)"
    and "rc_assignment_id c = aid" and "rc_rule_id c \<in> set rule_ids" and "rc_rule_version c = 1"
  shows "rc_result c = ''pass''"
proof (rule ccontr)
  assume f: "rc_result c \<noteq> ''pass''"
  have "\<exists>r\<in>set (agent_rules d). rt_rule_id r = rc_rule_id c \<and> rt_rule_version r = rc_rule_version c \<and> rt_active r = 1"
    using assms(3,6,7) by (auto simp: seeded_rules_def seeded_rule_def rule_ids_def)
  then have "(rc_rule_id c, rc_result c) \<in> set b"
    using assms(1,4,5) f unfolding activeRuleBlockersTx_def by (auto intro!: image_eqI [of _ _ c])
  then show False using assms(2) by (auto simp: assignmentCompletionError_def split: if_splits)
qed

lemma verdict_check:
  assumes "record_verdict flt now uuid aid sid rid pass detail d = Inr d'"
    and "agent_rules d = seeded_rules" and "rid \<in> set rule_ids"
  shows "(\<exists>c\<in>set (assignment_rule_checks d'). rc_assignment_id c = aid \<and> rc_rule_id c = rid \<and> rc_rule_version c = 1 \<and>
       rc_result c = (if pass then ''pass'' else ''fail'')) \<and>
    (\<forall>c\<in>set (assignment_rule_checks d). rc_rule_id c \<noteq> rid \<longrightarrow> c \<in> set (assignment_rule_checks d'))"
  using record_check [OF assms(1) [unfolded record_verdict_def] assms(2,3)] by simp

lemma rule_tabs: "tabs d' = tabs d \<Longrightarrow> agent_rules d' = agent_rules d"
  by (simp add: tabs_def)

lemma rule001_tabs: "tabs d' = tabs d \<Longrightarrow> evaluateRule001CompletionTx flt a d' = evaluateRule001CompletionTx flt a d"
  by (simp add: evaluateRule001CompletionTx_def tabs_def)

text \<open>A finalisation to completed without blockers has passed the rules 1, 3 and 4.\<close>

lemma finalize_rules_pass:
  assumes "finalize_rules flt clock uuid t c assignmentStateCompleted sub s a d = Inr d'"
    and "agent_rules d = seeded_rules"
    and "activeRuleBlockersTx flt (a_id a) d' = Inr b" and "assignmentCompletionError b = None"
  shows "fst (evaluateRule003BranchHoldTTL t (Some a)) \<and> r4_pass (evaluateRule004HeartbeatProgress t (Some s) (Some a)) \<and>
    (\<exists>detail. evaluateRule001CompletionTx flt a d = Inr (True, detail))"
proof -
  let ?r = "evaluateRule004HeartbeatProgress t (Some s) (Some a)"
  obtain p3 x det3 where e3: "evaluateRule003BranchHoldTTL t (Some a) = (p3, x, det3)" using prod_cases3 by blast
  obtain d1 d2 d3 p1 det1 where
    r2: "recordAssignmentRuleCheckTx flt clock uuid (a_id a) (s_session_id s) ''RULE-002'' ''pass'' False
        [(''state'', JStr (asg_state_str assignmentStateCompleted)), (''status'', JStr (co_status c)),
         (''substatus'', JStr sub)] ''codero'' d = Inr d1"
    and r3: "record_verdict flt clock uuid (a_id a) (s_session_id s) ''RULE-003'' p3 det3 d1 = Inr d2"
    and r4: "record_verdict flt clock uuid (a_id a) (s_session_id s) ''RULE-004'' (r4_pass ?r) (rule004_detail ?r) d2 = Inr d3"
    and e1: "evaluateRule001CompletionTx flt a d3 = Inr (p1, det1)"
    and r1: "record_verdict flt clock uuid (a_id a) (s_session_id s) ''RULE-001'' p1 det1 d3 = Inr d'"
    using assms(1) unfolding finalize_rules_def Let_def e3 by auto
  note tb = record_tabs [OF r2] verdict_tabs [OF r3] verdict_tabs [OF r4] verdict_tabs [OF r1]
  have ru: "agent_rules d1 = seeded_rules" "agent_rules d2 = seeded_rules" "agent_rules d3 = seeded_rules"
    "agent_rules d' = seeded_rules"
    using tb assms(2) by (simp_all add: tabs_def)
  have ids: "''RULE-001'' \<in> set rule_ids" "''RULE-003'' \<in> set rule_ids" "''RULE-004'' \<in> set rule_ids"
    by (simp_all add: rule_ids_def)
  note c3 = verdict_check [OF r3 ru(1) ids(2)] and c4 = verdict_check [OF r4 ru(2) ids(3)]
    and c1 = verdict_check [OF r1 ru(3) ids(1)] and ok = no_blockers [OF assms(3,4) ru(4)]
  obtain x3 where x3: "x3 \<in> set (assignment_rule_checks d2)" "rc_assignment_id x3 = a_id a" "rc_rule_id x3 = ''RULE-003''"
    "rc_rule_version x3 = 1" "rc_result x3 = (if p3 then ''pass'' else ''fail'')" using c3 by blast
  have "x3 \<in> set (assignment_rule_checks d')" using c4 c1 x3(1,3) by simp
  then have v3: "p3" using ok [OF _ x3(2) _ x3(4)] x3(3,5) ids(2) by (auto split: if_splits)
  obtain x4 where x4: "x4 \<in> set (assignment_rule_checks d3)" "rc_assignment_id x4 = a_id a" "rc_rule_id x4 = ''RULE-004''"
    "rc_rule_version x4 = 1" "rc_result x4 = (if r4_pass ?r then ''pass'' else ''fail'')" using c4 by blast
  have "x4 \<in> set (assignment_rule_checks d')" using c1 x4(1,3) by simp
  then have v4: "r4_pass ?r" using ok [OF _ x4(2) _ x4(4)] x4(3,5) ids(3) by (auto split: if_splits)
  obtain x1 where x1: "x1 \<in> set (assignment_rule_checks d')" "rc_assignment_id x1 = a_id a" "rc_rule_id x1 = ''RULE-001''"
    "rc_rule_version x1 = 1" "rc_result x1 = (if p1 then ''pass'' else ''fail'')" using c1 by blast
  have v1: "p1" using ok [OF x1(1,2) _ x1(4)] x1(3,5) ids(1) by (auto split: if_splits)
  have "evaluateRule001CompletionTx flt a d = Inr (p1, det1)"
    using e1 rule001_tabs [of d3 d flt a] tb by simp
  then show ?thesis using e3 v1 v3 v4 by simp
qed

section \<open>Finalisation\<close>

lemma archive_appends:
  "archiveSessionTx flt clock uuid sid result sha task now d = Inr d' \<Longrightarrow>
   tabs d' = tabs d \<and> (\<exists>ar. session_archives d' = session_archives d @ [ar] \<and> sa_session_id ar = sid)"
  by (auto simp: archiveSessionTx_def writeSessionArchiveTx_def Let_def tabs_def split: if_splits)

lemma finalize_close_effect:
  assumes "finalize_close flt clock uuid t c target sub s active d = Inr d'"
    and "active = map_option scanAgentAssignment (latest_asg (\<lambda>a. a_session_id a = s_session_id s \<and> open_asg a) d)"
    and "agent_inv d"
  shows "(\<exists>ar. session_archives d' = session_archives d @ [ar] \<and> sa_session_id ar = s_session_id s) \<and>
    (\<forall>x\<in>set (agent_sessions d'). s_session_id x = s_session_id s \<longrightarrow> \<not> open_session x) \<and>
    (\<forall>x\<in>set (agent_assignments d'). a_session_id x = s_session_id s \<longrightarrow> \<not> open_asg x)"
proof -
  let ?C = "close_asg t (co_status c) target (blockedReasonFromSubstatus sub) sub"
  let ?P = "case active of None \<Rightarrow> \<lambda>x. False | Some a \<Rightarrow> \<lambda>x. a_id x = a_id a \<and> open_asg x"
  define d2 where "d2 = upd_assignments ?P ?C (upd_sessions (open_with_id (s_session_id s)) (close_session t (co_status c)) d)"
  have "agent_sessions d' = agent_sessions d2 \<and> agent_assignments d' = agent_assignments d2 \<and>
      (\<exists>ar. session_archives d' = session_archives d @ [ar] \<and> sa_session_id ar = s_session_id s)"
    using assms(1)
    by (cases active) (auto simp: finalize_close_def Let_def d2_def tabs_def [abs_def] upd_assignments_False
        dest!: insert_event_tabs archive_appends clear_ownership_tabs)
  moreover have "?P x" if "x \<in> set (agent_assignments d)" "a_session_id x = s_session_id s" "open_asg x" for x
    using assms(2,3) that latest_asg_None [of "\<lambda>a. a_session_id a = s_session_id s \<and> open_asg a" d]
    by (auto split: option.splits simp: agent_inv_def dest!: latest_asg_Some)
  ultimately show ?thesis
    by (auto simp: d2_def set_sql_update open_with_id_def open_session_def close_session_def close_asg_def open_asg_def)
qed

lemma Finalize_success:
  assumes "FinalizeAgentSession flt clock uuid sid aid c d = (Inr (), d')"
  obtains row target sub d1 where
    "row \<in> set (agent_sessions d)" "s_session_id row = sid" "open_session row" "aid \<noteq> '''' \<longrightarrow> s_agent_id row = aid"
    "validateTerminalAssignmentSubstatus (co_status c) (co_substatus c) = Inr (target, sub)"
    "case latest_asg (\<lambda>a. a_session_id a = sid \<and> open_asg a) d of
        None \<Rightarrow> d1 = d
      | Some a \<Rightarrow> finalize_rules flt clock uuid (if co_finished_at c = zero_time then clock else co_finished_at c) c target sub
            (scanAgentSession row) (scanAgentAssignment a) d = Inr d1 \<and>
          (target = assignmentStateCompleted \<longrightarrow>
            (\<exists>b. activeRuleBlockersTx flt (a_id a) d1 = Inr b \<and> assignmentCompletionError b = None))"
    "finalize_close flt clock uuid (if co_finished_at c = zero_time then clock else co_finished_at c) c target sub
       (scanAgentSession row) (map_option scanAgentAssignment (latest_asg (\<lambda>a. a_session_id a = sid \<and> open_asg a) d)) d1 = Inr d'"
proof -
  let ?t = "if co_finished_at c = zero_time then clock else co_finished_at c"
  let ?l = "latest_asg (\<lambda>a. a_session_id a = sid \<and> open_asg a) d"
  note run = run_tx_result [OF assms [unfolded FinalizeAgentSession_def Let_def]]
  obtain row where row: "sql_row (\<lambda>s. s_session_id s = sid) (agent_sessions d) = Some row" "s_ended_at row = None"
      "aid \<noteq> '''' \<longrightarrow> s_agent_id row = aid"
    using run by (auto split: option.splits if_splits)
  then have mem: "row \<in> set (agent_sessions d)" "s_session_id row = sid"
    by (auto simp: sql_row_def dest: find_Some_set)
  obtain target sub where v: "validateTerminalAssignmentSubstatus (co_status c) (co_substatus c) = Inr (target, sub)"
    using run row
    by (cases "validateTerminalAssignmentSubstatus (co_status c) (co_substatus c)") (auto split: option.splits if_splits)
  obtain d1 where "case ?l of None \<Rightarrow> d1 = d
      | Some a \<Rightarrow> finalize_rules flt clock uuid ?t c target sub (scanAgentSession row) (scanAgentAssignment a) d = Inr d1 \<and>
          (target = assignmentStateCompleted \<longrightarrow>
            (\<exists>b. activeRuleBlockersTx flt (a_id a) d1 = Inr b \<and> assignmentCompletionError b = None))"
    "finalize_close flt clock uuid ?t c target sub (scanAgentSession row) (map_option scanAgentAssignment ?l) d1 = Inr d'"
  proof (cases ?l)
    case None
    then show ?thesis using run row v by (intro that [of d]) (auto split: if_splits)
  next
    case (Some a)
    show ?thesis
      using run row by (cases "target = assignmentStateCompleted") (auto simp: v Some split: if_splits option.splits intro!: that)
  qed
  then show ?thesis using that [OF mem _ row(3) v] row(2) by (simp add: open_session_def)
qed

lemma Finalize_error:
  assumes "FinalizeAgentSession flt clock uuid sid aid c d = (Inl e, d')"
  shows "tabs d' = tabs d \<and> session_archives d' = session_archives d"
proof (cases "d' = d")
  case False
  show ?thesis
    using run_tx_cases [OF assms [unfolded FinalizeAgentSession_def Let_def]] False
    by (auto split: option.splits if_splits sum.splits prod.splits dest!: record_tabs finalize_rules_tabs)
qed simp

lemma rule004_pass:
  "r4_pass (evaluateRule004HeartbeatProgress t (Some s) x) \<longleftrightarrow>
     heartbeat_age t s \<le> assignmentHeartbeatTTL \<and> progress_age t s x \<le> assignmentProgressTTL"
  by (simp add: evaluateRule004HeartbeatProgress_def Let_def)

lemma rule003_pass: "fst (evaluateRule003BranchHoldTTL t (Some a)) \<longleftrightarrow> t - a_started_at a \<le> assignmentBranchHoldTTL"
  by (simp add: evaluateRule003BranchHoldTTL_def Let_def)

text \<open>The gate of a completion: branch approved and mergeable, held for at most 72 hours, session responsive.\<close>

definition completion_gate :: "gotime \<Rightarrow> session_row \<Rightarrow> assignment_row \<Rightarrow> agent_db \<Rightarrow> bool" where
  "completion_gate t s a d \<longleftrightarrow>
     t - a_started_at a \<le> 72 * Hour \<and> heartbeat_age t s \<le> 30 * Second \<and> progress_age t s (Some a) \<le> 60 * Minute \<and>
     (a_repo a \<noteq> '''' \<and> a_branch a \<noteq> '''' \<longrightarrow>
       (\<exists>b\<in>set (branch_states (core d)). at_branch (a_repo a) (a_branch a) b \<and> state_str (b_state b) \<in> {''merge_ready'', ''merged''} \<and>
          b_approved b \<noteq> 0 \<and> b_ci_green b \<noteq> 0 \<and> b_pending_events b = 0 \<and> b_unresolved_threads b = 0))"

lemma completion_gate_holds:
  assumes "finalize_rules flt clock uuid t c assignmentStateCompleted sub (scanAgentSession s) (scanAgentAssignment a) d = Inr d1"
    and "activeRuleBlockersTx flt (a_id a) d1 = Inr b" and "assignmentCompletionError b = None" and "agent_inv d"
  shows "completion_gate t s a d"
proof -
  have "agent_rules d = seeded_rules" using assms(4) by (simp add: agent_inv_def)
  note p = finalize_rules_pass [OF assms(1) this _ assms(3)]
  have "progress_age t (scanAgentSession s) (Some (scanAgentAssignment a)) = progress_age t s (Some a)"
    "heartbeat_age t (scanAgentSession s) = heartbeat_age t s"
    by (simp_all add: progress_age_def heartbeat_age_def split: option.split)
  then show ?thesis
    using p assms(2) unfolding completion_gate_def rule003_pass rule004_pass
    by (auto simp: evaluateRule001CompletionTx_def Let_def sql_row_def split: if_splits option.splits dest!: find_Some_set)
qed

text \<open>
  C12: finalisation respects the gate. When it fails, whatever the reason, the session, assignment and
  branch rows and the archives are as before. When it succeeds, the session was open and the agent's own;
  it and all its assignments are closed now, and one archive row was added for it. And when the
  completion claims the work as completed, the live assignment passed the gate: its branch is in
  \<open>merge_ready\<close> or \<open>merged\<close>, approved, with green checks and nothing pending, held for at most 72
  hours, and the session was heard of within 30 seconds and made progress within the hour.
\<close>

theorem finalize_respects_gate:
  assumes "agent_inv d" and "FinalizeAgentSession flt clock uuid sid aid c d = (r, d')"
  shows "case r of
      Inl e \<Rightarrow> core d' = core d \<and> agent_sessions d' = agent_sessions d \<and> agent_assignments d' = agent_assignments d \<and>
        session_archives d' = session_archives d
    | Inr u \<Rightarrow> \<exists>s\<in>set (agent_sessions d). s_session_id s = sid \<and> open_session s \<and> (aid \<noteq> '''' \<longrightarrow> s_agent_id s = aid) \<and>
        (\<exists>ar. session_archives d' = session_archives d @ [ar] \<and> sa_session_id ar = sid) \<and>
        (\<forall>x\<in>set (agent_sessions d'). s_session_id x = sid \<longrightarrow> \<not> open_session x) \<and>
        (\<forall>x\<in>set (agent_assignments d'). a_session_id x = sid \<longrightarrow> \<not> open_asg x) \<and>
        (\<forall>sub. validateTerminalAssignmentSubstatus (co_status c) (co_substatus c) = Inr (assignmentStateCompleted, sub) \<longrightarrow>
          (\<forall>a\<in>set (agent_assignments d). a_session_id a = sid \<and> open_asg a \<longrightarrow>
            completion_gate (if co_finished_at c = zero_time then clock else co_finished_at c) s a d))"
proof (cases r)
  case (Inl e)
  then show ?thesis using Finalize_error assms(2) by (fastforce simp: tabs_def)
next
  case (Inr u)
  let ?t = "if co_finished_at c = zero_time then clock else co_finished_at c"
  let ?l = "latest_asg (\<lambda>a. a_session_id a = sid \<and> open_asg a) d"
  have "FinalizeAgentSession flt clock uuid sid aid c d = (Inr (), d')" using assms(2) Inr by simp
  then obtain s target sub d1 where s: "s \<in> set (agent_sessions d)" "s_session_id s = sid" "open_session s"
      "aid \<noteq> '''' \<longrightarrow> s_agent_id s = aid"
    and v: "validateTerminalAssignmentSubstatus (co_status c) (co_substatus c) = Inr (target, sub)"
    and l: "case ?l of None \<Rightarrow> d1 = d
      | Some a \<Rightarrow> finalize_rules flt clock uuid ?t c target sub (scanAgentSession s) (scanAgentAssignment a) d = Inr d1 \<and>
          (target = assignmentStateCompleted \<longrightarrow>
            (\<exists>b. activeRuleBlockersTx flt (a_id a) d1 = Inr b \<and> assignmentCompletionError b = None))"
    and cl: "finalize_close flt clock uuid ?t c target sub (scanAgentSession s) (map_option scanAgentAssignment ?l) d1 = Inr d'"
    by (rule Finalize_success)
  have d1: "tabs d1 = tabs d \<and> session_archives d1 = session_archives d"
    using l finalize_rules_tabs by (auto split: option.splits)
  have gate: "completion_gate ?t s a d"
    if a: "target = assignmentStateCompleted" "a \<in> set (agent_assignments d)" "a_session_id a = sid \<and> open_asg a" for a
  proof -
    have "?l = Some a"
      using a latest_asg_None [of "\<lambda>a. a_session_id a = sid \<and> open_asg a" d] assms(1)
      by (cases ?l) (auto simp: agent_inv_def dest!: latest_asg_Some)
    then show ?thesis using l a(1) completion_gate_holds [OF _ _ _ assms(1)] by auto
  qed
  have "agent_inv d1" using tabs_inv d1 assms(1) by blast
  with finalize_close_effect [OF cl] s(2) tabs_latest [OF conjunct1 [OF d1]]
  have "(\<exists>ar. session_archives d' = session_archives d1 @ [ar] \<and> sa_session_id ar = sid) \<and>
      (\<forall>x\<in>set (agent_sessions d'). s_session_id x = sid \<longrightarrow> \<not> open_session x) \<and>
      (\<forall>x\<in>set (agent_assignments d'). a_session_id x = sid \<longrightarrow> \<not> open_asg x)" by simp
  then show ?thesis using Inr s v gate d1 by auto
qed

definition demo_done :: AgentSessionCompletion where
  "demo_done = \<lparr>co_task_id = '''', co_status = ''completed'', co_substatus = ''terminal_finished'', co_summary = '''',
     co_tests = [], co_finished_at = 3 * Second\<rparr>"

lemma demo_done_eval:
  "fst (FinalizeAgentSession no_faults (3 * Second) (demo_uuid ''f'') ''s1'' ''ann'' demo_done demo_claimed) = Inr ()"
  by code_simp

theorem finalize_respects_gate_witness:
  "\<exists>d'. FinalizeAgentSession no_faults (3 * Second) (demo_uuid ''f'') ''s1'' ''ann'' demo_done demo_claimed = (Inr (), d') \<and>
     (\<exists>ar. session_archives d' = session_archives demo_claimed @ [ar] \<and> sa_session_id ar = ''s1'') \<and>
     (\<forall>x\<in>set (agent_assignments d'). a_session_id x = ''s1'' \<longrightarrow> \<not> open_asg x)"
proof -
  obtain d' where d': "FinalizeAgentSession no_faults (3 * Second) (demo_uuid ''f'') ''s1'' ''ann'' demo_done demo_claimed = (Inr (), d')"
    using demo_done_eval by (metis prod.collapse)
  show ?thesis using finalize_respects_gate [OF demo_inv(2) d'] d' by auto
qed

section \<open>Rule monitor\<close>

text \<open>What one round of the monitor does to an assignment and a session row: lost, stuck, cancelled or kept.\<close>

definition protocol_lost :: "gotime \<Rightarrow> 's AgentSession_scheme \<Rightarrow> bool" where
  "protocol_lost now s \<longleftrightarrow> heartbeat_age now s > 30 * Second"

definition protocol_stuck :: "gotime \<Rightarrow> 's AgentSession_scheme \<Rightarrow> 'a AgentAssignment_scheme \<Rightarrow> bool" where
  "protocol_stuck now s a \<longleftrightarrow> \<not> protocol_lost now s \<and> progress_age now s (Some a) > 60 * Minute"

definition monitored_asg ::
  "gotime \<Rightarrow> 's AgentSession_scheme \<Rightarrow> 'a AgentAssignment_scheme \<Rightarrow> assignment_row \<Rightarrow> assignment_row" where
  "monitored_asg now s a x =
     (if protocol_lost now s then close_asg now ''lost'' assignmentStateLost '''' ''terminal_lost'' x
      else if protocol_stuck now s a then close_asg now ''stuck_abandoned'' assignmentStateLost '''' ''terminal_stuck_abandoned'' x
      else if now - a_started_at a > 108 * Hour
      then close_asg now ''cancelled'' assignmentStateCancelled '''' ''terminal_cancelled'' x else x)"

definition monitored_session ::
  "gotime \<Rightarrow> 's AgentSession_scheme \<Rightarrow> 'a AgentAssignment_scheme \<Rightarrow> session_row \<Rightarrow> session_row" where
  "monitored_session now s a y =
     (if protocol_lost now s then close_session now ''lost'' y
      else if protocol_stuck now s a then close_session now ''stuck_abandoned'' y else y)"

definition round_asg :: "gotime \<Rightarrow> AgentSession \<times> AgentAssignment \<Rightarrow> assignment_row \<Rightarrow> assignment_row" where
  "round_asg now c x = (if a_id x = a_id (snd c) \<and> open_asg x then monitored_asg now (fst c) (snd c) x else x)"

definition round_session :: "gotime \<Rightarrow> AgentSession \<times> AgentAssignment \<Rightarrow> session_row \<Rightarrow> session_row" where
  "round_session now c y = (if open_with_id (s_session_id (fst c)) y then monitored_session now (fst c) (snd c) y else y)"

lemma rule004_path:
  "r4_failure_path (evaluateRule004HeartbeatProgress now (Some s) (Some a)) =
     (if protocol_lost now s then ''lost'' else if protocol_stuck now s a then ''stuck'' else '''')"
  "r4_pass (evaluateRule004HeartbeatProgress now (Some s) (Some a)) \<longleftrightarrow> \<not> protocol_lost now s \<and> \<not> protocol_stuck now s a"
  by (auto simp: evaluateRule004HeartbeatProgress_def Let_def protocol_lost_def protocol_stuck_def)

lemma monitor_one_effect:
  assumes "monitor_one flt clock uuid now c d = Inr d'"
  shows "agent_assignments d' = map (round_asg now c) (agent_assignments d) \<and>
    agent_sessions d' = map (round_session now c) (agent_sessions d) \<and> session_archives d' = session_archives d"
proof -
  obtain s a where c: "c = (s, a)" by fastforce
  let ?r = "evaluateRule004HeartbeatProgress now (Some s) (Some a)"
  obtain p fc det where h: "evaluateRule003BranchHoldTTL now (Some a) = (p, fc, det)" using prod_cases3 by blast
  then have fc: "fc \<longleftrightarrow> now - a_started_at a > 108 * Hour"
    by (auto simp: evaluateRule003BranchHoldTTL_def Let_def)
  obtain x where x: "record_verdict flt clock uuid (a_id a) (s_session_id s) ''RULE-004'' (r4_pass ?r) (rule004_detail ?r) d = Inr x"
    and k: "(if \<not> r4_pass ?r then monitor_end flt clock now s a ?r x
        else and_then (record_verdict flt clock uuid (a_id a) (s_session_id s) ''RULE-003'' p det x)
          (\<lambda>d2. if fc then monitor_cancel flt clock now s a det d2 else Inr d2)) = Inr d'"
    using assms unfolding monitor_one_def Let_def c prod.case h and_then_Inr by blast
  note xt = verdict_tabs [OF x]
  show ?thesis
  proof (cases "r4_pass ?r")
    case False
    then show ?thesis
      using k xt unfolding c round_asg_def round_session_def monitored_asg_def monitored_session_def
      by (auto simp: monitor_end_def Let_def rule004_path tabs_def sql_update_def protocol_stuck_def
          dest!: clear_ownership_tabs append_event_tabs)
  next
    case True
    then obtain y where y: "record_verdict flt clock uuid (a_id a) (s_session_id s) ''RULE-003'' p det x = Inr y"
      "(if fc then monitor_cancel flt clock now s a det y else Inr y) = Inr d'" using k by auto
    show ?thesis
      using True verdict_tabs [OF y(1)] xt y(2)
      unfolding c round_asg_def round_session_def monitored_asg_def monitored_session_def rule004_path fc fst_conv snd_conv
      by (auto simp: monitor_cancel_def tabs_def sql_update_def intro!: map_idI [symmetric] dest!: clear_ownership_tabs append_event_tabs split: if_splits)
  qed
qed

lemma fold_one:
  assumes "distinct (map key cs)" and "\<And>c x. key c \<noteq> kx x \<Longrightarrow> f c x = x" and "\<And>c x. kx (f c x) = kx x"
  shows "(c \<in> set cs \<longrightarrow> key c = kx x \<longrightarrow> fold f cs x = f c x) \<and> (kx x \<notin> key ` set cs \<longrightarrow> fold f cs x = x)"
  using assms(1)
proof (induction cs arbitrary: x)
  case (Cons b cs)
  have "fold f cs (f b x) = f b x" if "kx x \<notin> key ` set cs"
    using Cons.IH [of "f b x"] Cons.prems assms(3) that by simp
  then show ?case using Cons assms(2,3) by (auto simp: image_iff)
qed simp

lemma round_key: "a_id (round_asg now c x) = a_id x" "s_session_id (round_session now c y) = s_session_id y"
  by (simp_all add: round_asg_def monitored_asg_def close_asg_def round_session_def monitored_session_def close_session_def)

lemma round_other: "a_id (snd c) \<noteq> a_id x \<Longrightarrow> round_asg now c x = x"
  "s_session_id (fst c) \<noteq> s_session_id y \<Longrightarrow> round_session now c y = y"
  by (simp_all add: round_asg_def round_session_def open_with_id_def)

lemma monitor_all_effect:
  "monitor_all flt clock uuid now cs d = Inr d' \<Longrightarrow>
   agent_assignments d' = map (fold (round_asg now) cs) (agent_assignments d) \<and>
   agent_sessions d' = map (fold (round_session now) cs) (agent_sessions d) \<and> session_archives d' = session_archives d"
proof (induction cs arbitrary: d)
  case (Cons c cs)
  then obtain d1 where "monitor_one flt clock (\<lambda>n. uuid (a_id (snd c) @ n)) now c d = Inr d1"
    "monitor_all flt clock uuid now cs d1 = Inr d'" by auto
  then show ?case using Cons.IH [of d1] monitor_one_effect by fastforce
qed auto

lemma open_contexts_distinct:
  assumes "agent_inv d"
  shows "distinct (map (\<lambda>c. a_id (snd c)) (open_contexts d))" "distinct (map (\<lambda>c. s_session_id (fst c)) (open_contexts d))"
proof -
  have "distinct (agent_sessions d)" "distinct (agent_assignments d)"
    using assms by (auto simp: agent_inv_def distinct_map)
  then have dist: "distinct (open_contexts d)" by (simp add: open_contexts_def distinct_product)
  have "c = c'" if "c \<in> set (open_contexts d)" "c' \<in> set (open_contexts d)"
    "a_id (snd c) = a_id (snd c') \<or> s_session_id (fst c) = s_session_id (fst c')" for c c'
  proof -
    have m: "fst c \<in> set (agent_sessions d)" "snd c \<in> set (agent_assignments d)" "a_session_id (snd c) = s_session_id (fst c)"
      "open_asg (snd c)" "fst c' \<in> set (agent_sessions d)" "snd c' \<in> set (agent_assignments d)"
      "a_session_id (snd c') = s_session_id (fst c')" "open_asg (snd c')"
      using that by (auto simp: open_contexts_def)
    have "snd c = snd c'"
      using that(3) inv_asg_unique [OF assms m(2,6)] m assms by (auto simp: agent_inv_def)
    then have "fst c = fst c'" using inv_session_unique [OF assms m(1,5)] m by simp
    then show ?thesis using \<open>snd c = snd c'\<close> by (simp add: prod_eq_iff)
  qed
  then show "distinct (map (\<lambda>c. a_id (snd c)) (open_contexts d))" "distinct (map (\<lambda>c. s_session_id (fst c)) (open_contexts d))"
    using dist by (auto simp: distinct_map inj_on_def)
qed

lemma monitored_scan:
  "monitored_asg now (fst (scan_context c)) (snd (scan_context c)) x = monitored_asg now (fst c) (snd c) x"
  "monitored_session now (fst (scan_context c)) (snd (scan_context c)) y = monitored_session now (fst c) (snd c) y"
proof -
  have "progress_age now (fst (scan_context c)) (Some (snd (scan_context c))) = progress_age now (fst c) (Some (snd c))"
    "heartbeat_age now (fst (scan_context c)) = heartbeat_age now (fst c)"
    by (simp_all add: progress_age_def heartbeat_age_def scan_context_def split: option.split)
  then show "monitored_asg now (fst (scan_context c)) (snd (scan_context c)) x = monitored_asg now (fst c) (snd c) x"
    "monitored_session now (fst (scan_context c)) (snd (scan_context c)) y = monitored_session now (fst c) (snd c) y"
    by (simp_all add: monitored_asg_def monitored_session_def protocol_lost_def protocol_stuck_def) (simp add: scan_context_def)
qed

text \<open>
  The rule monitor. A failing run changes nothing. A successful one ends every live assignment whose
  session was not heard of for more than 30 seconds as lost, and else, without progress for more
  than an hour, as stuck, closing the session too; of the rest it cancels those held for more than 108
  hours. Every other row is as before, and no archive is written for the sessions it closes.
\<close>

theorem monitor_enforces_rules:
  assumes "agent_inv d" and "MonitorAgentAssignmentRules flt clock uuid now0 d = (r, d')"
  shows "case r of Inl e \<Rightarrow> d' = d
    | Inr u \<Rightarrow> (let now = (if now0 = zero_time then truncate_second clock else now0) in
        (\<forall>a\<in>set (agent_assignments d). \<forall>s\<in>set (agent_sessions d). open_asg a \<and> s_session_id s = a_session_id a \<longrightarrow>
           monitored_asg now s a a \<in> set (agent_assignments d') \<and> monitored_session now s a s \<in> set (agent_sessions d')) \<and>
        (\<forall>a\<in>set (agent_assignments d). \<not> open_asg a \<longrightarrow> a \<in> set (agent_assignments d')) \<and>
        length (agent_assignments d') = length (agent_assignments d) \<and> session_archives d' = session_archives d)"
proof (cases r)
  case (Inl e)
  then show ?thesis
    using run_tx_cases [OF assms(2) [unfolded MonitorAgentAssignmentRules_def Let_def]] by auto
next
  case (Inr u)
  define now where "now = (if now0 = zero_time then truncate_second clock else now0)"
  let ?cs = "map scan_context (sql_order (\<lambda>c. a_started_at (snd c)) (open_contexts d))"
  have "monitor_all flt clock uuid now ?cs d = Inr d'"
    using run_tx_result [OF assms(2) [unfolded MonitorAgentAssignmentRules_def Let_def now_def [symmetric]]] Inr
    by (auto simp: listActiveAssignmentContextsTx_def)
  note eff = monitor_all_effect [OF this]
  have "distinct (map (\<lambda>c. a_id (snd c)) ?cs)" "distinct (map (\<lambda>c. s_session_id (fst c)) ?cs)"
    using open_contexts_distinct [OF assms(1)]
    by (auto simp: distinct_map sql_order_def comp_def scan_context_def inj_on_def)
  note one = fold_one [OF this(1), of a_id "round_asg now", OF round_other(1) round_key(1)]
    fold_one [OF this(2), of s_session_id "round_session now", OF round_other(2) round_key(2)]
  have live: "monitored_asg now s a a \<in> set (agent_assignments d') \<and> monitored_session now s a s \<in> set (agent_sessions d')"
    if m: "a \<in> set (agent_assignments d)" "s \<in> set (agent_sessions d)" "open_asg a" "s_session_id s = a_session_id a" for a s
  proof -
    let ?c = "scan_context (s, a)"
    have os: "open_session s"
      using inv_live_session [OF assms(1) m(1,3)] inv_session_unique [OF assms(1) m(2)] m(4) by metis
    then have c: "?c \<in> set ?cs" using m by (auto simp: open_contexts_def)
    have "fold (round_asg now) ?cs a = monitored_asg now s a a"
      using one(1) [of ?c a] c m(3) monitored_scan(1) [of now "(s, a)" a] by (simp add: round_asg_def scan_context_def)
    moreover have "fold (round_session now) ?cs s = monitored_session now s a s"
      using one(2) [of ?c s] c os monitored_scan(2) [of now "(s, a)" s]
      by (simp add: round_session_def scan_context_def open_with_id_def open_session_def)
    ultimately show ?thesis using eff m(1,2) by (metis image_eqI list.set_map)
  qed
  have ended: "a \<in> set (agent_assignments d')" if "a \<in> set (agent_assignments d)" "\<not> open_asg a" for a
  proof -
    have "round_asg now c a = a" for c using that(2) by (simp add: round_asg_def)
    then have "fold (round_asg now) cs a = a" for cs by (induction cs) simp_all
    then show ?thesis using eff that(1) by (metis image_eqI list.set_map)
  qed
  show ?thesis using Inr live ended eff unfolding now_def by (simp add: Let_def)
qed

lemma demo_monitor_eval:
  "fst (MonitorAgentAssignmentRules no_faults (100 * Second) (demo_uuid ''m'') (100 * Second) demo_claimed) = Inr ()"
  "map (\<lambda>s. (s_session_id s, protocol_lost (100 * Second) s)) (agent_sessions demo_claimed) = [(''s1'', True), (''s2'', True)]"
  by code_simp+

theorem monitor_enforces_rules_witness:
  "\<exists>a\<in>set (agent_assignments (snd (MonitorAgentAssignmentRules no_faults (100 * Second) (demo_uuid ''m'') (100 * Second) demo_claimed))).
     a_session_id a = ''s1'' \<and> \<not> open_asg a \<and> a_substatus a = ''terminal_lost''"
proof -
  obtain d' where d': "MonitorAgentAssignmentRules no_faults (100 * Second) (demo_uuid ''m'') (100 * Second) demo_claimed = (Inr (), d')"
    using demo_monitor_eval(1) by (metis prod.collapse)
  obtain a where a: "a \<in> set (agent_assignments demo_claimed)" "a_session_id a = ''s1''" "open_asg a"
    using demo_eval(1) by (cases "agent_assignments demo_claimed") auto
  obtain s where s: "s \<in> set (agent_sessions demo_claimed)" "s_session_id s = ''s1''" "protocol_lost (100 * Second) s"
    using demo_monitor_eval(2) by (cases "agent_sessions demo_claimed") auto
  have "100 * Second \<noteq> zero_time" by simp
  then have "monitored_asg (100 * Second) s a a \<in> set (agent_assignments d')"
    using monitor_enforces_rules [OF demo_inv(2) d'] a s by simp
  then show ?thesis
    unfolding d' snd_conv using s(3) a(2) by (intro bexI [of _ "monitored_asg (100 * Second) s a a"])
      (simp_all add: monitored_asg_def close_asg_def open_asg_def)
qed

section \<open>Heartbeat secret\<close>

lemma validate_secret_iff:
  "ValidateHeartbeatSecret flt sid x d = Inr () \<Longrightarrow>
   \<exists>s\<in>set (agent_sessions d). s_session_id s = sid \<and> open_session s \<and> s_heartbeat_secret s = x \<and> x \<noteq> ''''"
  by (auto simp: ValidateHeartbeatSecret_def sql_row_def open_with_id_def split: option.splits if_splits dest!: find_Some_set)

lemma validate_secret_ok:
  assumes "agent_inv d" and "s \<in> set (agent_sessions d)" and "open_session s" and "s_heartbeat_secret s \<noteq> ''''"
  shows "ValidateHeartbeatSecret no_faults (s_session_id s) (s_heartbeat_secret s) d = Inr ()"
proof -
  have "sql_row (open_with_id (s_session_id s)) (agent_sessions d) = Some s"
  proof (cases "sql_row (open_with_id (s_session_id s)) (agent_sessions d)")
    case None
    then show ?thesis using assms(2,3) by (auto simp: sql_row_def find_None_iff open_with_id_def open_session_def)
  next
    case (Some x)
    then have "x \<in> set (agent_sessions d)" "s_session_id x = s_session_id s"
      by (auto simp: sql_row_def open_with_id_def dest: find_Some_set)
    then show ?thesis using Some inv_session_unique [OF assms(1) _ assms(2)] by simp
  qed
  then show ?thesis using assms(4) by (simp add: ValidateHeartbeatSecret_def)
qed

lemma register_new:
  assumes "RegisterAgentSessionWithSecret pu flt now k sid aid mode tmux d = (Inr sec, d1)"
    and "sid \<notin> s_session_id ` set (agent_sessions d)"
  shows "sec = k \<and> (\<exists>s\<in>set (agent_sessions d1). s_session_id s = sid \<and> s_heartbeat_secret s = k)"
proof -
  have "sql_row (\<lambda>s. s_session_id s = sid) (agent_sessions d) = None"
    using assms(2) by (auto simp: sql_row_def find_None_iff)
  then show ?thesis
    using run_tx_result [OF assms(1) [unfolded RegisterAgentSessionWithSecret_def]] assms(2)
    by (auto simp: Let_def upsert_session_def tabs_def new_session_def TrimSpace_def dest!: insert_event_tabs)
qed

lemma register_again:
  assumes "RegisterAgentSessionWithSecret pu flt now k sid aid mode tmux d = (Inr sec, d1)"
    and "agent_inv d" and "s \<in> set (agent_sessions d)" and "s_session_id s = sid"
    and "TrimSpace (s_heartbeat_secret s) = s_heartbeat_secret s" and "s_heartbeat_secret s \<noteq> ''''"
  shows "sec = s_heartbeat_secret s"
  using run_tx_result [OF assms(1) [unfolded RegisterAgentSessionWithSecret_def]]
    inv_find_session [OF assms(2,3)] assms(4-)
  by (auto simp: Let_def split: if_splits)

text \<open>
  The heartbeat secret. The registration of a new session returns the generated secret. Whatever
  operations follow, only this secret passes validation, it does pass while the session is open, a
  heartbeat with any other secret is refused and changes nothing, and a later registration of the same
  session returns the same secret, whatever new one it was offered.
\<close>

theorem heartbeat_secret_stable:
  assumes "fsm_library lib" and "agent_inv d" and "sid \<notin> s_session_id ` set (agent_sessions d)"
    and "k \<noteq> ''''" and "TrimSpace k = k"
    and "RegisterAgentSessionWithSecret pu flt now k sid aid mode tmux d = (Inr sec, d1)" and "(agent_step lib pu)\<^sup>*\<^sup>* d1 d2"
  shows "sec = k \<and>
    (\<forall>flt' x. ValidateHeartbeatSecret flt' sid x d2 = Inr () \<longrightarrow> x = k) \<and>
    (\<forall>s\<in>set (agent_sessions d2). s_session_id s = sid \<and> open_session s \<longrightarrow> ValidateHeartbeatSecret no_faults sid k d2 = Inr ()) \<and>
    (\<forall>flt' t uuid x mark. x \<noteq> k \<longrightarrow> (\<exists>e. Store_Heartbeat flt' t uuid sid x mark d2 = (Inl e, d2))) \<and>
    (\<forall>flt' t k' aid' mode' tmux' sec' d3.
       RegisterAgentSessionWithSecret pu flt' t k' sid aid' mode' tmux' d2 = (Inr sec', d3) \<longrightarrow> sec' = k)"
proof -
  have i1: "agent_inv d1"
    using agent_step_write [OF register [OF assms(6)] assms(1,2)] agent_writes_inv [OF _ assms(2)] by blast
  note i2 = agent_steps_inv [OF assms(7,1) i1]
  obtain s1 where s1: "s1 \<in> set (agent_sessions d1)" "s_session_id s1 = sid" "s_heartbeat_secret s1 = k"
    using register_new [OF assms(6,3)] by blast
  then obtain s2 where s2: "s2 \<in> set (agent_sessions d2)" "s_session_id s2 = sid" "s_heartbeat_secret s2 = k"
    using agent_writes_rows [OF conjunct2 [OF i2]] assms(4) by (metis session_le_def)
  note uniq = inv_session_unique [OF conjunct1 [OF i2] _ s2(1)]
  have v: "x = k" if "ValidateHeartbeatSecret flt' sid x d2 = Inr ()" for flt' x
    using validate_secret_iff [OF that] uniq s2 by metis
  moreover have "\<exists>e. Store_Heartbeat flt' t uuid sid x mark d2 = (Inl e, d2)" if "x \<noteq> k" for flt' t uuid x mark
    using v [of flt' x] that by (auto simp: Store_Heartbeat_def split: sum.splits)
  moreover have "ValidateHeartbeatSecret no_faults sid k d2 = Inr ()"
    if "s \<in> set (agent_sessions d2)" "s_session_id s = sid \<and> open_session s" for s
    using validate_secret_ok [OF conjunct1 [OF i2] s2(1)] uniq [OF that(1)] that(2) s2(2,3) assms(4) by metis
  moreover have "sec' = k"
    if "RegisterAgentSessionWithSecret pu flt' t k' sid aid' mode' tmux' d2 = (Inr sec', d3)" for flt' t k' aid' mode' tmux' sec' d3
    using register_again [OF that conjunct1 [OF i2] s2(1,2)] s2(3) assms(4,5) by simp
  ultimately show ?thesis using register_new [OF assms(6,3)] by blast
qed

lemma demo_register_eval:
  "fst (RegisterAgentSessionWithSecret (\<lambda>_. False) no_faults 0 ''k1'' ''s1'' ''ann'' '''' '''' empty_agent_db) = Inr ''k1''"
  "TrimSpace ''k1'' = ''k1''" "agent_sessions empty_agent_db = []"
  by code_simp+

theorem heartbeat_secret_stable_witness:
  "\<exists>e. Store_Heartbeat no_faults Second (demo_uuid ''h'') ''s1'' ''guess'' True demo_registered = (Inl e, demo_registered)"
proof -
  define d1 where "d1 = snd (RegisterAgentSessionWithSecret (\<lambda>_. False) no_faults 0 ''k1'' ''s1'' ''ann'' '''' '''' empty_agent_db)"
  have r: "RegisterAgentSessionWithSecret (\<lambda>_. False) no_faults 0 ''k1'' ''s1'' ''ann'' '''' '''' empty_agent_db = (Inr ''k1'', d1)"
    using demo_register_eval(1) unfolding d1_def by (metis prod.collapse)
  have st: "(agent_step list_fsm (\<lambda>_. False))\<^sup>*\<^sup>* d1 demo_registered"
    unfolding demo_registered_def d1_def by (rule r_into_rtranclp, rule register [OF prod.collapse [symmetric]])
  show ?thesis
    using heartbeat_secret_stable [OF listfsm.fsm_library_axioms agent_inv_empty _ _ demo_register_eval(2) r st]
      demo_register_eval(3) by simp
qed

section \<open>The session store\<close>

text \<open>The methods of the session store are runs of the operations above, so they keep the invariant.\<close>

lemma lift_core_step: "store_step lib (core d) (snd (f (core d))) \<Longrightarrow> agent_step lib pu d (snd (lift_core f d))"
  by (auto simp: lift_core_def split: prod.splits intro: branches)

lemma Store_Heartbeat_steps:
  assumes "Store_Heartbeat flt now uuid sid secret mark d = (r, d')"
  shows "(agent_step lib pu)\<^sup>*\<^sup>* d d'"
proof -
  have hb: "agent_step lib pu e (snd (lift_core (UpdateSessionHeartbeat flt t repo branch) e))"
    and oa: "agent_step lib pu e (snd (lift_core (UpdateOwnerAgent flt t repo branch a) e))" for e t repo branch a
    by (rule lift_core_step, rule store_step.heartbeat [OF prod.collapse [symmetric]],
        rule lift_core_step, rule store_step.owner_agent [OF prod.collapse [symmetric]])
  show ?thesis
  proof (cases "d' = d")
    case False
    obtain u d1 where u: "UpdateAgentSessionHeartbeat flt now uuid sid mark d = (u, d1)" by fastforce
    note s1 = agent_step.heartbeat [OF u, of lib pu]
    have "d' = d1 \<or> (\<exists>t repo branch a. d' = snd (lift_core (UpdateSessionHeartbeat flt t repo branch) d1) \<or>
        d' = snd (lift_core (UpdateOwnerAgent flt t repo branch a) (snd (lift_core (UpdateSessionHeartbeat flt t repo branch) d1))))"
      using assms False u by (auto simp: Store_Heartbeat_def split: if_splits sum.splits prod.splits) (metis snd_conv)+
    then show ?thesis
      using s1 hb oa by (meson converse_rtranclp_into_rtranclp rtranclp.rtrancl_refl)
  qed simp
qed

lemma HeartbeatWithStatus_steps:
  assumes "HeartbeatWithStatus flt now uuid sid secret mark st d = (r, d')"
  shows "(agent_step lib pu)\<^sup>*\<^sup>* d d'"
proof -
  obtain u d1 where u: "Store_Heartbeat flt now uuid sid secret mark d = (u, d1)" by fastforce
  have "d' = d1 \<or> (\<exists>x. UpdateInferredStatus flt now sid (NormalizeStatus st) d1 = (x, d'))"
    using assms u by (auto simp: HeartbeatWithStatus_def split: if_splits sum.splits)
  then have "(agent_step lib pu)\<^sup>*\<^sup>* d1 d'" by (auto intro: agent_step.status)
  then show ?thesis using Store_Heartbeat_steps [OF u, of lib pu] by simp
qed

lemma AttachAssignment_steps:
  assumes "AttachAssignment pu flt now uuid sid aid repo branch worktree mode task sub d = (r, d')"
  shows "(agent_step lib pu)\<^sup>*\<^sup>* d d'"
proof (cases "d' = d")
  case False
  let ?a = "Some (zero_assignment\<lparr>a_id := uuid ''assignment'', a_session_id := sid, a_agent_id := aid, a_repo := repo,
      a_branch := branch, a_worktree := worktree, a_task_id := task, a_substatus := sub\<rparr>)"
  obtain s d1 where s: "RegisterAgentSessionWithSecret pu flt now (uuid ''secret'') sid aid mode '''' d = (s, d1)" by fastforce
  obtain u d2 where u: "AttachAgentAssignment flt now uuid ?a d1 = (u, d2)" by fastforce
  have "d' = d1 \<or> d' = d2 \<or> d' = upd_core (at_branch repo branch)
     (\<lambda>b. b\<lparr>b_owner_session_id := sid, b_owner_session_last_seen := Some (truncate_second now),
        b_owner_agent := aid, b_updated_at := truncate_second now\<rparr>) d2"
    using assms False s u
    by (auto simp: AttachAssignment_def RegisterAgentSession_def split: if_splits sum.splits sql_try_splits)
  then show ?thesis
    using agent_step.register [OF s, of lib] agent_step.attach [OF u, of lib pu] agent_step.own_branch [of lib pu d2]
    by (meson converse_rtranclp_into_rtranclp rtranclp.rtrancl_refl)
qed simp

lemma Finalize_steps:
  assumes "Finalize flt now uuid sid aid c d = (r, d')"
  shows "(agent_step lib pu)\<^sup>*\<^sup>* d d'"
  using assms by (auto simp: Finalize_def split: if_splits prod.splits sum.splits intro: agent_step.finalize)

lemma RegisterWithTmux_steps:
  assumes "RegisterWithTmux pu flt now uuid sid aid mode tmux d = (r, d')"
  shows "(agent_step lib pu)\<^sup>*\<^sup>* d d'"
  using assms by (auto simp: RegisterWithTmux_def split: if_splits prod.splits sum.splits intro: agent_step.register)

end
