(* ===== verification/Runner.thy ===== *)
theory Runner
  imports Expiry Heartbeat Normalizer Session_Gate
begin

text \<open>
  The review runner, \<open>internal/runner/runner.go\<close>: dispatch of a queued branch, the lease, the
  review by a provider (a parameter) under a renewing heartbeat, and the two outcomes. The Redis state is
  \<open>s\<close>, the database \<open>d\<close>. \<open>clock\<close> gives the time of each call of
  \<open>time.Now\<close>, \<open>uuid\<close> the ids, and \<open>marshal\<close> and \<open>marshal_bundle\<close> the JSON text of a
  payload. Logging is left out.
\<close>

section \<open>Configuration\<close>

record Config =
  cfg_repos :: "string list"
  cfg_poll_interval :: duration
  cfg_lease_ttl :: duration
  cfg_heartbeat_interval :: duration
  cfg_max_concurrent :: int

definition config_defaults :: "Config \<Rightarrow> Config" where
  "config_defaults c = c
     \<lparr>cfg_poll_interval := (if cfg_poll_interval c \<le> 0 then 10 * Second else cfg_poll_interval c),
      cfg_lease_ttl := (if cfg_lease_ttl c \<le> 0 then 30 * Second else cfg_lease_ttl c),
      cfg_heartbeat_interval := (if cfg_heartbeat_interval c \<le> 0 then 10 * Second else cfg_heartbeat_interval c),
      cfg_max_concurrent := (if cfg_max_concurrent c \<le> 0 then 1 else cfg_max_concurrent c)\<rparr>"

text \<open>The environment variables are a function from names to values, the empty string for an unset one.\<close>

definition resolveAgentID :: "(string \<Rightarrow> string) \<Rightarrow> error + string \<Rightarrow> string" where
  "resolveAgentID env hostname =
     (if env ''CODERO_AGENT_ID'' \<noteq> '''' then env ''CODERO_AGENT_ID''
      else if env ''USER'' \<noteq> '''' then env ''USER''
      else (case hostname of Inr host \<Rightarrow> host | Inl _ \<Rightarrow> ''''))"

definition resolveSessionID :: "(string \<Rightarrow> string) \<Rightarrow> string" where
  "resolveSessionID env =
     (if env ''CODERO_SESSION_ID'' \<noteq> '''' then env ''CODERO_SESSION_ID'' else env ''CODERO_AGENT_SESSION_ID'')"

definition resolveSessionMode :: "(string \<Rightarrow> string) \<Rightarrow> string" where
  "resolveSessionMode env = (if env ''CODERO_SESSION_MODE'' \<noteq> '''' then env ''CODERO_SESSION_MODE'' else ''runner'')"

definition resolveWorktree :: "(string \<Rightarrow> string) \<Rightarrow> string" where
  "resolveWorktree env = env ''CODERO_WORKTREE''"

definition resolveTaskID :: "(string \<Rightarrow> string) \<Rightarrow> string" where
  "resolveTaskID env = env ''CODERO_TASK_ID''"

record ReviewRunner =
  r_provider_name :: string
  r_cfg :: Config
  r_session_id :: string
  r_agent_id :: string
  r_mode :: string
  r_heartbeat_secret :: string
  r_worktree :: string
  r_task_id :: string

definition NewRunner :: "(string \<Rightarrow> string) \<Rightarrow> error + string \<Rightarrow> string \<Rightarrow> Config \<Rightarrow> ReviewRunner" where
  "NewRunner env hostname provider cfg =
     \<lparr>r_provider_name = provider, r_cfg = config_defaults cfg, r_session_id = resolveSessionID env,
      r_agent_id = resolveAgentID env hostname, r_mode = resolveSessionMode env, r_heartbeat_secret = '''',
      r_worktree = resolveWorktree env, r_task_id = resolveTaskID env\<rparr>"

section \<open>The runner's own session\<close>

definition registerSession ::
  "(string \<Rightarrow> bool) \<Rightarrow> faults \<Rightarrow> gotime \<Rightarrow> string \<Rightarrow> ReviewRunner \<Rightarrow> agent_db \<Rightarrow> ReviewRunner \<times> agent_db" where
  "registerSession parse_uuid flt now uuid r d =
     (if r_session_id r = '''' then (r, d)
      else (case Register parse_uuid flt now uuid (r_session_id r) (r_agent_id r) (r_mode r) d of
        (Inl e, d1) \<Rightarrow> (r, d1)
      | (Inr secret, d1) \<Rightarrow> (r\<lparr>r_heartbeat_secret := secret\<rparr>, d1)))"

definition emitSessionHeartbeat ::
  "faults \<Rightarrow> gotime \<Rightarrow> (string \<Rightarrow> string) \<Rightarrow> ReviewRunner \<Rightarrow> agent_db \<Rightarrow> agent_db" where
  "emitSessionHeartbeat flt now uuid r d =
     (if r_session_id r = '''' then d
      else snd (Store_Heartbeat flt now uuid (r_session_id r) (r_heartbeat_secret r) False d))"

definition attachSessionAssignment ::
  "(string \<Rightarrow> bool) \<Rightarrow> faults \<Rightarrow> gotime \<Rightarrow> (string \<Rightarrow> string) \<Rightarrow> ReviewRunner \<Rightarrow> string \<Rightarrow> string \<Rightarrow> agent_db \<Rightarrow> agent_db" where
  "attachSessionAssignment parse_uuid flt now uuid r repo branch d =
     (if r_session_id r = '''' then d
      else snd (AttachAssignment parse_uuid flt now uuid (r_session_id r) (r_agent_id r) repo branch (r_worktree r)
                  (r_mode r) (r_task_id r) '''' d))"

section \<open>The outcome of a review\<close>

text \<open>
  Both handlers release the lease in a deferred call, so it runs after the result is fixed. The
  Redis calls of one handler are the append, the re-enqueue and the release, each with its own oracle.
\<close>

definition finding_rows ::
  "(string \<Rightarrow> string) \<Rightarrow> gotime \<Rightarrow> string \<Rightarrow> string \<Rightarrow> string \<Rightarrow> Finding list \<Rightarrow> finding_row list" where
  "finding_rows uuid created runID repo branch fs =
     map (\<lambda>(i, f). \<lparr>fi_id = uuid (''finding '' @ FormatInt (int i)), fi_run_id = runID, fi_repo = repo, fi_branch = branch,
         fi_severity = severity_str (f_severity f), fi_category = f_category f, fi_file = f_file f, fi_line = f_line f,
         fi_message = f_message f, fi_source = f_source f, fi_rule_id = f_rule_id f, fi_ts = f_timestamp f,
         fi_created_at = created\<rparr>) (enumerate 0 fs)"

definition handleReviewSuccess ::
  "fsm_lib \<Rightarrow> 'r redis_api \<Rightarrow> rfaults \<Rightarrow> faults \<Rightarrow> (string \<Rightarrow> gotime) \<Rightarrow> (string \<Rightarrow> string) \<Rightarrow>
   (string \<Rightarrow> string \<Rightarrow> Finding list \<Rightarrow> error + string) \<Rightarrow> ReviewRunner \<Rightarrow> BranchRecord \<Rightarrow> string \<Rightarrow> string \<Rightarrow> string \<Rightarrow> string \<Rightarrow>
   RawFinding list \<Rightarrow> 'r \<Rightarrow> db \<Rightarrow> (error + unit) \<times> 'r \<times> db" where
  "handleReviewSuccess lib api rf flt clock uuid marshal_bundle r rec repo branch holderID runID raws s d =
     (let now = clock ''success'';
          fs = fst (NormalizeAll raws (r_provider_name r) now);
          d1 = snd (InsertFindings (at_site ''findings'' flt) (finding_rows uuid (truncate_second (clock ''insert'')) runID repo branch fs) d);
          d2 = snd (UpdateReviewRun (at_site ''run'' flt) runID ''completed'' '''' (clock ''finished'') d1)
      in case AppendFindingBundle api (at_site ''event'' rf) (at_site ''event'' flt) (clock ''event'') repo branch (HeadHash rec)
             (marshal_bundle runID (r_provider_name r) fs) s d2 of
        (_, s3, d3) \<Rightarrow>
          (case TransitionBranch lib (at_site ''approve'' flt) (truncate_second (clock ''approve'')) (ID rec) StateCLIReviewing
              StateReviewApproved ''review_completed'' d3 of
             (res, d4) \<Rightarrow> (res, snd (Release api (at_site ''release'' rf) repo branch holderID s3), d4)))"

definition handleReviewFailure ::
  "fsm_lib \<Rightarrow> 'r redis_api \<Rightarrow> rfaults \<Rightarrow> faults \<Rightarrow> (string \<Rightarrow> gotime) \<Rightarrow> (string \<Rightarrow> string \<Rightarrow> error + string) \<Rightarrow>
   BranchRecord \<Rightarrow> string \<Rightarrow> string \<Rightarrow> string \<Rightarrow> string \<Rightarrow> string \<Rightarrow> 'r \<Rightarrow> db \<Rightarrow> (error + unit) \<times> 'r \<times> db" where
  "handleReviewFailure lib api rf flt clock marshal rec repo branch holderID runID reviewErr s d =
     (let d1 = snd (UpdateReviewRun (at_site ''run'' flt) runID ''failed'' reviewErr (clock ''finished'') d)
      in case IncrementRetryCount (at_site ''retry'' flt) (truncate_second (clock ''retry'')) (ID rec) d1 of
        (count, d2) \<Rightarrow>
          let newCount = (case count of Inr n \<Rightarrow> n | Inl _ \<Rightarrow> 0)
          in case AppendSystem api (at_site ''event'' rf) (at_site ''event'' flt) (clock ''event'') repo branch (HeadHash rec) marshal
                 ''review_failed'' (''retry_count='' @ FormatInt newCount @ '' error='' @ reviewErr) s d2 of
            (_, s3, d3) \<Rightarrow>
              if newCount \<ge> MaxRetries rec then
                (case TransitionBranch lib (at_site ''block'' flt) (truncate_second (clock ''block'')) (ID rec) StateCLIReviewing
                    StateBlocked ''max_retries_exceeded'' d3 of
                   (res, d4) \<Rightarrow> (res, snd (Release api (at_site ''release'' rf) repo branch holderID s3), d4))
              else
                (case TransitionBranch lib (at_site ''requeue'' flt) (truncate_second (clock ''requeue'')) (ID rec) StateCLIReviewing
                    StateQueuedCLI ''review_failed_requeue'' d3 of
                   (Inl e, d4) \<Rightarrow> (Inl e, snd (Release api (at_site ''release'' rf) repo branch holderID s3), d4)
                 | (Inr _, d4) \<Rightarrow>
                     (let s4 = snd (Enqueue api (at_site ''enqueue'' rf) (queue_entry repo branch (real_of_int (QueuePriority rec))) s3)
                      in (Inr (), snd (Release api (at_site ''release'' rf) repo branch holderID s4), d4))))"

section \<open>Dispatch\<close>

text \<open>
  While the provider works, the heartbeat goroutine makes its passes and other workers use the two
  stores: the time of a review is a list of such steps, in the order in which they happen.
\<close>

datatype 'r meanwhile =
    Pass rfaults gotime hb_event
  | Others "'r \<times> agent_db \<Rightarrow> 'r \<times> agent_db"

fun review_time ::
  "'r redis_api \<Rightarrow> 'r meanwhile list \<Rightarrow> Heartbeat \<Rightarrow> 'r \<Rightarrow> agent_db \<Rightarrow> Heartbeat \<times> 'r \<times> agent_db" where
  "review_time api [] hb s d = (hb, s, d)"
| "review_time api (Pass rf now ev # ms) hb s d =
     (case run_event api rf now ev hb s of (hb', s') \<Rightarrow> review_time api ms hb' s' d)"
| "review_time api (Others f # ms) hb s d = (case f (s, d) of (s', d') \<Rightarrow> review_time api ms hb s' d')"

record ReviewRequest =
  rq_repo :: string
  rq_branch :: string
  rq_head_hash :: string

text \<open>From the lease to the stopped heartbeat: \<open>Inl\<close> is an early return.\<close>

definition review_branch ::
  "(string \<Rightarrow> bool) \<Rightarrow> 'r redis_api \<Rightarrow> rfaults \<Rightarrow> faults \<Rightarrow> (string \<Rightarrow> gotime) \<Rightarrow> (string \<Rightarrow> string) \<Rightarrow>
   'r meanwhile list \<Rightarrow> ReviewRunner \<Rightarrow> BranchRecord \<Rightarrow> string \<Rightarrow> string \<Rightarrow> Lease \<Rightarrow> 'r \<Rightarrow> agent_db \<Rightarrow>
   (error + unit) \<times> 'r \<times> agent_db" where
  "review_branch parse_uuid api rf flt clock uuid ms r rec repo branch lease s d =
     (let d1 = attachSessionAssignment parse_uuid (at_site ''attach'' flt) (clock ''attach'') uuid r repo branch d;
          d2 = (if r_agent_id r \<noteq> ''''
                then snd (lift_core (UpdateOwnerAgent (at_site ''owner'' flt) (truncate_second (clock ''owner'')) repo branch (r_agent_id r)) d1)
                else d1);
          d3 = snd (lift_core (UpdateLeaseInfo (at_site ''lease info'' flt) (truncate_second (clock ''lease info'')) (ID rec)
                 (l_HolderID lease) (l_ExpiresAt lease)) d2)
      in case StartHeartbeat (Some lease)
             \<lparr>Interval = cfg_heartbeat_interval (r_cfg r), LeaseTTL = cfg_lease_ttl (r_cfg r), MaxMisses = 3\<rparr> of
        Inl e \<Rightarrow> (Inl e, snd (Release api (at_site ''release start'' rf) repo branch (l_HolderID lease) s), d3)
      | Inr hb \<Rightarrow>
          let d4 = snd (lift_core (CreateReviewRun (at_site ''create run'' flt) (truncate_second (clock ''create run'')) (uuid ''run'') repo branch
                 (HeadHash rec) (r_provider_name r) ''running'' (Some (clock ''started''))) d3)
          in case review_time api ms hb s d4 of
            (hb5, s5, d5) \<Rightarrow>
              (case Stop api (at_site ''stop'' rf) (clock ''stop'') hb5 s5 of
                 (hb6, s6) \<Rightarrow>
                   (Inr (), s6, snd (lift_core (ClearLeaseInfo (at_site ''clear'' flt) (truncate_second (clock ''clear'')) (ID rec)) d5))))"

definition processEntry ::
  "(string \<Rightarrow> bool) \<Rightarrow> fsm_lib \<Rightarrow> 'r redis_api \<Rightarrow> rfaults \<Rightarrow> faults \<Rightarrow> (string \<Rightarrow> gotime) \<Rightarrow> (string \<Rightarrow> string) \<Rightarrow>
   (string \<Rightarrow> string \<Rightarrow> error + string) \<Rightarrow> (string \<Rightarrow> string \<Rightarrow> Finding list \<Rightarrow> error + string) \<Rightarrow>
   (ReviewRequest \<Rightarrow> string + RawFinding list) \<Rightarrow> 'r meanwhile list \<Rightarrow> ReviewRunner \<Rightarrow> string \<Rightarrow> string \<Rightarrow> 'r \<Rightarrow> agent_db \<Rightarrow>
   (error + unit) \<times> 'r \<times> agent_db" where
  "processEntry parse_uuid lib api rf flt clock uuid marshal marshal_bundle review ms r repo branch s d =
     (case GetBranch (at_site ''get branch'' flt) repo branch (core d) of
        Inl e \<Rightarrow> (Inl e, s, d)
      | Inr rec \<Rightarrow>
         if State rec \<noteq> StateQueuedCLI then (Inr (), s, d)
         else let holderID = ''runner-'' @ uuid ''holder'' in
          (case AcquireWithTTL api (at_site ''acquire'' rf) (clock ''acquire'') repo branch holderID (cfg_lease_ttl (r_cfg r)) s of
             (Inl e, s1) \<Rightarrow> if e = ErrLeaseConflict then (Inr (), s1, d) else (Inl e, s1, d)
           | (Inr lease, s1) \<Rightarrow>
              (case lift_core (TransitionBranch lib (at_site ''dispatch'' flt) (truncate_second (clock ''dispatch'')) (ID rec)
                  StateQueuedCLI StateCLIReviewing ''runner_dispatch'') d of
                 (Inl e, d1) \<Rightarrow> (Inl e, snd (Release api (at_site ''release'' rf) repo branch holderID s1), d1)
               | (Inr _, d1) \<Rightarrow>
                  (case review_branch parse_uuid api rf flt clock uuid ms r rec repo branch lease s1 d1 of
                     (Inl e, s2, d2) \<Rightarrow> (Inl e, s2, d2)
                   | (Inr _, s2, d2) \<Rightarrow>
                      (case (case review \<lparr>rq_repo = repo, rq_branch = branch, rq_head_hash = HeadHash rec\<rparr> of
                           Inl reviewErr \<Rightarrow> handleReviewFailure lib api (at_site ''failure'' rf) (at_site ''failure'' flt) clock marshal rec
                             repo branch holderID (uuid ''run'') reviewErr s2 (core d2)
                         | Inr raws \<Rightarrow> handleReviewSuccess lib api (at_site ''success'' rf) (at_site ''success'' flt) clock uuid marshal_bundle r rec
                             repo branch holderID (uuid ''run'') raws s2 (core d2)) of
                         (res, s3, c3) \<Rightarrow> (res, s3, d2\<lparr>core := c3\<rparr>))))))"

definition dispatchRepo ::
  "(string \<Rightarrow> bool) \<Rightarrow> fsm_lib \<Rightarrow> 'r redis_api \<Rightarrow> rfaults \<Rightarrow> faults \<Rightarrow> (string \<Rightarrow> gotime) \<Rightarrow> (string \<Rightarrow> string) \<Rightarrow>
   (string \<Rightarrow> string \<Rightarrow> error + string) \<Rightarrow> (string \<Rightarrow> string \<Rightarrow> Finding list \<Rightarrow> error + string) \<Rightarrow>
   (ReviewRequest \<Rightarrow> string + RawFinding list) \<Rightarrow> 'r meanwhile list \<Rightarrow> ReviewRunner \<Rightarrow> string \<Rightarrow> 'r \<Rightarrow> agent_db \<Rightarrow> 'r \<times> agent_db" where
  "dispatchRepo parse_uuid lib api rf flt clock uuid marshal marshal_bundle review ms r repo s d =
     (case Dequeue api (at_site ''dequeue'' rf) repo s of
        (Inl e, s1) \<Rightarrow> (s1, d)
      | (Inr entry, s1) \<Rightarrow>
         (case processEntry parse_uuid lib api rf flt clock uuid marshal marshal_bundle review ms r repo (q_branch entry) s1 d of
            (_, s2, d2) \<Rightarrow> (s2, d2)))"

definition StubProvider_Review :: "ReviewRequest \<Rightarrow> string + RawFinding list" where
  "StubProvider_Review req = Inr
    [\<lparr>w_severity = ''info'', w_category = ''style'', w_file = '''', w_line = 0,
      w_message = ''stub review completed for '' @ rq_repo req @ ''/'' @ rq_branch req @ ''@'' @ rq_head_hash req,
      w_source = ''stub'', w_rule_id = ''STUB-001'', w_timestamp = zero_time\<rparr>]"


section \<open>What the calls around a review leave alone\<close>

text \<open>The columns the outcome depends on: the state and the retry count of each branch.\<close>

definition progress_of :: "db \<Rightarrow> string \<Rightarrow> (state \<times> int) option" where
  "progress_of d bid = map_option (\<lambda>r. (b_state r, b_retry_count r)) (sql_row (\<lambda>r. b_id r = bid) (branch_states d))"

definition same_progress :: "db \<Rightarrow> db \<Rightarrow> bool" where
  "same_progress d d' \<longleftrightarrow> progress_of d' = progress_of d \<and> (schema_ok d \<longrightarrow> schema_ok d')"

lemma progress_branch_of: "branch_of d bid = map_option fst (progress_of d bid)"
  by (simp add: branch_of_def progress_of_def option.map_comp comp_def)

lemma same_progress_refl [simp]: "same_progress d d"
  by (simp add: same_progress_def)

lemma same_progress_trans: "same_progress a b \<Longrightarrow> same_progress b c \<Longrightarrow> same_progress a c"
  by (simp add: same_progress_def)

lemma same_progress_states: "same_progress a b \<Longrightarrow> same_states a b"
  by (simp add: same_progress_def same_states_def fun_eq_iff progress_branch_of)

lemma same_progress_update:
  assumes "branch_frame f" and "\<And>x. b_state (f x) = b_state x" and "\<And>x. b_retry_count (f x) = b_retry_count x"
  shows "same_progress d (update_branches P f d)"
proof -
  have "progress_of (update_branches P f d) x = progress_of d x" for x
    unfolding progress_of_def sql_row_def find_id_update [OF assms(1)] update_branches_sel option.map_comp
    by (rule option.map_cong [OF refl]) (simp add: assms(2,3))
  then show ?thesis using schema_ok_update [OF _ assms(1)] by (auto simp: same_progress_def)
qed

lemma owner_frame:
  "branch_frame (\<lambda>x. x\<lparr>b_owner_agent := a, b_updated_at := t\<rparr>)"
  "branch_frame (\<lambda>x. x\<lparr>b_owner_session_id := i, b_owner_session_last_seen := seen, b_owner_agent := a, b_updated_at := t\<rparr>)"
  by (simp_all add: branch_frame_def branch_key_def)

lemma same_progress_rows:
  "branch_states d' = branch_states d \<Longrightarrow> (schema_ok d \<longrightarrow> schema_ok d') \<Longrightarrow> same_progress d d'"
  by (simp add: same_progress_def progress_of_def fun_eq_iff)

lemma progress_ops:
  "same_progress d (snd (UpdateOwnerAgent flt t repo branch a d))"
  "same_progress d (snd (UpdateLeaseInfo flt t bid h e d))"
  "same_progress d (snd (ClearLeaseInfo flt t bid d))"
  using same_progress_update [OF owner_frame(1)] same_progress_update [OF field_update_frame(2)]
  by (auto simp: UpdateOwnerAgent_def UpdateLeaseInfo_def ClearLeaseInfo_def exec_update_def sql_try_def split: option.split)

lemma progress_runs:
  "same_progress d (snd (CreateReviewRun flt t rid repo branch h prov st sa d))"
  "same_progress d (snd (UpdateReviewRun flt rid st em fa d))"
proof -
  show "same_progress d (snd (CreateReviewRun flt t rid repo branch h prov st sa d))"
    using schema_ok_CreateReviewRun [OF prod.collapse [symmetric]]
    by (intro same_progress_rows) (auto simp: CreateReviewRun_def sql_try_def split: option.split)
  show "same_progress d (snd (UpdateReviewRun flt rid st em fa d))"
    using schema_ok_UpdateReviewRun [OF prod.collapse [symmetric]]
    by (intro same_progress_rows) (auto simp: UpdateReviewRun_def sql_try_def split: option.split)
qed

lemma progress_findings: "same_progress d (snd (InsertFindings flt fs d))"
proof (cases "snd (InsertFindings flt fs d) = d")
  case False
  then obtain d' where i: "insert_all flt fs d = Inr d'" and d': "snd (InsertFindings flt fs d) = d'"
    by (auto simp: InsertFindings_def sql_try_def split: option.splits sum.splits if_splits)
  have "branch_states d' = branch_states d \<and> (schema_ok d \<longrightarrow> schema_ok d')"
    using insert_all_keeps [OF i] by blast
  then show ?thesis unfolding d' by (intro same_progress_rows) auto
qed simp

lemma progress_append:
  assumes "Append api rf flt now repo branch h ty pl s d = (r, s', d')"
  shows "same_progress d d'"
proof -
  have "schema_ok d'" if "schema_ok d"
    using assms that unfolding Append_def
    by (auto split: sum.splits option.splits prod.splits dest: schema_ok_AppendDeliveryEvent)
  then show ?thesis using append_db_frame [OF assms] by (intro same_progress_rows) auto
qed

lemma progress_transition:
  assumes "fsm_library lib" and "same_progress d d3" and "schema_ok d" and "progress_of d bid = Some (st, n)"
    and "ValidateTransition st to = None"
    and "TransitionBranch lib no_faults t bid st to trig d3 = (res, d')"
  shows "res = Inr () \<and> progress_of d' bid = Some (to, n) \<and> (\<forall>x. x \<noteq> bid \<longrightarrow> progress_of d' x = progress_of d x)"
proof -
  have "branch_of d bid = Some st" using assms(4) by (simp add: progress_branch_of)
  then have res: "res = Inr ()"
    using transition_move [OF assms(1) same_progress_states [OF assms(2)] assms(3) _ assms(6)] assms(5) by blast
  define f where "f = (\<lambda>x :: branch_row. x\<lparr>b_state := to, b_updated_at := t\<rparr>)"
  have d': "branch_states d' = sql_update (\<lambda>x. b_id x = bid) f (branch_states d3)"
    using TransitionBranch_cases [OF assms(6,1)] res by (auto simp: apply_transition_def f_def)
  have f: "branch_frame f" by (simp add: branch_frame_def branch_key_def f_def)
  have "progress_of d' x = map_option (\<lambda>p. if x = bid then (to, snd p) else p) (progress_of d3 x)" for x
    unfolding progress_of_def sql_row_def d' find_id_update [OF f] option.map_comp
    by (auto simp: f_def option.map_comp comp_def dest!: find_Some_set intro!: option.map_cong0 split: option.split)
  then show ?thesis
    using assms(2,4) res by (auto simp: same_progress_def option.map_ident)
qed

lemma progress_increment:
  assumes "progress_of d bid = Some (st, n)"
  obtains d' where "IncrementRetryCount no_faults t bid d = (Inr (n + 1), d')" "progress_of d' bid = Some (st, n + 1)"
    "\<forall>x. x \<noteq> bid \<longrightarrow> progress_of d' x = progress_of d x" "schema_ok d \<longrightarrow> schema_ok d'"
proof -
  obtain r where r: "sql_row (\<lambda>r. b_id r = bid) (branch_states d) = Some r" "b_state r = st" "b_retry_count r = n"
    using assms by (auto simp: progress_of_def)
  define f where "f = (\<lambda>x :: branch_row. x\<lparr>b_retry_count := b_retry_count x + 1, b_updated_at := t\<rparr>)"
  define d' where "d' = update_branches (\<lambda>x. b_id x = bid) f d"
  have f: "branch_frame f" unfolding f_def by (rule field_update_frame(1))
  have p: "progress_of d' x = map_option (\<lambda>p. if x = bid then (fst p, snd p + 1) else p) (progress_of d x)" for x
    unfolding progress_of_def sql_row_def d'_def update_branches_sel find_id_update [OF f] option.map_comp
    by (auto simp: f_def option.map_comp comp_def dest!: find_Some_set intro!: option.map_cong0 split: option.split)
  have "IncrementRetryCount no_faults t bid d = (Inr (n + 1), d')"
    using r by (simp add: IncrementRetryCount_def d'_def f_def)
  moreover have "schema_ok d \<longrightarrow> schema_ok d'"
    using schema_ok_update [OF _ f] by (simp add: d'_def)
  ultimately show thesis
    using p assms by (intro that [of d']) (auto simp: option.map_ident)
qed

lemma upsert_session_core [simp]: "core (upsert_session now sid aid mode tmux secret d) = core d"
  by (simp add: upsert_session_def)

lemma tabs_core: "tabs d' = tabs d \<Longrightarrow> core d' = core d"
  by (simp add: tabs_def)

lemma Register_core:
  assumes "RegisterAgentSessionWithSecret pu flt now uuid sid aid mode tmux d = (r, d')"
  shows "core d' = core d"
  using run_tx_cases [OF assms [unfolded RegisterAgentSessionWithSecret_def]]
  by (auto simp: Let_def split: if_splits dest!: insert_event_tabs tabs_core)

lemma RegisterAgentSession_core:
  "RegisterAgentSession pu flt now uuid sid aid mode tmux d = (r, d') \<Longrightarrow> core d' = core d"
  by (auto simp: RegisterAgentSession_def split: prod.splits sum.splits dest: Register_core)

lemma Attach_core:
  assumes "AttachAgentAssignment flt clock uuid arg d = (r, d')"
  shows "core d' = core d"
proof (cases "d' = d")
  case False
  then obtain asg0 sub where a: "arg = Some asg0" "validateAttachAssignmentSubstatus (a_substatus asg0) = Inr sub"
    using assms by (auto simp: AttachAgentAssignment_def split: option.splits sum.splits)
  note run = run_tx_cases [OF assms [unfolded AttachAgentAssignment_def a option.case sum.case Let_def]]
  show ?thesis
    using run False
    by (auto simp: tabs_def simp del: tabs_upd split: if_splits option.splits
        dest!: seed_tabs record_tabs hold_tabs insert_event_tabs insert_assignment_tabs)
qed simp

lemma attach_progress: "same_progress (core d) (core (attachSessionAssignment pu flt now uuid r repo branch d))"
proof (cases "r_session_id r = ''''")
  case False
  obtain res d' where a: "AttachAssignment pu flt now uuid (r_session_id r) (r_agent_id r) repo branch (r_worktree r)
      (r_mode r) (r_task_id r) '''' d = (res, d')" by fastforce
  have "same_progress (core d) (core d')"
    using a by (auto simp: AttachAssignment_def sql_try_def split: if_splits option.splits prod.splits sum.splits
        dest!: RegisterAgentSession_core Attach_core intro!: same_progress_update [OF owner_frame(2)])
  then show ?thesis
    using a False by (simp add: attachSessionAssignment_def)
qed (simp add: attachSessionAssignment_def)

lemma lift_core_snd [simp]: "core (snd (lift_core f d)) = snd (f (core d))"
  by (simp add: lift_core_def split: prod.split)

section \<open>The keys of a branch during a review\<close>

text \<open>Other workers leave a branch alone: its row's state and retry count, its repo's queue and its event counter.\<close>

definition leaves_alone ::
  "('r \<Rightarrow> string \<Rightarrow> entry) \<Rightarrow> string \<Rightarrow> string \<Rightarrow> string \<Rightarrow> ('r \<times> agent_db \<Rightarrow> 'r \<times> agent_db) \<Rightarrow> bool" where
  "leaves_alone view repo branch bid f \<longleftrightarrow> (\<forall>s d.
     (schema_ok (core d) \<longrightarrow> schema_ok (core (snd (f (s, d))))) \<and>
     progress_of (core (snd (f (s, d)))) bid = progress_of (core d) bid \<and>
     view (fst (f (s, d))) (queue_key repo) = view s (queue_key repo) \<and>
     view (fst (f (s, d))) (seq_key repo branch) = view s (seq_key repo branch))"

fun undisturbed :: "('r \<Rightarrow> string \<Rightarrow> entry) \<Rightarrow> string \<Rightarrow> string \<Rightarrow> string \<Rightarrow> 'r meanwhile \<Rightarrow> bool" where
  "undisturbed view repo branch bid (Pass rf now ev) = True"
| "undisturbed view repo branch bid (Others f) = leaves_alone view repo branch bid f"

context redis_server
begin

lemma Release_frame: "k \<noteq> lease_key repo branch \<Longrightarrow> view (snd (Release api rf repo branch h s)) k = view s k"
  using snd_Release [of api rf repo branch h s] release_script_frame by auto

lemma Acquire_frame: "k \<noteq> lease_key repo branch \<Longrightarrow> view (snd (AcquireWithTTL api rf now repo branch h ttl s)) k = view s k"
  using snd_AcquireWithTTL [of api rf now repo branch h ttl s] acquire_script_frame by auto

lemma Extend_frame: "k \<noteq> lease_key repo branch \<Longrightarrow> view (snd (Extend api rf now repo branch h ttl s)) k = view s k"
  using snd_Extend [of api rf now repo branch h ttl s] extend_script_frame by auto

lemma releaseAndStop_frame:
  "hb_for repo branch h hb \<Longrightarrow> k \<noteq> lease_key repo branch \<Longrightarrow> view (snd (releaseAndStop api rf hb s)) k = view s k"
  by (auto simp: releaseAndStop_def hb_for_def Let_def Release_frame split: option.split)

lemma run_event_frame:
  assumes "hb_for repo branch h hb" and "k \<noteq> lease_key repo branch"
  shows "view (snd (run_event api rf now ev hb s)) k = view s k"
proof (cases "hb_lease hb")
  case (Some l)
  then have l: "l_Repo l = repo" "l_Branch l = branch" using assms(1) by (auto simp: hb_for_def)
  obtain r s1 where e: "Extend api rf now repo branch (l_HolderID l) (LeaseTTL (hb_config hb)) s = (r, s1)" by fastforce
  have s1: "view s1 k = view s k" using Extend_frame [OF assms(2)] e by (metis snd_conv)
  have "view (snd (releaseAndStop api rf (hb\<lparr>hb_misses := m, hb_lastErr := x\<rparr>) s1)) k = view s k" for m x
    using assms(1) s1 by (subst releaseAndStop_frame [OF _ assms(2), of h]) (simp_all add: hb_for_def)
  then show ?thesis
    using s1 releaseAndStop_frame [OF assms] Some l e
    by (auto simp: run_event_def Let_def split: hb_event.split sum.split)
qed (use releaseAndStop_frame [OF assms] in \<open>auto simp: run_event_def split: hb_event.split\<close>)

lemma Stop_frame:
  "hb_for repo branch h hb \<Longrightarrow> k \<noteq> lease_key repo branch \<Longrightarrow> view (snd (Stop api rf now hb s)) k = view s k"
  by (auto simp: Stop_def hb_for_def intro: run_event_frame [of repo branch h])

lemma review_time_frame:
  assumes "list_all (undisturbed view repo branch bid) ms" and "hb_inv hb" and "hb_for repo branch h hb"
    and "review_time api ms hb s d = (hb', s', d')" and "k \<in> {queue_key repo, seq_key repo branch}"
    and "queue_key repo \<noteq> lease_key repo branch" and "seq_key repo branch \<noteq> lease_key repo branch"
  shows "hb_for repo branch h hb' \<and> view s' k = view s k \<and> progress_of (core d') bid = progress_of (core d) bid \<and>
    (schema_ok (core d) \<longrightarrow> schema_ok (core d'))"
  using assms(1-4)
proof (induction ms arbitrary: hb s d)
  case (Cons m ms)
  show ?case
  proof (cases m)
    case (Pass rf now ev)
    obtain h1 s1 where r: "run_event api rf now ev hb s = (h1, s1)" by fastforce
    have "view s1 k = view s k" using run_event_frame [OF Cons.prems(3), of k rf now ev s] r assms(5-7) by auto
    then show ?thesis using run_event_inv [OF Cons.prems(2,3) r] Cons.IH [of h1 s1 d] Cons.prems(1,4) r Pass by simp
  next
    case (Others f)
    obtain s1 d1 where f: "f (s, d) = (s1, d1)" by fastforce
    have "leaves_alone view repo branch bid f" using Cons.prems(1) Others by simp
    then have "view s1 k = view s k \<and> progress_of (core d1) bid = progress_of (core d) bid \<and> (schema_ok (core d) \<longrightarrow> schema_ok (core d1))"
      using assms(5) f unfolding leaves_alone_def by (metis fst_conv snd_conv insertE empty_iff)
    then show ?thesis using Cons.IH [of hb s1 d1] Cons.prems f Others by simp
  qed
qed auto

end

lemma lease_key_apart: "queue_key repo \<noteq> lease_key repo branch" "seq_key repo branch' \<noteq> lease_key repo branch"
  by (auto simp: queue_key_def seq_key_def lease_key_def)

section \<open>The two outcomes\<close>

lemma success_outcome:
  assumes "fsm_library lib" and "schema_ok d" and "progress_of d (ID rec) = Some (StateCLIReviewing, n)"
    and "handleReviewSuccess lib api rf no_faults clock uuid mb r rec repo branch h runID raws s d = (res, s', d')"
  shows "res = Inr () \<and> progress_of d' (ID rec) = Some (StateReviewApproved, n) \<and>
    (\<forall>x. x \<noteq> ID rec \<longrightarrow> progress_of d' x = progress_of d x)"
proof -
  define fs where "fs = fst (NormalizeAll raws (r_provider_name r) (clock ''success''))"
  define d2 where "d2 = snd (UpdateReviewRun no_faults runID ''completed'' '''' (clock ''finished'')
    (snd (InsertFindings no_faults (finding_rows uuid (truncate_second (clock ''insert'')) runID repo branch fs) d)))"
  obtain ev s3 d3 where a: "AppendFindingBundle api (at_site ''event'' rf) no_faults (clock ''event'') repo branch (HeadHash rec)
      (mb runID (r_provider_name r) fs) s d2 = (ev, s3, d3)" using prod_cases3 by blast
  have "same_progress d d2"
    unfolding d2_def by (rule same_progress_trans [OF progress_findings progress_runs(2)])
  then have "same_progress d d3"
    using progress_append [OF a [unfolded AppendFindingBundle_def]] by (rule same_progress_trans)
  moreover have "TransitionBranch lib no_faults (truncate_second (clock ''approve'')) (ID rec) StateCLIReviewing
      StateReviewApproved ''review_completed'' d3 = (res, d')"
    using assms(4) a unfolding handleReviewSuccess_def Let_def at_site_no_faults fs_def [symmetric] d2_def
    by (auto split: prod.splits)
  moreover have "ValidateTransition StateCLIReviewing StateReviewApproved = None" by code_simp
  ultimately show ?thesis using progress_transition [OF assms(1) _ assms(2,3)] by blast
qed

lemma failure_outcome:
  assumes "fsm_library lib" and "schema_ok d" and "progress_of d (ID rec) = Some (StateCLIReviewing, n)"
    and "handleReviewFailure lib api rf no_faults clock marshal rec repo branch h runID err s d = (res, s', d')"
  shows "res = Inr () \<and>
    progress_of d' (ID rec) = Some (if MaxRetries rec \<le> n + 1 then StateBlocked else StateQueuedCLI, n + 1) \<and>
    (\<forall>x. x \<noteq> ID rec \<longrightarrow> progress_of d' x = progress_of d x) \<and>
    (\<exists>ev d2 d3 s3. AppendSystem api (at_site ''event'' rf) no_faults (clock ''event'') repo branch (HeadHash rec) marshal
        ''review_failed'' (''retry_count='' @ FormatInt (n + 1) @ '' error='' @ err) s d2 = (ev, s3, d3) \<and>
      s' = snd (Release api (at_site ''release'' rf) repo branch h
        (if MaxRetries rec \<le> n + 1 then s3
         else snd (Enqueue api (at_site ''enqueue'' rf) (queue_entry repo branch (real_of_int (QueuePriority rec))) s3))))"
proof -
  define d1 where "d1 = snd (UpdateReviewRun no_faults runID ''failed'' err (clock ''finished'') d)"
  have s1: "same_progress d d1" unfolding d1_def by (rule progress_runs(2))
  then have p1: "progress_of d1 (ID rec) = Some (StateCLIReviewing, n)" using assms(3) by (simp add: same_progress_def)
  obtain d2 where i: "IncrementRetryCount no_faults (truncate_second (clock ''retry'')) (ID rec) d1 = (Inr (n + 1), d2)"
    "progress_of d2 (ID rec) = Some (StateCLIReviewing, n + 1)" "\<forall>x. x \<noteq> ID rec \<longrightarrow> progress_of d2 x = progress_of d1 x"
    "schema_ok d1 \<longrightarrow> schema_ok d2"
    using progress_increment [OF p1] by metis
  have ok2: "schema_ok d2" using i(4) s1 assms(2) by (simp add: same_progress_def)
  obtain ev s3 d3 where a: "AppendSystem api (at_site ''event'' rf) no_faults (clock ''event'') repo branch (HeadHash rec) marshal
      ''review_failed'' (''retry_count='' @ FormatInt (n + 1) @ '' error='' @ err) s d2 = (ev, s3, d3)" using prod_cases3 by blast
  have s3: "same_progress d2 d3" using progress_append [OF a [unfolded AppendSystem_def]] .
  define to where "to = (if MaxRetries rec \<le> n + 1 then StateBlocked else StateQueuedCLI)"
  obtain x d4 where t: "TransitionBranch lib no_faults (truncate_second (clock (if MaxRetries rec \<le> n + 1 then ''block'' else ''requeue'')))
      (ID rec) StateCLIReviewing to (if MaxRetries rec \<le> n + 1 then ''max_retries_exceeded'' else ''review_failed_requeue'') d3 = (x, d4)"
    by fastforce
  have v: "ValidateTransition StateCLIReviewing to = None"
    unfolding to_def by (cases "MaxRetries rec \<le> n + 1") (simp_all only: if_True if_False, code_simp+)
  have m: "x = Inr () \<and> progress_of d4 (ID rec) = Some (to, n + 1) \<and> (\<forall>y. y \<noteq> ID rec \<longrightarrow> progress_of d4 y = progress_of d2 y)"
    by (rule progress_transition [OF assms(1) s3 ok2 i(2) v t])
  have body: "res = Inr () \<and> d' = d4 \<and> s' = snd (Release api (at_site ''release'' rf) repo branch h
        (if MaxRetries rec \<le> n + 1 then s3
         else snd (Enqueue api (at_site ''enqueue'' rf) (queue_entry repo branch (real_of_int (QueuePriority rec))) s3)))"
    using assms(4) i(1) a t m unfolding handleReviewFailure_def Let_def at_site_no_faults d1_def [symmetric] to_def
    by (auto split: prod.splits sum.splits if_splits)
  have "progress_of d1 = progress_of d" using s1 by (simp add: same_progress_def)
  then show ?thesis
    using m i(3) body unfolding to_def [symmetric]
    by (intro conjI exI [of _ ev] exI [of _ d2] exI [of _ d3] exI [of _ s3] a) auto
qed

context redis_server
begin

lemma acquire_when_absent:
  assumes "view s (lease_key repo branch) = Absent" and "key_part repo" and "key_part branch" and "0 < Milliseconds ttl"
    and "\<bar>UnixMilli now\<bar> \<le> 9007199254740992"
  obtains l s1 where "AcquireWithTTL api no_rfaults now repo branch h ttl s = (Inr l, s1)"
    "l_Repo l = repo" "l_Branch l = branch" "l_HolderID l = h"
proof -
  have "\<exists>l s1. AcquireWithTTL api no_rfaults now repo branch h ttl s = (Inr l, s1) \<and> l_Repo l = repo \<and> l_Branch l = branch \<and>
      l_HolderID l = h"
    using assms(2,3) by (simp add: AcquireWithTTL_def acquire_absent(1) [OF assms(1,4,5)])
  then show thesis using that by blast
qed

text \<open>Everything between the transition to \<open>cli_reviewing\<close> and the handlers.\<close>

lemma review_branch_frame:
  assumes "list_all (undisturbed view repo branch bid) ms" and "ID rec = bid" and "l_Repo lease = repo" and "l_Branch lease = branch"
    and "0 < cfg_heartbeat_interval (r_cfg r)"
    and "review_branch pu api rf no_faults clock uuid ms r rec repo branch lease s d = (res, s', d')"
    and "k \<in> {queue_key repo, seq_key repo branch}"
  shows "res = Inr () \<and> view s' k = view s k \<and> progress_of (core d') bid = progress_of (core d) bid \<and>
    (schema_ok (core d) \<longrightarrow> schema_ok (core d'))"
proof -
  let ?cfg = "\<lparr>Interval = cfg_heartbeat_interval (r_cfg r), LeaseTTL = cfg_lease_ttl (r_cfg r), MaxMisses = 3\<rparr>"
  obtain hb where hb: "StartHeartbeat (Some lease) ?cfg = Inr hb" using assms(5) by (auto simp: StartHeartbeat_def)
  define d1 where "d1 = attachSessionAssignment pu no_faults (clock ''attach'') uuid r repo branch d"
  define d2 where "d2 = (if r_agent_id r \<noteq> ''''
      then snd (lift_core (UpdateOwnerAgent no_faults (truncate_second (clock ''owner'')) repo branch (r_agent_id r)) d1) else d1)"
  define d3 where "d3 = snd (lift_core (UpdateLeaseInfo no_faults (truncate_second (clock ''lease info'')) (ID rec)
      (l_HolderID lease) (l_ExpiresAt lease)) d2)"
  define d4 where "d4 = snd (lift_core (CreateReviewRun no_faults (truncate_second (clock ''create run'')) (uuid ''run'') repo branch
      (HeadHash rec) (r_provider_name r) ''running'' (Some (clock ''started''))) d3)"
  have p1: "same_progress (core d) (core d1)" unfolding d1_def by (rule attach_progress)
  have p2: "same_progress (core d1) (core d2)" unfolding d2_def using progress_ops(1) by simp
  have p3: "same_progress (core d2) (core d3)" unfolding d3_def lift_core_snd by (rule progress_ops(2))
  have p4: "same_progress (core d3) (core d4)" unfolding d4_def lift_core_snd by (rule progress_runs(1))
  have p: "same_progress (core d) (core d4)" using p1 p2 p3 p4 by (blast intro: same_progress_trans)
  obtain hb5 s5 d5 where t: "review_time api ms hb s d4 = (hb5, s5, d5)" using prod_cases3 by blast
  note st = Start_inv [OF hb, unfolded assms(3,4)]
  have f: "hb_for repo branch (l_HolderID lease) hb5 \<and> view s5 k = view s k \<and>
      progress_of (core d5) bid = progress_of (core d4) bid \<and> (schema_ok (core d4) \<longrightarrow> schema_ok (core d5))"
    using review_time_frame [OF assms(1) _ _ t assms(7) lease_key_apart] st by blast
  have s': "s' = snd (Stop api (at_site ''stop'' rf) (clock ''stop'') hb5 s5)" and res: "res = Inr ()"
    and d': "d' = snd (lift_core (ClearLeaseInfo no_faults (truncate_second (clock ''clear'')) (ID rec)) d5)"
    using assms(6) t unfolding review_branch_def Let_def at_site_no_faults d1_def [symmetric] d2_def [symmetric] d3_def [symmetric]
      d4_def [symmetric] hb sum.case by (auto split: prod.splits)
  have "view s' k = view s5 k"
    unfolding s' using f assms(7) lease_key_apart by (intro Stop_frame) auto
  moreover have "same_progress (core d5) (core d')"
    unfolding d' lift_core_snd by (rule progress_ops(3))
  ultimately show ?thesis using p f res by (simp add: same_progress_def)
qed

end

lemma get_branch_row:
  assumes "schema_ok d" and "r \<in> set (branch_states d)" and "at_branch repo branch r"
  shows "GetBranch no_faults repo branch d = Inr (scan_row r)"
proof -
  have "find (at_branch repo branch) (branch_states d) = Some r"
    using assms find_distinct_key [of branch_key "branch_states d" r]
    by (auto simp: schema_ok_def at_branch_key cong: find_cong_pred)
  then show ?thesis by (simp add: GetBranch_def scanBranch_def sql_row_def)
qed

lemma progress_row: "schema_ok d \<Longrightarrow> r \<in> set (branch_states d) \<Longrightarrow> progress_of d (b_id r) = Some (b_state r, b_retry_count r)"
  by (simp add: progress_of_def sql_row_def schema_ok_find_id)

lemma transition_schema:
  assumes "TransitionBranch lib flt t bid st to trig d = (res, d')" and "fsm_library lib" and "schema_ok d"
  shows "schema_ok d'"
  using TransitionBranch_cases [OF assms(1,2)] assms(3)
  by (auto intro!: schema_ok_apply_transition simp: branch_frame_def branch_key_def)

context redis_server
begin

text \<open>The entry a failed review leaves in the queue.\<close>

lemma requeued_member:
  assumes "not_str (view s (queue_key repo))" and "counter_at view s (seq_key repo branch) c" and "0 \<le> c" and "c < MaxInt64"
    and "key_part repo"
    and "AppendSystem api no_rfaults no_faults now repo branch h marshal reason details s d = (ev, s3, d3)"
  shows "branch \<in> fst ` set (zset_of (view (snd (Release api no_rfaults repo branch hid
      (snd (Enqueue api no_rfaults (queue_entry repo branch x) s3)))) (queue_key repo)))"
proof -
  have q: "view s3 (queue_key repo) = view s (queue_key repo)"
    by (rule append_redis_frame [OF assms(2-5) queue_not_seq assms(6) [unfolded AppendSystem_def]])
  have "branch \<in> fst ` set (zset_of (view (snd (Enqueue api no_rfaults (queue_entry repo branch x) s3)) (queue_key repo)))"
    using enqueue_effect(2) [of "queue_entry repo branch x" s3] assms(1,5) q by (auto simp: queue_entry_def)
  then show ?thesis using Release_frame [of "queue_key repo" repo branch] lease_key_apart by simp
qed

lemma dispatch_free:
  assumes "fsm_library lib" and "schema_ok (core d)" and "b \<in> set (branch_states (core d))"
    and "at_branch repo branch b" and "b_state b = StateQueuedCLI" and "key_part repo" and "key_part branch"
    and "not_str (view s (queue_key repo))" and "counter_at view s (seq_key repo branch) c" and "0 \<le> c" and "c < MaxInt64"
    and "0 < cfg_heartbeat_interval (r_cfg r)" and "list_all (undisturbed view repo branch (b_id b)) ms"
    and "AcquireWithTTL api no_rfaults (clock ''acquire'') repo branch (''runner-'' @ uuid ''holder'') (cfg_lease_ttl (r_cfg r)) s = (Inr l, s1)"
    and "l_Repo l = repo" and "l_Branch l = branch" and "l_HolderID l = ''runner-'' @ uuid ''holder''"
    and "processEntry pu lib api no_rfaults no_faults clock uuid marshal mb review ms r repo branch s d = (res, s', d')"
  shows "res = Inr () \<and> (case review \<lparr>rq_repo = repo, rq_branch = branch, rq_head_hash = b_head_hash b\<rparr> of
          Inr raws \<Rightarrow> progress_of (core d') (b_id b) = Some (StateReviewApproved, b_retry_count b)
        | Inl err \<Rightarrow>
            if b_max_retries b \<le> b_retry_count b + 1
            then progress_of (core d') (b_id b) = Some (StateBlocked, b_retry_count b + 1)
            else progress_of (core d') (b_id b) = Some (StateQueuedCLI, b_retry_count b + 1) \<and>
              branch \<in> fst ` set (zset_of (view s' (queue_key repo))))"
proof -
  let ?h = "''runner-'' @ uuid ''holder''" and ?rec = "scan_row b"
  obtain x c1 where t: "TransitionBranch lib no_faults (truncate_second (clock ''dispatch'')) (b_id b) StateQueuedCLI StateCLIReviewing
      ''runner_dispatch'' (core d) = (x, c1)" by fastforce
  have "ValidateTransition StateQueuedCLI StateCLIReviewing = None" by code_simp
  then have c1: "x = Inr ()" "progress_of c1 (b_id b) = Some (StateCLIReviewing, b_retry_count b)"
    using progress_transition [OF assms(1) same_progress_refl assms(2) _ _ t] progress_row [OF assms(2,3)] assms(5) by auto
  define d1 where "d1 = d\<lparr>core := c1\<rparr>"
  have d1: "schema_ok (core d1)" "progress_of (core d1) (b_id b) = Some (StateCLIReviewing, b_retry_count b)"
    using transition_schema [OF t assms(1,2)] c1 by (simp_all add: d1_def)
  have lift: "lift_core (TransitionBranch lib no_faults (truncate_second (clock ''dispatch'')) (b_id b) StateQueuedCLI StateCLIReviewing
      ''runner_dispatch'') d = (Inr (), d1)" using t c1(1) by (simp add: lift_core_def d1_def)
  obtain y s2 d2 where rb: "review_branch pu api no_rfaults no_faults clock uuid ms r ?rec repo branch l s1 d1 = (y, s2, d2)"
    using prod_cases3 by blast
  have fr: "y = Inr () \<and> view s2 k = view s k \<and> progress_of (core d2) (b_id b) = Some (StateCLIReviewing, b_retry_count b) \<and>
      schema_ok (core d2)" if "k \<in> {queue_key repo, seq_key repo branch}" for k
    using review_branch_frame [OF assms(13) _ assms(15,16,12) rb that] d1
      Acquire_frame [of k repo branch no_rfaults "clock ''acquire''" ?h "cfg_lease_ttl (r_cfg r)" s] assms(14) that lease_key_apart
    by auto
  have run: "processEntry pu lib api no_rfaults no_faults clock uuid marshal mb review ms r repo branch s d =
      (case (case review \<lparr>rq_repo = repo, rq_branch = branch, rq_head_hash = b_head_hash b\<rparr> of
         Inl reviewErr \<Rightarrow> handleReviewFailure lib api no_rfaults no_faults clock marshal ?rec repo branch ?h (uuid ''run'') reviewErr s2 (core d2)
       | Inr raws \<Rightarrow> handleReviewSuccess lib api no_rfaults no_faults clock uuid mb r ?rec repo branch ?h (uuid ''run'') raws s2 (core d2)) of
        (res, s3, c3) \<Rightarrow> (res, s3, d2\<lparr>core := c3\<rparr>))"
    unfolding processEntry_def Let_def at_site_no_faults at_site_no_rfaults get_branch_row [OF assms(2-4)]
    using assms(5,14) lift rb fr [of "queue_key repo"] by simp
  have at2: "not_str (view s2 (queue_key repo))" "counter_at view s2 (seq_key repo branch) c"
    using fr assms(8,9) by (auto simp: counter_at_def)
  show ?thesis
  proof (cases "review \<lparr>rq_repo = repo, rq_branch = branch, rq_head_hash = b_head_hash b\<rparr>")
    case (Inr raws)
    obtain z s3 c3 where h: "handleReviewSuccess lib api no_rfaults no_faults clock uuid mb r ?rec repo branch ?h (uuid ''run'') raws s2 (core d2) =
        (z, s3, c3)" using prod_cases3 by blast
    show ?thesis
      using success_outcome [OF assms(1) _ _ h] fr [of "queue_key repo"] run Inr h assms(18) by auto
  next
    case (Inl err)
    obtain z s3 c3 where h: "handleReviewFailure lib api no_rfaults no_faults clock marshal ?rec repo branch ?h (uuid ''run'') err s2 (core d2) =
        (z, s3, c3)" using prod_cases3 by blast
    have out: "z = Inr () \<and> progress_of c3 (b_id b) =
          Some (if b_max_retries b \<le> b_retry_count b + 1 then StateBlocked else StateQueuedCLI, b_retry_count b + 1)"
      and ex: "\<exists>ev e2 e3 s4. AppendSystem api no_rfaults no_faults (clock ''event'') repo branch (b_head_hash b) marshal ''review_failed''
          (''retry_count='' @ FormatInt (b_retry_count b + 1) @ '' error='' @ err) s2 e2 = (ev, s4, e3) \<and>
        s3 = snd (Release api no_rfaults repo branch ?h (if b_max_retries b \<le> b_retry_count b + 1 then s4
          else snd (Enqueue api no_rfaults (queue_entry repo branch (real_of_int (b_queue_priority b))) s4)))"
      using failure_outcome [OF assms(1) _ _ h, of "b_retry_count b", unfolded at_site_no_rfaults scan_row_sel]
        fr [of "queue_key repo"] by blast+
    have "branch \<in> fst ` set (zset_of (view s3 (queue_key repo)))" if lt: "\<not> b_max_retries b \<le> b_retry_count b + 1"
    proof -
      obtain ev e2 e3 s4 where a: "AppendSystem api no_rfaults no_faults (clock ''event'') repo branch (b_head_hash b) marshal ''review_failed''
          (''retry_count='' @ FormatInt (b_retry_count b + 1) @ '' error='' @ err) s2 e2 = (ev, s4, e3)"
        and s3: "s3 = snd (Release api no_rfaults repo branch ?h
          (snd (Enqueue api no_rfaults (queue_entry repo branch (real_of_int (b_queue_priority b))) s4)))"
        using ex unfolding if_not_P [OF lt] by blast
      show ?thesis unfolding s3 by (rule requeued_member [OF at2 assms(10,11,6) a])
    qed
    then show ?thesis
      using out fr [of "queue_key repo"] run Inl h assms(18) by auto
  qed
qed

end

section \<open>Property of a dispatch\<close>

text \<open>
  C16: a dispatched review ends where it should. When the stores answer, the lease is free and other
  workers leave the branch alone, a queued branch is reviewed and then approved when the provider
  succeeds, or its retry count goes up by one and it is blocked at the limit and otherwise queued again with an entry in the
  queue, whatever the heartbeat does meanwhile. A branch that is not queued, and one whose lease is held,
  are left as they are.
\<close>

theorem review_dispatch_outcome:
  assumes "redis_server api view" and "fsm_library lib" and "schema_ok (core d)" and "b \<in> set (branch_states (core d))"
    and "at_branch repo branch b" and "key_part repo" and "key_part branch"
    and "not_str (view s (queue_key repo))" and "counter_at view s (seq_key repo branch) c" and "0 \<le> c" and "c < MaxInt64"
    and "0 < Milliseconds (cfg_lease_ttl (r_cfg r))" and "0 < cfg_heartbeat_interval (r_cfg r)"
    and "\<bar>UnixMilli (clock ''acquire'')\<bar> \<le> 9007199254740992"
    and "list_all (undisturbed view repo branch (b_id b)) ms"
    and "processEntry pu lib api no_rfaults no_faults clock uuid marshal mb review ms r repo branch s d = (res, s', d')"
  shows "(b_state b \<noteq> StateQueuedCLI \<longrightarrow> res = Inr () \<and> s' = s \<and> d' = d) \<and>
    (b_state b = StateQueuedCLI \<and> (\<exists>h t. h \<noteq> ''runner-'' @ uuid ''holder'' \<and> held view s (lease_key repo branch) h t) \<longrightarrow>
       res = Inr () \<and> s' = s \<and> d' = d) \<and>
    (b_state b = StateQueuedCLI \<and> view s (lease_key repo branch) = Absent \<longrightarrow> res = Inr () \<and>
       (case review \<lparr>rq_repo = repo, rq_branch = branch, rq_head_hash = b_head_hash b\<rparr> of
          Inr raws \<Rightarrow> progress_of (core d') (b_id b) = Some (StateReviewApproved, b_retry_count b)
        | Inl err \<Rightarrow>
            if b_max_retries b \<le> b_retry_count b + 1
            then progress_of (core d') (b_id b) = Some (StateBlocked, b_retry_count b + 1)
            else progress_of (core d') (b_id b) = Some (StateQueuedCLI, b_retry_count b + 1) \<and>
              branch \<in> fst ` set (zset_of (view s' (queue_key repo)))))"
proof (cases "b_state b = StateQueuedCLI")
  case False
  then show ?thesis
    using assms(16) get_branch_row [OF assms(3-5)] by (simp add: processEntry_def)
next
  case True
  let ?h = "''runner-'' @ uuid ''holder''" and ?rec = "scan_row b"
  let ?acq = "AcquireWithTTL api no_rfaults (clock ''acquire'') repo branch ?h (cfg_lease_ttl (r_cfg r)) s"
  have held: "res = Inr () \<and> s' = s \<and> d' = d"
    if "h \<noteq> ?h" "held view s (lease_key repo branch) h t" for h t
    using assms(16) get_branch_row [OF assms(3-5)] True
      redis_server.held_refuses(1) [OF assms(1) that(2) that(1) [symmetric] assms(6,7)] by (simp add: processEntry_def Let_def)
  have free: "res = Inr () \<and> (case review \<lparr>rq_repo = repo, rq_branch = branch, rq_head_hash = b_head_hash b\<rparr> of
          Inr raws \<Rightarrow> progress_of (core d') (b_id b) = Some (StateReviewApproved, b_retry_count b)
        | Inl err \<Rightarrow>
            if b_max_retries b \<le> b_retry_count b + 1
            then progress_of (core d') (b_id b) = Some (StateBlocked, b_retry_count b + 1)
            else progress_of (core d') (b_id b) = Some (StateQueuedCLI, b_retry_count b + 1) \<and>
              branch \<in> fst ` set (zset_of (view s' (queue_key repo))))"
    if absent: "view s (lease_key repo branch) = Absent"
  proof -
    obtain l s1 where l: "?acq = (Inr l, s1)" "l_Repo l = repo" "l_Branch l = branch" "l_HolderID l = ?h"
      using redis_server.acquire_when_absent [OF assms(1) absent assms(6,7,12,14)] by metis
    show ?thesis
      by (rule redis_server.dispatch_free [OF assms(1-5) True assms(6-11,13,15) l assms(16)])
  qed
  show ?thesis using held free True by blast
qed

definition demo_runner :: ReviewRunner where
  "demo_runner = NewRunner (\<lambda>_. '''') (Inr '''') ''stub'' \<lparr>cfg_repos = [''acme/api''], cfg_poll_interval = 0, cfg_lease_ttl = 0,
     cfg_heartbeat_interval = 0, cfg_max_concurrent = 0\<rparr>"

lemma demo_queued_eval:
  "map (\<lambda>r. (b_id r, b_repo r, b_branch r, b_state r, b_retry_count r, b_max_retries r)) (branch_states demo_db) =
     [(''b1'', ''acme/api'', ''feat'', StateQueuedCLI, 0, 3)]"
  by code_simp

theorem review_dispatch_outcome_witness:
  "\<exists>s' d'. processEntry (\<lambda>_. False) list_fsm mem_api no_rfaults no_faults (\<lambda>_. 5 * Second) (\<lambda>n. n) (\<lambda>_ _. Inr '''') (\<lambda>_ _ _. Inr '''')
      StubProvider_Review [Pass no_rfaults (6 * Second) Tick] demo_runner ''acme/api'' ''feat'' (\<lambda>_. Absent)
      (empty_agent_db\<lparr>core := demo_db\<rparr>) = (Inr (), s', d') \<and> branch_of (core d') ''b1'' = Some StateReviewApproved"
proof -
  let ?d = "empty_agent_db\<lparr>core := demo_db\<rparr>" and ?s = "\<lambda>_. Absent :: entry"
  obtain b where b: "b \<in> set (branch_states demo_db)" "b_id b = ''b1''" "b_repo b = ''acme/api''" "b_branch b = ''feat''"
      "b_state b = StateQueuedCLI"
    using demo_queued_eval by (cases "branch_states demo_db") auto
  obtain res s' d' where p: "processEntry (\<lambda>_. False) list_fsm mem_api no_rfaults no_faults (\<lambda>_. 5 * Second) (\<lambda>n. n) (\<lambda>_ _. Inr '''')
      (\<lambda>_ _ _. Inr '''') StubProvider_Review [Pass no_rfaults (6 * Second) Tick] demo_runner ''acme/api'' ''feat'' ?s ?d = (res, s', d')"
    using prod_cases3 by blast
  have v: "mem_view ?s k = Absent" for k by (simp add: mem_view_def norm_entry_def)
  have "schema_ok demo_db" by code_simp
  then have hyps: "schema_ok (core ?d)" "b \<in> set (branch_states (core ?d))" "at_branch ''acme/api'' ''feat'' b"
    "key_part ''acme/api''" "key_part ''feat''" "not_str (mem_view ?s (queue_key ''acme/api''))"
    "counter_at mem_view ?s (seq_key ''acme/api'' ''feat'') 0"
    "0 < Milliseconds (cfg_lease_ttl (r_cfg demo_runner))" "0 < cfg_heartbeat_interval (r_cfg demo_runner)"
    "\<bar>UnixMilli (5 * Second)\<bar> \<le> 9007199254740992"
    using b by (simp_all add: at_branch_def key_part_def v not_str_def counter_at_def demo_runner_def NewRunner_def config_defaults_def
        Milliseconds_def UnixMilli_def)
  note th = review_dispatch_outcome [OF mem.redis_server_axioms listfsm.fsm_library_axioms hyps(1-7) _ _ hyps(8-10) _ p]
  have "res = Inr () \<and> progress_of (core d') (b_id b) = Some (StateReviewApproved, b_retry_count b)"
    using th b v by (simp add: StubProvider_Review_def)
  then show ?thesis using p b(2) by (auto simp: progress_branch_of)
qed

end
