(* ===== verification/Feedback.thy ===== *)
theory Feedback
  imports Normalizer "HOL-Library.Multiset" "HOL-Library.Sublist"
begin

text \<open>
  Feedback for an agent: the aggregation of \<open>internal/feedback/aggregator.go\<close>, and the sections,
  trimming and rendering of \<open>internal/delivery_pipeline/feedback_builder.go\<close> and \<open>writer.go\<close>. A
  Go string is the list of its bytes, so \<open>len\<close> is \<open>length\<close>; the dash of the truncation marker is three
  bytes of UTF-8.
\<close>

section \<open>Aggregation\<close>

record SourceSnapshot =
  ss_status :: string
  ss_blocking :: bool
  ss_body :: string

record AggregateInput =
  ai_ci :: "SourceSnapshot option"
  ai_coderabbit :: "SourceSnapshot option"
  ai_human :: "SourceSnapshot option"
  ai_compliance :: "SourceSnapshot option"

record AggregateSection =
  as_source :: string
  as_status :: string
  as_body :: string
  as_blocked :: bool

record AggregateResult =
  ag_sections :: "AggregateSection list"
  ag_context_block :: string
  ag_truncated :: bool
  ag_source_statuses :: "(string \<times> string) list"
  ag_cache_hash :: string

definition MaxContextBlockBytes :: nat where
  "MaxContextBlockBytes = 16000"

definition sourceStatus :: "SourceSnapshot option \<Rightarrow> string" where
  "sourceStatus snap =
     (case snap of
        None \<Rightarrow> ''not_configured''
      | Some s \<Rightarrow>
          if ss_status s = ''pending'' \<or> (ss_status s = '''' \<and> ss_body s = '''') then ''pending''
          else if ss_status s = ''error'' then ''error''
          else ''available'')"

definition precedenceKey :: "string \<Rightarrow> SourceSnapshot option \<Rightarrow> int" where
  "precedenceKey source snap =
     (if source = ''compliance'' then 1
      else if source = ''coderabbit'' then (case snap of Some s \<Rightarrow> if ss_blocking s then 2 else 5 | None \<Rightarrow> 5)
      else if source = ''ci'' then 3
      else if source = ''human'' then 4
      else 6)"

definition isBlocked :: "string \<Rightarrow> SourceSnapshot option \<Rightarrow> bool" where
  "isBlocked source snap \<longleftrightarrow>
     (case snap of
        None \<Rightarrow> False
      | Some s \<Rightarrow> ss_status s = ''failure'' \<or> ss_status s = ''changes_requested'' \<or> (source = ''coderabbit'' \<and> ss_blocking s))"

definition snapForSource :: "string \<Rightarrow> AggregateInput \<Rightarrow> SourceSnapshot option" where
  "snapForSource source input =
     (if source = ''ci'' then ai_ci input
      else if source = ''coderabbit'' then ai_coderabbit input
      else if source = ''human'' then ai_human input
      else if source = ''compliance'' then ai_compliance input
      else None)"

definition candidates :: "AggregateInput \<Rightarrow> (string \<times> SourceSnapshot option) list" where
  "candidates input = [(''ci'', ai_ci input), (''coderabbit'', ai_coderabbit input), (''human'', ai_human input),
     (''compliance'', ai_compliance input)]"

definition collect_sections :: "AggregateInput \<Rightarrow> AggregateSection list" where
  "collect_sections input =
     List.map_filter (\<lambda>(source, snap). case snap of
         None \<Rightarrow> None
       | Some s \<Rightarrow> if ss_body s = '''' \<and> ss_status s = '''' then None
           else Some \<lparr>as_source = source, as_status = ss_status s, as_body = ss_body s, as_blocked = isBlocked source snap\<rparr>)
       (candidates input)"

text \<open>
  The insertion sort: \<open>shift_down\<close> is the inner loop, which moves the sorted prefix (here reversed, its
  last element first) past the key while the precedence is larger; \<open>insertion_loop\<close> is the outer one.
\<close>

fun shift_down :: "('a \<Rightarrow> int) \<Rightarrow> 'a \<Rightarrow> 'a list \<Rightarrow> 'a list" where
  "shift_down prec key [] = [key]"
| "shift_down prec key (x # rev_prefix) =
     (if prec x > prec key then x # shift_down prec key rev_prefix else key # x # rev_prefix)"

fun insertion_loop :: "('a \<Rightarrow> int) \<Rightarrow> 'a list \<Rightarrow> 'a list \<Rightarrow> 'a list" where
  "insertion_loop prec rev_prefix [] = rev rev_prefix"
| "insertion_loop prec rev_prefix (key # rest) = insertion_loop prec (shift_down prec key rev_prefix) rest"

definition upper_char :: "char \<Rightarrow> char" where
  "upper_char c = (if 97 \<le> (of_char c :: nat) \<and> (of_char c :: nat) \<le> 122 then char_of ((of_char c :: nat) - 32) else c)"

definition newline :: string where
  "newline = [CHR 0x0A]"

definition context_block :: "AggregateSection list \<Rightarrow> string" where
  "context_block sections =
     concat (map (\<lambda>s. ''## ['' @ map upper_char (as_source s) @ ''] '' @ as_status s @ newline @ as_body s @ newline @ newline) sections)"

definition truncation_marker :: string where
  "truncation_marker = newline @ newline @ ''[truncated '' @ [CHR 0xE2, CHR 0x80, CHR 0x94] @
     '' feedback exceeded context window limit]'' @ newline"

text \<open>\<open>strings.LastIndex(s, nl)\<close> as a cut: the text before the last newline, when there is one after the first byte.\<close>

definition cut_last_line :: "string \<Rightarrow> string" where
  "cut_last_line s =
     (let front = rev (dropWhile (\<lambda>c. c \<noteq> CHR 0x0A) (rev s)) in if length front \<le> 1 then s else butlast front)"

definition truncate_block :: "string \<Rightarrow> string \<times> bool" where
  "truncate_block block =
     (if length block > MaxContextBlockBytes
      then (cut_last_line (take (MaxContextBlockBytes - length truncation_marker) block) @ truncation_marker, True)
      else (block, False))"

text \<open>\<open>hash\<close> stands for the first 16 hexadecimal digits of the SHA-256 of the input's JSON text.\<close>

definition AggregateFeedback :: "(AggregateInput \<Rightarrow> string) \<Rightarrow> AggregateInput \<Rightarrow> AggregateResult" where
  "AggregateFeedback hash input =
     (let sections = insertion_loop (\<lambda>s. precedenceKey (as_source s) (snapForSource (as_source s) input)) []
                       (collect_sections input)
      in case truncate_block (context_block sections) of (block, truncated) \<Rightarrow>
        \<lparr>ag_sections = sections, ag_context_block = block, ag_truncated = truncated,
         ag_source_statuses = [(''ci'', sourceStatus (ai_ci input)), (''coderabbit'', sourceStatus (ai_coderabbit input)),
           (''human'', sourceStatus (ai_human input)), (''compliance'', sourceStatus (ai_compliance input))],
         ag_cache_hash = hash input\<rparr>)"

section \<open>Sections of a feedback file\<close>

record FeedbackItem =
  it_file :: string
  it_line :: int
  it_message :: string

record FeedbackSource =
  fs_type :: string
  fs_findings :: "FeedbackItem list"

record FeedbackSection =
  se_title :: string
  se_source :: string
  se_items :: "FeedbackItem list"

record FeedbackPackage =
  fp_gate_findings :: "FeedbackItem list"
  fp_code_review :: "FeedbackItem list"
  fp_ci_failures :: "FeedbackItem list"
  fp_review_comments :: "FeedbackItem list"
  fp_sections :: "FeedbackSection list"
  fp_cache_hash :: string
  fp_truncated :: bool
  fp_generated_at :: gotime
  fp_skip_truncate :: bool

definition cleanFeedbackItems :: "FeedbackItem list \<Rightarrow> FeedbackItem list" where
  "cleanFeedbackItems items =
     List.map_filter (\<lambda>i. let msg = TrimSpace (it_message i) in if msg = '''' then None else Some (i\<lparr>it_message := msg\<rparr>)) items"

definition normalizeSourceType :: "string \<Rightarrow> string" where
  "normalizeSourceType source =
     (if source \<in> {''human'', ''coderabbit'', ''gate'', ''ci'', ''automated'', ''informational''} then source else ''informational'')"

definition sourceTitle :: "string \<Rightarrow> string" where
  "sourceTitle source =
     (if source = ''human'' then ''Review Comments'' else if source = ''coderabbit'' then ''Code Review''
      else if source = ''gate'' then ''Gate Findings'' else if source = ''ci'' then ''CI Failures''
      else if source = ''automated'' then ''Automated Feedback'' else ''Informational'')"

definition sourcePrecedence :: "string \<Rightarrow> int" where
  "sourcePrecedence source =
     (if source = ''human'' then 10 else if source = ''coderabbit'' then 20 else if source = ''gate'' then 25
      else if source = ''ci'' then 30 else if source = ''automated'' then 40 else 50)"

definition render_item :: "FeedbackItem \<Rightarrow> string" where
  "render_item i =
     (let line = TrimSpace (it_message i) in
      if line = '''' then ''''
      else ''- '' @ (if it_file i \<noteq> '''' then it_file i @ (if it_line i > 0 then '':'' @ FormatInt (it_line i) else '''') @ '': '' else '''')
             @ line @ newline)"

definition writeSection :: "string \<Rightarrow> FeedbackItem list \<Rightarrow> string" where
  "writeSection title items =
     ''## '' @ title @ newline @
     (if items = [] then ''- None'' @ newline @ newline else concat (map render_item items) @ newline)"

definition renderFeedbackSections :: "FeedbackSection list \<Rightarrow> string" where
  "renderFeedbackSections sections =
     ''# FEEDBACK'' @ newline @ newline @
     (if sections = [] then ''_No feedback available yet._'' @ newline
      else concat (map (\<lambda>s. writeSection (se_title s) (se_items s)) sections))"

definition buildFeedbackContent :: "FeedbackPackage \<Rightarrow> string" where
  "buildFeedbackContent fb =
     (if fp_sections fb \<noteq> [] then renderFeedbackSections (fp_sections fb)
      else ''# FEEDBACK'' @ newline @ newline @ writeSection ''Gate Findings'' (fp_gate_findings fb) @
        writeSection ''Code Review'' (fp_code_review fb) @ writeSection ''CI Failures'' (fp_ci_failures fb) @
        writeSection ''Review Comments'' (fp_review_comments fb))"

definition feedbackMaxSize :: "string \<Rightarrow> int" where
  "feedbackMaxSize env =
     (let raw = TrimSpace env in
      if raw \<noteq> '''' then (case ParseInt raw of Some n \<Rightarrow> if n > 0 then n else 32 * 1024 | None \<Rightarrow> 32 * 1024) else 32 * 1024)"

definition truncateFeedback :: "string \<Rightarrow> int \<Rightarrow> string" where
  "truncateFeedback content limit =
     (let notice = newline @ newline @ ''[truncated]'' @ newline in
      if limit \<le> 0 \<or> int (length content) \<le> limit then content
      else if limit \<le> int (length notice) then take (nat limit) notice
      else take (nat limit - length notice) content @ notice)"

text \<open>The last section that may be dropped: not a human review, not CodeRabbit.\<close>

fun last_index :: "('a \<Rightarrow> bool) \<Rightarrow> 'a list \<Rightarrow> nat option" where
  "last_index P [] = None"
| "last_index P (x # xs) = (case last_index P xs of Some i \<Rightarrow> Some (Suc i) | None \<Rightarrow> if P x then Some 0 else None)"

definition removable :: "FeedbackSection \<Rightarrow> bool" where
  "removable s \<longleftrightarrow> se_source s \<noteq> ''human'' \<and> se_source s \<noteq> ''coderabbit''"

definition removableSectionIndex :: "FeedbackSection list \<Rightarrow> nat option" where
  "removableSectionIndex sections = last_index removable sections"

lemma last_index_less: "last_index P xs = Some i \<Longrightarrow> i < length xs \<and> P (xs ! i)"
  by (induction xs arbitrary: i) (auto split: option.splits if_splits)

function trim_loop :: "int \<Rightarrow> FeedbackSection list \<Rightarrow> bool \<Rightarrow> FeedbackSection list \<times> bool" where
  "trim_loop limit trimmed truncated =
     (if trimmed = [] then (trimmed, truncated)
      else if int (length (renderFeedbackSections trimmed)) \<le> limit then (trimmed, truncated)
      else case removableSectionIndex trimmed of
        None \<Rightarrow> (trimmed, True)
      | Some i \<Rightarrow> trim_loop limit (take i trimmed @ drop (Suc i) trimmed) True)"
  by auto
termination
  by (relation "measure (\<lambda>(limit, trimmed, truncated). length trimmed)")
     (auto simp: removableSectionIndex_def dest!: last_index_less)

declare trim_loop.simps [simp del]

definition trimSectionsToSize :: "FeedbackSection list \<Rightarrow> int \<Rightarrow> FeedbackSection list \<times> bool" where
  "trimSectionsToSize sections limit = (if limit \<le> 0 then (sections, False) else trim_loop limit sections False)"

text \<open>\<open>sort.SliceStable\<close> by precedence and index: the entries come in index order, so it is the stable sort by precedence.\<close>

definition feedback_sections :: "FeedbackSource list \<Rightarrow> FeedbackSection list" where
  "feedback_sections sources =
     map (\<lambda>(ty, items). \<lparr>se_title = sourceTitle ty, se_source = ty, se_items = items\<rparr>)
       (sort_key (\<lambda>(ty, items). sourcePrecedence ty)
         (List.map_filter (\<lambda>src. let items = cleanFeedbackItems (fs_findings src)
            in if items = [] then None else Some (normalizeSourceType (fs_type src), items)) sources))"

definition items_of :: "string \<Rightarrow> FeedbackSection list \<Rightarrow> FeedbackItem list" where
  "items_of source sections = concat (map se_items (filter (\<lambda>s. se_source s = source) sections))"

definition BuildFeedback :: "gotime \<Rightarrow> string \<Rightarrow> FeedbackSource list \<Rightarrow> FeedbackPackage option" where
  "BuildFeedback now env sources =
     (let sections = feedback_sections sources in
      if sections = [] then None
      else case trimSectionsToSize sections (feedbackMaxSize env) of (trimmed, truncated) \<Rightarrow>
        Some \<lparr>fp_gate_findings = items_of ''gate'' trimmed, fp_code_review = items_of ''coderabbit'' trimmed,
          fp_ci_failures = items_of ''ci'' trimmed, fp_review_comments = items_of ''human'' trimmed,
          fp_sections = trimmed, fp_cache_hash = '''', fp_truncated = truncated, fp_generated_at = now,
          fp_skip_truncate = True\<rparr>)"

text \<open>The text that \<open>WriteFEEDBACK\<close> puts into the file, and the package it stores beside it.\<close>

definition WriteFEEDBACK :: "gotime \<Rightarrow> string \<Rightarrow> string \<Rightarrow> FeedbackPackage \<Rightarrow> error + string \<times> FeedbackPackage" where
  "WriteFEEDBACK now env worktree fb0 =
     (if TrimSpace worktree = '''' then Inl (OtherError ''write feedback: worktree is required'')
      else let fb = (if fp_generated_at fb0 = zero_time then fb0\<lparr>fp_generated_at := now\<rparr> else fb0);
               content = buildFeedbackContent fb; maxSize = feedbackMaxSize env
      in if \<not> fp_skip_truncate fb \<and> maxSize > 0 \<and> int (length content) > maxSize
         then Inr (truncateFeedback content maxSize, fb\<lparr>fp_truncated := True\<rparr>)
         else Inr (content, fb))"

section \<open>The insertion sort is the stable sort by precedence\<close>

lemma shift_down_set [simp]: "set (shift_down prec key xs) = insert key (set xs)"
  by (induction xs) auto

lemma shift_down_filter:
  "filter (\<lambda>x. prec x = k) (shift_down prec key xs) = (if prec key = k then [key] else []) @ filter (\<lambda>x. prec x = k) xs"
  if "sorted (map prec (rev xs))"
  using that
proof (induction xs)
  case (Cons x xs)
  have "\<forall>y\<in>set xs. prec y \<le> prec x" using Cons.prems by (auto simp: sorted_append)
  then show ?case using Cons by (auto simp: sorted_append)
qed simp

lemma shift_down_sorted: "sorted (map prec (rev xs)) \<Longrightarrow> sorted (map prec (rev (shift_down prec key xs)))"
proof (induction xs)
  case (Cons x xs)
  then show ?case by (auto simp: sorted_append)
qed simp

lemma shift_down_mset: "mset (shift_down prec key xs) = add_mset key (mset xs)"
  by (induction xs) auto

lemma insertion_loop_props:
  assumes "sorted (map prec (rev acc))"
  shows "sorted (map prec (insertion_loop prec acc xs)) \<and> mset (insertion_loop prec acc xs) = mset acc + mset xs \<and>
    (\<forall>k. filter (\<lambda>x. prec x = k) (insertion_loop prec acc xs) = filter (\<lambda>x. prec x = k) (rev acc @ xs))"
  using assms
proof (induction xs arbitrary: acc)
  case (Cons x xs)
  have "filter (\<lambda>y. prec y = k) (rev (shift_down prec x acc)) = filter (\<lambda>y. prec y = k) (rev acc @ [x])" for k
    by (simp add: rev_filter [symmetric] shift_down_filter [OF Cons.prems])
  then show ?case
    using Cons.IH [OF shift_down_sorted [OF Cons.prems]] by (simp add: shift_down_mset)
qed (simp add: mset_rev)

lemma insertion_loop_sort: "insertion_loop prec [] xs = sort_key prec xs"
proof -
  note p = insertion_loop_props [of prec "[]" xs]
  have "filter (\<lambda>x. prec k = prec x) (insertion_loop prec [] xs) = filter (\<lambda>x. prec k = prec x) xs" for k
    using p by (simp add: eq_commute [of "prec k"])
  then show ?thesis
    using p by (intro properties_for_sort_key [symmetric]) auto
qed

lemma cut_last_line_prefix: "\<exists>r. s = cut_last_line s @ r"
proof -
  let ?front = "rev (dropWhile (\<lambda>c. c \<noteq> CHR 0x0A) (rev s))"
  have s: "s = ?front @ rev (takeWhile (\<lambda>c. c \<noteq> CHR 0x0A) (rev s))"
    by (metis rev_append rev_rev_ident takeWhile_dropWhile_id)
  have "?front = butlast ?front @ drop (length ?front - 1) ?front"
    by (simp add: butlast_conv_take)
  then have "\<exists>r. s = butlast ?front @ r"
    using s by (metis append.assoc)
  then show ?thesis
    by (auto simp: cut_last_line_def Let_def)
qed

lemma truncation_marker_length: "length truncation_marker = 57"
  by (simp add: truncation_marker_def newline_def)

lemma truncate_block_bound:
  assumes "truncate_block block = (out, truncated)"
  shows "length out \<le> MaxContextBlockBytes \<and> (truncated \<longleftrightarrow> length block > MaxContextBlockBytes) \<and>
    (if truncated then \<exists>pre rest. block = pre @ rest \<and> out = pre @ truncation_marker else out = block)"
proof (cases "length block > MaxContextBlockBytes")
  case True
  let ?t = "take (MaxContextBlockBytes - length truncation_marker) block"
  obtain r where r: "?t = cut_last_line ?t @ r" using cut_last_line_prefix by blast
  have "block = cut_last_line ?t @ r @ drop (MaxContextBlockBytes - length truncation_marker) block"
    using r by (metis append.assoc append_take_drop_id)
  moreover have "length (cut_last_line ?t) \<le> MaxContextBlockBytes - 57"
    using arg_cong [OF r, of length] by (simp add: truncation_marker_length)
  ultimately show ?thesis
    using assms True by (auto simp: truncate_block_def truncation_marker_length MaxContextBlockBytes_def)
qed (use assms in \<open>auto simp: truncate_block_def\<close>)

section \<open>Trimming\<close>

lemma remove_index_filter:
  "last_index P xs = Some i \<Longrightarrow> filter (\<lambda>x. \<not> P x) (take i xs @ drop (Suc i) xs) = filter (\<lambda>x. \<not> P x) xs \<and>
   subseq (take i xs @ drop (Suc i) xs) xs"
  by (induction xs arbitrary: i) (auto split: option.splits if_splits)

lemma last_index_None: "last_index P xs = None \<longleftrightarrow> (\<forall>x\<in>set xs. \<not> P x)"
  by (induction xs) (auto split: option.splits)

lemma trim_loop_props:
  "trim_loop limit secs tr = (out, tr') \<Longrightarrow>
   subseq out secs \<and> filter (\<lambda>s. \<not> removable s) out = filter (\<lambda>s. \<not> removable s) secs \<and>
   (out = [] \<or> int (length (renderFeedbackSections out)) \<le> limit \<or> (\<forall>s\<in>set out. \<not> removable s)) \<and>
   (tr' \<longleftrightarrow> tr \<or> out \<noteq> secs \<or> (out \<noteq> [] \<and> limit < int (length (renderFeedbackSections out)))) \<and>
   (int (length (renderFeedbackSections secs)) \<le> limit \<longrightarrow> out = secs)"
proof (induction limit secs tr rule: trim_loop.induct)
  case (1 limit secs tr)
  show ?case
  proof (cases "secs = [] \<or> int (length (renderFeedbackSections secs)) \<le> limit \<or> removableSectionIndex secs = None")
    case True
    have "\<forall>s\<in>set secs. \<not> removable s" if "removableSectionIndex secs = None"
      using that by (simp add: removableSectionIndex_def last_index_None)
    with True show ?thesis
      using "1.prems" by (subst (asm) trim_loop.simps) (auto split: if_splits)
  next
    case False
    then obtain i where i: "removableSectionIndex secs = Some i" by auto
    let ?secs = "take i secs @ drop (Suc i) secs"
    have rec: "trim_loop limit ?secs True = (out, tr')"
      using "1.prems" False i by (subst (asm) trim_loop.simps) simp
    have f: "filter (\<lambda>s. \<not> removable s) ?secs = filter (\<lambda>s. \<not> removable s) secs" "subseq ?secs secs"
      using remove_index_filter [OF i [unfolded removableSectionIndex_def]] by auto
    have "length ?secs < length secs"
      using last_index_less [OF i [unfolded removableSectionIndex_def]] by auto
    moreover have "subseq out ?secs" and ih: "filter (\<lambda>s. \<not> removable s) out = filter (\<lambda>s. \<not> removable s) ?secs"
      "out = [] \<or> int (length (renderFeedbackSections out)) \<le> limit \<or> (\<forall>s\<in>set out. \<not> removable s)" "tr'"
      using "1.IH" [OF _ _ i rec] False by auto
    moreover have "length out \<le> length ?secs" using \<open>subseq out ?secs\<close> by (rule list_emb_length)
    ultimately have "out \<noteq> secs" and "subseq out secs"
      using f(2) by (auto intro: subseq_order.order_trans)
    then show ?thesis using ih f(1) False by auto
  qed
qed

lemma subseq_sorted: "subseq xs ys \<Longrightarrow> sorted (map f ys) \<Longrightarrow> sorted (map f xs)"
proof (induction rule: list_emb.induct)
  case (list_emb_Cons2 x y xs ys)
  then have "set xs \<subseteq> set ys" using list_emb_set [of "(=)" xs ys] by blast
  then show ?case using list_emb_Cons2 by auto
qed auto

section \<open>Properties\<close>

definition has_content :: "SourceSnapshot option \<Rightarrow> bool" where
  "has_content snap \<longleftrightarrow> (case snap of None \<Rightarrow> False | Some s \<Rightarrow> ss_body s \<noteq> '''' \<or> ss_status s \<noteq> '''')"

lemma collect_sources:
  "map as_source (collect_sections input) =
     filter (\<lambda>src. has_content (snapForSource src input)) [''ci'', ''coderabbit'', ''human'', ''compliance'']"
  by (simp add: collect_sections_def candidates_def map_filter_simps has_content_def snapForSource_def
      split: option.split)

text \<open>
  C17: the aggregated feedback is complete, ordered and bounded. Every source with content gives exactly one section,
  the hand-written insertion sort is the stable sort by precedence, and the text never exceeds 16000 bytes:
  it is the whole text when that fits, and otherwise a beginning of it with the truncation marker.
\<close>

theorem aggregate_feedback_correct:
  "let res = AggregateFeedback hash input;
       prec = (\<lambda>s. precedenceKey (as_source s) (snapForSource (as_source s) input));
       full = context_block (sort_key prec (collect_sections input))
   in ag_sections res = sort_key prec (collect_sections input) \<and>
      mset (map as_source (ag_sections res)) =
        mset (filter (\<lambda>src. has_content (snapForSource src input)) [''ci'', ''coderabbit'', ''human'', ''compliance'']) \<and>
      sorted (map prec (ag_sections res)) \<and>
      length (ag_context_block res) \<le> MaxContextBlockBytes \<and>
      (ag_truncated res \<longleftrightarrow> length full > MaxContextBlockBytes) \<and>
      (if ag_truncated res then \<exists>pre rest. full = pre @ rest \<and> ag_context_block res = pre @ truncation_marker
       else ag_context_block res = full)"
proof -
  let ?prec = "\<lambda>s. precedenceKey (as_source s) (snapForSource (as_source s) input)"
  let ?secs = "sort_key ?prec (collect_sections input)"
  obtain block tr where t: "truncate_block (context_block ?secs) = (block, tr)" by fastforce
  have r: "ag_sections (AggregateFeedback hash input) = ?secs" "ag_context_block (AggregateFeedback hash input) = block"
    "ag_truncated (AggregateFeedback hash input) = tr"
    using t by (simp_all add: AggregateFeedback_def insertion_loop_sort Let_def)
  have "mset (map as_source ?secs) = mset (map as_source (collect_sections input))" by simp
  then show ?thesis
    unfolding Let_def r collect_sources using truncate_block_bound [OF t] sorted_sort_key by blast
qed


definition demo_sources :: "FeedbackSource list" where
  "demo_sources =
    [\<lparr>fs_type = ''ci'', fs_findings = [\<lparr>it_file = ''a.go'', it_line = 3, it_message = ''build failed''\<rparr>]\<rparr>,
     \<lparr>fs_type = ''human'', fs_findings = [\<lparr>it_file = '''', it_line = 0, it_message = '' rename this ''\<rparr>]\<rparr>]"


end
