(* ===== verification/Reconciler.thy ===== *)
theory Reconciler
  imports Review_Store Feedback Expiry
begin

text \<open>
  The reconciler, \<open>internal/webhook/reconciler.go\<close>, with the delivery of cached feedback into worktrees,
  \<open>feedback_push.go\<close>. GitHub, the file system and the JSON decoder are parameters (the record
  \<open>outside\<close>). The calls to the outside are collected in a trace, each with the database it was made on;
  \<open>others\<close> is what concurrent workers did to the database before a branch is taken up and before the
  reload that precedes a merge. Logging, the ticker of \<open>Run\<close> and the probe status are left out.
\<close>

section \<open>The outside\<close>

record GitHubState =
  gh_repo :: string
  gh_branch :: string
  gh_head_hash :: string
  gh_pr_number :: int
  gh_pr_open :: bool
  gh_approved :: bool
  gh_ci_green :: bool
  gh_pending_events :: int
  gh_unresolved_threads :: int

definition StubGitHubClient_GetPRState :: "string \<Rightarrow> string \<Rightarrow> error + GitHubState option" where
  "StubGitHubClient_GetPRState repo branch =
     Inr (Some \<lparr>gh_repo = repo, gh_branch = branch, gh_head_hash = '''', gh_pr_number = 0, gh_pr_open = True,
       gh_approved = False, gh_ci_green = False, gh_pending_events = 0, gh_unresolved_threads = 0\<rparr>)"

text \<open>The fields of the last JSON shape \<open>parseFeedbackItems\<close> tries.\<close>

record single_item =
  si_message :: string
  si_body :: string
  si_summary :: string
  si_status :: string
  si_file :: string
  si_line :: int

record json_decoder =
  as_items :: "string \<Rightarrow> FeedbackItem list option"
  as_findings :: "string \<Rightarrow> Finding list option"
  as_strings :: "string \<Rightarrow> string list option"
  as_item_envelope :: "string \<Rightarrow> FeedbackItem list option"
  as_finding_envelope :: "string \<Rightarrow> Finding list option"
  as_single :: "string \<Rightarrow> single_item option"

record outside =
  get_pr_state :: "string \<Rightarrow> string \<Rightarrow> error + GitHubState option"
  merger :: "(string \<Rightarrow> int \<Rightarrow> string \<Rightarrow> string \<Rightarrow> bool) option"
  merge_method :: string
  current_json :: "string \<Rightarrow> error + string"
  can_write :: "string \<Rightarrow> bool"
  max_size_env :: string
  json :: json_decoder

definition WithAutoMerge ::
  "(string \<Rightarrow> int \<Rightarrow> string \<Rightarrow> string \<Rightarrow> bool) option \<Rightarrow> string \<Rightarrow> outside \<Rightarrow> outside" where
  "WithAutoMerge m method w = w\<lparr>merger := m, merge_method := (if method = '''' then ''squash'' else method)\<rparr>"

datatype outside_call =
    MergePR string int string string
  | WroteFeedback string string
  | Notify string string string

type_synonym call_trace = "(outside_call \<times> review_db) list"

definition lift_branches :: "(db \<Rightarrow> (error + 'a) \<times> db) \<Rightarrow> review_db \<Rightarrow> (error + 'a) \<times> review_db" where
  "lift_branches f d = (case f (core (agents d)) of (r, c) \<Rightarrow> (r, d\<lparr>agents := (agents d)\<lparr>core := c\<rparr>\<rparr>))"

definition lift_agents :: "(agent_db \<Rightarrow> (error + 'a) \<times> agent_db) \<Rightarrow> review_db \<Rightarrow> (error + 'a) \<times> review_db" where
  "lift_agents f d = (case f (agents d) of (r, a) \<Rightarrow> (r, d\<lparr>agents := a\<rparr>))"

section \<open>Feedback from the cache\<close>

definition feedbackItemsFromFindings :: "Finding list \<Rightarrow> FeedbackItem list" where
  "feedbackItemsFromFindings fs =
     List.map_filter (\<lambda>f. let msg = TrimSpace (f_message f) in
       if msg = '''' then None else Some \<lparr>it_file = f_file f, it_line = f_line f, it_message = msg\<rparr>) fs"

definition feedbackItemsFromStrings :: "string list \<Rightarrow> FeedbackItem list" where
  "feedbackItemsFromStrings messages =
     List.map_filter (\<lambda>m. let msg = TrimSpace m in
       if msg = '''' then None else Some \<lparr>it_file = '''', it_line = 0, it_message = msg\<rparr>) messages"

definition nonempty_list :: "'a list option \<Rightarrow> 'a list option" where
  "nonempty_list xs = (case xs of Some (y # ys) \<Rightarrow> Some (y # ys) | _ \<Rightarrow> None)"

definition single_items :: "single_item \<Rightarrow> FeedbackItem list option" where
  "single_items single =
     (let m1 = TrimSpace (si_message single);
          m2 = (if m1 = '''' then TrimSpace (si_body single) else m1);
          m3 = (if m2 = '''' then TrimSpace (si_summary single) else m2);
          status = ToLower (TrimSpace (si_status single))
      in if m3 = '''' \<and> status \<in> {''success'', ''pass'', ''approved'', ''neutral'', ''skipped''} then Some []
         else let msg = (if m3 = '''' then status else m3)
         in if msg \<noteq> '''' then Some [\<lparr>it_file = TrimSpace (si_file single), it_line = si_line single, it_message = msg\<rparr>] else None)"

definition parseFeedbackItems :: "json_decoder \<Rightarrow> string \<Rightarrow> FeedbackItem list" where
  "parseFeedbackItems j raw0 =
     (let raw = TrimSpace raw0 in
      if raw = '''' then []
      else case nonempty_list (as_items j raw) of Some items \<Rightarrow> items
      | None \<Rightarrow> (case nonempty_list (as_findings j raw) of Some fs \<Rightarrow> feedbackItemsFromFindings fs
      | None \<Rightarrow> (case nonempty_list (as_strings j raw) of Some ss \<Rightarrow> feedbackItemsFromStrings ss
      | None \<Rightarrow> (case nonempty_list (as_item_envelope j raw) of Some items \<Rightarrow> items
      | None \<Rightarrow> (case nonempty_list (as_finding_envelope j raw) of Some fs \<Rightarrow> feedbackItemsFromFindings fs
      | None \<Rightarrow> (case Option.bind (as_single j raw) single_items of Some items \<Rightarrow> items
      | None \<Rightarrow> [\<lparr>it_file = '''', it_line = 0, it_message = raw\<rparr>]))))))"

definition sourcesFromFeedbackCache :: "json_decoder \<Rightarrow> FeedbackCache \<Rightarrow> FeedbackSource list" where
  "sourcesFromFeedbackCache j cache =
     List.map_filter (\<lambda>(ty, raw). let items = parseFeedbackItems j raw in
         if items = [] then None else Some \<lparr>fs_type = ty, fs_findings = items\<rparr>)
       [(''human'', fc_human_review_snapshot cache), (''coderabbit'', fc_coderabbit_snapshot cache),
        (''gate'', fc_compliance_snapshot cache), (''ci'', fc_ci_snapshot cache)]"

definition isActionableFeedback :: "FeedbackSection list \<Rightarrow> bool" where
  "isActionableFeedback sections \<longleftrightarrow> list_ex (\<lambda>s. se_items s \<noteq> [] \<and> se_source s \<noteq> ''informational'') sections"

text \<open>\<open>current_json\<close> is \<open>readFeedbackCacheHash\<close>: the hash in the file, empty when there is none.\<close>

definition maybePushFeedback ::
  "outside \<Rightarrow> faults \<Rightarrow> gotime \<Rightarrow> BranchRecord \<Rightarrow> review_db \<Rightarrow> call_trace \<times> review_db" where
  "maybePushFeedback w flt now b d =
     (case GetLinkByBranch (at_site ''link'' flt) (Repo b) (Branch b) d of
        Inl e \<Rightarrow> ([], d)
      | Inr link \<Rightarrow>
     (case GetActiveAssignmentByTaskID (at_site ''assignment'' flt) (gl_task_id link) (agents d) of
        Inl e \<Rightarrow> ([], d)
      | Inr asg \<Rightarrow>
        if a_ended_at asg \<noteq> None \<or> a_worktree asg = '''' then ([], d)
        else if a_repo asg \<noteq> '''' \<and> a_repo asg \<noteq> Repo b then ([], d)
        else if a_branch asg \<noteq> '''' \<and> a_branch asg \<noteq> Branch b then ([], d)
        else
     (case GetFeedbackCacheByTaskID (at_site ''cache'' flt) (gl_task_id link) d of
        Inl e \<Rightarrow> ([], d)
      | Inr cache \<Rightarrow>
        if fc_assignment_id cache \<noteq> '''' \<and> fc_assignment_id cache \<noteq> a_id asg then ([], d)
        else if fc_cache_hash cache \<noteq> '''' \<and> current_json w (a_worktree asg) = Inr (fc_cache_hash cache) then ([], d)
        else
     (case BuildFeedback now (max_size_env w) (sourcesFromFeedbackCache (json w) cache) of
        None \<Rightarrow> ([], d)
      | Some fb0 \<Rightarrow>
        let fb = fb0\<lparr>fp_cache_hash := fc_cache_hash cache\<rparr> in
        (case WriteFEEDBACK now (max_size_env w) (a_worktree asg) fb of
           Inl e \<Rightarrow> ([], d)
         | Inr (content, _) \<Rightarrow>
           if \<not> can_write w (a_worktree asg) then ([], d)
           else let calls = [(WroteFeedback (a_worktree asg) content, d), (Notify (a_worktree asg) ''feedback'' (a_id asg), d)] in
             if isActionableFeedback (fp_sections fb) \<and> a_substatus asg \<noteq> ''needs_revision''
             then (calls, snd (lift_agents (EmitAssignmentUpdate (at_site ''emit'' flt) now (a_id asg) (a_version asg) ''needs_revision'') d))
             else (calls, d))))))"

section \<open>Repairing a branch\<close>

definition transitionIfValid ::
  "fsm_lib \<Rightarrow> faults \<Rightarrow> gotime \<Rightarrow> BranchRecord \<Rightarrow> state \<Rightarrow> string \<Rightarrow> review_db \<Rightarrow> review_db" where
  "transitionIfValid lib flt now b to trigger d =
     snd (lift_branches (TransitionBranch lib flt (truncate_second now) (ID b) (State b) to trigger) d)"

definition maybeClose :: "fsm_lib \<Rightarrow> faults \<Rightarrow> gotime \<Rightarrow> BranchRecord \<Rightarrow> string \<Rightarrow> review_db \<Rightarrow> review_db" where
  "maybeClose lib flt now b trigger d =
     (if State b = StateMerged then d else transitionIfValid lib flt now b StateMerged trigger d)"

definition maybeStaleBranch :: "faults \<Rightarrow> gotime \<Rightarrow> BranchRecord \<Rightarrow> string \<Rightarrow> review_db \<Rightarrow> review_db" where
  "maybeStaleBranch flt now b newHeadHash d =
     snd (lift_branches (UpdateHeadHashAndTransition flt (truncate_second now) (ID b) newHeadHash (State b) StateStale
       ''head_hash_mismatch'') d)"

definition maybeMerge ::
  "fsm_lib \<Rightarrow> outside \<Rightarrow> faults \<Rightarrow> gotime \<Rightarrow> (review_db \<Rightarrow> review_db) \<Rightarrow> BranchRecord \<Rightarrow> GitHubState \<Rightarrow> review_db \<Rightarrow>
   call_trace \<times> review_db" where
  "maybeMerge lib w flt now others b gh d0 =
     (case merger w of
        None \<Rightarrow> ([], d0)
      | Some merge \<Rightarrow>
        if gh_pr_number gh = 0 then ([], d0)
        else let d = others d0 in
         (case GetBranch (at_site ''reload'' flt) (Repo b) (Branch b) (core (agents d)) of
            Inl e \<Rightarrow> ([], d)
          | Inr current \<Rightarrow>
            if State current \<noteq> StateMergeReady then ([], d)
            else if HeadHash current \<noteq> gh_head_hash gh then ([], d)
            else let calls = [(MergePR (Repo b) (gh_pr_number gh) (gh_head_hash gh) (merge_method w), d)] in
              if \<not> merge (Repo b) (gh_pr_number gh) (gh_head_hash gh) (merge_method w) then (calls, d)
              else (calls, transitionIfValid lib (at_site ''merged'' flt) now current StateMerged ''auto_merged'' d)))"

text \<open>After the merge-readiness fields are written: T11, T10 and the merge.\<close>

definition settle ::
  "fsm_lib \<Rightarrow> outside \<Rightarrow> faults \<Rightarrow> gotime \<Rightarrow> (review_db \<Rightarrow> review_db) \<Rightarrow> BranchRecord \<Rightarrow> GitHubState \<Rightarrow> review_db \<Rightarrow>
   call_trace \<times> review_db" where
  "settle lib w flt now others b gh d =
     (if State b = StateMergeReady then
        if \<not> gh_approved gh \<or> \<not> gh_ci_green gh \<or> gh_pending_events gh > 0 \<or> gh_unresolved_threads gh > 0
        then ([], transitionIfValid lib (at_site ''revoke'' flt) now b StateSubmitted ''merge_ready_conditions_revoked'' d)
        else maybeMerge lib w flt now others b gh d
      else if State b = StateReviewApproved then
        if gh_approved gh \<and> gh_ci_green gh \<and> gh_pending_events gh = 0 \<and> gh_unresolved_threads gh = 0
        then maybeMerge lib w flt now others b gh
          (transitionIfValid lib (at_site ''ready'' flt) now b StateMergeReady ''merge_ready_conditions_met'' d)
        else ([], d)
      else ([], d))"

definition reconcileBranch ::
  "fsm_lib \<Rightarrow> outside \<Rightarrow> faults \<Rightarrow> gotime \<Rightarrow> (review_db \<Rightarrow> review_db) \<Rightarrow> BranchRecord \<Rightarrow> review_db \<Rightarrow> call_trace \<times> review_db" where
  "reconcileBranch lib w flt now others b d =
     (case get_pr_state w (Repo b) (Branch b) of
        Inl e \<Rightarrow> ([], d)
      | Inr None \<Rightarrow>
         if State b = StateSubmitted \<or> State b = StateWaiting then ([], d)
         else ([], maybeClose lib (at_site ''close'' flt) now b ''pr_not_found'' d)
      | Inr (Some gh) \<Rightarrow>
         let d1 = (if gh_pr_number gh > 0
                   then snd (lift_branches (UpdatePRNumber (at_site ''pr number'' flt) (truncate_second now) (Repo b) (Branch b) (gh_pr_number gh)) d)
                   else d)
         in if \<not> gh_pr_open gh then ([], maybeClose lib (at_site ''close'' flt) now b ''pr_closed'' d1)
         else if gh_head_hash gh \<noteq> '''' \<and> HeadHash b \<noteq> '''' \<and> gh_head_hash gh \<noteq> HeadHash b
         then ([], maybeStaleBranch (at_site ''stale'' flt) now b (gh_head_hash gh) d1)
         else
          (case lift_branches (UpdateMergeReadiness (at_site ''readiness'' flt) (truncate_second now) (ID b) (gh_approved gh) (gh_ci_green gh)
               (gh_pending_events gh) (gh_unresolved_threads gh)) d1 of
             (Inl e, d2) \<Rightarrow> ([], d2)
           | (Inr _, d2) \<Rightarrow>
              let d3 = snd (lift_agents (ReconcileAgentAssignmentWaitingState (at_site ''waiting'' flt) now (Repo b) (Branch b)) d2)
              in case maybePushFeedback w (at_site ''push'' flt) now b d3 of
                (calls, d4) \<Rightarrow>
                  (case settle lib w flt now others b gh d4 of (calls', d5) \<Rightarrow> (calls @ calls', d5))))"

text \<open>The loop over the branches: before each of them the context may be done, and other workers go on.\<close>

fun reconcile_all ::
  "fsm_lib \<Rightarrow> outside \<Rightarrow> faults \<Rightarrow> gotime \<Rightarrow> (string \<Rightarrow> review_db \<Rightarrow> review_db) \<Rightarrow> (string \<Rightarrow> bool) \<Rightarrow> BranchRecord list \<Rightarrow> review_db \<Rightarrow>
   call_trace \<times> review_db" where
  "reconcile_all lib w flt now others cancelled [] d = ([], d)"
| "reconcile_all lib w flt now others cancelled (b # bs) d =
     (if cancelled (ID b) then ([], d)
      else case reconcileBranch lib w (at_site (ID b) flt) now (others (''reload '' @ ID b)) b (others (ID b) d) of
        (calls, d1) \<Rightarrow> (case reconcile_all lib w flt now others cancelled bs d1 of (calls', d2) \<Rightarrow> (calls @ calls', d2)))"

definition runCycle ::
  "fsm_lib \<Rightarrow> outside \<Rightarrow> faults \<Rightarrow> gotime \<Rightarrow> (string \<Rightarrow> review_db \<Rightarrow> review_db) \<Rightarrow> (string \<Rightarrow> bool) \<Rightarrow> review_db \<Rightarrow>
   call_trace \<times> review_db" where
  "runCycle lib w flt now others cancelled d =
     (case ListActiveBranches (at_site ''list'' flt) (core (agents d)) of
        Inl e \<Rightarrow> ([], d)
      | Inr branches \<Rightarrow> reconcile_all lib w flt now others cancelled branches d)"

section \<open>A cycle is a run of store operations\<close>

definition agent_run :: "fsm_lib \<Rightarrow> (string \<Rightarrow> bool) \<Rightarrow> review_db \<Rightarrow> review_db \<Rightarrow> bool" where
  "agent_run lib pu d d' \<longleftrightarrow> (agent_step lib pu)\<^sup>*\<^sup>* (agents d) (agents d')"

named_theorems runs

lemma agent_run_refl [runs, simp]: "agent_run lib pu d d"
  by (simp add: agent_run_def)

lemma agent_run_trans: "agent_run lib pu d d' \<Longrightarrow> agent_run lib pu d' d'' \<Longrightarrow> agent_run lib pu d d''"
  unfolding agent_run_def by (rule rtranclp_trans)

lemma lift_branches_run:
  assumes "\<And>c r c'. f c = (r, c') \<Longrightarrow> store_step lib c c'"
  shows "agent_run lib pu d (snd (lift_branches f d))"
  using agent_step.branches [OF assms, of "agents d" _ _ pu]
  by (cases "f (core (agents d))") (auto simp: lift_branches_def agent_run_def)

lemma lift_agents_run:
  assumes "\<And>a r a'. f a = (r, a') \<Longrightarrow> agent_step lib pu a a'"
  shows "agent_run lib pu d (snd (lift_agents f d))"
  using assms [of "agents d"] by (cases "f (agents d)") (auto simp: lift_agents_def agent_run_def)

lemma pr_number_run [runs]: "agent_run lib pu d (snd (lift_branches (UpdatePRNumber flt t repo branch n) d))"
  by (rule lift_branches_run) (rule store_step.pr_number)

lemma readiness_run [runs]: "agent_run lib pu d (snd (lift_branches (UpdateMergeReadiness flt t bid ap ci pe ut) d))"
  by (rule lift_branches_run) (rule store_step.readiness)

lemma transition_run [runs]: "agent_run lib pu d (transitionIfValid lib flt now b to trigger d)"
  unfolding transitionIfValid_def by (rule lift_branches_run) (rule store_step.transition)

lemma close_run [runs]: "agent_run lib pu d (maybeClose lib flt now b trigger d)"
  by (simp add: maybeClose_def runs)

lemma stale_run [runs]: "agent_run lib pu d (maybeStaleBranch flt now b h d)"
  unfolding maybeStaleBranch_def by (rule lift_branches_run) (rule store_step.head_transition)

lemma waiting_run [runs]: "agent_run lib pu d (snd (lift_agents (ReconcileAgentAssignmentWaitingState flt now repo branch) d))"
  by (rule lift_agents_run) (rule agent_step.reconcile)

lemma emit_run [runs]: "agent_run lib pu d (snd (lift_agents (EmitAssignmentUpdate flt now aid v sub) d))"
  by (rule lift_agents_run) (rule agent_step.emit)

lemma push_run [runs]: "agent_run lib pu d (snd (maybePushFeedback w flt now b d))"
  by (auto simp: maybePushFeedback_def runs Let_def split: sum.split option.split prod.split)

lemma push_no_merge: "(MergePR repo n sha m, dm) \<notin> set (fst (maybePushFeedback w flt now b d))"
  by (auto simp: maybePushFeedback_def Let_def split: sum.split option.split prod.split)

section \<open>Merges\<close>

text \<open>What a merge call rests on: the answer of GitHub for the branch, and the row of the branch at that moment.\<close>

definition merge_justified :: "outside \<Rightarrow> string \<Rightarrow> int \<Rightarrow> string \<Rightarrow> review_db \<Rightarrow> bool" where
  "merge_justified w repo n sha d \<longleftrightarrow>
     (\<exists>gh r. r \<in> set (branch_states (core (agents d))) \<and> b_repo r = repo \<and> b_state r = StateMergeReady \<and> b_head_hash r = sha \<and>
       get_pr_state w repo (b_branch r) = Inr (Some gh) \<and> gh_pr_open gh \<and> gh_approved gh \<and> gh_ci_green gh \<and>
       gh_pending_events gh \<le> 0 \<and> gh_unresolved_threads gh \<le> 0 \<and> gh_pr_number gh = n \<and> n \<noteq> 0 \<and> gh_head_hash gh = sha)"

definition gh_ready :: "GitHubState \<Rightarrow> bool" where
  "gh_ready gh \<longleftrightarrow> gh_approved gh \<and> gh_ci_green gh \<and> gh_pending_events gh \<le> 0 \<and> gh_unresolved_threads gh \<le> 0"

lemma GetBranch_row:
  assumes "GetBranch flt repo branch c = Inr b"
  obtains r where "r \<in> set (branch_states c)" "b_repo r = repo" "b_branch r = branch" "b = scan_row r"
proof -
  obtain r where r: "sql_row (at_branch repo branch) (branch_states c) = Some r" "b = scan_row r"
    using assms by (auto simp: GetBranch_def scanBranch_def split: option.splits)
  then show thesis by (intro that [of r]) (auto simp: sql_row_def find_Some_iff at_branch_def)
qed

lemma merge_run:
  assumes "\<And>d. agent_run lib pu d (others d)"
  shows "agent_run lib pu d (snd (maybeMerge lib w flt now others b gh d))"
  using assms [of d] agent_run_trans [OF assms [of d] transition_run]
  by (auto simp: maybeMerge_def Let_def split: option.split sum.split)

lemma merge_calls:
  assumes "(MergePR repo n sha m, dm) \<in> set (fst (maybeMerge lib w flt now others b gh d))"
    and "get_pr_state w (Repo b) (Branch b) = Inr (Some gh)" and "gh_pr_open gh" and "gh_ready gh"
  shows "merge_justified w repo n sha dm \<and> m = merge_method w \<and> merger w \<noteq> None"
proof -
  obtain current where c: "GetBranch (at_site ''reload'' flt) (Repo b) (Branch b) (core (agents dm)) = Inr current"
    "State current = StateMergeReady" "HeadHash current = gh_head_hash gh" "gh_pr_number gh \<noteq> 0" "merger w \<noteq> None"
    "repo = Repo b" "n = gh_pr_number gh" "sha = gh_head_hash gh" "m = merge_method w"
    using assms(1) by (auto simp: maybeMerge_def Let_def split: option.splits sum.splits if_splits)
  obtain r where r: "r \<in> set (branch_states (core (agents dm)))" "b_repo r = Repo b" "b_branch r = Branch b" "current = scan_row r"
    using GetBranch_row [OF c(1)] .
  show ?thesis
    unfolding merge_justified_def
    by (intro conjI exI [of _ gh] exI [of _ r]) (use c r assms(2-4) in \<open>simp_all add: gh_ready_def scan_row_sel\<close>)
qed

lemma settle_run:
  assumes "\<And>d. agent_run lib pu d (others d)"
  shows "agent_run lib pu d (snd (settle lib w flt now others b gh d))"
  using merge_run [OF assms] agent_run_trans [OF transition_run merge_run [OF assms]] by (simp add: settle_def runs)

lemma settle_calls:
  assumes "(MergePR repo n sha m, dm) \<in> set (fst (settle lib w flt now others b gh d))"
    and "get_pr_state w (Repo b) (Branch b) = Inr (Some gh)" and "gh_pr_open gh"
  shows "merge_justified w repo n sha dm \<and> m = merge_method w \<and> merger w \<noteq> None"
proof -
  obtain d1 where d1: "(MergePR repo n sha m, dm) \<in> set (fst (maybeMerge lib w flt now others b gh d1))" and g: "gh_ready gh"
    using assms(1) by (auto simp: settle_def gh_ready_def split: if_splits)
  show ?thesis by (rule merge_calls [OF d1 assms(2,3) g])
qed

lemma reconcile_branch_safe:
  assumes o: "\<And>d. agent_run lib pu d (others d)" and r: "reconcileBranch lib w flt now others b d = (calls, d')"
  shows "agent_run lib pu d d' \<and>
    (\<forall>repo n sha m dm. (MergePR repo n sha m, dm) \<in> set calls \<longrightarrow>
       merge_justified w repo n sha dm \<and> m = merge_method w \<and> merger w \<noteq> None)"
proof (cases "\<exists>gh. get_pr_state w (Repo b) (Branch b) = Inr (Some gh)")
  case False
  then show ?thesis using r by (auto simp: reconcileBranch_def runs split: sum.splits option.splits if_splits)
next
  case True
  then obtain gh where gh: "get_pr_state w (Repo b) (Branch b) = Inr (Some gh)" ..
  define d1 where "d1 = (if gh_pr_number gh > 0
     then snd (lift_branches (UpdatePRNumber (at_site ''pr number'' flt) (truncate_second now) (Repo b) (Branch b) (gh_pr_number gh)) d)
     else d)"
  define dr where "dr = lift_branches (UpdateMergeReadiness (at_site ''readiness'' flt) (truncate_second now) (ID b) (gh_approved gh)
     (gh_ci_green gh) (gh_pending_events gh) (gh_unresolved_threads gh)) d1"
  define d3 where "d3 = snd (lift_agents (ReconcileAgentAssignmentWaitingState (at_site ''waiting'' flt) now (Repo b) (Branch b)) (snd dr))"
  define d4 where "d4 = snd (maybePushFeedback w (at_site ''push'' flt) now b d3)"
  have s1: "agent_run lib pu d d1" by (simp add: d1_def runs)
  have s2: "agent_run lib pu d (snd dr)" using s1 by (rule agent_run_trans) (simp add: dr_def runs)
  have s3: "agent_run lib pu d d3" using s2 by (rule agent_run_trans) (simp add: d3_def runs)
  have s4: "agent_run lib pu d d4" using s3 by (rule agent_run_trans) (simp add: d4_def runs)
  have s5: "agent_run lib pu d (snd (settle lib w flt now others b gh d4))" using s4 settle_run [OF o] by (rule agent_run_trans)
  have body: "(calls, d') =
     (if \<not> gh_pr_open gh then ([], maybeClose lib (at_site ''close'' flt) now b ''pr_closed'' d1)
      else if gh_head_hash gh \<noteq> '''' \<and> HeadHash b \<noteq> '''' \<and> gh_head_hash gh \<noteq> HeadHash b
      then ([], maybeStaleBranch (at_site ''stale'' flt) now b (gh_head_hash gh) d1)
      else case fst dr of Inl e \<Rightarrow> ([], snd dr)
        | Inr _ \<Rightarrow> (fst (maybePushFeedback w (at_site ''push'' flt) now b d3) @ fst (settle lib w flt now others b gh d4),
            snd (settle lib w flt now others b gh d4)))"
    using r [symmetric] unfolding reconcileBranch_def gh sum.case option.case Let_def d1_def [symmetric] dr_def [symmetric]
    by (simp add: d3_def d4_def split: prod.splits sum.splits)
  have "agent_run lib pu d d'"
    using body s2 s5 agent_run_trans [OF s1 close_run] agent_run_trans [OF s1 stale_run] by (auto split: if_splits sum.splits)
  moreover have "(MergePR repo n sha m, dm) \<in> set (fst (settle lib w flt now others b gh d4)) \<and> gh_pr_open gh"
    if "(MergePR repo n sha m, dm) \<in> set calls" for repo n sha m dm
    using body that by (auto simp: push_no_merge split: if_splits sum.splits)
  ultimately show ?thesis using settle_calls [OF _ gh] by blast
qed

lemma reconcile_all_safe:
  assumes o: "\<And>site d. agent_run lib pu d (others site d)" and r: "reconcile_all lib w flt now others cancelled bs d = (calls, d')"
  shows "agent_run lib pu d d' \<and>
    (\<forall>repo n sha m dm. (MergePR repo n sha m, dm) \<in> set calls \<longrightarrow>
       merge_justified w repo n sha dm \<and> m = merge_method w \<and> merger w \<noteq> None)"
  using r
proof (induction bs arbitrary: d calls)
  case (Cons b bs)
  show ?case
  proof (cases "cancelled (ID b)")
    case False
    obtain c1 d1 where 1: "reconcileBranch lib w (at_site (ID b) flt) now (others (''reload '' @ ID b)) b (others (ID b) d) = (c1, d1)"
      by fastforce
    obtain c2 d2 where 2: "reconcile_all lib w flt now others cancelled bs d1 = (c2, d2)" by fastforce
    have e: "calls = c1 @ c2" "d' = d2" using Cons.prems False 1 2 by auto
    note s = reconcile_branch_safe [OF o 1] Cons.IH [OF 2 [folded e(2)]]
    have "agent_run lib pu d d'"
      by (rule agent_run_trans [OF o agent_run_trans [OF conjunct1 [OF s(1)] conjunct1 [OF s(2)]]])
    moreover have "merge_justified w repo n sha dm \<and> m = merge_method w \<and> merger w \<noteq> None"
      if "(MergePR repo n sha m, dm) \<in> set calls" for repo n sha m dm
      using that s [THEN conjunct2] unfolding e(1) set_append Un_iff by blast
    ultimately show ?thesis by blast
  qed (use Cons.prems in simp)
qed simp

lemma run_cycle_merges:
  assumes o: "\<And>site d. agent_run lib pu d (others site d)" and r: "runCycle lib w flt now others cancelled d = (calls, d')"
  shows "agent_run lib pu d d' \<and>
    (\<forall>repo n sha m dm. (MergePR repo n sha m, dm) \<in> set calls \<longrightarrow>
       merge_justified w repo n sha dm \<and> m = merge_method w \<and> merger w \<noteq> None)"
proof (cases "ListActiveBranches (at_site ''list'' flt) (core (agents d))")
  case (Inr branches)
  then have "reconcile_all lib w flt now others cancelled branches d = (calls, d')" using r by (simp add: runCycle_def)
  with o show ?thesis by (rule reconcile_all_safe)
qed (use r in \<open>simp add: runCycle_def\<close>)

section \<open>Property\<close>

text \<open>
  C19: a reconciliation cycle. Whatever GitHub answers, whatever statements fail and whatever other
  workers write in between, a cycle keeps the invariant of the store, and it asks GitHub to merge only
  when a merger is configured, and then only a pull request that GitHub reported open, approved, green
  and without pending events or unresolved threads, at the head that was reported, for a branch
  whose row is \<open>merge_ready\<close> with exactly that head when the call is made.
\<close>

theorem reconcile_cycle_safe:
  assumes "fsm_library lib" and "agent_inv (agents d)" and "\<And>site d. agent_run lib pu d (others site d)"
    and "runCycle lib w flt now others cancelled d = (calls, d')"
  shows "agent_inv (agents d') \<and>
    (\<forall>repo n sha m dm. (MergePR repo n sha m, dm) \<in> set calls \<longrightarrow>
       merger w \<noteq> None \<and> m = merge_method w \<and>
       (\<exists>gh r. r \<in> set (branch_states (core (agents dm))) \<and> b_repo r = repo \<and> b_state r = StateMergeReady \<and> b_head_hash r = sha \<and>
         get_pr_state w repo (b_branch r) = Inr (Some gh) \<and> gh_pr_open gh \<and> gh_approved gh \<and> gh_ci_green gh \<and>
         gh_pending_events gh \<le> 0 \<and> gh_unresolved_threads gh \<le> 0 \<and> gh_pr_number gh = n \<and> n \<noteq> 0 \<and> gh_head_hash gh = sha))"
  using agent_steps_inv [OF _ assms(1,2)] run_cycle_merges [OF assms(3,4)] unfolding agent_run_def merge_justified_def by blast

definition demo_approved :: db where
  "demo_approved = snd (UpdateHeadHash no_faults 9 ''b1'' ''abc''
     (snd (TransitionBranch list_fsm no_faults 9 ''b1'' StateCLIReviewing StateReviewApproved ''ok'' demo_reviewing)))"

lemma demo_approved_inv: "branch_inv demo_approved"
proof -
  let ?d = "snd (TransitionBranch list_fsm no_faults 9 ''b1'' StateCLIReviewing StateReviewApproved ''ok'' demo_reviewing)"
  have "store_step list_fsm demo_reviewing ?d"
    by (rule store_step.transition [OF prod.collapse [symmetric]])
  moreover have "store_step list_fsm ?d demo_approved"
    unfolding demo_approved_def by (rule store_step.head_hash [OF prod.collapse [symmetric]])
  ultimately have "(store_step list_fsm)\<^sup>*\<^sup>* demo_reviewing demo_approved" by simp
  then show ?thesis using store_steps_inv [OF _ listfsm.fsm_library_axioms demo_reviewing_inv] by blast
qed

definition demo_outside :: outside where
  "demo_outside = WithAutoMerge (Some (\<lambda>_ _ _ _. True)) ''''
     \<lparr>get_pr_state = \<lambda>repo branch. Inr (Some \<lparr>gh_repo = repo, gh_branch = branch, gh_head_hash = ''abc'', gh_pr_number = 7,
        gh_pr_open = True, gh_approved = True, gh_ci_green = True, gh_pending_events = 0, gh_unresolved_threads = 0\<rparr>),
      merger = None, merge_method = '''', current_json = \<lambda>_. Inr '''', can_write = \<lambda>_. True, max_size_env = '''',
      json = \<lparr>as_items = \<lambda>_. None, as_findings = \<lambda>_. None, as_strings = \<lambda>_. None, as_item_envelope = \<lambda>_. None,
        as_finding_envelope = \<lambda>_. None, as_single = \<lambda>_. None\<rparr>\<rparr>"

definition demo_cycle_db :: review_db where
  "demo_cycle_db = empty_review_db\<lparr>agents := empty_agent_db\<lparr>core := demo_approved\<rparr>\<rparr>"

lemma demo_cycle_eval:
  "map fst (fst (runCycle list_fsm demo_outside no_faults 10 (\<lambda>_ d. d) (\<lambda>_. False) demo_cycle_db)) =
     [MergePR ''acme/api'' 7 ''abc'' ''squash'']"
  "map b_state (branch_states (core (agents (snd (runCycle list_fsm demo_outside no_faults 10 (\<lambda>_ d. d) (\<lambda>_. False) demo_cycle_db))))) =
     [StateMerged]"
  by code_simp+

theorem reconcile_cycle_safe_witness:
  "\<exists>calls d' dm. runCycle list_fsm demo_outside no_faults 10 (\<lambda>_ d. d) (\<lambda>_. False) demo_cycle_db = (calls, d') \<and>
     agent_inv (agents d') \<and> map b_state (branch_states (core (agents d'))) = [StateMerged] \<and>
     (MergePR ''acme/api'' 7 ''abc'' ''squash'', dm) \<in> set calls \<and>
     (\<exists>r\<in>set (branch_states (core (agents dm))). b_state r = StateMergeReady \<and> b_head_hash r = ''abc'')"
proof -
  obtain calls d' where c: "runCycle list_fsm demo_outside no_faults 10 (\<lambda>_ d. d) (\<lambda>_. False) demo_cycle_db = (calls, d')" by fastforce
  have "agent_inv (agents demo_cycle_db)"
    using agent_inv_empty demo_approved_inv by (simp add: demo_cycle_db_def agent_inv_def empty_agent_db_def)
  note p = reconcile_cycle_safe [OF listfsm.fsm_library_axioms this agent_run_refl c]
  obtain dm where m: "(MergePR ''acme/api'' 7 ''abc'' ''squash'', dm) \<in> set calls"
    using demo_cycle_eval(1) unfolding c by (cases calls) auto
  obtain r where "r \<in> set (branch_states (core (agents dm)))" "b_state r = StateMergeReady" "b_head_hash r = ''abc''"
    using conjunct2 [OF p] m by blast
  then show ?thesis using conjunct1 [OF p] m c demo_cycle_eval(2) [unfolded c snd_conv]
    by (intro exI [of _ calls] exI [of _ d'] exI [of _ dm]) blast
qed

end
