(* ===== verification/Webhook.thy ===== *)
theory Webhook
  imports Reconciler
begin

text \<open>
  The webhook receiver: the HTTP handler of \<open>internal/webhook/webhook.go\<close>, the bridge of
  \<open>app_handler.go\<close> behind the dispatcher of go-githubapp, the event processor of \<open>processor.go\<close>, and the
  payload built by \<open>openclaw_client.go\<close>. HMAC-SHA256 and the JSON decoder are parameters. A JSON number is the
  \<open>float64\<close> Go decodes it to, as a real; its conversion to an integer out of range is that of amd64.
  What is sent to the adapter is collected in a trace. Logging is left out.
\<close>

section \<open>Payloads\<close>

datatype json_value =
    JNull
  | JBool bool
  | JNumber real
  | JString string
  | JArray "json_value list"
  | JObject "(string \<times> json_value) list"

type_synonym payload = "(string \<times> json_value) list"

text \<open>Type assertions in their two-value form: the zero value when the key is missing or has another type.\<close>

definition str_at :: "payload \<Rightarrow> string \<Rightarrow> string" where
  "str_at p k = (case map_of p k of Some (JString x) \<Rightarrow> x | _ \<Rightarrow> '''')"

definition bool_at :: "payload \<Rightarrow> string \<Rightarrow> bool" where
  "bool_at p k = (case map_of p k of Some (JBool b) \<Rightarrow> b | _ \<Rightarrow> False)"

definition num_at :: "payload \<Rightarrow> string \<Rightarrow> real option" where
  "num_at p k = (case map_of p k of Some (JNumber x) \<Rightarrow> Some x | _ \<Rightarrow> None)"

definition obj_at :: "payload \<Rightarrow> string \<Rightarrow> payload option" where
  "obj_at p k = (case map_of p k of Some (JObject m) \<Rightarrow> Some m | _ \<Rightarrow> None)"

definition int_of_float :: "real \<Rightarrow> int" where
  "int_of_float x = (let n = (if 0 \<le> x then \<lfloor>x\<rfloor> else - \<lfloor>- x\<rfloor>) in if in_int64 n then n else - 9223372036854775808)"

definition extractRepo :: "payload \<Rightarrow> string" where
  "extractRepo p = (case obj_at p ''repository'' of None \<Rightarrow> '''' | Some m \<Rightarrow> str_at m ''full_name'')"

definition prBranch :: "payload \<Rightarrow> string" where
  "prBranch p = (case obj_at p ''pull_request'' of None \<Rightarrow> ''''
     | Some pr \<Rightarrow> (case obj_at pr ''head'' of None \<Rightarrow> '''' | Some head \<Rightarrow> str_at head ''ref''))"

definition prHeadSHA :: "payload \<Rightarrow> string" where
  "prHeadSHA p = (case obj_at p ''pull_request'' of None \<Rightarrow> ''''
     | Some pr \<Rightarrow> (case obj_at pr ''head'' of None \<Rightarrow> '''' | Some head \<Rightarrow> str_at head ''sha''))"

definition prMerged :: "payload \<Rightarrow> bool" where
  "prMerged p = (case obj_at p ''pull_request'' of None \<Rightarrow> False | Some pr \<Rightarrow> bool_at pr ''merged'')"

definition checkRunBranch :: "payload \<Rightarrow> string" where
  "checkRunBranch p = (case obj_at p ''check_run'' of None \<Rightarrow> ''''
     | Some cr \<Rightarrow> (case obj_at cr ''check_suite'' of None \<Rightarrow> '''' | Some cs \<Rightarrow> str_at cs ''head_branch''))"

definition checkRunHeadSHA :: "payload \<Rightarrow> string" where
  "checkRunHeadSHA p = (case obj_at p ''check_run'' of None \<Rightarrow> '''' | Some cr \<Rightarrow> str_at cr ''head_sha'')"

definition prNumber :: "payload \<Rightarrow> int" where
  "prNumber p = (case obj_at p ''pull_request'' of None \<Rightarrow> 0
     | Some pr \<Rightarrow> (case num_at pr ''number'' of None \<Rightarrow> 0 | Some x \<Rightarrow> int_of_float x))"

definition checkRunID :: "payload \<Rightarrow> string" where
  "checkRunID p = (case obj_at p ''check_run'' of None \<Rightarrow> ''''
     | Some cr \<Rightarrow> (case num_at cr ''id'' of None \<Rightarrow> '''' | Some x \<Rightarrow> FormatInt (int_of_float x)))"

section \<open>The two patterns of review comments\<close>

text \<open>
  Both are sequences of character classes under a quantifier, some captured. The match Go's \<open>regexp\<close>
  returns is the first one a backtracking search would find: leftmost, every quantifier as long as it can be.
\<close>

datatype quantifier = One | Opt | Star | Plus

type_synonym pattern = "((char \<Rightarrow> bool) \<times> quantifier \<times> bool) list"

fun first_some :: "('a \<Rightarrow> 'b option) \<Rightarrow> 'a list \<Rightarrow> 'b option" where
  "first_some f [] = None"
| "first_some f (x # xs) = (case f x of None \<Rightarrow> first_some f xs | Some y \<Rightarrow> Some y)"

definition lengths :: "quantifier \<Rightarrow> nat \<Rightarrow> nat list" where
  "lengths q n = (case q of
     One \<Rightarrow> (if 0 < n then [1] else [])
   | Opt \<Rightarrow> (if 0 < n then [1, 0] else [0])
   | Star \<Rightarrow> rev [0..<Suc n]
   | Plus \<Rightarrow> rev [1..<Suc n])"

fun match_here :: "pattern \<Rightarrow> string \<Rightarrow> string list option" where
  "match_here [] s = Some []"
| "match_here ((cls, q, captured) # rest) s =
     first_some (\<lambda>k. map_option (\<lambda>groups. if captured then take k s # groups else groups) (match_here rest (drop k s)))
       (lengths q (length (takeWhile cls s)))"

definition find_match :: "pattern \<Rightarrow> string \<Rightarrow> string list option" where
  "find_match p s = first_some (\<lambda>i. match_here p (drop i s)) [0..<Suc (length s)]"

definition re_space :: "char \<Rightarrow> bool" where
  "re_space c \<longleftrightarrow> c \<in> {CHR 0x20, CHR 0x09, CHR 0x0A, CHR 0x0C, CHR 0x0D}"

definition three_groups :: "string list option \<Rightarrow> (string \<times> string \<times> string) option" where
  "three_groups m = (case m of Some [a, b, c] \<Rightarrow> Some (a, b, c) | _ \<Rightarrow> None)"

definition reFileLineColon :: "string \<Rightarrow> (string \<times> string \<times> string) option" where
  "reFileLineColon s = three_groups (find_match
     [(\<lambda>c. \<not> re_space c \<and> c \<noteq> CHR '':'', Plus, True), (\<lambda>c. c = CHR '':'', One, False), (is_digit, Plus, True),
      (\<lambda>c. c = CHR '':'', Opt, False), (re_space, Plus, False), (\<lambda>c. c \<noteq> CHR 0x0A, Plus, True)] s)"

definition reDashFileLine :: "string \<Rightarrow> (string \<times> string \<times> string) option" where
  "reDashFileLine s = three_groups (match_here
     [(\<lambda>c. c = CHR ''-'' \<or> c = CHR ''*'', One, False), (re_space, Plus, False), (\<lambda>c. \<not> re_space c, Plus, True),
      (re_space, Plus, False), (\<lambda>c. c = CHR ''l'', One, False), (\<lambda>c. c = CHR ''i'', One, False),
      (\<lambda>c. c = CHR ''n'', One, False), (\<lambda>c. c = CHR ''e'', One, False), (re_space, Plus, False), (is_digit, Plus, True),
      (re_space, Star, False), (\<lambda>c. c \<noteq> CHR 0x0A, Star, True)] s)"

text \<open>The rows \<open>normalizeReviewFindings\<close> builds.\<close>

definition review_finding_rows ::
  "gotime \<Rightarrow> (string \<Rightarrow> string) \<Rightarrow> string \<Rightarrow> string \<Rightarrow> string \<Rightarrow> string \<Rightarrow> string \<Rightarrow> string \<Rightarrow> finding_row list" where
  "review_finding_rows now uuid repo branch body stateStr source runID =
     map (\<lambda>(i, file, line, msg). \<lparr>fi_id = uuid (''finding '' @ FormatInt (int i)), fi_run_id = runID, fi_repo = repo,
         fi_branch = branch, fi_severity = reviewSeverity stateStr, fi_category = ''review'', fi_file = file, fi_line = line,
         fi_message = msg, fi_source = source, fi_rule_id = '''', fi_ts = now, fi_created_at = truncate_second now\<rparr>)
       (enumerate 0 (normalizeReviewFindings reFileLineColon reDashFileLine body))"

section \<open>The event processor\<close>

record GitHubEvent =
  ev_delivery_id :: string
  ev_event_type :: string
  ev_repo :: string
  ev_payload :: payload

record adapterFinding =
  af_severity :: string
  af_file :: string
  af_line :: int
  af_message :: string
  af_rule_id :: string

record deliverPayload =
  dp_session_id :: string
  dp_findings :: "adapterFinding list"
  dp_source :: string

record 'r EventProcessor =
  ep_lib :: fsm_lib
  ep_stream :: "'r redis_api"
  ep_marshal :: "string \<Rightarrow> string \<Rightarrow> error + string"
  ep_github :: "(string \<Rightarrow> string \<Rightarrow> error + GitHubState option) option"
  ep_openclaw :: bool

definition Deliver :: "string \<Rightarrow> finding_row list \<Rightarrow> string \<Rightarrow> deliverPayload list" where
  "Deliver sessionID fs source =
     (if fs = [] then []
      else [\<lparr>dp_session_id = sessionID,
        dp_findings = map (\<lambda>f. \<lparr>af_severity = fi_severity f, af_file = fi_file f, af_line = fi_line f,
          af_message = fi_message f, af_rule_id = fi_rule_id f\<rparr>) fs, dp_source = source\<rparr>])"

definition maybeDeliverFindings ::
  "bool \<Rightarrow> faults \<Rightarrow> string \<Rightarrow> string \<Rightarrow> finding_row list \<Rightarrow> review_db \<Rightarrow> deliverPayload list" where
  "maybeDeliverFindings openclaw flt repo branch fs d =
     (if \<not> openclaw \<or> fs = [] then []
      else case FindActiveSessionForBranch flt repo branch (agents d) of
        Inl e \<Rightarrow> []
      | Inr None \<Rightarrow> []
      | Inr (Some session) \<Rightarrow> Deliver (s_session_id session) fs ''codero-webhook'')"

definition append_system ::
  "'r EventProcessor \<Rightarrow> rfaults \<Rightarrow> faults \<Rightarrow> gotime \<Rightarrow> string \<Rightarrow> string \<Rightarrow> string \<Rightarrow> string \<Rightarrow> string \<Rightarrow>
   'r \<Rightarrow> review_db \<Rightarrow> 'r \<times> review_db" where
  "append_system p rf flt now repo branch headHash reason details s d =
     (case AppendSystem (ep_stream p) rf flt now repo branch headHash (ep_marshal p) reason details s (core (agents d)) of
        (_, s', c) \<Rightarrow> (s', d\<lparr>agents := (agents d)\<lparr>core := c\<rparr>\<rparr>))"

definition updateLinkAndInvalidateCache ::
  "faults \<Rightarrow> gotime \<Rightarrow> (string \<Rightarrow> string) \<Rightarrow> string \<Rightarrow> string \<Rightarrow> string \<Rightarrow> string \<Rightarrow> int \<Rightarrow> review_db \<Rightarrow> review_db" where
  "updateLinkAndInvalidateCache flt now uuid repo branch action headHash prNum d =
     (case GetLinkByBranch (at_site ''link'' flt) repo branch d of
        Inl e \<Rightarrow> d
      | Inr link \<Rightarrow>
        let d1 = (if action = ''opened'' then
                    snd (UpsertGitHubLink (at_site ''upsert'' flt) now (uuid ''link'')
                      (link\<lparr>gl_pr_number := (if prNum > 0 then prNum else gl_pr_number link), gl_pr_state := ''open''\<rparr>) d)
                  else if action = ''closed'' then snd (UpdateLinkPRState (at_site ''closed'' flt) now (gl_link_id link) ''closed'' d)
                  else if action = ''synchronize'' \<and> headHash \<noteq> '''' then
                    snd (UpdateLinkHeadSHA (at_site ''head'' flt) now (gl_link_id link) headHash d)
                  else d)
        in snd (InvalidateFeedbackCacheByTaskID (at_site ''invalidate'' flt) (gl_task_id link) d1))"

definition invalidateCacheForBranch :: "faults \<Rightarrow> string \<Rightarrow> string \<Rightarrow> review_db \<Rightarrow> review_db" where
  "invalidateCacheForBranch flt repo branch d =
     (case GetLinkByBranch (at_site ''link'' flt) repo branch d of
        Inl e \<Rightarrow> d
      | Inr link \<Rightarrow> snd (InvalidateFeedbackCacheByTaskID (at_site ''invalidate'' flt) (gl_task_id link) d))"

definition updateCILinkAndInvalidateCache :: "faults \<Rightarrow> gotime \<Rightarrow> string \<Rightarrow> string \<Rightarrow> string \<Rightarrow> review_db \<Rightarrow> review_db" where
  "updateCILinkAndInvalidateCache flt now repo branch ciRunID d =
     (case GetLinkByBranch (at_site ''link'' flt) repo branch d of
        Inl e \<Rightarrow> d
      | Inr link \<Rightarrow>
        let d1 = (if ciRunID \<noteq> '''' then snd (UpdateLinkCIRunID (at_site ''ci run'' flt) now (gl_link_id link) ciRunID d) else d)
        in snd (InvalidateFeedbackCacheByTaskID (at_site ''invalidate'' flt) (gl_task_id link) d1))"

definition handlePullRequest ::
  "'r EventProcessor \<Rightarrow> rfaults \<Rightarrow> faults \<Rightarrow> gotime \<Rightarrow> (string \<Rightarrow> string) \<Rightarrow> GitHubEvent \<Rightarrow> 'r \<Rightarrow> review_db \<Rightarrow>
   (error + unit) \<times> 'r \<times> review_db" where
  "handlePullRequest p rf flt now uuid ev s d =
     (let action = str_at (ev_payload ev) ''action''; branch = prBranch (ev_payload ev);
          headHash = prHeadSHA (ev_payload ev); repo = ev_repo ev;
          finish = (\<lambda>s' d'. (Inr (), s', updateLinkAndInvalidateCache (at_site ''cache'' flt) now uuid repo branch action headHash
                             (prNumber (ev_payload ev)) d'))
      in if branch = '''' then (Inr (), s, d)
      else case GetBranch (at_site ''branch'' flt) repo branch (core (agents d)) of
        Inl e \<Rightarrow> if e = ErrBranchNotFound then finish s d else (Inl e, s, d)
      | Inr rec \<Rightarrow>
        if action = ''closed'' then
          let merged = prMerged (ev_payload ev);
              targetState = (if merged then StateMerged else StateAbandoned);
              trigger = (if merged then ''pr_merged_webhook'' else ''pr_closed_webhook'')
          in if State rec = targetState then finish s d
          else (case lift_branches (TransitionBranch (ep_lib p) (at_site ''transition'' flt) (truncate_second now) (ID rec) (State rec)
                      targetState trigger) d of
              (Inl e, d1) \<Rightarrow> finish s d1
            | (Inr _, d1) \<Rightarrow>
               (case append_system p (at_site ''event'' rf) (at_site ''event'' flt) now repo branch headHash
                  (if merged then ''pr_merged'' else ''pr_closed'') ''pull_request closed via webhook'' s d1 of (s', d2) \<Rightarrow> finish s' d2))
        else if action = ''synchronize'' \<and> headHash \<noteq> '''' \<and> headHash \<noteq> HeadHash rec then
          (case lift_branches (UpdateHeadHashAndTransition (at_site ''transition'' flt) (truncate_second now) (ID rec) headHash
                      (State rec) StateStale ''synchronize_webhook'') d of
              (Inl e, d1) \<Rightarrow> finish s d1
            | (Inr _, d1) \<Rightarrow>
               (case append_system p (at_site ''event'' rf) (at_site ''event'' flt) now repo branch headHash ''head_updated''
                  (''new head '' @ headHash @ '' via synchronize webhook'') s d1 of (s', d2) \<Rightarrow> finish s' d2))
        else finish s d)"

text \<open>
  The two values a review event writes: those of GitHub when a client is configured and answers, otherwise the
  ones of the event alone; \<open>None\<close> skips the event.
\<close>

definition review_values ::
  "(string \<Rightarrow> string \<Rightarrow> error + GitHubState option) option \<Rightarrow> string \<Rightarrow> string \<Rightarrow> string \<Rightarrow> (bool \<times> int) option" where
  "review_values client repo branch stateStr =
     (case client of
        Some get \<Rightarrow> (case get repo branch of
            Inr (Some gh) \<Rightarrow> Some (gh_approved gh, gh_unresolved_threads gh)
          | _ \<Rightarrow> None)
      | None \<Rightarrow>
          if stateStr = ''approved'' then Some (True, 0)
          else if stateStr = ''changes_requested'' then Some (False, 1) else None)"

definition record_review ::
  "'r EventProcessor \<Rightarrow> faults \<Rightarrow> gotime \<Rightarrow> (string \<Rightarrow> string) \<Rightarrow> GitHubEvent \<Rightarrow> payload \<Rightarrow> string \<Rightarrow> string \<Rightarrow> string \<Rightarrow> review_db \<Rightarrow>
   deliverPayload list \<times> review_db" where
  "record_review p flt now uuid ev review stateStr branch headHash d =
     (let login = (case obj_at review ''user'' of None \<Rightarrow> '''' | Some user \<Rightarrow> str_at user ''login'');
          reviewSource = (if login = '''' then ''unknown-reviewer'' else login);
          runID = ev_delivery_id ev;
          fs = review_finding_rows now uuid (ev_repo ev) branch (str_at review ''body'') stateStr reviewSource runID
      in if fs = [] then ([], d)
      else case InsertReviewRun (at_site ''run'' flt) now runID (ev_repo ev) branch headHash ''webhook-review'' ''completed'' d of
        (Inl e, d1) \<Rightarrow> ([], d1)
      | (Inr _, d1) \<Rightarrow>
        (case lift_branches (InsertFindings (at_site ''findings'' flt) fs) d1 of
           (Inl e, d2) \<Rightarrow> ([], d2)
         | (Inr _, d2) \<Rightarrow> (maybeDeliverFindings (ep_openclaw p) (at_site ''session'' flt) (ev_repo ev) branch fs d2, d2)))"

definition handlePullRequestReview ::
  "'r EventProcessor \<Rightarrow> rfaults \<Rightarrow> faults \<Rightarrow> gotime \<Rightarrow> (string \<Rightarrow> string) \<Rightarrow> GitHubEvent \<Rightarrow> 'r \<Rightarrow> review_db \<Rightarrow>
   (error + unit) \<times> deliverPayload list \<times> 'r \<times> review_db" where
  "handlePullRequestReview p rf flt now uuid ev s d =
     (let branch = prBranch (ev_payload ev); headHash = prHeadSHA (ev_payload ev); repo = ev_repo ev in
      if str_at (ev_payload ev) ''action'' \<noteq> ''submitted'' then (Inr (), [], s, d)
      else case obj_at (ev_payload ev) ''review'' of
        None \<Rightarrow> (Inr (), [], s, d)
      | Some review \<Rightarrow>
        let stateStr = str_at review ''state'' in
        if branch = '''' then (Inr (), [], s, d)
        else case GetBranch (at_site ''branch'' flt) repo branch (core (agents d)) of
          Inl e \<Rightarrow> if e = ErrBranchNotFound then (Inr (), [], s, d) else (Inl e, [], s, d)
        | Inr rec \<Rightarrow>
          (case review_values (ep_github p) repo branch stateStr of
             None \<Rightarrow> (Inr (), [], s, d)
           | Some (approved, unresolvedThreads) \<Rightarrow>
             (case lift_branches (UpdateMergeReadiness (at_site ''readiness'' flt) (truncate_second now) (ID rec) approved (CIGreen rec)
                       (PendingEvents rec) unresolvedThreads) d of
                (Inl e, d1) \<Rightarrow> (Inr (), [], s, d1)
              | (Inr _, d1) \<Rightarrow>
                (case append_system p (at_site ''event'' rf) (at_site ''event'' flt) now repo branch headHash (''review_'' @ stateStr)
                    ''pull_request_review webhook'' s d1 of
                   (s', d2) \<Rightarrow>
                   (case record_review p (at_site ''record'' flt) now uuid ev review stateStr branch headHash
                      (invalidateCacheForBranch (at_site ''cache'' flt) repo branch d2) of
                      (sent, d3) \<Rightarrow> (Inr (), sent, s', d3))))))"

definition check_run_values ::
  "(string \<Rightarrow> string \<Rightarrow> error + GitHubState option) option \<Rightarrow> string \<Rightarrow> string \<Rightarrow> string \<Rightarrow> BranchRecord \<Rightarrow>
   (bool \<times> bool \<times> int \<times> int) option" where
  "check_run_values client repo branch conclusion rec =
     (case client of
        Some get \<Rightarrow> (case get repo branch of
            Inr (Some gh) \<Rightarrow> Some (gh_approved gh, gh_ci_green gh, gh_pending_events gh, gh_unresolved_threads gh)
          | _ \<Rightarrow> None)
      | None \<Rightarrow> Some (Approved rec, conclusion \<in> {''success'', ''neutral'', ''skipped''}, PendingEvents rec, UnresolvedThreads rec))"

definition handleCheckRun ::
  "'r EventProcessor \<Rightarrow> rfaults \<Rightarrow> faults \<Rightarrow> gotime \<Rightarrow> GitHubEvent \<Rightarrow> 'r \<Rightarrow> review_db \<Rightarrow> (error + unit) \<times> 'r \<times> review_db" where
  "handleCheckRun p rf flt now ev s d =
     (case obj_at (ev_payload ev) ''check_run'' of
        None \<Rightarrow> (Inr (), s, d)
      | Some cr \<Rightarrow>
        let conclusion = str_at cr ''conclusion''; branch = checkRunBranch (ev_payload ev);
            headHash = checkRunHeadSHA (ev_payload ev); repo = ev_repo ev
        in if str_at cr ''status'' \<noteq> ''completed'' then (Inr (), s, d)
        else if branch = '''' then (Inr (), s, d)
        else case GetBranch (at_site ''branch'' flt) repo branch (core (agents d)) of
          Inl e \<Rightarrow> if e = ErrBranchNotFound then (Inr (), s, d) else (Inl e, s, d)
        | Inr rec \<Rightarrow>
          (case check_run_values (ep_github p) repo branch conclusion rec of
             None \<Rightarrow> (Inr (), s, d)
           | Some (approved, ciGreen, pendingEvents, unresolvedThreads) \<Rightarrow>
             (case lift_branches (UpdateMergeReadiness (at_site ''readiness'' flt) (truncate_second now) (ID rec) approved ciGreen
                       pendingEvents unresolvedThreads) d of
                (Inl e, d1) \<Rightarrow> (Inr (), s, d1)
              | (Inr _, d1) \<Rightarrow>
                (case append_system p (at_site ''event'' rf) (at_site ''event'' flt) now repo branch headHash (''check_run_'' @ conclusion)
                    ''check_run webhook'' s d1 of
                   (s', d2) \<Rightarrow> (Inr (), s', updateCILinkAndInvalidateCache (at_site ''cache'' flt) now repo branch (checkRunID (ev_payload ev)) d2)))))"

definition ProcessEvent ::
  "'r EventProcessor \<Rightarrow> rfaults \<Rightarrow> faults \<Rightarrow> gotime \<Rightarrow> (string \<Rightarrow> string) \<Rightarrow> GitHubEvent \<Rightarrow> 'r \<Rightarrow> review_db \<Rightarrow>
   (error + unit) \<times> deliverPayload list \<times> 'r \<times> review_db" where
  "ProcessEvent p rf flt now uuid ev s d =
     (if ev_event_type ev = ''pull_request'' then (case handlePullRequest p rf flt now uuid ev s d of (r, s', d') \<Rightarrow> (r, [], s', d'))
      else if ev_event_type ev = ''pull_request_review'' then handlePullRequestReview p rf flt now uuid ev s d
      else if ev_event_type ev = ''check_run'' then (case handleCheckRun p rf flt now ev s d of (r, s', d') \<Rightarrow> (r, [], s', d'))
      else (Inr (), [], s, d))"

section \<open>The HTTP handler\<close>

record request =
  rq_method :: string
  rq_body :: "error + string"
  rq_signature :: string
  rq_delivery :: string
  rq_event :: string

definition maxBodySize :: nat where
  "maxBodySize = 10 * 1024 * 1024"

text \<open>\<open>hex.DecodeString\<close> accepts digits of either case and refuses an odd length.\<close>

definition hex_digit :: "char \<Rightarrow> nat option" where
  "hex_digit c =
     (let n = of_char c in
      if 48 \<le> n \<and> n \<le> 57 then Some (n - 48)
      else if 97 \<le> n \<and> n \<le> 102 then Some (n - 87)
      else if 65 \<le> n \<and> n \<le> 70 then Some (n - 55) else None)"

fun hex_decode :: "string \<Rightarrow> string option" where
  "hex_decode [] = Some []"
| "hex_decode [_] = None"
| "hex_decode (a # b # cs) =
     (case (hex_digit a, hex_digit b, hex_decode cs) of
        (Some x, Some y, Some s) \<Rightarrow> Some (char_of (16 * x + y) # s)
      | _ \<Rightarrow> None)"

definition verifySignature :: "(string \<Rightarrow> string \<Rightarrow> string) \<Rightarrow> string \<Rightarrow> string \<Rightarrow> string \<Rightarrow> error + unit" where
  "verifySignature hmac secret body sig =
     (if \<not> HasPrefix sig ''sha256='' then Inl (OtherError ''signature missing sha256= prefix'')
      else case hex_decode (TrimPrefix sig ''sha256='') of
        None \<Rightarrow> Inl (OtherError ''invalid signature hex'')
      | Some got \<Rightarrow> if got = hmac secret body then Inr () else Inl (OtherError ''signature mismatch''))"

text \<open>The body is read up to one byte past the limit.\<close>

definition ServeHTTP ::
  "(string \<Rightarrow> string \<Rightarrow> string) \<Rightarrow> (string \<Rightarrow> payload option) \<Rightarrow> string \<Rightarrow> 'r EventProcessor \<Rightarrow> rfaults \<Rightarrow> faults \<Rightarrow> gotime \<Rightarrow>
   (string \<Rightarrow> string) \<Rightarrow> request \<Rightarrow> 'r \<Rightarrow> review_db \<Rightarrow> (nat \<times> string) \<times> deliverPayload list \<times> 'r \<times> review_db" where
  "ServeHTTP hmac unmarshal secret p rf flt now uuid rq s d =
     (if rq_method rq \<noteq> ''POST'' then ((405, ''method not allowed''), [], s, d)
      else case rq_body rq of
        Inl e \<Rightarrow> ((400, ''read error''), [], s, d)
      | Inr full \<Rightarrow>
        let body = take (maxBodySize + 1) full in
        if length body > maxBodySize then ((413, ''payload too large''), [], s, d)
        else if secret \<noteq> '''' \<and> verifySignature hmac secret body (rq_signature rq) \<noteq> Inr ()
        then ((401, ''signature verification failed''), [], s, d)
        else if rq_delivery rq = '''' then ((400, ''missing X-GitHub-Delivery header''), [], s, d)
        else if rq_event rq = '''' then ((400, ''missing X-GitHub-Event header''), [], s, d)
        else case unmarshal body of
          None \<Rightarrow> ((400, ''invalid JSON payload''), [], s, d)
        | Some payload \<Rightarrow>
          let repo = extractRepo payload in
          (case Check (ep_stream p) (at_site ''dedup'' rf) (at_site ''dedup'' flt) now (rq_delivery rq) (rq_event rq) repo s (core (agents d)) of
             (Inl e, s1, c1) \<Rightarrow>
               ((if e = ErrDuplicate then (200, ''duplicate'') else (500, ''internal error'')), [], s1, d\<lparr>agents := (agents d)\<lparr>core := c1\<rparr>\<rparr>)
           | (Inr _, s1, c1) \<Rightarrow>
               (case ProcessEvent p (at_site ''process'' rf) (at_site ''process'' flt) now uuid
                   \<lparr>ev_delivery_id = rq_delivery rq, ev_event_type = rq_event rq, ev_repo = repo, ev_payload = payload\<rparr>
                   s1 (d\<lparr>agents := (agents d)\<lparr>core := c1\<rparr>\<rparr>) of
                  (r, sent, s2, d2) \<Rightarrow>
                    ((case r of Inl e \<Rightarrow> (500, ''processing error'') | Inr _ \<Rightarrow> (200, ''ok'')), sent, s2, d2))))"

definition UseGitHubApp :: "string \<Rightarrow> bool" where
  "UseGitHubApp v \<longleftrightarrow> v = '''' \<or> v = ''true'' \<or> v = ''1''"

definition Handles :: "string list" where
  "Handles = [''pull_request'', ''pull_request_review'', ''check_run'', ''push'', ''create'', ''delete'']"

definition Handle ::
  "(string \<Rightarrow> payload option) \<Rightarrow> 'r EventProcessor \<Rightarrow> rfaults \<Rightarrow> faults \<Rightarrow> gotime \<Rightarrow> (string \<Rightarrow> string) \<Rightarrow> string \<Rightarrow> string \<Rightarrow> string \<Rightarrow>
   'r \<Rightarrow> review_db \<Rightarrow> (error + unit) \<times> deliverPayload list \<times> 'r \<times> review_db" where
  "Handle unmarshal p rf flt now uuid eventType deliveryID body s d =
     (case unmarshal body of
        None \<Rightarrow> (Inl (OtherError ''invalid JSON''), [], s, d)
      | Some payload \<Rightarrow>
        let repo = extractRepo payload in
        (case Check (ep_stream p) (at_site ''dedup'' rf) (at_site ''dedup'' flt) now deliveryID eventType repo s (core (agents d)) of
           (Inl e, s1, c1) \<Rightarrow>
             (if e = ErrDuplicate then Inr () else Inl e, [], s1, d\<lparr>agents := (agents d)\<lparr>core := c1\<rparr>\<rparr>)
         | (Inr _, s1, c1) \<Rightarrow>
             ProcessEvent p (at_site ''process'' rf) (at_site ''process'' flt) now uuid
               \<lparr>ev_delivery_id = deliveryID, ev_event_type = eventType, ev_repo = repo, ev_payload = payload\<rparr>
               s1 (d\<lparr>agents := (agents d)\<lparr>core := c1\<rparr>\<rparr>)))"

section \<open>What a webhook writes\<close>

text \<open>
  A webhook writes branches by the operations of the branch store, and the links and caches; it never touches a
  session or an assignment, and never forgets a delivery.
\<close>

definition hook_run :: "review_db \<Rightarrow> review_db \<Rightarrow> bool" where
  "hook_run d d' \<longleftrightarrow> branch_write\<^sup>*\<^sup>* (core (agents d)) (core (agents d')) \<and> agents d' = (agents d)\<lparr>core := core (agents d')\<rparr> \<and>
     (\<exists>ws. webhook_deliveries (core (agents d')) = webhook_deliveries (core (agents d)) @ ws)"

named_theorems hooks

lemma hook_run_agents: "agents d' = agents d \<Longrightarrow> hook_run d d'"
  by (cases "agents d") (simp add: hook_run_def)

lemma hook_run_refl [hooks, simp]: "hook_run d d"
  by (rule hook_run_agents) (rule refl)

lemma hook_run_trans: "hook_run d d' \<Longrightarrow> hook_run d' d'' \<Longrightarrow> hook_run d d''"
  unfolding hook_run_def by (metis agent_db.surjective agent_db.update_convs(1) append_assoc rtranclp_trans)

lemma hook_run_core:
  assumes "(store_step lib)\<^sup>*\<^sup>* (core (agents d)) c" and "fsm_library lib"
  shows "hook_run d (d\<lparr>agents := (agents d)\<lparr>core := c\<rparr>\<rparr>)"
proof -
  have "branch_write\<^sup>*\<^sup>* (core (agents d)) c"
    using assms(1) by (induction rule: rtranclp_induct) (auto intro: rtranclp.rtrancl_into_rtrancl store_step_write [OF _ assms(2)])
  then show ?thesis using store_steps_webhooks [OF assms(1)] by (auto simp: hook_run_def)
qed

lemma lift_branches_hook:
  assumes "lift_branches f d = (r, d')" and "\<And>c r c'. f c = (r, c') \<Longrightarrow> store_step lib c c'" and "fsm_library lib"
  shows "hook_run d d'"
proof -
  obtain c where c: "f (core (agents d)) = (r, c)" "d' = d\<lparr>agents := (agents d)\<lparr>core := c\<rparr>\<rparr>"
    using assms(1) by (auto simp: lift_branches_def split: prod.splits)
  have "(store_step lib)\<^sup>*\<^sup>* (core (agents d)) c" using assms(2) [OF c(1)] by (rule r_into_rtranclp)
  then show ?thesis unfolding c(2) using assms(3) by (rule hook_run_core)
qed

lemma append_system_hook:
  assumes "append_system p rf flt now repo branch h rs det s d = (s', d')" and "fsm_library lib"
  shows "hook_run d d'"
  using assms hook_run_core [OF _ assms(2)] system_db_frame [where lib = lib]
  by (fastforce simp: append_system_def split: prod.splits)

lemma link_agents [simp]:
  "agents (snd (UpsertGitHubLink flt now uuid l d)) = agents d"
  "agents (snd (UpdateLinkPRState flt now lid st d)) = agents d"
  "agents (snd (UpdateLinkHeadSHA flt now lid st d)) = agents d"
  "agents (snd (UpdateLinkCIRunID flt now lid st d)) = agents d"
  "agents (snd (InvalidateFeedbackCacheByTaskID flt task d)) = agents d"
  by (simp_all add: UpsertGitHubLink_def UpdateLinkPRState_def UpdateLinkHeadSHA_def UpdateLinkCIRunID_def update_link_def
      InvalidateFeedbackCacheByTaskID_def sql_try_def Let_def split: option.split)

lemma cache_agents [simp]:
  "agents (updateLinkAndInvalidateCache flt now uuid repo branch action h n d) = agents d"
  "agents (invalidateCacheForBranch flt repo branch d) = agents d"
  "agents (updateCILinkAndInvalidateCache flt now repo branch ci d) = agents d"
  by (simp_all add: updateLinkAndInvalidateCache_def invalidateCacheForBranch_def updateCILinkAndInvalidateCache_def Let_def
      split: sum.split)

lemma cache_hooks [hooks]:
  "hook_run d' d \<Longrightarrow> hook_run d' (updateLinkAndInvalidateCache flt now uuid repo branch action h n d)"
  "hook_run d' d \<Longrightarrow> hook_run d' (invalidateCacheForBranch flt repo branch d)"
  "hook_run d' d \<Longrightarrow> hook_run d' (updateCILinkAndInvalidateCache flt now repo branch ci d)"
  by (rule hook_run_trans, assumption, rule hook_run_agents, simp)+

lemma InsertReviewRun_hook:
  assumes "InsertReviewRun flt now rid repo branch h pr st d = (r, d')"
  shows "hook_run d d'"
proof (cases "d' = d")
  case False
  let ?run = "\<lparr>rr_id = rid, rr_repo = repo, rr_branch = branch, rr_head_hash = h, rr_provider = pr,
          rr_status = st, rr_started_at = Some now, rr_finished_at = Some now, rr_error = '''', rr_created_at = now\<rparr>"
  let ?c = "(core (agents d))\<lparr>review_runs := review_runs (core (agents d)) @ [?run]\<rparr>"
  have e: "rid \<notin> rr_id ` set (review_runs (core (agents d)))" "d' = d\<lparr>agents := (agents d)\<lparr>core := ?c\<rparr>\<rparr>"
    using assms False by (auto simp: InsertReviewRun_def insert_run_def sql_try_def Let_def split: option.splits if_splits)
  have "branch_write (core (agents d)) ?c"
    using e(1) by (intro branch_write.other) (auto simp: schema_ok_def)
  then show ?thesis by (auto simp: hook_run_def e(2))
qed simp

lemma record_review_hook:
  assumes "record_review p flt now uuid ev review st branch h d = (sent, d')" and "fsm_library lib"
  shows "hook_run d d'"
proof -
  define fs where "fs = review_finding_rows now uuid (ev_repo ev) branch (str_at review ''body'') st
    (if (case obj_at review ''user'' of None \<Rightarrow> '''' | Some user \<Rightarrow> str_at user ''login'') = '''' then ''unknown-reviewer''
     else (case obj_at review ''user'' of None \<Rightarrow> '''' | Some user \<Rightarrow> str_at user ''login'')) (ev_delivery_id ev)"
  obtain r1 d1 where 1: "InsertReviewRun (at_site ''run'' flt) now (ev_delivery_id ev) (ev_repo ev) branch h ''webhook-review'' ''completed'' d
    = (r1, d1)" by fastforce
  obtain r2 d2 where 2: "lift_branches (InsertFindings (at_site ''findings'' flt) fs) d1 = (r2, d2)" by fastforce
  note body = assms(1) [unfolded record_review_def Let_def, folded fs_def, unfolded 1 prod.case 2]
  have "d' = d \<or> d' = d1 \<or> d' = d2" using body by (simp split: if_splits sum.splits)
  moreover have "hook_run d1 d2"
    using 2 by (rule lift_branches_hook) (rule store_step.insert_findings, assumption, rule assms(2))
  ultimately show ?thesis using InsertReviewRun_hook [OF 1] hook_run_trans [of d d1 d2] by auto
qed

lemma handlePullRequest_hook:
  assumes "handlePullRequest p rf flt now uuid ev s d = (r, s', d')" and "fsm_library (ep_lib p)"
  shows "hook_run d d'"
proof -
  define repo where "repo = ev_repo ev"
  define branch where "branch = prBranch (ev_payload ev)"
  define finish where "finish = updateLinkAndInvalidateCache (at_site ''cache'' flt) now uuid repo branch (str_at (ev_payload ev) ''action'')
    (prHeadSHA (ev_payload ev)) (prNumber (ev_payload ev))"
  have f: "hook_run d (finish d1)" if "hook_run d d1" for d1 unfolding finish_def by (rule cache_hooks(1) [OF that])
  have t: "hook_run d d1" if "lift_branches (TransitionBranch (ep_lib p) flt t i from to trig) d = (x, d1)" for flt t i "from" to trig x d1
    using that by (rule lift_branches_hook) (rule store_step.transition, assumption, rule assms(2))
  have h: "hook_run d d1" if "lift_branches (UpdateHeadHashAndTransition flt t i hh from to trig) d = (x, d1)" for flt t i hh "from" to trig x d1
    using that by (rule lift_branches_hook) (rule store_step.head_transition, assumption, rule assms(2))
  have a: "hook_run d d2" if "hook_run d d1" "append_system p rf flt now repo branch hh rs det s d1 = (s2, d2)" for rf flt hh rs det d1 s2 d2
    using that(1) append_system_hook [OF that(2) assms(2)] by (rule hook_run_trans)
  show ?thesis
    using assms(1) unfolding handlePullRequest_def Let_def repo_def [symmetric] branch_def [symmetric] finish_def [symmetric]
    by (auto split: if_splits sum.splits prod.splits intro!: f dest!: t h intro: a)
qed

lemma readiness_hook:
  assumes "lift_branches (UpdateMergeReadiness flt t i ap ci pe ut) d = (r, d')" and "fsm_library lib"
  shows "hook_run d d'"
  using assms(1) by (rule lift_branches_hook) (rule store_step.readiness, assumption, rule assms(2))

lemma handlePullRequestReview_hook:
  assumes "handlePullRequestReview p rf flt now uuid ev s d = (r, sent, s', d')" and "fsm_library lib"
  shows "hook_run d d'"
proof -
  have a: "hook_run d d2"
    if "lift_branches (UpdateMergeReadiness flt1 t i ap ci pe ut) d = (x, d1)" "append_system p rf flt2 now repo branch hh rs det s d1 = (s2, d2)"
    for flt1 t i ap ci pe ut x rf flt2 repo branch hh rs det d1 s2 d2
    using readiness_hook [OF that(1) assms(2)] append_system_hook [OF that(2) assms(2)] by (rule hook_run_trans)
  have c: "hook_run d d3"
    if "hook_run d d2" "record_review p flt3 now uuid ev rv st br hh (invalidateCacheForBranch flt4 repo branch d2) = (sn, d3)"
    for flt3 rv st br hh flt4 repo branch d2 sn d3
    using cache_hooks(2) [OF that(1)] record_review_hook [OF that(2) assms(2)] by (rule hook_run_trans)
  show ?thesis
    using assms(1) unfolding handlePullRequestReview_def Let_def
    by (auto split: if_splits sum.splits prod.splits option.splits intro: readiness_hook [OF _ assms(2)] c [OF a])
qed

lemma handleCheckRun_hook:
  assumes "handleCheckRun p rf flt now ev s d = (r, s', d')" and "fsm_library lib"
  shows "hook_run d d'"
proof -
  have a: "hook_run d d2"
    if "lift_branches (UpdateMergeReadiness flt1 t i ap ci pe ut) d = (x, d1)" "append_system p rf flt2 now repo branch hh rs det s d1 = (s2, d2)"
    for flt1 t i ap ci pe ut x rf flt2 repo branch hh rs det d1 s2 d2
    using readiness_hook [OF that(1) assms(2)] append_system_hook [OF that(2) assms(2)] by (rule hook_run_trans)
  show ?thesis
    using assms(1) unfolding handleCheckRun_def Let_def
    by (auto split: if_splits sum.splits prod.splits option.splits intro: readiness_hook [OF _ assms(2)] intro!: cache_hooks(3) intro: a)
qed

lemma ProcessEvent_hook:
  assumes "ProcessEvent p rf flt now uuid ev s d = (r, sent, s', d')" and "fsm_library (ep_lib p)"
  shows "hook_run d d'"
  using assms(1) handlePullRequest_hook [OF _ assms(2)] handlePullRequestReview_hook [OF _ assms(2)] handleCheckRun_hook [OF _ assms(2)]
  unfolding ProcessEvent_def by (auto split: if_splits prod.splits)

lemma Check_hook:
  assumes "Check api rf flt now did ty repo s (core (agents d)) = (r, s', c)" and "fsm_library lib"
  shows "hook_run d (d\<lparr>agents := (agents d)\<lparr>core := c\<rparr>\<rparr>)"
proof -
  have "c = core (agents d) \<or> (\<exists>x. MarkWebhookDelivery flt now did ty repo (core (agents d)) = (x, c))"
    using assms(1) by (auto simp: Check_def split: if_splits prod.splits bool.splits sum.splits)
  then have "(store_step lib)\<^sup>*\<^sup>* (core (agents d)) c" by (auto intro: store_step.webhook)
  then show ?thesis using assms(2) by (rule hook_run_core)
qed

text \<open>The checks a request passes before it has any effect.\<close>

definition admitted :: "(string \<Rightarrow> string \<Rightarrow> string) \<Rightarrow> (string \<Rightarrow> payload option) \<Rightarrow> string \<Rightarrow> request \<Rightarrow> payload option" where
  "admitted hmac unmarshal secret rq =
     (case rq_body rq of Inl e \<Rightarrow> None
      | Inr body \<Rightarrow> if rq_method rq = ''POST'' \<and> length body \<le> maxBodySize \<and> rq_delivery rq \<noteq> '''' \<and> rq_event rq \<noteq> '''' \<and>
            (secret = '''' \<or> verifySignature hmac secret body (rq_signature rq) = Inr ()) then unmarshal body else None)"

lemma serve_refused:
  assumes "admitted hmac unmarshal secret rq = None" and "ServeHTTP hmac unmarshal secret p rf flt now uuid rq s d = (resp, sent, s', d')"
  shows "sent = [] \<and> s' = s \<and> d' = d \<and> fst resp \<in> {400, 401, 405, 413}"
  using assms unfolding admitted_def ServeHTTP_def Let_def
  by (auto simp: not_le min_def split: sum.splits if_splits option.splits)

lemma serve_admitted:
  assumes "admitted hmac unmarshal secret rq = Some pl"
  shows "ServeHTTP hmac unmarshal secret p rf flt now uuid rq s d =
    (case Check (ep_stream p) (at_site ''dedup'' rf) (at_site ''dedup'' flt) now (rq_delivery rq) (rq_event rq) (extractRepo pl) s (core (agents d)) of
       (Inl e, s1, c1) \<Rightarrow>
         ((if e = ErrDuplicate then (200, ''duplicate'') else (500, ''internal error'')), [], s1, d\<lparr>agents := (agents d)\<lparr>core := c1\<rparr>\<rparr>)
     | (Inr _, s1, c1) \<Rightarrow>
         (case ProcessEvent p (at_site ''process'' rf) (at_site ''process'' flt) now uuid
             \<lparr>ev_delivery_id = rq_delivery rq, ev_event_type = rq_event rq, ev_repo = extractRepo pl, ev_payload = pl\<rparr>
             s1 (d\<lparr>agents := (agents d)\<lparr>core := c1\<rparr>\<rparr>) of
            (r, sent, s2, d2) \<Rightarrow> ((case r of Inl e \<Rightarrow> (500, ''processing error'') | Inr _ \<Rightarrow> (200, ''ok'')), sent, s2, d2)))"
proof -
  obtain body where b: "rq_body rq = Inr body" "rq_method rq = ''POST''" "length body \<le> maxBodySize" "rq_delivery rq \<noteq> ''''"
    "rq_event rq \<noteq> ''''" "secret = '''' \<or> verifySignature hmac secret body (rq_signature rq) = Inr ()" "unmarshal body = Some pl"
    using assms by (auto simp: admitted_def split: sum.splits if_splits)
  have "take (maxBodySize + 1) body = body" using b(3) by simp
  with b(6) show ?thesis by (elim disjE) (simp_all add: ServeHTTP_def Let_def b(1,2,4,5,7) b(3) [THEN leD])
qed

lemma serve_hook:
  assumes "ServeHTTP hmac unmarshal secret p rf flt now uuid rq s d = (resp, sent, s', d')" and "fsm_library (ep_lib p)"
  shows "hook_run d d'"
proof (cases "admitted hmac unmarshal secret rq")
  case None
  show ?thesis using serve_refused [OF None assms(1)] by simp
next
  case (Some pl)
  obtain r s1 c1 where c: "Check (ep_stream p) (at_site ''dedup'' rf) (at_site ''dedup'' flt) now (rq_delivery rq) (rq_event rq) (extractRepo pl) s
    (core (agents d)) = (r, s1, c1)" using prod_cases3 by blast
  note h = Check_hook [OF c assms(2)]
  show ?thesis
  proof (cases r)
    case (Inl e)
    then show ?thesis using assms(1) h unfolding serve_admitted [OF Some] by (auto simp: c)
  next
    case (Inr u)
    obtain x y s2 d2 where e: "ProcessEvent p (at_site ''process'' rf) (at_site ''process'' flt) now uuid
      \<lparr>ev_delivery_id = rq_delivery rq, ev_event_type = rq_event rq, ev_repo = extractRepo pl, ev_payload = pl\<rparr>
      s1 (d\<lparr>agents := (agents d)\<lparr>core := c1\<rparr>\<rparr>) = (x, y, s2, d2)" using prod_cases4 by blast
    have "d' = d2" using assms(1) Inr unfolding serve_admitted [OF Some] by (simp add: c e)
    then show ?thesis using hook_run_trans [OF h ProcessEvent_hook [OF e assms(2)]] by simp
  qed
qed

lemma hook_run_inv: "hook_run d d' \<Longrightarrow> agent_inv (agents d) \<Longrightarrow> agent_inv (agents d')"
proof -
  assume h: "hook_run d d'" and i: "agent_inv (agents d)"
  have "branch_write\<^sup>*\<^sup>* c c' \<Longrightarrow> agent_write\<^sup>*\<^sup>* (a\<lparr>core := c\<rparr>) (a\<lparr>core := c'\<rparr>)" for c c' and a :: agent_db
    by (induction rule: rtranclp_induct) (auto intro!: write_core intro: rtranclp.rtrancl_into_rtrancl simp: tabs_def)
  from this [of "core (agents d)" "core (agents d')" "agents d"] h have "agent_write\<^sup>*\<^sup>* (agents d) (agents d')"
    unfolding hook_run_def by (metis agent_db.surjective agent_db.update_convs(1))
  then show ?thesis using i by (rule agent_writes_inv)
qed

section \<open>Properties\<close>

text \<open>
  C20: the gate of the webhook endpoint. A request has an effect (a change in Redis or in the database, a
  message to the adapter, an answer 200) only if it is a POST with a body of at most 10 MB that decodes as a
  JSON object and with both headers; and when a secret is configured, only if its signature header is
  \<open>sha256=\<close> followed by the hexadecimal HMAC of that body. Whatever it does, the invariant of the store is
  kept and no session, assignment or rule is touched.
\<close>

theorem webhook_requests_checked:
  assumes "fsm_library (ep_lib p)" and "agent_inv (agents d)"
    and "ServeHTTP hmac unmarshal secret p rf flt now uuid rq s d = (resp, sent, s', d')"
  shows "(s' \<noteq> s \<or> d' \<noteq> d \<or> sent \<noteq> [] \<or> fst resp = 200 \<longrightarrow>
      rq_method rq = ''POST'' \<and> rq_delivery rq \<noteq> '''' \<and> rq_event rq \<noteq> '''' \<and>
      (\<exists>body pl. rq_body rq = Inr body \<and> length body \<le> 10485760 \<and> unmarshal body = Some pl \<and>
        (secret \<noteq> '''' \<longrightarrow> (\<exists>hx. rq_signature rq = ''sha256='' @ hx \<and> hex_decode hx = Some (hmac secret body))))) \<and>
    agent_inv (agents d') \<and> agent_sessions (agents d') = agent_sessions (agents d) \<and>
    agent_assignments (agents d') = agent_assignments (agents d) \<and> agent_rules (agents d') = agent_rules (agents d)"
proof -
  have h: "hook_run d d'" by (rule serve_hook [OF assms(3,1)])
  have u: "agents d' = (agents d)\<lparr>core := core (agents d')\<rparr>" using h unfolding hook_run_def by blast
  have same: "agent_sessions (agents d') = agent_sessions (agents d)" "agent_assignments (agents d') = agent_assignments (agents d)"
    "agent_rules (agents d') = agent_rules (agents d)" by (subst u, simp)+
  have v: "\<exists>hx. sig = ''sha256='' @ hx \<and> hex_decode hx = Some (hmac secret body)"
    if "verifySignature hmac secret body sig = Inr ()" for sig body
    using that by (auto simp: verifySignature_def HasPrefix_iff TrimPrefix_def split: if_splits option.splits)
  have g: "rq_method rq = ''POST'' \<and> rq_delivery rq \<noteq> '''' \<and> rq_event rq \<noteq> '''' \<and>
      (\<exists>body pl. rq_body rq = Inr body \<and> length body \<le> 10485760 \<and> unmarshal body = Some pl \<and>
        (secret \<noteq> '''' \<longrightarrow> (\<exists>hx. rq_signature rq = ''sha256='' @ hx \<and> hex_decode hx = Some (hmac secret body))))"
    if "s' \<noteq> s \<or> d' \<noteq> d \<or> sent \<noteq> [] \<or> fst resp = 200"
  proof (cases "admitted hmac unmarshal secret rq")
    case None
    then show ?thesis using serve_refused [OF None assms(3)] that by auto
  next
    case (Some pl)
    then show ?thesis using v by (auto simp: admitted_def maxBodySize_def split: sum.splits if_splits)
  qed
  then show ?thesis using hook_run_inv [OF h assms(2)] same by blast
qed

text \<open>
  C21: a delivery is processed at most once, and a failed one is lost. Once a request has reached the
  processor, the same request sent again is answered \<open>duplicate\<close> and changes nothing in the
  database, whatever happened to Redis and whatever other webhooks did in between. This holds also when the
  first answer was \<open>500 processing error\<close>, where the code means to let GitHub retry.
\<close>

theorem webhook_processed_once:
  assumes "fsm_library (ep_lib p)"
    and "ServeHTTP hmac unmarshal secret p rf flt now uuid rq s d = (resp, sent, s1, d1)"
    and "resp = (200, ''ok'') \<or> resp = (500, ''processing error'')" and "hook_run d1 d2"
  shows "\<exists>s3. ServeHTTP hmac unmarshal secret p rf2 no_faults now2 uuid2 rq s2 d2 = ((200, ''duplicate''), [], s3, d2)"
proof -
  obtain pl where pl: "admitted hmac unmarshal secret rq = Some pl"
    using serve_refused [OF _ assms(2)] assms(3) by (cases "admitted hmac unmarshal secret rq") auto
  obtain r sa ca where c: "Check (ep_stream p) (at_site ''dedup'' rf) (at_site ''dedup'' flt) now (rq_delivery rq) (rq_event rq) (extractRepo pl) s
    (core (agents d)) = (r, sa, ca)" using prod_cases3 by blast
  have r: "r = Inr ()" using assms(2,3) unfolding serve_admitted [OF pl] by (cases r) (auto simp: c split: if_splits)
  obtain x y sb db where e: "ProcessEvent p (at_site ''process'' rf) (at_site ''process'' flt) now uuid
      \<lparr>ev_delivery_id = rq_delivery rq, ev_event_type = rq_event rq, ev_repo = extractRepo pl, ev_payload = pl\<rparr>
      sa (d\<lparr>agents := (agents d)\<lparr>core := ca\<rparr>\<rparr>) = (x, y, sb, db)" using prod_cases4 by blast
  have "d1 = db" using assms(2) r unfolding serve_admitted [OF pl] by (simp add: c e)
  then have h: "hook_run (d\<lparr>agents := (agents d)\<lparr>core := ca\<rparr>\<rparr>) d2"
    using hook_run_trans [OF ProcessEvent_hook [OF e assms(1)]] assms(4) by simp
  have ne: "rq_delivery rq \<noteq> ''''" using pl by (auto simp: admitted_def split: sum.splits if_splits)
  have "\<exists>w\<in>set (webhook_deliveries ca). wd_delivery_id w = rq_delivery rq"
    using c r ne by (auto simp: Check_def MarkWebhookDelivery_def sql_try_def split: option.splits if_splits prod.splits bool.splits sum.splits)
  then have m: "\<exists>w\<in>set (webhook_deliveries (core (agents d2))). wd_delivery_id w = rq_delivery rq"
    using h unfolding hook_run_def by auto
  then have "MarkWebhookDelivery no_faults now2 (rq_delivery rq) (rq_event rq) (extractRepo pl) (core (agents d2)) = (Inr False, core (agents d2))"
    by (auto simp: MarkWebhookDelivery_def)
  moreover obtain known key s3 where "dedup_redis (ep_stream p) (at_site ''dedup'' rf2) (extractRepo pl) (rq_delivery rq) s2 = (known, key, s3)"
    using prod_cases3 by blast
  ultimately have "Check (ep_stream p) (at_site ''dedup'' rf2) no_faults now2 (rq_delivery rq) (rq_event rq) (extractRepo pl) s2
      (core (agents d2)) = (Inl ErrDuplicate, s3, core (agents d2))"
    using ne by (cases known) (simp_all add: Check_def)
  then show ?thesis unfolding serve_admitted [OF pl] by simp
qed

text \<open>The state a closed pull request gives its branch, where the transition is allowed.\<close>

definition closed_state :: "bool \<Rightarrow> state \<Rightarrow> state" where
  "closed_state merged st =
     (let to = (if merged then StateMerged else StateAbandoned) in if ValidateTransition st to = None then to else st)"

lemma GetBranch_found:
  assumes "schema_ok c" and "r \<in> set (branch_states c)"
  shows "GetBranch no_faults (b_repo r) (b_branch r) c = Inr (scan_row r)"
proof -
  have k: "distinct (map branch_key (branch_states c))" using assms(1) by (simp add: schema_ok_def)
  have "find (at_branch (b_repo r) (b_branch r)) (branch_states c) = find (\<lambda>x. branch_key x = branch_key r) (branch_states c)"
    by (rule find_cong_pred) (auto simp: at_branch_def branch_key_def)
  then show ?thesis using find_distinct_key [OF k assms(2)] by (simp add: GetBranch_def scanBranch_def sql_row_def)
qed

lemma transition_found:
  assumes "fsm_library lib" and "schema_ok c" and "r \<in> set (branch_states c)" and "same_states c (core (agents d))"
    and "lift_branches (TransitionBranch lib no_faults t (b_id r) (b_state r) to trig) d = (res, d')"
  shows "(res = Inr () \<longleftrightarrow> ValidateTransition (b_state r) to = None) \<and>
    (\<forall>x. branch_of (core (agents d')) x = (if x = b_id r \<and> ValidateTransition (b_state r) to = None then Some to else branch_of c x))"
proof -
  obtain c' where c: "TransitionBranch lib no_faults t (b_id r) (b_state r) to trig (core (agents d)) = (res, c')" "core (agents d') = c'"
    using assms(5) by (auto simp: lift_branches_def split: prod.splits)
  note m = transition_move [OF assms(1,4,2) branch_of_row [OF assms(2,3)] c(1)]
  have "ValidateTransition (b_state r) to = None" if "res = Inr ()"
    using c(1) that unfolding TransitionBranch_def fsm_check_agrees_lib [OF assms(1)] by (auto split: option.splits)
  then show ?thesis using m unfolding c(2) by auto
qed

lemma same_states_pr_number:
  "same_states (core (agents d)) (core (agents (snd (lift_branches (UpdatePRNumber flt t repo branch n) d))))"
proof -
  have "branch_frame (\<lambda>x. x\<lparr>b_pr_number := n, b_updated_at := t\<rparr>)" by (simp add: branch_frame_def branch_key_def)
  then have "same_states c (snd (UpdatePRNumber flt t repo branch n c))" for c
    using same_states_update by (auto simp: UpdatePRNumber_def exec_update_def same_states_def split: sql_try_splits option.split)
  then show ?thesis by (simp add: lift_branches_def split: prod.split) (metis snd_conv)
qed

lemma append_system_states:
  "append_system p rf flt now repo branch h rs det s d = (s', d') \<Longrightarrow> branch_of (core (agents d')) = branch_of (core (agents d))"
  by (auto simp: append_system_def branch_of_def fun_eq_iff split: prod.splits dest!: system_db_frame)

text \<open>
  Closed pull requests, by webhook and by reconciliation. A webhook that reports the pull request of a
  tracked branch closed makes the branch \<open>merged\<close> or \<open>abandoned\<close>, as the payload says,
  wherever the transition table allows it, and leaves every other branch alone. The reconciler makes
  the same branch \<open>merged\<close> whether or not the pull request was merged: on every active branch of
  a pull request closed without a merge the two disagree.
\<close>

theorem closed_pull_request_outcome:
  assumes "fsm_library (ep_lib p)" and "branch_inv (core (agents d))" and "r \<in> set (branch_states (core (agents d)))"
    and "ev_repo ev = b_repo r" and "prBranch (ev_payload ev) = b_branch r" and "b_branch r \<noteq> ''''"
    and "ev_event_type ev = ''pull_request''" and "str_at (ev_payload ev) ''action'' = ''closed''"
    and "get_pr_state w (b_repo r) (b_branch r) = Inr (Some gh)" and "\<not> gh_pr_open gh"
    and "ProcessEvent p rf no_faults now uuid ev s d = (res, sent, s', d')"
    and "reconcileBranch (ep_lib p) w no_faults now others (scan_row r) d = (calls, d2)"
  shows "res = Inr () \<and>
    (\<forall>x. branch_of (core (agents d')) x =
       (if x = b_id r then Some (closed_state (prMerged (ev_payload ev)) (b_state r)) else branch_of (core (agents d)) x)) \<and>
    (\<forall>x. branch_of (core (agents d2)) x =
       (if x = b_id r then Some (closed_state True (b_state r)) else branch_of (core (agents d)) x)) \<and>
    (b_state r \<in> set ActiveStates \<and> \<not> prMerged (ev_payload ev) \<longrightarrow>
       branch_of (core (agents d')) (b_id r) = Some StateAbandoned \<and> branch_of (core (agents d2)) (b_id r) = Some StateMerged)"
proof -
  have sch: "schema_ok (core (agents d))" using assms(2) by (simp add: branch_inv_def)
  note old = branch_of_row [OF sch assms(3)]
  have same: "same_states (core (agents d)) (core (agents d))" by (simp add: same_states_def)
  let ?to = "if prMerged (ev_payload ev) then StateMerged else StateAbandoned"
  let ?trig = "if prMerged (ev_payload ev) then ''pr_merged_webhook'' else ''pr_closed_webhook''"
  obtain x d1 where t: "lift_branches (TransitionBranch (ep_lib p) no_faults (truncate_second now) (b_id r) (b_state r) ?to ?trig) d = (x, d1)"
    by fastforce
  obtain s2 da where a: "append_system p (at_site ''event'' rf) no_faults now (b_repo r) (b_branch r) (prHeadSHA (ev_payload ev))
      (if prMerged (ev_payload ev) then ''pr_merged'' else ''pr_closed'') ''pull_request closed via webhook'' s d1 = (s2, da)" by fastforce
  note tf = transition_found [OF assms(1) sch assms(3) same t]
  have "res = Inr () \<and> agents d' = agents (if b_state r = ?to then d else case x of Inl e \<Rightarrow> d1 | Inr _ \<Rightarrow> da)"
    using assms(11) unfolding ProcessEvent_def handlePullRequest_def assms(4,5,7,8) Let_def at_site_no_faults
      GetBranch_found [OF sch assms(3)] by (auto simp: assms(6) t a split: sum.splits if_splits)
  then have web: "res = Inr ()" "branch_of (core (agents d')) y =
      (if y = b_id r then Some (closed_state (prMerged (ev_payload ev)) (b_state r)) else branch_of (core (agents d)) y)" for y
    using tf append_system_states [OF a] old by (cases x; auto simp: closed_state_def Let_def split: if_splits)+
  define d3 where "d3 = (if gh_pr_number gh > 0
     then snd (lift_branches (UpdatePRNumber no_faults (truncate_second now) (b_repo r) (b_branch r) (gh_pr_number gh)) d) else d)"
  have s3: "same_states (core (agents d)) (core (agents d3))" using same same_states_pr_number by (simp add: d3_def)
  obtain y d4 where t2: "lift_branches (TransitionBranch (ep_lib p) no_faults (truncate_second now) (b_id r) (b_state r) StateMerged ''pr_closed'') d3
    = (y, d4)" by fastforce
  note tf2 = transition_found [OF assms(1) sch assms(3) s3 t2]
  have "d2 = (if b_state r = StateMerged then d3 else d4)"
    using assms(12) unfolding reconcileBranch_def scan_row_sel assms(9) sum.case option.case Let_def at_site_no_faults d3_def [symmetric]
    by (auto simp: assms(10) maybeClose_def transitionIfValid_def t2)
  then have rec: "branch_of (core (agents d2)) y = (if y = b_id r then Some (closed_state True (b_state r)) else branch_of (core (agents d)) y)" for y
    using tf2 s3 old by (auto simp: closed_state_def same_states_def Let_def)
  have "closed_state False st = StateAbandoned \<and> closed_state True st = StateMerged" if "st \<in> set ActiveStates" for st
    using that unfolding ActiveStates_def by (auto simp: closed_state_def ValidateTransition_def transitions_def)
  then show ?thesis using web rec by simp
qed

section \<open>Witnesses\<close>

definition demo_processor :: "(string \<Rightarrow> entry) EventProcessor" where
  "demo_processor = \<lparr>ep_lib = list_fsm, ep_stream = mem_api, ep_marshal = (\<lambda>_ _. Inr ''''), ep_github = None, ep_openclaw = False\<rparr>"

definition demo_payload :: payload where
  "demo_payload = [(''action'', JString ''closed''), (''repository'', JObject [(''full_name'', JString ''acme/api'')]),
     (''pull_request'', JObject [(''merged'', JBool False), (''head'', JObject [(''ref'', JString ''feat''), (''sha'', JString ''abc'')])])]"

definition demo_request :: request where
  "demo_request = \<lparr>rq_method = ''POST'', rq_body = Inr ''b'', rq_signature = ''sha256=4b4c'', rq_delivery = ''d-1'', rq_event = ''pull_request''\<rparr>"

text \<open>A run in which the lookup of the branch fails.\<close>

definition demo_failing :: faults where
  "demo_failing site = (if site = ''process / branch / scan branch'' then Some ''database is locked'' else None)"

lemma demo_admitted: "admitted (\<lambda>_ _. ''KL'') (\<lambda>_. Some demo_payload) ''key'' demo_request = Some demo_payload"
proof -
  have "verifySignature (\<lambda>_ _. ''KL'') ''key'' ''b'' ''sha256=4b4c'' = Inr ()" by code_simp
  then show ?thesis by (simp add: admitted_def demo_request_def maxBodySize_def)
qed

lemma demo_serve_eval:
  "fst (ServeHTTP (\<lambda>_ _. ''KL'') (\<lambda>_. Some demo_payload) ''key'' demo_processor no_rfaults no_faults 20 (\<lambda>_. ''u'') demo_request (\<lambda>_. Absent)
     demo_cycle_db) = (200, ''ok'')"
  "fst (ServeHTTP (\<lambda>_ _. ''KL'') (\<lambda>_. Some demo_payload) ''key'' demo_processor no_rfaults demo_failing 20 (\<lambda>_. ''u'') demo_request (\<lambda>_. Absent)
     demo_cycle_db) = (500, ''processing error'')"
  unfolding serve_admitted [OF demo_admitted] by code_simp+

lemma demo_cycle_inv: "agent_inv (agents demo_cycle_db)"
  using agent_inv_empty demo_approved_inv by (simp add: demo_cycle_db_def agent_inv_def empty_agent_db_def)

lemma demo_processor_lib [simp]: "fsm_library (ep_lib demo_processor)"
  using listfsm.fsm_library_axioms by (simp add: demo_processor_def)

theorem webhook_requests_checked_witness:
  "\<exists>sent s' d'. ServeHTTP (\<lambda>_ _. ''KL'') (\<lambda>_. Some demo_payload) ''key'' demo_processor no_rfaults no_faults 20 (\<lambda>_. ''u'')
     demo_request (\<lambda>_. Absent) demo_cycle_db = ((200, ''ok''), sent, s', d') \<and> agent_inv (agents d') \<and>
     (\<exists>hx. rq_signature demo_request = ''sha256='' @ hx \<and> hex_decode hx = Some ''KL'')"
proof -
  obtain resp sent s' d' where e: "ServeHTTP (\<lambda>_ _. ''KL'') (\<lambda>_. Some demo_payload) ''key'' demo_processor no_rfaults no_faults 20
    (\<lambda>_. ''u'') demo_request (\<lambda>_. Absent) demo_cycle_db = (resp, sent, s', d')" using prod_cases4 by blast
  note p = webhook_requests_checked [OF demo_processor_lib demo_cycle_inv e]
  have "resp = (200, ''ok'')" using demo_serve_eval(1) unfolding e by simp
  then show ?thesis using p e by auto
qed

theorem webhook_processed_once_witness:
  "\<exists>sent s1 d1 s2. ServeHTTP (\<lambda>_ _. ''KL'') (\<lambda>_. Some demo_payload) ''key'' demo_processor no_rfaults demo_failing 20 (\<lambda>_. ''u'')
       demo_request (\<lambda>_. Absent) demo_cycle_db = ((500, ''processing error''), sent, s1, d1) \<and>
     ServeHTTP (\<lambda>_ _. ''KL'') (\<lambda>_. Some demo_payload) ''key'' demo_processor no_rfaults no_faults 30 (\<lambda>_. ''v'')
       demo_request s1 d1 = ((200, ''duplicate''), [], s2, d1)"
proof -
  obtain resp sent s1 d1 where e: "ServeHTTP (\<lambda>_ _. ''KL'') (\<lambda>_. Some demo_payload) ''key'' demo_processor no_rfaults demo_failing 20
    (\<lambda>_. ''u'') demo_request (\<lambda>_. Absent) demo_cycle_db = (resp, sent, s1, d1)" using prod_cases4 by blast
  have r: "resp = (500, ''processing error'')" using demo_serve_eval(2) unfolding e by simp
  obtain s3 where "ServeHTTP (\<lambda>_ _. ''KL'') (\<lambda>_. Some demo_payload) ''key'' demo_processor no_rfaults no_faults 30 (\<lambda>_. ''v'')
       demo_request s1 d1 = ((200, ''duplicate''), [], s3, d1)"
    using webhook_processed_once [OF demo_processor_lib e disjI2 [OF r] hook_run_refl] by blast
  then show ?thesis using e r by auto
qed

lemma demo_cycle_rows:
  "map (\<lambda>r. (b_id r, b_repo r, b_branch r, b_state r)) (branch_states (core (agents demo_cycle_db))) =
     [(''b1'', ''acme/api'', ''feat'', StateReviewApproved)]"
  by code_simp

definition demo_closed_outside :: outside where
  "demo_closed_outside = demo_outside\<lparr>get_pr_state := \<lambda>repo branch. Inr (Some \<lparr>gh_repo = repo, gh_branch = branch, gh_head_hash = ''abc'',
     gh_pr_number = 7, gh_pr_open = False, gh_approved = True, gh_ci_green = True, gh_pending_events = 0, gh_unresolved_threads = 0\<rparr>)\<rparr>"

theorem closed_pull_request_outcome_witness:
  "\<exists>r. branch_of (core (agents (snd (snd (snd (ProcessEvent demo_processor no_rfaults no_faults 20 (\<lambda>_. ''u'')
       \<lparr>ev_delivery_id = ''d-1'', ev_event_type = ''pull_request'', ev_repo = ''acme/api'', ev_payload = demo_payload\<rparr>
       (\<lambda>_. Absent) demo_cycle_db)))))) ''b1'' = Some StateAbandoned \<and>
     branch_of (core (agents (snd (reconcileBranch list_fsm demo_closed_outside no_faults 20 (\<lambda>d. d) (scan_row r) demo_cycle_db)))) ''b1'' =
       Some StateMerged"
proof -
  let ?ev = "\<lparr>ev_delivery_id = ''d-1'', ev_event_type = ''pull_request'', ev_repo = ''acme/api'', ev_payload = demo_payload\<rparr>"
  obtain r where r: "r \<in> set (branch_states (core (agents demo_cycle_db)))" "b_id r = ''b1''" "b_repo r = ''acme/api''" "b_branch r = ''feat''"
      "b_state r = StateReviewApproved"
    using demo_cycle_rows by (cases "branch_states (core (agents demo_cycle_db))") auto
  obtain res sent s' d' where e: "ProcessEvent demo_processor no_rfaults no_faults 20 (\<lambda>_. ''u'') ?ev (\<lambda>_. Absent) demo_cycle_db =
    (res, sent, s', d')" using prod_cases4 by blast
  obtain calls d2 where c: "reconcileBranch (ep_lib demo_processor) demo_closed_outside no_faults 20 (\<lambda>d. d) (scan_row r) demo_cycle_db = (calls, d2)"
    by fastforce
  have i: "branch_inv (core (agents demo_cycle_db))" using demo_cycle_inv by (simp add: agent_inv_def)
  have p: "prBranch demo_payload = ''feat''" "str_at demo_payload ''action'' = ''closed''" "\<not> prMerged demo_payload" by code_simp+
  have g: "get_pr_state demo_closed_outside (b_repo r) (b_branch r) = Inr (Some \<lparr>gh_repo = b_repo r, gh_branch = b_branch r,
    gh_head_hash = ''abc'', gh_pr_number = 7, gh_pr_open = False, gh_approved = True, gh_ci_green = True, gh_pending_events = 0,
    gh_unresolved_threads = 0\<rparr>)" by (simp add: demo_closed_outside_def)
  have "branch_of (core (agents d')) (b_id r) = Some StateAbandoned \<and> branch_of (core (agents d2)) (b_id r) = Some StateMerged"
    using closed_pull_request_outcome [OF demo_processor_lib i r(1) _ _ _ _ _ g _ e c] p r by (simp add: ActiveStates_def closed_state_def ValidateTransition_def transitions_def)
  moreover have "ep_lib demo_processor = list_fsm" by (simp add: demo_processor_def)
  ultimately show ?thesis using c unfolding r(2) by (intro exI [of _ r]) (simp add: e)
qed

end
