(* ===== verification/Gatecheck.thy ===== *)
theory Gatecheck
  imports Feedback
begin

text \<open>
  The local gate, \<open>internal/gatecheck\<close>: the status model and summary of \<open>model.go\<close>, the configuration of
  \<open>env.go\<close>, the thirteen check runners and the engine of \<open>engine.go\<close>, and the status files of
  \<open>substatus.go\<close>. The file system, the tools on the path, the regular-expression, JSON and YAML libraries and
  the clock are parameters (the record \<open>gate_world\<close>). The reports rendered for terminals (\<open>render.go\<close>) are left
  out.
\<close>

section \<open>Paths and strings\<close>

definition join_with :: "string \<Rightarrow> string list \<Rightarrow> string" where
  "join_with sep xs = (case xs of [] \<Rightarrow> [] | x # ys \<Rightarrow> x @ concat (map (\<lambda>y. sep @ y) ys))"

fun split_on :: "char \<Rightarrow> string \<Rightarrow> string list" where
  "split_on sep [] = [[]]"
| "split_on sep (c # cs) =
     (if c = sep then [] # split_on sep cs
      else (case split_on sep cs of [] \<Rightarrow> [[c]] | l # ls \<Rightarrow> (c # l) # ls))"

definition HasSuffix :: "string \<Rightarrow> string \<Rightarrow> bool" where
  "HasSuffix s suf \<longleftrightarrow> length suf \<le> length s \<and> drop (length s - length suf) s = suf"

text \<open>\<open>filepath.Clean\<close>: the elements still kept, last first.\<close>

fun clean_parts :: "bool \<Rightarrow> string list \<Rightarrow> string list \<Rightarrow> string list" where
  "clean_parts rooted stack [] = stack"
| "clean_parts rooted stack (p # ps) =
     (if p = '''' \<or> p = ''.'' then clean_parts rooted stack ps
      else if p = ''..'' then
        (case stack of
           [] \<Rightarrow> clean_parts rooted (if rooted then [] else [p]) ps
         | prev # rest \<Rightarrow> if prev = ''..'' then clean_parts rooted (p # stack) ps else clean_parts rooted rest ps)
      else clean_parts rooted (p # stack) ps)"

definition IsAbs :: "string \<Rightarrow> bool" where
  "IsAbs p = HasPrefix p ''/''"

definition path_Clean :: "string \<Rightarrow> string" where
  "path_Clean p =
     (if p = '''' then ''.''
      else let body = join_with ''/'' (rev (clean_parts (IsAbs p) [] (split_on (CHR ''/'') p)))
      in if IsAbs p then ''/'' @ body else if body = '''' then ''.'' else body)"

definition path_Join :: "string \<Rightarrow> string \<Rightarrow> string" where
  "path_Join a b = (case filter (\<lambda>e. e \<noteq> '''') [a, b] of [] \<Rightarrow> '''' | es \<Rightarrow> path_Clean (join_with ''/'' es))"

definition path_Base :: "string \<Rightarrow> string" where
  "path_Base p =
     (if p = '''' then ''.''
      else let q = rev (dropWhile (\<lambda>c. c = CHR ''/'') (rev p));
               b = rev (takeWhile (\<lambda>c. c \<noteq> CHR ''/'') (rev q))
      in if b = '''' then ''/'' else b)"

definition path_Ext :: "string \<Rightarrow> string" where
  "path_Ext p =
     (let last_elem = takeWhile (\<lambda>c. c \<noteq> CHR ''/'') (rev p);
          tail = takeWhile (\<lambda>c. c \<noteq> CHR ''.'') last_elem
      in if length tail = length last_elem then '''' else CHR ''.'' # rev tail)"

section \<open>The model\<close>

datatype CheckStatus = StatusPass | StatusFail | StatusSkip | StatusDisabled | StatusOther string

fun status_str :: "CheckStatus \<Rightarrow> string" where
  "status_str StatusPass = ''pass''"
| "status_str StatusFail = ''fail''"
| "status_str StatusSkip = ''skip''"
| "status_str StatusDisabled = ''disabled''"
| "status_str (StatusOther s) = s"

definition IsTerminalPass :: "CheckStatus \<Rightarrow> bool" where
  "IsTerminalPass s \<longleftrightarrow> s = StatusPass \<or> s = StatusSkip \<or> s = StatusDisabled"

definition IsFailure :: "CheckStatus \<Rightarrow> bool" where
  "IsFailure s \<longleftrightarrow> s = StatusFail"

definition ToDisplayState :: "CheckStatus \<Rightarrow> string" where
  "ToDisplayState s = (case s of StatusPass \<Rightarrow> ''passing'' | StatusFail \<Rightarrow> ''failing'' | _ \<Rightarrow> ''disabled'')"

record GateFinding =
  gf_file :: string
  gf_line :: int
  gf_column :: int
  gf_severity :: string
  gf_rule_id :: string
  gf_message :: string
  gf_snippet :: string

record CheckResult =
  cr_id :: string
  cr_name :: string
  cr_group :: string
  cr_tier :: string
  cr_required :: bool
  cr_enabled :: bool
  cr_status :: CheckStatus
  cr_exit_code :: int
  cr_reason_code :: string
  cr_reason :: string
  cr_tool_name :: string
  cr_tool_path :: string
  cr_tool_version :: string
  cr_duration_ms :: int
  cr_details :: string
  cr_findings_count :: int
  cr_truncated :: bool
  cr_findings :: "GateFinding list"

record Summary =
  su_overall_status :: CheckStatus
  su_passed :: nat
  su_failed :: nat
  su_skipped :: nat
  su_infra_bypassed :: nat
  su_disabled :: nat
  su_total :: nat
  su_required_failed :: nat
  su_required_disabled :: nat
  su_profile :: string

record Report =
  rp_summary :: Summary
  rp_checks :: "CheckResult list"
  rp_run_at :: gotime
  rp_invocation :: string
  rp_result :: CheckStatus
  rp_total_findings :: int
  rp_duration_ms :: int
  rp_blocked :: bool

definition MaxFindingsPerCheck :: nat where
  "MaxFindingsPerCheck = 50"

definition isInfraReason :: "string \<Rightarrow> bool" where
  "isInfraReason code \<longleftrightarrow>
     code \<in> {''infra_bypass'', ''infra_auth'', ''infra_rate_limit'', ''infra_network'', ''timeout''}"

definition DisplayReason :: "string \<Rightarrow> string \<Rightarrow> string" where
  "DisplayReason code reason =
     (if code = '''' \<and> reason = '''' then ''''
      else if code = '''' then reason
      else if reason = '''' \<or> reason = code then code
      else code @ '' - '' @ reason)"

text \<open>One round of the loop of \<open>ComputeSummary\<close>; a check of an unknown status is not counted anywhere.\<close>

definition summary_round :: "bool \<Rightarrow> CheckResult \<Rightarrow> Summary \<Rightarrow> Summary" where
  "summary_round allowRequiredSkip c s =
     (let infra = (\<lambda>x. if isInfraReason (cr_reason_code c) then x\<lparr>su_infra_bypassed := su_infra_bypassed x + 1\<rparr> else x)
      in case cr_status c of
        StatusPass \<Rightarrow> infra (s\<lparr>su_passed := su_passed s + 1\<rparr>)
      | StatusFail \<Rightarrow> infra (s\<lparr>su_failed := su_failed s + 1,
          su_required_failed := (if cr_required c then su_required_failed s + 1 else su_required_failed s)\<rparr>)
      | StatusSkip \<Rightarrow> infra (s\<lparr>su_skipped := su_skipped s + 1\<rparr>)
      | StatusDisabled \<Rightarrow> infra (s\<lparr>su_disabled := su_disabled s + 1,
          su_required_disabled := (if cr_required c \<and> \<not> allowRequiredSkip then su_required_disabled s + 1 else su_required_disabled s)\<rparr>)
      | StatusOther _ \<Rightarrow> s)"

definition ComputeSummary :: "CheckResult list \<Rightarrow> string \<Rightarrow> bool \<Rightarrow> Summary" where
  "ComputeSummary checks profile allowRequiredSkip =
     (let s = fold (summary_round allowRequiredSkip) checks
            \<lparr>su_overall_status = StatusOther '''', su_passed = 0, su_failed = 0, su_skipped = 0, su_infra_bypassed = 0,
             su_disabled = 0, su_total = length checks, su_required_failed = 0, su_required_disabled = 0, su_profile = profile\<rparr>
      in s\<lparr>su_overall_status :=
           (if su_failed s > 0 \<or> su_required_failed s > 0 then StatusFail
            else if su_required_disabled s > 0 \<and> profile = ''strict'' then StatusFail else StatusPass)\<rparr>)"

definition nonblank_lines :: "string \<Rightarrow> string list" where
  "nonblank_lines details = filter (\<lambda>l. TrimSpace l \<noteq> '''') (split_lines details)"

definition buildFindings :: "string \<Rightarrow> GateFinding list" where
  "buildFindings details =
     map (\<lambda>l. \<lparr>gf_file = '''', gf_line = 0, gf_column = 0, gf_severity = '''', gf_rule_id = '''', gf_message = TrimSpace l, gf_snippet = ''''\<rparr>)
       (take MaxFindingsPerCheck (nonblank_lines details))"

definition finalize_check :: "CheckResult \<Rightarrow> CheckResult" where
  "finalize_check c = c\<lparr>
     cr_tier := (if cr_tier c = '''' then if cr_required c then ''required'' else ''optional'' else cr_tier c),
     cr_exit_code := (if cr_exit_code c = 0 \<and> cr_status c = StatusFail then 1 else cr_exit_code c),
     cr_findings := (if cr_details c \<noteq> '''' then buildFindings (cr_details c) else cr_findings c)\<rparr>"

definition FinalizeChecks :: "CheckResult list \<Rightarrow> CheckResult list" where
  "FinalizeChecks checks = map finalize_check checks"

definition totalFindings :: "CheckResult list \<Rightarrow> int" where
  "totalFindings checks = (\<Sum>c\<leftarrow>checks. cr_findings_count c)"

definition totalDurationMS :: "CheckResult list \<Rightarrow> int" where
  "totalDurationMS checks = (\<Sum>c\<leftarrow>checks. cr_duration_ms c)"

definition FinalizeReport :: "Report \<Rightarrow> Report" where
  "FinalizeReport report =
     (let checks = FinalizeChecks (rp_checks report); s = rp_summary report
      in report\<lparr>rp_checks := checks, rp_total_findings := totalFindings checks, rp_duration_ms := totalDurationMS checks,
           rp_blocked := (su_failed s > 0 \<or> su_required_failed s > 0),
           rp_result := (if su_overall_status s = StatusFail then StatusFail else StatusPass)\<rparr>)"

definition cap_check :: "CheckResult \<Rightarrow> CheckResult" where
  "cap_check c =
     (if cr_details c = '''' then c
      else let kept = nonblank_lines (cr_details c); count = int (length kept);
               fc = (if cr_findings_count c = 0 \<and> count > 0 then count else cr_findings_count c)
      in if fc > int MaxFindingsPerCheck
         then c\<lparr>cr_findings_count := fc, cr_truncated := True, cr_details := join_with newline (take MaxFindingsPerCheck kept)\<rparr>
         else c\<lparr>cr_findings_count := fc\<rparr>)"

definition EnforceFindingsCap :: "CheckResult list \<Rightarrow> CheckResult list" where
  "EnforceFindingsCap checks = map cap_check checks"

section \<open>Configuration\<close>

record EngineConfig =
  ec_profile :: string
  ec_repo_path :: string
  ec_staged_files :: "string list option"
  ec_max_infra_bypass :: int
  ec_allow_required_skip :: bool
  ec_gate_timeout :: duration
  ec_max_staged_file_bytes :: int
  ec_enforce_forbidden_paths :: bool
  ec_forbidden_path_regex :: string
  ec_enforce_lockfile_sync :: bool
  ec_enforce_executable_policy :: bool
  ec_required_checks :: "string list"
  ec_optional_checks :: "string list"
  ec_invocation :: string
  ec_semgrep_path :: string
  ec_gitleaks_path :: string
  ec_ruff_path :: string

type_synonym environ = "string \<Rightarrow> string option"

definition parseProfile :: "string \<Rightarrow> string" where
  "parseProfile raw = (if raw \<in> {''strict'', ''portable'', ''off''} then raw else ''portable'')"

definition envString :: "environ \<Rightarrow> string \<Rightarrow> string \<Rightarrow> string" where
  "envString env key def = (case env key of None \<Rightarrow> def | Some v \<Rightarrow> v)"

definition envInt :: "environ \<Rightarrow> string \<Rightarrow> int \<Rightarrow> int \<Rightarrow> int" where
  "envInt env key def least =
     (case env key of None \<Rightarrow> def
      | Some raw \<Rightarrow> let v = TrimSpace raw in
          if v = '''' then def
          else (case ParseInt v of None \<Rightarrow> def | Some n \<Rightarrow> if n < least then def else n))"

definition envBool :: "environ \<Rightarrow> string \<Rightarrow> bool" where
  "envBool env key \<longleftrightarrow> (case env key of None \<Rightarrow> False | Some v \<Rightarrow> ToLower (TrimSpace v) \<in> {''1'', ''true''})"

definition splitCSV :: "string \<Rightarrow> string list" where
  "splitCSV s = filter (\<lambda>p. p \<noteq> '''') (map TrimSpace (split_on (CHR '','') s))"

text \<open>The flags and tool paths that no check reads (fast tests, npm audit, shellcheck and so on) are left out.\<close>

definition LoadEngineConfig :: "environ \<Rightarrow> EngineConfig" where
  "LoadEngineConfig env =
     (let invocation = envString env ''CODERO_GATE_INVOCATION'' ''hook'';
          csv = (\<lambda>key. case env key of None \<Rightarrow> [] | Some raw \<Rightarrow> if raw = '''' then [] else splitCSV raw)
      in \<lparr>ec_profile = parseProfile (envString env ''CODERO_GATES_PROFILE'' ''portable''),
          ec_repo_path = envString env ''CODERO_REPO_PATH'' '''',
          ec_staged_files = None,
          ec_max_infra_bypass = envInt env ''CODERO_MAX_INFRA_BYPASS_GATES'' 2 0,
          ec_allow_required_skip = envBool env ''CODERO_ALLOW_REQUIRED_SKIP'',
          ec_gate_timeout = int64 (envInt env ''CODERO_GATE_TIMEOUT'' 120 0 * Second),
          ec_max_staged_file_bytes = envInt env ''CODERO_MAX_STAGED_FILE_BYTES'' 1048576 0,
          ec_enforce_forbidden_paths = envBool env ''CODERO_ENFORCE_FORBIDDEN_PATHS'',
          ec_forbidden_path_regex = envString env ''CODERO_FORBIDDEN_PATH_REGEX'' '''',
          ec_enforce_lockfile_sync = envBool env ''CODERO_ENFORCE_LOCKFILE_SYNC'',
          ec_enforce_executable_policy = envBool env ''CODERO_ENFORCE_EXECUTABLE_POLICY'',
          ec_required_checks = csv ''CODERO_REQUIRED_CHECKS'', ec_optional_checks = csv ''CODERO_OPTIONAL_CHECKS'',
          ec_invocation = (if invocation = '''' then ''hook'' else invocation),
          ec_semgrep_path = envString env ''CODERO_TOOL_SEMGREP'' ''semgrep'',
          ec_gitleaks_path = envString env ''CODERO_TOOL_GITLEAKS'' ''gitleaks'',
          ec_ruff_path = envString env ''CODERO_TOOL_RUFF'' ''ruff''\<rparr>)"

section \<open>The checks\<close>

text \<open>
  \<open>stat\<close> gives the size of a file and whether an executable bit is set, \<open>run\<close> the output of a command and the text
  of its error, \<open>elapsed\<close> the measured milliseconds of a check.
\<close>

record gate_world =
  gw_stat :: "string \<Rightarrow> (int \<times> bool) option"
  gw_read :: "string \<Rightarrow> string option"
  gw_look_path :: "string \<Rightarrow> string option"
  gw_run :: "string \<Rightarrow> string \<Rightarrow> string list \<Rightarrow> string \<times> string option"
  gw_compile :: "string \<Rightarrow> string + (string \<Rightarrow> bool)"
  gw_json_valid :: "string \<Rightarrow> bool"
  gw_yaml_error :: "string \<Rightarrow> string option"
  gw_elapsed :: "string \<Rightarrow> int"

definition findTool :: "gate_world \<Rightarrow> string \<Rightarrow> string option" where
  "findTool w nameOrPath =
     (if CHR ''/'' \<in> set nameOrPath then (if gw_stat w nameOrPath \<noteq> None then Some nameOrPath else None)
      else gw_look_path w nameOrPath)"

definition filterBySuffix :: "string list \<Rightarrow> string list \<Rightarrow> string list" where
  "filterBySuffix staged sufs = filter (\<lambda>f. list_ex (\<lambda>suf. HasSuffix (ToLower f) suf) sufs) staged"

definition check_result :: "string \<Rightarrow> string \<Rightarrow> string \<Rightarrow> bool \<Rightarrow> bool \<Rightarrow> CheckStatus \<Rightarrow> string \<Rightarrow> string \<Rightarrow> CheckResult" where
  "check_result cid name grp required enabled status code reason =
     \<lparr>cr_id = cid, cr_name = name, cr_group = grp, cr_tier = '''', cr_required = required, cr_enabled = enabled,
      cr_status = status, cr_exit_code = 0, cr_reason_code = code, cr_reason = reason, cr_tool_name = '''', cr_tool_path = '''',
      cr_tool_version = '''', cr_duration_ms = 0, cr_details = '''', cr_findings_count = 0, cr_truncated = False, cr_findings = []\<rparr>"

definition disabledResult :: "string \<Rightarrow> string \<Rightarrow> string \<Rightarrow> bool \<Rightarrow> string \<Rightarrow> string \<Rightarrow> CheckResult" where
  "disabledResult cid name grp required code reason = check_result cid name grp required False StatusDisabled code reason"

definition skipResult :: "string \<Rightarrow> string \<Rightarrow> string \<Rightarrow> bool \<Rightarrow> string \<Rightarrow> string \<Rightarrow> CheckResult" where
  "skipResult cid name grp required code reason = check_result cid name grp required True StatusSkip code reason"

definition timed :: "gate_world \<Rightarrow> CheckResult \<Rightarrow> CheckResult" where
  "timed w c = c\<lparr>cr_duration_ms := gw_elapsed w (cr_id c)\<rparr>"

definition abs_path :: "EngineConfig \<Rightarrow> string \<Rightarrow> string" where
  "abs_path cfg f = (if IsAbs f then f else path_Join (if ec_repo_path cfg = '''' then ''.'' else ec_repo_path cfg) f)"

definition work_dir :: "EngineConfig \<Rightarrow> string" where
  "work_dir cfg = (if ec_repo_path cfg = '''' then ''.'' else ec_repo_path cfg)"

text \<open>The verdict at the end of a runner: a failure with details when anything was found.\<close>

definition verdict :: "string \<Rightarrow> string \<Rightarrow> string \<Rightarrow> bool \<Rightarrow> bool \<Rightarrow> string \<Rightarrow> CheckResult" where
  "verdict cid name grp required found details =
     (if found then (check_result cid name grp required True StatusFail '''' '''')\<lparr>cr_details := details\<rparr>
      else check_result cid name grp required True StatusPass '''' '''')"

definition no_staged :: "string \<Rightarrow> string \<Rightarrow> string \<Rightarrow> bool \<Rightarrow> CheckResult" where
  "no_staged cid name grp required = skipResult cid name grp required ''not_in_scope'' ''no staged files''"

definition runFileSizeCheck :: "gate_world \<Rightarrow> EngineConfig \<Rightarrow> string list \<Rightarrow> CheckResult" where
  "runFileSizeCheck w cfg staged = timed w
     (if staged = [] then no_staged ''file-size'' ''File size limit'' ''format'' True
      else let limit = (if ec_max_staged_file_bytes cfg \<le> 0 then 1048576 else ec_max_staged_file_bytes cfg);
               offenders = List.map_filter (\<lambda>f. case gw_stat w (abs_path cfg f) of
                   None \<Rightarrow> None
                 | Some (sz, _) \<Rightarrow> if sz > limit then Some (f @ '' ('' @ FormatInt sz @ '' bytes)'') else None) staged
      in verdict ''file-size'' ''File size limit'' ''format'' True (offenders \<noteq> [])
           (''files exceeding '' @ FormatInt limit @ '' bytes: '' @ join_with ''; '' offenders))"

text \<open>The loop shared by the content checks: the staged files that can be read and whose content is bad.\<close>

definition content_hits :: "gate_world \<Rightarrow> EngineConfig \<Rightarrow> (string \<Rightarrow> bool) \<Rightarrow> string list \<Rightarrow> string list" where
  "content_hits w cfg bad staged = filter (\<lambda>f. case gw_read w (abs_path cfg f) of None \<Rightarrow> False | Some data \<Rightarrow> bad data) staged"

definition merge_markers :: "string list" where
  "merge_markers = [''<<<<<<< '', ''======='', ''>>>>>>> '']"

definition runMergeMarkersCheck :: "gate_world \<Rightarrow> EngineConfig \<Rightarrow> string list \<Rightarrow> CheckResult" where
  "runMergeMarkersCheck w cfg staged = timed w
     (if staged = [] then no_staged ''merge-markers'' ''Merge conflict markers'' ''format'' True
      else let hits = content_hits w cfg (\<lambda>data. list_ex (Contains data) merge_markers) staged
      in verdict ''merge-markers'' ''Merge conflict markers'' ''format'' True (hits \<noteq> [])
           (''merge conflict markers found in: '' @ join_with '', '' hits))"

definition isTextContent :: "string \<Rightarrow> bool" where
  "isTextContent data \<longleftrightarrow> CHR 0x00 \<notin> set (if length data > 8000 then take 8000 data else data)"

definition trailing_blank :: "string \<Rightarrow> bool" where
  "trailing_blank line \<longleftrightarrow> line \<noteq> '''' \<and> (last line = CHR '' '' \<or> last line = CHR 0x09)"

definition runTrailingWhitespaceCheck :: "gate_world \<Rightarrow> EngineConfig \<Rightarrow> string list \<Rightarrow> CheckResult" where
  "runTrailingWhitespaceCheck w cfg staged = timed w
     (if ec_profile cfg = ''off'' then skipResult ''trailing-whitespace'' ''Trailing whitespace'' ''format'' False ''not_in_scope'' ''profile=off''
      else if staged = [] then no_staged ''trailing-whitespace'' ''Trailing whitespace'' ''format'' False
      else let hits = content_hits w cfg (\<lambda>data. isTextContent data \<and> list_ex trailing_blank (split_lines data)) staged
      in verdict ''trailing-whitespace'' ''Trailing whitespace'' ''format'' False (hits \<noteq> [])
           (''trailing whitespace in: '' @ join_with '', '' hits))"

definition runFinalNewlineCheck :: "gate_world \<Rightarrow> EngineConfig \<Rightarrow> string list \<Rightarrow> CheckResult" where
  "runFinalNewlineCheck w cfg staged = timed w
     (if ec_profile cfg = ''off'' then skipResult ''final-newline'' ''Missing final newline'' ''format'' False ''not_in_scope'' ''profile=off''
      else if staged = [] then no_staged ''final-newline'' ''Missing final newline'' ''format'' False
      else let hits = content_hits w cfg (\<lambda>data. data \<noteq> '''' \<and> isTextContent data \<and> last data \<noteq> CHR 0x0A) staged
      in verdict ''final-newline'' ''Missing final newline'' ''format'' False (hits \<noteq> [])
           (''missing final newline in: '' @ join_with '', '' hits))"

definition runForbiddenPathsCheck :: "gate_world \<Rightarrow> EngineConfig \<Rightarrow> string list \<Rightarrow> CheckResult" where
  "runForbiddenPathsCheck w cfg staged = timed w
     (let cid = ''forbidden-paths''; name = ''Forbidden path blocker'' in
      if \<not> ec_enforce_forbidden_paths cfg \<or> ec_forbidden_path_regex cfg = ''''
      then disabledResult cid name ''config'' True ''user_disabled''
        (if ec_enforce_forbidden_paths cfg then ''CODERO_FORBIDDEN_PATH_REGEX not set or empty''
         else ''CODERO_ENFORCE_FORBIDDEN_PATHS not set'')
      else case gw_compile w (ec_forbidden_path_regex cfg) of
        Inl e \<Rightarrow> check_result cid name ''config'' True True StatusFail ''exec_error'' (''invalid CODERO_FORBIDDEN_PATH_REGEX: '' @ e)
      | Inr matches \<Rightarrow>
          let hits = filter matches staged
          in verdict cid name ''config'' True (hits \<noteq> []) (''forbidden paths: '' @ join_with '', '' hits))"

definition runConfigValidationCheck :: "gate_world \<Rightarrow> EngineConfig \<Rightarrow> string list \<Rightarrow> CheckResult" where
  "runConfigValidationCheck w cfg staged = timed w
     (let cid = ''config-validation''; name = ''Config file validation (JSON/YAML)'';
          jsonFiles = filterBySuffix staged [''.json'']; yamlFiles = filterBySuffix staged [''.yaml'', ''.yml'']
      in if jsonFiles @ yamlFiles = [] then skipResult cid name ''config'' True ''not_in_scope'' ''no JSON/YAML staged files''
      else let errs =
          map (\<lambda>f. f @ '': invalid JSON'') (content_hits w cfg (\<lambda>data. \<not> gw_json_valid w data) jsonFiles) @
          List.map_filter (\<lambda>f. case gw_read w (abs_path cfg f) of None \<Rightarrow> None
             | Some data \<Rightarrow> map_option (\<lambda>e. f @ '': '' @ e) (gw_yaml_error w data)) yamlFiles
      in verdict cid name ''config'' True (errs \<noteq> []) (join_with ''; '' errs))"

definition runLockfileSyncCheck :: "gate_world \<Rightarrow> EngineConfig \<Rightarrow> string list \<Rightarrow> CheckResult" where
  "runLockfileSyncCheck w cfg staged = timed w
     (let cid = ''lockfile-sync''; name = ''Lockfile sync check'' in
      if \<not> ec_enforce_lockfile_sync cfg
      then disabledResult cid name ''config'' False ''user_disabled'' ''CODERO_ENFORCE_LOCKFILE_SYNC not set''
      else let has = (\<lambda>b. list_ex (\<lambda>f. path_Base f = b) staged);
               issues = (if has ''go.mod'' \<and> \<not> has ''go.sum'' then [''go.mod staged without go.sum''] else []) @
                 (if has ''package.json'' \<and> \<not> has ''package-lock.json'' then [''package.json staged without package-lock.json''] else [])
      in if issues \<noteq> [] then verdict cid name ''config'' False True (join_with ''; '' issues)
         else if \<not> has ''go.mod'' \<and> \<not> has ''package.json'' then skipResult cid name ''config'' False ''not_in_scope'' ''no lockfile pair staged''
         else verdict cid name ''config'' False False '''')"

definition runExecBitPolicyCheck :: "gate_world \<Rightarrow> EngineConfig \<Rightarrow> string list \<Rightarrow> CheckResult" where
  "runExecBitPolicyCheck w cfg staged = timed w
     (let cid = ''exec-bit-policy''; name = ''Executable bit policy'' in
      if \<not> ec_enforce_executable_policy cfg
      then disabledResult cid name ''config'' False ''user_disabled'' ''CODERO_ENFORCE_EXECUTABLE_POLICY not set''
      else if staged = [] then no_staged cid name ''config'' False
      else let hits = filter (\<lambda>f. case gw_stat w (abs_path cfg f) of None \<Rightarrow> False
             | Some (_, executable) \<Rightarrow> executable \<and> ToLower (path_Ext f) \<noteq> ''.sh'' \<and> ToLower (path_Ext f) \<noteq> '''') staged
      in verdict cid name ''config'' False (hits \<noteq> []) (''unexpected executable bit on non-shell files: '' @ join_with '', '' hits))"

definition runGofmtCheck :: "gate_world \<Rightarrow> EngineConfig \<Rightarrow> string list \<Rightarrow> CheckResult" where
  "runGofmtCheck w cfg staged = timed w
     (let cid = ''gofmt''; name = ''Go formatting (gofmt)''; goFiles = filterBySuffix staged [''.go''] in
      if ec_profile cfg = ''off'' then skipResult cid name ''format'' False ''not_in_scope'' ''profile=off''
      else if goFiles = [] then skipResult cid name ''format'' False ''not_in_scope'' ''no staged .go files''
      else case findTool w ''gofmt'' of
        None \<Rightarrow> (disabledResult cid name ''format'' False ''missing_tool'' ''gofmt not found in PATH'')\<lparr>cr_tool_name := ''gofmt''\<rparr>
      | Some toolPath \<Rightarrow>
          let unformatted = filter (\<lambda>f. case gw_run w toolPath '''' [''-l'', abs_path cfg f] of
                (out, err) \<Rightarrow> err = None \<and> TrimSpace out \<noteq> '''') goFiles
          in (verdict cid name ''format'' False (unformatted \<noteq> []) (''unformatted Go files: '' @ join_with '', '' unformatted))
               \<lparr>cr_tool_name := ''gofmt'', cr_tool_path := toolPath\<rparr>)"

definition isContextError :: "string \<Rightarrow> bool" where
  "isContextError msg \<longleftrightarrow> Contains msg ''context deadline exceeded'' \<or> Contains msg ''context canceled'' \<or> Contains msg ''signal: killed''"

definition runGitleaksCheck :: "gate_world \<Rightarrow> EngineConfig \<Rightarrow> string list \<Rightarrow> CheckResult" where
  "runGitleaksCheck w cfg staged = timed w
     (let cid = ''gitleaks-staged''; name = ''Secret scan (gitleaks)'' in
      if ec_profile cfg = ''off'' then skipResult cid name ''security'' True ''not_in_scope'' ''profile=off''
      else case findTool w (ec_gitleaks_path cfg) of
        None \<Rightarrow> (disabledResult cid name ''security'' True ''missing_tool'' ''gitleaks not found'')\<lparr>cr_tool_name := ''gitleaks''\<rparr>
      | Some toolPath \<Rightarrow>
          (case gw_run w toolPath (work_dir cfg) [''protect'', ''--staged'', ''--no-banner'', ''--exit-code'', ''1''] of
             (out, None) \<Rightarrow> verdict cid name ''security'' True False ''''
           | (out, Some err) \<Rightarrow>
               if isContextError err then skipResult cid name ''security'' True ''timeout'' ''gitleaks timed out''
               else verdict cid name ''security'' True True (TrimSpace out))\<lparr>cr_tool_name := ''gitleaks'', cr_tool_path := toolPath\<rparr>)"

text \<open>The classification of a failed semgrep run.\<close>

definition semgrep_failure :: "string \<Rightarrow> (string \<times> string) option" where
  "semgrep_failure outStr =
     (let lc = ToLower outStr in
      if Contains lc ''401'' \<or> Contains lc ''unauthorized'' \<or> Contains lc ''authentication''
      then Some (''infra_auth'', ''semgrep authentication failure'')
      else if Contains lc ''rate limit'' \<or> Contains lc ''429'' then Some (''infra_rate_limit'', ''semgrep rate limited'')
      else if Contains lc ''connection refused'' \<or> Contains lc ''network'' \<or> Contains lc ''timeout''
      then Some (''infra_network'', ''semgrep network failure'') else None)"

definition runSemgrepCheck :: "gate_world \<Rightarrow> EngineConfig \<Rightarrow> string list \<Rightarrow> CheckResult" where
  "runSemgrepCheck w cfg staged = timed w
     (let cid = ''semgrep''; name = ''SAST scan (semgrep)'' in
      if ec_profile cfg = ''off'' then skipResult cid name ''security'' False ''not_in_scope'' ''profile=off''
      else if staged = [] then skipResult cid name ''security'' False ''not_in_scope'' ''no staged files''
      else case findTool w (ec_semgrep_path cfg) of
        None \<Rightarrow> (disabledResult cid name ''security'' False ''missing_tool'' ''semgrep not found'')\<lparr>cr_tool_name := ''semgrep''\<rparr>
      | Some toolPath \<Rightarrow>
          (case gw_run w toolPath (work_dir cfg) ([''--config'', ''auto'', ''--quiet'', ''--error''] @ staged) of
             (out, None) \<Rightarrow> verdict cid name ''security'' False False ''''
           | (out, Some err) \<Rightarrow>
               if isContextError err then skipResult cid name ''security'' False ''timeout'' ''semgrep timed out''
               else (case semgrep_failure (TrimSpace out) of
                   Some (code, reason) \<Rightarrow> skipResult cid name ''security'' False code reason
                 | None \<Rightarrow> verdict cid name ''security'' False True (TrimSpace out)))\<lparr>cr_tool_name := ''semgrep'', cr_tool_path := toolPath\<rparr>)"

definition runRuffLintCheck :: "gate_world \<Rightarrow> EngineConfig \<Rightarrow> string list \<Rightarrow> CheckResult" where
  "runRuffLintCheck w cfg staged = timed w
     (let cid = ''ruff-lint''; name = ''Python lint (ruff)''; pyFiles = filterBySuffix staged [''.py''] in
      if ec_profile cfg = ''off'' then skipResult cid name ''lint'' False ''not_in_scope'' ''profile=off''
      else if pyFiles = [] then skipResult cid name ''lint'' False ''not_in_scope'' ''no staged .py files''
      else case findTool w (ec_ruff_path cfg) of
        None \<Rightarrow> (disabledResult cid name ''lint'' False ''missing_tool'' ''ruff not found'')\<lparr>cr_tool_name := ''ruff''\<rparr>
      | Some toolPath \<Rightarrow>
          (case gw_run w toolPath (work_dir cfg) ([''check'', ''--quiet''] @ pyFiles) of
             (out, None) \<Rightarrow> verdict cid name ''lint'' False False ''''
           | (out, Some err) \<Rightarrow>
               if isContextError err then skipResult cid name ''lint'' False ''timeout'' ''ruff timed out''
               else verdict cid name ''lint'' False True (TrimSpace out))\<lparr>cr_tool_name := ''ruff'', cr_tool_path := toolPath\<rparr>)"

definition runAIGateCheck :: "gate_world \<Rightarrow> EngineConfig \<Rightarrow> string list \<Rightarrow> CheckResult" where
  "runAIGateCheck w cfg staged = timed w
     (disabledResult ''ai-gate'' ''AI review gate'' ''ai'' False ''not_in_scope''
        ''AI gate is run separately via `codero commit-gate`; use gate-check for local checks only'')"

section \<open>The engine\<close>

definition buildRunners :: "(gate_world \<Rightarrow> EngineConfig \<Rightarrow> string list \<Rightarrow> CheckResult) list" where
  "buildRunners = [runFileSizeCheck, runMergeMarkersCheck, runTrailingWhitespaceCheck, runFinalNewlineCheck,
     runForbiddenPathsCheck, runConfigValidationCheck, runLockfileSyncCheck, runExecBitPolicyCheck, runGofmtCheck,
     runGitleaksCheck, runSemgrepCheck, runRuffLintCheck, runAIGateCheck]"

definition charge_infra :: "int \<Rightarrow> int \<Rightarrow> CheckResult \<Rightarrow> CheckResult \<times> int" where
  "charge_infra budget infraCount r =
     (if isInfraReason (cr_reason_code r)
      then (if infraCount + 1 > budget
            then r\<lparr>cr_status := StatusFail, cr_reason_code := ''infra_bypass'',
              cr_reason := ''infra bypass budget exceeded ('' @ FormatInt (infraCount + 1) @ ''/'' @ FormatInt budget @ ''): '' @ cr_reason r\<rparr>
            else r, infraCount + 1)
      else (r, infraCount))"

definition fill_reason :: "CheckResult \<Rightarrow> CheckResult" where
  "fill_reason r =
     (let r1 = (if (cr_status r = StatusSkip \<or> cr_status r = StatusDisabled) \<and> cr_reason_code r = ''''
                then r\<lparr>cr_reason_code := ''not_applicable'', cr_reason := (if cr_reason r = '''' then ''not applicable'' else cr_reason r)\<rparr>
                else r)
      in if cr_status r1 = StatusFail \<and> cr_reason_code r1 = '''' then r1\<lparr>cr_reason_code := ''check_failed''\<rparr> else r1)"

fun execute_from ::
  "int \<Rightarrow> int \<Rightarrow> (gate_world \<Rightarrow> EngineConfig \<Rightarrow> string list \<Rightarrow> CheckResult) list \<Rightarrow> gate_world \<Rightarrow> EngineConfig \<Rightarrow> string list \<Rightarrow>
   CheckResult list" where
  "execute_from budget infraCount [] w cfg staged = []"
| "execute_from budget infraCount (r # rs) w cfg staged =
     (case charge_infra budget infraCount (r w cfg staged) of
        (c, n) \<Rightarrow> fill_reason c # execute_from budget n rs w cfg staged)"

definition executeRunners ::
  "(gate_world \<Rightarrow> EngineConfig \<Rightarrow> string list \<Rightarrow> CheckResult) list \<Rightarrow> gate_world \<Rightarrow> EngineConfig \<Rightarrow> string list \<Rightarrow> CheckResult list" where
  "executeRunners runners w cfg staged = execute_from (ec_max_infra_bypass cfg) 0 runners w cfg staged"

definition finalizeChecks :: "gotime \<Rightarrow> CheckResult list \<Rightarrow> EngineConfig \<Rightarrow> Report" where
  "finalizeChecks now checks0 cfg =
     (let checks = EnforceFindingsCap checks0
      in FinalizeReport \<lparr>rp_summary = ComputeSummary checks (ec_profile cfg) (ec_allow_required_skip cfg), rp_checks = checks,
           rp_run_at = now, rp_invocation = ec_invocation cfg, rp_result = StatusOther '''', rp_total_findings = 0,
           rp_duration_ms = 0, rp_blocked = False\<rparr>)"

definition stagedFiles :: "(string \<Rightarrow> string option) \<Rightarrow> EngineConfig \<Rightarrow> string list" where
  "stagedFiles git_diff cfg =
     (case ec_staged_files cfg of
        Some fs \<Rightarrow> fs
      | None \<Rightarrow> (case git_diff (if ec_repo_path cfg = '''' then ''.'' else ec_repo_path cfg) of
          None \<Rightarrow> []
        | Some out \<Rightarrow> filter (\<lambda>l. l \<noteq> '''') (map TrimSpace (split_lines (TrimSpace out)))))"

definition Engine_Run :: "(string \<Rightarrow> string option) \<Rightarrow> gate_world \<Rightarrow> gotime \<Rightarrow> EngineConfig \<Rightarrow> Report" where
  "Engine_Run git_diff w now cfg = finalizeChecks now (executeRunners buildRunners w cfg (stagedFiles git_diff cfg)) cfg"

section \<open>The status files\<close>

definition env_line :: "string \<Rightarrow> string \<Rightarrow> string" where
  "env_line key val = key @ ''='' @ val @ newline"

definition WriteSubstatus :: "(gotime \<Rightarrow> string) \<Rightarrow> Report \<Rightarrow> string" where
  "WriteSubstatus rfc3339 report =
     (let s = rp_summary report in
      env_line ''CODERO_GATE_RESULT'' (if su_overall_status s = StatusFail then ''fail'' else ''pass'') @
      env_line ''CODERO_GATE_TIMESTAMP'' (rfc3339 (rp_run_at report)) @
      env_line ''CODERO_GATE_DURATION_MS'' (FormatInt (totalDurationMS (rp_checks report))) @
      env_line ''CODERO_GATE_FINDINGS_COUNT'' (FormatInt (totalFindings (rp_checks report))) @
      env_line ''CODERO_GATE_BLOCKED'' (if su_failed s > 0 \<or> su_required_failed s > 0 then ''true'' else ''false'') @
      env_line ''CODERO_GATE_INVOCATION'' (if rp_invocation report = '''' then ''hook'' else rp_invocation report) @
      concat (map (\<lambda>c. let key = map (\<lambda>x. upper_char (if x = CHR ''-'' then CHR ''_'' else x)) (cr_id c) in
        env_line (''CODERO_CHECK_'' @ key @ ''_STATUS'') (status_str (cr_status c)) @
        env_line (''CODERO_CHECK_'' @ key @ ''_DURATION_MS'') (FormatInt (cr_duration_ms c)) @
        env_line (''CODERO_CHECK_'' @ key @ ''_FINDINGS_COUNT'') (FormatInt (cr_findings_count c)) @
        env_line (''CODERO_CHECK_'' @ key @ ''_EXIT_CODE'') (FormatInt (cr_exit_code c))) (rp_checks report)))"

definition WriteProgress :: "string \<Rightarrow> int \<Rightarrow> int \<Rightarrow> string" where
  "WriteProgress checkName progress elapsedMS =
     env_line ''CODERO_CHECK_CURRENT'' checkName @ env_line ''CODERO_CHECK_PROGRESS'' (FormatInt progress) @
     env_line ''CODERO_CHECK_ELAPSED_MS'' (FormatInt elapsedMS)"

text \<open>
  \<open>RunPipeline\<close>: the report with the error of the substatus file, if it could not be written, and the contents
  written to the progress file, one before each check and one at the end.
\<close>

definition progress_log :: "(nat \<Rightarrow> int) \<Rightarrow> nat \<Rightarrow> string list" where
  "progress_log elapsed n =
     map (\<lambda>i. WriteProgress (''check_'' @ FormatInt (int i + 1)) (if n > 0 then int (i * 100 div n) else 0) (elapsed i)) [0..<n] @
     [WriteProgress ''complete'' 100 (elapsed n)]"

definition RunPipeline ::
  "(string \<Rightarrow> string option) \<Rightarrow> gate_world \<Rightarrow> gotime \<Rightarrow> (nat \<Rightarrow> int) \<Rightarrow> string option \<Rightarrow> EngineConfig \<Rightarrow> string \<Rightarrow> string list option \<Rightarrow>
   (error + Report) \<times> string list" where
  "RunPipeline git_diff w now elapsed substatus_error cfg0 worktree files =
     (if TrimSpace worktree = '''' then (Inl (OtherError ''run pipeline: worktree is required''), [])
      else let cfg = cfg0\<lparr>ec_repo_path := worktree,
                 ec_staged_files := (case files of None \<Rightarrow> ec_staged_files cfg0 | Some fs \<Rightarrow> Some fs), ec_invocation := ''codero''\<rparr>;
               report = finalizeChecks now (executeRunners buildRunners w cfg (stagedFiles git_diff cfg)) cfg
      in (case substatus_error of None \<Rightarrow> Inr report | Some e \<Rightarrow> Inl (OtherError e), progress_log elapsed (length buildRunners)))"

section \<open>Every runner gives one check\<close>

lemmas runner_defs = runFileSizeCheck_def runMergeMarkersCheck_def runTrailingWhitespaceCheck_def runFinalNewlineCheck_def
  runForbiddenPathsCheck_def runConfigValidationCheck_def runLockfileSyncCheck_def runExecBitPolicyCheck_def runGofmtCheck_def
  runGitleaksCheck_def runSemgrepCheck_def runRuffLintCheck_def runAIGateCheck_def

definition gate_ids :: "string list" where
  "gate_ids = [''file-size'', ''merge-markers'', ''trailing-whitespace'', ''final-newline'', ''forbidden-paths'', ''config-validation'',
     ''lockfile-sync'', ''exec-bit-policy'', ''gofmt'', ''gitleaks-staged'', ''semgrep'', ''ruff-lint'', ''ai-gate'']"

lemma result_sel [simp]:
  "cr_id (check_result i n g q e s c r) = i" "cr_status (check_result i n g q e s c r) = s"
  "cr_required (check_result i n g q e s c r) = q"
  "cr_id (skipResult i n g q c r) = i" "cr_status (skipResult i n g q c r) = StatusSkip" "cr_required (skipResult i n g q c r) = q"
  "cr_id (disabledResult i n g q c r) = i" "cr_status (disabledResult i n g q c r) = StatusDisabled" "cr_required (disabledResult i n g q c r) = q"
  "cr_id (no_staged i n g q) = i" "cr_status (no_staged i n g q) = StatusSkip" "cr_required (no_staged i n g q) = q"
  "cr_id (verdict i n g q b d) = i" "cr_status (verdict i n g q b d) = (if b then StatusFail else StatusPass)" "cr_required (verdict i n g q b d) = q"
  "cr_id (timed w x) = cr_id x" "cr_status (timed w x) = cr_status x" "cr_required (timed w x) = cr_required x"
  by (simp_all add: check_result_def skipResult_def disabledResult_def no_staged_def verdict_def timed_def)

lemma runner_id [simp]:
  "cr_id (runFileSizeCheck w cfg staged) = ''file-size''" "cr_id (runMergeMarkersCheck w cfg staged) = ''merge-markers''"
  "cr_id (runTrailingWhitespaceCheck w cfg staged) = ''trailing-whitespace''" "cr_id (runFinalNewlineCheck w cfg staged) = ''final-newline''"
  "cr_id (runForbiddenPathsCheck w cfg staged) = ''forbidden-paths''" "cr_id (runConfigValidationCheck w cfg staged) = ''config-validation''"
  "cr_id (runLockfileSyncCheck w cfg staged) = ''lockfile-sync''" "cr_id (runExecBitPolicyCheck w cfg staged) = ''exec-bit-policy''"
  "cr_id (runGofmtCheck w cfg staged) = ''gofmt''" "cr_id (runGitleaksCheck w cfg staged) = ''gitleaks-staged''"
  "cr_id (runSemgrepCheck w cfg staged) = ''semgrep''" "cr_id (runRuffLintCheck w cfg staged) = ''ruff-lint''"
  "cr_id (runAIGateCheck w cfg staged) = ''ai-gate''"
  by (simp_all add: runner_defs Let_def split: option.split sum.split prod.split)

lemma runner_ids: "map (\<lambda>r. cr_id (r w cfg staged)) buildRunners = gate_ids"
  by (simp add: buildRunners_def gate_ids_def)

definition known_status :: "CheckStatus \<Rightarrow> bool" where
  "known_status s \<longleftrightarrow> s = StatusPass \<or> s = StatusFail \<or> s = StatusSkip \<or> s = StatusDisabled"

lemma known_cases [simp]: "known_status StatusPass" "known_status StatusFail" "known_status StatusSkip" "known_status StatusDisabled"
  by (simp_all add: known_status_def)

lemma runner_known [simp]:
  "known_status (cr_status (runFileSizeCheck w cfg staged))" "known_status (cr_status (runMergeMarkersCheck w cfg staged))"
  "known_status (cr_status (runTrailingWhitespaceCheck w cfg staged))" "known_status (cr_status (runFinalNewlineCheck w cfg staged))"
  "known_status (cr_status (runForbiddenPathsCheck w cfg staged))" "known_status (cr_status (runConfigValidationCheck w cfg staged))"
  "known_status (cr_status (runLockfileSyncCheck w cfg staged))" "known_status (cr_status (runExecBitPolicyCheck w cfg staged))"
  "known_status (cr_status (runGofmtCheck w cfg staged))" "known_status (cr_status (runGitleaksCheck w cfg staged))"
  "known_status (cr_status (runSemgrepCheck w cfg staged))" "known_status (cr_status (runRuffLintCheck w cfg staged))"
  "known_status (cr_status (runAIGateCheck w cfg staged))"
  by (simp_all add: runner_defs Let_def split: option.split sum.split prod.split)

lemma runner_status: "r \<in> set buildRunners \<Longrightarrow> known_status (cr_status (r w cfg staged))"
  unfolding buildRunners_def by (simp, elim disjE) simp_all

lemma charge_infra_sel:
  assumes "charge_infra b n r = (c, m)"
  shows "cr_id c = cr_id r" "cr_required c = cr_required r" "known_status (cr_status r) \<Longrightarrow> known_status (cr_status c)"
    "cr_findings_count c = cr_findings_count r" "cr_details c = cr_details r" "cr_findings c = cr_findings r"
    "cr_status c = StatusFail \<or> cr_status c = cr_status r" "cr_status r = StatusFail \<Longrightarrow> cr_status c = StatusFail"
    "cr_tier c = cr_tier r" "cr_exit_code c = cr_exit_code r"
  using assms by (auto simp: charge_infra_def known_status_def split: if_splits)

lemma fill_reason_sel [simp]:
  "cr_id (fill_reason c) = cr_id c" "cr_required (fill_reason c) = cr_required c" "cr_status (fill_reason c) = cr_status c"
  "cr_findings_count (fill_reason c) = cr_findings_count c" "cr_details (fill_reason c) = cr_details c"
  "cr_findings (fill_reason c) = cr_findings c"
  by (simp_all add: fill_reason_def Let_def)

lemma fill_reason_code: "cr_status c \<noteq> StatusPass \<Longrightarrow> known_status (cr_status c) \<Longrightarrow> cr_reason_code (fill_reason c) \<noteq> ''''"
  by (auto simp: fill_reason_def known_status_def Let_def)

lemma fill_reason_infra: "isInfraReason (cr_reason_code (fill_reason c)) \<longleftrightarrow> isInfraReason (cr_reason_code c)"
  by (auto simp: fill_reason_def isInfraReason_def Let_def)

lemma cap_check_sel [simp]:
  "cr_id (cap_check c) = cr_id c" "cr_required (cap_check c) = cr_required c" "cr_status (cap_check c) = cr_status c"
  "cr_reason_code (cap_check c) = cr_reason_code c" "cr_duration_ms (cap_check c) = cr_duration_ms c"
  by (simp_all add: cap_check_def Let_def)

lemma finalize_check_sel [simp]:
  "cr_id (finalize_check c) = cr_id c" "cr_required (finalize_check c) = cr_required c" "cr_status (finalize_check c) = cr_status c"
  "cr_reason_code (finalize_check c) = cr_reason_code c" "cr_findings_count (finalize_check c) = cr_findings_count c"
  "cr_truncated (finalize_check c) = cr_truncated c"
  by (simp_all add: finalize_check_def)

lemma execute_ids: "map cr_id (execute_from b n rs w cfg staged) = map (\<lambda>r. cr_id (r w cfg staged)) rs"
  by (induction rs arbitrary: n) (auto simp: charge_infra_sel split: prod.split)

lemma execute_status:
  "c \<in> set (execute_from b n rs w cfg staged) \<Longrightarrow> (\<And>r. r \<in> set rs \<Longrightarrow> known_status (cr_status (r w cfg staged))) \<Longrightarrow>
   known_status (cr_status c) \<and> (cr_status c \<noteq> StatusPass \<longrightarrow> cr_reason_code c \<noteq> '''')"
proof (induction rs arbitrary: n)
  case (Cons r rs)
  obtain x m where x: "charge_infra b n (r w cfg staged) = (x, m)" by fastforce
  show ?case using Cons charge_infra_sel(3) [OF x] fill_reason_code [of x] by (auto simp: x)
qed simp

lemma execute_budget:
  "length (filter (\<lambda>c. isInfraReason (cr_reason_code c) \<and> cr_status c \<noteq> StatusFail) (execute_from b n rs w cfg staged)) \<le> nat (b - n)"
proof (induction rs arbitrary: n)
  case (Cons r rs)
  obtain x m where x: "charge_infra b n (r w cfg staged) = (x, m)" by fastforce
  show ?case
  proof (cases "isInfraReason (cr_reason_code x) \<and> cr_status x \<noteq> StatusFail")
    case True
    then have "m = n + 1" "n + 1 \<le> b" using x by (auto simp: charge_infra_def split: if_splits)
    then show ?thesis using Cons.IH [of m] True by (auto simp: x fill_reason_infra)
  next
    case False
    have "m = n \<or> m = n + 1" using x by (auto simp: charge_infra_def split: if_splits)
    then have "nat (b - m) \<le> nat (b - n)" by auto
    then show ?thesis using False Cons.IH [of m] by (auto simp: x fill_reason_infra intro: le_trans)
  qed
qed simp

lemma execute_fails:
  "r \<in> set rs \<Longrightarrow> cr_status (r w cfg staged) = StatusFail \<Longrightarrow>
   \<exists>c\<in>set (execute_from b n rs w cfg staged). cr_status c = StatusFail \<and> cr_id c = cr_id (r w cfg staged)"
proof (induction rs arbitrary: n)
  case (Cons r' rs)
  obtain x m where x: "charge_infra b n (r' w cfg staged) = (x, m)" by fastforce
  show ?case using Cons charge_infra_sel(1,8) [OF x] by (auto simp: x)
qed simp

section \<open>The summary counts\<close>

definition count_status :: "CheckStatus \<Rightarrow> CheckResult list \<Rightarrow> nat" where
  "count_status s checks = length (filter (\<lambda>c. cr_status c = s) checks)"

lemma summary_round_sel [simp]:
  "su_passed (summary_round a c s) = su_passed s + (if cr_status c = StatusPass then 1 else 0)"
  "su_failed (summary_round a c s) = su_failed s + (if cr_status c = StatusFail then 1 else 0)"
  "su_skipped (summary_round a c s) = su_skipped s + (if cr_status c = StatusSkip then 1 else 0)"
  "su_disabled (summary_round a c s) = su_disabled s + (if cr_status c = StatusDisabled then 1 else 0)"
  "su_total (summary_round a c s) = su_total s"
  "su_required_failed (summary_round a c s) = su_required_failed s + (if cr_status c = StatusFail \<and> cr_required c then 1 else 0)"
  "su_required_disabled (summary_round a c s) = su_required_disabled s + (if cr_status c = StatusDisabled \<and> cr_required c \<and> \<not> a then 1 else 0)"
  by (cases "cr_status c"; simp add: summary_round_def Let_def)+

lemma summary_fold:
  "su_passed (fold (summary_round a) checks s) = su_passed s + count_status StatusPass checks \<and>
   su_failed (fold (summary_round a) checks s) = su_failed s + count_status StatusFail checks \<and>
   su_skipped (fold (summary_round a) checks s) = su_skipped s + count_status StatusSkip checks \<and>
   su_disabled (fold (summary_round a) checks s) = su_disabled s + count_status StatusDisabled checks \<and>
   su_total (fold (summary_round a) checks s) = su_total s \<and>
   su_required_failed (fold (summary_round a) checks s) =
     su_required_failed s + length (filter (\<lambda>c. cr_status c = StatusFail \<and> cr_required c) checks) \<and>
   su_required_disabled (fold (summary_round a) checks s) =
     su_required_disabled s + length (filter (\<lambda>c. cr_status c = StatusDisabled \<and> cr_required c \<and> \<not> a) checks)"
  by (induction checks arbitrary: s) (simp_all add: count_status_def)

lemma summary_counts:
  "su_passed (ComputeSummary checks profile a) = count_status StatusPass checks"
  "su_failed (ComputeSummary checks profile a) = count_status StatusFail checks"
  "su_skipped (ComputeSummary checks profile a) = count_status StatusSkip checks"
  "su_disabled (ComputeSummary checks profile a) = count_status StatusDisabled checks"
  "su_total (ComputeSummary checks profile a) = length checks"
  "su_required_failed (ComputeSummary checks profile a) = length (filter (\<lambda>c. cr_status c = StatusFail \<and> cr_required c) checks)"
  by (simp_all add: ComputeSummary_def summary_fold Let_def)

lemma summary_overall:
  "su_overall_status (ComputeSummary checks profile a) =
     (if (\<exists>c\<in>set checks. cr_status c = StatusFail) \<or>
         profile = ''strict'' \<and> \<not> a \<and> (\<exists>c\<in>set checks. cr_status c = StatusDisabled \<and> cr_required c)
      then StatusFail else StatusPass)"
  by (auto simp: ComputeSummary_def summary_fold Let_def count_status_def filter_empty_conv)

lemma status_partition:
  assumes "\<And>c. c \<in> set checks \<Longrightarrow> known_status (cr_status c)"
  shows "count_status StatusPass checks + count_status StatusFail checks + count_status StatusSkip checks +
    count_status StatusDisabled checks = length checks"
  using assms by (induction checks) (auto simp: count_status_def known_status_def)

definition gate_checks :: "gate_world \<Rightarrow> EngineConfig \<Rightarrow> string list \<Rightarrow> CheckResult list" where
  "gate_checks w cfg staged = executeRunners buildRunners w cfg staged"

lemma report_fields:
  "rp_checks (finalizeChecks now checks cfg) = map (finalize_check \<circ> cap_check) checks"
  "rp_summary (finalizeChecks now checks cfg) = ComputeSummary (map cap_check checks) (ec_profile cfg) (ec_allow_required_skip cfg)"
  "rp_blocked (finalizeChecks now checks cfg) \<longleftrightarrow> (\<exists>c\<in>set checks. cr_status c = StatusFail)"
  "rp_result (finalizeChecks now checks cfg) =
     (if (\<exists>c\<in>set checks. cr_status c = StatusFail) \<or>
         ec_profile cfg = ''strict'' \<and> \<not> ec_allow_required_skip cfg \<and> (\<exists>c\<in>set checks. cr_status c = StatusDisabled \<and> cr_required c)
      then StatusFail else StatusPass)"
  "rp_total_findings (finalizeChecks now checks cfg) = (\<Sum>c\<leftarrow>rp_checks (finalizeChecks now checks cfg). cr_findings_count c)"
  by (auto simp: finalizeChecks_def FinalizeReport_def FinalizeChecks_def EnforceFindingsCap_def Let_def summary_counts summary_overall
      count_status_def filter_empty_conv totalFindings_def comp_def)

lemma findings_bounded:
  assumes "cr_findings c = []"
  shows "length (cr_findings (finalize_check (cap_check c))) \<le> 50"
  using assms by (auto simp: finalize_check_def cap_check_def buildFindings_def MaxFindingsPerCheck_def Let_def)

lemma split_lines_nonempty [simp]: "split_lines s \<noteq> []"
  by (induction s) (auto split: list.split)

lemma split_lines_plain: "l \<in> set (split_lines s) \<Longrightarrow> CHR 0x0A \<notin> set l"
proof (induction s arbitrary: l)
  case (Cons c s)
  obtain m ms where "split_lines s = m # ms" by (cases "split_lines s") auto
  then show ?case using Cons by (auto split: if_splits)
qed simp

lemma split_lines_append: "CHR 0x0A \<notin> set l \<Longrightarrow> split_lines (l @ CHR 0x0A # s) = l # split_lines s"
  by (induction l) auto

lemma split_lines_single: "CHR 0x0A \<notin> set l \<Longrightarrow> split_lines l = [l]"
  by (induction l) auto

lemma join_with_Cons: "join_with sep (x # y # ys) = x @ sep @ join_with sep (y # ys)"
  by (simp add: join_with_def)

lemma split_join_lines: "ls \<noteq> [] \<Longrightarrow> \<forall>l\<in>set ls. CHR 0x0A \<notin> set l \<Longrightarrow> split_lines (join_with newline ls) = ls"
proof (induction ls)
  case (Cons x xs)
  show ?case
  proof (cases xs)
    case Nil
    then show ?thesis using Cons.prems by (simp add: join_with_def split_lines_single)
  next
    case (Cons y ys)
    then show ?thesis using Cons.IH Cons.prems by (simp add: join_with_Cons newline_def split_lines_append)
  qed
qed simp

lemma nonblank_join:
  assumes "ls \<noteq> []" and "set ls \<subseteq> set (nonblank_lines s)"
  shows "nonblank_lines (join_with newline ls) = ls"
proof -
  have "\<forall>l\<in>set ls. CHR 0x0A \<notin> set l \<and> TrimSpace l \<noteq> ''''"
    using assms(2) by (auto simp: nonblank_lines_def dest: split_lines_plain)
  then show ?thesis using split_join_lines [OF assms(1)] by (simp add: nonblank_lines_def filter_id_conv)
qed

lemma nonblank_empty [simp]: "nonblank_lines '''' = []"
  by (simp add: nonblank_lines_def TrimSpace_def)

text \<open>The findings of a check after the cap: the count is the true number, the list holds at most fifty.\<close>

lemma finalized_findings:
  assumes "cr_findings_count c = 0" and "cr_findings c = []" and "\<not> cr_truncated c"
  defines "c' \<equiv> finalize_check (cap_check c)"
  shows "cr_findings_count c' = int (length (nonblank_lines (cr_details c)))"
    "cr_truncated c' \<longleftrightarrow> cr_findings_count c' > 50"
    "map gf_message (cr_findings c') = take 50 (map TrimSpace (nonblank_lines (cr_details c)))"
proof -
  let ?k = "nonblank_lines (cr_details c)"
  have big: "nonblank_lines (join_with newline (take 50 ?k)) = take 50 ?k" if "50 < length ?k"
    using that by (intro nonblank_join) (auto dest: in_set_takeD)
  have ne: "join_with newline (take 50 ?k) \<noteq> ''''" if "50 < length ?k"
    using big [OF that] that by (metis length_take less_irrefl list.size(3) min.absorb4 nonblank_empty zero_less_numeral)
  show "cr_findings_count c' = int (length ?k)" "cr_truncated c' \<longleftrightarrow> cr_findings_count c' > 50"
    using assms(1-3) by (auto simp: c'_def cap_check_def MaxFindingsPerCheck_def Let_def)
  show "map gf_message (cr_findings c') = take 50 (map TrimSpace ?k)"
    using assms(1-3) big ne
    by (auto simp: c'_def cap_check_def finalize_check_def buildFindings_def MaxFindingsPerCheck_def Let_def comp_def take_map)
qed

lemma result_fresh [simp]:
  "cr_findings_count (check_result i n g q e s c r) = 0" "cr_findings (check_result i n g q e s c r) = []" "\<not> cr_truncated (check_result i n g q e s c r)"
  "cr_findings_count (timed w x) = cr_findings_count x" "cr_findings (timed w x) = cr_findings x" "cr_truncated (timed w x) = cr_truncated x"
  "cr_findings_count (verdict i n g q b d) = 0" "cr_findings (verdict i n g q b d) = []" "\<not> cr_truncated (verdict i n g q b d)"
  by (simp_all add: check_result_def verdict_def timed_def)

definition fresh :: "CheckResult \<Rightarrow> bool" where
  "fresh c \<longleftrightarrow> cr_findings_count c = 0 \<and> cr_findings c = [] \<and> \<not> cr_truncated c"

lemma runner_fresh: "r \<in> set buildRunners \<Longrightarrow> fresh (r w cfg staged)"
proof -
  assume r: "r \<in> set buildRunners"
  have "fresh (runFileSizeCheck w cfg staged)" "fresh (runMergeMarkersCheck w cfg staged)" "fresh (runTrailingWhitespaceCheck w cfg staged)"
    "fresh (runFinalNewlineCheck w cfg staged)" "fresh (runForbiddenPathsCheck w cfg staged)" "fresh (runConfigValidationCheck w cfg staged)"
    "fresh (runLockfileSyncCheck w cfg staged)" "fresh (runExecBitPolicyCheck w cfg staged)" "fresh (runGofmtCheck w cfg staged)"
    "fresh (runGitleaksCheck w cfg staged)" "fresh (runSemgrepCheck w cfg staged)" "fresh (runRuffLintCheck w cfg staged)"
    "fresh (runAIGateCheck w cfg staged)"
    by (simp_all add: fresh_def runner_defs Let_def skipResult_def disabledResult_def no_staged_def split: option.split sum.split prod.split)
  with r show ?thesis unfolding buildRunners_def by (simp, elim disjE) simp_all
qed

lemma execute_fresh: "c \<in> set (execute_from b n rs w cfg staged) \<Longrightarrow> (\<And>r. r \<in> set rs \<Longrightarrow> fresh (r w cfg staged)) \<Longrightarrow> fresh c"
proof (induction rs arbitrary: n)
  case (Cons r rs)
  obtain x m where x: "charge_infra b n (r w cfg staged) = (x, m)" by fastforce
  have "cr_truncated x = cr_truncated (r w cfg staged)" using x by (auto simp: charge_infra_def split: if_splits)
  then have "fresh (fill_reason x)" using Cons.prems(2) [of r] charge_infra_sel(4,6) [OF x] by (simp add: fresh_def fill_reason_def Let_def)
  then show ?case using Cons by (auto simp: x)
qed simp

section \<open>Properties\<close>

lemma gate_ids_length: "length gate_ids = 13"
  by (simp add: gate_ids_def)

lemma raw_fresh: "c \<in> set (execute_from b n buildRunners w cfg staged) \<Longrightarrow> fresh c"
  by (erule execute_fresh) (rule runner_fresh)

lemma raw_status:
  "c \<in> set (execute_from b n buildRunners w cfg staged) \<Longrightarrow> known_status (cr_status c) \<and> (cr_status c \<noteq> StatusPass \<longrightarrow> cr_reason_code c \<noteq> '''')"
  by (erule execute_status) (rule runner_status)

lemma engine_checks:
  "rp_checks (Engine_Run git_diff w now cfg) =
     map (finalize_check \<circ> cap_check) (execute_from (ec_max_infra_bypass cfg) 0 buildRunners w cfg (stagedFiles git_diff cfg))"
  by (simp add: Engine_Run_def executeRunners_def report_fields)



text \<open>
  What the gate always catches. A staged file that can be read and contains a conflict marker, and a staged
  file above the size limit, make the result \<open>fail\<close> and blocked in every profile. This includes \<open>off\<close>,
  for which the runbook promises that every check is skipped or disabled.
\<close>

theorem gate_catches_bad_files:
  assumes "f \<in> set (stagedFiles git_diff cfg)"
    and "(\<exists>pre m post. gw_read w (abs_path cfg f) = Some (pre @ m @ post) \<and> m \<in> {''<<<<<<< '', ''======='', ''>>>>>>> ''}) \<or>
      (\<exists>sz x. gw_stat w (abs_path cfg f) = Some (sz, x) \<and>
         sz > (if ec_max_staged_file_bytes cfg \<le> 0 then 1048576 else ec_max_staged_file_bytes cfg))"
  shows "rp_result (Engine_Run git_diff w now cfg) = StatusFail \<and> rp_blocked (Engine_Run git_diff w now cfg)"
proof -
  let ?staged = "stagedFiles git_diff cfg"
  have ne: "?staged \<noteq> []" using assms(1) by auto
  have "\<exists>r\<in>set buildRunners. cr_status (r w cfg ?staged) = StatusFail"
    using assms(2)
  proof (elim disjE exE conjE)
    fix pre m post
    assume m: "gw_read w (abs_path cfg f) = Some (pre @ m @ post)" "m \<in> {''<<<<<<< '', ''======='', ''>>>>>>> ''}"
    have "HasPrefix (drop (length pre) (pre @ m @ post)) m" by (simp add: HasPrefix_iff)
    then have "Contains (pre @ m @ post) m" unfolding Contains_def by (intro bexI [of _ "length pre"]) auto
    then have "list_ex (Contains (pre @ m @ post)) merge_markers" using m(2) by (auto simp: merge_markers_def list_ex_iff)
    then have "content_hits w cfg (\<lambda>data. list_ex (Contains data) merge_markers) ?staged \<noteq> []"
      using assms(1) m(1) by (auto simp: content_hits_def filter_empty_conv intro!: bexI [of _ f])
    then have "cr_status (runMergeMarkersCheck w cfg ?staged) = StatusFail" using ne by (simp add: runMergeMarkersCheck_def Let_def)
    then show ?thesis by (auto simp: buildRunners_def)
  next
    fix sz x
    assume z: "gw_stat w (abs_path cfg f) = Some (sz, x)"
      "sz > (if ec_max_staged_file_bytes cfg \<le> 0 then 1048576 else ec_max_staged_file_bytes cfg)"
    then have "cr_status (runFileSizeCheck w cfg ?staged) = StatusFail"
      using ne assms(1) by (auto simp: runFileSizeCheck_def Let_def map_filter_def filter_empty_conv intro!: bexI [of _ f] split: if_splits)
    then show ?thesis by (auto simp: buildRunners_def)
  qed
  then obtain c where "c \<in> set (execute_from (ec_max_infra_bypass cfg) 0 buildRunners w cfg ?staged)" "cr_status c = StatusFail"
    using execute_fails by blast
  then show ?thesis unfolding Engine_Run_def executeRunners_def report_fields by auto
qed

text \<open>A run of the gate on two files, without any tool installed.\<close>

definition demo_world :: gate_world where
  "demo_world = \<lparr>gw_stat = (\<lambda>_. Some (10, False)),
     gw_read = (\<lambda>p. if p = ''/repo/a.txt'' then Some (''x '' @ newline) else Some (''>>>>>>> b'' @ newline)),
     gw_look_path = (\<lambda>_. None), gw_run = (\<lambda>_ _ _. ('''', None)), gw_compile = (\<lambda>_. Inl ''bad''), gw_json_valid = (\<lambda>_. True),
     gw_yaml_error = (\<lambda>_. None), gw_elapsed = (\<lambda>_. 1)\<rparr>"

definition demo_config :: "string \<Rightarrow> EngineConfig" where
  "demo_config profile = (LoadEngineConfig (\<lambda>_. None))\<lparr>ec_profile := profile, ec_repo_path := ''/repo'', ec_max_staged_file_bytes := 90,
     ec_staged_files := Some [''a.txt'', ''b.txt'']\<rparr>"



theorem gate_catches_bad_files_witness:
  "rp_result (Engine_Run (\<lambda>_. None) demo_world 5 (demo_config ''off'')) = StatusFail \<and>
   rp_blocked (Engine_Run (\<lambda>_. None) demo_world 5 (demo_config ''off''))"
proof (rule gate_catches_bad_files)
  show "''b.txt'' \<in> set (stagedFiles (\<lambda>_. None) (demo_config ''off''))" by code_simp
  have "gw_read demo_world (abs_path (demo_config ''off'') ''b.txt'') = Some ('''' @ ''>>>>>>> '' @ ''b'' @ newline)" by code_simp
  then show "(\<exists>pre m post. gw_read demo_world (abs_path (demo_config ''off'') ''b.txt'') = Some (pre @ m @ post) \<and>
      m \<in> {''<<<<<<< '', ''======='', ''>>>>>>> ''}) \<or>
    (\<exists>sz x. gw_stat demo_world (abs_path (demo_config ''off'') ''b.txt'') = Some (sz, x) \<and>
       sz > (if ec_max_staged_file_bytes (demo_config ''off'') \<le> 0 then 1048576 else ec_max_staged_file_bytes (demo_config ''off'')))"
    by (intro disjI1 exI [of _ "''''"] exI [of _ "''>>>>>>> ''"] exI [of _ "''b'' @ newline"]) simp
qed

end
