(* ===== verification/Gate_Config.thy ===== *)
theory Gate_Config
  imports Gatecheck
begin

text \<open>
  The package \<open>internal/gate\<close>: the gate configuration file (\<open>config.go\<close>), the client of the external
  gate-heartbeat script (\<open>heartbeat.go\<close>) and the progress file it is shown from (\<open>progress_env.go\<close>). A file is its
  content, with \<open>None\<close> for a missing one; the script is a parameter, one answer per call. The rendering of bars
  and summaries (\<open>progress.go\<close>) is left out.
\<close>

section \<open>Lines\<close>

text \<open>
  \<open>bufio.Scanner\<close>: lines without their end, a final empty line not reported, a carriage return at the end of a line
  dropped; a line that does not fit the buffer of 65536 bytes ends the scan with an error.
\<close>

definition MaxScanTokenSize :: nat where
  "MaxScanTokenSize = 65536"

definition drop_cr :: "string \<Rightarrow> string" where
  "drop_cr l = (if l \<noteq> '''' \<and> last l = CHR 0x0D then butlast l else l)"

definition text_lines :: "string \<Rightarrow> string list" where
  "text_lines s = (let ls = split_lines s in if last ls = '''' then butlast ls else ls)"

definition scan_lines :: "string \<Rightarrow> string list \<times> bool" where
  "scan_lines s =
     (let ok = takeWhile (\<lambda>l. length l < MaxScanTokenSize) (text_lines s)
      in (map drop_cr ok, length ok = length (text_lines s)))"

text \<open>\<open>strings.Cut\<close> at a single character.\<close>

definition cut_at :: "char \<Rightarrow> string \<Rightarrow> (string \<times> string) option" where
  "cut_at c s = (if c \<in> set s then Some (takeWhile (\<lambda>x. x \<noteq> c) s, tl (dropWhile (\<lambda>x. x \<noteq> c) s)) else None)"

section \<open>The registry\<close>

datatype Tier = TierAlwaysOn | TierConfigurable | TierOptIn | TierAISetting | TierBehaviour

datatype ConfigSource = SourceDefault | SourceConfigFile | SourceShellEnv

record ConfigEntry =
  ce_env_var :: string
  ce_default :: string
  ce_tier :: Tier
  ce_validate :: "(string \<Rightarrow> error option) option"

record ResolvedVar =
  rv_env_var :: string
  rv_value :: string
  rv_default :: string
  rv_source :: ConfigSource
  rv_tier :: Tier

definition validateBool :: "string \<Rightarrow> error option" where
  "validateBool v = (if v \<noteq> ''true'' \<and> v \<noteq> ''false'' then Some (OtherError ''must be true or false'') else None)"

definition validatePositiveInt :: "string \<Rightarrow> error option" where
  "validatePositiveInt v =
     (case ParseInt v of None \<Rightarrow> Some (OtherError ''must be a non-negative integer'')
      | Some n \<Rightarrow> if n < 0 then Some (OtherError ''must be a non-negative integer'') else None)"

definition validateNonNegativeInt :: "string \<Rightarrow> error option" where
  "validateNonNegativeInt v =
     (case ParseInt v of None \<Rightarrow> Some (OtherError ''must be a non-negative integer'')
      | Some n \<Rightarrow> if n < 0 then Some (OtherError ''must be a non-negative integer'') else None)"

definition entry :: "Tier \<Rightarrow> (string \<Rightarrow> error option) option \<Rightarrow> string \<Rightarrow> string \<Rightarrow> ConfigEntry" where
  "entry tier val name def = \<lparr>ce_env_var = name, ce_default = def, ce_tier = tier, ce_validate = val\<rparr>"

definition Registry :: "ConfigEntry list" where
  "Registry =
     map (\<lambda>n. entry TierConfigurable (Some validateBool) n ''true'')
       [''CODERO_GOVET_ENABLED'', ''CODERO_TSC_ENABLED'', ''CODERO_SEMGREP_ENABLED'', ''CODERO_LITELLM_ENABLED''] @
     map (\<lambda>n. entry TierOptIn (Some validateBool) n ''false'')
       [''CODERO_COPILOT_ENABLED'', ''CODERO_GEMINI_ENABLED'', ''CODERO_AIDER_ENABLED'', ''CODERO_PRAGENT_ENABLED'', ''CODERO_CODERABBIT_ENABLED'',
        ''CODERO_VALE_ENABLED'', ''CODERO_HADOLINT_ENABLED'', ''CODERO_SHELLCHECK_ENABLED'', ''CODERO_SQLI_ENABLED''] @
     [entry TierAISetting (Some validateNonNegativeInt) ''CODERO_AI_QUORUM'' ''1'',
      entry TierAISetting (Some validatePositiveInt) ''CODERO_AI_BUDGET_SECONDS'' ''180'',
      entry TierAISetting (Some validatePositiveInt) ''CODERO_LITELLM_TIMEOUT'' ''45'',
      entry TierAISetting (Some validatePositiveInt) ''CODERO_COPILOT_TIMEOUT'' ''75'',
      entry TierAISetting None ''CODERO_AI_MODEL'' '''',
      entry TierAISetting (Some validateNonNegativeInt) ''CODERO_MIN_AI_GATES'' ''1'',
      entry TierBehaviour (Some validateBool) ''CODERO_SKIP_INFRA_FAIL'' ''true'']"

definition LookupEntry :: "string \<Rightarrow> ConfigEntry option" where
  "LookupEntry envVar = find (\<lambda>e. ce_env_var e = envVar) Registry"

section \<open>The configuration file\<close>

definition config_line :: "string \<Rightarrow> (string \<times> string) option" where
  "config_line l0 =
     (let l = TrimSpace l0 in
      if l = '''' \<or> HasPrefix l ''#'' then None
      else map_option (\<lambda>(k, v). (TrimSpace k, TrimSpace v)) (cut_at (CHR ''='') l))"

definition put_line :: "string \<Rightarrow> (string \<rightharpoonup> string) \<Rightarrow> (string \<rightharpoonup> string)" where
  "put_line l m = (case config_line l of None \<Rightarrow> m | Some (k, v) \<Rightarrow> m(k \<mapsto> v))"

definition ParseConfigFile :: "error + string option \<Rightarrow> error + (string \<rightharpoonup> string)" where
  "ParseConfigFile file =
     (case file of
        Inl e \<Rightarrow> Inl e
      | Inr None \<Rightarrow> Inr Map.empty
      | Inr (Some content) \<Rightarrow>
          (case scan_lines content of
             (ls, True) \<Rightarrow> Inr (fold put_line ls Map.empty)
           | (ls, False) \<Rightarrow> Inl (OtherError ''gate config: read: bufio.Scanner: token too long'')))"

definition resolve :: "environ \<Rightarrow> (string \<rightharpoonup> string) \<Rightarrow> ConfigEntry \<Rightarrow> ResolvedVar" where
  "resolve env fileVars e =
     (let rv = (\<lambda>v src. \<lparr>rv_env_var = ce_env_var e, rv_value = v, rv_default = ce_default e, rv_source = src, rv_tier = ce_tier e\<rparr>)
      in case env (ce_env_var e) of
        Some v \<Rightarrow> if v \<noteq> '''' then rv v SourceShellEnv
                 else (case fileVars (ce_env_var e) of Some fv \<Rightarrow> rv fv SourceConfigFile | None \<Rightarrow> rv (ce_default e) SourceDefault)
      | None \<Rightarrow> (case fileVars (ce_env_var e) of Some fv \<Rightarrow> rv fv SourceConfigFile | None \<Rightarrow> rv (ce_default e) SourceDefault))"

definition ResolveEffective :: "environ \<Rightarrow> error + string option \<Rightarrow> error + ResolvedVar list" where
  "ResolveEffective env file =
     (case ParseConfigFile file of Inl e \<Rightarrow> Inl e | Inr fileVars \<Rightarrow> Inr (map (resolve env fileVars) Registry))"

definition ResolveEffectiveMap :: "environ \<Rightarrow> error + string option \<Rightarrow> error + (string \<rightharpoonup> ResolvedVar)" where
  "ResolveEffectiveMap env file =
     (case ResolveEffective env file of
        Inl e \<Rightarrow> Inl e
      | Inr vars \<Rightarrow> Inr (fold (\<lambda>v m. m(rv_env_var v \<mapsto> v)) vars Map.empty))"

fun update_first :: "string \<Rightarrow> string \<Rightarrow> string list \<Rightarrow> string list \<times> bool" where
  "update_first pre line [] = ([], False)"
| "update_first pre line (l # ls) =
     (if HasPrefix (TrimSpace l) pre then (line # ls, True)
      else (case update_first pre line ls of (ls', found) \<Rightarrow> (l # ls', found)))"

definition hbar :: "nat \<Rightarrow> string" where
  "hbar n = concat (replicate n [CHR 0xE2, CHR 0x94, CHR 0x80])"

definition config_sections :: "(string \<times> Tier) list" where
  "config_sections =
     [(''# '' @ hbar 2 @ '' Configurable checks (on by default) '' @ hbar 26, TierConfigurable),
      (''# '' @ hbar 2 @ '' Opt-in AI reviewers (off by default) '' @ hbar 25, TierOptIn),
      (''# '' @ hbar 2 @ '' AI gate settings '' @ hbar 46, TierAISetting),
      (''# '' @ hbar 2 @ '' Gate behaviour '' @ hbar 48, TierBehaviour)]"

definition DefaultConfigFileContent :: string where
  "DefaultConfigFileContent =
     ''# Codero Gate Configuration '' @ [CHR 0xE2, CHR 0x80, CHR 0x94] @ '' $HOME/.codero/config.env'' @ newline @
     ''# Precedence: shell env > this file > built-in defaults'' @ newline @
     ''# See: Gate Config Spec v1'' @ newline @ newline @
     concat (map (\<lambda>(header, tier). header @ newline @
       concat (map (\<lambda>e. ce_env_var e @ ''='' @ ce_default e @ newline) (filter (\<lambda>e. ce_tier e = tier) Registry)) @ newline) config_sections)"

text \<open>The new content of the file; the write itself is atomic.\<close>

definition SaveConfigVar :: "error + string option \<Rightarrow> string \<Rightarrow> string \<Rightarrow> error + string" where
  "SaveConfigVar file envVar val =
     (case LookupEntry envVar of
        None \<Rightarrow> Inl (OtherError ''gate config: unknown variable'')
      | Some e \<Rightarrow>
        (case Option.bind (ce_validate e) (\<lambda>f. f val) of
           Some err \<Rightarrow> Inl err
         | None \<Rightarrow>
           (case file of
              Inl err \<Rightarrow> Inl err
            | Inr content \<Rightarrow>
                let ls = split_lines (case content of None \<Rightarrow> DefaultConfigFileContent | Some c \<Rightarrow> c) in
                (case update_first (envVar @ ''='') (envVar @ ''='' @ val) ls of
                   (ls', True) \<Rightarrow> Inr (join_with newline ls')
                 | (ls', False) \<Rightarrow> Inr (join_with newline (ls' @ [envVar @ ''='' @ val]))))))"

record ConfigDrift =
  cd_env_var :: string
  cd_file_value :: string
  cd_shell_value :: string

definition DetectDrifts :: "environ \<Rightarrow> error + string option \<Rightarrow> error + ConfigDrift list" where
  "DetectDrifts env file =
     (case ParseConfigFile file of
        Inl e \<Rightarrow> Inl e
      | Inr fileVars \<Rightarrow> Inr (List.map_filter (\<lambda>e. case (fileVars (ce_env_var e), env (ce_env_var e)) of
            (Some fv, Some ev) \<Rightarrow> if ev \<noteq> '''' \<and> ev \<noteq> fv
              then Some \<lparr>cd_env_var = ce_env_var e, cd_file_value = fv, cd_shell_value = ev\<rparr> else None
          | _ \<Rightarrow> None) Registry))"

definition AlwaysOnChecks :: "string list" where
  "AlwaysOnChecks = [''path-guard'', ''gitleaks'', ''ruff'']"

definition EffectiveBool :: "(string \<rightharpoonup> ResolvedVar) \<Rightarrow> string \<Rightarrow> bool" where
  "EffectiveBool vars envVar =
     (case vars envVar of
        Some rv \<Rightarrow> rv_value rv = ''true''
      | None \<Rightarrow> (case LookupEntry envVar of Some e \<Rightarrow> ce_default e = ''true'' | None \<Rightarrow> False))"

definition EffectiveInt :: "(string \<rightharpoonup> ResolvedVar) \<Rightarrow> string \<Rightarrow> int \<Rightarrow> int" where
  "EffectiveInt vars envVar fallback =
     (case vars envVar of
        Some rv \<Rightarrow> (case ParseInt (rv_value rv) of Some n \<Rightarrow> n | None \<Rightarrow> fallback)
      | None \<Rightarrow> fallback)"

section \<open>The heartbeat client\<close>

datatype GateStatus = GatePending | GatePass | GateFail | GateOther string

definition gate_status :: "string \<Rightarrow> GateStatus" where
  "gate_status v = (if v = ''PENDING'' then GatePending else if v = ''PASS'' then GatePass else if v = ''FAIL'' then GateFail else GateOther v)"

record GateResult =
  gr_status :: GateStatus
  gr_run_id :: string
  gr_elapsed_sec :: int
  gr_poll_after_sec :: int
  gr_progress_bar :: string
  gr_current_gate :: string
  gr_copilot_status :: string
  gr_litellm_status :: string
  gr_comments :: "string list"

definition empty_result :: "GateStatus \<Rightarrow> GateResult" where
  "empty_result s = \<lparr>gr_status = s, gr_run_id = '''', gr_elapsed_sec = 0, gr_poll_after_sec = 0, gr_progress_bar = '''',
     gr_current_gate = '''', gr_copilot_status = '''', gr_litellm_status = '''', gr_comments = []\<rparr>"

definition IsFinal :: "GateResult \<Rightarrow> bool" where
  "IsFinal r \<longleftrightarrow> gr_status r = GatePass \<or> gr_status r = GateFail"

text \<open>\<open>strings.Cut(line, ": ")\<close>.\<close>

fun cut_colon :: "string \<Rightarrow> (string \<times> string) option" where
  "cut_colon (a # b # cs) =
     (if a = CHR '':'' \<and> b = CHR '' '' then Some ([], cs)
      else map_option (\<lambda>(k, v). (a # k, v)) (cut_colon (b # cs)))"
| "cut_colon _ = None"

text \<open>\<open>strconv.Atoi\<close> with its error ignored: the nearest 64-bit integer when the number is out of range, 0 when there is none.\<close>

definition atoi_saturating :: "string \<Rightarrow> int" where
  "atoi_saturating s =
     (case ParseInt s of
        Some n \<Rightarrow> n
      | None \<Rightarrow>
          if parse_nat s \<noteq> None \<or> s \<noteq> [] \<and> hd s = CHR ''+'' \<and> parse_nat (tl s) \<noteq> None then MaxInt64
          else if s \<noteq> [] \<and> hd s = CHR ''-'' \<and> parse_nat (tl s) \<noteq> None then - 9223372036854775808 else 0)"

definition output_line :: "string \<Rightarrow> bool \<times> GateResult \<Rightarrow> bool \<times> GateResult" where
  "output_line line = (\<lambda>(inComments, r).
     if inComments then (True, r\<lparr>gr_comments := gr_comments r @ [line]\<rparr>)
     else if line = ''COMMENTS:'' then (True, r)
     else case cut_colon line of
       None \<Rightarrow> (False, r)
     | Some (key, v) \<Rightarrow>
       let val = TrimSpace v in
       if key = ''STATUS'' then (False, r\<lparr>gr_status := gate_status val\<rparr>)
       else if key = ''RUN_ID'' then (False, r\<lparr>gr_run_id := val\<rparr>)
       else if key = ''ELAPSED_SEC'' then (False, r\<lparr>gr_elapsed_sec := atoi_saturating val\<rparr>)
       else if key = ''POLL_AFTER_SEC'' then (False, r\<lparr>gr_poll_after_sec := atoi_saturating val\<rparr>)
       else if key = ''PROGRESS_BAR'' then (False, r\<lparr>gr_progress_bar := val\<rparr>)
       else if key = ''CURRENT_GATE'' then (False, r\<lparr>gr_current_gate := val\<rparr>)
       else if key = ''COPILOT_STATUS'' then (False, r\<lparr>gr_copilot_status := val\<rparr>)
       else if key = ''LITELLM_STATUS'' then (False, r\<lparr>gr_litellm_status := val\<rparr>)
       else if key = ''COMMENTS'' then
         (True, if val \<noteq> ''none'' \<and> val \<noteq> '''' then r\<lparr>gr_comments := gr_comments r @ [val]\<rparr> else r)
       else (False, r))"

definition ParseOutput :: "string \<Rightarrow> GateResult" where
  "ParseOutput output = snd (fold output_line (fst (scan_lines output)) (False, empty_result GatePending))"

definition parseFallbackMode :: "string \<Rightarrow> string" where
  "parseFallbackMode raw = (if raw \<in> {''block'', ''warn'', ''skip''} then raw else ''warn'')"

record GateConfig =
  gc_heartbeat_bin :: string
  gc_copilot_enabled :: bool
  gc_fallback_mode :: string
  gc_copilot_timeout_sec :: int
  gc_litellm_timeout_sec :: int
  gc_total_timeout_sec :: int
  gc_poll_interval_sec :: int
  gc_repo_path :: string

definition getenv :: "environ \<Rightarrow> string \<Rightarrow> string" where
  "getenv env key = (case env key of None \<Rightarrow> '''' | Some v \<Rightarrow> v)"

definition envOrDefault :: "environ \<Rightarrow> string \<Rightarrow> string \<Rightarrow> string" where
  "envOrDefault env key def = (if getenv env key \<noteq> '''' then getenv env key else def)"

definition envIntOrDefault :: "environ \<Rightarrow> string \<Rightarrow> int \<Rightarrow> int" where
  "envIntOrDefault env key def =
     (if getenv env key \<noteq> '''' then (case ParseInt (getenv env key) of Some n \<Rightarrow> if n > 0 then n else def | None \<Rightarrow> def) else def)"

definition effectiveIntWithLegacy :: "environ \<Rightarrow> (string \<rightharpoonup> ResolvedVar) \<Rightarrow> string \<Rightarrow> string \<Rightarrow> int \<Rightarrow> int" where
  "effectiveIntWithLegacy env vars specVar legacyVar fallback =
     (let spec = (case vars specVar of
            Some rv \<Rightarrow> if rv_source rv \<noteq> SourceDefault
              then (case ParseInt (rv_value rv) of Some n \<Rightarrow> if n > 0 then Some n else None | None \<Rightarrow> None) else None
          | None \<Rightarrow> None);
          legacy = (if getenv env legacyVar \<noteq> ''''
            then (case ParseInt (getenv env legacyVar) of Some n \<Rightarrow> if n > 0 then Some n else None | None \<Rightarrow> None) else None)
      in case spec of Some n \<Rightarrow> n | None \<Rightarrow> (case legacy of Some n \<Rightarrow> n | None \<Rightarrow> EffectiveInt vars specVar fallback))"

definition LoadConfigFrom :: "environ \<Rightarrow> error + string option \<Rightarrow> GateConfig" where
  "LoadConfigFrom env file =
     (let vars = (case ResolveEffectiveMap env file of Inl e \<Rightarrow> Map.empty | Inr m \<Rightarrow> m)
      in \<lparr>gc_heartbeat_bin = envOrDefault env ''CODERO_GATE_HEARTBEAT_BIN'' ''/srv/storage/shared/agent-toolkit/bin/gate-heartbeat'',
          gc_copilot_enabled = EffectiveBool vars ''CODERO_COPILOT_ENABLED'',
          gc_fallback_mode = parseFallbackMode (getenv env ''CODERO_AI_GATE_FALLBACK''),
          gc_copilot_timeout_sec = effectiveIntWithLegacy env vars ''CODERO_COPILOT_TIMEOUT'' ''CODERO_COPILOT_TIMEOUT_SEC'' 75,
          gc_litellm_timeout_sec = effectiveIntWithLegacy env vars ''CODERO_LITELLM_TIMEOUT'' ''CODERO_LITELLM_TIMEOUT_SEC'' 45,
          gc_total_timeout_sec = effectiveIntWithLegacy env vars ''CODERO_AI_BUDGET_SECONDS'' ''CODERO_GATE_TOTAL_TIMEOUT_SEC'' 180,
          gc_poll_interval_sec = envIntOrDefault env ''CODERO_GATE_POLL_INTERVAL_SEC'' 180,
          gc_repo_path = getenv env ''CODERO_REPO_PATH''\<rparr>)"

fun setEnvVar :: "string list \<Rightarrow> string \<Rightarrow> string \<Rightarrow> string list" where
  "setEnvVar [] key val = [key @ ''='' @ val]"
| "setEnvVar (e # env) key val =
     (if HasPrefix e (key @ ''='') then (key @ ''='' @ val) # env else e # setEnvVar env key val)"

definition buildEnv :: "string list \<Rightarrow> GateConfig \<Rightarrow> string list" where
  "buildEnv env0 cfg =
     (let set_var = (\<lambda>key val env. setEnvVar env key val);
          env = (set_var ''CODERO_GATE_POLL_INTERVAL_SEC'' (FormatInt (gc_poll_interval_sec cfg)) \<circ>
            set_var ''CODERO_GATE_TOTAL_TIMEOUT_SEC'' (FormatInt (gc_total_timeout_sec cfg)) \<circ>
            set_var ''CODERO_LITELLM_TIMEOUT_SEC'' (FormatInt (gc_litellm_timeout_sec cfg)) \<circ>
            set_var ''CODERO_COPILOT_TIMEOUT_SEC'' (FormatInt (gc_copilot_timeout_sec cfg)) \<circ>
            set_var ''CODERO_AI_GATE_FALLBACK'' (if gc_fallback_mode cfg = '''' then ''warn'' else gc_fallback_mode cfg) \<circ>
            set_var ''CODERO_COPILOT_ENABLED'' (if gc_copilot_enabled cfg then ''true'' else ''false'')) env0
      in if gc_repo_path cfg \<noteq> '''' then setEnvVar env ''CODERO_REPO_PATH'' (gc_repo_path cfg) else env)"

text \<open>A call of the script: its output, and the error with whether it is an exit status.\<close>

definition callHeartbeat :: "string \<times> (bool \<times> string) option \<Rightarrow> error + string" where
  "callHeartbeat answer =
     (case answer of
        (out, None) \<Rightarrow> Inr out
      | (out, Some (exited, e)) \<Rightarrow>
          if exited \<and> Contains out ''STATUS:'' then Inr out
          else Inl (OtherError (if TrimSpace out \<noteq> '''' then e @ '' (output: '' @ TrimSpace out @ '')'' else e)))"

text \<open>
  The polling loop: \<open>answers i\<close> is the answer of the call number \<open>i\<close>, \<open>cancelled i\<close> whether the context ended in the wait
  after it. The loop has no bound of its own, so it is a partial function.
\<close>

partial_function (option) poll_gate ::
  "(nat \<Rightarrow> string \<times> (bool \<times> string) option) \<Rightarrow> (nat \<Rightarrow> bool) \<Rightarrow> nat \<Rightarrow> (GateResult \<times> error option) option" where
  "poll_gate answers cancelled i =
     (case callHeartbeat (answers i) of
        Inl e \<Rightarrow> Some (empty_result GateFail, Some e)
      | Inr out \<Rightarrow>
          if IsFinal (ParseOutput out) then Some (ParseOutput out, None)
          else if cancelled i then Some (empty_result GateFail, Some (OtherError ''gate cancelled''))
          else poll_gate answers cancelled (Suc i))"

definition Runner_Run where
  "Runner_Run answers cancelled = poll_gate answers cancelled 0"

section \<open>The progress file\<close>

definition progress_line :: "string \<Rightarrow> (string \<rightharpoonup> string) \<Rightarrow> (string \<rightharpoonup> string)" where
  "progress_line l m = (case cut_at (CHR ''='') l of None \<Rightarrow> m | Some (k, v) \<Rightarrow> m(TrimSpace k \<mapsto> TrimSpace v))"

definition ParseProgressEnv :: "string \<Rightarrow> GateResult" where
  "ParseProgressEnv content =
     (case scan_lines content of
        (ls, False) \<Rightarrow> (empty_result GateFail)\<lparr>gr_copilot_status := ''error'', gr_litellm_status := ''error'',
          gr_comments := [''progress.env scan error: bufio.Scanner: token too long'']\<rparr>
      | (ls, True) \<Rightarrow>
        let m = fold progress_line ls Map.empty; field = (\<lambda>k. case m k of None \<Rightarrow> '''' | Some v \<Rightarrow> v);
            or_pending = (\<lambda>v. if v = '''' then ''pending'' else v);
            num = (\<lambda>k. case ParseInt (field k) of Some n \<Rightarrow> n | None \<Rightarrow> 0);
            raw = field ''COMMENTS''
        in \<lparr>gr_status = (if field ''STATUS'' = ''PASS'' then GatePass else if field ''STATUS'' = ''FAIL'' then GateFail else GatePending),
            gr_run_id = field ''RUN_ID'', gr_elapsed_sec = num ''ELAPSED_SEC'', gr_poll_after_sec = num ''POLL_AFTER_SEC'',
            gr_progress_bar = field ''PROGRESS_BAR'', gr_current_gate = field ''CURRENT_GATE'',
            gr_copilot_status = or_pending (field ''COPILOT_STATUS''), gr_litellm_status = or_pending (field ''LITELLM_STATUS''),
            gr_comments = (if raw \<noteq> '''' \<and> raw \<noteq> ''none''
              then filter (\<lambda>c. c \<noteq> '''') (map TrimSpace (split_on (CHR ''|'') raw)) else [])\<rparr>)"

definition ReadProgressEnv :: "error + string option \<Rightarrow> GateResult" where
  "ReadProgressEnv file =
     (case file of
        Inr None \<Rightarrow> (empty_result GatePending)\<lparr>gr_copilot_status := ''pending'', gr_litellm_status := ''pending''\<rparr>
      | Inl e \<Rightarrow> (empty_result GateFail)\<lparr>gr_copilot_status := ''error'', gr_litellm_status := ''error'',
          gr_comments := [''failed to read progress file'']\<rparr>
      | Inr (Some content) \<Rightarrow> ParseProgressEnv content)"

section \<open>Lines that define a variable\<close>

lemma TrimSpace_snoc [simp]: "is_space c \<Longrightarrow> TrimSpace (l @ [c]) = TrimSpace l"
proof (cases "list_all is_space l")
  case True
  assume c: "is_space c"
  have "dropWhile is_space l = []" "dropWhile is_space (l @ [c]) = []" using True c by (auto simp: list_all_iff)
  then show ?thesis by (simp only: TrimSpace_def)
next
  case False
  assume c: "is_space c"
  obtain x where "x \<in> set l" "\<not> is_space x" using False by (auto simp: list_all_iff)
  then have "dropWhile is_space (l @ [c]) = dropWhile is_space l @ [c]" by (rule dropWhile_append1)
  then show ?thesis using c by (simp add: TrimSpace_def)
qed

lemma TrimSpace_drop_cr [simp]: "TrimSpace (drop_cr l) = TrimSpace l"
proof (cases "l \<noteq> '''' \<and> last l = CHR 0x0D")
  case True
  then have "l = butlast l @ [CHR 0x0D]" by (metis append_butlast_last_id)
  then have "TrimSpace l = TrimSpace (butlast l)" by (metis TrimSpace_snoc insertCI is_space_def)
  then show ?thesis using True by (simp add: drop_cr_def)
qed (auto simp: drop_cr_def)

lemma put_line_drop_cr [simp]: "put_line (drop_cr l) = put_line l"
  by (simp add: put_line_def config_line_def fun_eq_iff Let_def)

lemma config_line_empty [simp]: "config_line '''' = None"
  by (simp add: config_line_def TrimSpace_def)

lemma fold_text_lines: "fold put_line (map drop_cr (text_lines s)) m = fold put_line (split_lines s) m"
proof -
  have e: "fold put_line (map drop_cr ls) m = fold put_line ls m" for ls m
    by (induction ls arbitrary: m) simp_all
  have "fold put_line (butlast ls) m = fold put_line ls m" if "ls \<noteq> []" "last ls = ''''" for ls
  proof -
    have "fold put_line ls m = fold put_line (butlast ls @ [last ls]) m" using that(1) by simp
    then show ?thesis using that(2) by (simp add: put_line_def)
  qed
  then show ?thesis by (auto simp: e text_lines_def Let_def)
qed

lemma scan_lines_ok_iff: "snd (scan_lines s) \<longleftrightarrow> (\<forall>l\<in>set (split_lines s). length l < 65536)"
proof -
  have t: "length (takeWhile P ls) = length ls \<longleftrightarrow> (\<forall>l\<in>set ls. P l)" for P and ls :: "string list"
    by (metis takeWhile_eq_all_conv length_takeWhile_le order.order_iff_strict takeWhile_eq_take take_all)
  have "(\<forall>l\<in>set (butlast ls). length l < 65536) \<longleftrightarrow> (\<forall>l\<in>set ls. length l < 65536)" if "ls \<noteq> []" "last ls = ''''" for ls :: "string list"
    by (subst (2) append_butlast_last_id [OF that(1), symmetric]) (auto simp: that(2))
  then show ?thesis unfolding scan_lines_def Let_def snd_conv t text_lines_def by (auto simp: MaxScanTokenSize_def)
qed

lemma scan_lines_lines: "snd (scan_lines s) \<Longrightarrow> fst (scan_lines s) = map drop_cr (text_lines s)"
  unfolding scan_lines_def Let_def by simp (metis takeWhile_eq_take take_all order_refl)

lemma parse_config:
  "ParseConfigFile (Inr (Some content)) = (if \<forall>l\<in>set (split_lines content). length l < 65536
     then Inr (fold put_line (split_lines content) Map.empty) else Inl (OtherError ''gate config: read: bufio.Scanner: token too long''))"
proof -
  obtain ls ok where s: "scan_lines content = (ls, ok)" by fastforce
  show ?thesis
    using scan_lines_ok_iff [of content] scan_lines_lines [of content] fold_text_lines [of content]
    by (cases ok) (auto simp: ParseConfigFile_def s)
qed

text \<open>The names of the registry: no space, no equals sign and no comment mark in them.\<close>

definition clean_name :: "string \<Rightarrow> bool" where
  "clean_name k \<longleftrightarrow> k \<noteq> [] \<and> hd k \<noteq> CHR ''#'' \<and> length k < 100 \<and> list_all (\<lambda>c. \<not> is_space c \<and> c \<noteq> CHR ''='') k"

lemma registry_clean: "LookupEntry k = Some e \<Longrightarrow> clean_name k"
proof -
  assume "LookupEntry k = Some e"
  then have "k \<in> set (map ce_env_var Registry)" by (auto simp: LookupEntry_def find_Some_iff intro!: imageI nth_mem)
  moreover have "list_all clean_name (map ce_env_var Registry)" by code_simp
  ultimately show ?thesis by (auto simp: list_all_iff)
qed

lemma clean_prefix:
  assumes "clean_name k" and "TrimSpace l = k @ ''='' @ x"
  shows "config_line l = Some (k, TrimSpace x)"
proof -
  have k: "takeWhile (\<lambda>c. c \<noteq> CHR ''='') (k @ CHR ''='' # x) = k" "dropWhile (\<lambda>c. c \<noteq> CHR ''='') (k @ CHR ''='' # x) = CHR ''='' # x"
    using assms(1) by (auto simp: clean_name_def list_all_iff takeWhile_append2 dropWhile_append2)
  have "TrimSpace k = k" using assms(1) by (intro TrimSpace_no_space) (auto simp: clean_name_def list_all_iff)
  moreover have "\<not> HasPrefix (TrimSpace l) ''#''" "TrimSpace l \<noteq> ''''"
    using assms by (cases k; auto simp: HasPrefix_def clean_name_def)+
  ultimately show ?thesis using assms(2) k by (simp add: config_line_def cut_at_def Let_def)
qed

lemma rstrip_append:
  assumes "\<not> P c"
  shows "rev (dropWhile P (rev (xs @ c # x))) = xs @ c # rev (dropWhile P (rev x))"
proof (cases "\<forall>y\<in>set x. P y")
  case True
  then have "dropWhile P (rev x @ c # rev xs) = dropWhile P (c # rev xs)" by (intro dropWhile_append2) simp
  moreover have "dropWhile P (rev x) = []" using True by simp
  ultimately show ?thesis using assms by simp
next
  case False
  then obtain y where "y \<in> set (rev x)" "\<not> P y" by auto
  then have "dropWhile P (rev x @ c # rev xs) = dropWhile P (rev x) @ c # rev xs" by (rule dropWhile_append1)
  then show ?thesis by simp
qed

lemma TrimSpace_cons: "\<not> is_space c \<Longrightarrow> TrimSpace (c # x) = c # rev (dropWhile is_space (rev x))"
  using rstrip_append [of is_space c "[]" x] by (simp add: TrimSpace_def)

lemma TrimSpace_rstrip: "TrimSpace (rev (dropWhile is_space (rev x))) = TrimSpace x"
proof (induction x rule: rev_induct)
  case (snoc c x)
  then show ?case by (cases "is_space c") auto
qed simp

lemma new_line_defines:
  assumes "clean_name k"
  shows "config_line (k @ ''='' @ x) = Some (k, TrimSpace x)"
proof -
  obtain c cs where c: "k = c # cs" "\<not> is_space c" using assms by (cases k) (auto simp: clean_name_def)
  have "rev (dropWhile is_space (rev (cs @ CHR ''='' # x))) = cs @ CHR ''='' # rev (dropWhile is_space (rev x))"
    by (rule rstrip_append) (simp add: is_space_def)
  then have "TrimSpace (k @ ''='' @ x) = k @ ''='' @ rev (dropWhile is_space (rev x))"
    by (simp only: c(1) append_Cons append_Nil TrimSpace_cons [OF c(2)])
  from clean_prefix [OF assms this] show ?thesis by (simp add: TrimSpace_rstrip)
qed


section \<open>Saving a variable\<close>

definition defines_var :: "string \<Rightarrow> string \<Rightarrow> bool" where
  "defines_var k l \<longleftrightarrow> map_option fst (config_line l) = Some k"

lemma prefix_defines: "clean_name k \<Longrightarrow> HasPrefix (TrimSpace l) (k @ ''='') \<Longrightarrow> defines_var k l"
  using clean_prefix by (fastforce simp: HasPrefix_iff defines_var_def)

lemma put_line_other: "\<not> defines_var x l \<Longrightarrow> put_line l m x = m x"
  by (auto simp: put_line_def defines_var_def split: option.splits prod.splits)

lemma fold_put_other: "(\<forall>l\<in>set ls. \<not> defines_var x l) \<Longrightarrow> fold put_line ls m x = m x"
  by (induction ls arbitrary: m) (simp_all add: put_line_other)

lemma fold_put_cong: "m x = m' x \<Longrightarrow> fold put_line ls m x = fold put_line ls m' x"
proof (induction ls arbitrary: m m')
  case (Cons l ls)
  then have "put_line l m x = put_line l m' x" by (auto simp: put_line_def split: option.splits prod.splits)
  then show ?case by (simp add: Cons.IH [of "put_line l m" "put_line l m'"])
qed simp

lemma fold_put_defined: "\<exists>l\<in>set ls. defines_var x l \<Longrightarrow> fold put_line ls m x = fold put_line ls m' x"
proof (induction ls arbitrary: m m')
  case (Cons l ls)
  show ?case
  proof (cases "defines_var x l")
    case True
    then have "put_line l m x = put_line l m' x" by (auto simp: put_line_def defines_var_def split: option.splits prod.splits)
    then have "fold put_line ls (put_line l m) x = fold put_line ls (put_line l m') x" by (rule fold_put_cong)
    then show ?thesis by simp
  next
    case False
    then have "\<exists>l\<in>set ls. defines_var x l" using Cons.prems by simp
    from Cons.IH [OF this, of "put_line l m" "put_line l m'"] show ?thesis by simp
  qed
qed simp

lemma update_first_cases:
  obtains (found) xs l ys where "ls = xs @ l # ys" "\<forall>x\<in>set xs. \<not> HasPrefix (TrimSpace x) p" "HasPrefix (TrimSpace l) p"
      "update_first p new ls = (xs @ new # ys, True)"
    | (missing) "\<forall>x\<in>set ls. \<not> HasPrefix (TrimSpace x) p" "update_first p new ls = (ls, False)"
proof (induction ls arbitrary: thesis)
  case (Cons a ls)
  show ?case
  proof (cases "HasPrefix (TrimSpace a) p")
    case True
    then show ?thesis using Cons.prems(1) [of "[]" a ls] by simp
  next
    case False
    show ?thesis
    proof (rule Cons.IH, goal_cases)
      case (1 xs l ys)
      then show ?case using Cons.prems(1) [of "a # xs" l ys] False by simp
    next
      case 2
      then show ?case using Cons.prems(2) False by simp
    qed
  qed
qed simp


lemma update_first_fold:
  assumes k: "clean_name k" and new: "config_line new = Some (k, v)"
    and u: "update_first (k @ ''='') new ls = (ls', found)"
  shows "fold put_line (if found then ls' else ls' @ [new]) m0 =
    (if \<exists>y\<in>set (tl (dropWhile (\<lambda>l. \<not> HasPrefix (TrimSpace l) (k @ ''='')) ls)). defines_var k y
     then fold put_line ls m0 else (fold put_line ls m0)(k \<mapsto> v))"
    (is "?lhs = (if ?stale then _ else _)")
proof (cases rule: update_first_cases [of ls "k @ ''=''" new])
  case (found xs l ys)
  have tl: "tl (dropWhile (\<lambda>l. \<not> HasPrefix (TrimSpace l) (k @ ''='')) ls) = ys"
    using found(1-3) by (simp add: dropWhile_append2)
  let ?m = "fold put_line xs m0"
  have lhs: "?lhs = fold put_line ys (?m(k \<mapsto> v))" using found(4) u new by (auto simp: put_line_def)
  have old: "fold put_line ls m0 = fold put_line ys (put_line l ?m)" by (simp add: found(1))
  have l: "put_line l ?m x = ?m x" if "x \<noteq> k" for x
    using prefix_defines [OF k found(3)] that by (intro put_line_other) (auto simp: defines_var_def)
  have other: "fold put_line ys (?m(k \<mapsto> v)) x = fold put_line ys (put_line l ?m) x" if "x \<noteq> k" for x
    by (rule fold_put_cong) (simp add: l that)
  show ?thesis
  proof (cases "\<exists>y\<in>set ys. defines_var k y")
    case True
    have "?lhs x = fold put_line ls m0 x" for x
      unfolding lhs old by (cases "x = k") (simp_all add: other fold_put_defined [OF True])
    then show ?thesis using True tl by auto
  next
    case False
    then have "fold put_line ys (?m(k \<mapsto> v)) k = Some v" by (subst fold_put_other) auto
    then have "?lhs x = ((fold put_line ls m0)(k \<mapsto> v)) x" for x
      unfolding lhs old by (cases "x = k") (simp_all add: other)
    then show ?thesis using False tl by auto
  qed
next
  case missing
  then have t: "dropWhile (\<lambda>l. \<not> HasPrefix (TrimSpace l) (k @ ''='')) ls = []" by (simp add: dropWhile_eq_Nil_conv)
  have "?lhs = (fold put_line ls m0)(k \<mapsto> v)" using missing(2) u new by (auto simp: put_line_def)
  then show ?thesis by (simp only: t list.sel(2) list.set(1) bex_empty if_False)
qed

lemma update_first_set: "update_first p new ls = (ls', found) \<Longrightarrow> set ls' \<subseteq> insert new (set ls)"
  by (cases rule: update_first_cases [of ls p new]) auto

lemma update_first_nonempty: "update_first p new ls = (ls', found) \<Longrightarrow> ls \<noteq> [] \<Longrightarrow> ls' \<noteq> []"
  by (cases rule: update_first_cases [of ls p new]) auto

lemma save_parse:
  assumes saved: "SaveConfigVar (Inr (Some c)) k val = Inr c'" and parsed: "ParseConfigFile (Inr (Some c)) = Inr m"
    and plain: "CHR 0x0A \<notin> set val" and short: "length val < 65000"
  shows "ParseConfigFile (Inr (Some c')) =
    Inr (if \<exists>y\<in>set (tl (dropWhile (\<lambda>l. \<not> HasPrefix (TrimSpace l) (k @ ''='')) (split_lines c))). defines_var k y
         then m else m(k \<mapsto> TrimSpace val))"
proof -
  let ?new = "k @ ''='' @ val"
  obtain e where e: "LookupEntry k = Some e" using saved by (auto simp: SaveConfigVar_def split: option.splits)
  have k: "clean_name k" using e by (rule registry_clean)
  obtain ls' found where u: "update_first (k @ ''='') ?new (split_lines c) = (ls', found)" by fastforce
  let ?out = "if found then ls' else ls' @ [?new]"
  have c': "c' = join_with newline ?out"
    using saved u by (auto simp: SaveConfigVar_def e Let_def split: option.splits)
  have lines: "\<forall>l\<in>set (split_lines c). length l < 65536" and m: "m = fold put_line (split_lines c) Map.empty"
    using parsed by (auto simp: parse_config split: if_splits)
  have nl: "CHR 0x0A \<notin> set k" using k by (auto simp: clean_name_def list_all_iff is_space_def)
  have sub: "set ?out \<subseteq> insert ?new (set (split_lines c))" using update_first_set [OF u] by auto
  have "split_lines c' = ?out"
    unfolding c' using sub plain nl update_first_nonempty [OF u] split_lines_plain
    by (intro split_join_lines) (auto split: if_splits)
  moreover have "\<forall>l\<in>set ?out. length l < 65536"
    using sub lines short k by (fastforce simp: clean_name_def)
  ultimately have "ParseConfigFile (Inr (Some c')) = Inr (fold put_line ?out Map.empty)"
    unfolding parse_config by (elim ssubst) (rule if_P)
  then show ?thesis unfolding m update_first_fold [OF k new_line_defines [OF k] u] .
qed

text \<open>A line after the first one that a save would replace defines the variable again.\<close>

definition redefined_later :: "string \<Rightarrow> string list \<Rightarrow> bool" where
  "redefined_later k ls \<longleftrightarrow>
     (\<exists>y\<in>set (tl (dropWhile (\<lambda>l. \<not> HasPrefix (TrimSpace l) (k @ ''='')) ls)). defines_var k y)"

text \<open>The registry has each variable once, so the resolved map is looked up entry by entry.\<close>

lemma registry_distinct: "distinct (map ce_env_var Registry)"
  by code_simp

lemma fold_upd_distinct:
  "distinct (map f xs) \<Longrightarrow> x \<in> set xs \<Longrightarrow> fold (\<lambda>v m. m(f v \<mapsto> v)) xs m (f x) = Some x"
proof (induction xs arbitrary: m)
  case (Cons a xs)
  have keep: "fold (\<lambda>v m. m(f v \<mapsto> v)) ys m y = m y" if "y \<notin> f ` set ys" for ys m y
    using that by (induction ys arbitrary: m) simp_all
  show ?case
  proof (cases "x = a")
    case True
    then show ?thesis using Cons.prems(1) keep [of "f a" xs "m(f a \<mapsto> a)"] by (simp del: fun_upd_apply add: fun_upd_same)
  next
    case False
    then show ?thesis using Cons by simp
  qed
qed simp

lemma resolved_lookup:
  assumes "LookupEntry k = Some e" and "ParseConfigFile file = Inr fv"
  shows "\<exists>M. ResolveEffectiveMap env file = Inr M \<and> M k = Some (resolve env fv e)"
proof -
  have e: "e \<in> set Registry" "ce_env_var e = k"
    using assms(1) by (auto simp: LookupEntry_def find_Some_iff)
  have n: "rv_env_var (resolve env fv x) = ce_env_var x" for x by (simp add: resolve_def Let_def split: option.splits)
  have "distinct (map rv_env_var (map (resolve env fv) Registry))"
    using registry_distinct by (simp add: o_def n)
  from fold_upd_distinct [OF this, of "resolve env fv e" Map.empty] show ?thesis
    using e by (simp add: ResolveEffectiveMap_def ResolveEffective_def assms(2) n)
qed

text \<open>
  C24: saving a gate variable and reading the file back. Whatever lines the file already had, after a successful
  \<open>SaveConfigVar\<close> the file still parses, every other variable has the value it had, and the saved variable has the
  trimmed value just written, unless a line after the replaced one defines the variable again: \<open>SaveConfigVar\<close> rewrites
  the first definition and \<open>ParseConfigFile\<close> keeps the last, so in that file the save has no effect at all. Where the
  save takes effect and the shell does not set the variable, the resolved configuration shows the new value as coming
  from the file.
\<close>

theorem config_save_roundtrip:
  assumes saved: "SaveConfigVar (Inr (Some c)) k val = Inr c'" and parsed: "ParseConfigFile (Inr (Some c)) = Inr m"
    and plain: "CHR 0x0A \<notin> set val" and short: "length val < 65000"
  shows "ParseConfigFile (Inr (Some c')) = Inr (if redefined_later k (split_lines c) then m else m(k \<mapsto> TrimSpace val)) \<and>
    (\<not> redefined_later k (split_lines c) \<longrightarrow> getenv env k = '''' \<longrightarrow> (\<exists>M rv. ResolveEffectiveMap env (Inr (Some c')) = Inr M \<and> M k = Some rv \<and>
       rv_value rv = TrimSpace val \<and> rv_source rv = SourceConfigFile))"
proof -
  have p: "ParseConfigFile (Inr (Some c')) = Inr (if redefined_later k (split_lines c) then m else m(k \<mapsto> TrimSpace val))"
    using save_parse [OF saved parsed plain short] by (simp add: redefined_later_def)
  obtain e where e: "LookupEntry k = Some e" using saved by (auto simp: SaveConfigVar_def split: option.splits)
  then have ek: "ce_env_var e = k" by (auto simp: LookupEntry_def find_Some_iff)
  have "\<exists>M rv. ResolveEffectiveMap env (Inr (Some c')) = Inr M \<and> M k = Some rv \<and> rv_value rv = TrimSpace val \<and> rv_source rv = SourceConfigFile"
    if "\<not> redefined_later k (split_lines c)" "getenv env k = ''''"
  proof -
    have "ParseConfigFile (Inr (Some c')) = Inr (m(k \<mapsto> TrimSpace val))" using p that(1) by simp
    from resolved_lookup [OF e this, of env] show ?thesis
      using that(2) ek by (auto simp: resolve_def getenv_def Let_def split: option.splits)
  qed
  then show ?thesis using p by simp
qed


definition demo_gate_file :: string where
  "demo_gate_file = ''# gate'' @ newline @ ''CODERO_GOVET_ENABLED=false'' @ newline @ '' CODERO_AI_QUORUM= 1 '' @ newline"

definition demo_gate_twice :: string where
  "demo_gate_twice = demo_gate_file @ ''CODERO_AI_QUORUM=3'' @ newline"

lemma demo_gate_lines:
  "split_lines demo_gate_file = [''# gate'', ''CODERO_GOVET_ENABLED=false'', '' CODERO_AI_QUORUM= 1 '', '''']"
  "split_lines demo_gate_twice = [''# gate'', ''CODERO_GOVET_ENABLED=false'', '' CODERO_AI_QUORUM= 1 '', ''CODERO_AI_QUORUM=3'', '''']"
  by code_simp+

lemma demo_gate_parse:
  "ParseConfigFile (Inr (Some demo_gate_file)) = Inr [''CODERO_GOVET_ENABLED'' \<mapsto> ''false'', ''CODERO_AI_QUORUM'' \<mapsto> ''1'']"
  "ParseConfigFile (Inr (Some demo_gate_twice)) = Inr [''CODERO_GOVET_ENABLED'' \<mapsto> ''false'', ''CODERO_AI_QUORUM'' \<mapsto> ''3'']"
proof -
  have l: "map config_line [''# gate'', ''CODERO_GOVET_ENABLED=false'', '' CODERO_AI_QUORUM= 1 '', ''CODERO_AI_QUORUM=3''] =
      [None, Some (''CODERO_GOVET_ENABLED'', ''false''), Some (''CODERO_AI_QUORUM'', ''1''), Some (''CODERO_AI_QUORUM'', ''3'')]"
    by code_simp
  show "ParseConfigFile (Inr (Some demo_gate_file)) = Inr [''CODERO_GOVET_ENABLED'' \<mapsto> ''false'', ''CODERO_AI_QUORUM'' \<mapsto> ''1'']"
    "ParseConfigFile (Inr (Some demo_gate_twice)) = Inr [''CODERO_GOVET_ENABLED'' \<mapsto> ''false'', ''CODERO_AI_QUORUM'' \<mapsto> ''3'']"
    using l by (simp_all add: parse_config demo_gate_lines put_line_def)
qed

theorem config_save_roundtrip_witness:
  "ParseConfigFile (Inr (Some (''# gate'' @ newline @ ''CODERO_GOVET_ENABLED=false'' @ newline @ ''CODERO_AI_QUORUM=2'' @ newline))) =
     Inr ([''CODERO_GOVET_ENABLED'' \<mapsto> ''false'', ''CODERO_AI_QUORUM'' \<mapsto> ''1''](''CODERO_AI_QUORUM'' \<mapsto> ''2'')) \<and>
   ParseConfigFile (Inr (Some (''# gate'' @ newline @ ''CODERO_GOVET_ENABLED=false'' @ newline @ ''CODERO_AI_QUORUM=2'' @ newline @
       ''CODERO_AI_QUORUM=3'' @ newline))) =
     Inr [''CODERO_GOVET_ENABLED'' \<mapsto> ''false'', ''CODERO_AI_QUORUM'' \<mapsto> ''3'']"
proof -
  have s: "SaveConfigVar (Inr (Some demo_gate_file)) ''CODERO_AI_QUORUM'' ''2'' =
      Inr (''# gate'' @ newline @ ''CODERO_GOVET_ENABLED=false'' @ newline @ ''CODERO_AI_QUORUM=2'' @ newline)" by code_simp
  have s2: "SaveConfigVar (Inr (Some demo_gate_twice)) ''CODERO_AI_QUORUM'' ''2'' =
      Inr (''# gate'' @ newline @ ''CODERO_GOVET_ENABLED=false'' @ newline @ ''CODERO_AI_QUORUM=2'' @ newline @ ''CODERO_AI_QUORUM=3'' @ newline)"
    by code_simp
  have r: "\<not> redefined_later ''CODERO_AI_QUORUM'' (split_lines demo_gate_file)" "redefined_later ''CODERO_AI_QUORUM'' (split_lines demo_gate_twice)"
    by code_simp+
  have t: "TrimSpace ''2'' = ''2''" by code_simp
  show ?thesis
    using config_save_roundtrip [OF s demo_gate_parse(1), of "\<lambda>_. None"] config_save_roundtrip [OF s2 demo_gate_parse(2), of "\<lambda>_. None"] r t by simp
qed

section \<open>The polling loop\<close>

definition stopping :: "string \<times> (bool \<times> string) option \<Rightarrow> bool \<Rightarrow> bool" where
  "stopping answer cancelled =
     (case callHeartbeat answer of Inl e \<Rightarrow> True | Inr out \<Rightarrow> IsFinal (ParseOutput out) \<or> cancelled)"

lemma poll_returns:
  "stopping (answers k) (cancelled k) \<Longrightarrow> \<forall>j. i \<le> j \<and> j < k \<longrightarrow> \<not> stopping (answers j) (cancelled j) \<Longrightarrow> i \<le> k \<Longrightarrow>
   poll_gate answers cancelled i = poll_gate answers cancelled k"
proof (induction "k - i" arbitrary: i)
  case (Suc n)
  then have "\<not> stopping (answers i) (cancelled i)" by simp
  then have "poll_gate answers cancelled i = poll_gate answers cancelled (Suc i)"
    by (subst poll_gate.simps) (auto simp: stopping_def split: sum.splits)
  also have "\<dots> = poll_gate answers cancelled k" using Suc by (intro Suc.hyps(1)) auto
  finally show ?case .
qed simp

lemma poll_stops:
  assumes "poll_gate answers cancelled i = Some y"
  shows "\<exists>j\<ge>i. stopping (answers j) (cancelled j)"
proof (rule poll_gate.raw_induct [OF _ assms, where P = "\<lambda>a c i y. \<exists>j\<ge>i. stopping (a j) (c j)"])
  fix poll a c i y
  assume IH: "\<And>a c i y. poll a c i = Some y \<Longrightarrow> \<exists>j\<ge>i. stopping (a j) (c j)"
    and body: "(case callHeartbeat (a i) of Inl e \<Rightarrow> Some (empty_result GateFail, Some e)
      | Inr out \<Rightarrow> if IsFinal (ParseOutput out) then Some (ParseOutput out, None)
          else if c i then Some (empty_result GateFail, Some (OtherError ''gate cancelled'')) else poll a c (Suc i)) = Some y"
  show "\<exists>j\<ge>i. stopping (a j) (c j)"
  proof (cases "stopping (a i) (c i)")
    case False
    then have "poll a c (Suc i) = Some y" using body by (auto simp: stopping_def split: sum.splits if_splits)
    from IH [OF this] show ?thesis using Suc_leD by blast
  qed auto
qed

text \<open>
  C25: the gate client returns exactly when the script lets it. \<open>Runner.Run\<close> has no bound on its polls: it never
  returns iff every call of the script answers with a status other than \<open>PASS\<close> or \<open>FAIL\<close> and the context is never
  cancelled in a wait. Otherwise it returns at the first call that fails, answers finally, or is followed by a
  cancellation: with the error of the call, with the final result parsed from its output and no error, or with a
  failed result and the cancellation error. So a result without an error is always final, and no earlier output is
  ever taken for the verdict.
\<close>

theorem gate_poll_terminates:
  "(Runner_Run answers cancelled = None \<longleftrightarrow>
      (\<forall>i. \<exists>out. callHeartbeat (answers i) = Inr out \<and> gr_status (ParseOutput out) \<notin> {GatePass, GateFail} \<and> \<not> cancelled i)) \<and>
   (\<forall>k. (\<forall>i<k. \<exists>out. callHeartbeat (answers i) = Inr out \<and> gr_status (ParseOutput out) \<notin> {GatePass, GateFail} \<and> \<not> cancelled i) \<longrightarrow>
      (\<forall>e. callHeartbeat (answers k) = Inl e \<longrightarrow> Runner_Run answers cancelled = Some (empty_result GateFail, Some e)) \<and>
      (\<forall>out. callHeartbeat (answers k) = Inr out \<and> gr_status (ParseOutput out) \<in> {GatePass, GateFail} \<longrightarrow>
         Runner_Run answers cancelled = Some (ParseOutput out, None)) \<and>
      (\<forall>out. callHeartbeat (answers k) = Inr out \<and> gr_status (ParseOutput out) \<notin> {GatePass, GateFail} \<and> cancelled k \<longrightarrow>
         Runner_Run answers cancelled = Some (empty_result GateFail, Some (OtherError ''gate cancelled'')))) \<and>
   (\<forall>r. Runner_Run answers cancelled = Some (r, None) \<longrightarrow> gr_status r \<in> {GatePass, GateFail})"
proof -
  have pending: "(\<exists>out. callHeartbeat (answers i) = Inr out \<and> gr_status (ParseOutput out) \<notin> {GatePass, GateFail} \<and> \<not> cancelled i) \<longleftrightarrow>
      \<not> stopping (answers i) (cancelled i)" for i
    by (auto simp: stopping_def IsFinal_def split: sum.splits)
  have run: "Runner_Run answers cancelled = poll_gate answers cancelled k"
    if "stopping (answers k) (cancelled k)" "\<forall>i<k. \<not> stopping (answers i) (cancelled i)" for k
    unfolding Runner_Run_def using that by (intro poll_returns) auto
  have first: "\<exists>k. stopping (answers k) (cancelled k) \<and> (\<forall>i<k. \<not> stopping (answers i) (cancelled i))"
    if "stopping (answers j) (cancelled j)" for j
    using exists_least_iff [of "\<lambda>k. stopping (answers k) (cancelled k)"] that by blast
  have at: "stopping (answers k) (cancelled k) \<Longrightarrow> poll_gate answers cancelled k =
      (case callHeartbeat (answers k) of Inl e \<Rightarrow> Some (empty_result GateFail, Some e)
       | Inr out \<Rightarrow> if IsFinal (ParseOutput out) then Some (ParseOutput out, None)
           else Some (empty_result GateFail, Some (OtherError ''gate cancelled'')))" for k
    by (subst poll_gate.simps) (auto simp: stopping_def split: sum.splits)
  have "Runner_Run answers cancelled = None \<longleftrightarrow> (\<forall>i. \<not> stopping (answers i) (cancelled i))"
  proof
    show "\<forall>i. \<not> stopping (answers i) (cancelled i)" if "Runner_Run answers cancelled = None"
    proof (rule ccontr)
      assume "\<not> (\<forall>i. \<not> stopping (answers i) (cancelled i))"
      then obtain k where "stopping (answers k) (cancelled k)" "\<forall>i<k. \<not> stopping (answers i) (cancelled i)" using first by blast
      then show False using run [of k] at [of k] that by (auto split: sum.splits if_splits)
    qed
    show "Runner_Run answers cancelled = None" if "\<forall>i. \<not> stopping (answers i) (cancelled i)"
      using that poll_stops unfolding Runner_Run_def by (metis not_None_eq)
  qed
  moreover have "gr_status r \<in> {GatePass, GateFail}" if r: "Runner_Run answers cancelled = Some (r, None)" for r
  proof -
    obtain j where "stopping (answers j) (cancelled j)" using r poll_stops unfolding Runner_Run_def by blast
    then obtain k where k: "stopping (answers k) (cancelled k)" "\<forall>i<k. \<not> stopping (answers i) (cancelled i)" using first by blast
    then show ?thesis using run [OF k] at [OF k(1)] r by (auto simp: IsFinal_def split: sum.splits if_splits)
  qed
  moreover have "(\<forall>e. callHeartbeat (answers k) = Inl e \<longrightarrow> Runner_Run answers cancelled = Some (empty_result GateFail, Some e)) \<and>
      (\<forall>out. callHeartbeat (answers k) = Inr out \<and> gr_status (ParseOutput out) \<in> {GatePass, GateFail} \<longrightarrow>
         Runner_Run answers cancelled = Some (ParseOutput out, None)) \<and>
      (\<forall>out. callHeartbeat (answers k) = Inr out \<and> gr_status (ParseOutput out) \<notin> {GatePass, GateFail} \<and> cancelled k \<longrightarrow>
         Runner_Run answers cancelled = Some (empty_result GateFail, Some (OtherError ''gate cancelled'')))"
    if "\<forall>i<k. \<not> stopping (answers i) (cancelled i)" for k
    using run [OF _ that] at [of k] by (auto simp: stopping_def IsFinal_def)
  ultimately show ?thesis unfolding pending by blast
qed

definition demo_answers :: "nat \<Rightarrow> string \<times> (bool \<times> string) option" where
  "demo_answers i = (if i = 0 then (''STATUS: PENDING'', Some (True, ''exit status 2'')) else (''STATUS: PASS'', None))"

theorem gate_poll_terminates_witness:
  "Runner_Run demo_answers (\<lambda>_. False) = Some (ParseOutput ''STATUS: PASS'', None) \<and>
   gr_status (ParseOutput ''STATUS: PASS'') = GatePass"
proof -
  have a: "callHeartbeat (demo_answers 0) = Inr ''STATUS: PENDING''" "callHeartbeat (demo_answers 1) = Inr ''STATUS: PASS''" by code_simp+
  have l: "output_line ''STATUS: PASS'' (False, empty_result GatePending) = (False, empty_result GatePass)"
    "output_line ''STATUS: PENDING'' (False, empty_result GatePending) = (False, empty_result GatePending)" by code_simp+
  have "split_lines ''STATUS: PASS'' = [''STATUS: PASS'']" "split_lines ''STATUS: PENDING'' = [''STATUS: PENDING'']" by code_simp+
  then have p: "gr_status (ParseOutput ''STATUS: PASS'') = GatePass" "gr_status (ParseOutput ''STATUS: PENDING'') = GatePending"
    using l by (simp_all add: ParseOutput_def scan_lines_def text_lines_def MaxScanTokenSize_def drop_cr_def empty_result_def)
  show ?thesis using gate_poll_terminates [of demo_answers "\<lambda>_. False"] a p by (auto simp: less_Suc_eq dest!: spec [of _ 1])
qed


section \<open>Two writers of one progress file\<close>

lemma format_nat_length: "n < 10 ^ Suc k \<Longrightarrow> length (format_nat n) \<le> Suc k"
proof (induction k arbitrary: n)
  case (Suc k)
  then have "n div 10 < 10 ^ Suc k" by (simp add: less_mult_imp_div_less mult.commute)
  then have "length (format_nat (n div 10)) \<le> Suc k" by (rule Suc.IH)
  then show ?case by (subst format_nat.simps) simp
qed (subst format_nat.simps, simp)

lemma FormatInt_length: "\<bar>i\<bar> < 10 ^ 19 \<Longrightarrow> length (FormatInt i) \<le> 20"
proof -
  assume "\<bar>i\<bar> < 10 ^ 19"
  then have "nat \<bar>i\<bar> < 10 ^ Suc 18" by (simp add: nat_less_iff)
  from format_nat_length [OF this] show ?thesis by (cases "i < 0") (simp_all add: FormatInt_def)
qed

lemma FormatInt_plain: "CHR 0x0A \<notin> set (FormatInt i)"
proof -
  have "CHR 0x0A \<notin> set (format_nat n)" for n
    using format_nat_digits [of n] by (auto simp: list_all_iff is_digit_def)
  then show ?thesis by (simp add: FormatInt_def)
qed

definition gate_keys :: "string list" where
  "gate_keys = [''STATUS'', ''RUN_ID'', ''ELAPSED_SEC'', ''POLL_AFTER_SEC'', ''PROGRESS_BAR'', ''CURRENT_GATE'',
     ''COPILOT_STATUS'', ''LITELLM_STATUS'', ''COMMENTS'']"

lemma progress_line_codero:
  assumes "TrimSpace k \<notin> set gate_keys" and "CHR ''='' \<notin> set k" and "x \<in> set gate_keys"
  shows "progress_line (k @ ''='' @ v) m x = m x"
proof -
  have "cut_at (CHR ''='') (k @ ''='' @ v) = Some (k, v)"
    using assms(2) by (induction k) (auto simp: cut_at_def)
  then show ?thesis using assms(1,3) by (auto simp: progress_line_def)
qed

lemma write_progress_lines:
  assumes "CHR 0x0A \<notin> set name"
  shows "split_lines (WriteProgress name pct ms) =
    [''CODERO_CHECK_CURRENT='' @ name, ''CODERO_CHECK_PROGRESS='' @ FormatInt pct, ''CODERO_CHECK_ELAPSED_MS='' @ FormatInt ms, '''']"
proof -
  have e: "WriteProgress name pct ms = (''CODERO_CHECK_CURRENT='' @ name) @ CHR 0x0A # (''CODERO_CHECK_PROGRESS='' @ FormatInt pct) @
      CHR 0x0A # (''CODERO_CHECK_ELAPSED_MS='' @ FormatInt ms) @ CHR 0x0A # ''''"
    by (simp add: WriteProgress_def env_line_def newline_def)
  show ?thesis unfolding e
    by (subst split_lines_append, (simp add: assms FormatInt_plain)[1])+ simp
qed

lemma progress_not_understood:
  assumes name: "CHR 0x0A \<notin> set name" "length name < 1000" and small: "\<bar>pct\<bar> < 10 ^ 19" "\<bar>ms\<bar> < 10 ^ 19"
  shows "ParseProgressEnv (WriteProgress name pct ms) = ReadProgressEnv (Inr None)"
proof -
  let ?c = "WriteProgress name pct ms"
  note ls = write_progress_lines [OF name(1), of pct ms]
  have ok: "snd (scan_lines ?c)"
    unfolding scan_lines_ok_iff ls using name(2) FormatInt_length [OF small(1)] FormatInt_length [OF small(2)] by simp
  have lines: "fst (scan_lines ?c) = map drop_cr [''CODERO_CHECK_CURRENT='' @ name, ''CODERO_CHECK_PROGRESS='' @ FormatInt pct,
      ''CODERO_CHECK_ELAPSED_MS='' @ FormatInt ms]"
    unfolding scan_lines_lines [OF ok] text_lines_def ls by (simp add: Let_def)
  have d: "drop_cr (k @ CHR ''='' # v) = k @ CHR ''='' # drop_cr v" for k v
    by (auto simp: drop_cr_def butlast_append)
  let ?m = "fold progress_line (fst (scan_lines ?c)) Map.empty"
  have keys: "list_all (\<lambda>k. TrimSpace k \<notin> set gate_keys \<and> CHR ''='' \<notin> set k)
      [''CODERO_CHECK_CURRENT'', ''CODERO_CHECK_PROGRESS'', ''CODERO_CHECK_ELAPSED_MS'']" by code_simp
  have "?m x = None" if "x \<in> set gate_keys" for x
  proof -
    have "progress_line (drop_cr (k @ ''='' @ v)) m x = m x"
      if "k \<in> set [''CODERO_CHECK_CURRENT'', ''CODERO_CHECK_PROGRESS'', ''CODERO_CHECK_ELAPSED_MS'']" for k v m
      using keys that \<open>x \<in> set gate_keys\<close> progress_line_codero [of k x "drop_cr v" m] d [of k v] by (auto simp: list_all_iff)
    from this [of "''CODERO_CHECK_CURRENT''"] this [of "''CODERO_CHECK_PROGRESS''"] this [of "''CODERO_CHECK_ELAPSED_MS''"]
    show ?thesis unfolding lines by simp
  qed
  then have none: "list_all (\<lambda>x. ?m x = None) gate_keys" by (simp add: list_all_iff)
  obtain ls where s: "scan_lines ?c = (ls, True)" using ok by (cases "scan_lines ?c") auto
  have num: "ParseInt '''' = None" by code_simp
  show ?thesis
    using none by (simp add: ParseProgressEnv_def ReadProgressEnv_def s gate_keys_def num empty_result_def Let_def)
qed


text \<open>
  The progress of the delivery pipeline is invisible to its readers. \<open>RunPipeline\<close> writes its progress to the
  file \<open>.codero/gate-heartbeat/progress.env\<close> that the gate views read with \<open>ReadProgressEnv\<close>, but under other keys:
  every content it ever writes there, before each check and at the end, whatever the elapsed times, is read exactly
  like a missing file, as a pending gate with no current check, so a run that has finished is still shown as pending.
\<close>

theorem pipeline_progress_unread:
  assumes times: "\<forall>i. 0 \<le> elapsed i \<and> elapsed i \<le> MaxInt64"
    and written: "content \<in> set (snd (RunPipeline git_diff w now elapsed substatus_error cfg worktree files))"
  shows "ReadProgressEnv (Inr (Some content)) = ReadProgressEnv (Inr None) \<and> gr_status (ReadProgressEnv (Inr (Some content))) = GatePending"
proof -
  let ?n = "length buildRunners"
  have n: "?n = 13" by (simp add: buildRunners_def)
  have small: "\<bar>elapsed i\<bar> < 10 ^ 19" for i using times [rule_format, of i] by simp
  have "content \<in> set (progress_log elapsed ?n)" using written by (auto simp: RunPipeline_def Let_def split: if_splits)
  then obtain name pct i where c: "content = WriteProgress name pct (elapsed i)" and "\<bar>pct\<bar> < 10 ^ 19"
    and "CHR 0x0A \<notin> set name" "length name < 1000"
  proof (cases "content = WriteProgress ''complete'' 100 (elapsed ?n)")
    case False
    assume "content \<in> set (progress_log elapsed ?n)"
    then obtain i where i: "i < 13" "content = WriteProgress (''check_'' @ FormatInt (int i + 1)) (int (i * 100 div 13)) (elapsed i)"
      using False by (auto simp: progress_log_def n)
    have "length (FormatInt (int i + 1)) \<le> 20" using i(1) by (intro FormatInt_length) simp
    then show ?thesis using i that [of "''check_'' @ FormatInt (int i + 1)" "int (i * 100 div 13)" i] FormatInt_plain by simp
  qed (auto intro: that [of "''complete''" 100 ?n])
  then have "ReadProgressEnv (Inr (Some content)) = ReadProgressEnv (Inr None)"
    using progress_not_understood small by (simp add: ReadProgressEnv_def [of "Inr (Some _)"])
  then show ?thesis by (simp add: ReadProgressEnv_def empty_result_def)
qed

theorem pipeline_progress_unread_witness:
  "gr_status (ReadProgressEnv (Inr (Some (WriteProgress ''complete'' 100 7)))) = GatePending"
proof -
  have "WriteProgress ''complete'' 100 7 \<in> set (progress_log (\<lambda>_. 7) n)" for n by (simp add: progress_log_def)
  moreover have "TrimSpace ''/wt'' \<noteq> ''''" by code_simp
  ultimately have "WriteProgress ''complete'' 100 7 \<in> set (snd (RunPipeline g w now (\<lambda>_. 7) None cfg ''/wt'' None))" for g w now cfg
    by (simp add: RunPipeline_def Let_def)
  from pipeline_progress_unread [OF _ this] show ?thesis by auto
qed

end
