(* ===== verification/Event.thy ===== *)
theory Event
  imports Gate_Config
begin

text \<open>
  The package \<open>internal/event\<close>: the envelope of cross-actor events with its validation, the five constructors, and the
  two clients that deliver it; and \<open>InferAgentKind\<close> of \<open>internal/config\<close>, which chooses the profile of the bridge.
  A payload built by a constructor is kept as its struct; the JSON codec and the bridge program are parameters.
\<close>

section \<open>Agent kinds\<close>

definition supportedAgentKinds :: "string list" where
  "supportedAgentKinds = [''claude'', ''codex'', ''opencode'', ''kilocode'', ''copilot'', ''gemini'']"

definition NormalizeAgentKind :: "string \<Rightarrow> string" where
  "NormalizeAgentKind k =
     (let kind = ToLower (TrimSpace k)
      in if kind \<in> set supportedAgentKinds then kind else if kind = ''kilo'' then ''kilocode'' else '''')"

definition kind_of_candidate :: "string \<Rightarrow> string" where
  "kind_of_candidate c =
     (if NormalizeAgentKind c \<noteq> '''' then NormalizeAgentKind c
      else case find (\<lambda>known. HasPrefix c (known @ ''-'') \<or> HasPrefix c (known @ ''_'')) supportedAgentKinds of
        Some known \<Rightarrow> known
      | None \<Rightarrow> if HasPrefix c ''kilo-'' \<or> HasPrefix c ''kilo_'' then ''kilocode'' else '''')"

definition InferAgentKind :: "string \<Rightarrow> string \<Rightarrow> string" where
  "InferAgentKind agentID realBinary =
     (let first = kind_of_candidate (ToLower (TrimSpace agentID))
      in if first \<noteq> '''' then first else kind_of_candidate (ToLower (TrimSpace (path_Base realBinary))))"

section \<open>Envelopes\<close>

datatype EventType = TaskAssign | TaskDeliver | FeedbackInject | SessionStatus | GateResultEvent | ReviewFindings | OtherEvent string

record ReplyToEndpoint =
  ep_type :: string
  ep_session_id :: string
  ep_tmux_name :: string
  ep_agent_kind :: string
  ep_daemon_addr :: string

record EventItem =
  ei_file :: string
  ei_line :: int
  ei_type :: string
  ei_message :: string

record TaskDeliverPayload =
  td_task_id :: string
  td_assignment_id :: string
  td_session_id :: string
  td_worktree :: string
  td_branch :: string
  td_repo :: string

record FeedbackInjectPayload =
  fj_assignment_id :: string
  fj_session_id :: string
  fj_findings :: "EventItem list"
  fj_gate_findings :: "EventItem list"
  fj_review_notes :: "EventItem list"
  fj_operator_note :: string

record GateResultPayload =
  gp_assignment_id :: string
  gp_session_id :: string
  gp_passed :: bool
  gp_attempt :: int
  gp_findings :: "EventItem list"

record ReviewFindingsPayload =
  rf_assignment_id :: string
  rf_session_id :: string
  rf_pr_number :: int
  rf_findings :: "EventItem list"
  rf_resolved :: "EventItem list"

record SessionStatusPayload =
  ss_session_id :: string
  ss_agent_id :: string
  ss_status :: string
  ss_substatus :: string
  ss_summary :: string

datatype event_payload =
    PTaskDeliver TaskDeliverPayload
  | PFeedbackInject FeedbackInjectPayload
  | PGateResult GateResultPayload
  | PReviewFindings ReviewFindingsPayload
  | PSessionStatus SessionStatusPayload
  | PRaw string

record Envelope =
  en_event_id :: string
  en_type :: EventType
  en_source :: string
  en_reply_to :: ReplyToEndpoint
  en_timestamp :: gotime
  en_payload :: "event_payload option"
  en_schema_version :: string

text \<open>The JSON library: the text of a payload, whether a text is JSON, and the decoding of a feedback payload.\<close>

record json_codec =
  jc_encode :: "event_payload \<Rightarrow> string"
  jc_valid :: "string \<Rightarrow> bool"
  jc_feedback :: "string \<Rightarrow> error + FeedbackInjectPayload"

definition ReplyTo_Validate :: "ReplyToEndpoint \<Rightarrow> error option" where
  "ReplyTo_Validate e =
     (if ep_type e = '''' then Some (OtherError ''event: reply_to.type is required'')
      else if ep_type e \<noteq> ''openclaw_session'' then Some (OtherError ''event: reply_to.type must be openclaw_session'')
      else if ep_session_id e = '''' then Some (OtherError ''event: reply_to.session_id is required'')
      else None)"

text \<open>The JSON of a struct is an object; a raw payload is judged by its text.\<close>

definition structured :: "json_codec \<Rightarrow> event_payload \<Rightarrow> bool" where
  "structured jc p =
     (case p of
        PRaw text \<Rightarrow> let t = TrimSpace text in t \<noteq> '''' \<and> t \<noteq> ''null'' \<and> jc_valid jc t \<and> hd t = CHR 0x7B
      | _ \<Rightarrow> True)"

definition Envelope_Validate :: "json_codec \<Rightarrow> Envelope \<Rightarrow> error option" where
  "Envelope_Validate jc e =
     (if en_event_id e = '''' then Some (OtherError ''event: event_id is required'')
      else if en_type e = OtherEvent '''' then Some (OtherError ''event: type is required'')
      else if en_type e \<notin> {TaskDeliver, FeedbackInject, GateResultEvent, ReviewFindings, SessionStatus}
        then Some (OtherError ''event: unsupported type'')
      else if en_source e = '''' then Some (OtherError ''event: source is required'')
      else if en_source e \<noteq> ''codero'' then Some (OtherError ''event: source must be codero'')
      else case ReplyTo_Validate (en_reply_to e) of
        Some err \<Rightarrow> Some err
      | None \<Rightarrow>
        if en_timestamp e = zero_time then Some (OtherError ''event: timestamp is required'')
        else case en_payload e of
          None \<Rightarrow> Some (OtherError ''event: payload is required'')
        | Some p \<Rightarrow>
          if \<not> structured jc p then Some (OtherError ''event: payload must be a structured JSON object'')
          else if en_schema_version e \<noteq> ''v1'' then Some (OtherError ''event: unsupported schema_version'')
          else None)"

definition new_envelope :: "EventType \<Rightarrow> gotime \<Rightarrow> string \<Rightarrow> ReplyToEndpoint \<Rightarrow> event_payload \<Rightarrow> Envelope" where
  "new_envelope ty now eventID replyTo p =
     \<lparr>en_event_id = eventID, en_type = ty, en_source = ''codero'', en_reply_to = replyTo, en_timestamp = now,
      en_payload = Some p, en_schema_version = ''v1''\<rparr>"

definition NewTaskDeliver :: "gotime \<Rightarrow> string \<Rightarrow> ReplyToEndpoint \<Rightarrow> TaskDeliverPayload \<Rightarrow> Envelope" where
  "NewTaskDeliver now eventID replyTo p = new_envelope TaskDeliver now eventID replyTo (PTaskDeliver p)"

definition NewFeedbackInject :: "gotime \<Rightarrow> string \<Rightarrow> ReplyToEndpoint \<Rightarrow> FeedbackInjectPayload \<Rightarrow> Envelope" where
  "NewFeedbackInject now eventID replyTo p = new_envelope FeedbackInject now eventID replyTo (PFeedbackInject p)"

definition NewGateResult :: "gotime \<Rightarrow> string \<Rightarrow> ReplyToEndpoint \<Rightarrow> GateResultPayload \<Rightarrow> Envelope" where
  "NewGateResult now eventID replyTo p = new_envelope GateResultEvent now eventID replyTo (PGateResult p)"

definition NewReviewFindings :: "gotime \<Rightarrow> string \<Rightarrow> ReplyToEndpoint \<Rightarrow> ReviewFindingsPayload \<Rightarrow> Envelope" where
  "NewReviewFindings now eventID replyTo p = new_envelope ReviewFindings now eventID replyTo (PReviewFindings p)"

definition NewSessionStatus :: "gotime \<Rightarrow> string \<Rightarrow> ReplyToEndpoint \<Rightarrow> SessionStatusPayload \<Rightarrow> Envelope" where
  "NewSessionStatus now eventID replyTo p = new_envelope SessionStatus now eventID replyTo (PSessionStatus p)"

section \<open>Delivery\<close>

definition item_line :: "EventItem \<Rightarrow> string" where
  "item_line f =
     (if ei_file f \<noteq> '''' then
        (if ei_line f > 0 then ''- '' @ ei_file f @ '':'' @ FormatInt (ei_line f) @ '': '' @ ei_message f @ newline
         else ''- '' @ ei_file f @ '': '' @ ei_message f @ newline)
      else if ei_message f \<noteq> '''' then ''- '' @ ei_message f @ newline else '''')"

definition feedback_text :: "FeedbackInjectPayload \<Rightarrow> string" where
  "feedback_text p =
     ''Codero has provided feedback on your last delivery.'' @ newline @
     (if fj_operator_note p \<noteq> '''' then ''Operator Note: '' @ fj_operator_note p @ newline else '''') @
     (if fj_findings p \<noteq> [] then newline @ ''Findings:'' @ newline @ concat (map item_line (fj_findings p)) else '''')"

definition payload_text :: "json_codec \<Rightarrow> event_payload option \<Rightarrow> string" where
  "payload_text jc p = (case p of None \<Rightarrow> '''' | Some (PRaw t) \<Rightarrow> t | Some q \<Rightarrow> jc_encode jc q)"

definition formatPayloadForPTY :: "json_codec \<Rightarrow> Envelope \<Rightarrow> error + string" where
  "formatPayloadForPTY jc env =
     (if en_type env = FeedbackInject then
        (case en_payload env of
           Some (PFeedbackInject p) \<Rightarrow> Inr (feedback_text p)
         | q \<Rightarrow> (case jc_feedback jc (payload_text jc q) of Inl e \<Rightarrow> Inl e | Inr p \<Rightarrow> Inr (feedback_text p)))
      else Inr (payload_text jc (en_payload env)))"

text \<open>The daemon-routed client only validates; the direct client runs the bridge program, a parameter.\<close>

definition SessionClient_Deliver :: "json_codec \<Rightarrow> Envelope \<Rightarrow> error option" where
  "SessionClient_Deliver jc env = Envelope_Validate jc env"

definition bridge_args :: "Envelope \<Rightarrow> string list" where
  "bridge_args env = [''deliver'', ''--session'', ep_tmux_name (en_reply_to env), ''--profile'', ep_agent_kind (en_reply_to env), ''--message-stdin'']"

definition DirectClient_Deliver ::
  "json_codec \<Rightarrow> (string list \<Rightarrow> string \<Rightarrow> string option) \<Rightarrow> Envelope \<Rightarrow> error option \<times> (string list \<times> string) list" where
  "DirectClient_Deliver jc bridge env =
     (case Envelope_Validate jc env of
        Some e \<Rightarrow> (Some e, [])
      | None \<Rightarrow>
        if ep_tmux_name (en_reply_to env) \<noteq> '''' \<and> ep_agent_kind (en_reply_to env) \<noteq> '''' then
          (case formatPayloadForPTY jc env of
             Inl e \<Rightarrow> (Some e, [])
           | Inr msg \<Rightarrow>
               (case bridge (bridge_args env) msg of
                  Some e \<Rightarrow> (Some (OtherError (''event: bridge delivery failed: '' @ e)), [(bridge_args env, msg)])
                | None \<Rightarrow> (None, [(bridge_args env, msg)])))
        else (Some (OtherError ''event: missing routing info (TmuxName/AgentKind) for bridge delivery''), []))"

section \<open>Every constructed envelope is valid\<close>

lemma new_envelope_valid:
  "Envelope_Validate jc (new_envelope ty now eventID replyTo p) = None \<longleftrightarrow>
     eventID \<noteq> '''' \<and> ty \<in> {TaskDeliver, FeedbackInject, GateResultEvent, ReviewFindings, SessionStatus} \<and>
     ReplyTo_Validate replyTo = None \<and> now \<noteq> zero_time \<and> structured jc p"
  by (auto simp: Envelope_Validate_def new_envelope_def split: option.splits)

lemma constructors_valid:
  assumes "eventID \<noteq> ''''" and "ReplyTo_Validate replyTo = None" and "now \<noteq> zero_time"
  shows "Envelope_Validate jc (NewTaskDeliver now eventID replyTo p1) = None"
    "Envelope_Validate jc (NewFeedbackInject now eventID replyTo p2) = None"
    "Envelope_Validate jc (NewGateResult now eventID replyTo p3) = None"
    "Envelope_Validate jc (NewReviewFindings now eventID replyTo p4) = None"
    "Envelope_Validate jc (NewSessionStatus now eventID replyTo p5) = None"
  using assms by (simp_all add: NewTaskDeliver_def NewFeedbackInject_def NewGateResult_def NewReviewFindings_def NewSessionStatus_def
      new_envelope_valid structured_def)

lemma deliver_needs_routing:
  "DirectClient_Deliver jc bridge env = (None, calls) \<Longrightarrow>
   Envelope_Validate jc env = None \<and> ep_tmux_name (en_reply_to env) \<noteq> '''' \<and> ep_agent_kind (en_reply_to env) \<noteq> '''' \<and>
   (\<exists>msg. calls = [(bridge_args env, msg)] \<and> formatPayloadForPTY jc env = Inr msg \<and> bridge (bridge_args env) msg = None)"
  by (auto simp: DirectClient_Deliver_def split: option.splits sum.splits if_splits)

lemma infer_kind_supported: "InferAgentKind a b \<in> insert '''' (set supportedAgentKinds)"
proof -
  have "NormalizeAgentKind c \<in> insert '''' (set supportedAgentKinds)" for c
    by (simp add: NormalizeAgentKind_def Let_def supportedAgentKinds_def)
  moreover have "''kilocode'' \<in> set supportedAgentKinds" by (simp add: supportedAgentKinds_def)
  ultimately have "kind_of_candidate c \<in> insert '''' (set supportedAgentKinds)" for c
    by (auto simp: kind_of_candidate_def dest!: find_Some_set split: option.splits)
  from this [of "ToLower (TrimSpace a)"] this [of "ToLower (TrimSpace (path_Base b))"]
  show ?thesis by (auto simp: InferAgentKind_def Let_def)
qed

end
