(* ===== verification/Pipeline.thy ===== *)
theory Pipeline
  imports Event Feedback Review_Store
begin

text \<open>
  The delivery pipeline: \<open>internal/delivery_pipeline/pipeline.go\<close> and \<open>lock.go\<close>. A run of \<open>Submit\<close> is a function on the
  database, the lock files, the set of worktrees in flight and the list of the calls made to the outside so far.
  Git, the gate, GitHub, the clock, the event sender and the failures of the database are parameters that see this
  list, so that an answer may depend on everything that happened before; \<open>dd_others\<close> is what the other workers
  do to the database while a call runs. An early return of \<open>Submit\<close> is the left side of a sum.
\<close>

section \<open>The delivery lock\<close>

record LockMeta =
  lm_session_id :: string
  lm_assignment_id :: string
  lm_locked_at :: gotime

text \<open>The lock files by path; a file that could not be written completely has no readable content.\<close>

type_synonym lock_files = "string \<rightharpoonup> LockMeta option"

datatype lock_io = LockFine | LockMkdirFails string | LockOpenFails string | LockWriteFails string

definition lockPath :: "string \<Rightarrow> string" where
  "lockPath worktree = path_Join (path_Join worktree ''.codero'') ''delivery.lock''"

text \<open>The error is its text, which \<open>Submit\<close> searches.\<close>

definition Lock :: "lock_io \<Rightarrow> gotime \<Rightarrow> string \<Rightarrow> string \<Rightarrow> string \<Rightarrow> lock_files \<Rightarrow> string option \<times> lock_files" where
  "Lock io now worktree sessionID assignmentID fs =
     (let path = lockPath worktree; meta = \<lparr>lm_session_id = sessionID, lm_assignment_id = assignmentID, lm_locked_at = now\<rparr> in
      case io of
        LockMkdirFails e \<Rightarrow> (Some (''delivery: create lock dir: '' @ e), fs)
      | _ \<Rightarrow> if fs path \<noteq> None then (Some ''delivery: lock already held'', fs)
             else (case io of
                 LockOpenFails e \<Rightarrow> (Some (''delivery: create lock file: '' @ e), fs)
               | LockWriteFails e \<Rightarrow> (Some (''delivery: write lock file: '' @ e), fs(path \<mapsto> None))
               | _ \<Rightarrow> (None, fs(path \<mapsto> Some meta))))"

definition IsLocked :: "string \<Rightarrow> lock_files \<Rightarrow> bool" where
  "IsLocked worktree fs \<longleftrightarrow> fs (lockPath worktree) \<noteq> None"

definition ReadLock :: "string \<Rightarrow> lock_files \<Rightarrow> error + LockMeta" where
  "ReadLock worktree fs =
     (case fs (lockPath worktree) of
        None \<Rightarrow> Inl (OtherError ''delivery: read lock'')
      | Some None \<Rightarrow> Inl (OtherError ''delivery: unmarshal lock'')
      | Some (Some meta) \<Rightarrow> Inr meta)"

definition Unlock :: "string \<Rightarrow> lock_files \<Rightarrow> lock_files" where
  "Unlock worktree fs = fs(lockPath worktree := None)"

definition CheckTimeout :: "gotime \<Rightarrow> string \<Rightarrow> duration \<Rightarrow> lock_files \<Rightarrow> (error + bool) \<times> lock_files" where
  "CheckTimeout now worktree timeout fs =
     (case ReadLock worktree fs of
        Inl e \<Rightarrow> (if \<not> IsLocked worktree fs then Inr False else Inl e, fs)
      | Inr meta \<Rightarrow> if now - lm_locked_at meta \<le> timeout then (Inr False, fs) else (Inr True, Unlock worktree fs))"

section \<open>Settings\<close>

definition env_duration :: "environ \<Rightarrow> (string \<Rightarrow> duration option) \<Rightarrow> string \<Rightarrow> duration \<Rightarrow> duration" where
  "env_duration env parseDuration key def =
     (let raw = TrimSpace (getenv env key)
      in if raw = '''' then def else case parseDuration raw of Some d \<Rightarrow> if d > 0 then d else def | None \<Rightarrow> def)"

definition monitorPollInterval :: "environ \<Rightarrow> (string \<Rightarrow> duration option) \<Rightarrow> duration" where
  "monitorPollInterval env parseDuration = env_duration env parseDuration ''CODERO_MONITOR_POLL_INTERVAL'' (30 * Second)"

definition monitorTimeout :: "environ \<Rightarrow> (string \<Rightarrow> duration option) \<Rightarrow> duration" where
  "monitorTimeout env parseDuration = env_duration env parseDuration ''CODERO_MONITOR_TIMEOUT'' (30 * 60 * Second)"

definition deliveryLockTimeout :: "environ \<Rightarrow> (string \<Rightarrow> duration option) \<Rightarrow> duration" where
  "deliveryLockTimeout env parseDuration =
     (let raw = TrimSpace (getenv env ''CODERO_DELIVERY_LOCK_TIMEOUT''); def = 10 * 60 * Second;
          seconds = (case ParseInt raw of Some n \<Rightarrow> if n > 0 then int64 (n * Second) else def | None \<Rightarrow> def)
      in if raw = '''' then def
         else case parseDuration raw of Some d \<Rightarrow> if d > 0 then d else seconds | None \<Rightarrow> seconds)"

definition mergeMethodFromEnv :: "environ \<Rightarrow> string" where
  "mergeMethodFromEnv env =
     (let m = TrimSpace (getenv env ''CODERO_MERGE_METHOD'') in if m \<noteq> '''' then m else ''squash'')"

definition defaultBaseBranch :: "environ \<Rightarrow> string" where
  "defaultBaseBranch env = (let v = TrimSpace (getenv env ''CODERO_BASE_BRANCH'') in if v \<noteq> '''' then v else ''main'')"

text \<open>\<open>strings.ReplaceAll\<close> for a non-empty pattern.\<close>

function ReplaceAll :: "string \<Rightarrow> string \<Rightarrow> string \<Rightarrow> string" where
  "ReplaceAll s old new =
     (if s = '''' \<or> old = '''' then s
      else if HasPrefix s old then new @ ReplaceAll (drop (length old) s) old new
      else s ! 0 # ReplaceAll (tl s) old new)"
  by pat_completeness auto
termination
  by (relation "measure (\<lambda>(s, _, _). length s)") auto

declare ReplaceAll.simps [simp del]

definition commitMessage :: "environ \<Rightarrow> string \<Rightarrow> int \<Rightarrow> string \<Rightarrow> string" where
  "commitMessage env taskID version summary0 =
     (let format0 = getenv env ''CODERO_COMMIT_MSG_FORMAT'';
          format = (if TrimSpace format0 = '''' then ''[codero] {task_id} v{version}: {summary}'' else format0);
          summary = (if TrimSpace summary0 = '''' then ''update'' else TrimSpace summary0)
      in ReplaceAll (ReplaceAll (ReplaceAll format ''{task_id}'' taskID) ''{version}'' (FormatInt version)) ''{summary}'' summary)"

record CommitOpts =
  co_message :: string
  co_author_name :: string
  co_author_email :: string
  co_committer_name :: string
  co_committer_email :: string

definition commitAuthor :: "AgentAssignment \<Rightarrow> string \<times> string" where
  "commitAuthor a =
     (let name = (if TrimSpace (a_agent_id a) = '''' then ''agent'' else TrimSpace (a_agent_id a))
      in (name, name @ ''@codero.local''))"

definition commitOpts :: "environ \<Rightarrow> AgentAssignment \<Rightarrow> int \<Rightarrow> CommitOpts" where
  "commitOpts env a version =
     \<lparr>co_message = commitMessage env (a_task_id a) version ''update'', co_author_name = fst (commitAuthor a),
      co_author_email = snd (commitAuthor a), co_committer_name = ''codero'', co_committer_email = ''codero@local''\<rparr>"

definition prExists :: "string \<Rightarrow> bool" where
  "prExists msg \<longleftrightarrow> Contains msg ''already exists'' \<or> Contains msg ''422''"

section \<open>The state machine\<close>

definition newPipelineFSM :: "fsm_event list" where
  "newPipelineFSM =
     (let ev = (\<lambda>name src dst. \<lparr>ev_name = name, ev_src = src, ev_dst = dst\<rparr>) in
     [ev ''submit'' [''idle''] ''staging'', ev ''gate'' [''staging''] ''gating'', ev ''commit'' [''gating''] ''committing'',
      ev ''push'' [''committing''] ''pushing'', ev ''pr'' [''pushing''] ''pr_management'',
      ev ''monitor'' [''pr_management''] ''monitoring'', ev ''feedback'' [''monitoring''] ''feedback_delivery'',
      ev ''evaluate'' [''feedback_delivery''] ''merge_evaluation'', ev ''merge'' [''merge_evaluation''] ''merging'',
      ev ''post'' [''merging''] ''post_merge'', ev ''reset'' [''post_merge''] ''idle'',
      ev ''fail'' [''idle'', ''staging'', ''gating'', ''committing'', ''pushing'', ''pr_management'', ''monitoring'',
        ''feedback_delivery'', ''merge_evaluation'', ''merging'', ''post_merge''] ''failed'',
      ev ''recover'' [''failed''] ''idle''])"

section \<open>What GitHub reports\<close>

record PRInfo =
  pi_number :: int
  pi_head_sha :: string

record CheckRunInfo =
  ck_name :: string
  ck_status :: string
  ck_conclusion :: string

record ReviewInfo =
  ri_state :: string
  ri_user :: string
  ri_is_bot :: bool

definition interpretCheckRuns :: "CheckRunInfo list \<Rightarrow> bool \<times> bool" where
  "interpretCheckRuns runs =
     (if runs = [] then (False, True)
      else fold (\<lambda>run (allPassed, anyPending).
        if ck_status run \<noteq> ''completed'' then (False, True)
        else if ck_conclusion run \<noteq> ''success'' \<and> ck_conclusion run \<noteq> ''neutral'' \<and> ck_conclusion run \<noteq> ''skipped''
          then (False, anyPending)
        else (allPassed, anyPending)) runs (True, False))"

definition note_review :: "ReviewInfo \<Rightarrow> (string \<rightharpoonup> string) \<Rightarrow> (string \<rightharpoonup> string)" where
  "note_review r latest =
     (let st = map upper_char (ri_state r)
      in if \<not> ri_is_bot r \<and> (st = ''APPROVED'' \<or> st = ''CHANGES_REQUESTED'') then latest(ri_user r \<mapsto> st) else latest)"

definition interpretReviews :: "ReviewInfo list \<Rightarrow> bool \<times> bool" where
  "interpretReviews reviews =
     (let latest = fold note_review reviews Map.empty; states = map latest (map ri_user reviews)
      in (Some ''APPROVED'' \<in> set states, Some ''CHANGES_REQUESTED'' \<in> set states))"

record monitorOutcome =
  mo_pr_number :: int
  mo_head_sha :: string
  mo_ci_passed :: bool
  mo_ci_pending :: bool
  mo_approved :: bool
  mo_changes_requested :: bool
  mo_review_findings :: "FeedbackItem list"

definition no_outcome :: monitorOutcome where
  "no_outcome = \<lparr>mo_pr_number = 0, mo_head_sha = '''', mo_ci_passed = False, mo_ci_pending = False, mo_approved = False,
     mo_changes_requested = False, mo_review_findings = []\<rparr>"

definition hasActionableFeedback :: "monitorOutcome \<Rightarrow> bool" where
  "hasActionableFeedback m \<longleftrightarrow>
     mo_changes_requested m \<or> mo_review_findings m \<noteq> [] \<or> \<not> mo_ci_passed m \<and> \<not> mo_ci_pending m"

abbreviation message_item :: "string \<Rightarrow> FeedbackItem" where
  "message_item msg \<equiv> \<lparr>it_file = '''', it_line = 0, it_message = msg\<rparr>"

definition feedbackSources :: "monitorOutcome \<Rightarrow> FeedbackSource list" where
  "feedbackSources m =
     (if mo_review_findings m \<noteq> [] then [\<lparr>fs_type = ''coderabbit'', fs_findings = mo_review_findings m\<rparr>] else []) @
     (if mo_changes_requested m \<and> mo_review_findings m = []
      then [\<lparr>fs_type = ''coderabbit'', fs_findings = [message_item ''Changes requested by reviewer'']\<rparr>] else []) @
     (if \<not> mo_ci_passed m \<and> \<not> mo_ci_pending m
      then [\<lparr>fs_type = ''ci'', fs_findings = [message_item ''CI checks failed'']\<rparr>] else [])"

definition check_items :: "CheckResult \<Rightarrow> FeedbackItem list" where
  "check_items c =
     map (\<lambda>f. \<lparr>it_file = gf_file f, it_line = gf_line f,
       it_message = (if gf_message f = '''' then cr_name c @ '' reported an issue'' else gf_message f)\<rparr>) (cr_findings c) @
     (if cr_findings c = [] \<and> cr_status c = StatusFail
      then [message_item (if cr_reason c = '''' then cr_name c @ '' failed'' else cr_reason c)] else [])"

definition findingsFromGate :: "Report \<Rightarrow> FeedbackItem list" where
  "findingsFromGate report =
     (let items = concat (map check_items (rp_checks report))
      in if items = [] then [message_item ''Gate failed with no findings''] else items)"


section \<open>A run\<close>

datatype pcall =
    CallNotify string string string
  | CallStage string
  | CallGate string
  | CallCommit string CommitOpts
  | CallPush string string string
  | CallCreatePR string string string string string
  | CallTrigger string int
  | CallFindPR string string
  | CallCheckRuns string string
  | CallReviews string int
  | CallWait
  | CallMerge string int string string
  | CallWriteFeedback string FeedbackPackage
  | CallSend Envelope
  | CallState string

record PipelineDeps =
  dd_env :: environ
  dd_parse_duration :: "string \<Rightarrow> duration option"
  dd_now :: "pcall list \<Rightarrow> gotime"
  dd_uuid :: "pcall list \<Rightarrow> string"
  dd_faults :: "pcall list \<Rightarrow> faults"
  dd_others :: "pcall list \<Rightarrow> review_db \<Rightarrow> review_db"
  dd_stage :: "pcall list \<Rightarrow> string option"
  dd_gate :: "pcall list \<Rightarrow> string + Report"
  dd_commit :: "pcall list \<Rightarrow> string + string"
  dd_push :: "pcall list \<Rightarrow> string option"
  dd_github :: bool
  dd_create_pr :: "pcall list \<Rightarrow> (int \<times> bool) \<times> string option"
  dd_find_pr :: "pcall list \<Rightarrow> string + PRInfo option"
  dd_check_runs :: "pcall list \<Rightarrow> string + CheckRunInfo list"
  dd_reviews :: "pcall list \<Rightarrow> string + ReviewInfo list"
  dd_cancelled :: "pcall list \<Rightarrow> bool"
  dd_merge :: "pcall list \<Rightarrow> string option"
  dd_send :: "pcall list \<Rightarrow> string option"

text \<open>The columns of \<open>agent_assignments\<close> that only the pipeline uses, by assignment.\<close>

record delivery_cols =
  dc_last_submit_at :: "gotime option"
  dc_last_gate_result :: string
  dc_last_commit_sha :: string
  dc_last_push_at :: "gotime option"
  dc_revision_count :: int

record pstate =
  ps_db :: review_db
  ps_cols :: "string \<Rightarrow> delivery_cols"
  ps_calls :: "pcall list"
  ps_fsm :: string

type_synonym early = "error option \<times> pstate"

definition pthen :: "'e + 'a \<Rightarrow> ('a \<Rightarrow> 'e + 'b) \<Rightarrow> 'e + 'b" where
  "pthen r k = (case r of Inl e \<Rightarrow> Inl e | Inr x \<Rightarrow> k x)"

definition call :: "PipelineDeps \<Rightarrow> pcall \<Rightarrow> pstate \<Rightarrow> pstate" where
  "call w c s = s\<lparr>ps_calls := ps_calls s @ [c], ps_db := dd_others w (ps_calls s @ [c]) (ps_db s)\<rparr>"

definition faults_now :: "PipelineDeps \<Rightarrow> pstate \<Rightarrow> faults" where
  "faults_now w s = dd_faults w (ps_calls s)"

definition or_return :: "pstate \<Rightarrow> error + 'a \<Rightarrow> early + 'a" where
  "or_return s r = (case r of Inl e \<Rightarrow> Inl (Some e, s) | Inr x \<Rightarrow> Inr x)"

subsection \<open>The columns of the assignment\<close>

definition setDeliveryState :: "PipelineDeps \<Rightarrow> string \<Rightarrow> string \<Rightarrow> pstate \<Rightarrow> error + pstate" where
  "setDeliveryState w aid st s =
     stmt (faults_now w s) (''delivery_state='' @ st)
      (Inr (call w (CallState st) (s\<lparr>ps_db := (ps_db s)\<lparr>agents :=
        upd_assignments (\<lambda>a. a_id a = aid) (\<lambda>a. a\<lparr>a_delivery_state := st\<rparr>) (agents (ps_db s))\<rparr>\<rparr>)))"

definition try_delivery_state :: "PipelineDeps \<Rightarrow> string \<Rightarrow> string \<Rightarrow> pstate \<Rightarrow> pstate" where
  "try_delivery_state w aid st s = (case setDeliveryState w aid st s of Inl e \<Rightarrow> s | Inr s' \<Rightarrow> s')"

definition upd_cols :: "string \<Rightarrow> (delivery_cols \<Rightarrow> delivery_cols) \<Rightarrow> pstate \<Rightarrow> pstate" where
  "upd_cols aid f s =
     (if \<exists>a\<in>set (agent_assignments (agents (ps_db s))). a_id a = aid
      then s\<lparr>ps_cols := (ps_cols s)(aid := f (ps_cols s aid))\<rparr> else s)"

definition bumpRevision :: "PipelineDeps \<Rightarrow> string \<Rightarrow> pstate \<Rightarrow> (error + int) \<times> pstate" where
  "bumpRevision w aid s =
     (let flt = faults_now w s; now = dd_now w (ps_calls s) in
      sql_try flt ''update submit'' s
       (let s1 = upd_cols aid (\<lambda>c. c\<lparr>dc_last_submit_at := Some now, dc_revision_count := dc_revision_count c + 1\<rparr>) s
        in sql_try flt ''read revision_count'' s1
         (if \<exists>a\<in>set (agent_assignments (agents (ps_db s1))). a_id a = aid
          then (Inr (dc_revision_count (ps_cols s1 aid)), s1) else (Inl ErrNoRows, s1))))"

definition setGateResult :: "PipelineDeps \<Rightarrow> string \<Rightarrow> string \<Rightarrow> pstate \<Rightarrow> error + pstate" where
  "setGateResult w aid result s =
     stmt (faults_now w s) ''set gate result'' (Inr (upd_cols aid (\<lambda>c. c\<lparr>dc_last_gate_result := result\<rparr>) s))"

definition setCommitSHA :: "PipelineDeps \<Rightarrow> string \<Rightarrow> string \<Rightarrow> pstate \<Rightarrow> error + pstate" where
  "setCommitSHA w aid sha s =
     stmt (faults_now w s) ''set commit sha'' (Inr (upd_cols aid (\<lambda>c. c\<lparr>dc_last_commit_sha := sha\<rparr>) s))"

definition setPushAt :: "PipelineDeps \<Rightarrow> string \<Rightarrow> gotime \<Rightarrow> pstate \<Rightarrow> error + pstate" where
  "setPushAt w aid pushedAt s =
     stmt (faults_now w s) ''set push time'' (Inr (upd_cols aid (\<lambda>c. c\<lparr>dc_last_push_at := Some pushedAt\<rparr>) s))"

definition pipeline_event :: "fsm_lib \<Rightarrow> string \<Rightarrow> pstate \<Rightarrow> error + pstate" where
  "pipeline_event lib nm s =
     (case fsm_Event lib newPipelineFSM (ps_fsm s) nm of Inl e \<Rightarrow> Inl e | Inr st \<Rightarrow> Inr (s\<lparr>ps_fsm := st\<rparr>))"

definition try_event :: "fsm_lib \<Rightarrow> string \<Rightarrow> pstate \<Rightarrow> pstate" where
  "try_event lib nm s = (case pipeline_event lib nm s of Inl e \<Rightarrow> s | Inr s' \<Rightarrow> s')"

definition enter_phase :: "fsm_lib \<Rightarrow> PipelineDeps \<Rightarrow> string \<Rightarrow> string \<Rightarrow> string \<Rightarrow> pstate \<Rightarrow> early + pstate" where
  "enter_phase lib w aid nm st s =
     pthen (or_return s (pipeline_event lib nm s)) (\<lambda>s1. or_return s1 (setDeliveryState w aid st s1))"

subsection \<open>Feedback to the agent\<close>

definition buildReplyToEndpoint :: "PipelineDeps \<Rightarrow> AgentAssignment \<Rightarrow> pstate \<Rightarrow> error + ReplyToEndpoint" where
  "buildReplyToEndpoint w a s =
     pthen (GetAgentSession (faults_now w s) (a_session_id a) (agents (ps_db s))) (\<lambda>sess.
       let tmux = TrimSpace (s_tmux_session_name sess); kind = InferAgentKind (s_agent_id sess) '''' in
       if tmux = '''' then Inl (OtherError ''missing tmux routing'')
       else if kind = '''' then Inl (OtherError ''unsupported agent_id for bridge routing'')
       else Inr \<lparr>ep_type = ''openclaw_session'', ep_session_id = a_session_id a, ep_tmux_name = tmux,
                 ep_agent_kind = kind, ep_daemon_addr = ''''\<rparr>)"

definition fbItemsToEventItems :: "FeedbackItem list \<Rightarrow> EventItem list" where
  "fbItemsToEventItems = map (\<lambda>i. \<lparr>ei_file = it_file i, ei_line = it_line i, ei_type = '''', ei_message = it_message i\<rparr>)"

definition sendFeedbackEvent :: "PipelineDeps \<Rightarrow> AgentAssignment \<Rightarrow> FeedbackPackage \<Rightarrow> pstate \<Rightarrow> error option \<times> pstate" where
  "sendFeedbackEvent w a fb s =
     (case buildReplyToEndpoint w a s of
        Inl e \<Rightarrow> (Some e, s)
      | Inr replyTo \<Rightarrow>
          let env = NewFeedbackInject (dd_now w (ps_calls s)) (dd_uuid w (ps_calls s)) replyTo
                \<lparr>fj_assignment_id = a_id a, fj_session_id = a_session_id a,
                 fj_findings = fbItemsToEventItems (fp_ci_failures fb @ fp_gate_findings fb @ fp_code_review fb),
                 fj_gate_findings = fbItemsToEventItems (fp_gate_findings fb),
                 fj_review_notes = fbItemsToEventItems (fp_code_review fb), fj_operator_note = ''''\<rparr>;
              s1 = call w (CallSend env) s
          in (map_option (\<lambda>e. OtherError (''send feedback envelope: '' @ e)) (dd_send w (ps_calls s1)), s1))"

definition failure_feedback :: "gotime \<Rightarrow> string \<Rightarrow> Report option \<Rightarrow> FeedbackPackage" where
  "failure_feedback now err report =
     \<lparr>fp_gate_findings = (case report of Some r \<Rightarrow> findingsFromGate r | None \<Rightarrow> []), fp_code_review = [],
      fp_ci_failures = (case report of Some r \<Rightarrow> [] | None \<Rightarrow> [message_item err]), fp_review_comments = [],
      fp_sections = [], fp_cache_hash = '''', fp_truncated = False, fp_generated_at = now, fp_skip_truncate = False\<rparr>"

definition fail :: "fsm_lib \<Rightarrow> PipelineDeps \<Rightarrow> string \<Rightarrow> string \<Rightarrow> string \<Rightarrow> Report option \<Rightarrow> pstate \<Rightarrow> early" where
  "fail lib w aid worktree err report s =
     (let s1 = try_delivery_state w aid ''failed'' (try_event lib ''fail'' s);
          fb = failure_feedback (dd_now w (ps_calls s1)) err report;
          s2 = call w (CallWriteFeedback worktree fb) s1
      in case (case GetAgentAssignmentByID (faults_now w s2) aid (agents (ps_db s2)) of
                 Inl e \<Rightarrow> (Some e, s2) | Inr a \<Rightarrow> sendFeedbackEvent w a fb s2) of
        (sendErr, s3) \<Rightarrow>
          let s4 = call w (CallNotify worktree ''feedback'' aid) s3
          in (map_option (\<lambda>e. OtherError (''pipeline: feedback delivery after '' @ err)) sendErr,
              try_delivery_state w aid ''idle'' (try_event lib ''recover'' s4)))"

subsection \<open>From staging to the pull request\<close>

definition manage_pr :: "fsm_lib \<Rightarrow> PipelineDeps \<Rightarrow> AgentAssignment \<Rightarrow> string \<Rightarrow> int \<Rightarrow> pstate \<Rightarrow> early + pstate" where
  "manage_pr lib w a worktree version s =
     (if \<not> dd_github w then Inr s
      else let s1 = call w (CallCreatePR (a_repo a) (a_branch a) (defaultBaseBranch (dd_env w))
                 (commitMessage (dd_env w) (a_task_id a) version ''update'') (''Automated delivery for '' @ a_task_id a)) s
      in case dd_create_pr w (ps_calls s1) of ((prNumber, created), err) \<Rightarrow>
        if (case err of Some e \<Rightarrow> \<not> prExists e | None \<Rightarrow> False)
        then Inl (fail lib w (a_id a) worktree (''create PR: '' @ the err) None s1)
        else Inr (if created then call w (CallTrigger (a_repo a) prNumber) s1 else s1))"

definition push_commit :: "fsm_lib \<Rightarrow> PipelineDeps \<Rightarrow> AgentAssignment \<Rightarrow> string \<Rightarrow> int \<Rightarrow> pstate \<Rightarrow> early + pstate" where
  "push_commit lib w a worktree version s0 =
     (let aid = a_id a in
      pthen (enter_phase lib w aid ''commit'' ''committing'' s0) (\<lambda>s.
      let s1 = call w (CallCommit worktree (commitOpts (dd_env w) a version)) s in
      case dd_commit w (ps_calls s1) of
        Inl e \<Rightarrow> Inl (fail lib w aid worktree (''commit: '' @ e) None s1)
      | Inr sha \<Rightarrow>
        pthen (or_return s1 (setCommitSHA w aid sha s1)) (\<lambda>s2.
        pthen (enter_phase lib w aid ''push'' ''pushing'' s2) (\<lambda>s3.
        let s4 = call w (CallPush worktree ''origin'' (a_branch a)) s3 in
        case dd_push w (ps_calls s4) of
          Some e \<Rightarrow> Inl (fail lib w aid worktree (''push: '' @ e) None s4)
        | None \<Rightarrow> or_return s4 (setPushAt w aid (dd_now w (ps_calls s4)) s4)))))"

definition stage_and_gate :: "fsm_lib \<Rightarrow> PipelineDeps \<Rightarrow> AgentAssignment \<Rightarrow> string \<Rightarrow> pstate \<Rightarrow> early + int \<times> pstate" where
  "stage_and_gate lib w a worktree s0 =
     (let aid = a_id a in
      pthen (enter_phase lib w aid ''submit'' ''staging'' s0) (\<lambda>s1.
      case bumpRevision w aid s1 of (Inl e, s2) \<Rightarrow> Inl (Some e, s2) | (Inr version, s2) \<Rightarrow>
      let s3 = call w (CallStage worktree) s2 in
      case dd_stage w (ps_calls s3) of
        Some e \<Rightarrow> Inl (fail lib w aid worktree (''stage: '' @ e) None s3)
      | None \<Rightarrow>
        pthen (enter_phase lib w aid ''gate'' ''gating'' s3) (\<lambda>s4.
        let s5 = call w (CallGate worktree) s4 in
        case dd_gate w (ps_calls s5) of
          Inl e \<Rightarrow> Inl (fail lib w aid worktree (''gate: '' @ e) None s5)
        | Inr report \<Rightarrow>
          pthen (or_return s5 (setGateResult w aid (status_str (rp_result report)) s5)) (\<lambda>s6.
          if rp_result report = StatusFail then Inl (fail lib w aid worktree ''gate failed'' (Some report) s6)
          else Inr (version, s6)))))"

definition prepare :: "fsm_lib \<Rightarrow> PipelineDeps \<Rightarrow> AgentAssignment \<Rightarrow> string \<Rightarrow> pstate \<Rightarrow> early + pstate" where
  "prepare lib w a worktree s =
     pthen (stage_and_gate lib w a worktree s) (\<lambda>(version, s1).
     pthen (push_commit lib w a worktree version s1) (\<lambda>s2.
     pthen (enter_phase lib w (a_id a) ''pr'' ''pr_management'' s2) (\<lambda>s3.
     pthen (manage_pr lib w a worktree version s3) (\<lambda>s4.
     enter_phase lib w (a_id a) ''monitor'' ''monitoring'' s4))))"


subsection \<open>Monitoring\<close>

text \<open>One round of the polling loop: an outcome, or the state for the next round.\<close>

definition monitor_poll ::
  "PipelineDeps \<Rightarrow> AgentAssignment \<Rightarrow> gotime \<Rightarrow> pstate \<Rightarrow> ((string + monitorOutcome) \<times> pstate) + pstate" where
  "monitor_poll w a deadline s =
     (if dd_now w (ps_calls s) > deadline then Inl (Inl ''monitoring timed out'', s)
      else let s1 = call w (CallFindPR (a_repo a) (a_branch a)) s in
      case dd_find_pr w (ps_calls s1) of
        Inl e \<Rightarrow> Inl (Inl (''find PR: '' @ e), s1)
      | Inr None \<Rightarrow> Inl (Inr no_outcome, s1)
      | Inr (Some pr) \<Rightarrow>
        if pi_number pr = 0 then Inl (Inr no_outcome, s1)
        else let s2 = call w (CallCheckRuns (a_repo a) (pi_head_sha pr)) s1 in
        case dd_check_runs w (ps_calls s2) of
          Inl e \<Rightarrow> Inl (Inl (''list check runs: '' @ e), s2)
        | Inr runs \<Rightarrow>
          let s3 = call w (CallReviews (a_repo a) (pi_number pr)) s2;
              reviews = (case dd_reviews w (ps_calls s3) of Inl e \<Rightarrow> [] | Inr rs \<Rightarrow> rs)
          in case (interpretCheckRuns runs, interpretReviews reviews) of
            ((ciPassed, ciPending), (approved, changesRequested)) \<Rightarrow>
            let outcome = (\<lambda>passed. \<lparr>mo_pr_number = pi_number pr, mo_head_sha = pi_head_sha pr, mo_ci_passed = passed,
                  mo_ci_pending = False, mo_approved = approved, mo_changes_requested = changesRequested,
                  mo_review_findings = []\<rparr>)
            in if \<not> ciPending \<and> (approved \<or> changesRequested) then Inl (Inr (outcome ciPassed), s3)
               else if \<not> ciPending \<and> \<not> ciPassed then Inl (Inr (outcome False), s3)
               else let s4 = call w CallWait s3 in
                 if dd_cancelled w (ps_calls s4) then Inl (Inl ''context canceled'', s4) else Inr s4)"

text \<open>The loop ends only through a round, so it is a partial function.\<close>

partial_function (option) monitor ::
  "PipelineDeps \<Rightarrow> AgentAssignment \<Rightarrow> gotime \<Rightarrow> pstate \<Rightarrow> ((string + monitorOutcome) \<times> pstate) option" where
  "monitor w a deadline s =
     (case monitor_poll w a deadline s of Inl r \<Rightarrow> Some r | Inr s' \<Rightarrow> monitor w a deadline s')"

declare monitor.simps [code]

subsection \<open>Feedback, evaluation and merge\<close>

definition deliver_feedback ::
  "fsm_lib \<Rightarrow> PipelineDeps \<Rightarrow> AgentAssignment \<Rightarrow> string \<Rightarrow> monitorOutcome \<Rightarrow> pstate \<Rightarrow> early + pstate" where
  "deliver_feedback lib w a worktree m s =
     (if \<not> hasActionableFeedback m then Inr s
      else case BuildFeedback (dd_now w (ps_calls s)) (getenv (dd_env w) ''CODERO_FEEDBACK_MAX_SIZE'') (feedbackSources m) of
        None \<Rightarrow> Inr s
      | Some fb \<Rightarrow>
        let s1 = call w (CallWriteFeedback worktree fb) s in
        case sendFeedbackEvent w a fb s1 of (sendErr, s2) \<Rightarrow>
        let s3 = call w (CallNotify worktree ''feedback'' (a_id a)) s2 in
        case sendErr of
          None \<Rightarrow> Inr s3
        | Some e \<Rightarrow>
          let s4 = try_delivery_state w (a_id a) ''failed'' (try_event lib ''fail'' s3);
              s5 = try_delivery_state w (a_id a) ''idle'' (try_event lib ''recover'' s4)
          in Inl (Some (OtherError ''pipeline: feedback delivery''), s5))"

definition lookupBranchStateID :: "faults \<Rightarrow> string \<Rightarrow> string \<Rightarrow> review_db \<Rightarrow> error + string" where
  "lookupBranchStateID flt repo branch d =
     stmt flt ''lookup branch state id''
      (case sql_row (at_branch repo branch) (branch_states (core (agents d))) of None \<Rightarrow> Inl ErrNoRows | Some r \<Rightarrow> Inr (b_id r))"

definition merge_ready :: "PipelineDeps \<Rightarrow> AgentAssignment \<Rightarrow> monitorOutcome \<Rightarrow> pstate \<Rightarrow> bool" where
  "merge_ready w a m s =
     (let ready = mo_ci_passed m \<and> mo_approved m \<and> \<not> mo_changes_requested m; flt = faults_now w s
      in case lookupBranchStateID flt (a_repo a) (a_branch a) (ps_db s) of
        Inl e \<Rightarrow> ready
      | Inr bid \<Rightarrow> if bid = '''' then ready
          else (case EvaluateMergeReadiness flt bid (ps_db s) of Inl e \<Rightarrow> ready | Inr r \<Rightarrow> ready \<and> mr_ready r))"

definition merge_pr :: "PipelineDeps \<Rightarrow> AgentAssignment \<Rightarrow> monitorOutcome \<Rightarrow> bool \<Rightarrow> pstate \<Rightarrow> bool \<times> pstate" where
  "merge_pr w a m ready s =
     (if ready \<and> dd_github w \<and> mo_pr_number m > 0
      then let s1 = call w (CallMerge (a_repo a) (mo_pr_number m) (mo_head_sha m) (mergeMethodFromEnv (dd_env w))) s
        in (dd_merge w (ps_calls s1) = None, s1)
      else (False, s))"

text \<open>\<open>INSERT OR IGNORE\<close>: nothing happens when the archive id exists; an error is only logged.\<close>

definition archiveSession :: "PipelineDeps \<Rightarrow> AgentAssignment \<Rightarrow> bool \<Rightarrow> pstate \<Rightarrow> pstate" where
  "archiveSession w a merged s =
     (let now = dd_now w (ps_calls s); archiveID = a_id a @ ''-archive-'' @ FormatInt now; d = agents (ps_db s)
      in if faults_now w s ''archive session'' \<noteq> None \<or> archiveID \<in> sa_archive_id ` set (session_archives d) then s
         else s\<lparr>ps_db := (ps_db s)\<lparr>agents := d\<lparr>session_archives := session_archives d @
           [\<lparr>sa_archive_id = archiveID, sa_session_id = a_session_id a, sa_agent_id = a_agent_id a,
             sa_task_id = a_task_id a, sa_repo = a_repo a, sa_branch = a_branch a,
             sa_result = (if merged then ''merged'' else ''abandoned''), sa_started_at = a_started_at a,
             sa_ended_at = now, sa_duration_seconds = 0, sa_commit_count = 0, sa_merge_sha = '''', sa_task_source = '''',
             sa_archived_at = now\<rparr>]\<rparr>\<rparr>\<rparr>)"

definition conclude ::
  "fsm_lib \<Rightarrow> PipelineDeps \<Rightarrow> AgentAssignment \<Rightarrow> string \<Rightarrow> monitorOutcome \<Rightarrow> pstate \<Rightarrow> early + pstate" where
  "conclude lib w a worktree m s0 =
     (let aid = a_id a in
      pthen (enter_phase lib w aid ''feedback'' ''feedback_delivery'' s0) (\<lambda>s1.
      pthen (deliver_feedback lib w a worktree m s1) (\<lambda>s2.
      pthen (enter_phase lib w aid ''evaluate'' ''merge_evaluation'' s2) (\<lambda>s3.
      let ready = merge_ready w a m s3 in
      pthen (enter_phase lib w aid ''merge'' ''merging'' s3) (\<lambda>s4.
      case merge_pr w a m ready s4 of (merged, s5) \<Rightarrow>
      pthen (enter_phase lib w aid ''post'' ''post_merge'' s5) (\<lambda>s6.
      enter_phase lib w aid ''reset'' ''idle'' (archiveSession w a merged s6)))))))"

definition returned :: "early + pstate \<Rightarrow> early" where
  "returned r = (case r of Inl e \<Rightarrow> e | Inr s \<Rightarrow> (None, s))"

text \<open>The body of \<open>Submit\<close> under the lock; \<open>None\<close> when the monitoring loop does not end.\<close>

definition deliver :: "fsm_lib \<Rightarrow> PipelineDeps \<Rightarrow> AgentAssignment \<Rightarrow> string \<Rightarrow> pstate \<Rightarrow> early option" where
  "deliver lib w a worktree s =
     (case prepare lib w a worktree (call w (CallNotify worktree ''task'' (a_id a)) s) of
        Inl r \<Rightarrow> Some r
      | Inr s1 \<Rightarrow>
        if \<not> dd_github w then Some (returned (conclude lib w a worktree no_outcome s1))
        else map_option (\<lambda>(r, s2). case r of
            Inl e \<Rightarrow> fail lib w (a_id a) worktree (''monitor: '' @ e) None s2
          | Inr m \<Rightarrow> returned (conclude lib w a worktree m s2))
          (monitor w a (dd_now w (ps_calls s1) + monitorTimeout (dd_env w) (dd_parse_duration w)) s1))"

section \<open>Submit\<close>

record Pipeline =
  pl_in_flight :: "string list"
  pl_locks :: lock_files

definition acquire :: "string \<Rightarrow> Pipeline \<Rightarrow> bool \<times> Pipeline" where
  "acquire worktree p =
     (if worktree \<in> set (pl_in_flight p) then (False, p) else (True, p\<lparr>pl_in_flight := worktree # pl_in_flight p\<rparr>))"

definition release :: "string \<Rightarrow> Pipeline \<Rightarrow> Pipeline" where
  "release worktree p = p\<lparr>pl_in_flight := filter (\<lambda>x. x \<noteq> worktree) (pl_in_flight p)\<rparr>"

abbreviation ErrPipelineBusy :: error where
  "ErrPipelineBusy \<equiv> OtherError ''delivery pipeline already running''"

text \<open>The lines of \<open>Submit\<close> that take the two locks, and the deferred ones that give them back, the file first.\<close>

definition submit_enter :: "lock_io \<Rightarrow> gotime \<Rightarrow> string \<Rightarrow> string \<Rightarrow> string \<Rightarrow> Pipeline \<Rightarrow> error option \<times> Pipeline" where
  "submit_enter io now worktree sid aid p0 =
     (case acquire worktree p0 of
        (False, p) \<Rightarrow> (Some ErrPipelineBusy, p)
      | (True, p) \<Rightarrow>
        if IsLocked worktree (pl_locks p) then (Some ErrPipelineBusy, release worktree p)
        else case Lock io now worktree sid aid (pl_locks p) of
          (None, fs) \<Rightarrow> (None, p\<lparr>pl_locks := fs\<rparr>)
        | (Some e, fs) \<Rightarrow>
            (Some (if Contains e ''already'' then ErrPipelineBusy else OtherError (''pipeline: lock: '' @ e)), release worktree (p\<lparr>pl_locks := fs\<rparr>)))"

definition submit_leave :: "string \<Rightarrow> Pipeline \<Rightarrow> Pipeline" where
  "submit_leave worktree p = release worktree (p\<lparr>pl_locks := Unlock worktree (pl_locks p)\<rparr>)"

definition Submit ::
  "fsm_lib \<Rightarrow> PipelineDeps \<Rightarrow> lock_io \<Rightarrow> string \<Rightarrow> string \<Rightarrow> Pipeline \<Rightarrow> pstate \<Rightarrow> (error option \<times> Pipeline \<times> pstate) option" where
  "Submit lib w io assignmentID worktree0 p s =
     (if TrimSpace assignmentID = '''' then Some (Some (OtherError ''pipeline: assignment id required''), p, s)
      else case GetAgentAssignmentByID (faults_now w s) assignmentID (agents (ps_db s)) of
        Inl e \<Rightarrow> Some (Some e, p, s)
      | Inr a \<Rightarrow>
        let worktree = (if worktree0 = '''' then a_worktree a else worktree0) in
        if TrimSpace worktree = '''' then Some (Some (OtherError ''pipeline: worktree required''), p, s)
        else case submit_enter io (dd_now w (ps_calls s)) worktree (a_session_id a) assignmentID p of
          (Some e, p1) \<Rightarrow> Some (Some e, p1, s)
        | (None, p1) \<Rightarrow>
            map_option (\<lambda>(err, s1). (err, submit_leave worktree p1, s1)) (deliver lib w a worktree (s\<lparr>ps_fsm := ''idle''\<rparr>)))"

definition listWorktrees :: "agent_db \<Rightarrow> string list" where
  "listWorktrees d =
     filter (\<lambda>x. x \<noteq> '''') (map TrimSpace (remdups (filter (\<lambda>x. x \<noteq> '''') (map a_worktree (agent_assignments d)))))"

definition ClearStaleLocks :: "gotime \<Rightarrow> duration \<Rightarrow> string list \<Rightarrow> lock_files \<Rightarrow> lock_files" where
  "ClearStaleLocks now timeout worktrees fs = fold (\<lambda>wt fs. snd (CheckTimeout now wt timeout fs)) worktrees fs"


section \<open>What the calls of a run are\<close>

text \<open>
  \<open>stays P w s s'\<close>: the run from \<open>s\<close> to \<open>s'\<close> made only calls of the kind \<open>P\<close>, and it leaves the branch tables
  alone if the other workers do.
\<close>

definition calm :: "PipelineDeps \<Rightarrow> bool" where
  "calm w \<longleftrightarrow> (\<forall>h d. core (agents (dd_others w h d)) = core (agents d))"

definition stays :: "(pcall \<Rightarrow> bool) \<Rightarrow> PipelineDeps \<Rightarrow> pstate \<Rightarrow> pstate \<Rightarrow> bool" where
  "stays P w s s' \<longleftrightarrow>
     (\<exists>cs. ps_calls s' = ps_calls s @ cs \<and> (\<forall>c\<in>set cs. P c)) \<and>
     (calm w \<longrightarrow> core (agents (ps_db s')) = core (agents (ps_db s)))"

definition ends_in :: "(pcall \<Rightarrow> bool) \<Rightarrow> PipelineDeps \<Rightarrow> pstate \<Rightarrow> early + pstate \<Rightarrow> bool" where
  "ends_in P w s r \<longleftrightarrow> (case r of Inl (e, s') \<Rightarrow> stays P w s s' | Inr s' \<Rightarrow> stays P w s s')"

fun reporting :: "pcall \<Rightarrow> bool" where
  "reporting (CallNotify _ _ _) = True"
| "reporting (CallWriteFeedback _ _) = True"
| "reporting (CallSend _) = True"
| "reporting (CallState _) = True"
| "reporting _ = False"

fun is_merge :: "pcall \<Rightarrow> bool" where
  "is_merge (CallMerge _ _ _ _) = True"
| "is_merge _ = False"

fun watching :: "pcall \<Rightarrow> bool" where
  "watching (CallFindPR _ _) = True"
| "watching (CallCheckRuns _ _) = True"
| "watching (CallReviews _ _) = True"
| "watching CallWait = True"
| "watching _ = False"

lemma stays_refl [simp]: "stays P w s s"
  by (simp add: stays_def)

lemma stays_trans: "stays P w s s1 \<Longrightarrow> stays P w s1 s2 \<Longrightarrow> stays P w s s2"
  by (fastforce simp: stays_def)

lemma stays_mono: "stays P w s s' \<Longrightarrow> (\<And>c. P c \<Longrightarrow> Q c) \<Longrightarrow> stays Q w s s'"
  by (auto simp: stays_def)

lemma ends_in_mono: "ends_in P w s r \<Longrightarrow> (\<And>c. P c \<Longrightarrow> Q c) \<Longrightarrow> ends_in Q w s r"
  by (auto simp: ends_in_def intro: stays_mono split: sum.splits)

lemma stays_call: "P c \<Longrightarrow> stays P w s (call w c s)"
  by (simp add: stays_def call_def calm_def)

lemma call_calls [simp]: "ps_calls (call w c s) = ps_calls s @ [c]"
  by (simp add: call_def)

lemma call_fsm [simp]: "ps_fsm (call w c s) = ps_fsm s"
  by (simp add: call_def)

lemma call_cols [simp]: "ps_cols (call w c s) = ps_cols s"
  by (simp add: call_def)

lemma ends_in_Inr [simp]: "ends_in P w s (Inr s') \<longleftrightarrow> stays P w s s'"
  by (simp add: ends_in_def)

lemma ends_in_Inl [simp]: "ends_in P w s (Inl (e, s')) \<longleftrightarrow> stays P w s s'"
  by (simp add: ends_in_def)

lemma ends_in_pthen:
  "ends_in P w s r \<Longrightarrow> (\<And>s'. r = Inr s' \<Longrightarrow> stays P w s s' \<Longrightarrow> ends_in P w s (k s')) \<Longrightarrow> ends_in P w s (pthen r k)"
  by (auto simp: ends_in_def pthen_def split: sum.splits)

lemma ends_in_trans: "stays P w s s1 \<Longrightarrow> ends_in P w s1 r \<Longrightarrow> ends_in P w s r"
  by (auto simp: ends_in_def intro: stays_trans split: sum.splits)

lemma core_upd [simp]: "core (upd_assignments Q f d) = core d"
  by (simp add: upd_assignments_def)

lemma stays_state: "setDeliveryState w aid st s = Inr s' \<Longrightarrow> stays reporting w s s'"
  by (auto simp: setDeliveryState_def stmt_def stays_def call_def calm_def split: option.splits)

lemma stays_try_state: "stays reporting w s (try_delivery_state w aid st s)"
  by (auto simp: try_delivery_state_def stays_state split: sum.splits)

lemma stays_event: "pipeline_event lib nm s = Inr s' \<Longrightarrow> stays P w s s'"
  by (auto simp: pipeline_event_def stays_def split: sum.splits)

lemma stays_try_event: "stays P w s (try_event lib nm s)"
  by (auto simp: try_event_def stays_event split: sum.splits)

lemma stays_cols: "stays P w s (upd_cols aid f s)"
  by (simp add: upd_cols_def stays_def)

lemma stays_col_setters:
  "setGateResult w aid x s = Inr s' \<Longrightarrow> stays P w s s'"
  "setCommitSHA w aid x s = Inr s' \<Longrightarrow> stays P w s s'"
  "setPushAt w aid t s = Inr s' \<Longrightarrow> stays P w s s'"
  by (auto simp: setGateResult_def setCommitSHA_def setPushAt_def stmt_def stays_cols split: option.splits)

lemma stays_bump: "stays P w s (snd (bumpRevision w aid s))"
  by (auto simp: bumpRevision_def sql_try_def Let_def stays_cols split: option.splits)

lemma ends_in_enter: "ends_in reporting w s (enter_phase lib w aid nm st s)"
  by (auto simp: enter_phase_def pthen_def or_return_def ends_in_def stays_event stays_state
      intro: stays_trans [OF stays_event stays_state] split: sum.splits)

lemma stays_send: "stays reporting w s (snd (sendFeedbackEvent w a fb s))"
  by (auto simp: sendFeedbackEvent_def Let_def stays_call split: sum.splits)

lemma stays_fail: "stays reporting w s (snd (fail lib w aid wt err report s))"
proof -
  define s1 where "s1 = try_delivery_state w aid ''failed'' (try_event lib ''fail'' s)"
  define fb where "fb = failure_feedback (dd_now w (ps_calls s1)) err report"
  define s2 where "s2 = call w (CallWriteFeedback wt fb) s1"
  obtain e s3 where s3: "(case GetAgentAssignmentByID (faults_now w s2) aid (agents (ps_db s2)) of
      Inl e \<Rightarrow> (Some e, s2) | Inr a \<Rightarrow> sendFeedbackEvent w a fb s2) = (e, s3)" by fastforce
  have "stays reporting w s s1" unfolding s1_def by (rule stays_trans [OF stays_try_event stays_try_state])
  moreover have "stays reporting w s1 s2" unfolding s2_def by (simp add: stays_call)
  moreover have "stays reporting w s2 s3" using s3 stays_send [of w s2 _ fb] by (auto split: sum.splits) (metis snd_conv)
  moreover have "stays reporting w s3 (snd (fail lib w aid wt err report s))"
    unfolding fail_def Let_def s1_def [symmetric] fb_def [symmetric] s2_def [symmetric] s3
    by (auto intro!: stays_trans [OF stays_trans [OF stays_call stays_try_event] stays_try_state])
  ultimately show ?thesis by (blast intro: stays_trans)
qed

lemma ends_in_fail: "ends_in reporting w s (Inl (fail lib w aid wt err report s))"
  using stays_fail by (simp add: ends_in_def split: prod.splits) (metis snd_conv)

lemma ends_in_feedback: "ends_in reporting w s (deliver_feedback lib w a wt m s)"
proof (cases "hasActionableFeedback m")
  case True
  show ?thesis
  proof (cases "BuildFeedback (dd_now w (ps_calls s)) (getenv (dd_env w) ''CODERO_FEEDBACK_MAX_SIZE'') (feedbackSources m)")
    case (Some fb)
    define s1 where "s1 = call w (CallWriteFeedback wt fb) s"
    obtain e s2 where s2: "sendFeedbackEvent w a fb s1 = (e, s2)" by fastforce
    define s3 where "s3 = call w (CallNotify wt ''feedback'' (a_id a)) s2"
    have "stays reporting w s s1" unfolding s1_def by (simp add: stays_call)
    moreover have "stays reporting w s1 s2" using stays_send [of w s1 a fb] by (simp add: s2)
    moreover have "stays reporting w s2 s3" unfolding s3_def by (simp add: stays_call)
    ultimately have "stays reporting w s s3" by (blast intro: stays_trans)
    moreover have "ends_in reporting w s3 (deliver_feedback lib w a wt m s)"
      using True Some unfolding deliver_feedback_def Let_def s1_def [symmetric] s2
      by (auto simp: s3_def [symmetric] s1_def [symmetric] s2 split: option.splits
          intro!: stays_trans [OF stays_trans [OF stays_try_event stays_try_state] stays_trans [OF stays_try_event stays_try_state]])
    ultimately show ?thesis by (rule ends_in_trans)
  qed (simp add: deliver_feedback_def)
qed (simp add: deliver_feedback_def)


text \<open>The call \<open>c\<close> was made, and \<open>h\<close> is the list of the calls up to it, which its answer was computed from.\<close>

definition asked :: "pcall \<Rightarrow> pcall list \<Rightarrow> pcall list \<Rightarrow> bool" where
  "asked c h calls \<longleftrightarrow> (\<exists>h0 t. h = h0 @ [c] \<and> calls = h @ t)"

lemma asked_call: "asked c (ps_calls s @ [c]) (ps_calls s @ [c])"
  by (simp add: asked_def)

lemma asked_stays: "stays P w s s' \<Longrightarrow> asked c h (ps_calls s) \<Longrightarrow> asked c h (ps_calls s')"
  by (fastforce simp: asked_def stays_def)

lemma asked_length: "asked c h calls \<Longrightarrow> length h \<le> length calls"
  by (auto simp: asked_def)

lemma stays_length: "stays P w s s' \<Longrightarrow> length (ps_calls s) \<le> length (ps_calls s')"
  by (auto simp: stays_def)

lemma pthen_Inr: "pthen r k = Inr y \<longleftrightarrow> (\<exists>x. r = Inr x \<and> k x = Inr y)"
  by (cases r) (simp_all add: pthen_def)

lemma pthen_Inl: "pthen r k = Inl e \<longleftrightarrow> r = Inl e \<or> (\<exists>x. r = Inr x \<and> k x = Inl e)"
  by (cases r) (auto simp: pthen_def)

lemma or_return_Inr [simp]: "or_return s r = Inr x \<longleftrightarrow> r = Inr x"
  by (cases r) (simp_all add: or_return_def)

lemma or_return_Inl: "or_return s r = Inl e \<longleftrightarrow> (\<exists>x. r = Inl x \<and> e = (Some x, s))"
  by (cases r) (auto simp: or_return_def)

lemma enter_stays:
  "enter_phase lib w aid nm st s = Inr s' \<Longrightarrow> stays reporting w s s'"
  "enter_phase lib w aid nm st s = Inl (e, s') \<Longrightarrow> stays reporting w s s'"
  using ends_in_enter [of w s lib aid nm st] by simp_all

definition gating :: "pcall \<Rightarrow> bool" where
  "gating c \<longleftrightarrow> reporting c \<or> (\<exists>wt. c = CallStage wt \<or> c = CallGate wt)"

lemma reporting_gating: "reporting c \<Longrightarrow> gating c"
  by (simp add: gating_def)

lemma fail_stays: "fail lib w aid wt err report s = (e, s') \<Longrightarrow> stays reporting w s s'"
  using stays_fail [of w s lib aid wt err report] by simp

lemma bump_stays: "bumpRevision w aid s = (r, s') \<Longrightarrow> stays P w s s'"
  using stays_bump [of P w s aid] by simp

text \<open>The weakest precondition of a step that may return early: \<open>E\<close> for the return, \<open>Q\<close> for going on.\<close>

definition wp :: "('e \<Rightarrow> bool) \<Rightarrow> ('a \<Rightarrow> bool) \<Rightarrow> 'e + 'a \<Rightarrow> bool" where
  "wp E Q r \<longleftrightarrow> (case r of Inl e \<Rightarrow> E e | Inr x \<Rightarrow> Q x)"

abbreviation left_in :: "(pcall \<Rightarrow> bool) \<Rightarrow> PipelineDeps \<Rightarrow> pstate \<Rightarrow> early \<Rightarrow> bool" where
  "left_in P w s \<equiv> (\<lambda>(e, s'). stays P w s s')"

lemma wp_pthen: "wp E (\<lambda>x. wp E Q (k x)) r \<Longrightarrow> wp E Q (pthen r k)"
  by (cases r) (simp_all add: wp_def pthen_def)

lemma wp_Inr [simp]: "wp E Q (Inr x) \<longleftrightarrow> Q x"
  by (simp add: wp_def)

lemma wp_Inl [simp]: "wp E Q (Inl e) \<longleftrightarrow> E e"
  by (simp add: wp_def)

lemma wp_conseq: "wp E Q r \<Longrightarrow> (\<And>e. E e \<Longrightarrow> E' e) \<Longrightarrow> (\<And>x. Q x \<Longrightarrow> Q' x) \<Longrightarrow> wp E' Q' r"
  by (cases r) simp_all

lemma wp_enter:
  assumes "\<And>c. reporting c \<Longrightarrow> P c" and "stays P w s s0"
    and "\<And>s'. stays P w s s' \<Longrightarrow> stays reporting w s0 s' \<Longrightarrow> Q s'"
  shows "wp (left_in P w s) Q (enter_phase lib w aid nm st s0)"
proof (cases "enter_phase lib w aid nm st s0")
  case (Inl r)
  obtain e s' where r: "r = (e, s')" by fastforce
  have "stays P w s0 s'" using enter_stays(2) [of lib w aid nm st s0 e s'] Inl r assms(1) by (auto intro: stays_mono)
  then show ?thesis using Inl r assms(2) by (auto intro: stays_trans)
next
  case (Inr s')
  then have "stays reporting w s0 s'" by (rule enter_stays)
  moreover have "stays P w s0 s'" using assms(1) calculation by (rule stays_mono [rotated])
  ultimately show ?thesis using Inr assms(2,3) stays_trans by (metis wp_Inr)
qed

lemma wp_fail:
  assumes "\<And>c. reporting c \<Longrightarrow> P c" and "stays P w s s0"
  shows "wp (left_in P w s) Q (Inl (fail lib w aid wt err report s0))"
proof -
  have "stays P w s0 (snd (fail lib w aid wt err report s0))" using stays_fail assms(1) by (rule stays_mono)
  from stays_trans [OF assms(2) this] show ?thesis by (simp add: case_prod_beta)
qed

lemma wp_or_return:
  "stays P w s s0 \<Longrightarrow> (\<And>x. r = Inr x \<Longrightarrow> Q x) \<Longrightarrow> wp (left_in P w s) Q (or_return s0 r)"
  by (cases r) (simp_all add: or_return_def)

text \<open>The calls up to the gate: it was staged, and the gate did not fail.\<close>

definition gated :: "PipelineDeps \<Rightarrow> string \<Rightarrow> nat \<Rightarrow> pcall list \<Rightarrow> bool" where
  "gated w wt k calls \<longleftrightarrow>
     (\<exists>h1 h2 report. length h2 \<le> k \<and> asked (CallStage wt) h1 calls \<and> dd_stage w h1 = None \<and> length h1 < length h2 \<and>
        asked (CallGate wt) h2 calls \<and> dd_gate w h2 = Inr report \<and> rp_result report \<noteq> StatusFail)"

lemma gated_stays: "stays P w s s' \<Longrightarrow> gated w wt k (ps_calls s) \<Longrightarrow> gated w wt k (ps_calls s')"
  unfolding gated_def using asked_stays by blast

lemma gated_later: "gated w wt k calls \<Longrightarrow> k \<le> k' \<Longrightarrow> gated w wt k' calls"
  unfolding gated_def using order_trans by blast

lemma gated_on:
  "stays P w s s' \<Longrightarrow> gated w wt (length (ps_calls s)) (ps_calls s) \<Longrightarrow> gated w wt (length (ps_calls s')) (ps_calls s')"
  using gated_stays gated_later stays_length by blast

lemma wp_stage_and_gate:
  "wp (left_in gating w s) (\<lambda>(v, s'). stays gating w s s' \<and> gated w wt (length (ps_calls s')) (ps_calls s')) (stage_and_gate lib w a wt s)"
  (is "wp ?E ?Q _")
  unfolding stage_and_gate_def Let_def
proof (intro wp_pthen wp_enter)
  fix s1 assume s1: "stays gating w s s1"
  obtain r s2 where b: "bumpRevision w (a_id a) s1 = (r, s2)" by fastforce
  let ?s3 = "call w (CallStage wt) s2"
  have s2: "stays gating w s s2" using s1 bump_stays [OF b] by (rule stays_trans)
  then have s3: "stays gating w s ?s3" by (rule stays_trans) (simp add: stays_call gating_def)
  have st: "asked (CallStage wt) (ps_calls ?s3) (ps_calls ?s3)" by (simp add: asked_call)
  have "wp ?E ?Q (pthen (enter_phase lib w (a_id a) ''gate'' ''gating'' ?s3) (\<lambda>s4.
        case dd_gate w (ps_calls (call w (CallGate wt) s4)) of
          Inl e \<Rightarrow> Inl (fail lib w (a_id a) wt (''gate: '' @ e) None (call w (CallGate wt) s4))
        | Inr report \<Rightarrow>
          pthen (or_return (call w (CallGate wt) s4) (setGateResult w (a_id a) (status_str (rp_result report)) (call w (CallGate wt) s4))) (\<lambda>s6.
          if rp_result report = StatusFail then Inl (fail lib w (a_id a) wt ''gate failed'' (Some report) s6)
          else Inr (v, s6))))" if ok: "dd_stage w (ps_calls ?s3) = None" for v
  proof (intro wp_pthen wp_enter)
    fix s4 assume s4: "stays gating w s s4" "stays reporting w ?s3 s4"
    let ?s5 = "call w (CallGate wt) s4"
    have s5: "stays gating w s ?s5" using s4(1) by (rule stays_trans) (simp add: stays_call gating_def)
    have g: "gated w wt (length (ps_calls ?s5)) (ps_calls ?s5)" if "dd_gate w (ps_calls ?s5) = Inr report" "rp_result report \<noteq> StatusFail" for report
    proof -
      have "asked (CallStage wt) (ps_calls ?s3) (ps_calls ?s5)"
        using asked_stays [OF s4(2) st] by (auto simp: asked_def)
      moreover have "length (ps_calls ?s3) < length (ps_calls ?s5)" using stays_length [OF s4(2)] by simp
      moreover have "asked (CallGate wt) (ps_calls ?s5) (ps_calls ?s5)" by (simp add: asked_call)
      ultimately show ?thesis unfolding gated_def using ok that by (blast intro: order_refl)
    qed
    show "wp ?E ?Q (case dd_gate w (ps_calls ?s5) of
        Inl e \<Rightarrow> Inl (fail lib w (a_id a) wt (''gate: '' @ e) None ?s5)
      | Inr report \<Rightarrow> pthen (or_return ?s5 (setGateResult w (a_id a) (status_str (rp_result report)) ?s5)) (\<lambda>s6.
          if rp_result report = StatusFail then Inl (fail lib w (a_id a) wt ''gate failed'' (Some report) s6) else Inr (v, s6)))"
    proof (cases "dd_gate w (ps_calls ?s5)")
      case (Inl e)
      then show ?thesis using wp_fail [OF reporting_gating s5] by simp
    next
      case (Inr report)
      have "wp ?E ?Q (if rp_result report = StatusFail then Inl (fail lib w (a_id a) wt ''gate failed'' (Some report) s6) else Inr (v, s6))"
        if "setGateResult w (a_id a) (status_str (rp_result report)) ?s5 = Inr s6" for s6
      proof -
        have "stays gating w ?s5 s6" by (rule stays_col_setters(1) [OF that])
        moreover from this have "stays gating w s s6" by (rule stays_trans [OF s5])
        ultimately show ?thesis using wp_fail [OF reporting_gating] g [OF Inr] gated_on [of gating w ?s5 s6] by auto
      qed
      then show ?thesis using Inr s5 by (auto intro!: wp_pthen wp_or_return)
    qed
  qed (use reporting_gating s3 in auto)
  then show "wp ?E ?Q (case bumpRevision w (a_id a) s1 of (Inl e, s2) \<Rightarrow> Inl (Some e, s2)
      | (Inr version, s2) \<Rightarrow>
        case dd_stage w (ps_calls (call w (CallStage wt) s2)) of
          Some e \<Rightarrow> Inl (fail lib w (a_id a) wt (''stage: '' @ e) None (call w (CallStage wt) s2))
        | None \<Rightarrow>
          pthen (enter_phase lib w (a_id a) ''gate'' ''gating'' (call w (CallStage wt) s2)) (\<lambda>s4.
          case dd_gate w (ps_calls (call w (CallGate wt) s4)) of
            Inl e \<Rightarrow> Inl (fail lib w (a_id a) wt (''gate: '' @ e) None (call w (CallGate wt) s4))
          | Inr report \<Rightarrow>
            pthen (or_return (call w (CallGate wt) s4) (setGateResult w (a_id a) (status_str (rp_result report)) (call w (CallGate wt) s4))) (\<lambda>s6.
            if rp_result report = StatusFail then Inl (fail lib w (a_id a) wt ''gate failed'' (Some report) s6)
            else Inr (version, s6))))"
    using s2 wp_fail [OF reporting_gating s3] by (auto simp: b split: sum.splits option.splits simp del: call_calls)
qed (use reporting_gating in auto)


definition unmerged :: "pcall \<Rightarrow> bool" where
  "unmerged c \<longleftrightarrow> \<not> is_merge c"

lemma kinds_unmerged: "reporting c \<Longrightarrow> unmerged c" "gating c \<Longrightarrow> unmerged c" "watching c \<Longrightarrow> unmerged c"
  by (cases c; simp add: unmerged_def gating_def)+

lemma stays_unmerged:
  "stays reporting w s s' \<Longrightarrow> stays unmerged w s s'" "stays gating w s s' \<Longrightarrow> stays unmerged w s s'"
  "stays watching w s s' \<Longrightarrow> stays unmerged w s s'"
  using kinds_unmerged by (auto elim: stays_mono)

text \<open>Committed and pushed, in this order, both without an error.\<close>

definition pushed :: "PipelineDeps \<Rightarrow> AgentAssignment \<Rightarrow> string \<Rightarrow> nat \<Rightarrow> nat \<Rightarrow> pcall list \<Rightarrow> bool" where
  "pushed w a wt k k2 calls \<longleftrightarrow>
     (\<exists>h1 h2 opts sha. k < length h1 \<and> length h2 \<le> k2 \<and> asked (CallCommit wt opts) h1 calls \<and> dd_commit w h1 = Inr sha \<and> length h1 < length h2 \<and>
        asked (CallPush wt ''origin'' (a_branch a)) h2 calls \<and> dd_push w h2 = None)"

lemma pushed_stays: "stays P w s s' \<Longrightarrow> pushed w a wt k k2 (ps_calls s) \<Longrightarrow> pushed w a wt k k2 (ps_calls s')"
  unfolding pushed_def using asked_stays by blast

lemma pushed_later: "pushed w a wt k k2 calls \<Longrightarrow> k2 \<le> k3 \<Longrightarrow> pushed w a wt k k3 calls"
  unfolding pushed_def using order_trans by blast

lemma wp_push_commit:
  "wp (left_in unmerged w s) (\<lambda>s'. stays unmerged w s s' \<and> pushed w a wt (length (ps_calls s)) (length (ps_calls s')) (ps_calls s')) (push_commit lib w a wt v s)"
  (is "wp ?E ?Q _")
  unfolding push_commit_def Let_def
proof (intro wp_pthen wp_enter)
  fix s1 assume s1: "stays unmerged w s s1"
  let ?c = "CallCommit wt (commitOpts (dd_env w) a v)"
  let ?s2 = "call w ?c s1"
  have s2: "stays unmerged w s ?s2" using s1 by (rule stays_trans) (rule stays_call, simp add: unmerged_def)
  show "wp ?E ?Q (case dd_commit w (ps_calls ?s2) of
      Inl e \<Rightarrow> Inl (fail lib w (a_id a) wt (''commit: '' @ e) None ?s2)
    | Inr sha \<Rightarrow> pthen (or_return ?s2 (setCommitSHA w (a_id a) sha ?s2)) (\<lambda>s3.
        pthen (enter_phase lib w (a_id a) ''push'' ''pushing'' s3) (\<lambda>s4.
        case dd_push w (ps_calls (call w (CallPush wt ''origin'' (a_branch a)) s4)) of
          Some e \<Rightarrow> Inl (fail lib w (a_id a) wt (''push: '' @ e) None (call w (CallPush wt ''origin'' (a_branch a)) s4))
        | None \<Rightarrow> or_return (call w (CallPush wt ''origin'' (a_branch a)) s4)
            (setPushAt w (a_id a) (dd_now w (ps_calls (call w (CallPush wt ''origin'' (a_branch a)) s4)))
              (call w (CallPush wt ''origin'' (a_branch a)) s4)))))"
  proof (cases "dd_commit w (ps_calls ?s2)")
    case (Inl e)
    then show ?thesis using wp_fail [OF kinds_unmerged(1) s2] by simp
  next
    case (Inr sha)
    have "wp ?E ?Q (pthen (enter_phase lib w (a_id a) ''push'' ''pushing'' s3) (\<lambda>s4.
        case dd_push w (ps_calls (call w (CallPush wt ''origin'' (a_branch a)) s4)) of
          Some e \<Rightarrow> Inl (fail lib w (a_id a) wt (''push: '' @ e) None (call w (CallPush wt ''origin'' (a_branch a)) s4))
        | None \<Rightarrow> or_return (call w (CallPush wt ''origin'' (a_branch a)) s4)
            (setPushAt w (a_id a) (dd_now w (ps_calls (call w (CallPush wt ''origin'' (a_branch a)) s4)))
              (call w (CallPush wt ''origin'' (a_branch a)) s4))))" if "setCommitSHA w (a_id a) sha ?s2 = Inr s3" for s3
    proof (intro wp_pthen wp_enter)
      have s23: "stays unmerged w ?s2 s3" by (rule stays_col_setters(2) [OF that])
      then show "stays unmerged w s s3" by (rule stays_trans [OF s2])
      fix s4 assume s4: "stays unmerged w s s4" "stays reporting w s3 s4"
      let ?p = "CallPush wt ''origin'' (a_branch a)"
      let ?s5 = "call w ?p s4"
      have s5: "stays unmerged w s ?s5" using s4(1) by (rule stays_trans) (rule stays_call, simp add: unmerged_def)
      have c: "stays unmerged w ?s2 ?s5"
        using stays_trans [OF s23 stays_unmerged(1) [OF s4(2)]] by (rule stays_trans) (rule stays_call, simp add: unmerged_def)
      have l: "length (ps_calls ?s2) < length (ps_calls ?s5)" using stays_length [OF s23] stays_length [OF s4(2)] by simp
      have p: "pushed w a wt (length (ps_calls s)) (length (ps_calls ?s5)) (ps_calls ?s5)" if ok: "dd_push w (ps_calls ?s5) = None"
      proof -
        have "length (ps_calls s) < length (ps_calls ?s2)" using stays_length [OF s1] by simp
        moreover have "asked ?c (ps_calls ?s2) (ps_calls ?s5)" by (rule asked_stays [OF c]) (simp add: asked_call)
        moreover have "asked ?p (ps_calls ?s5) (ps_calls ?s5)" by (simp add: asked_call)
        ultimately show ?thesis unfolding pushed_def using Inr ok l by (blast intro: order_refl)
      qed
      show "wp ?E ?Q (case dd_push w (ps_calls ?s5) of
          Some e \<Rightarrow> Inl (fail lib w (a_id a) wt (''push: '' @ e) None ?s5)
        | None \<Rightarrow> or_return ?s5 (setPushAt w (a_id a) (dd_now w (ps_calls ?s5)) ?s5))"
      proof (cases "dd_push w (ps_calls ?s5)")
        case None
        show ?thesis unfolding None option.case
          by (rule wp_or_return [OF s5])
            (use stays_col_setters(3) [where P = unmerged] stays_trans [OF s5] pushed_stays pushed_later [OF p [OF None] stays_length] in blast)
      next
        case (Some e)
        then show ?thesis using wp_fail [OF kinds_unmerged(1) s5] by simp
      qed
    qed (use kinds_unmerged in auto)
    note push = this
    show ?thesis unfolding Inr sum.case by (rule wp_pthen, rule wp_or_return [OF s2], erule push)
  qed
qed (use kinds_unmerged in auto)

lemma wp_manage_pr: "wp (left_in unmerged w s) (\<lambda>s'. stays unmerged w s s') (manage_pr lib w a wt v s)"
proof (cases "dd_github w")
  case True
  let ?s1 = "call w (CallCreatePR (a_repo a) (a_branch a) (defaultBaseBranch (dd_env w))
     (commitMessage (dd_env w) (a_task_id a) v ''update'') (''Automated delivery for '' @ a_task_id a)) s"
  have s1: "stays unmerged w s ?s1" by (simp add: stays_call unmerged_def)
  have "stays unmerged w s (call w (CallTrigger (a_repo a) n) ?s1)" for n
    by (rule stays_trans [OF s1]) (simp add: stays_call unmerged_def)
  then show ?thesis using True s1 wp_fail [OF kinds_unmerged(1) s1]
    unfolding manage_pr_def Let_def by (simp split: prod.splits)
qed (simp add: manage_pr_def)

lemma wp_mono_start: "wp (left_in P w s1) Q r \<Longrightarrow> stays P w s s1 \<Longrightarrow> wp (left_in P w s) Q r"
  by (erule wp_conseq) (auto intro: stays_trans)

definition prepared :: "PipelineDeps \<Rightarrow> AgentAssignment \<Rightarrow> string \<Rightarrow> nat \<Rightarrow> pcall list \<Rightarrow> bool" where
  "prepared w a wt k2 calls \<longleftrightarrow> (\<exists>k. gated w wt k calls \<and> pushed w a wt k k2 calls)"

lemma prepared_stays: "stays P w s s' \<Longrightarrow> prepared w a wt k (ps_calls s) \<Longrightarrow> prepared w a wt k (ps_calls s')"
  unfolding prepared_def using gated_stays pushed_stays by blast

lemma prepared_later: "prepared w a wt k calls \<Longrightarrow> k \<le> k' \<Longrightarrow> prepared w a wt k' calls"
  unfolding prepared_def using pushed_later by blast

lemma prepared_on:
  "stays P w s s' \<Longrightarrow> prepared w a wt (length (ps_calls s)) (ps_calls s) \<Longrightarrow> prepared w a wt (length (ps_calls s')) (ps_calls s')"
  using prepared_stays prepared_later stays_length by blast

lemma wp_prepare:
  "wp (left_in unmerged w s) (\<lambda>s'. stays unmerged w s s' \<and> prepared w a wt (length (ps_calls s')) (ps_calls s')) (prepare lib w a wt s)"
  unfolding prepare_def
proof (intro wp_pthen)
  show "wp (left_in unmerged w s) (\<lambda>x. wp (left_in unmerged w s)
      (\<lambda>s'. stays unmerged w s s' \<and> prepared w a wt (length (ps_calls s')) (ps_calls s'))
      (case x of (version, s1) \<Rightarrow> pthen (push_commit lib w a wt version s1) (\<lambda>s2.
        pthen (enter_phase lib w (a_id a) ''pr'' ''pr_management'' s2) (\<lambda>s3.
        pthen (manage_pr lib w a wt version s3) (enter_phase lib w (a_id a) ''monitor'' ''monitoring'')))))
      (stage_and_gate lib w a wt s)"
  proof (rule wp_conseq [OF wp_stage_and_gate], goal_cases)
    case (2 x)
    obtain v s1 where x: "x = (v, s1)" and s1: "stays unmerged w s s1" and g: "gated w wt (length (ps_calls s1)) (ps_calls s1)"
      using 2 stays_unmerged(2) by (cases x) auto
    show ?case unfolding x prod.case
    proof (intro wp_pthen, rule wp_conseq [OF wp_push_commit], goal_cases)
      case (2 s2)
      then have s2: "stays unmerged w s s2" "prepared w a wt (length (ps_calls s2)) (ps_calls s2)"
        using s1 g stays_trans gated_stays unfolding prepared_def by blast+
      show ?case
      proof (intro wp_pthen wp_enter, goal_cases)
        case (3 s3)
        show ?case
        proof (rule wp_conseq [OF wp_manage_pr], goal_cases)
          case (2 s4)
          have "stays unmerged w s s4" using 2 3 by (blast intro: stays_trans)
          moreover have "prepared w a wt (length (ps_calls s4)) (ps_calls s4)"
            using s2(2) prepared_on [OF 2] prepared_on [OF 3(2)] by blast
          ultimately show ?case using prepared_on by (intro wp_enter) (auto dest: kinds_unmerged)
        qed (use 3 stays_trans in auto)
      qed (use s2 kinds_unmerged in auto)
    qed (use s1 stays_trans in auto)
  qed (use stays_unmerged(2) in auto)
qed

section \<open>Monitoring\<close>

definition run_green :: "CheckRunInfo \<Rightarrow> bool" where
  "run_green r \<longleftrightarrow> ck_status r = ''completed'' \<and> ck_conclusion r \<in> {''success'', ''neutral'', ''skipped''}"

lemma interpret_check_runs:
  "interpretCheckRuns runs = (runs \<noteq> [] \<and> list_all run_green runs, runs = [] \<or> list_ex (\<lambda>r. ck_status r \<noteq> ''completed'') runs)"
proof -
  have "fold (\<lambda>run (allPassed, anyPending).
        if ck_status run \<noteq> ''completed'' then (False, True)
        else if ck_conclusion run \<noteq> ''success'' \<and> ck_conclusion run \<noteq> ''neutral'' \<and> ck_conclusion run \<noteq> ''skipped''
          then (False, anyPending)
        else (allPassed, anyPending)) rs (p, q) =
     (p \<and> list_all run_green rs, q \<or> list_ex (\<lambda>r. ck_status r \<noteq> ''completed'') rs)" for rs p q
  proof (induction rs arbitrary: p q)
    case (Cons r rs)
    then show ?case by (cases "ck_status r = ''completed''") (auto simp: run_green_def simp del: split_paired_All)
  qed simp
  then show ?thesis by (simp add: interpretCheckRuns_def)
qed

text \<open>The last decisive review of a person: the verdict that stands.\<close>

definition decisive :: "string \<Rightarrow> ReviewInfo \<Rightarrow> bool" where
  "decisive u r \<longleftrightarrow> \<not> ri_is_bot r \<and> ri_user r = u \<and> map upper_char (ri_state r) \<in> {''APPROVED'', ''CHANGES_REQUESTED''}"

definition standing :: "string \<Rightarrow> ReviewInfo list \<Rightarrow> string option" where
  "standing u rs = (let xs = filter (decisive u) rs in if xs = [] then None else Some (map upper_char (ri_state (last xs))))"

lemma fold_note_review: "fold note_review rs m u = (case standing u rs of None \<Rightarrow> m u | Some v \<Rightarrow> Some v)"
proof (induction rs arbitrary: m rule: rev_induct)
  case (snoc r rs)
  have "fold note_review (rs @ [r]) m u = note_review r (fold note_review rs m) u" by simp
  also have "\<dots> = (if decisive u r then Some (map upper_char (ri_state r)) else fold note_review rs m u)"
    by (auto simp: note_review_def decisive_def Let_def)
  finally show ?case using snoc by (simp add: standing_def Let_def)
qed (simp add: standing_def)

lemma interpret_reviews:
  "interpretReviews rs = (\<exists>u. standing u rs = Some ''APPROVED'', \<exists>u. standing u rs = Some ''CHANGES_REQUESTED'')"
proof -
  have f: "fold note_review rs Map.empty u = standing u rs" for u by (simp add: fold_note_review split: option.splits)
  have "u \<in> ri_user ` set rs" if "standing u rs = Some v" for u v
  proof -
    have "filter (decisive u) rs \<noteq> []" using that by (auto simp: standing_def Let_def split: if_splits)
    then show ?thesis by (auto simp: filter_empty_conv decisive_def)
  qed
  then have "(Some v \<in> (\<lambda>u. standing u rs) ` ri_user ` set rs) = (\<exists>u. standing u rs = Some v)" for v
    by (auto simp: image_iff) metis
  then show ?thesis unfolding interpretReviews_def Let_def f by (simp add: image_image)
qed

text \<open>What the monitoring phase saw when it lets a merge pass.\<close>

definition watched :: "PipelineDeps \<Rightarrow> AgentAssignment \<Rightarrow> int \<Rightarrow> string \<Rightarrow> nat \<Rightarrow> pcall list \<Rightarrow> bool" where
  "watched w a n sha k calls \<longleftrightarrow>
     (\<exists>h1 h2 h3 pr runs reviews. k < length h1 \<and> length h1 < length h2 \<and> length h2 < length h3 \<and>
        asked (CallFindPR (a_repo a) (a_branch a)) h1 calls \<and> dd_find_pr w h1 = Inr (Some pr) \<and> pi_number pr = n \<and> pi_head_sha pr = sha \<and>
        asked (CallCheckRuns (a_repo a) sha) h2 calls \<and> dd_check_runs w h2 = Inr runs \<and> runs \<noteq> [] \<and> list_all run_green runs \<and>
        asked (CallReviews (a_repo a) n) h3 calls \<and> dd_reviews w h3 = Inr reviews \<and>
        (\<exists>u. standing u reviews = Some ''APPROVED'') \<and> (\<forall>u. standing u reviews \<noteq> Some ''CHANGES_REQUESTED''))"

lemma watched_stays: "stays P w s s' \<Longrightarrow> watched w a n sha k (ps_calls s) \<Longrightarrow> watched w a n sha k (ps_calls s')"
  unfolding watched_def using asked_stays by blast

lemma watched_weaken: "watched w a n sha k calls \<Longrightarrow> k' \<le> k \<Longrightarrow> watched w a n sha k' calls"
  unfolding watched_def using le_less_trans by blast

lemma no_outcome_sel [simp]: "mo_ci_passed no_outcome = False" "mo_pr_number no_outcome = 0"
  by (simp_all add: no_outcome_def)

lemma standing_nil [simp]: "standing u [] = None"
  by (simp add: standing_def)

lemma wp_monitor_poll:
  "wp (\<lambda>(r, s'). stays watching w s s' \<and>
       (\<forall>m. r = Inr m \<longrightarrow> mo_ci_passed m \<longrightarrow> mo_approved m \<longrightarrow> \<not> mo_changes_requested m \<longrightarrow>
          watched w a (mo_pr_number m) (mo_head_sha m) (length (ps_calls s)) (ps_calls s')))
     (\<lambda>s'. stays watching w s s' \<and> CallWait \<in> set (drop (length (ps_calls s)) (ps_calls s')) \<and> dd_now w (ps_calls s) \<le> deadline)
     (monitor_poll w a deadline s)"
proof (cases "dd_now w (ps_calls s) > deadline")
  case False
  let ?s1 = "call w (CallFindPR (a_repo a) (a_branch a)) s"
  have s1: "stays watching w s ?s1" by (rule stays_call) simp
  show ?thesis
  proof (cases "dd_find_pr w (ps_calls ?s1)")
    case (Inl e)
    then show ?thesis using False s1 by (simp add: monitor_poll_def)
  next
    case (Inr found)
    show ?thesis
    proof (cases "found = None \<or> pi_number (the found) = 0")
      case True
      then show ?thesis using Inr False s1 by (cases found) (auto simp: monitor_poll_def Let_def)
    next
      case found: False
      then obtain pr where pr: "found = Some pr" "pi_number pr \<noteq> 0" by auto
      let ?s2 = "call w (CallCheckRuns (a_repo a) (pi_head_sha pr)) ?s1"
      let ?s3 = "call w (CallReviews (a_repo a) (pi_number pr)) ?s2"
      have s2: "stays watching w s ?s2" using s1 by (rule stays_trans) (rule stays_call, simp)
      have s3: "stays watching w s ?s3" using s2 by (rule stays_trans) (rule stays_call, simp)
      have s4: "stays watching w s (call w CallWait ?s3)" using s3 by (rule stays_trans) (rule stays_call, simp)
      show ?thesis
      proof (cases "dd_check_runs w (ps_calls ?s2)")
        case (Inl e)
        then show ?thesis using Inr pr False s2 by (simp add: monitor_poll_def)
      next
        case runs: (Inr runs)
        have "watched w a (pi_number pr) (pi_head_sha pr) (length (ps_calls s)) (ps_calls ?s3)"
          if "runs \<noteq> []" "list_all run_green runs" "dd_reviews w (ps_calls ?s3) = Inr reviews"
            "\<exists>u. standing u reviews = Some ''APPROVED''" "\<forall>u. standing u reviews \<noteq> Some ''CHANGES_REQUESTED''" for reviews
          unfolding watched_def
          by (intro exI [of _ "ps_calls ?s1"] exI [of _ "ps_calls ?s2"] exI [of _ "ps_calls ?s3"] exI [of _ pr] exI [of _ runs] exI [of _ reviews])
            (use that Inr runs pr in \<open>auto simp: asked_def\<close>)
        then show ?thesis using Inr pr runs False s3 s4
          by (cases "dd_reviews w (ps_calls ?s3)") (auto simp: monitor_poll_def interpret_check_runs interpret_reviews Let_def)
      qed
    qed
  qed
qed (simp add: monitor_poll_def)

lemma monitor_result:
  assumes "monitor w a deadline s = Some (r, s')"
  shows "stays watching w s s' \<and> (\<forall>m. r = Inr m \<longrightarrow> mo_ci_passed m \<longrightarrow> mo_approved m \<longrightarrow> \<not> mo_changes_requested m \<longrightarrow>
    watched w a (mo_pr_number m) (mo_head_sha m) (length (ps_calls s)) (ps_calls s'))"
proof -
  let ?P = "\<lambda>w a (deadline :: int) s (r, s'). stays watching w s s' \<and> (\<forall>m. r = Inr m \<longrightarrow> mo_ci_passed m \<longrightarrow> mo_approved m \<longrightarrow>
      \<not> mo_changes_requested m \<longrightarrow> watched w a (mo_pr_number m) (mo_head_sha m) (length (ps_calls s)) (ps_calls s'))"
  have "?P w a deadline s (r, s')"
  proof (rule monitor.raw_induct [OF _ assms, where P = ?P])
    fix loop w a deadline s y
    assume IH: "\<And>w a deadline s y. loop w a deadline s = Some y \<Longrightarrow> ?P w a deadline s y"
      and body: "(case monitor_poll w a deadline s of Inl r \<Rightarrow> Some r | Inr s' \<Rightarrow> loop w a deadline s') = Some y"
    show "?P w a deadline s y"
    proof (cases "monitor_poll w a deadline s")
      case (Inl r)
      then show ?thesis using wp_monitor_poll [of w s a deadline] body by auto
    next
      case (Inr s1)
      then have "?P w a deadline s1 y" using body by (intro IH) simp
      moreover have "stays watching w s s1" using wp_monitor_poll [of w s a deadline] Inr by simp
      ultimately show ?thesis using stays_trans watched_weaken [OF _ stays_length] by (cases y) blast
    qed
  qed
  then show ?thesis by simp
qed


section \<open>Merging\<close>

lemma stays_archive: "stays P w s (archiveSession w a merged s)"
  by (simp add: archiveSession_def Let_def stays_def)

text \<open>One merge call, for the pull request and the head of the outcome, after an evaluation that was positive.\<close>

definition merges_once :: "PipelineDeps \<Rightarrow> AgentAssignment \<Rightarrow> monitorOutcome \<Rightarrow> pstate \<Rightarrow> pstate \<Rightarrow> bool" where
  "merges_once w a m s s' \<longleftrightarrow> (\<exists>se s1. stays unmerged w s se \<and> stays unmerged w se s1 \<and> merge_ready w a m se \<and>
     dd_github w \<and> mo_pr_number m > 0 \<and>
     stays unmerged w (call w (CallMerge (a_repo a) (mo_pr_number m) (mo_head_sha m) (mergeMethodFromEnv (dd_env w))) s1) s')"

abbreviation at_most_one :: "PipelineDeps \<Rightarrow> AgentAssignment \<Rightarrow> monitorOutcome \<Rightarrow> pstate \<Rightarrow> pstate \<Rightarrow> bool" where
  "at_most_one w a m s s' \<equiv> stays unmerged w s s' \<or> merges_once w a m s s'"

lemma merges_once_on: "merges_once w a m s s1 \<Longrightarrow> stays unmerged w s1 s2 \<Longrightarrow> merges_once w a m s s2"
  unfolding merges_once_def by (blast intro: stays_trans)

lemma wp_conclude_end:
  "wp (left_in unmerged w s) (stays unmerged w s)
     (pthen (enter_phase lib w aid ''post'' ''post_merge'' s) (\<lambda>s6. enter_phase lib w aid ''reset'' ''idle'' (archiveSession w a merged s6)))"
  by (intro wp_pthen wp_enter) (auto intro: kinds_unmerged stays_trans [OF _ stays_archive])

lemma wp_enter_any:
  assumes "stays unmerged w s s0" and "\<And>e s'. stays unmerged w s s' \<Longrightarrow> E (e, s')"
    and "\<And>s'. stays unmerged w s s' \<Longrightarrow> stays reporting w s0 s' \<Longrightarrow> Q s'"
  shows "wp E Q (enter_phase lib w aid nm st s0)"
proof -
  have "wp (left_in unmerged w s) Q (enter_phase lib w aid nm st s0)"
    using assms(1,3) kinds_unmerged(1) by (intro wp_enter) auto
  then show ?thesis by (rule wp_conseq) (use assms(2) in auto)
qed

lemma wp_feedback_any:
  assumes "stays unmerged w s s0" and "\<And>e s'. stays unmerged w s s' \<Longrightarrow> E (e, s')" and "\<And>s'. stays unmerged w s s' \<Longrightarrow> Q s'"
  shows "wp E Q (deliver_feedback lib w a wt m s0)"
  using ends_in_feedback [of w s0 lib a wt m] assms stays_trans [OF assms(1)] stays_unmerged(1)
  by (cases "deliver_feedback lib w a wt m s0") (auto simp: ends_in_def)

lemma wp_conclude:
  "wp (\<lambda>(e, s'). at_most_one w a m s s') (at_most_one w a m s) (conclude lib w a wt m s)"
  unfolding conclude_def Let_def
proof -
  let ?E = "\<lambda>(e, s'). at_most_one w a m s s'" and ?Q = "at_most_one w a m s"
  let ?rest = "\<lambda>merged s5. pthen (enter_phase lib w (a_id a) ''post'' ''post_merge'' s5) (\<lambda>s6.
      enter_phase lib w (a_id a) ''reset'' ''idle'' (archiveSession w a merged s6))"
  have last: "wp ?E ?Q (case merge_pr w a m (merge_ready w a m s3) s4 of (merged, s5) \<Rightarrow> ?rest merged s5)"
    if s: "stays unmerged w s s3" "stays unmerged w s3 s4" for s3 s4
  proof -
    obtain merged s5 where m: "merge_pr w a m (merge_ready w a m s3) s4 = (merged, s5)" by fastforce
    have "at_most_one w a m s s5"
    proof (cases "merge_ready w a m s3 \<and> dd_github w \<and> mo_pr_number m > 0")
      case True
      then have "s5 = call w (CallMerge (a_repo a) (mo_pr_number m) (mo_head_sha m) (mergeMethodFromEnv (dd_env w))) s4"
        using m by (simp add: merge_pr_def Let_def)
      then have "merges_once w a m s s5" unfolding merges_once_def using s True by (metis stays_refl)
      then show ?thesis ..
    next
      case False
      then show ?thesis using m s by (auto simp: merge_pr_def intro: stays_trans)
    qed
    then have "at_most_one w a m s s'" if "stays unmerged w s5 s'" for s'
      using that merges_once_on stays_trans by blast
    then show ?thesis unfolding m prod.case by (intro wp_conseq [OF wp_conclude_end]) auto
  qed
  have merge: "wp ?E ?Q (pthen (enter_phase lib w (a_id a) ''merge'' ''merging'' s3) (\<lambda>s4.
        case merge_pr w a m (merge_ready w a m s3) s4 of (merged, s5) \<Rightarrow> ?rest merged s5))" if "stays unmerged w s s3" for s3
    by (rule wp_pthen, rule wp_enter_any [OF that]) (use last [OF that] stays_unmerged(1) in auto)
  show "wp ?E ?Q (pthen (enter_phase lib w (a_id a) ''feedback'' ''feedback_delivery'' s) (\<lambda>s1.
      pthen (deliver_feedback lib w a wt m s1) (\<lambda>s2.
      pthen (enter_phase lib w (a_id a) ''evaluate'' ''merge_evaluation'' s2) (\<lambda>s3.
      pthen (enter_phase lib w (a_id a) ''merge'' ''merging'' s3) (\<lambda>s4.
      case merge_pr w a m (merge_ready w a m s3) s4 of (merged, s5) \<Rightarrow> ?rest merged s5)))))"
    by (rule wp_pthen, rule wp_enter_any [OF stays_refl], simp, rule wp_pthen, rule wp_feedback_any, assumption, simp,
        rule wp_pthen, rule wp_enter_any, assumption, simp, rule merge)
qed


lemma stays_filter: "stays unmerged w s s' \<Longrightarrow> filter is_merge (ps_calls s') = filter is_merge (ps_calls s)"
  by (auto simp: stays_def unmerged_def filter_empty_conv)

lemma stays_prefix: "stays P w s s' \<Longrightarrow> \<exists>t. ps_calls s' = ps_calls s @ t"
  by (auto simp: stays_def)

lemma stays_core: "stays P w s s' \<Longrightarrow> calm w \<Longrightarrow> core (agents (ps_db s')) = core (agents (ps_db s))"
  by (simp add: stays_def)

lemma merge_ready_sound:
  assumes "merge_ready w a m se"
  shows "mo_ci_passed m \<and> mo_approved m \<and> \<not> mo_changes_requested m \<and>
    (\<forall>bid r. lookupBranchStateID (dd_faults w (ps_calls se)) (a_repo a) (a_branch a) (ps_db se) = Inr bid \<longrightarrow> bid \<noteq> '''' \<longrightarrow>
       EvaluateMergeReadiness (dd_faults w (ps_calls se)) bid (ps_db se) = Inr r \<longrightarrow> mr_ready r)"
  using assms by (auto simp: merge_ready_def Let_def faults_now_def split: sum.splits if_splits)

lemma evaluation_core:
  assumes "core (agents d) = core (agents d')"
  shows "lookupBranchStateID flt repo branch d = lookupBranchStateID flt repo branch d'"
    and "EvaluateMergeReadiness flt bid d = EvaluateMergeReadiness flt bid d'"
  unfolding lookupBranchStateID_def EvaluateMergeReadiness_def assms by (rule refl)+

lemma deliver_cases:
  assumes "deliver lib w a wt s = Some (err, s')"
  obtains "stays unmerged w s s'"
  | m s1 s2 where "stays unmerged w s s1" "prepared w a wt (length (ps_calls s1)) (ps_calls s1)" "stays unmerged w s1 s2"
      "mo_ci_passed m \<Longrightarrow> mo_approved m \<Longrightarrow> \<not> mo_changes_requested m \<Longrightarrow>
        watched w a (mo_pr_number m) (mo_head_sha m) (length (ps_calls s1)) (ps_calls s2)"
      "merges_once w a m s2 s'"
proof -
  let ?s0 = "call w (CallNotify wt ''task'' (a_id a)) s"
  have s0: "stays unmerged w s ?s0" by (rule stays_call) (simp add: unmerged_def)
  show ?thesis
  proof (cases "prepare lib w a wt ?s0")
    case (Inl r)
    then have "stays unmerged w ?s0 s'" using wp_prepare [where w = w and s = ?s0 and a = a and wt = wt and lib = lib] assms by (simp add: deliver_def)
    then show ?thesis using that(1) stays_trans [OF s0] by blast
  next
    case (Inr s1)
    then have p: "stays unmerged w ?s0 s1" "prepared w a wt (length (ps_calls s1)) (ps_calls s1)"
      using wp_prepare [where w = w and s = ?s0 and a = a and wt = wt and lib = lib] by simp_all
    have s1: "stays unmerged w s s1" by (rule stays_trans [OF s0 p(1)])
    have c: "at_most_one w a m s2 s'" if "returned (conclude lib w a wt m s2) = (err, s')" for m s2
      using wp_conclude [where w = w and a = a and m = m and s = s2 and lib = lib and wt = wt] that by (cases "conclude lib w a wt m s2") (auto simp: returned_def)
    show ?thesis
    proof (cases "dd_github w")
      case False
      then have "at_most_one w a no_outcome s1 s'" using assms Inr by (intro c) (simp add: deliver_def)
      then have "stays unmerged w s1 s'" using False by (auto simp: merges_once_def)
      then show ?thesis using that(1) stays_trans [OF s1] by blast
    next
      case True
      let ?dl = "dd_now w (ps_calls s1) + monitorTimeout (dd_env w) (dd_parse_duration w)"
      obtain r s2 where mon: "monitor w a ?dl s1 = Some (r, s2)"
        and r: "(err, s') = (case r of Inl e \<Rightarrow> fail lib w (a_id a) wt (''monitor: '' @ e) None s2
          | Inr m \<Rightarrow> returned (conclude lib w a wt m s2))"
        using assms True Inr by (auto simp: deliver_def)
      have s2: "stays unmerged w s1 s2" using monitor_result [OF mon] stays_unmerged(3) by blast
      show ?thesis
      proof (cases r)
        case (Inl e)
        then have "stays unmerged w s2 s'" using r fail_stays [of lib w "a_id a" wt "''monitor: '' @ e" None s2 err s'] stays_unmerged(1) by simp
        then show ?thesis using that(1) stays_trans [OF s1 stays_trans [OF s2]] by blast
      next
        case m: (Inr m)
        then have "at_most_one w a m s2 s'" using r by (intro c) simp
        then show ?thesis using that(1) that(2) [OF s1 p(2) s2] monitor_result [OF mon] m stays_trans [OF s1 stays_trans [OF s2]] by blast
      qed
    qed
  qed
qed

text \<open>
  C26: a pull request is merged only when everything before it went well. If a run of \<open>Submit\<close> asks GitHub to merge,
  it does so once, for the repository of the assignment; earlier in the same run the worktree was staged and the gate
  did not fail, then the commit and the push succeeded, and then, in this order, GitHub reported the open pull request
  with exactly this number and head, a non-empty list of check runs of that head which are all completed with an
  accepted conclusion, and reviews of that pull request in which the last decisive word of at least one person is an
  approval and of nobody a request for changes (bots do not count). Where no other worker changes the branch tables
  and the branch has a row, the merge predicates held, unless a query failed.
\<close>

theorem pipeline_merge_justified:
  assumes run: "Submit lib w io aid wt0 p s = Some (err, p', s')" and start: "ps_calls s = []"
    and merge: "CallMerge repo n sha meth \<in> set (ps_calls s')"
  shows "\<exists>a wt k k2. GetAgentAssignmentByID (dd_faults w []) aid (agents (ps_db s)) = Inr a \<and>
    wt = (if wt0 = '''' then a_worktree a else wt0) \<and> repo = a_repo a \<and> 0 < n \<and>
    gated w wt k (ps_calls s') \<and> pushed w a wt k k2 (ps_calls s') \<and> watched w a n sha k2 (ps_calls s') \<and>
    filter is_merge (ps_calls s') = [CallMerge repo n sha meth] \<and>
    (calm w \<longrightarrow> (\<exists>he t. ps_calls s' = he @ t \<and>
       (\<forall>bid r. lookupBranchStateID (dd_faults w he) repo (a_branch a) (ps_db s) = Inr bid \<longrightarrow> bid \<noteq> '''' \<longrightarrow>
          EvaluateMergeReadiness (dd_faults w he) bid (ps_db s) = Inr r \<longrightarrow> mr_ready r)))"
proof -
  have flt: "faults_now w s = dd_faults w []" by (simp add: faults_now_def start)
  obtain a wt where a: "GetAgentAssignmentByID (dd_faults w []) aid (agents (ps_db s)) = Inr a"
    and wt: "wt = (if wt0 = '''' then a_worktree a else wt0)" and d: "deliver lib w a wt (s\<lparr>ps_fsm := ''idle''\<rparr>) = Some (err, s')"
    using run merge start by (auto simp: Submit_def flt Let_def split: sum.splits if_splits prod.splits option.splits)
  let ?s = "s\<lparr>ps_fsm := ''idle''\<rparr>"
  have none: "filter is_merge (ps_calls ?s) = []" by (simp add: start)
  from d show ?thesis
  proof (cases rule: deliver_cases)
    case 1
    from stays_filter [OF this] none have "filter is_merge (ps_calls s') = []" by (rule trans)
    then show ?thesis using merge by (auto simp: filter_empty_conv)
  next
    case (2 m s1 s2)
    obtain se s3 where se: "stays unmerged w s2 se" "stays unmerged w se s3" "merge_ready w a m se" "mo_pr_number m > 0"
      and s': "stays unmerged w (call w (CallMerge (a_repo a) (mo_pr_number m) (mo_head_sha m) (mergeMethodFromEnv (dd_env w))) s3) s'"
      using 2(5) unfolding merges_once_def by blast
    let ?c = "CallMerge (a_repo a) (mo_pr_number m) (mo_head_sha m) (mergeMethodFromEnv (dd_env w))"
    have chain: "stays unmerged w ?s se" "stays unmerged w ?s s3"
      by (rule stays_trans [OF 2(1) stays_trans [OF 2(3) se(1)]], rule stays_trans [OF 2(1) stays_trans [OF 2(3) stays_trans [OF se(1,2)]]])
    have f: "filter is_merge (ps_calls s') = [?c]" using stays_filter [OF s'] stays_filter [OF chain(2)] none by simp
    have "CallMerge repo n sha meth \<in> set (filter is_merge (ps_calls s'))" using merge by simp
    then have eq: "CallMerge repo n sha meth = ?c" by (simp add: f)
    have t: "stays (\<lambda>_. True) w s1 s2" "stays (\<lambda>_. True) w s2 se" "stays (\<lambda>_. True) w se s3" "stays (\<lambda>_. True) w (call w ?c s3) s'"
      using 2 se s' by (auto elim: stays_mono)
    have late3: "stays (\<lambda>_. True) w se s'" by (rule stays_trans [OF t(3) stays_trans [OF stays_call t(4)]]) simp
    have late2: "stays (\<lambda>_. True) w s2 s'" by (rule stays_trans [OF t(2) late3])
    have late1: "stays (\<lambda>_. True) w s1 s'" by (rule stays_trans [OF t(1) late2])
    obtain k where k: "gated w wt k (ps_calls s1)" "pushed w a wt k (length (ps_calls s1)) (ps_calls s1)"
      using 2(2) unfolding prepared_def by blast
    have wd: "watched w a n sha (length (ps_calls s1)) (ps_calls s')"
      using 2(4) merge_ready_sound [OF se(3)] watched_stays [OF late2] eq by auto
    have "calm w \<longrightarrow> (\<exists>he t. ps_calls s' = he @ t \<and>
       (\<forall>bid r. lookupBranchStateID (dd_faults w he) repo (a_branch a) (ps_db s) = Inr bid \<longrightarrow> bid \<noteq> '''' \<longrightarrow>
          EvaluateMergeReadiness (dd_faults w he) bid (ps_db s) = Inr r \<longrightarrow> mr_ready r))"
    proof
      assume "calm w"
      then have core: "core (agents (ps_db se)) = core (agents (ps_db s))" using stays_core [OF chain(1)] by simp
      obtain t where "ps_calls s' = ps_calls se @ t" using stays_prefix [OF late3] by blast
      then show "\<exists>he t. ps_calls s' = he @ t \<and>
        (\<forall>bid r. lookupBranchStateID (dd_faults w he) repo (a_branch a) (ps_db s) = Inr bid \<longrightarrow> bid \<noteq> '''' \<longrightarrow>
          EvaluateMergeReadiness (dd_faults w he) bid (ps_db s) = Inr r \<longrightarrow> mr_ready r)"
        using merge_ready_sound [OF se(3)] evaluation_core [OF core] eq by auto
    qed
    moreover have "repo = a_repo a" "0 < n" "filter is_merge (ps_calls s') = [CallMerge repo n sha meth]" using eq se(4) f by simp_all
    ultimately show ?thesis using a wt gated_stays [OF late1 k(1)] pushed_stays [OF late1 k(2)] wd by blast
  qed
qed


definition demo_assignment :: AgentAssignment where
  "demo_assignment = \<lparr>a_id = ''as'', a_session_id = ''se'', a_agent_id = ''codex'', a_repo = ''o/r'', a_branch = ''b'', a_worktree = ''/wt'',
     a_task_id = ''T'', a_state = assignmentStateActive, a_blocked_reason = '''', a_substatus = '''', a_version = 1,
     a_delivery_state = ''idle'', a_started_at = 1, a_ended_at = None, a_end_reason = '''', a_superseded_by = None\<rparr>"

definition demo_session :: session_row where
  "demo_session = \<lparr>s_session_id = ''se'', s_agent_id = ''codex'', s_mode = '''', s_tmux_session_name = ''t'', s_started_at = 1,
     s_last_seen_at = 1, s_last_progress_at = None, s_last_io_at = None, s_ended_at = None, s_end_reason = '''', s_inferred_status = '''',
     s_inferred_status_updated_at = None, s_heartbeat_secret = ''x'', s_context_pressure = '''', s_last_compact_at = None, s_compact_count = 0,
     s_repo = '''', s_branch = '''', s_output_bytes = 0, s_attribution_source = '''', s_attribution_confidence = '''', s_last_recovered_at = None\<rparr>"

definition demo_pstate :: pstate where
  "demo_pstate = \<lparr>ps_db = empty_review_db\<lparr>agents := empty_agent_db\<lparr>agent_sessions := [demo_session],
       agent_assignments := [new_assignment demo_assignment]\<rparr>\<rparr>,
     ps_cols = (\<lambda>_. \<lparr>dc_last_submit_at = None, dc_last_gate_result = '''', dc_last_commit_sha = '''', dc_last_push_at = None, dc_revision_count = 0\<rparr>),
     ps_calls = [], ps_fsm = ''idle''\<rparr>"

definition demo_report :: "CheckStatus \<Rightarrow> Report" where
  "demo_report st = \<lparr>rp_summary = ComputeSummary [] ''portable'' False, rp_checks = [], rp_run_at = 5, rp_invocation = ''codero'',
     rp_result = st, rp_total_findings = 0, rp_duration_ms = 0, rp_blocked = False\<rparr>"

definition demo_deps :: "CheckStatus \<Rightarrow> PipelineDeps" where
  "demo_deps st = \<lparr>dd_env = (\<lambda>_. None), dd_parse_duration = (\<lambda>_. None), dd_now = (\<lambda>_. 5), dd_uuid = (\<lambda>_. ''u''),
     dd_faults = (\<lambda>_. no_faults), dd_others = (\<lambda>_ d. d), dd_stage = (\<lambda>_. None), dd_gate = (\<lambda>_. Inr (demo_report st)),
     dd_commit = (\<lambda>_. Inr ''c1''), dd_push = (\<lambda>_. None), dd_github = True, dd_create_pr = (\<lambda>_. ((7, True), None)),
     dd_find_pr = (\<lambda>_. Inr (Some \<lparr>pi_number = 7, pi_head_sha = ''c1''\<rparr>)),
     dd_check_runs = (\<lambda>_. Inr [\<lparr>ck_name = ''ci'', ck_status = ''completed'', ck_conclusion = ''success''\<rparr>]),
     dd_reviews = (\<lambda>_. Inr [\<lparr>ri_state = ''approved'', ri_user = ''ann'', ri_is_bot = False\<rparr>]),
     dd_cancelled = (\<lambda>_. False), dd_merge = (\<lambda>_. None), dd_send = (\<lambda>_. None)\<rparr>"

definition demo_pipeline :: Pipeline where
  "demo_pipeline = \<lparr>pl_in_flight = [], pl_locks = Map.empty\<rparr>"

lemma demo_merge:
  "case Submit list_fsm (demo_deps StatusPass) LockFine ''as'' '''' demo_pipeline demo_pstate of
     Some (e, p, s) \<Rightarrow> e = None \<and> CallMerge ''o/r'' 7 ''c1'' ''squash'' \<in> set (ps_calls s) | None \<Rightarrow> False"
  by code_simp


theorem pipeline_merge_justified_witness:
  "\<exists>e p' s' a wt k k2. Submit list_fsm (demo_deps StatusPass) LockFine ''as'' '''' demo_pipeline demo_pstate = Some (e, p', s') \<and>
     gated (demo_deps StatusPass) wt k (ps_calls s') \<and> pushed (demo_deps StatusPass) a wt k k2 (ps_calls s') \<and>
     watched (demo_deps StatusPass) a 7 ''c1'' k2 (ps_calls s') \<and> filter is_merge (ps_calls s') = [CallMerge ''o/r'' 7 ''c1'' ''squash'']"
proof -
  obtain e p' s' where run: "Submit list_fsm (demo_deps StatusPass) LockFine ''as'' '''' demo_pipeline demo_pstate = Some (e, p', s')"
    and m: "CallMerge ''o/r'' 7 ''c1'' ''squash'' \<in> set (ps_calls s')"
    using demo_merge by (auto split: option.splits)
  have "ps_calls demo_pstate = []" by (simp add: demo_pstate_def)
  from pipeline_merge_justified [OF run this m] run show ?thesis by blast
qed

section \<open>A gate that fails\<close>

lemma pipeline_fsm_moves:
  assumes "fsm_library lib"
  shows "fsm_Event lib newPipelineFSM ''idle'' ''submit'' = Inr ''staging''"
    "fsm_Event lib newPipelineFSM ''staging'' ''gate'' = Inr ''gating''"
    "fsm_Event lib newPipelineFSM ''gating'' ''fail'' = Inr ''failed''"
    "fsm_Event lib newPipelineFSM ''failed'' ''recover'' = Inr ''idle''"
  by (rule fsm_library.event_moves [OF assms]; auto simp: newPipelineFSM_def fsm_library.can_iff [OF assms])+

text \<open>Without failures of the database and without other workers, the steps of the pipeline are plain updates.\<close>

definition undisturbed :: "PipelineDeps \<Rightarrow> bool" where
  "undisturbed w \<longleftrightarrow> (\<forall>h. dd_faults w h = no_faults) \<and> (\<forall>h d. dd_others w h d = d)"

definition with_delivery_state :: "string \<Rightarrow> string \<Rightarrow> review_db \<Rightarrow> review_db" where
  "with_delivery_state aid st d =
     d\<lparr>agents := upd_assignments (\<lambda>a. a_id a = aid) (\<lambda>a. a\<lparr>a_delivery_state := st\<rparr>) (agents d)\<rparr>"

lemma quiet_call: "undisturbed w \<Longrightarrow> call w c s = s\<lparr>ps_calls := ps_calls s @ [c]\<rparr>"
  by (simp add: call_def undisturbed_def)

lemma quiet_faults: "undisturbed w \<Longrightarrow> faults_now w s = no_faults"
  by (simp add: faults_now_def undisturbed_def)

lemma quiet_state:
  "undisturbed w \<Longrightarrow> setDeliveryState w aid st s =
     Inr (s\<lparr>ps_db := with_delivery_state aid st (ps_db s), ps_calls := ps_calls s @ [CallState st]\<rparr>)"
  by (simp add: setDeliveryState_def quiet_call quiet_faults with_delivery_state_def)

lemma assignment_ids [simp]:
  "(\<exists>a\<in>set (agent_assignments (agents (with_delivery_state aid st d))). a_id a = x) \<longleftrightarrow>
   (\<exists>a\<in>set (agent_assignments (agents d)). a_id a = x)"
proof -
  have "map a_id (agent_assignments (agents (with_delivery_state aid st d))) = map a_id (agent_assignments (agents d))"
    by (auto simp: with_delivery_state_def upd_assignments_def sql_update_def)
  then have "set (map a_id (agent_assignments (agents (with_delivery_state aid st d)))) = set (map a_id (agent_assignments (agents d)))"
    by (rule arg_cong)
  moreover have "(\<exists>a\<in>set xs. a_id a = x) \<longleftrightarrow> x \<in> set (map a_id xs)" for xs :: "assignment_row list" by auto
  ultimately show ?thesis by (simp only:)
qed

lemma assignment_lookup:
  "GetAgentAssignmentByID no_faults aid (agents (with_delivery_state aid st d)) =
   map_sum (\<lambda>e. e) (\<lambda>a. a\<lparr>a_delivery_state := st\<rparr>) (GetAgentAssignmentByID no_faults aid (agents d))"
  by (auto simp: GetAgentAssignmentByID_def get_asg_def with_delivery_state_def upd_assignments_def sql_row_def find_sql_update
      scanAgentAssignment_def AgentAssignment.truncate_def dest: find_Some_set split: option.splits)


lemma session_lookup: "GetAgentSession flt sid (agents (with_delivery_state aid st d)) = GetAgentSession flt sid (agents d)"
  by (simp add: GetAgentSession_def with_delivery_state_def upd_assignments_def)

lemma delivery_state_row:
  assumes "a \<in> set (agent_assignments (agents (with_delivery_state aid st d)))" and "a_id a = aid"
  shows "a_delivery_state a = st"
proof -
  have "a \<in> (\<lambda>r. r\<lparr>a_delivery_state := st\<rparr>) ` (set (agent_assignments (agents d)) \<inter> {r. a_id r = aid})"
    using assms unfolding with_delivery_state_def upd_assignments_def by (simp add: sql_update_def)
  then obtain r where "a = r\<lparr>a_delivery_state := st\<rparr>" by blast
  then show ?thesis by simp
qed

lemma lookup_exists:
  assumes "GetAgentAssignmentByID no_faults aid d = Inr a"
  shows "\<exists>r\<in>set (agent_assignments d). a_id r = aid \<and> a = scanAgentAssignment r"
proof -
  obtain r where r: "find (\<lambda>a. a_id a = aid) (agent_assignments d) = Some r" "a = scanAgentAssignment r"
    using assms by (auto simp: GetAgentAssignmentByID_def get_asg_def sql_row_def split: option.splits)
  from find_Some_set [OF r(1)] r(2) show ?thesis by blast
qed

text \<open>
  C27: a failing gate stops the delivery and is reported as a success. When nothing disturbs the run, the gate report of
  the worktree says fail and both locks are free, \<open>Submit\<close> returns, with both locks free again; nothing was committed,
  pushed, proposed or merged (the only calls are staging, the gate and reports), the gate findings were written to the
  worktree, the assignment is idle again with the result \<open>fail\<close> and one revision more; and if the session can be reached and
  the event is sent, the returned error is nil, so that the caller, \<open>handleSubmit\<close>, answers that the work was submitted.
\<close>

theorem failed_gate_outcome:
  assumes lib: "fsm_library lib" and quiet: "undisturbed w" and start: "ps_calls s = []" and aid: "TrimSpace aid \<noteq> ''''"
    and a: "GetAgentAssignmentByID no_faults aid (agents (ps_db s)) = Inr a"
    and wt: "wt = (if wt0 = '''' then a_worktree a else wt0)" "TrimSpace wt \<noteq> ''''"
    and free: "wt \<notin> set (pl_in_flight p)" "pl_locks p (lockPath wt) = None"
    and gate: "\<forall>h. dd_stage w h = None" "\<forall>h. dd_gate w h = Inr report" "rp_result report = StatusFail"
  shows "\<exists>err s'. Submit lib w LockFine aid wt0 p s = Some (err, p, s') \<and> list_all gating (ps_calls s') \<and>
    (\<exists>fb. CallWriteFeedback wt fb \<in> set (ps_calls s') \<and> fp_gate_findings fb = findingsFromGate report) \<and>
    (\<forall>r\<in>set (agent_assignments (agents (ps_db s'))). a_id r = aid \<longrightarrow> a_delivery_state r = ''idle'') \<and>
    dc_last_gate_result (ps_cols s' aid) = ''fail'' \<and> dc_revision_count (ps_cols s' aid) = dc_revision_count (ps_cols s aid) + 1 \<and>
    ((\<exists>ep. buildReplyToEndpoint w a s = Inr ep) \<longrightarrow> (\<forall>h. dd_send w h = None) \<longrightarrow> err = None)"
proof -
  note q = quiet_call [OF quiet] quiet_faults [OF quiet] quiet_state [OF quiet]
  have id: "a_id a = aid" and ex: "\<exists>r\<in>set (agent_assignments (agents (ps_db s))). a_id r = aid"
    using lookup_exists [OF a] by (auto simp: scanAgentAssignment_def AgentAssignment.truncate_def)
  define d1 where "d1 = with_delivery_state aid ''gating'' (with_delivery_state aid ''staging'' (ps_db s))"
  have ex1: "\<exists>r\<in>set (agent_assignments (agents d1)). a_id r = aid" using ex by (simp add: d1_def)
  let ?h0 = "[CallNotify wt ''task'' aid, CallState ''staging'']"
  let ?h1 = "?h0 @ [CallStage wt, CallState ''gating'', CallGate wt]"
  define cols where "cols = (ps_cols s)(aid := (ps_cols s aid)\<lparr>dc_last_submit_at := Some (dd_now w ?h0),
      dc_revision_count := dc_revision_count (ps_cols s aid) + 1, dc_last_gate_result := ''fail''\<rparr>)"
  define s1 where "s1 = s\<lparr>ps_fsm := ''gating'', ps_db := d1, ps_calls := ?h1, ps_cols := cols\<rparr>"
  have sg: "prepare lib w a wt (call w (CallNotify wt ''task'' aid) (s\<lparr>ps_fsm := ''idle''\<rparr>)) = Inl (fail lib w aid wt ''gate failed'' (Some report) s1)"
    using ex ex1 gate start
    by (simp add: prepare_def stage_and_gate_def enter_phase_def pthen_def or_return_def pipeline_event_def pipeline_fsm_moves [OF lib]
        q id bumpRevision_def upd_cols_def setGateResult_def s1_def d1_def cols_def Let_def)
  obtain err s' where f: "fail lib w aid wt ''gate failed'' (Some report) s1 = (err, s')" by fastforce
  define fb where "fb = failure_feedback (dd_now w (?h1 @ [CallState ''failed''])) ''gate failed'' (Some report)"
  define s2 where "s2 = s1\<lparr>ps_fsm := ''failed'', ps_db := with_delivery_state aid ''failed'' d1,
    ps_calls := ?h1 @ [CallState ''failed'', CallWriteFeedback wt fb]\<rparr>"
  obtain a2 where a2: "GetAgentAssignmentByID no_faults aid (agents (ps_db s2)) = Inr a2" "a_session_id a2 = a_session_id a" "a_id a2 = aid"
    using a id by (auto simp: s2_def d1_def assignment_lookup)
  obtain e s3 where s3: "sendFeedbackEvent w a2 fb s2 = (e, s3)" by fastforce
  have ep: "buildReplyToEndpoint w a2 s2 = buildReplyToEndpoint w a s"
    unfolding buildReplyToEndpoint_def a2(2) by (simp add: q s2_def d1_def session_lookup)
  have s3': "ps_db s3 = ps_db s2" "ps_cols s3 = cols" "ps_fsm s3 = ''failed''" "\<exists>t. ps_calls s3 = ps_calls s2 @ t \<and> list_all gating t"
    "(\<exists>ep. buildReplyToEndpoint w a s = Inr ep) \<Longrightarrow> (\<forall>h. dd_send w h = None) \<Longrightarrow> e = None"
    using s3 ep by (auto simp: sendFeedbackEvent_def q Let_def s2_def s1_def gating_def split: sum.splits)
  have fin: "err = map_option (\<lambda>e. OtherError (''pipeline: feedback delivery after '' @ ''gate failed'')) e"
    "s' = s3\<lparr>ps_fsm := ''idle'', ps_db := with_delivery_state aid ''idle'' (ps_db s3),
       ps_calls := ps_calls s3 @ [CallNotify wt ''feedback'' aid, CallState ''idle'']\<rparr>"
  proof -
    have "try_delivery_state w aid ''failed'' (try_event lib ''fail'' s1) =
        s1\<lparr>ps_fsm := ''failed'', ps_db := with_delivery_state aid ''failed'' d1, ps_calls := ?h1 @ [CallState ''failed'']\<rparr>"
      by (simp add: try_event_def try_delivery_state_def pipeline_event_def pipeline_fsm_moves [OF lib] q s1_def)
    then have "fail lib w aid wt ''gate failed'' (Some report) s1 =
        (map_option (\<lambda>e. OtherError (''pipeline: feedback delivery after '' @ ''gate failed'')) e,
         try_delivery_state w aid ''idle'' (try_event lib ''recover'' (call w (CallNotify wt ''feedback'' aid) s3)))"
      using a2(1) s3 by (simp add: fail_def Let_def q fb_def s2_def)
    then show "err = map_option (\<lambda>e. OtherError (''pipeline: feedback delivery after '' @ ''gate failed'')) e"
      "s' = s3\<lparr>ps_fsm := ''idle'', ps_db := with_delivery_state aid ''idle'' (ps_db s3),
       ps_calls := ps_calls s3 @ [CallNotify wt ''feedback'' aid, CallState ''idle'']\<rparr>"
      using f s3'(3) by (auto simp: try_event_def try_delivery_state_def pipeline_event_def pipeline_fsm_moves [OF lib] q)
  qed
  have enter: "submit_enter LockFine (dd_now w []) wt (a_session_id a) aid p = (None, p\<lparr>pl_in_flight := wt # pl_in_flight p,
      pl_locks := (pl_locks p)(lockPath wt \<mapsto> Some \<lparr>lm_session_id = a_session_id a, lm_assignment_id = aid, lm_locked_at = dd_now w []\<rparr>)\<rparr>)"
    using free by (simp add: submit_enter_def acquire_def IsLocked_def Lock_def)
  have leave: "submit_leave wt (p\<lparr>pl_in_flight := wt # pl_in_flight p, pl_locks := (pl_locks p)(lockPath wt \<mapsto> x)\<rparr>) = p" for x
  proof -
    have "filter (\<lambda>y. y \<noteq> wt) (pl_in_flight p) = pl_in_flight p" using free(1) by (auto simp: filter_id_conv)
    moreover have "(pl_locks p)(lockPath wt := None) = pl_locks p" using free(2) by auto
    ultimately show ?thesis by (simp add: submit_leave_def release_def Unlock_def)
  qed
  have "deliver lib w a wt (s\<lparr>ps_fsm := ''idle''\<rparr>) = Some (err, s')" using sg f by (simp add: deliver_def id)
  then have "Submit lib w LockFine aid wt0 p s = Some (err, p, s')"
    using aid a wt enter leave start by (simp add: Submit_def q Let_def)
  moreover obtain t where "ps_calls s3 = ps_calls s2 @ t" "list_all gating t" using s3'(4) by blast
  then have "list_all gating (ps_calls s')" "CallWriteFeedback wt fb \<in> set (ps_calls s')" by (simp_all add: fin s2_def gating_def)
  moreover have "fp_gate_findings fb = findingsFromGate report" by (simp add: fb_def failure_feedback_def)
  moreover have "\<forall>r\<in>set (agent_assignments (agents (ps_db s'))). a_id r = aid \<longrightarrow> a_delivery_state r = ''idle''"
    using delivery_state_row by (simp add: fin)
  moreover have "ps_cols s' = cols" by (simp add: fin s3')
  ultimately show ?thesis using s3'(5) fin(1) by (intro exI [of _ err] exI [of _ s']) (auto simp: cols_def)
qed


lemma demo_lookup: "GetAgentAssignmentByID no_faults ''as'' (agents (ps_db demo_pstate)) = Inr demo_assignment"
  by code_simp

lemma demo_undisturbed: "undisturbed (demo_deps st)"
  by (simp add: undisturbed_def demo_deps_def)

theorem failed_gate_outcome_witness:
  "\<exists>s'. Submit list_fsm (demo_deps StatusFail) LockFine ''as'' '''' demo_pipeline demo_pstate = Some (None, demo_pipeline, s') \<and>
     list_all gating (ps_calls s') \<and> dc_last_gate_result (ps_cols s' ''as'') = ''fail''"
proof -
  have t: "TrimSpace ''as'' \<noteq> ''''" "TrimSpace ''/wt'' \<noteq> ''''" by code_simp+
  have wt: "''/wt'' = (if '''' = '''' then a_worktree demo_assignment else '''')" by (simp add: demo_assignment_def)
  have ep: "\<exists>ep. buildReplyToEndpoint (demo_deps StatusFail) demo_assignment demo_pstate = Inr ep"
  proof -
    have "case buildReplyToEndpoint (demo_deps StatusFail) demo_assignment demo_pstate of Inl e \<Rightarrow> False | Inr ep \<Rightarrow> True" by code_simp
    then show ?thesis by (auto split: sum.splits)
  qed
  have "dd_send (demo_deps StatusFail) h = None" "dd_stage (demo_deps StatusFail) h = None"
    "dd_gate (demo_deps StatusFail) h = Inr (demo_report StatusFail)" for h by (simp_all add: demo_deps_def)
  moreover have "rp_result (demo_report StatusFail) = StatusFail" by (simp add: demo_report_def)
  ultimately show ?thesis
    using failed_gate_outcome [OF listfsm.fsm_library_axioms demo_undisturbed _ t(1) demo_lookup wt t(2),
        of demo_pipeline StatusFail "demo_report StatusFail"] ep
    by (fastforce simp: demo_pipeline_def demo_pstate_def)
qed

section \<open>A run returns\<close>

lemma env_duration_pos: "def > 0 \<Longrightarrow> env_duration env parse key def > 0"
  by (simp add: env_duration_def Let_def split: option.splits)

lemma poll_interval_pos: "monitorPollInterval env parse > 0"
  by (simp add: monitorPollInterval_def env_duration_pos)

text \<open>
  The ticker of the monitoring loop: after its \<open>n\<close>th tick, at least \<open>n\<close> intervals have passed since the loop began,
  which is when the state \<open>monitoring\<close> was set.
\<close>

definition ticking :: "PipelineDeps \<Rightarrow> bool" where
  "ticking w \<longleftrightarrow> (\<forall>h cs. dd_now w (h @ [CallState ''monitoring'']) +
     int (count_list cs CallWait) * monitorPollInterval (dd_env w) (dd_parse_duration w) \<le> dd_now w (h @ CallState ''monitoring'' # cs))"

lemma monitor_returns_aux:
  assumes tick: "ticking w" and s: "ps_calls s = h @ CallState ''monitoring'' # cs"
    and deadline: "deadline = dd_now w (h @ [CallState ''monitoring'']) + timeout"
    and k: "timeout < int (count_list cs CallWait + k) * monitorPollInterval (dd_env w) (dd_parse_duration w)"
  shows "\<exists>r. monitor w a deadline s = Some r"
  using s k
proof (induction k arbitrary: s cs)
  case 0
  have "dd_now w (h @ [CallState ''monitoring'']) +
      int (count_list cs CallWait) * monitorPollInterval (dd_env w) (dd_parse_duration w) \<le> dd_now w (ps_calls s)"
    unfolding 0(1) using tick unfolding ticking_def by blast
  then have "dd_now w (ps_calls s) > deadline" using 0(2) unfolding deadline add_0_right by linarith
  then show ?case by (subst monitor.simps) (simp add: monitor_poll_def)
next
  case (Suc k)
  show ?case
  proof (cases "monitor_poll w a deadline s")
    case (Inl r)
    then show ?thesis by (subst monitor.simps) simp
  next
    case (Inr s1)
    obtain t where t: "ps_calls s1 = ps_calls s @ t" "CallWait \<in> set t"
      using wp_monitor_poll [of w s a deadline] Inr by (auto simp: stays_def)
    then have c: "count_list (cs @ t) CallWait + k \<ge> count_list cs CallWait + Suc k"
      using count_list_0_iff [of t CallWait] by (simp add: Suc_le_eq)
    have "timeout < int (count_list (cs @ t) CallWait + k) * monitorPollInterval (dd_env w) (dd_parse_duration w)"
      using Suc.prems(2) mult_right_mono [OF of_nat_mono [OF c, where 'a = int]] poll_interval_pos [of "dd_env w" "dd_parse_duration w"]
      by (meson less_le_trans order_less_imp_le)
    moreover have "ps_calls s1 = h @ CallState ''monitoring'' # (cs @ t)" using t(1) Suc.prems(1) by simp
    ultimately have "\<exists>r. monitor w a deadline s1 = Some r" by (intro Suc.IH)
    then show ?thesis using Inr by (subst monitor.simps) simp
  qed
qed


lemma prepare_last: "prepare lib w a wt s = Inr s1 \<Longrightarrow> \<exists>h. ps_calls s1 = h @ [CallState ''monitoring'']"
  by (auto simp: prepare_def pthen_Inr enter_phase_def setDeliveryState_def stmt_def call_def split: option.splits prod.splits)

text \<open>
  C28: a submission always comes to an end. Whatever git, the gate, GitHub and the other workers answer, with the
  waits of the monitoring loop taking at least the configured interval (which is positive for every environment),
  \<open>Submit\<close> returns, for every assignment, worktree, state of the locks and of the database: the only loop, the
  monitoring, is ended by its deadline at the latest.
\<close>

theorem submit_returns:
  assumes "ticking w"
  shows "\<exists>err p' s'. Submit lib w io aid wt0 p s = Some (err, p', s')"
proof -
  have mon: "\<exists>r. monitor w a (dd_now w (ps_calls s1) + timeout) s1 = Some r" if "prepare lib w a wt s0 = Inr s1" for a wt s0 s1 timeout
  proof -
    obtain h where h: "ps_calls s1 = h @ [CallState ''monitoring'']" using prepare_last [OF \<open>prepare lib w a wt s0 = Inr s1\<close>] by blast
    let ?I = "monitorPollInterval (dd_env w) (dd_parse_duration w)"
    have "timeout < int (nat (timeout + 1)) * ?I"
    proof (cases "timeout < 0")
      case True
      then show ?thesis using poll_interval_pos [of "dd_env w" "dd_parse_duration w"] by simp
    next
      case False
      then have "(timeout + 1) * 1 \<le> (timeout + 1) * ?I" using poll_interval_pos [of "dd_env w" "dd_parse_duration w"] by (intro mult_left_mono) simp_all
      then have "timeout + 1 \<le> (timeout + 1) * ?I" by (simp only: mult_1_right)
      moreover have "int (nat (timeout + 1)) = timeout + 1" using False by simp
      ultimately show ?thesis by (simp only:)
    qed
    then show ?thesis using h by (intro monitor_returns_aux [OF assms, where cs = "[]" and h = h and k = "nat (timeout + 1)"]) simp_all
  qed
  have "\<exists>r. deliver lib w a wt s0 = Some r" for a wt s0
  proof (cases "prepare lib w a wt (call w (CallNotify wt ''task'' (a_id a)) s0)")
    case (Inr s1)
    then show ?thesis
      using mon [OF Inr, of "monitorTimeout (dd_env w) (dd_parse_duration w)"] by (auto simp: deliver_def)
  qed (simp add: deliver_def)
  then have "deliver lib w a wt s0 \<noteq> None" for a wt s0 by simp
  then show ?thesis by (auto simp: Submit_def Let_def split: sum.splits prod.splits option.splits)
qed

theorem submit_returns_witness:
  "\<exists>r. Submit list_fsm ((demo_deps StatusPass)\<lparr>dd_now := (\<lambda>h. 30 * Second * int (count_list h CallWait)),
     dd_check_runs := (\<lambda>_. Inr [])\<rparr>) LockFine ''as'' '''' demo_pipeline demo_pstate = Some r"
proof -
  let ?w = "(demo_deps StatusPass)\<lparr>dd_now := (\<lambda>h. 30 * Second * int (count_list h CallWait)), dd_check_runs := (\<lambda>_. Inr [])\<rparr>"
  have "monitorPollInterval (dd_env ?w) (dd_parse_duration ?w) = 30 * Second"
    by (simp add: monitorPollInterval_def env_duration_def demo_deps_def getenv_def TrimSpace_def)
  then have "ticking ?w" by (simp add: ticking_def algebra_simps)
  from submit_returns [OF this, of list_fsm LockFine "''as''" "''''" demo_pipeline demo_pstate] show ?thesis by blast
qed

end
