(* ===== verification/Delivery_Lock.thy ===== *)
theory Delivery_Lock
  imports Pipeline
begin

text \<open>
  The two locks of a submission under concurrency: several processes, each with its own table of worktrees in
  flight, share the lock files. A step is the entry of a \<open>Submit\<close> (\<open>submit_enter\<close>, whatever the file system answers),
  its end (\<open>submit_leave\<close>), the death of a process, which leaves its lock files behind, or the sweep of a starting
  daemon (\<open>ClearStaleLocks\<close>).
\<close>

record lock_system =
  ls_in_flight :: "nat \<Rightarrow> string list"
  ls_locks :: lock_files
  ls_running :: "(nat \<times> string \<times> gotime) list"

definition idle_system :: "lock_system" where
  "idle_system = \<lparr>ls_in_flight = (\<lambda>_. []), ls_locks = Map.empty, ls_running = []\<rparr>"

abbreviation pipeline_of :: "nat \<Rightarrow> lock_system \<Rightarrow> Pipeline" where
  "pipeline_of p x \<equiv> \<lparr>pl_in_flight = ls_in_flight x p, pl_locks = ls_locks x\<rparr>"

definition put_pipeline :: "nat \<Rightarrow> Pipeline \<Rightarrow> lock_system \<Rightarrow> lock_system" where
  "put_pipeline p pl x = x\<lparr>ls_in_flight := (ls_in_flight x)(p := pl_in_flight pl), ls_locks := pl_locks pl\<rparr>"

text \<open>With \<open>careful\<close>, a sweep happens only while every running submission is younger than the timeout.\<close>

inductive lock_step :: "bool \<Rightarrow> lock_system \<Rightarrow> lock_system \<Rightarrow> bool" for careful where
  enter: "submit_enter io now wt sid aid (pipeline_of p x) = (None, pl) \<Longrightarrow>
     lock_step careful x ((put_pipeline p pl x)\<lparr>ls_running := (p, wt, now) # ls_running x\<rparr>)"
| refused: "submit_enter io now wt sid aid (pipeline_of p x) = (Some e, pl) \<Longrightarrow> lock_step careful x (put_pipeline p pl x)"
| leave: "(p, wt, t) \<in> set (ls_running x) \<Longrightarrow>
     lock_step careful x ((put_pipeline p (submit_leave wt (pipeline_of p x)) x)\<lparr>ls_running := remove1 (p, wt, t) (ls_running x)\<rparr>)"
| crash: "lock_step careful x (x\<lparr>ls_in_flight := (ls_in_flight x)(p := []), ls_running := filter (\<lambda>r. fst r \<noteq> p) (ls_running x)\<rparr>)"
| sweep: "(careful \<Longrightarrow> \<forall>(p, wt, t)\<in>set (ls_running x). now - t \<le> timeout) \<Longrightarrow>
     lock_step careful x (x\<lparr>ls_locks := ClearStaleLocks now timeout wts (ls_locks x)\<rparr>)"

abbreviation lock_of :: "nat \<times> string \<times> gotime \<Rightarrow> string" where
  "lock_of r \<equiv> lockPath (fst (snd r))"

definition lock_inv :: "lock_system \<Rightarrow> bool" where
  "lock_inv x \<longleftrightarrow> distinct (map lock_of (ls_running x)) \<and>
     (\<forall>r\<in>set (ls_running x). \<exists>meta. ls_locks x (lock_of r) = Some (Some meta) \<and> lm_locked_at meta = snd (snd r))"

definition flight_inv :: "lock_system \<Rightarrow> bool" where
  "flight_inv x \<longleftrightarrow> distinct (map (\<lambda>r. (fst r, fst (snd r))) (ls_running x)) \<and>
     (\<forall>r\<in>set (ls_running x). fst (snd r) \<in> set (ls_in_flight x (fst r)))"

lemma submit_enter_ok:
  assumes "submit_enter io now wt sid aid p = (None, pl)"
  shows "wt \<notin> set (pl_in_flight p) \<and> pl_in_flight pl = wt # pl_in_flight p \<and> pl_locks p (lockPath wt) = None \<and>
    pl_locks pl = (pl_locks p)(lockPath wt \<mapsto> Some \<lparr>lm_session_id = sid, lm_assignment_id = aid, lm_locked_at = now\<rparr>)"
  using assms by (auto simp: submit_enter_def acquire_def release_def IsLocked_def Lock_def Let_def split: lock_io.splits if_splits prod.splits option.splits)

lemma submit_enter_refused:
  assumes "submit_enter io now wt sid aid p = (Some e, pl)"
  shows "set (pl_in_flight pl) = set (pl_in_flight p) \<and> (\<forall>f v. pl_locks p f = Some v \<longrightarrow> pl_locks pl f = Some v)"
  using assms by (auto simp: submit_enter_def acquire_def release_def IsLocked_def Lock_def Let_def split: lock_io.splits if_splits prod.splits option.splits)

lemma clear_keeps_fresh:
  "fs f = Some (Some meta) \<Longrightarrow> now - lm_locked_at meta \<le> timeout \<Longrightarrow> ClearStaleLocks now timeout wts fs f = Some (Some meta)"
proof (induction wts arbitrary: fs)
  case (Cons wt wts)
  then have "snd (CheckTimeout now wt timeout fs) f = Some (Some meta)"
    by (auto simp: CheckTimeout_def ReadLock_def Unlock_def split: option.splits)
  then show ?case using Cons by (simp add: ClearStaleLocks_def)
qed (simp add: ClearStaleLocks_def)

lemma clear_keeps_unreadable: "fs f = Some None \<Longrightarrow> ClearStaleLocks now timeout wts fs f = Some None"
proof (induction wts arbitrary: fs)
  case (Cons wt wts)
  then have "snd (CheckTimeout now wt timeout fs) f = Some None"
    by (auto simp: CheckTimeout_def ReadLock_def Unlock_def split: option.splits)
  then show ?case using Cons by (simp add: ClearStaleLocks_def)
qed (simp add: ClearStaleLocks_def)

lemma distinct_remove1_key: "distinct (map f xs) \<Longrightarrow> x \<in> set xs \<Longrightarrow> y \<in> set (remove1 x xs) \<Longrightarrow> f y \<noteq> f x"
  by (induction xs) (auto split: if_splits, metis image_eqI)

lemma distinct_map_remove1: "distinct (map f xs) \<Longrightarrow> distinct (map f (remove1 x xs))"
proof (induction xs)
  case (Cons a xs)
  then show ?case using set_remove1_subset [of x xs] by (auto simp del: set_remove1_eq)
qed simp

lemma lock_inv_step: "lock_step True x y \<Longrightarrow> lock_inv x \<Longrightarrow> lock_inv y"
proof (induction rule: lock_step.induct)
  case (enter io now wt sid aid p x pl)
  from submit_enter_ok [OF enter(1)] enter(2) show ?case
    by (auto simp: lock_inv_def put_pipeline_def)
next
  case (refused io now wt sid aid p x e pl)
  from submit_enter_refused [OF refused(1)] refused(2) show ?case
    by (fastforce simp: lock_inv_def put_pipeline_def)
next
  case (leave p wt t x)
  let ?rest = "remove1 (p, wt, t) (ls_running x)"
  have d: "distinct (map lock_of (ls_running x))" using leave(2) by (simp add: lock_inv_def)
  have ne: "lock_of r \<noteq> lockPath wt" if "r \<in> set ?rest" for r
    using distinct_remove1_key [OF d leave(1) that] by simp
  have sub: "r \<in> set (ls_running x)" if "r \<in> set ?rest" for r using that set_remove1_subset by fast
  show ?case
    unfolding lock_inv_def put_pipeline_def submit_leave_def release_def Unlock_def
    using distinct_map_remove1 [OF d] ne sub leave(2) by (auto simp: lock_inv_def simp del: set_remove1_eq)
next
  case (crash x p)
  then show ?case by (auto simp: lock_inv_def distinct_map_filter)
next
  case (sweep x now timeout wts)
  then show ?case by (fastforce simp: lock_inv_def intro!: clear_keeps_fresh)
qed

lemma flight_inv_step: "lock_step b x y \<Longrightarrow> flight_inv x \<Longrightarrow> flight_inv y"
proof (induction rule: lock_step.induct)
  case (enter io now wt sid aid p x pl)
  from submit_enter_ok [OF enter(1)] enter(2) show ?case
    by (auto simp: flight_inv_def put_pipeline_def)
next
  case (refused io now wt sid aid p x e pl)
  from submit_enter_refused [OF refused(1)] refused(2) show ?case
    by (auto simp: flight_inv_def put_pipeline_def)
next
  case (leave p wt t x)
  let ?rest = "remove1 (p, wt, t) (ls_running x)" and ?key = "\<lambda>r. (fst r, fst (snd r))"
  have d: "distinct (map ?key (ls_running x))" using leave(2) by (simp add: flight_inv_def)
  have ne: "?key r \<noteq> (p, wt)" if "r \<in> set ?rest" for r using distinct_remove1_key [OF d leave(1) that] by simp
  have sub: "r \<in> set (ls_running x)" if "r \<in> set ?rest" for r using that set_remove1_subset by fast
  have "fst (snd r) \<in> set (filter (\<lambda>y. fst r = p \<longrightarrow> y \<noteq> wt) (ls_in_flight x (fst r)))" if "r \<in> set ?rest" for r
    using ne [OF that] sub [OF that] leave(2) by (auto simp: flight_inv_def)
  then show ?case
    using distinct_map_remove1 [OF d] by (auto simp: flight_inv_def put_pipeline_def submit_leave_def release_def simp del: set_remove1_eq)
next
  case (crash x p)
  then show ?case by (auto simp: flight_inv_def distinct_map_filter)
qed (simp add: flight_inv_def)

lemma lock_inv_reachable: "(lock_step True)\<^sup>*\<^sup>* idle_system x \<Longrightarrow> lock_inv x"
  by (induction rule: rtranclp_induct) (simp add: lock_inv_def idle_system_def, erule (1) lock_inv_step)

lemma flight_inv_reachable: "(lock_step b)\<^sup>*\<^sup>* idle_system x \<Longrightarrow> flight_inv x"
  by (induction rule: rtranclp_induct) (simp add: flight_inv_def idle_system_def, erule (1) flight_inv_step)




end
