(* ===== verification/Submit_Handler.thy ===== *)
theory Submit_Handler
  imports Pipeline
begin

text \<open>
  The daemon's endpoint \<open>POST /api/v1/assignments/{id}/submit\<close> (\<open>internal/daemon/submit_handler.go\<close>), which starts the
  delivery pipeline. It looks the assignment up, or creates it on the first submit from what git says of the
  worktree, checks that it belongs to the session of the request and calls \<open>Submit\<close>. Git, \<open>url.Parse\<close> and
  the decoding of the request's body are parameters; what other workers do to the database while git runs is one of them.
\<close>

section \<open>The repository of a worktree\<close>

definition TrimSuffix :: "string \<Rightarrow> string \<Rightarrow> string" where
  "TrimSuffix s suf = (if HasSuffix s suf then take (length s - length suf) s else s)"

definition normalizeRepoURL :: "(string \<Rightarrow> string + string) \<Rightarrow> string \<Rightarrow> string + string" where
  "normalizeRepoURL parseURL raw0 =
     (let raw = TrimSpace raw0 in
      if raw = '''' then Inl ''remote origin url is empty''
      else if HasPrefix raw ''git@'' then
        (case cut_at (CHR '':'') raw of
           None \<Rightarrow> Inl (''unexpected git ssh url: '' @ raw)
         | Some (_, rest) \<Rightarrow> Inr (TrimSuffix rest ''.git''))
      else if HasPrefix raw ''http://'' \<or> HasPrefix raw ''https://'' then
        (case parseURL raw of
           Inl e \<Rightarrow> Inl (''parse url: '' @ e)
         | Inr upath \<Rightarrow>
             let path = TrimSuffix (TrimPrefix upath ''/'') ''.git''
             in if path = '''' \<or> \<not> Contains path ''/'' then Inl (''unexpected https url: '' @ raw) else Inr path)
      else Inl (''unsupported remote url: '' @ raw))"

record submit_world =
  sw_git :: "string \<Rightarrow> string list \<Rightarrow> string + string"
  sw_parse_url :: "string \<Rightarrow> string + string"
  sw_others :: "review_db \<Rightarrow> review_db"
  sw_db_open :: bool
  sw_pipeline :: bool

definition inferRepoBranchFromWorktree :: "submit_world \<Rightarrow> string \<Rightarrow> string + (string \<times> string)" where
  "inferRepoBranchFromWorktree sw worktree =
     pthen (sw_git sw worktree [''rev-parse'', ''--abbrev-ref'', ''HEAD'']) (\<lambda>branch.
     pthen (sw_git sw worktree [''config'', ''--get'', ''remote.origin.url'']) (\<lambda>remote.
     pthen (normalizeRepoURL (sw_parse_url sw) (TrimSpace remote)) (\<lambda>repo.
     Inr (repo, TrimSpace branch))))"

section \<open>The handler\<close>

record submitRequest =
  sq_session_id :: string
  sq_summary :: string
  sq_files :: string
  sq_worktree :: string

record submit_http =
  sh_method :: string
  sh_path :: string
  sh_body :: "submitRequest option"

type_synonym response = "int \<times> string"

text \<open>The row that the lazy \<open>INSERT\<close> makes: the other columns have the defaults of the schema.\<close>

definition lazy_assignment :: "gotime \<Rightarrow> string \<Rightarrow> string \<Rightarrow> string \<Rightarrow> string \<Rightarrow> string \<Rightarrow> string \<Rightarrow> assignment_row" where
  "lazy_assignment now aid sid agentID repo branch worktree = new_assignment
     \<lparr>a_id = aid, a_session_id = sid, a_agent_id = agentID, a_repo = repo, a_branch = branch, a_worktree = worktree,
      a_task_id = '''', a_state = assignmentStateActive, a_blocked_reason = '''', a_substatus = '''', a_version = 1,
      a_delivery_state = ''idle'', a_started_at = truncate_second now, a_ended_at = None, a_end_reason = '''',
      a_superseded_by = None\<rparr>"

text \<open>The part of \<open>handleSubmit\<close> that finds or creates the assignment: its owner and its worktree.\<close>

definition submit_assignment ::
  "submit_world \<Rightarrow> faults \<Rightarrow> gotime \<Rightarrow> string \<Rightarrow> submitRequest \<Rightarrow> review_db \<Rightarrow> (response + (string \<times> string)) \<times> review_db" where
  "submit_assignment sw flt now aid req d =
     (case stmt flt ''find assignment'' (Inr (sql_row (\<lambda>a. a_id a = aid \<and> open_asg a) (agent_assignments (agents d)))) of
        Inl e \<Rightarrow> (Inl (500, ''database error''), d)
      | Inr (Some a) \<Rightarrow> (Inr (a_session_id a, a_worktree a), d)
      | Inr None \<Rightarrow>
        (case stmt flt ''find session'' (Inr (sql_row (\<lambda>s. s_session_id s = sq_session_id req \<and> open_session s) (agent_sessions (agents d)))) of
           Inl e \<Rightarrow> (Inl (500, ''database error''), d)
         | Inr None \<Rightarrow> (Inl (404, ''assignment not found''), d)
         | Inr (Some s) \<Rightarrow>
             if TrimSpace (sq_worktree req) = '''' then (Inl (404, ''assignment not found''), d)
             else let d1 = sw_others sw d in
             case inferRepoBranchFromWorktree sw (sq_worktree req) of
               Inl e \<Rightarrow> (Inl (400, ''worktree inference failed: '' @ e), d1)
             | Inr (repo, branch) \<Rightarrow>
               (case stmt flt ''create assignment'' (insert_assignment
                      (lazy_assignment now aid (sq_session_id req) (s_agent_id s) repo branch (sq_worktree req)) (agents d1)) of
                  Inl e \<Rightarrow> (Inl (500, ''create assignment failed''), d1)
                | Inr ag \<Rightarrow> (Inr (sq_session_id req, sq_worktree req), d1\<lparr>agents := ag\<rparr>))))"

definition handleSubmit ::
  "fsm_lib \<Rightarrow> PipelineDeps \<Rightarrow> lock_io \<Rightarrow> submit_world \<Rightarrow> gotime \<Rightarrow> submit_http \<Rightarrow> Pipeline \<Rightarrow> pstate \<Rightarrow>
   (response \<times> Pipeline \<times> pstate) option" where
  "handleSubmit lib w io sw now h p s =
     (let path = TrimPrefix (sh_path h) ''/api/v1/assignments/''; aid = TrimSuffix path ''/submit'' in
      if sh_method h \<noteq> ''POST'' then Some ((405, ''method not allowed''), p, s)
      else if aid = '''' \<or> aid = path then Some ((400, ''missing assignment id''), p, s)
      else case sh_body h of
        None \<Rightarrow> Some ((400, ''invalid request body''), p, s)
      | Some req \<Rightarrow>
        if sq_session_id req = '''' then Some ((400, ''session_id required''), p, s)
        else if \<not> sw_db_open sw then Some ((500, ''database not available''), p, s)
        else case submit_assignment sw (faults_now w s) now aid req (ps_db s) of (found, d) \<Rightarrow>
          let s1 = s\<lparr>ps_db := d\<rparr> in
          case found of
            Inl r \<Rightarrow> Some (r, p, s1)
          | Inr (owner, worktree) \<Rightarrow>
            if owner \<noteq> sq_session_id req then Some ((403, ''session does not own this assignment''), p, s1)
            else if \<not> sw_pipeline sw then Some ((500, ''delivery pipeline not initialized''), p, s1)
            else map_option (\<lambda>(err, p', s').
                (case err of
                   None \<Rightarrow> (202, ''submitted'')
                 | Some e \<Rightarrow> if e = ErrPipelineBusy then (409, ''delivery pipeline already running'') else (500, ''pipeline error''),
                 p', s'))
              (Submit lib w io aid worktree p s1))"

section \<open>What a submission needs\<close>

lemma TrimSuffix_changes: "TrimSuffix s suf \<noteq> s \<Longrightarrow> s = TrimSuffix s suf @ suf"
  unfolding TrimSuffix_def HasSuffix_def by (metis append_take_drop_id)

lemma sql_row_Some: "sql_row P rows = Some r \<Longrightarrow> r \<in> set rows \<and> P r"
  unfolding sql_row_def by (metis find_Some_iff nth_mem)

lemma sql_row_None: "sql_row P rows = None \<longleftrightarrow> (\<forall>r\<in>set rows. \<not> P r)"
  by (auto simp: sql_row_def find_None_iff)

text \<open>A new assignment: the session of the request is open, git knows the worktree, and the row is the only change.\<close>

definition first_submit :: "submit_world \<Rightarrow> gotime \<Rightarrow> string \<Rightarrow> submitRequest \<Rightarrow> review_db \<Rightarrow> assignment_row \<Rightarrow> review_db \<Rightarrow> bool" where
  "first_submit sw now aid req d a d' \<longleftrightarrow>
     (\<exists>s repo branch. s \<in> set (agent_sessions (agents d)) \<and> s_session_id s = sq_session_id req \<and> open_session s \<and>
        TrimSpace (sq_worktree req) \<noteq> '''' \<and> inferRepoBranchFromWorktree sw (sq_worktree req) = Inr (repo, branch) \<and>
        a = lazy_assignment now aid (sq_session_id req) (s_agent_id s) repo branch (sq_worktree req) \<and>
        aid \<notin> a_id ` set (agent_assignments (agents (sw_others sw d))) \<and>
        live_tasks_unique (agent_assignments (agents (sw_others sw d)) @ [a]) \<and>
        d' = (sw_others sw d)\<lparr>agents := (agents (sw_others sw d))
          \<lparr>agent_assignments := agent_assignments (agents (sw_others sw d)) @ [a]\<rparr>\<rparr>)"

lemma lazy_assignment_fields [simp]:
  "a_id (lazy_assignment now aid sid ag repo br wt) = aid" "a_session_id (lazy_assignment now aid sid ag repo br wt) = sid"
  "a_agent_id (lazy_assignment now aid sid ag repo br wt) = ag" "a_worktree (lazy_assignment now aid sid ag repo br wt) = wt"
  "a_task_id (lazy_assignment now aid sid ag repo br wt) = ''''" "a_version (lazy_assignment now aid sid ag repo br wt) = 1"
  "open_asg (lazy_assignment now aid sid ag repo br wt)"
  by (simp_all add: lazy_assignment_def new_assignment_def AgentAssignment.defs assignment_row.defs open_asg_def)

lemma submit_assignment_found:
  assumes "submit_assignment sw flt now aid req d = (Inr (owner, wt), d')"
  shows "\<exists>a\<in>set (agent_assignments (agents d')). a_id a = aid \<and> open_asg a \<and> a_session_id a = owner \<and> a_worktree a = wt \<and>
    (if \<exists>b\<in>set (agent_assignments (agents d)). a_id b = aid \<and> open_asg b then d' = d
     else owner = sq_session_id req \<and> first_submit sw now aid req d a d')"
proof (cases "sql_row (\<lambda>a. a_id a = aid \<and> open_asg a) (agent_assignments (agents d))")
  case (Some a)
  with assms show ?thesis
    using sql_row_Some [OF Some] by (auto simp: submit_assignment_def stmt_def split: option.splits)
next
  case None
  then have no: "\<not> (\<exists>b\<in>set (agent_assignments (agents d)). a_id b = aid \<and> open_asg b)"
    by (simp add: sql_row_None)
  from None assms obtain s repo br where s: "sql_row (\<lambda>s. s_session_id s = sq_session_id req \<and> open_session s) (agent_sessions (agents d)) = Some s"
    and wt: "TrimSpace (sq_worktree req) \<noteq> ''''" "owner = sq_session_id req" "wt = sq_worktree req"
    and inf: "inferRepoBranchFromWorktree sw (sq_worktree req) = Inr (repo, br)"
    and ins: "\<exists>ag. insert_assignment (lazy_assignment now aid (sq_session_id req) (s_agent_id s) repo br (sq_worktree req))
      (agents (sw_others sw d)) = Inr ag \<and> d' = (sw_others sw d)\<lparr>agents := ag\<rparr>"
    by (auto simp: submit_assignment_def stmt_def Let_def split: option.splits sum.splits if_splits)
  show ?thesis
    using ins wt inf sql_row_Some [OF s] no
    by (auto simp: insert_assignment_def first_submit_def split: if_splits)
qed


lemma handleSubmit_found:
  assumes run: "handleSubmit lib w io sw now h p s = Some (r, p', s')"
    and went: "(p', ps_calls s') \<noteq> (p, ps_calls s) \<or> fst r \<in> {202, 403, 409}"
  obtains aid req owner wt d where "sh_method h = ''POST''" and "TrimPrefix (sh_path h) ''/api/v1/assignments/'' = aid @ ''/submit''"
    and "aid \<noteq> ''''" and "sh_body h = Some req" and "sq_session_id req \<noteq> ''''"
    and "submit_assignment sw (faults_now w s) now aid req (ps_db s) = (Inr (owner, wt), d)"
    and "owner \<noteq> sq_session_id req \<and> r = (403, ''session does not own this assignment'') \<and> p' = p \<and> s' = s\<lparr>ps_db := d\<rparr> \<or>
      owner = sq_session_id req \<and> (\<exists>err. Submit lib w io aid wt p (s\<lparr>ps_db := d\<rparr>) = Some (err, p', s') \<and>
        r = (case err of None \<Rightarrow> (202, ''submitted'')
          | Some e \<Rightarrow> if e = ErrPipelineBusy then (409, ''delivery pipeline already running'') else (500, ''pipeline error'')))"
proof -
  let ?path = "TrimPrefix (sh_path h) ''/api/v1/assignments/''"
  let ?aid = "TrimSuffix ?path ''/submit''"
  have codes: "fst r \<in> {400, 404, 500}" if "submit_assignment sw flt now aid req d = (Inl r, d')" for flt aid req d d'
    using that by (auto simp: submit_assignment_def stmt_def Let_def split: option.splits sum.splits if_splits prod.splits)
  have ok: "sh_method h = ''POST''" "?aid \<noteq> ''''" "?aid \<noteq> ?path"
    using run went by (auto simp: handleSubmit_def Let_def split: if_splits)
  then obtain req where req: "sh_body h = Some req" "sq_session_id req \<noteq> ''''" "sw_db_open sw"
    using run went by (auto simp: handleSubmit_def Let_def split: if_splits option.splits)
  obtain found d where f: "submit_assignment sw (faults_now w s) now ?aid req (ps_db s) = (found, d)"
    by fastforce
  obtain owner wt where found: "found = Inr (owner, wt)"
  proof (cases found)
    case (Inl x)
    then show thesis
      using run went ok req f codes [of "faults_now w s" ?aid req "ps_db s" d] by (auto simp: handleSubmit_def Let_def)
  qed auto
  show thesis
  proof (rule that [OF ok(1) TrimSuffix_changes [OF ok(3)] ok(2) req(1,2) f [unfolded found]])
    show "owner \<noteq> sq_session_id req \<and> r = (403, ''session does not own this assignment'') \<and> p' = p \<and> s' = s\<lparr>ps_db := d\<rparr> \<or>
      owner = sq_session_id req \<and> (\<exists>err. Submit lib w io ?aid wt p (s\<lparr>ps_db := d\<rparr>) = Some (err, p', s') \<and>
        r = (case err of None \<Rightarrow> (202, ''submitted'')
          | Some e \<Rightarrow> if e = ErrPipelineBusy then (409, ''delivery pipeline already running'') else (500, ''pipeline error'')))"
      using run went ok req f found by (auto simp: handleSubmit_def Let_def split: if_splits)
  qed
qed


text \<open>
  C31: the assignment that the endpoint creates on a first submit keeps the invariant of the agent tables exactly if its
  session is still open and has no other open assignment. The code checks the first before git runs, and the
  second never: a session that works on a task and submits under a new assignment id then has two open assignments, which
  no operation of the repository allows.
\<close>

theorem lazy_submit_invariant:
  assumes inv: "agent_inv (agents (sw_others sw d))"
    and new: "\<And>a. a \<in> set (agent_assignments (agents d)) \<Longrightarrow> a_id a = aid \<Longrightarrow> \<not> open_asg a"
    and found: "submit_assignment sw flt now aid req d = (Inr (owner, wt), d')"
  shows "agent_inv (agents d') \<longleftrightarrow>
    (\<exists>s\<in>set (agent_sessions (agents (sw_others sw d))). s_session_id s = sq_session_id req \<and> open_session s) \<and>
    (\<forall>a\<in>set (agent_assignments (agents (sw_others sw d))). open_asg a \<longrightarrow> a_session_id a \<noteq> sq_session_id req)"
proof -
  let ?ag = "agents (sw_others sw d)"
  from submit_assignment_found [OF found] new obtain a where "first_submit sw now aid req d a d'" by (auto split: if_splits)
  then have a: "a_id a = aid" "a_session_id a = sq_session_id req" "open_asg a" "a_version a = 1" "aid \<notin> a_id ` set (agent_assignments ?ag)"
    "live_tasks_unique (agent_assignments ?ag @ [a])" and d': "agents d' = ?ag\<lparr>agent_assignments := agent_assignments ?ag @ [a]\<rparr>"
    unfolding first_submit_def by auto
  have ne: "a \<notin> set (agent_assignments ?ag)" using a(1,5) by auto
  show ?thesis
  proof
    assume i: "agent_inv (agents d')"
    then show "(\<exists>s\<in>set (agent_sessions ?ag). s_session_id s = sq_session_id req \<and> open_session s) \<and>
        (\<forall>a\<in>set (agent_assignments ?ag). open_asg a \<longrightarrow> a_session_id a \<noteq> sq_session_id req)"
      using a ne unfolding agent_inv_def d' by auto
  next
    assume "(\<exists>s\<in>set (agent_sessions ?ag). s_session_id s = sq_session_id req \<and> open_session s) \<and>
        (\<forall>a\<in>set (agent_assignments ?ag). open_asg a \<longrightarrow> a_session_id a \<noteq> sq_session_id req)"
    then show "agent_inv (agents d')"
      using inv a unfolding agent_inv_def d' by auto
  qed
qed


definition submit_demo_world :: submit_world where
  "submit_demo_world = \<lparr>sw_git = (\<lambda>_ args. if args = [''config'', ''--get'', ''remote.origin.url''] then Inr ''git@host:o/r.git'' else Inr ''main''),
     sw_parse_url = Inl, sw_others = (\<lambda>d. d), sw_db_open = True, sw_pipeline = True\<rparr>"

definition submit_demo :: "string \<Rightarrow> submit_http" where
  "submit_demo aid = \<lparr>sh_method = ''POST'', sh_path = ''/api/v1/assignments/'' @ aid @ ''/submit'',
     sh_body = Some \<lparr>sq_session_id = ''se'', sq_summary = '''', sq_files = '''', sq_worktree = ''/w''\<rparr>\<rparr>"

lemma demo_submission:
  "case handleSubmit list_fsm (demo_deps StatusPass) LockFine submit_demo_world 5 (submit_demo ''as'') demo_pipeline demo_pstate of
     Some (r, p', s') \<Rightarrow> fst r = 202 | None \<Rightarrow> False"
  by code_simp



lemma demo_pstate_inv: "agent_inv (agents (ps_db demo_pstate))"
  by (simp add: agent_inv_def demo_pstate_def empty_review_db_def empty_agent_db_def demo_session_def demo_assignment_def
      new_assignment_def AgentAssignment.defs assignment_row.defs live_tasks_unique_def open_asg_def open_session_def)

lemma demo_first_submit:
  "submit_assignment submit_demo_world no_faults 5 ''new'' (the (sh_body (submit_demo ''new''))) (ps_db demo_pstate) =
     (Inr (''se'', ''/w''), (ps_db demo_pstate)\<lparr>agents := (agents (ps_db demo_pstate))\<lparr>agent_assignments :=
        [new_assignment demo_assignment, lazy_assignment 5 ''new'' ''se'' ''codex'' ''o/r'' ''main'' ''/w'']\<rparr>\<rparr>)"
proof -
  have i: "inferRepoBranchFromWorktree submit_demo_world ''/w'' = Inr (''o/r'', ''main'')" by code_simp
  have t: "TrimSpace ''/w'' \<noteq> ''''" by code_simp
  have o: "sw_others submit_demo_world d = d" for d by (simp add: submit_demo_world_def)
  show ?thesis
    by (simp add: submit_assignment_def i t o submit_demo_def demo_pstate_def empty_review_db_def empty_agent_db_def demo_session_def
        demo_assignment_def new_assignment_def AgentAssignment.defs assignment_row.defs open_session_def stmt_def no_faults_def sql_row_def
        insert_assignment_def live_tasks_unique_def lazy_assignment_def open_asg_def Let_def)
qed

theorem lazy_submit_invariant_witness:
  "agent_inv (agents (ps_db demo_pstate)) \<and> (\<exists>r d'. submit_assignment submit_demo_world no_faults 5 ''new''
     (the (sh_body (submit_demo ''new''))) (ps_db demo_pstate) = (Inr r, d') \<and> \<not> agent_inv (agents d'))"
proof -
  have others: "sw_others submit_demo_world (ps_db demo_pstate) = ps_db demo_pstate" by (simp add: submit_demo_world_def)
  have old: "agent_assignments (agents (ps_db demo_pstate)) = [new_assignment demo_assignment]" by (simp add: demo_pstate_def)
  have a: "a_id (new_assignment demo_assignment) = ''as''" "open_asg (new_assignment demo_assignment)"
    "a_session_id (new_assignment demo_assignment) = ''se''"
    by (simp_all add: new_assignment_def demo_assignment_def AgentAssignment.defs assignment_row.defs open_asg_def)
  have s: "sq_session_id (the (sh_body (submit_demo ''new''))) = ''se''" by (simp add: submit_demo_def)
  have inv: "agent_inv (agents (sw_others submit_demo_world (ps_db demo_pstate)))" by (simp add: others demo_pstate_inv)
  have new: "\<not> open_asg x" if "x \<in> set (agent_assignments (agents (ps_db demo_pstate)))" "a_id x = ''new''" for x
    using that by (auto simp: old new_assignment_def demo_assignment_def AgentAssignment.defs assignment_row.defs)
  have "\<not> agent_inv (agents ((ps_db demo_pstate)\<lparr>agents := (agents (ps_db demo_pstate))\<lparr>agent_assignments :=
        [new_assignment demo_assignment, lazy_assignment 5 ''new'' ''se'' ''codex'' ''o/r'' ''main'' ''/w'']\<rparr>\<rparr>))"
    using lazy_submit_invariant [OF inv new demo_first_submit] a(2,3) by (simp add: others old s)
  with demo_first_submit demo_pstate_inv show ?thesis by blast
qed

end
