(* ===== verification/Session_Service.thy ===== *)
theory Session_Service
  imports Session_Gate Review_Store "HOL-Library.AList"
begin

text \<open>
  The daemon's gRPC services over the stores (\<open>internal/daemon/grpc\<close>): sessions (\<open>sessions.go\<close>), their recovery after
  a restart (\<open>sessions_recovery.go\<close>), assignments (\<open>assignments.go\<close>), gate findings (\<open>gate.go\<close>), feedback
  (\<open>feedback.go\<close>, \<open>source_status.go\<close>) and the readiness gate (\<open>server.go\<close>). A handler is a sequence of
  repository operations, each with its own part of the fault oracle; errors that it only logs are dropped. The
  metadata of a request maps a key to its values. The JSON form of the source statuses is a parameter.
\<close>

section \<open>Requests and answers\<close>

datatype grpc_code = InvalidArgument | NotFound | AlreadyExists | PermissionDenied | Internal | Unavailable

type_synonym metadata = "string \<Rightarrow> string list"

definition firstMD :: "metadata \<Rightarrow> string \<Rightarrow> string" where
  "firstMD md key = (case md key of [] \<Rightarrow> '''' | v # _ \<Rightarrow> v)"

definition parseInt64MD :: "metadata \<Rightarrow> string \<Rightarrow> int" where
  "parseInt64MD md key =
     (let v = firstMD md key
      in if v = '''' then 0 else case ParseInt v of None \<Rightarrow> 0 | Some n \<Rightarrow> if n < 0 then 0 else n)"

definition readinessInterceptor :: "bool \<Rightarrow> ('d \<Rightarrow> (grpc_code + 'a) \<times> 'd) \<Rightarrow> 'd \<Rightarrow> (grpc_code + 'a) \<times> 'd" where
  "readinessInterceptor ready handler d = (if \<not> ready then (Inl Unavailable, d) else handler d)"

section \<open>Sessions\<close>

record RegisterSessionRequest =
  rg_agent_id :: string
  rg_session_id :: string
  rg_client_kind :: string
  rg_tmux_session_name :: string
  rg_initial_context :: "string \<Rightarrow> string"

definition RegisterSession ::
  "(string \<Rightarrow> bool) \<Rightarrow> faults \<Rightarrow> gotime \<Rightarrow> (string \<Rightarrow> string) \<Rightarrow> RegisterSessionRequest \<Rightarrow> agent_db \<Rightarrow>
   (grpc_code + (string \<times> string)) \<times> agent_db" where
  "RegisterSession parse_uuid flt now uuid req d =
     (if rg_agent_id req = '''' then (Inl InvalidArgument, d)
      else let sid = (if rg_session_id req = '''' then uuid ''session'' else rg_session_id req);
               kind = (if rg_client_kind req = '''' then ''unknown'' else rg_client_kind req);
               tmux = rg_tmux_session_name req; reg = at_site ''register'' flt
      in case (if tmux \<noteq> '''' then RegisterWithTmux parse_uuid reg now (uuid ''secret'') sid (rg_agent_id req) kind tmux d
               else Register parse_uuid reg now (uuid ''secret'') sid (rg_agent_id req) kind d) of
        (Inl e, d1) \<Rightarrow> (Inl Internal, d1)
      | (Inr secret, d1) \<Rightarrow>
        let ctx = rg_initial_context req; cwd = ctx ''cwd''; repo = ctx ''repo''; branch = ctx ''branch'';
            d2 = (if repo \<noteq> '''' \<or> branch \<noteq> ''''
              then snd (UpdateSessionRepoBranchAttribution (at_site ''attribution'' flt) sid repo branch ''launch_context'' d1) else d1);
            d3 = (if cwd \<noteq> '''' \<or> repo \<noteq> ''''
              then snd (AttachAgentAssignment (at_site ''attach'' flt) now (at_site ''attach'' uuid) (Some (zero_assignment
                \<lparr>a_id := uuid ''assignment'', a_session_id := sid, a_agent_id := rg_agent_id req, a_repo := repo,
                 a_worktree := cwd, a_task_id := ctx ''task_id'', a_substatus := ''in_progress''\<rparr>)) d2) else d2)
        in (Inr (sid, secret), snd (PromoteSessionToTrackedAssignment (at_site ''promote'' flt) now (at_site ''promote'' uuid) sid d3)))"

text \<open>What a heartbeat does with the metadata of the request, in the order of the code.\<close>

definition heartbeat_attribution ::
  "faults \<Rightarrow> gotime \<Rightarrow> (string \<Rightarrow> string) \<Rightarrow> string \<Rightarrow> metadata \<Rightarrow> agent_db \<Rightarrow> agent_db" where
  "heartbeat_attribution flt now uuid sid md d =
     (let repo = firstMD md ''x-repo''; branch = firstMD md ''x-branch'';
          source0 = NormalizeAttributionSource (firstMD md ''x-attribution-source'');
          source = (if source0 = '''' \<or> source0 = ''unknown'' then ''explicit_heartbeat'' else source0)
      in if repo = '''' \<and> branch = '''' then d
         else case UpdateSessionRepoBranchAttribution (at_site ''attribution'' flt) sid repo branch source d of
           (Inl e, d1) \<Rightarrow> d1
         | (Inr _, d1) \<Rightarrow> snd (PromoteSessionToTrackedAssignment (at_site ''promote'' flt) now (at_site ''promote'' uuid) sid d1))"

definition heartbeat_counters :: "metadata \<Rightarrow> ActivityCounters" where
  "heartbeat_counters md =
     \<lparr>RuntimeBytes = parseInt64MD md ''x-runtime-bytes'', OutputBytes = parseInt64MD md ''x-output-bytes'',
      OutputLines = parseInt64MD md ''x-output-lines'', ToolCalls = parseInt64MD md ''x-tool-calls'',
      FileWrites = parseInt64MD md ''x-file-writes'', DiffChanges = parseInt64MD md ''x-diff-changes'',
      ProcEvents = parseInt64MD md ''x-proc-events''\<rparr>"

definition heartbeat_activity :: "faults \<Rightarrow> gotime \<Rightarrow> string \<Rightarrow> metadata \<Rightarrow> agent_db \<Rightarrow> agent_db" where
  "heartbeat_activity flt now sid md d =
     (let counters = heartbeat_counters md;
          d1 = (if OutputBytes counters > 0 then snd (UpdateSessionOutputBytes (at_site ''output'' flt) sid (OutputBytes counters) d) else d)
      in if counters_IsZero counters then d1 else snd (RecordActivitySample (at_site ''sample'' flt) now sid counters d1))"

definition heartbeat_pressure :: "faults \<Rightarrow> gotime \<Rightarrow> string \<Rightarrow> metadata \<Rightarrow> agent_db \<Rightarrow> agent_db" where
  "heartbeat_pressure flt now sid md d =
     (let v = firstMD md ''x-context-pressure'';
          d1 = (if v \<in> {''normal'', ''warning'', ''critical''} then snd (SetContextPressure (at_site ''pressure'' flt) sid v d) else d)
      in if firstMD md ''x-compact-increment'' = ''1'' then snd (RecordCompact (at_site ''compact'' flt) now sid d1) else d1)"

definition heartbeat_status :: "faults \<Rightarrow> gotime \<Rightarrow> string \<Rightarrow> metadata \<Rightarrow> agent_db \<Rightarrow> agent_db" where
  "heartbeat_status flt now sid md d =
     (case md ''x-inferred-status'' of
        [] \<Rightarrow> d
      | v # _ \<Rightarrow> let normalized = NormalizeStatus v
                 in if normalized = '''' then d else snd (UpdateInferredStatus (at_site ''status'' flt) now sid normalized d))"

definition Svc_Heartbeat ::
  "faults \<Rightarrow> gotime \<Rightarrow> (string \<Rightarrow> string) \<Rightarrow> string \<Rightarrow> bool \<Rightarrow> metadata option \<Rightarrow> agent_db \<Rightarrow> (grpc_code + unit) \<times> agent_db" where
  "Svc_Heartbeat flt now uuid sid markProgress md d =
     (if sid = '''' then (Inl InvalidArgument, d)
      else let secret = (case md of None \<Rightarrow> '''' | Some m \<Rightarrow> firstMD m ''x-heartbeat-secret'')
      in case Store_Heartbeat (at_site ''heartbeat'' flt) now uuid sid secret markProgress d of
        (Inl e, d1) \<Rightarrow> (Inl (if e = ErrInvalidHeartbeatSecret then PermissionDenied else Internal), d1)
      | (Inr _, d1) \<Rightarrow> (Inr (), case md of None \<Rightarrow> d1 | Some m \<Rightarrow>
          heartbeat_status flt now sid m (heartbeat_pressure flt now sid m (heartbeat_activity flt now sid m
            (heartbeat_attribution flt now uuid sid m d1)))))"

definition session_code :: "error \<Rightarrow> grpc_code" where
  "session_code e =
     (if e = ErrSessionNotFound then NotFound else if e = ErrSessionMismatch then PermissionDenied else Internal)"

definition ConfirmSession :: "faults \<Rightarrow> string \<Rightarrow> string \<Rightarrow> agent_db \<Rightarrow> grpc_code + unit" where
  "ConfirmSession flt sid aid d =
     (if sid = '''' then Inl InvalidArgument else if aid = '''' then Inl InvalidArgument
      else case Confirm flt sid aid d of Inl e \<Rightarrow> Inl (session_code e) | Inr u \<Rightarrow> Inr u)"

definition Svc_AttachAssignment ::
  "(string \<Rightarrow> bool) \<Rightarrow> faults \<Rightarrow> gotime \<Rightarrow> (string \<Rightarrow> string) \<Rightarrow> string \<Rightarrow> string \<Rightarrow> string \<Rightarrow> string \<Rightarrow> string \<Rightarrow> string \<Rightarrow> string \<Rightarrow> string \<Rightarrow>
   agent_db \<Rightarrow> (grpc_code + unit) \<times> agent_db" where
  "Svc_AttachAssignment parse_uuid flt now uuid sid aid repo branch worktree mode task sub d =
     (if sid = '''' then (Inl InvalidArgument, d) else if aid = '''' then (Inl InvalidArgument, d)
      else if repo = '''' \<or> branch = '''' then (Inl InvalidArgument, d)
      else case AttachAssignment parse_uuid flt now uuid sid aid repo branch worktree mode task sub d of
        (Inl e, d1) \<Rightarrow> (Inl (if e = ErrBranchNotFound then NotFound else Internal), d1)
      | (Inr _, d1) \<Rightarrow> (Inr (), d1))"

definition FinalizeSession ::
  "faults \<Rightarrow> gotime \<Rightarrow> (string \<Rightarrow> string) \<Rightarrow> string \<Rightarrow> string \<Rightarrow> AgentSessionCompletion \<Rightarrow> agent_db \<Rightarrow> (grpc_code + unit) \<times> agent_db" where
  "FinalizeSession flt now uuid sid aid c d =
     (if sid = '''' then (Inl InvalidArgument, d) else if aid = '''' then (Inl InvalidArgument, d)
      else if co_status c = '''' then (Inl InvalidArgument, d)
      else case Finalize flt now uuid sid aid c d of
        (Inl e, d1) \<Rightarrow> (Inl (session_code e), d1)
      | (Inr _, d1) \<Rightarrow> (Inr (), d1))"

datatype SessionStatus = SessionActive | SessionEnded | SessionLost | SessionExpired

record SessionView =
  sv_session_id :: string
  sv_agent_id :: string
  sv_client_kind :: string
  sv_status :: SessionStatus
  sv_started_at :: "gotime option"
  sv_last_seen_at :: "gotime option"
  sv_active :: "(string \<times> string \<times> string \<times> string \<times> string) option"

definition non_zero :: "gotime \<Rightarrow> gotime option" where
  "non_zero t = (if t = zero_time then None else Some t)"

definition GetSession :: "faults \<Rightarrow> string \<Rightarrow> agent_db \<Rightarrow> grpc_code + SessionView" where
  "GetSession flt sid d =
     (if sid = '''' then Inl InvalidArgument
      else case GetAgentSession flt sid d of
        Inl e \<Rightarrow> Inl (if e = ErrAgentSessionNotFound then NotFound else Internal)
      | Inr sess \<Rightarrow>
        let status = (if s_ended_at sess \<noteq> None
              then if s_end_reason sess = ''lost'' then SessionLost
                   else if s_end_reason sess = ''expired'' then SessionExpired else SessionEnded
              else SessionActive);
            view = (\<lambda>act. \<lparr>sv_session_id = s_session_id sess, sv_agent_id = s_agent_id sess, sv_client_kind = s_mode sess,
              sv_status = status, sv_started_at = non_zero (s_started_at sess), sv_last_seen_at = non_zero (s_last_seen_at sess),
              sv_active = act\<rparr>)
        in (case GetActiveAgentAssignment flt sid d of
          Inl e \<Rightarrow> if e = ErrAgentAssignmentNotFound then Inr (view None) else Inl Internal
        | Inr a \<Rightarrow> Inr (view (if a_id a = '''' then None
            else Some (a_id a, a_task_id a, a_repo a, a_branch a, asg_state_str (a_state a))))))"

section \<open>Recovery after a restart\<close>

text \<open>
  Every open session is marked in its own transaction, at its own time, in the order of the query; an error is logged
  and the next session follows.
\<close>

definition getActiveSessions :: "faults \<Rightarrow> agent_db \<Rightarrow> error + AgentSession list" where
  "getActiveSessions flt d =
     stmt flt ''query active sessions''
       (Inr (map scanAgentSession (sql_order_desc s_last_seen_at (filter open_session (agent_sessions d)))))"

definition recoverSession :: "faults \<Rightarrow> gotime \<Rightarrow> string \<Rightarrow> agent_db \<Rightarrow> (error + unit) \<times> agent_db" where
  "recoverSession flt now sid = MarkSessionRecoveredWithLastSeen flt now sid now now"

definition RecoverActiveSessions :: "faults \<Rightarrow> (string \<Rightarrow> gotime) \<Rightarrow> agent_db \<Rightarrow> (error + unit) \<times> agent_db" where
  "RecoverActiveSessions flt now d =
     (case getActiveSessions flt d of
        Inl e \<Rightarrow> (Inl e, d)
      | Inr sessions \<Rightarrow> (Inr (), fold (\<lambda>s d. snd (recoverSession (at_site (s_session_id s) flt) (now (s_session_id s)) (s_session_id s) d)) sessions d))"

definition IsSessionRecoverable :: "faults \<Rightarrow> string \<Rightarrow> string \<Rightarrow> agent_db \<Rightarrow> error + bool" where
  "IsSessionRecoverable flt sid aid d =
     stmt flt ''check session recoverable''
       (case sql_row (\<lambda>s. s_session_id s = sid \<and> s_agent_id s = aid) (agent_sessions d) of
          None \<Rightarrow> Inr False | Some s \<Rightarrow> Inr (s_ended_at s = None))"

section \<open>Assignments\<close>

datatype AssignmentState = AsgUnspecified | AsgActive | AsgBlocked | AsgCompleted | AsgCancelled | AsgSuperseded | AsgLost

definition assignment_state :: "string \<Rightarrow> AssignmentState" where
  "assignment_state st =
     (if st = ''active'' then AsgActive else if st = ''blocked'' then AsgBlocked else if st = ''completed'' then AsgCompleted
      else if st = ''cancelled'' then AsgCancelled else if st = ''superseded'' then AsgSuperseded
      else if st = ''lost'' then AsgLost else AsgUnspecified)"

definition GetAssignment :: "faults \<Rightarrow> string \<Rightarrow> agent_db \<Rightarrow> grpc_code + (AgentAssignment \<times> AssignmentState \<times> gotime option)" where
  "GetAssignment flt aid d =
     (if aid = '''' then Inl InvalidArgument
      else case GetAgentAssignmentByID flt aid d of
        Inl e \<Rightarrow> Inl (if e = ErrAgentAssignmentNotFound then NotFound else Internal)
      | Inr a \<Rightarrow> Inr (a, assignment_state (asg_state_str (a_state a)), non_zero (a_started_at a)))"

text \<open>The assignment of a request, if the session of the request owns it.\<close>

definition owned_assignment :: "faults \<Rightarrow> string \<Rightarrow> string \<Rightarrow> agent_db \<Rightarrow> grpc_code + AgentAssignment" where
  "owned_assignment flt aid sid d =
     (case GetAgentAssignmentByID flt aid d of
        Inl e \<Rightarrow> Inl (if e = ErrAgentAssignmentNotFound then NotFound else Internal)
      | Inr a \<Rightarrow> if a_session_id a \<noteq> sid then Inl PermissionDenied else Inr a)"

definition Svc_Submit :: "faults \<Rightarrow> gotime \<Rightarrow> string \<Rightarrow> string \<Rightarrow> agent_db \<Rightarrow> (grpc_code + string) \<times> agent_db" where
  "Svc_Submit flt now aid sid d =
     (if aid = '''' then (Inl InvalidArgument, d) else if sid = '''' then (Inl InvalidArgument, d)
      else case owned_assignment flt aid sid d of
        Inl c \<Rightarrow> (Inl c, d)
      | Inr a \<Rightarrow> (case IsPipelineRunning flt (a_repo a) (a_branch a) (core d) of
          Inl e \<Rightarrow> (Inl Internal, d)
        | Inr running \<Rightarrow>
          if running then (Inl AlreadyExists, d)
          else let pipelineID = aid @ ''-'' @ FormatInt now
            in (case lift_core (CreateReviewRun flt now pipelineID (a_repo a) (a_branch a) '''' ''gate'' ''pending'' (Some now)) d of
              (Inl e, d1) \<Rightarrow> (Inl Internal, d1)
            | (Inr _, d1) \<Rightarrow> (Inr pipelineID, d1))))"

section \<open>Gate findings and feedback\<close>

record status_json =
  sj_decode :: "string \<Rightarrow> (string \<times> string) list option"
  sj_encode :: "(string \<times> string) list \<Rightarrow> string"

definition parseSourceStatuses :: "status_json \<Rightarrow> string \<Rightarrow> (string \<times> string) list" where
  "parseSourceStatuses js raw =
     (if raw = '''' then [] else case sj_decode js raw of Some m \<Rightarrow> m | None \<Rightarrow> [(''compliance'', raw)])"

definition marshalSourceStatuses :: "status_json \<Rightarrow> (string \<times> string) list \<Rightarrow> string" where
  "marshalSourceStatuses js m = (if m = [] then ''{}'' else sj_encode js m)"

datatype FeedbackStatus = FeedbackActionable | FeedbackResolved | FeedbackInformational

definition feedbackStatusFromSourceStatus :: "status_json \<Rightarrow> string \<Rightarrow> FeedbackStatus \<times> string" where
  "feedbackStatusFromSourceStatus js raw =
     (let st = (case map_of (parseSourceStatuses js raw) ''compliance'' of Some v \<Rightarrow> v | None \<Rightarrow> '''')
      in if st \<in> {''actionable'', ''fail'', ''warn''} then (FeedbackActionable, ''needs_revision'')
         else if st \<in> {''pass'', ''resolved''} then (FeedbackResolved, ''ready'')
         else (FeedbackInformational, ''informational''))"

datatype GateOverallStatus = GateOverallUnspecified | GateOverallPass | GateOverallFail | GateOverallWarn

fun overall_status :: "GateOverallStatus \<Rightarrow> string option" where
  "overall_status GateOverallPass = Some ''pass''"
| "overall_status GateOverallFail = Some ''fail''"
| "overall_status GateOverallWarn = Some ''warn''"
| "overall_status GateOverallUnspecified = None"

definition PostFindings ::
  "status_json \<Rightarrow> faults \<Rightarrow> gotime \<Rightarrow> (string \<Rightarrow> string) \<Rightarrow> string \<Rightarrow> string \<Rightarrow> string \<Rightarrow> GateOverallStatus \<Rightarrow>
   review_db \<Rightarrow> (grpc_code + unit) \<times> review_db" where
  "PostFindings js flt now uuid sid aid runID overall d =
     (if sid = '''' then (Inl InvalidArgument, d) else if aid = '''' then (Inl InvalidArgument, d)
      else if runID = '''' then (Inl InvalidArgument, d)
      else case owned_assignment flt aid sid (agents d) of
        Inl c \<Rightarrow> (Inl c, d)
      | Inr a \<Rightarrow> (case overall_status overall of
          None \<Rightarrow> (Inl InvalidArgument, d)
        | Some st \<Rightarrow>
          let found = GetFeedbackCacheByAssignment flt aid d in
          if (case found of Inl e \<Rightarrow> e \<noteq> ErrFeedbackCacheNotFound | Inr _ \<Rightarrow> False) then (Inl Internal, d)
          else if (case found of Inr x \<Rightarrow> fc_compliance_snapshot x = runID | Inl _ \<Rightarrow> False) then (Inl AlreadyExists, d)
          else let statuses = (case found of Inr x \<Rightarrow> parseSourceStatuses js (fc_source_status x) | Inl _ \<Rightarrow> []);
                   source = marshalSourceStatuses js (AList.update ''compliance'' st statuses);
                   fresh = \<lparr>fc_cache_id = uuid ''cache'', fc_assignment_id = aid, fc_session_id = sid, fc_task_id = a_task_id a,
                     fc_ci_snapshot = '''', fc_coderabbit_snapshot = '''', fc_human_review_snapshot = '''',
                     fc_compliance_snapshot = runID, fc_context_block = '''', fc_snapshot_at = now, fc_cache_hash = '''',
                     fc_source_status = source\<rparr>;
                   fc = (case found of
                       Inr x \<Rightarrow> fresh\<lparr>fc_cache_id := fc_cache_id x, fc_ci_snapshot := fc_ci_snapshot x,
                         fc_coderabbit_snapshot := fc_coderabbit_snapshot x, fc_human_review_snapshot := fc_human_review_snapshot x,
                         fc_context_block := fc_context_block x, fc_cache_hash := fc_cache_hash x\<rparr>
                     | Inl _ \<Rightarrow> fresh)
          in (case UpsertFeedbackCache flt now (uuid ''upsert'') fc d of
            (Inl e, d1) \<Rightarrow> (Inl Internal, d1) | (Inr _, d1) \<Rightarrow> (Inr (), d1))))"

datatype FeedbackSourceType = SourceCI | SourceCodeRabbit | SourceHumanReview | SourceGate

record feedback_source =
  fs_source :: FeedbackSourceType
  fs_priority :: int
  fs_status :: "FeedbackStatus option"
  fs_last_updated :: "gotime option"

record GetFeedbackResponse =
  fr_task_id :: string
  fr_context_block :: string
  fr_sources :: "feedback_source list"
  fr_suggested_substatus :: string

definition feedback_response :: "status_json \<Rightarrow> FeedbackCache \<Rightarrow> GetFeedbackResponse" where
  "feedback_response js fc =
     (let when = non_zero (fc_snapshot_at fc);
          src = (\<lambda>ty pr st. \<lparr>fs_source = ty, fs_priority = pr, fs_status = st, fs_last_updated = when\<rparr>);
          fb = feedbackStatusFromSourceStatus js (fc_source_status fc)
      in \<lparr>fr_task_id = fc_task_id fc, fr_context_block = fc_context_block fc,
           fr_sources = (if fc_ci_snapshot fc \<noteq> '''' then [src SourceCI 3 None] else []) @
             (if fc_coderabbit_snapshot fc \<noteq> '''' then [src SourceCodeRabbit 2 None] else []) @
             (if fc_human_review_snapshot fc \<noteq> '''' then [src SourceHumanReview 1 None] else []) @
             (if fc_compliance_snapshot fc \<noteq> '''' then [src SourceGate 3 (Some (fst fb))] else []),
           fr_suggested_substatus = snd fb\<rparr>)"

definition GetFeedback :: "status_json \<Rightarrow> faults \<Rightarrow> string \<Rightarrow> string \<Rightarrow> review_db \<Rightarrow> grpc_code + GetFeedbackResponse" where
  "GetFeedback js flt task aid d =
     (let found = (if aid \<noteq> '''' then Some (GetFeedbackCacheByAssignment flt aid d)
                   else if task \<noteq> '''' then Some (GetFeedbackCacheByTaskID flt task d) else None)
      in case found of
        None \<Rightarrow> Inl InvalidArgument
      | Some (Inl e) \<Rightarrow> if e = ErrFeedbackCacheNotFound
          then Inr \<lparr>fr_task_id = task, fr_context_block = '''', fr_sources = [], fr_suggested_substatus = ''''\<rparr> else Inl Internal
      | Some (Inr fc) \<Rightarrow> Inr (feedback_response js fc))"

section \<open>Handlers are runs of repository operations\<close>

abbreviation run :: "fsm_lib \<Rightarrow> (string \<Rightarrow> bool) \<Rightarrow> agent_db \<Rightarrow> agent_db \<Rightarrow> bool" where
  "run lib pu \<equiv> (agent_step lib pu)\<^sup>*\<^sup>*"

lemma run_step: "run lib pu d d1 \<Longrightarrow> agent_step lib pu d1 d2 \<Longrightarrow> run lib pu d d2"
  by (rule rtranclp.rtrancl_into_rtrancl)

lemma run_ops:
  assumes "run lib pu d e"
  shows "run lib pu d (snd (UpdateSessionRepoBranch flt sid repo branch e))"
    "run lib pu d (snd (UpdateSessionRuntimeAttribution flt sid source e))"
    "run lib pu d (snd (PromoteSessionToTrackedAssignment flt now uuid sid e))"
    "run lib pu d (snd (AttachAgentAssignment flt now uuid arg e))"
    "run lib pu d (snd (UpdateSessionOutputBytes flt sid n e))" "run lib pu d (snd (RecordActivitySample flt now sid c e))"
    "run lib pu d (snd (SetContextPressure flt sid l e))" "run lib pu d (snd (RecordCompact flt now sid e))"
    "run lib pu d (snd (UpdateInferredStatus flt now sid st e))"
    "run lib pu d (snd (MarkSessionRecoveredWithLastSeen flt now sid t u e))"
  by (rule run_step [OF assms], rule agent_step.repo_branch agent_step.attribution agent_step.promote agent_step.attach
      agent_step.output_bytes agent_step.sample agent_step.pressure agent_step.compact agent_step.status agent_step.recovered_seen,
      rule prod.collapse [symmetric])+

lemma run_if: "(b \<Longrightarrow> run lib pu d x) \<Longrightarrow> (\<not> b \<Longrightarrow> run lib pu d y) \<Longrightarrow> run lib pu d (if b then x else y)"
  by simp

lemma run_attribution:
  assumes "run lib pu d e"
  shows "run lib pu d (snd (UpdateSessionRepoBranchAttribution flt sid repo branch source e))"
proof -
  obtain r d1 where d1: "UpdateSessionRepoBranch flt sid repo branch e = (r, d1)" by fastforce
  have s1: "run lib pu d d1" using run_ops(1) [OF assms, of flt sid repo branch] by (simp add: d1)
  show ?thesis
    using s1 run_ops(2) [OF s1, of flt sid source] by (simp add: UpdateSessionRepoBranchAttribution_def d1 split: sum.splits)
qed

lemmas run_rules = run_if run_ops run_attribution rtranclp.rtrancl_refl

lemma run_heartbeat_attribution: "run lib pu d e \<Longrightarrow> run lib pu d (heartbeat_attribution flt now uuid sid md e)"
proof -
  assume e: "run lib pu d e"
  have "run lib pu d (case UpdateSessionRepoBranchAttribution f sid repo branch source e of (Inl x, d1) \<Rightarrow> d1
      | (Inr y, d1) \<Rightarrow> snd (PromoteSessionToTrackedAssignment g now v sid d1))" for f repo branch source g v
    using run_attribution [OF e, of f sid repo branch source] run_ops(3)
    by (cases "UpdateSessionRepoBranchAttribution f sid repo branch source e") (auto split: sum.splits)
  then show ?thesis unfolding heartbeat_attribution_def Let_def by (intro run_if e)
qed

lemma run_heartbeat_metadata:
  assumes "run lib pu d e"
  shows "run lib pu d (heartbeat_activity flt now sid md e)" "run lib pu d (heartbeat_pressure flt now sid md e)"
    "run lib pu d (heartbeat_status flt now sid md e)"
proof -
  show "run lib pu d (heartbeat_activity flt now sid md e)" "run lib pu d (heartbeat_pressure flt now sid md e)"
    unfolding heartbeat_activity_def heartbeat_pressure_def Let_def by (intro run_rules assms)+
  show "run lib pu d (heartbeat_status flt now sid md e)"
    unfolding heartbeat_status_def Let_def using assms by (cases "md ''x-inferred-status''") (simp, simp only: list.case, intro run_rules)
qed

lemma RegisterSession_run:
  assumes "RegisterSession pu flt now uuid req d = (r, d')"
  shows "run lib pu d d'"
proof (cases "rg_agent_id req = ''''")
  case False
  let ?sid = "if rg_session_id req = '''' then uuid ''session'' else rg_session_id req"
  let ?kind = "if rg_client_kind req = '''' then ''unknown'' else rg_client_kind req"
  obtain r1 d1 where d1: "(if rg_tmux_session_name req \<noteq> '''' then RegisterWithTmux pu (at_site ''register'' flt) now (uuid ''secret'') ?sid (rg_agent_id req) ?kind (rg_tmux_session_name req) d
      else Register pu (at_site ''register'' flt) now (uuid ''secret'') ?sid (rg_agent_id req) ?kind d) = (r1, d1)" by fastforce
  then have s1: "run lib pu d d1" by (auto simp only: Register_def split: if_splits intro: RegisterWithTmux_steps)
  have "run lib pu d (snd (RegisterSession pu flt now uuid req d))"
    unfolding RegisterSession_def Let_def if_not_P [OF False] d1
    by (cases r1) (simp_all only: prod.case sum.case snd_conv s1, intro run_rules s1)
  then show ?thesis by (simp add: assms)
qed (use assms in \<open>simp add: RegisterSession_def\<close>)

lemma Svc_Heartbeat_run:
  assumes "Svc_Heartbeat flt now uuid sid mark md d = (r, d')"
  shows "run lib pu d d'"
proof (cases "sid = ''''")
  case False
  obtain r1 d1 where d1: "Store_Heartbeat (at_site ''heartbeat'' flt) now uuid sid (case md of None \<Rightarrow> '''' | Some m \<Rightarrow> firstMD m ''x-heartbeat-secret'') mark d = (r1, d1)"
    by fastforce
  have s1: "run lib pu d d1" by (rule Store_Heartbeat_steps [OF d1])
  have "run lib pu d (heartbeat_status flt now sid m (heartbeat_pressure flt now sid m (heartbeat_activity flt now sid m
      (heartbeat_attribution flt now uuid sid m d1))))" for m
    by (intro run_heartbeat_metadata run_heartbeat_attribution s1)
  then show ?thesis
    using assms False d1 s1 by (auto simp: Svc_Heartbeat_def Let_def split: sum.splits option.splits)
qed (use assms in \<open>simp add: Svc_Heartbeat_def\<close>)

lemma Svc_AttachAssignment_run:
  "Svc_AttachAssignment pu flt now uuid sid aid repo branch wt mode task sub d = (r, d') \<Longrightarrow> run lib pu d d'"
  by (auto simp: Svc_AttachAssignment_def split: if_splits prod.splits sum.splits intro: AttachAssignment_steps)

lemma FinalizeSession_run: "FinalizeSession flt now uuid sid aid c d = (r, d') \<Longrightarrow> run lib pu d d'"
  by (auto simp: FinalizeSession_def split: if_splits prod.splits sum.splits intro: Finalize_steps)

lemma Recover_run: "RecoverActiveSessions flt now d = (r, d') \<Longrightarrow> run lib pu d d'"
proof -
  have *: "run lib pu d (fold (\<lambda>s d. snd (recoverSession (at_site (s_session_id s) flt) (now (s_session_id s)) (s_session_id s) d)) ss d)"
    for ss :: "AgentSession list" and d
  proof (induction ss arbitrary: d)
    case (Cons s ss)
    have "agent_step lib pu d (snd (recoverSession (at_site (s_session_id s) flt) (now (s_session_id s)) (s_session_id s) d))"
      unfolding recoverSession_def by (rule agent_step.recovered_seen [OF prod.collapse [symmetric]])
    with Cons show ?case by (simp add: converse_rtranclp_into_rtranclp)
  qed simp
  show "RecoverActiveSessions flt now d = (r, d') \<Longrightarrow> run lib pu d d'"
    using * by (auto simp: RecoverActiveSessions_def split: sum.splits)
qed

lemma Svc_Submit_run: "Svc_Submit flt now aid sid d = (r, d') \<Longrightarrow> run lib pu d d'"
proof -
  have *: "agent_step lib pu d (snd (lift_core (CreateReviewRun flt now rid repo branch h prov st t) d))" for rid repo branch h prov st t
    by (rule lift_core_step, rule store_step.create_run [OF prod.collapse [symmetric]])
  have "run lib pu d d1" if "lift_core (CreateReviewRun flt now rid repo branch h prov st t) d = (x, d1)" for rid repo branch h prov st t x d1
    using * [of rid repo branch h prov st t] that by auto
  then show "Svc_Submit flt now aid sid d = (r, d') \<Longrightarrow> run lib pu d d'"
    by (auto simp: Svc_Submit_def Let_def split: if_splits prod.splits sum.splits)
qed

text \<open>A call of any service that writes, and the recovery when the daemon starts.\<close>

inductive service_step :: "(string \<Rightarrow> bool) \<Rightarrow> agent_db \<Rightarrow> agent_db \<Rightarrow> bool" for pu where
  register: "RegisterSession pu flt now uuid req d = (r, d') \<Longrightarrow> service_step pu d d'"
| heartbeat: "Svc_Heartbeat flt now uuid sid mark md d = (r, d') \<Longrightarrow> service_step pu d d'"
| attach: "Svc_AttachAssignment pu flt now uuid sid aid repo branch wt mode task sub d = (r, d') \<Longrightarrow> service_step pu d d'"
| finalize: "FinalizeSession flt now uuid sid aid c d = (r, d') \<Longrightarrow> service_step pu d d'"
| submit: "Svc_Submit flt now aid sid d = (rs, d') \<Longrightarrow> service_step pu d d'"
| recover: "RecoverActiveSessions flt clock d = (r', d') \<Longrightarrow> service_step pu d d'"

lemma service_run:
  assumes "service_step pu d d'"
  shows "run lib pu d d'"
  using assms by (cases rule: service_step.cases)
    (auto intro: RegisterSession_run Svc_Heartbeat_run Svc_AttachAssignment_run FinalizeSession_run Svc_Submit_run Recover_run)


section \<open>A heartbeat touches its own session only\<close>

definition others_kept :: "string \<Rightarrow> agent_db \<Rightarrow> agent_db \<Rightarrow> bool" where
  "others_kept sid d d' \<longleftrightarrow>
     filter (\<lambda>s. s_session_id s \<noteq> sid) (agent_sessions d') = filter (\<lambda>s. s_session_id s \<noteq> sid) (agent_sessions d) \<and>
     filter (\<lambda>a. a_session_id a \<noteq> sid) (agent_assignments d') = filter (\<lambda>a. a_session_id a \<noteq> sid) (agent_assignments d)"

lemma kept_refl [simp]: "others_kept sid d d"
  by (simp add: others_kept_def)

lemma kept_trans [trans]: "others_kept sid d e \<Longrightarrow> others_kept sid e f \<Longrightarrow> others_kept sid d f"
  by (simp add: others_kept_def)

lemma filter_update:
  "(\<And>x. P x \<Longrightarrow> \<not> Q x) \<Longrightarrow> (\<And>x. P x \<Longrightarrow> \<not> Q (f x)) \<Longrightarrow> filter Q (sql_update P f xs) = filter Q xs"
  by (induction xs) (auto simp: sql_update_def)

lemma kept_tabs:
  "tabs e = tabs d \<Longrightarrow> others_kept sid d e"
  by (simp add: others_kept_def tabs_def)

lemma kept_sessions:
  assumes "\<And>s. P s \<Longrightarrow> s_session_id s = sid" and "\<And>s. P s \<Longrightarrow> s_session_id (f s) = sid"
  shows "others_kept sid d (upd_sessions P f d)"
proof -
  have "filter (\<lambda>s. s_session_id s \<noteq> sid) (sql_update P f (agent_sessions d)) = filter (\<lambda>s. s_session_id s \<noteq> sid) (agent_sessions d)"
    by (rule filter_update) (simp_all add: assms)
  then show ?thesis by (simp add: others_kept_def)
qed

lemma kept_exec:
  assumes "\<And>s. P s \<Longrightarrow> s_session_id s = sid" and "\<And>s. P s \<Longrightarrow> s_session_id (f s) = sid"
  shows "others_kept sid d (snd (exec_sessions flt site P f d))"
  using kept_sessions [of P sid f d] assms by (auto simp: exec_sessions_def split: sql_try_splits)

lemma kept_session_fields:
  "others_kept sid d (snd (UpdateSessionRepoBranch flt sid repo branch d))"
  "others_kept sid d (snd (UpdateSessionRuntimeAttribution flt sid source d))"
  "others_kept sid d (snd (UpdateSessionOutputBytes flt sid n d))"
  "others_kept sid d (snd (SetContextPressure flt sid l d))"
  "others_kept sid d (snd (RecordCompact flt now sid d))"
  "others_kept sid d (snd (UpdateInferredStatus flt now sid st d))"
  by (auto simp: UpdateSessionRepoBranch_def UpdateSessionRuntimeAttribution_def UpdateSessionOutputBytes_def SetContextPressure_def
      RecordCompact_def UpdateInferredStatus_def Let_def open_with_id_def intro!: kept_exec)

lemma kept_sample: "others_kept sid d (snd (RecordActivitySample flt now sid c d))"
  by (auto simp: RecordActivitySample_def Let_def others_kept_def split: sql_try_splits if_splits)


lemma kept_attach:
  assumes "\<And>asg. arg = Some asg \<Longrightarrow> a_session_id asg = sid"
  shows "others_kept sid d (snd (AttachAgentAssignment flt now uuid arg d))"
proof -
  obtain r d' where run: "AttachAgentAssignment flt now uuid arg d = (r, d')" by fastforce
  show ?thesis
  proof (cases "d' = d")
    case False
    let ?T = "\<lambda>sid. upd_sessions (open_with_id sid) (\<lambda>s. s\<lparr>s_last_seen_at := truncate_second now, s_last_progress_at := Some (truncate_second now)\<rparr>) d"
    obtain asg0 asg where asg: "arg = Some asg0" "a_session_id asg = a_session_id asg0"
      "sql_affected (open_with_id (a_session_id asg)) (agent_sessions d) \<noteq> 0"
      "d' = ?T (a_session_id asg) \<or> (\<exists>d3. insert_assignment (new_assignment asg) (upd_assignments (\<lambda>a. a_session_id a = a_session_id asg \<and> open_asg a)
          (supersede_asg (truncate_second now) (a_id asg)) (?T (a_session_id asg))) = Inr d3 \<and> tabs d' = tabs d3)"
      using run False by (rule Attach_cases)
    have sid: "a_session_id asg = sid" using assms [OF asg(1)] asg(2) by simp
    have t: "others_kept sid d (?T sid)" by (rule kept_sessions) (auto simp: open_with_id_def)
    have "others_kept sid d d'" if "insert_assignment (new_assignment asg) (upd_assignments (\<lambda>a. a_session_id a = sid \<and> open_asg a)
        (supersede_asg (truncate_second now) (a_id asg)) (?T sid)) = Inr d3" "tabs d' = tabs d3" for d3
    proof -
      have u: "filter (\<lambda>a. a_session_id a \<noteq> sid) (sql_update (\<lambda>a. a_session_id a = sid \<and> open_asg a) (supersede_asg t (a_id asg)) xs) =
          filter (\<lambda>a. a_session_id a \<noteq> sid) xs" for t xs
        by (rule filter_update) (auto simp: supersede_asg_def close_asg_def)
      have "a_session_id (new_assignment asg) = sid" using sid by (simp add: new_assignment_def AgentAssignment.defs)
      then show ?thesis
        using t that(2) insert_assignment_tabs [OF that(1)] by (simp add: others_kept_def tabs_def u)
    qed
    then show ?thesis using asg(4) t sid run by auto
  qed (simp add: run)
qed

lemma kept_promote: "others_kept sid d (snd (PromoteSessionToTrackedAssignment flt now uuid sid d))"
  by (auto simp: PromoteSessionToTrackedAssignment_def Let_def split: if_splits sql_try_splits option.splits sum.splits intro!: kept_attach)

lemma kept_heartbeat: "others_kept sid d (snd (UpdateAgentSessionHeartbeat flt now uuid sid mark d))"
proof -
  obtain r d' where run: "UpdateAgentSessionHeartbeat flt now uuid sid mark d = (r, d')" by fastforce
  let ?f = "\<lambda>s. if mark then s\<lparr>s_last_seen_at := truncate_second now, s_last_io_at := Some (truncate_second now), s_last_progress_at := Some (truncate_second now)\<rparr>
    else s\<lparr>s_last_seen_at := truncate_second now\<rparr>"
  have "d' = d \<or> tabs d' = tabs (upd_sessions (open_with_id sid) ?f d)"
    using run_tx_cases [OF run [unfolded UpdateAgentSessionHeartbeat_def Let_def]]
    by (auto simp del: tabs_upd split: if_splits option.splits prod.splits dest!: verdict_tabs)
  moreover have "others_kept sid d (upd_sessions (open_with_id sid) ?f d)" by (rule kept_sessions) (auto simp: open_with_id_def)
  ultimately have "others_kept sid d d'" using kept_trans [OF _ kept_tabs] by auto
  then show ?thesis by (simp add: run)
qed

lemma kept_core: "others_kept sid d (snd (lift_core f d))"
  by (simp add: lift_core_def others_kept_def split: prod.splits)

lemma kept_store_heartbeat: "others_kept sid d (snd (Store_Heartbeat flt now uuid sid secret mark d))"
proof -
  obtain u d1 where u: "UpdateAgentSessionHeartbeat flt now uuid sid mark d = (u, d1)" by fastforce
  have k1: "others_kept sid d d1" using kept_heartbeat [of sid d flt now uuid mark] by (simp add: u)
  have k: "others_kept sid d (snd (lift_core f d1))" "others_kept sid d (snd (lift_core g (snd (lift_core f d1))))"
    for f :: "db \<Rightarrow> (error + unit) \<times> db" and g :: "db \<Rightarrow> (error + unit) \<times> db"
    by (rule kept_trans [OF k1 kept_core], rule kept_trans [OF kept_trans [OF k1 kept_core] kept_core])
  have "snd (Store_Heartbeat flt now uuid sid secret mark d) \<in> {d, d1} \<or> (\<exists>f g. snd (Store_Heartbeat flt now uuid sid secret mark d) \<in>
      {snd (lift_core (f :: db \<Rightarrow> (error + unit) \<times> db) d1), snd (lift_core (g :: db \<Rightarrow> (error + unit) \<times> db) (snd (lift_core f d1)))})"
    by (auto simp: Store_Heartbeat_def u split: sum.splits prod.splits if_splits) (metis snd_conv)+
  then show ?thesis using k1 k by auto
qed


lemma kept_if: "(b \<Longrightarrow> others_kept sid d x) \<Longrightarrow> (\<not> b \<Longrightarrow> others_kept sid d y) \<Longrightarrow> others_kept sid d (if b then x else y)"
  by simp

lemmas kept_ops = kept_session_fields [THEN kept_trans [rotated]] kept_sample [THEN kept_trans [rotated]] kept_promote [THEN kept_trans [rotated]]

lemma kept_metadata:
  assumes "others_kept sid d e"
  shows "others_kept sid d (heartbeat_attribution flt now uuid sid md e)" "others_kept sid d (heartbeat_activity flt now sid md e)"
    "others_kept sid d (heartbeat_pressure flt now sid md e)" "others_kept sid d (heartbeat_status flt now sid md e)"
proof -
  have "others_kept sid d (case UpdateSessionRepoBranchAttribution f sid repo branch source e of (Inl x, d1) \<Rightarrow> d1
      | (Inr y, d1) \<Rightarrow> snd (PromoteSessionToTrackedAssignment g now v sid d1))" for f repo branch source g v
  proof -
    obtain r d1 where d1: "UpdateSessionRepoBranch f sid repo branch e = (r, d1)" by fastforce
    obtain x d2 where d2: "UpdateSessionRuntimeAttribution f sid source d1 = (x, d2)" by fastforce
    have k: "others_kept sid d d1" "others_kept sid d d2"
      using kept_ops(1) [OF assms, of f repo branch] kept_ops(2) [of sid d d1 f source] by (simp_all add: d1 d2)
    show ?thesis
      using k kept_ops(8) [OF k(1), of g now v] kept_ops(8) [OF k(2), of g now v]
      by (auto simp: UpdateSessionRepoBranchAttribution_def d1 d2 split: sum.splits prod.splits)
  qed
  then show "others_kept sid d (heartbeat_attribution flt now uuid sid md e)"
    unfolding heartbeat_attribution_def Let_def by (intro kept_if assms)
  show "others_kept sid d (heartbeat_activity flt now sid md e)" "others_kept sid d (heartbeat_pressure flt now sid md e)"
    unfolding heartbeat_activity_def heartbeat_pressure_def Let_def by (intro kept_if kept_ops assms)+
  show "others_kept sid d (heartbeat_status flt now sid md e)"
    unfolding heartbeat_status_def Let_def using assms by (cases "md ''x-inferred-status''") (simp, simp only: list.case, intro kept_if kept_ops)
qed


lemma register_tmux:
  "(if tmux \<noteq> '''' then RegisterWithTmux pu flt now k sid aid kind tmux d else Register pu flt now k sid aid kind d) =
   RegisterWithTmux pu flt now k sid aid kind tmux d"
  by (simp add: Register_def)

lemma RegisterSession_store:
  assumes "RegisterSession pu flt now uuid req d = (Inr (sid, secret), d1)"
  shows "\<exists>flt' kind tmux d0. RegisterAgentSessionWithSecret pu flt' now (uuid ''secret'') sid (rg_agent_id req) kind tmux d = (Inr secret, d0) \<and>
    run lib pu d0 d1"
proof -
  let ?sid = "if rg_session_id req = '''' then uuid ''session'' else rg_session_id req"
  let ?kind = "if rg_client_kind req = '''' then ''unknown'' else rg_client_kind req"
  have aid: "rg_agent_id req \<noteq> ''''" using assms by (auto simp: RegisterSession_def)
  obtain r0 d0 where d0: "RegisterWithTmux pu (at_site ''register'' flt) now (uuid ''secret'') ?sid (rg_agent_id req) ?kind (rg_tmux_session_name req) d = (r0, d0)"
    by fastforce
  then have reg: "(if rg_tmux_session_name req \<noteq> '''' then RegisterWithTmux pu (at_site ''register'' flt) now (uuid ''secret'') ?sid (rg_agent_id req) ?kind (rg_tmux_session_name req) d
      else Register pu (at_site ''register'' flt) now (uuid ''secret'') ?sid (rg_agent_id req) ?kind d) = (r0, d0)"
    unfolding register_tmux .
  obtain x where x: "r0 = Inr x" using assms aid reg by (cases r0) (simp_all add: RegisterSession_def Let_def)
  have eq: "sid = ?sid" "secret = x"
    using assms unfolding RegisterSession_def Let_def if_not_P [OF aid] reg x by (simp_all only: prod.case sum.case prod.inject sum.inject)
  have "run lib pu d0 (snd (RegisterSession pu flt now uuid req d))"
    unfolding RegisterSession_def Let_def if_not_P [OF aid] reg x prod.case sum.case snd_conv by (intro run_rules)
  moreover have "RegisterAgentSessionWithSecret pu (at_site ''register'' flt) now (uuid ''secret'') sid (rg_agent_id req) ?kind (rg_tmux_session_name req) d = (Inr secret, d0)"
    using d0 aid unfolding eq x by (auto simp: RegisterWithTmux_def split: if_splits)
  ultimately show ?thesis using assms by auto
qed

lemma sql_row_member: "sql_row P rows = Some r \<Longrightarrow> r \<in> set rows \<and> P r"
  unfolding sql_row_def by (metis find_Some_iff nth_mem)

lemma register_secret:
  assumes reg: "RegisterAgentSessionWithSecret pu flt now k sid aid mode tmux d = (Inr secret, d0)" and inv: "agent_inv d" and k: "k \<noteq> ''''"
    and stored: "\<And>s. s \<in> set (agent_sessions d) \<Longrightarrow> s_heartbeat_secret s \<noteq> '''' \<and> TrimSpace (s_heartbeat_secret s) = s_heartbeat_secret s"
  shows "(case sql_row (\<lambda>s. s_session_id s = sid) (agent_sessions d) of None \<Rightarrow> secret = k | Some s \<Rightarrow> secret = s_heartbeat_secret s) \<and>
    (\<exists>s\<in>set (agent_sessions d0). s_session_id s = sid \<and> s_heartbeat_secret s = secret)"
proof (cases "sql_row (\<lambda>s. s_session_id s = sid) (agent_sessions d)")
  case None
  then have "sid \<notin> s_session_id ` set (agent_sessions d)" by (auto simp: sql_row_def find_None_iff)
  from register_new [OF reg this] None show ?thesis by auto
next
  case (Some s)
  note s = sql_row_member [OF Some] stored [OF conjunct1 [OF sql_row_member [OF Some]]]
  have "secret = s_heartbeat_secret s" using register_again [OF reg inv] s by auto
  moreover obtain s' where "s' \<in> set (agent_sessions d0)" "session_le s s'"
    using agent_writes_rows [OF Register_write [OF reg]] s by blast
  ultimately show ?thesis using Some s by (auto simp: session_le_def)
qed

lemma heartbeat_secret_used:
  assumes "Svc_Heartbeat flt now uuid sid mark (Some m) d = (r, d')" and "r = Inr () \<or> d' \<noteq> d"
  shows "\<exists>s\<in>set (agent_sessions d). s_session_id s = sid \<and> open_session s \<and> s_heartbeat_secret s = firstMD m ''x-heartbeat-secret'' \<and>
    firstMD m ''x-heartbeat-secret'' \<noteq> ''''"
proof -
  obtain r1 d1 where d1: "Store_Heartbeat (at_site ''heartbeat'' flt) now uuid sid (firstMD m ''x-heartbeat-secret'') mark d = (r1, d1)" by fastforce
  have "sid \<noteq> ''''" using assms by (auto simp: Svc_Heartbeat_def)
  moreover have "r1 = Inr () \<or> d1 \<noteq> d" using assms \<open>sid \<noteq> ''''\<close> by (auto simp: Svc_Heartbeat_def Let_def d1 split: sum.splits)
  ultimately have "ValidateHeartbeatSecret (at_site ''heartbeat'' flt) sid (firstMD m ''x-heartbeat-secret'') d = Inr ()"
    using d1 by (auto simp: Store_Heartbeat_def split: sum.splits)
  from validate_secret_iff [OF this] show ?thesis by blast
qed

text \<open>Only the comparison of the secret gives the error that the service answers with \<open>PermissionDenied\<close>.\<close>

lemma record_secret_error: "recordAssignmentRuleCheckTx flt now uuid aid sid rid res v det by' d \<noteq> Inl ErrInvalidHeartbeatSecret"
proof (cases "loadAgentRuleDefinitionTx flt rid d")
  case (Inl e)
  moreover have "loadAgentRuleDefinitionTx flt rid d \<noteq> Inl ErrInvalidHeartbeatSecret"
    by (simp add: loadAgentRuleDefinitionTx_def stmt_def scan_rule_def split: option.splits)
  ultimately show ?thesis by (simp add: recordAssignmentRuleCheckTx_def and_then_def)
next
  case (Inr rule)
  have "insert_check c e \<noteq> Inl ErrInvalidHeartbeatSecret" for c e
    by (simp add: insert_check_def)
  then show ?thesis
    by (simp add: recordAssignmentRuleCheckTx_def and_then_def Inr stmt_def Let_def split: option.splits)
qed

lemma heartbeat_secret_error: "fst (UpdateAgentSessionHeartbeat flt now uuid sid mark d) \<noteq> Inl ErrInvalidHeartbeatSecret"
proof -
  have c: "opt_context flt sid e \<noteq> Inl ErrInvalidHeartbeatSecret" for e
    by (simp add: opt_context_def loadActiveAssignmentContextTx_def stmt_def split: option.splits)
  have v: "record_verdict flt now uuid aid sid rid p det e \<noteq> Inl ErrInvalidHeartbeatSecret" for aid rid p det e
    unfolding record_verdict_def by (rule record_secret_error)
  show ?thesis
    using c v unfolding UpdateAgentSessionHeartbeat_def run_tx_def tx_bind_def stmt_def Let_def
    by (auto split: option.splits sum.splits tx_result.splits if_splits prod.splits)
qed

lemma heartbeat_not_denied:
  assumes "ValidateHeartbeatSecret no_faults sid (firstMD m ''x-heartbeat-secret'') d = Inr ()"
  shows "fst (Svc_Heartbeat flt now uuid sid mark (Some m) d) \<noteq> Inl PermissionDenied"
proof -
  let ?flt = "at_site ''heartbeat'' flt" and ?k = "firstMD m ''x-heartbeat-secret''"
  have a: "GetActiveAgentAssignment ?flt sid e \<noteq> Inl ErrInvalidHeartbeatSecret" for e
    by (simp add: GetActiveAgentAssignment_def get_asg_def stmt_def split: option.splits)
  have u: "fst (lift_core (UpdateSessionHeartbeat ?flt t repo branch) e) \<noteq> Inl ErrInvalidHeartbeatSecret" for t repo branch e
    by (simp add: lift_core_def UpdateSessionHeartbeat_def exec_update_def sql_try_def split: option.splits)
  have "ValidateHeartbeatSecret ?flt sid ?k d \<noteq> Inl ErrInvalidHeartbeatSecret"
    using assms by (auto simp: ValidateHeartbeatSecret_def stmt_def split: option.splits if_splits)
  then have "fst (Store_Heartbeat ?flt now uuid sid ?k mark d) \<noteq> Inl ErrInvalidHeartbeatSecret"
    using a u heartbeat_secret_error [of ?flt now uuid sid mark d] unfolding Store_Heartbeat_def
    by (auto split: sum.splits prod.splits if_splits) (metis fst_conv)+
  then show ?thesis by (auto simp: Svc_Heartbeat_def Let_def split: sum.splits prod.splits)
qed

text \<open>
  C33: a session has one secret for its life, and whoever registers it learns it. The registration of a new session hands
  out the generated secret; the registration of one that exists hands out the stored secret, whichever agent asks.
  Whatever operations follow, a heartbeat for the session is acknowledged or has an effect only with this secret, no
  heartbeat with it is refused for the secret while the session is open, and every later registration answers with it.
\<close>

theorem register_session_secret:
  assumes lib: "fsm_library lib" and inv: "agent_inv d"
    and fresh: "uuid ''secret'' \<noteq> ''''" "TrimSpace (uuid ''secret'') = uuid ''secret''"
    and stored: "\<And>s. s \<in> set (agent_sessions d) \<Longrightarrow> s_heartbeat_secret s \<noteq> '''' \<and> TrimSpace (s_heartbeat_secret s) = s_heartbeat_secret s"
    and reg: "RegisterSession pu flt now uuid req d = (Inr (sid, secret), d1)" and later: "(agent_step lib pu)\<^sup>*\<^sup>* d1 d2"
  shows "(case sql_row (\<lambda>s. s_session_id s = sid) (agent_sessions d) of None \<Rightarrow> secret = uuid ''secret'' | Some s \<Rightarrow> secret = s_heartbeat_secret s) \<and>
    (\<forall>flt' t u mark m r d3. Svc_Heartbeat flt' t u sid mark (Some m) d2 = (r, d3) \<longrightarrow> r = Inr () \<or> d3 \<noteq> d2 \<longrightarrow> firstMD m ''x-heartbeat-secret'' = secret) \<and>
    (\<forall>s flt' t u mark m. s \<in> set (agent_sessions d2) \<longrightarrow> s_session_id s = sid \<longrightarrow> s_ended_at s = None \<longrightarrow> firstMD m ''x-heartbeat-secret'' = secret \<longrightarrow>
       fst (Svc_Heartbeat flt' t u sid mark (Some m) d2) \<noteq> Inl PermissionDenied) \<and>
    (\<forall>flt' t u req' secret' d3. RegisterSession pu flt' t u req' d2 = (Inr (sid, secret'), d3) \<longrightarrow> secret' = secret)"
proof -
  obtain flt0 kind tmux d0 where r0: "RegisterAgentSessionWithSecret pu flt0 now (uuid ''secret'') sid (rg_agent_id req) kind tmux d = (Inr secret, d0)"
    and run0: "run lib pu d0 d1"
    using RegisterSession_store [OF reg, of lib] by blast
  note sec = register_secret [OF r0 inv fresh(1) stored]
  have k: "secret \<noteq> ''''" "TrimSpace secret = secret"
    using sec fresh stored by (auto split: option.splits dest: sql_row_member)
  have i0: "agent_inv d0" using agent_step_write [OF agent_step.register [OF r0] lib inv] agent_writes_inv [OF _ inv] by blast
  note i2 = agent_steps_inv [OF rtranclp_trans [OF run0 later] lib i0]
  obtain s0 where s0: "s0 \<in> set (agent_sessions d0)" "s_session_id s0 = sid" "s_heartbeat_secret s0 = secret" using sec by blast
  obtain s2 where s2: "s2 \<in> set (agent_sessions d2)" "s_session_id s2 = sid" "s_heartbeat_secret s2 = secret"
    using agent_writes_rows [OF conjunct2 [OF i2]] s0 k(1) by (metis session_le_def)
  note uniq = inv_session_unique [OF conjunct1 [OF i2] _ s2(1)]
  have "firstMD m ''x-heartbeat-secret'' = secret" if "Svc_Heartbeat flt' t u sid mark (Some m) d2 = (r, d3)" "r = Inr () \<or> d3 \<noteq> d2"
    for flt' t u mark m r d3
  proof -
    from heartbeat_secret_used [OF that]
    obtain s where s: "s \<in> set (agent_sessions d2)" "s_session_id s = sid" "s_heartbeat_secret s = firstMD m ''x-heartbeat-secret''"
      by blast
    have "s = s2" by (rule uniq [OF s(1)]) (simp add: s s2)
    then show ?thesis using s(3) s2(3) by simp
  qed
  moreover have "fst (Svc_Heartbeat flt' t u sid mark (Some m) d2) \<noteq> Inl PermissionDenied"
    if "s \<in> set (agent_sessions d2)" "s_session_id s = sid" "s_ended_at s = None" "firstMD m ''x-heartbeat-secret'' = secret" for s flt' t u mark m
  proof -
    have "ValidateHeartbeatSecret no_faults sid secret d2 = Inr ()"
      using validate_secret_ok [OF conjunct1 [OF i2] s2(1)] uniq [OF that(1)] that(2,3) s2(2,3) k(1) by (metis open_session_def)
    then show ?thesis unfolding that(4) [symmetric] by (rule heartbeat_not_denied)
  qed
  moreover have "secret' = secret" if "RegisterSession pu flt' t u req' d2 = (Inr (sid, secret'), d3)" for flt' t u req' secret' d3
  proof -
    from RegisterSession_store [OF that, of lib]
    obtain f kd tm e where "RegisterAgentSessionWithSecret pu f t (u ''secret'') sid (rg_agent_id req') kd tm d2 = (Inr secret', e)"
      by blast
    from register_again [OF this conjunct1 [OF i2] s2(1,2)] show ?thesis using s2(3) k by simp
  qed
  ultimately show ?thesis using sec by (auto split: option.splits)
qed


definition demo_join :: "string \<Rightarrow> RegisterSessionRequest" where
  "demo_join agent = \<lparr>rg_agent_id = agent, rg_session_id = ''s1'', rg_client_kind = '''', rg_tmux_session_name = '''', rg_initial_context = (\<lambda>_. '''')\<rparr>"

definition demo_joined :: agent_db where
  "demo_joined = snd (RegisterSession (\<lambda>_. False) no_faults 0 (\<lambda>_. ''k1'') (demo_join ''ann'') empty_agent_db)"

lemma demo_join_eval:
  "fst (RegisterSession (\<lambda>_. False) no_faults 0 (\<lambda>_. ''k1'') (demo_join ''ann'') empty_agent_db) = Inr (''s1'', ''k1'')"
  "fst (RegisterSession (\<lambda>_. False) no_faults 0 (\<lambda>_. ''k2'') (demo_join ''eve'') demo_joined) = Inr (''s1'', ''k1'')"
  "fst (Svc_Heartbeat no_faults Second (\<lambda>_. ''h'') ''s1'' True (Some (\<lambda>_. [''k1''])) demo_joined) = Inr ()"
  "fst (Svc_Heartbeat no_faults Second (\<lambda>_. ''h'') ''s1'' True (Some (\<lambda>_. [''k2''])) demo_joined) = Inl PermissionDenied"
  "TrimSpace ''k1'' = ''k1''" "agent_sessions empty_agent_db = []"
  by code_simp+


theorem register_session_secret_witness:
  "\<exists>secret d3 r d4. RegisterSession (\<lambda>_. False) no_faults 0 (\<lambda>_. ''k1'') (demo_join ''ann'') empty_agent_db = (Inr (''s1'', ''k1''), demo_joined) \<and>
     RegisterSession (\<lambda>_. False) no_faults 0 (\<lambda>_. ''k2'') (demo_join ''eve'') demo_joined = (Inr (''s1'', secret), d3) \<and> secret = ''k1'' \<and>
     Svc_Heartbeat no_faults Second (\<lambda>_. ''h'') ''s1'' True (Some (\<lambda>_. [''k2''])) demo_joined = (r, d4) \<and> r \<noteq> Inr () \<and> d4 = demo_joined"
proof -
  have reg: "RegisterSession (\<lambda>_. False) no_faults 0 (\<lambda>_. ''k1'') (demo_join ''ann'') empty_agent_db = (Inr (''s1'', ''k1''), demo_joined)"
    using demo_join_eval(1) unfolding demo_joined_def by (metis prod.collapse)
  note p = register_session_secret [OF listfsm.fsm_library_axioms agent_inv_empty _ _ _ reg rtranclp.rtrancl_refl]
  obtain secret d3 where again: "RegisterSession (\<lambda>_. False) no_faults 0 (\<lambda>_. ''k2'') (demo_join ''eve'') demo_joined = (Inr (''s1'', secret), d3)"
    using demo_join_eval(2) by (metis prod.collapse)
  have "\<forall>flt' t u req' secret' d3. RegisterSession (\<lambda>_. False) flt' t u req' demo_joined = (Inr (''s1'', secret'), d3) \<longrightarrow> secret' = ''k1''"
    by (rule p [THEN conjunct2, THEN conjunct2, THEN conjunct2]) (simp_all add: demo_join_eval(5,6))
  with again have k: "secret = ''k1''" by blast
  obtain r d4 where beat: "Svc_Heartbeat no_faults Second (\<lambda>_. ''h'') ''s1'' True (Some (\<lambda>_. [''k2''])) demo_joined = (r, d4)" by fastforce
  have "\<forall>flt' t u mark m r d3. Svc_Heartbeat flt' t u ''s1'' mark (Some m) demo_joined = (r, d3) \<longrightarrow> r = Inr () \<or> d3 \<noteq> demo_joined \<longrightarrow>
      firstMD m ''x-heartbeat-secret'' = ''k1''"
    by (rule p [THEN conjunct2, THEN conjunct1]) (simp_all add: demo_join_eval(5,6))
  with beat have "r = Inr () \<or> d4 \<noteq> demo_joined \<longrightarrow> firstMD (\<lambda>_. [''k2'']) ''x-heartbeat-secret'' = ''k1''" by blast
  then have "r \<noteq> Inr () \<and> d4 = demo_joined" by (auto simp: firstMD_def)
  with reg again k beat show ?thesis by blast
qed

section \<open>All calls\<close>

text \<open>
  C34: the daemon's services keep the agent tables consistent. Every database that calls of the services reach from the
  empty one, with any requests, metadata and failing statements, and with any operations of the repositories in
  between, satisfies the invariant of the agent tables; a call only ever runs repository operations, so an ended assignment
  stays as it is, versions grow and a session keeps its secret.
\<close>

theorem service_calls_keep_invariant:
  assumes lib: "fsm_library lib" and calls: "(\<lambda>x y. service_step pu x y \<or> agent_step lib pu x y)\<^sup>*\<^sup>* empty_agent_db d"
    and next_call: "service_step pu d d'"
  shows "agent_inv d' \<and> (agent_step lib pu)\<^sup>*\<^sup>* d d' \<and>
    (\<forall>a\<in>set (agent_assignments d). \<exists>a'\<in>set (agent_assignments d'). asg_le a a') \<and>
    (\<forall>s\<in>set (agent_sessions d). \<exists>s'\<in>set (agent_sessions d'). session_le s s')"
proof -
  have "run lib pu empty_agent_db d"
    using calls by (induction rule: rtranclp_induct) (auto intro: rtranclp_trans service_run run_step)
  then have inv: "agent_inv d" using agent_steps_inv [OF _ lib agent_inv_empty] by blast
  have r: "run lib pu d d'" by (rule service_run [OF next_call])
  show ?thesis using agent_steps_inv [OF r lib inv] agent_writes_rows r by blast
qed

theorem service_calls_keep_invariant_witness: "agent_inv demo_joined"
proof -
  have "service_step (\<lambda>_. False) empty_agent_db demo_joined"
    unfolding demo_joined_def by (rule service_step.register [OF prod.collapse [symmetric]])
  from service_calls_keep_invariant [OF listfsm.fsm_library_axioms rtranclp.rtrancl_refl this] show ?thesis by blast
qed


section \<open>Recovery, submissions and findings\<close>


text \<open>A submission to the service blocks its branch: as long as its pending run is in the table, the next is refused.\<close>

lemma service_submit_blocks:
  assumes "Svc_Submit flt now aid sid d = (Inr pid, d1)" and "GetAgentAssignmentByID no_faults aid d = Inr a"
    and "a_repo a \<noteq> ''''" and "a_branch a \<noteq> ''''"
    and "set (review_runs (core d1)) \<subseteq> set (review_runs (core d2))"
    and "GetAgentAssignmentByID no_faults aid' d2 = Inr b" and "a_session_id b = sid'" and "aid' \<noteq> ''''" and "sid' \<noteq> ''''"
    and "a_repo b = a_repo a" and "a_branch b = a_branch a"
  shows "Svc_Submit no_faults t aid' sid' d2 = (Inl AlreadyExists, d2)"
proof -
  have get: "GetAgentAssignmentByID flt aid d = Inr x \<Longrightarrow> x = a" for x
    using assms(2) by (auto simp: GetAgentAssignmentByID_def get_asg_def stmt_def split: option.splits)
  have "\<exists>r\<in>set (review_runs (core d1)). rr_repo r = a_repo a \<and> rr_branch r = a_branch a \<and> rr_status r = ''pending''"
    using assms(1) by (auto simp: Svc_Submit_def owned_assignment_def lift_core_def CreateReviewRun_def Let_def dest!: get
        split: if_splits sum.splits prod.splits sql_try_splits)
  then have "0 < sql_affected (\<lambda>r. rr_repo r = a_repo b \<and> rr_branch r = a_branch b \<and> rr_status r \<in> {''pending'', ''running''}) (review_runs (core d2))"
    using assms(5,10,11) by (auto simp: sql_affected_def filter_empty_conv)
  then have "IsPipelineRunning no_faults (a_repo b) (a_branch b) (core d2) = Inr True"
    using assms(3,4,10,11) by (simp add: IsPipelineRunning_def)
  then show ?thesis using assms(6-9) by (simp add: Svc_Submit_def owned_assignment_def)
qed


text \<open>Without failures the recovery marks exactly the open sessions, each at its time, and nothing else changes in them.\<close>

definition recovered_at :: "gotime \<Rightarrow> session_row \<Rightarrow> session_row" where
  "recovered_at t s = s\<lparr>s_last_seen_at := t, s_last_recovered_at := Some t\<rparr>"

lemma recovered_at_simps [simp]:
  "s_session_id (recovered_at t s) = s_session_id s" "open_session (recovered_at t s) = open_session s"
  "recovered_at t (recovered_at t s) = recovered_at t s"
  by (simp_all add: recovered_at_def open_session_def)

lemma recover_one:
  "t \<noteq> zero_time \<Longrightarrow> agent_sessions (snd (recoverSession no_faults t sid d)) =
   map (\<lambda>s. if open_session s \<and> s_session_id s = sid then recovered_at t s else s) (agent_sessions d)"
  by (auto simp: recoverSession_def MarkSessionRecoveredWithLastSeen_def run_tx_def tx_bind_def stmt_def Let_def sql_update_def
      open_with_id_def recovered_at_def)

lemma recover_many:
  assumes "\<And>x. now x \<noteq> zero_time"
  shows "agent_sessions (fold (\<lambda>s d. snd (recoverSession no_faults (now (s_session_id s)) (s_session_id s) d)) (ss :: AgentSession list) d) =
    map (\<lambda>s. if open_session s \<and> s_session_id s \<in> s_session_id ` set ss then recovered_at (now (s_session_id s)) s else s) (agent_sessions d)"
  by (induction ss arbitrary: d) (auto simp: recover_one [OF assms])

lemma recover_active_exact:
  assumes "\<And>x. now x \<noteq> zero_time"
  shows "agent_sessions (snd (RecoverActiveSessions no_faults now d)) =
    map (\<lambda>s. if open_session s then recovered_at (now (s_session_id s)) s else s) (agent_sessions d)"
proof -
  have ids: "s_session_id ` scanAgentSession ` X = s_session_id ` X" for X
    by (auto simp: scanAgentSession_def AgentSession.defs image_image)
  have "set (sql_order_desc s_last_seen_at (filter open_session (agent_sessions d))) = set (filter open_session (agent_sessions d))"
    by (simp add: sql_order_desc_def)
  then have "agent_sessions (snd (RecoverActiveSessions no_faults now d)) =
      map (\<lambda>s. if open_session s \<and> s_session_id s \<in> s_session_id ` set (filter open_session (agent_sessions d)) then recovered_at (now (s_session_id s)) s else s) (agent_sessions d)"
    by (simp add: RecoverActiveSessions_def getActiveSessions_def stmt_def recover_many [of now, OF assms] ids del: set_filter)
  then show ?thesis by auto
qed


text \<open>What a findings post writes: the row of the assignment, with the other sources as they were.\<close>

lemma post_findings_row:
  assumes "PostFindings js flt now uuid sid aid runID overall d = (Inr (), d')"
  obtains a st old row where "sid \<noteq> ''''" and "aid \<noteq> ''''" and "runID \<noteq> ''''"
    and "GetAgentAssignmentByID flt aid (agents d) = Inr a" and "a_session_id a = sid" and "overall_status overall = Some st"
    and "old = sql_row (\<lambda>r. fc_assignment_id r = aid) (task_feedback_cache d)"
    and "sql_row (\<lambda>r. fc_assignment_id r = aid) (task_feedback_cache d') = Some row"
    and "fc_compliance_snapshot row = runID"
    and "fc_source_status row = marshalSourceStatuses js (AList.update ''compliance'' st
      (case old of Some x \<Rightarrow> parseSourceStatuses js (fc_source_status x) | None \<Rightarrow> []))"
    and "(fc_ci_snapshot row, fc_coderabbit_snapshot row, fc_human_review_snapshot row, fc_context_block row) =
      (case old of Some x \<Rightarrow> (fc_ci_snapshot x, fc_coderabbit_snapshot x, fc_human_review_snapshot x, fc_context_block x) | None \<Rightarrow> ('''', '''', '''', ''''))"
    and "fc_task_id row = a_task_id a"
    and "agents d' = agents d" and "filter (\<lambda>r. fc_assignment_id r \<noteq> aid) (task_feedback_cache d') = filter (\<lambda>r. fc_assignment_id r \<noteq> aid) (task_feedback_cache d)"
proof -
  let ?P = "\<lambda>r. fc_assignment_id r = aid"
  obtain a st where ok: "sid \<noteq> ''''" "aid \<noteq> ''''" "runID \<noteq> ''''" and own: "owned_assignment flt aid sid (agents d) = Inr a"
    and st: "overall_status overall = Some st"
    using assms by (auto simp: PostFindings_def split: if_splits sum.splits option.splits)
  have a: "GetAgentAssignmentByID flt aid (agents d) = Inr a" "a_session_id a = sid"
    using own by (auto simp: owned_assignment_def split: sum.splits if_splits)
  define old where "old = sql_row ?P (task_feedback_cache d)"
  have flt: "flt ''scan feedback cache'' = None"
    using assms ok own st by (auto simp: PostFindings_def Let_def GetFeedbackCacheByAssignment_def scanFeedbackCache_def stmt_def
        split: option.splits if_splits)
  define fc where "fc = \<lparr>fc_cache_id = (case old of Some x \<Rightarrow> fc_cache_id x | None \<Rightarrow> uuid ''cache''), fc_assignment_id = aid, fc_session_id = sid,
     fc_task_id = a_task_id a, fc_ci_snapshot = (case old of Some x \<Rightarrow> fc_ci_snapshot x | None \<Rightarrow> ''''),
     fc_coderabbit_snapshot = (case old of Some x \<Rightarrow> fc_coderabbit_snapshot x | None \<Rightarrow> ''''),
     fc_human_review_snapshot = (case old of Some x \<Rightarrow> fc_human_review_snapshot x | None \<Rightarrow> ''''),
     fc_compliance_snapshot = runID, fc_context_block = (case old of Some x \<Rightarrow> fc_context_block x | None \<Rightarrow> ''''), fc_snapshot_at = now,
     fc_cache_hash = (case old of Some x \<Rightarrow> fc_cache_hash x | None \<Rightarrow> ''''),
     fc_source_status = marshalSourceStatuses js (AList.update ''compliance'' st (case old of Some x \<Rightarrow> parseSourceStatuses js (fc_source_status x) | None \<Rightarrow> []))\<rparr>"
  have up: "UpsertFeedbackCache flt now (uuid ''upsert'') fc d = (Inr (), d')"
    using assms ok own st flt
    by (cases old) (simp_all add: PostFindings_def Let_def GetFeedbackCacheByAssignment_def scanFeedbackCache_def stmt_def old_def [symmetric] fc_def
        split: if_splits sum.splits prod.splits)
  define fc1 where "fc1 = fc\<lparr>fc_cache_id := (if fc_cache_id fc = '''' then uuid ''upsert'' else fc_cache_id fc), fc_snapshot_at := truncate_second now\<rparr>"
  have key: "fc_assignment_id fc1 = aid" by (simp add: fc1_def fc_def)
  have "d' = d\<lparr>task_feedback_cache := sql_update ?P (\<lambda>r. fc1\<lparr>fc_cache_id := fc_cache_id r\<rparr>) (task_feedback_cache d)\<rparr> \<and> aid \<in> fc_assignment_id ` set (task_feedback_cache d) \<or>
     d' = d\<lparr>task_feedback_cache := task_feedback_cache d @ [fc1]\<rparr> \<and> aid \<notin> fc_assignment_id ` set (task_feedback_cache d)"
    using up key unfolding UpsertFeedbackCache_def Let_def fc1_def [symmetric] by (auto split: sql_try_splits if_splits)
  then show thesis
  proof (elim disjE conjE)
    assume d': "d' = d\<lparr>task_feedback_cache := sql_update ?P (\<lambda>r. fc1\<lparr>fc_cache_id := fc_cache_id r\<rparr>) (task_feedback_cache d)\<rparr>"
      and "aid \<in> fc_assignment_id ` set (task_feedback_cache d)"
    then obtain x where x: "old = Some x" unfolding old_def sql_row_def by (cases "find ?P (task_feedback_cache d)") (auto simp: find_None_iff)
    have "find ?P (sql_update ?P (\<lambda>r. fc1\<lparr>fc_cache_id := fc_cache_id r\<rparr>) rows) = map_option (\<lambda>r. fc1\<lparr>fc_cache_id := fc_cache_id r\<rparr>) (find ?P rows)" for rows
      by (induction rows) (auto simp: sql_update_def key)
    then have row: "sql_row ?P (task_feedback_cache d') = Some (fc1\<lparr>fc_cache_id := fc_cache_id x\<rparr>)"
      using x by (simp add: d' sql_row_def old_def)
    have "filter (\<lambda>r. fc_assignment_id r \<noteq> aid) (task_feedback_cache d') = filter (\<lambda>r. fc_assignment_id r \<noteq> aid) (task_feedback_cache d)"
      using filter_update [of ?P "\<lambda>r. fc_assignment_id r \<noteq> aid" "\<lambda>r. fc1\<lparr>fc_cache_id := fc_cache_id r\<rparr>" "task_feedback_cache d"] by (simp add: d' key)
    then show thesis
      by (intro that [OF ok a st old_def row]) (simp_all add: fc1_def fc_def x d')
  next
    assume d': "d' = d\<lparr>task_feedback_cache := task_feedback_cache d @ [fc1]\<rparr>" and new: "aid \<notin> fc_assignment_id ` set (task_feedback_cache d)"
    have x: "old = None" using new by (auto simp: old_def sql_row_def find_None_iff)
    have "find ?P (rows @ [fc1]) = Some fc1" if "aid \<notin> fc_assignment_id ` set rows" for rows
      using that by (induction rows) (auto simp: key)
    then have row: "sql_row ?P (task_feedback_cache d') = Some fc1" using new by (simp add: d' sql_row_def)
    show thesis
      by (intro that [OF ok a st old_def row]) (simp_all add: fc1_def fc_def x d')
  qed
qed




text \<open>A concrete encoding of the statuses: every character is marked, every string has an end mark.\<close>

definition mark_str :: "string \<Rightarrow> string" where
  "mark_str s = concat (map (\<lambda>c. [CHR ''c'', c]) s) @ ''e''"

fun read_str :: "string \<Rightarrow> string \<times> string" where
  "read_str [] = ([], [])"
| "read_str [x] = ([], [])"
| "read_str (x # y # r) = (if x = CHR ''c'' then (y # fst (read_str r), snd (read_str r)) else ([], y # r))"

fun read_pairs :: "nat \<Rightarrow> string \<Rightarrow> (string \<times> string) list" where
  "read_pairs 0 s = []"
| "read_pairs (Suc n) s = (if s = [] then [] else (fst (read_str s), fst (read_str (snd (read_str s)))) # read_pairs n (snd (read_str (snd (read_str s)))))"

definition demo_json :: status_json where
  "demo_json = \<lparr>sj_decode = (\<lambda>s. Some (read_pairs (length s) (tl s))),
     sj_encode = (\<lambda>m. CHR ''{'' # concat (map (\<lambda>(k, v). mark_str k @ mark_str v) m))\<rparr>"

lemma read_mark: "read_str (mark_str s @ r) = (s, r)"
proof (induction s)
  case Nil
  show ?case by (cases r) (simp_all add: mark_str_def)
qed (simp add: mark_str_def)

lemma read_marks: "length m \<le> n \<Longrightarrow> read_pairs n (concat (map (\<lambda>(k, v). mark_str k @ mark_str v) m)) = m"
proof (induction m arbitrary: n)
  case Nil
  then show ?case by (cases n) simp_all
next
  case (Cons p m)
  obtain k v where p: "p = (k, v)" by fastforce
  obtain n' where n: "n = Suc n'" using Cons.prems by (cases n) auto
  have "mark_str k \<noteq> []" by (simp add: mark_str_def)
  then show ?case using Cons by (simp add: p n read_mark)
qed

lemma demo_json_reads: "sj_encode demo_json m \<noteq> '''' \<and> (\<exists>m'. sj_decode demo_json (sj_encode demo_json m) = Some m' \<and> map_of m' = map_of m)"
proof -
  have "length m \<le> length (concat (map (\<lambda>(k, v). mark_str k @ mark_str v) m))"
  proof (induction m)
    case (Cons p m)
    obtain k v where p: "p = (k, v)" by fastforce
    have "1 \<le> length (mark_str k)" by (simp add: mark_str_def)
    then show ?case using Cons by (simp add: p)
  qed simp
  then have "read_pairs (Suc (length (concat (map (\<lambda>(k, v). mark_str k @ mark_str v) m)))) (concat (map (\<lambda>(k, v). mark_str k @ mark_str v) m)) = m"
    by (intro read_marks le_SucI)
  then show ?thesis by (simp add: demo_json_def del: read_pairs.simps)
qed

definition demo_findings_db :: review_db where
  "demo_findings_db = empty_review_db\<lparr>agents := demo_joined\<lparr>agent_assignments := [new_assignment (zero_assignment\<lparr>a_id := ''a1'', a_session_id := ''s1''\<rparr>)]\<rparr>\<rparr>"

lemma demo_findings_eval:
  "fst (PostFindings demo_json no_faults 5 (\<lambda>_. ''c1'') ''s1'' ''a1'' ''run'' GateOverallFail demo_findings_db) = Inr ()"
  by code_simp


end
