(* ===== verification/Env_Filter.thy ===== *)
theory Env_Filter
  imports Prelude
begin

text \<open>
  The environment of the processes that Codero starts (\<open>internal/session/env_filter.go\<close>): which variables pass to an
  agent, to the OpenClaw adapter and to Codero itself, and the variables of a managed launch. An environment is the
  list of its \<open>KEY=value\<close> entries, in order; the map of a configuration file is a partial function.
\<close>

section \<open>The lists\<close>

datatype Layer = LayerAgent | LayerOpenClaw | LayerCodero

definition forbiddenForAgent :: "string list" where
  "forbiddenForAgent = [
     ''CODERO_DB_PATH'', ''CODERO_REDIS_ADDR'', ''CODERO_REDIS_PASS'', ''CODERO_REDIS_MAX_RETRIES'',
     ''CODERO_REDIS_RETRY_INTERVAL'', ''CODERO_REDIS_HEALTH_INTERVAL'',
     ''CODERO_API_ADDR'', ''CODERO_API_READ_TIMEOUT'', ''CODERO_API_WRITE_TIMEOUT'', ''CODERO_API_SHUTDOWN_TIMEOUT'',
     ''CODERO_WEBHOOK_SECRET'', ''CODERO_WEBHOOK_ENABLED'',
     ''GITHUB_TOKEN'', ''GH_TOKEN'',
     ''CODERO_AUTO_MERGE_ENABLED'', ''CODERO_AUTO_MERGE_METHOD'', ''CODERO_MERGE_METHOD'', ''CODERO_PR_AUTO_CREATE'',
     ''CODERO_CODERABBIT_AUTO_REVIEW'',
     ''CODERO_HEARTBEAT_SECRET'', ''CODERO_GITHUB_TOKEN'', ''CODERO_LITELLM_MASTER_KEY'', ''CODERO_AIDER_GEMINI_API_KEY'',
     ''CODERO_GEMINI_SECOND_PASS_API_KEY'',
     ''CODERO_LOG_PATH'', ''CODERO_READY_FILE'', ''CODERO_PID_FILE'', ''CODERO_REPOS'', ''CODERO_OBSERVABILITY_HOST'',
     ''CODERO_OBSERVABILITY_PORT'', ''CODERO_DASHBOARD_BASE_PATH'', ''CODERO_DASHBOARD_PUBLIC_BASE_URL'',
     ''CODERO_DASHBOARD_URL'', ''CODERO_CONFIG_PATH'']"

definition forbiddenForOpenClaw :: "string list" where
  "forbiddenForOpenClaw = [
     ''CODERO_DB_PATH'', ''CODERO_REDIS_ADDR'', ''CODERO_REDIS_PASS'', ''CODERO_REDIS_MAX_RETRIES'',
     ''CODERO_REDIS_RETRY_INTERVAL'', ''CODERO_REDIS_HEALTH_INTERVAL'',
     ''GITHUB_TOKEN'', ''GH_TOKEN'', ''CODERO_GITHUB_TOKEN'', ''CODERO_HEARTBEAT_SECRET'',
     ''LITELLM_MASTER_KEY'', ''LITELLM_API_KEY'', ''OPENAI_API_KEY'', ''GEMINI_API_KEY'', ''MINIMAX_API_KEY'',
     ''CODERO_LITELLM_MASTER_KEY'', ''CODERO_LITELLM_API_KEY'', ''CODERO_AIDER_GEMINI_API_KEY'',
     ''CODERO_GEMINI_SECOND_PASS_API_KEY'',
     ''CODERO_LOG_PATH'', ''CODERO_READY_FILE'', ''CODERO_PID_FILE'', ''CODERO_REPOS'', ''CODERO_OBSERVABILITY_HOST'',
     ''CODERO_OBSERVABILITY_PORT'', ''CODERO_DASHBOARD_BASE_PATH'', ''CODERO_DASHBOARD_PUBLIC_BASE_URL'',
     ''CODERO_DASHBOARD_URL'', ''CODERO_CONFIG_PATH'']"

definition allowedForOpenClaw :: "string list" where
  "allowedForOpenClaw = [''CODERO_SESSION_ID'', ''CODERO_AGENT_ID'', ''CODERO_DAEMON_ADDR'', ''CODERO_WEBHOOK_SECRET'', ''CODERO_WEBHOOK_ENABLED'']"

definition allowedForAgent :: "string list" where
  "allowedForAgent = [''CODERO_SESSION_ID'', ''CODERO_AGENT_ID'', ''CODERO_WORKTREE'', ''CODERO_RUNTIME_SESSION_MD'',
     ''CODERO_SESSION_MODE'', ''CODERO_DAEMON_ADDR'', ''CODERO_STARTED_AT'', ''CODERO_TMUX_NAME'', ''CODERO_AGENT_WRITE_SESSION_LOG'',
     ''LITELLM_BASE_URL'', ''LITELLM_URL'', ''LITELLM_PROXY_URL'', ''LITELLM_API_KEY'', ''CODERO_LITELLM_API_KEY'']"

definition systemPassthrough :: "string list" where
  "systemPassthrough = [''PATH'', ''HOME'', ''USER'', ''SHELL'', ''TERM'', ''LANG'', ''LC_ALL'', ''LC_CTYPE'', ''TMPDIR'', ''TMP'', ''TEMP'',
     ''XDG_CONFIG_HOME'', ''XDG_DATA_HOME'', ''XDG_CACHE_HOME'', ''XDG_RUNTIME_DIR'', ''SSH_AUTH_SOCK'', ''DISPLAY'', ''COLORTERM'',
     ''EDITOR'', ''VISUAL'', ''PAGER'']"

definition managedSessionKeys :: "string list" where
  "managedSessionKeys = [''CODERO_SESSION_ID'', ''CODERO_AGENT_ID'', ''CODERO_DAEMON_ADDR'', ''CODERO_WORKTREE'', ''CODERO_SESSION_MODE'',
     ''CODERO_RUNTIME_SESSION_MD'', ''CODERO_TMUX_NAME'', ''CODERO_STARTED_AT'', ''CODERO_AGENT_WRITE_SESSION_LOG'']"

section \<open>Filters\<close>

definition envKey :: "string \<Rightarrow> string" where
  "envKey e = takeWhile (\<lambda>c. c \<noteq> CHR ''='') e"

definition isForbidden :: "string \<Rightarrow> string list \<Rightarrow> bool" where
  "isForbidden key forbidden \<longleftrightarrow> key \<in> set forbidden"

definition isAllowedForAgent :: "string \<Rightarrow> bool" where
  "isAllowedForAgent key =
     (if key = ''GITHUB_TOKEN'' \<or> key = ''GH_TOKEN'' \<or> key = ''CODERO_GITHUB_TOKEN'' then False
      else if key \<in> set systemPassthrough then True
      else if key \<in> set allowedForAgent then True
      else if HasPrefix key ''OPENCLAW_'' then True
      else False)"

definition isAllowedForOpenClaw :: "string \<Rightarrow> bool" where
  "isAllowedForOpenClaw key =
     (if key \<in> set systemPassthrough then True
      else if key \<in> set allowedForOpenClaw then True
      else if HasPrefix key ''OPENCLAW_'' then True
      else False)"

definition filterAgentStrict :: "string list \<Rightarrow> string list" where
  "filterAgentStrict environ = filter (\<lambda>e. isAllowedForAgent (envKey e)) environ"

definition filterOpenClawStrict :: "string list \<Rightarrow> string list" where
  "filterOpenClawStrict environ = filter (\<lambda>e. isAllowedForOpenClaw (envKey e)) environ"

definition filterDenylist :: "string list \<Rightarrow> string list \<Rightarrow> string list" where
  "filterDenylist environ forbidden = filter (\<lambda>e. \<not> isForbidden (envKey e) forbidden) environ"

definition FilterEnvFrom :: "string list \<Rightarrow> Layer \<Rightarrow> string list" where
  "FilterEnvFrom environ layer =
     (case layer of LayerAgent \<Rightarrow> filterAgentStrict environ | LayerOpenClaw \<Rightarrow> filterOpenClawStrict environ | LayerCodero \<Rightarrow> environ)"

definition FilterEnvStrict :: "string list \<Rightarrow> string list" where
  "FilterEnvStrict environ = filter (\<lambda>e. isAllowedForAgent (envKey e)) environ"

definition IsForbiddenForAgent :: "string \<Rightarrow> bool" where
  "IsForbiddenForAgent key \<longleftrightarrow> \<not> isAllowedForAgent key"

definition IsForbiddenForOpenClaw :: "string \<Rightarrow> bool" where
  "IsForbiddenForOpenClaw key \<longleftrightarrow> \<not> isAllowedForOpenClaw key"

definition FilterWrapperEnvVars :: "(string \<rightharpoonup> string) option \<Rightarrow> Layer \<Rightarrow> (string \<rightharpoonup> string) option" where
  "FilterWrapperEnvVars vars layer =
     (case vars of None \<Rightarrow> None
      | Some m \<Rightarrow> Some (\<lambda>k. if (case layer of LayerAgent \<Rightarrow> isAllowedForAgent k | LayerOpenClaw \<Rightarrow> isAllowedForOpenClaw k | LayerCodero \<Rightarrow> True)
                            then m k else None))"

definition removeEnvKeys :: "string list \<Rightarrow> string list \<Rightarrow> string list" where
  "removeEnvKeys environ keys = filter (\<lambda>e. envKey e \<notin> set keys) environ"

definition BuildAgentEnv ::
  "string list \<Rightarrow> string \<Rightarrow> string \<Rightarrow> string \<Rightarrow> string \<Rightarrow> string \<Rightarrow> string \<Rightarrow> string \<Rightarrow> string \<Rightarrow> bool \<Rightarrow> string list" where
  "BuildAgentEnv environ sessionID agentID daemonAddr worktree sessionMode runtimeSessionMD tmuxName startedAt writeLog =
     (let put = (\<lambda>key v. if v \<noteq> '''' then [key @ ''='' @ v] else [])
      in removeEnvKeys (FilterEnvFrom environ LayerAgent) managedSessionKeys @
         put ''CODERO_SESSION_ID'' sessionID @ put ''CODERO_AGENT_ID'' agentID @ put ''CODERO_DAEMON_ADDR'' daemonAddr @
         put ''CODERO_WORKTREE'' worktree @ put ''CODERO_SESSION_MODE'' sessionMode @
         put ''CODERO_RUNTIME_SESSION_MD'' runtimeSessionMD @ put ''CODERO_TMUX_NAME'' tmuxName @
         put ''CODERO_STARTED_AT'' startedAt @
         [''CODERO_AGENT_WRITE_SESSION_LOG='' @ (if writeLog then ''true'' else ''false'')])"

section \<open>What reaches a process\<close>

lemma forbidden_agent: "list_all IsForbiddenForAgent forbiddenForAgent"
  by code_simp

lemma forbidden_openclaw: "list_all IsForbiddenForOpenClaw forbiddenForOpenClaw"
  by code_simp

lemma managed_allowed: "list_all isAllowedForAgent managedSessionKeys"
  by code_simp

lemma envKey_entry: "CHR ''='' \<notin> set k \<Longrightarrow> envKey (k @ ''='' @ v) = k"
  by (induction k) (auto simp: envKey_def)

text \<open>The launch contract: the variables a managed session gets, with their values.\<close>

definition contract ::
  "string \<Rightarrow> string \<Rightarrow> string \<Rightarrow> string \<Rightarrow> string \<Rightarrow> string \<Rightarrow> string \<Rightarrow> string \<Rightarrow> bool \<Rightarrow> (string \<times> string) list" where
  "contract sessionID agentID daemonAddr worktree sessionMode runtimeSessionMD tmuxName startedAt writeLog =
     [(''CODERO_SESSION_ID'', sessionID), (''CODERO_AGENT_ID'', agentID), (''CODERO_DAEMON_ADDR'', daemonAddr), (''CODERO_WORKTREE'', worktree),
      (''CODERO_SESSION_MODE'', sessionMode), (''CODERO_RUNTIME_SESSION_MD'', runtimeSessionMD), (''CODERO_TMUX_NAME'', tmuxName),
      (''CODERO_STARTED_AT'', startedAt), (''CODERO_AGENT_WRITE_SESSION_LOG'', if writeLog then ''true'' else ''false'')]"


lemma build_env_contract:
  "BuildAgentEnv environ sid aid addr wt mode md tmux start log =
   filter (\<lambda>e. isAllowedForAgent (envKey e) \<and> envKey e \<notin> set managedSessionKeys) environ @
   map (\<lambda>(k, v). k @ ''='' @ v) (filter (\<lambda>(k, v). v \<noteq> '''') (contract sid aid addr wt mode md tmux start log))"
  by (simp add: BuildAgentEnv_def FilterEnvFrom_def filterAgentStrict_def removeEnvKeys_def contract_def Let_def conj_commute)

lemma contract_keys: "map fst (contract sid aid addr wt mode md tmux start log) =
    [''CODERO_SESSION_ID'', ''CODERO_AGENT_ID'', ''CODERO_DAEMON_ADDR'', ''CODERO_WORKTREE'', ''CODERO_SESSION_MODE'',
     ''CODERO_RUNTIME_SESSION_MD'', ''CODERO_TMUX_NAME'', ''CODERO_STARTED_AT'', ''CODERO_AGENT_WRITE_SESSION_LOG'']"
  by (simp add: contract_def)

lemma managed_keys_plain: "list_all (\<lambda>k. CHR ''='' \<notin> set k) managedSessionKeys" "distinct managedSessionKeys"
  by code_simp+

lemma contract_managed: "map fst (contract sid aid addr wt mode md tmux start log) = managedSessionKeys"
  unfolding contract_keys by (simp add: managedSessionKeys_def)

lemma contract_entry:
  "(k, v) \<in> set (contract sid aid addr wt mode md tmux start log) \<Longrightarrow> k \<in> set managedSessionKeys \<and> envKey (k @ ''='' @ v) = k"
proof -
  assume "(k, v) \<in> set (contract sid aid addr wt mode md tmux start log)"
  then have "k \<in> set (map fst (contract sid aid addr wt mode md tmux start log))" by force
  then have "k \<in> set managedSessionKeys" unfolding contract_managed .
  then show ?thesis using managed_keys_plain(1) envKey_entry by (auto simp: list_all_iff)
qed

lemma filter_key: "distinct (map fst xs) \<Longrightarrow> (k, v) \<in> set xs \<Longrightarrow> filter (\<lambda>p. fst p = k \<and> Q (snd p)) xs = (if Q v then [(k, v)] else [])"
proof (induction xs)
  case (Cons p xs)
  show ?case
  proof (cases "p = (k, v)")
    case True
    then have "fst q \<noteq> k" if "q \<in> set xs" for q using Cons.prems(1) that by force
    then have "filter (\<lambda>p. fst p = k \<and> Q (snd p)) xs = []" by (auto simp: filter_empty_conv)
    then show ?thesis by (simp add: True)
  next
    case False
    then have v: "(k, v) \<in> set xs" using Cons.prems by simp
    then have "k \<in> set (map fst xs)" by force
    then have "fst p \<noteq> k" using Cons.prems(1) by auto
    with v have "(k, v) \<in> set xs" "fst p \<noteq> k" .
    then show ?thesis using Cons by simp
  qed
qed simp

text \<open>
  C36: an agent process sees no secret of Codero and exactly the launch contract. Whatever the environment of the daemon holds, every entry
  that an agent is started with has a key that is a system variable, one of the allowed variables or begins with
  \<open>OPENCLAW_\<close>, and is none of those documented as forbidden for agents. Of the variables of the contract there is
  exactly the entry with the launch value, or none if that is empty: inherited copies are gone. Every other allowed
  variable is passed on unchanged and in order. The adapter's environment has no key that is documented as forbidden
  for it, and the variables of a configuration file cannot bring one back to either.
\<close>

theorem agent_env_boundary:
  assumes env: "env = BuildAgentEnv environ sid aid addr wt mode md tmux start log"
  shows "(\<forall>e\<in>set env. (envKey e \<in> set systemPassthrough \<union> set allowedForAgent \<or> (\<exists>x. envKey e = ''OPENCLAW_'' @ x)) \<and> envKey e \<notin> set forbiddenForAgent) \<and>
    (\<forall>(k, v)\<in>set (contract sid aid addr wt mode md tmux start log). filter (\<lambda>e. envKey e = k) env = (if v = '''' then [] else [k @ ''='' @ v])) \<and>
    filter (\<lambda>e. envKey e \<notin> set managedSessionKeys) env = filter (\<lambda>e. isAllowedForAgent (envKey e) \<and> envKey e \<notin> set managedSessionKeys) environ \<and>
    (\<forall>e\<in>set (FilterEnvFrom environ LayerOpenClaw). e \<in> set environ \<and> envKey e \<notin> set forbiddenForOpenClaw) \<and>
    (\<forall>m k. FilterWrapperEnvVars (Some vars) LayerAgent = Some m \<longrightarrow> k \<in> set forbiddenForAgent \<longrightarrow> m k = None) \<and>
    (\<forall>m k. FilterWrapperEnvVars (Some vars) LayerOpenClaw = Some m \<longrightarrow> k \<in> set forbiddenForOpenClaw \<longrightarrow> m k = None)"
proof -
  let ?c = "contract sid aid addr wt mode md tmux start log"
  note env' = env [unfolded build_env_contract]
  have fa: "\<not> isAllowedForAgent k" if "k \<in> set forbiddenForAgent" for k
    using that forbidden_agent by (auto simp: list_all_iff IsForbiddenForAgent_def)
  have fo: "\<not> isAllowedForOpenClaw k" if "k \<in> set forbiddenForOpenClaw" for k
    using that forbidden_openclaw by (auto simp: list_all_iff IsForbiddenForOpenClaw_def)
  have allowed: "isAllowedForAgent (envKey e)" if "e \<in> set env" for e
    using that managed_allowed contract_entry unfolding env' by (fastforce simp: list_all_iff)
  have "envKey e \<in> set systemPassthrough \<union> set allowedForAgent \<or> (\<exists>x. envKey e = ''OPENCLAW_'' @ x)" if "e \<in> set env" for e
    using allowed [OF that] unfolding isAllowedForAgent_def HasPrefix_iff by (meson UnI1 UnI2)
  moreover have "envKey e \<notin> set forbiddenForAgent" if "e \<in> set env" for e using allowed [OF that] fa by blast
  moreover have "filter (\<lambda>e. envKey e = k) env = (if v = '''' then [] else [k @ ''='' @ v])" if "(k, v) \<in> set ?c" for k v
  proof -
    have k: "k \<in> set managedSessionKeys" using contract_entry [OF that] by simp
    have "filter (\<lambda>e. envKey e = k) env = filter (\<lambda>e. envKey e = k) (map (\<lambda>(k, v). k @ ''='' @ v) (filter (\<lambda>(k, v). v \<noteq> '''') ?c))"
      using k unfolding env' by (auto simp: filter_empty_conv)
    also have "\<dots> = map (\<lambda>(k, v). k @ ''='' @ v) (filter (\<lambda>p. fst p = k \<and> snd p \<noteq> '''') ?c)"
      unfolding filter_map filter_filter comp_def using contract_entry by (intro arg_cong [where f = "map _"] filter_cong) fastforce+
    also have "filter (\<lambda>p. fst p = k \<and> snd p \<noteq> '''') ?c = (if v = '''' then [] else [(k, v)])"
      using filter_key [OF _ that, of "\<lambda>v. v \<noteq> ''''"] managed_keys_plain(2) by (simp add: contract_managed)
    finally show ?thesis by simp
  qed
  moreover have "filter (\<lambda>e. envKey e \<notin> set managedSessionKeys) env = filter (\<lambda>e. isAllowedForAgent (envKey e) \<and> envKey e \<notin> set managedSessionKeys) environ"
  proof -
    have "filter (\<lambda>e. envKey e \<notin> set managedSessionKeys) (map (\<lambda>(k, v). k @ ''='' @ v) (filter (\<lambda>(k, v). v \<noteq> '''') ?c)) = []"
      using contract_entry by (fastforce simp: filter_empty_conv)
    then show ?thesis unfolding env' by (simp add: conj_ac)
  qed
  moreover have "e \<in> set environ \<and> envKey e \<notin> set forbiddenForOpenClaw" if "e \<in> set (FilterEnvFrom environ LayerOpenClaw)" for e
    using that fo by (auto simp: FilterEnvFrom_def filterOpenClawStrict_def)
  ultimately show ?thesis using fa fo by (auto simp: FilterWrapperEnvVars_def)
qed


theorem agent_env_boundary_witness:
  "\<exists>env. env = BuildAgentEnv [''PATH=/bin'', ''GITHUB_TOKEN=t'', ''CODERO_SESSION_ID=old''] ''s1'' ''a'' '''' '''' '''' '''' '''' '''' True \<and>
     set (map envKey env) \<inter> set forbiddenForAgent = {} \<and> filter (\<lambda>e. envKey e = ''CODERO_SESSION_ID'') env = [''CODERO_SESSION_ID=s1'']"
proof -
  let ?env = "BuildAgentEnv [''PATH=/bin'', ''GITHUB_TOKEN=t'', ''CODERO_SESSION_ID=old''] ''s1'' ''a'' '''' '''' '''' '''' '''' '''' True"
  note b = agent_env_boundary [of ?env "[''PATH=/bin'', ''GITHUB_TOKEN=t'', ''CODERO_SESSION_ID=old'']" "''s1''" "''a''" "''''" "''''" "''''" "''''" "''''" "''''" True "\<lambda>_. None", OF refl]
  have "set (map envKey ?env) \<inter> set forbiddenForAgent = {}" using b [THEN conjunct1] unfolding set_map by blast
  moreover have "filter (\<lambda>e. envKey e = ''CODERO_SESSION_ID'') ?env = [''CODERO_SESSION_ID=s1'']"
    using b [THEN conjunct2, THEN conjunct1] by (auto simp: contract_def)
  ultimately show ?thesis by blast
qed

end
