(* ===== verification/Session_Metrics.thy ===== *)
theory Session_Metrics
  imports Review_Store Session_Inv
begin

text \<open>
  The session metrics monitor, \<open>internal/sessmetrics\<close>: the import of token usage from the spend log of
  LiteLLM, the detection of context pressure, and the pass that runs both and marks idle sessions. The spend log is
  the list of its rows in the order in which the server breaks ties; the column
  \<open>litellm_session_id\<close>, which no code of the repository writes, is an argument that gives its value for a session. The
  floats of the detector are rationals: its thresholds have small denominators, so only an inflation
  that is exactly one and a half of the mean could be rounded to the other side. The ticker of \<open>Run\<close> and logging are left out.
\<close>

section \<open>Import of the spend log\<close>

record spend_row =
  sl_request_id :: string
  sl_session_id :: "string option"
  sl_model :: string
  sl_prompt_tokens :: int
  sl_completion_tokens :: int
  sl_start_time :: gotime

definition spend_query :: "gotime \<Rightarrow> spend_row list \<Rightarrow> spend_row list" where
  "spend_query cursor logs =
     take 2000 (sql_order sl_start_time
       (filter (\<lambda>r. sl_session_id r \<noteq> None \<and> sl_session_id r \<noteq> Some '''' \<and> sl_start_time r > cursor) logs))"

text \<open>\<open>SELECT MAX(...)\<close>; without rows the accumulator keeps its zero, and so it does when the query fails.\<close>

definition sql_max :: "int list \<Rightarrow> int option" where
  "sql_max xs = (case xs of [] \<Rightarrow> None | y # ys \<Rightarrow> Some (foldr max ys y))"

definition seed :: "faults \<Rightarrow> (string \<Rightarrow> string option) \<Rightarrow> review_db \<Rightarrow> string \<Rightarrow> int \<times> int" where
  "seed flt litellm_of d sid =
     (if flt (''seed '' @ sid) \<noteq> None then (0, 0)
      else let rows = filter (\<lambda>r. tm_session_id r \<in> s_session_id ` set (filter (\<lambda>s. litellm_of (s_session_id s) = Some sid)
             (agent_sessions (agents d)))) (session_token_metrics d)
      in (case sql_max (map tm_cumulative_prompt_tokens rows) of None \<Rightarrow> 0 | Some n \<Rightarrow> n,
          case sql_max (map tm_cumulative_completion_tokens rows) of None \<Rightarrow> 0 | Some n \<Rightarrow> n))"

definition linked_session :: "faults \<Rightarrow> (string \<Rightarrow> string option) \<Rightarrow> string \<Rightarrow> review_db \<Rightarrow> string option" where
  "linked_session flt litellm_of sid d =
     (if flt ''resolve session'' \<noteq> None then None
      else map_option s_session_id (sql_row (\<lambda>s. litellm_of (s_session_id s) = Some sid) (agent_sessions (agents d))))"

fun import_rows ::
  "faults \<Rightarrow> (string \<Rightarrow> gotime) \<Rightarrow> (string \<Rightarrow> string option) \<Rightarrow> spend_row list \<Rightarrow> (string \<Rightarrow> int \<times> int) \<Rightarrow> int \<Rightarrow> review_db \<Rightarrow>
   (int \<times> error option) \<times> review_db" where
  "import_rows flt now litellm_of [] acc imported d = ((imported, None), d)"
| "import_rows flt now litellm_of (r # rs) acc imported d =
     (let sid = the (sl_session_id r) in
      case linked_session (at_site (sl_request_id r) flt) litellm_of sid d of
        None \<Rightarrow> import_rows flt now litellm_of rs acc imported d
      | Some coderoSessionID \<Rightarrow>
        let cumPrompt = int64 (fst (acc sid) + sl_prompt_tokens r);
            cumComp = int64 (snd (acc sid) + sl_completion_tokens r);
            row = \<lparr>tm_id = 0, tm_session_id = coderoSessionID, tm_litellm_request_id = Some (sl_request_id r), tm_model = sl_model r,
              tm_prompt_tokens = sl_prompt_tokens r, tm_completion_tokens = sl_completion_tokens r,
              tm_cumulative_prompt_tokens = cumPrompt, tm_cumulative_completion_tokens = cumComp,
              tm_request_time = sl_start_time r, tm_synced_at = zero_time\<rparr>
        in (case UpsertTokenMetric (at_site (sl_request_id r) flt) (now (sl_request_id r)) row d of
            (Inl e, d1) \<Rightarrow> ((imported, Some e), d1)
          | (Inr _, d1) \<Rightarrow> import_rows flt now litellm_of rs (acc(sid := (cumPrompt, cumComp))) (imported + 1) d1))"

definition Sync ::
  "faults \<Rightarrow> (string \<Rightarrow> gotime) \<Rightarrow> (string \<Rightarrow> string option) \<Rightarrow> spend_row list \<Rightarrow> review_db \<Rightarrow> (int \<times> error option) \<times> review_db" where
  "Sync flt now litellm_of logs d =
     (case GetLatestSyncedRequestTime (at_site ''cursor'' flt) d of
        Inl e \<Rightarrow> ((0, Some e), d)
      | Inr cursor \<Rightarrow> (case flt ''litellm sync'' of
          Some e \<Rightarrow> ((0, Some (OtherError e)), d)
        | None \<Rightarrow> import_rows flt now litellm_of (spend_query cursor logs) (seed flt litellm_of d) 0 d))"

section \<open>Context pressure\<close>

definition modelContextLimit :: "string \<Rightarrow> int" where
  "modelContextLimit model =
     (let m = ToLower model in
      if Contains m ''claude-opus-4'' \<or> Contains m ''claude-sonnet-4'' \<or> Contains m ''claude-haiku-4'' then 200000
      else if Contains m ''claude-3-5'' \<or> Contains m ''claude-3.5'' then 200000
      else if Contains m ''claude-3'' then 200000
      else if Contains m ''gpt-4o'' \<or> Contains m ''gpt-4-turbo'' then 128000
      else if Contains m ''gpt-4'' then 8192
      else if HasPrefix m ''o1'' \<or> HasPrefix m ''o3'' \<or> Contains m ''/o1'' \<or> Contains m ''/o3'' then 200000
      else if Contains m ''gemini-2.5'' then 1000000
      else if Contains m ''gemini-2.0'' \<or> Contains m ''gemini-1.5'' then 1000000
      else if Contains m ''gemini'' then 32768
      else if Contains m ''qwen3'' \<or> Contains m ''qwen2.5'' then 128000
      else if Contains m ''kimi'' \<or> Contains m ''moonshot'' then 128000
      else if Contains m ''glm'' then 128000
      else if Contains m ''deepseek'' then 64000
      else if Contains m ''llama-3.3'' \<or> Contains m ''llama-3.1'' then 128000
      else 0)"

record PressureConfig =
  WarningPct :: rat
  CriticalPct :: rat
  TrendWindow :: nat
  TrendInflationFactor :: rat

definition defaultPressureConfig :: PressureConfig where
  "defaultPressureConfig = \<lparr>WarningPct = 65 / 100, CriticalPct = 85 / 100, TrendWindow = 5, TrendInflationFactor = 3 / 2\<rparr>"

definition threshold_level :: "PressureConfig \<Rightarrow> TokenMetricRow \<Rightarrow> string" where
  "threshold_level cfg r =
     (let limit = modelContextLimit (tm_model r) in
      if limit > 0 then
        let pct = of_int (tm_prompt_tokens r) / of_int limit
        in if pct \<ge> CriticalPct cfg then ''critical'' else if pct \<ge> WarningPct cfg then ''warning'' else ''normal''
      else ''normal'')"

definition mean_prompt :: "TokenMetricRow list \<Rightarrow> rat" where
  "mean_prompt rows = of_int (sum_list (map tm_prompt_tokens rows)) / of_nat (length rows)"

text \<open>With an empty window the mean is \<open>NaN\<close> and the comparison fails.\<close>

definition inflated :: "PressureConfig \<Rightarrow> TokenMetricRow list \<Rightarrow> bool" where
  "inflated cfg rows \<longleftrightarrow>
     (let recent = drop (length rows - TrendWindow cfg) rows
      in recent \<noteq> [] \<and> mean_prompt rows > 0 \<and> mean_prompt recent \<ge> TrendInflationFactor cfg * mean_prompt rows)"

definition evaluate :: "PressureConfig \<Rightarrow> faults \<Rightarrow> string \<Rightarrow> review_db \<Rightarrow> (error + unit) \<times> review_db" where
  "evaluate cfg flt sid d =
     (case GetTokenMetrics flt sid d of
        Inl e \<Rightarrow> (Inl e, d)
      | Inr rows \<Rightarrow>
        if rows = [] then (Inr (), d)
        else let l0 = threshold_level cfg (last rows);
                 level = (if l0 = ''normal'' \<and> length rows > TrendWindow cfg \<and> inflated cfg rows then ''warning'' else l0)
        in (case SetContextPressure flt sid level (agents d) of (r, a) \<Rightarrow> (r, d\<lparr>agents := a\<rparr>)))"

definition EvaluateAll :: "PressureConfig \<Rightarrow> faults \<Rightarrow> review_db \<Rightarrow> (error + unit) \<times> review_db" where
  "EvaluateAll cfg flt d =
     (case ListActiveAgentSessions (at_site ''list'' flt) (agents d) of
        Inl e \<Rightarrow> (Inl e, d)
      | Inr sessions \<Rightarrow> (Inr (), fold (\<lambda>s d. snd (evaluate cfg (at_site (s_session_id s) flt) (s_session_id s) d)) sessions d))"

section \<open>A pass of the monitor\<close>

definition idleThreshold :: int where
  "idleThreshold = 90 * 1000000000"

definition transitionIdleSessions :: "faults \<Rightarrow> gotime \<Rightarrow> review_db \<Rightarrow> (error + unit) \<times> review_db" where
  "transitionIdleSessions flt now d =
     (case TransitionIdleSessions flt now (now - idleThreshold) (agents d) of (r, a) \<Rightarrow> (r, d\<lparr>agents := a\<rparr>))"

text \<open>\<open>logs\<close> is absent when no spend log is configured.\<close>

definition runOnce ::
  "PressureConfig \<Rightarrow> faults \<Rightarrow> (string \<Rightarrow> gotime) \<Rightarrow> (string \<Rightarrow> string option) \<Rightarrow> spend_row list option \<Rightarrow> review_db \<Rightarrow> review_db" where
  "runOnce cfg flt now litellm_of logs d =
     (let d1 = (case logs of None \<Rightarrow> d | Some rows \<Rightarrow> snd (Sync (at_site ''sync'' flt) now litellm_of rows d));
          d2 = snd (EvaluateAll cfg (at_site ''pressure'' flt) d1)
      in snd (transitionIdleSessions (at_site ''idle'' flt) (now ''idle'') d2))"

section \<open>What an import adds\<close>

lemma int64_add: "int64 (int64 a + b) = int64 (a + b)"
proof -
  have "(word_of_int (sint (word_of_int a :: 64 word) + b) :: 64 word) = word_of_int (a + b)"
    by (simp only: of_int_add of_int_sint scast_id)
  then show ?thesis by (simp add: int64_def)
qed

text \<open>Tokens that a list of spend rows adds to a LiteLLM session.\<close>

definition spent :: "(spend_row \<Rightarrow> int) \<Rightarrow> string \<Rightarrow> spend_row list \<Rightarrow> int" where
  "spent f sid rs = sum_list (map f (filter (\<lambda>r. the (sl_session_id r) = sid) rs))"

lemma spent_simps [simp]:
  "spent f sid [] = 0" "spent f sid (r # rs) = (if the (sl_session_id r) = sid then f r else 0) + spent f sid rs"
  by (simp_all add: spent_def)

definition already :: "review_db \<Rightarrow> spend_row \<Rightarrow> bool" where
  "already d r \<longleftrightarrow> Some (sl_request_id r) \<in> tm_litellm_request_id ` set (session_token_metrics d)"

definition linked :: "(string \<Rightarrow> string option) \<Rightarrow> review_db \<Rightarrow> spend_row \<Rightarrow> bool" where
  "linked litellm_of d r \<longleftrightarrow> linked_session no_faults litellm_of (the (sl_session_id r)) d \<noteq> None"

text \<open>The row of a request whose session had spent \<open>p\<close> and \<open>c\<close> tokens, this request included.\<close>

definition metric_of :: "(string \<Rightarrow> string option) \<Rightarrow> review_db \<Rightarrow> spend_row \<Rightarrow> int \<Rightarrow> int \<Rightarrow> TokenMetricRow \<Rightarrow> bool" where
  "metric_of litellm_of d r p c row \<longleftrightarrow>
     Some (tm_session_id row) = linked_session no_faults litellm_of (the (sl_session_id r)) d \<and>
     tm_litellm_request_id row = Some (sl_request_id r) \<and> tm_model row = sl_model r \<and>
     tm_prompt_tokens row = sl_prompt_tokens r \<and> tm_completion_tokens row = sl_completion_tokens r \<and>
     tm_request_time row = truncate_second (sl_start_time r) \<and>
     tm_cumulative_prompt_tokens row = int64 p \<and> tm_cumulative_completion_tokens row = int64 c"

lemma linked_agents: "agents d' = agents d \<Longrightarrow> linked_session flt lk sid d' = linked_session flt lk sid d"
  by (simp add: linked_session_def)

definition metric_added :: "gotime \<Rightarrow> TokenMetricRow \<Rightarrow> review_db \<Rightarrow> TokenMetricRow list" where
  "metric_added t row d =
     (if tm_litellm_request_id row \<in> tm_litellm_request_id ` set (session_token_metrics d) then []
      else [row\<lparr>tm_id := next_metric_id (session_token_metrics d), tm_request_time := truncate_second (tm_request_time row), tm_synced_at := truncate_second t\<rparr>])"

lemma upsert_metric:
  assumes "tm_litellm_request_id row \<noteq> None"
  shows "UpsertTokenMetric no_faults t row d = (Inr (), d\<lparr>session_token_metrics := session_token_metrics d @ metric_added t row d\<rparr>)"
proof -
  have "(\<exists>r\<in>set (session_token_metrics d). tm_litellm_request_id row \<noteq> None \<and> tm_litellm_request_id r = tm_litellm_request_id row) \<longleftrightarrow>
      tm_litellm_request_id row \<in> tm_litellm_request_id ` set (session_token_metrics d)"
    using assms by (force simp: image_iff)
  then show ?thesis by (simp add: UpsertTokenMetric_def metric_added_def)
qed

definition import_spec :: "(string \<Rightarrow> string option) \<Rightarrow> review_db \<Rightarrow> (string \<Rightarrow> int \<times> int) \<Rightarrow> spend_row list \<Rightarrow> TokenMetricRow list \<Rightarrow> bool" where
  "import_spec lk d acc batch news \<longleftrightarrow>
     map tm_litellm_request_id news = map (Some \<circ> sl_request_id) (filter (\<lambda>r. \<not> already d r) batch) \<and>
     (\<forall>pre r post. batch = pre @ r # post \<longrightarrow> \<not> already d r \<longrightarrow>
        (let sid = the (sl_session_id r) in \<exists>row\<in>set news. metric_of lk d r
          (fst (acc sid) + spent sl_prompt_tokens sid (pre @ [r])) (snd (acc sid) + spent sl_completion_tokens sid (pre @ [r])) row))"

lemma import_spec_step:
  assumes spec: "import_spec lk d1 (acc(sid := (int64 p, int64 c))) batch news"
    and sid: "sid = the (sl_session_id r)" and p: "p = fst (acc sid) + sl_prompt_tokens r" and c: "c = snd (acc sid) + sl_completion_tokens r"
    and m1: "\<And>x. metric_of lk d1 x = metric_of lk d x" and fresh: "\<And>x. x \<in> set batch \<Longrightarrow> already d1 x = already d x"
    and new1: "if already d r then new1 = [] else \<exists>row. new1 = [row] \<and> metric_of lk d r p c row"
  shows "import_spec lk d acc (r # batch) (new1 @ news)"
proof -
  have "filter (\<lambda>r. \<not> already d1 r) batch = filter (\<lambda>r. \<not> already d r) batch" using fresh by (auto intro: filter_cong)
  moreover have "map tm_litellm_request_id new1 = map (Some \<circ> sl_request_id) (if already d r then [] else [r])"
    using new1 by (auto simp: metric_of_def split: if_splits)
  ultimately have ids: "map tm_litellm_request_id (new1 @ news) = map (Some \<circ> sl_request_id) (filter (\<lambda>r. \<not> already d r) (r # batch))"
    using spec by (simp add: import_spec_def)
  have "\<exists>row\<in>set (new1 @ news). metric_of lk d x (fst (acc (the (sl_session_id x))) + spent sl_prompt_tokens (the (sl_session_id x)) (pre @ [x]))
      (snd (acc (the (sl_session_id x))) + spent sl_completion_tokens (the (sl_session_id x)) (pre @ [x])) row"
    if split: "r # batch = pre @ x # post" and x: "\<not> already d x" for pre x post
  proof (cases pre)
    case Nil
    then show ?thesis using split x new1 by (auto simp: p c sid)
  next
    case (Cons y pre')
    then have b: "y = r" "batch = pre' @ x # post" using split by auto
    let ?u = "the (sl_session_id x)" and ?acc = "acc(sid := (int64 p, int64 c))"
    have "\<not> already d1 x" using fresh b x by simp
    then obtain row where row: "row \<in> set news"
      "metric_of lk d x (fst (?acc ?u) + spent sl_prompt_tokens ?u (pre' @ [x])) (snd (?acc ?u) + spent sl_completion_tokens ?u (pre' @ [x])) row"
      using spec b(2) unfolding import_spec_def m1 Let_def by blast
    have "metric_of lk d x (fst (acc ?u) + spent sl_prompt_tokens ?u (pre @ [x])) (snd (acc ?u) + spent sl_completion_tokens ?u (pre @ [x])) row"
      using row(2) by (cases "?u = sid") (simp_all add: metric_of_def Cons b sid p c int64_add add.assoc)
    with row(1) show ?thesis by auto
  qed
  with ids show ?thesis unfolding import_spec_def Let_def by blast
qed

lemma import_exact:
  assumes "distinct (map sl_request_id rs)"
  shows "\<exists>news. import_rows no_faults now lk rs acc k d =
      ((k + int (length (filter (linked lk d) rs)), None), d\<lparr>session_token_metrics := session_token_metrics d @ news\<rparr>) \<and>
    import_spec lk d acc (filter (linked lk d) rs) news"
  using assms
proof (induction rs arbitrary: acc k d)
  case Nil
  show ?case by (intro exI [of _ "[]"]) (simp add: import_spec_def)
next
  case (Cons r rs)
  let ?sid = "the (sl_session_id r)"
  show ?case
  proof (cases "linked_session no_faults lk ?sid d")
    case None
    then show ?thesis using Cons by (simp add: linked_def Let_def del: no_faults_None)
  next
    case (Some cs)
    define p where "p = fst (acc ?sid) + sl_prompt_tokens r"
    define c where "c = snd (acc ?sid) + sl_completion_tokens r"
    define row where "row = \<lparr>tm_id = 0, tm_session_id = cs, tm_litellm_request_id = Some (sl_request_id r), tm_model = sl_model r,
      tm_prompt_tokens = sl_prompt_tokens r, tm_completion_tokens = sl_completion_tokens r,
      tm_cumulative_prompt_tokens = int64 p, tm_cumulative_completion_tokens = int64 c,
      tm_request_time = sl_start_time r, tm_synced_at = zero_time\<rparr>"
    define new1 where "new1 = metric_added (now (sl_request_id r)) row d"
    define d1 where "d1 = d\<lparr>session_token_metrics := session_token_metrics d @ new1\<rparr>"
    have up: "UpsertTokenMetric no_faults (now (sl_request_id r)) row d = (Inr (), d1)"
      unfolding d1_def new1_def by (rule upsert_metric) (simp add: row_def)
    have n1: "if already d r then new1 = [] else \<exists>x. new1 = [x] \<and> metric_of lk d r p c x"
      using Some by (simp add: new1_def metric_added_def already_def row_def metric_of_def)
    have ag: "agents d1 = agents d" by (simp add: d1_def)
    have lk1: "linked lk d1 = linked lk d" by (simp add: fun_eq_iff linked_def linked_agents [OF ag])
    have m1: "metric_of lk d1 x = metric_of lk d x" for x by (simp add: fun_eq_iff metric_of_def linked_agents [OF ag])
    have fresh: "already d1 x = already d x" if "x \<in> set rs" for x
    proof -
      have "sl_request_id r \<notin> sl_request_id ` set rs" using Cons.prems by simp
      then have "sl_request_id x \<noteq> sl_request_id r" using that by (metis imageI)
      then show ?thesis using n1 by (auto simp: already_def d1_def metric_of_def split: if_splits)
    qed
    let ?acc = "acc(?sid := (int64 p, int64 c))" and ?batch = "filter (linked lk d) rs"
    from Cons.IH [of ?acc "k + 1" d1, OF conjunct2 [OF Cons.prems [unfolded list.map distinct.simps]]] obtain news where
      run: "import_rows no_faults now lk rs ?acc (k + 1) d1 =
        ((k + 1 + int (length ?batch), None), d1\<lparr>session_token_metrics := session_token_metrics d1 @ news\<rparr>)"
      and spec: "import_spec lk d1 ?acc ?batch news" unfolding lk1 by blast
    have "import_rows no_faults now lk (r # rs) acc k d =
        ((k + int (length (filter (linked lk d) (r # rs))), None), d\<lparr>session_token_metrics := session_token_metrics d @ new1 @ news\<rparr>)"
      using up run Some by (simp add: linked_def Let_def p_def [symmetric] c_def [symmetric] row_def [symmetric] d1_def del: no_faults_None)
    moreover have "import_spec lk d acc (filter (linked lk d) (r # rs)) (new1 @ news)"
      using import_spec_step [OF spec refl p_def c_def m1 fresh n1] Some by (simp add: linked_def del: no_faults_None)
    ultimately show ?thesis by blast
  qed
qed

text \<open>
  C37: what an import of the spend log adds. Without failures, and when the log has each request once, an import
  takes the logged requests of linked sessions that start after the cursor, the oldest two thousand, and appends one row
  for each that has none yet, in that order; nothing else in the database changes. The running totals of a new row are
  the largest ones stored for its session plus everything the batch has for that session up to this request. The
  batch may hold requests that were imported before: the cursor is the latest start cut to a whole second, so
  requests of that second are fetched, counted in the totals and reported as imported again.
\<close>

theorem sync_totals_exact:
  assumes "distinct (map sl_request_id logs)" and cursor: "GetLatestSyncedRequestTime no_faults d = Inr cursor"
    and batch: "batch = filter (linked lk d) (spend_query cursor logs)"
  shows "\<exists>news. Sync no_faults now lk logs d =
      ((int (length batch), None), d\<lparr>session_token_metrics := session_token_metrics d @ news\<rparr>) \<and>
    map tm_litellm_request_id news = map (Some \<circ> sl_request_id) (filter (\<lambda>r. \<not> already d r) batch) \<and>
    (\<forall>pre r post sid. batch = pre @ r # post \<longrightarrow> \<not> already d r \<longrightarrow> sl_session_id r = Some sid \<longrightarrow>
      (\<exists>row\<in>set news. metric_of lk d r (fst (seed no_faults lk d sid) + spent sl_prompt_tokens sid (pre @ [r]))
         (snd (seed no_faults lk d sid) + spent sl_completion_tokens sid (pre @ [r])) row)) \<and>
    (\<forall>r\<in>set logs. linked lk d r \<and> sl_session_id r \<notin> {None, Some ''''} \<and> cursor < sl_start_time r \<and> length logs \<le> 2000 \<longrightarrow> r \<in> set batch)"
proof -
  let ?P = "\<lambda>r. sl_session_id r \<noteq> None \<and> sl_session_id r \<noteq> Some '''' \<and> sl_start_time r > cursor"
  have "distinct (map sl_request_id (sort_key sl_start_time (filter ?P logs)))"
    using distinct_map_filter [OF assms(1), of ?P] unfolding distinct_map set_sort distinct_sort .
  then have "distinct (map sl_request_id (spend_query cursor logs))"
    unfolding spend_query_def sql_order_def take_map [symmetric] by (rule distinct_take)
  from import_exact [OF this, of now lk "seed no_faults lk d" 0 d] cursor
  obtain news where news: "Sync no_faults now lk logs d =
      ((int (length batch), None), d\<lparr>session_token_metrics := session_token_metrics d @ news\<rparr>)"
    and spec: "import_spec lk d (seed no_faults lk d) batch news"
    unfolding batch by (auto simp: Sync_def)
  have "r \<in> set batch" if "r \<in> set logs" "linked lk d r" "sl_session_id r \<notin> {None, Some ''''}" "cursor < sl_start_time r" "length logs \<le> 2000" for r
  proof -
    have "length (filter (\<lambda>r. sl_session_id r \<noteq> None \<and> sl_session_id r \<noteq> Some '''' \<and> sl_start_time r > cursor) logs) \<le> 2000"
      using length_filter_le that(5) le_trans by blast
    then show ?thesis using that by (simp add: batch spend_query_def sql_order_def)
  qed
  moreover have "\<exists>row\<in>set news. metric_of lk d r (fst (seed no_faults lk d sid) + spent sl_prompt_tokens sid (pre @ [r]))
      (snd (seed no_faults lk d sid) + spent sl_completion_tokens sid (pre @ [r])) row"
    if "batch = pre @ r # post" "\<not> already d r" "sl_session_id r = Some sid" for pre r post sid
    using spec that unfolding import_spec_def Let_def by (metis option.sel)
  ultimately show ?thesis using news spec unfolding import_spec_def by (intro exI [of _ news] conjI) blast+
qed

text \<open>Two requests within one second, the second one seen by a later import: its total is 25 tokens instead of 15.\<close>

definition demo_spend :: "string \<Rightarrow> int \<Rightarrow> gotime \<Rightarrow> spend_row" where
  "demo_spend rid n t = \<lparr>sl_request_id = rid, sl_session_id = Some ''l1'', sl_model = ''gpt-4o'', sl_prompt_tokens = n,
     sl_completion_tokens = 0, sl_start_time = t\<rparr>"

definition demo_metrics_db :: review_db where
  "demo_metrics_db = empty_review_db\<lparr>agents := snd (RegisterAgentSessionWithSecret (\<lambda>_. False) no_faults 0 ''k'' ''s1'' ''ann'' ''cli'' '''' empty_agent_db)\<rparr>"

definition demo_synced :: review_db where
  "demo_synced = snd (Sync no_faults (\<lambda>_. 0) (\<lambda>_. Some ''l1'') [demo_spend ''r1'' 10 (Second + 1)] demo_metrics_db)"

lemma demo_synced_eval:
  "GetLatestSyncedRequestTime no_faults demo_synced = Inr Second"
  "filter (linked (\<lambda>_. Some ''l1'') demo_synced) (spend_query Second [demo_spend ''r1'' 10 (Second + 1), demo_spend ''r2'' 5 (Second + 2)]) =
     [demo_spend ''r1'' 10 (Second + 1), demo_spend ''r2'' 5 (Second + 2)]"
  "fst (seed no_faults (\<lambda>_. Some ''l1'') demo_synced ''l1'') = 10" "\<not> already demo_synced (demo_spend ''r2'' 5 (Second + 2))"
  "spent sl_prompt_tokens ''l1'' [demo_spend ''r1'' 10 (Second + 1), demo_spend ''r2'' 5 (Second + 2)] = 15"
  "map tm_cumulative_prompt_tokens (session_token_metrics demo_synced) = [10]" "int64 25 = 25"
  by code_simp+

theorem sync_totals_exact_witness:
  "\<exists>news row. Sync no_faults (\<lambda>_. 0) (\<lambda>_. Some ''l1'') [demo_spend ''r1'' 10 (Second + 1), demo_spend ''r2'' 5 (Second + 2)] demo_synced =
      ((2, None), demo_synced\<lparr>session_token_metrics := session_token_metrics demo_synced @ news\<rparr>) \<and>
    row \<in> set news \<and> tm_prompt_tokens row = 5 \<and> tm_cumulative_prompt_tokens row = 25"
proof -
  let ?r1 = "demo_spend ''r1'' 10 (Second + 1)" and ?r2 = "demo_spend ''r2'' 5 (Second + 2)"
  have "distinct (map sl_request_id [?r1, ?r2])" by (simp add: demo_spend_def)
  from sync_totals_exact [OF this demo_synced_eval(1) demo_synced_eval(2) [symmetric], of "\<lambda>_. 0"] obtain news where
    run: "Sync no_faults (\<lambda>_. 0) (\<lambda>_. Some ''l1'') [?r1, ?r2] demo_synced =
      ((int (length [?r1, ?r2]), None), demo_synced\<lparr>session_token_metrics := session_token_metrics demo_synced @ news\<rparr>)"
    and rows: "\<forall>pre r post sid. [?r1, ?r2] = pre @ r # post \<longrightarrow> \<not> already demo_synced r \<longrightarrow> sl_session_id r = Some sid \<longrightarrow>
      (\<exists>row\<in>set news. metric_of (\<lambda>_. Some ''l1'') demo_synced r (fst (seed no_faults (\<lambda>_. Some ''l1'') demo_synced sid) + spent sl_prompt_tokens sid (pre @ [r]))
         (snd (seed no_faults (\<lambda>_. Some ''l1'') demo_synced sid) + spent sl_completion_tokens sid (pre @ [r])) row)" by blast
  have "[?r1, ?r2] = [?r1] @ ?r2 # []" "sl_session_id ?r2 = Some ''l1''" by (simp_all add: demo_spend_def)
  with rows demo_synced_eval(4) obtain row where "row \<in> set news" and
    "metric_of (\<lambda>_. Some ''l1'') demo_synced ?r2 (10 + spent sl_prompt_tokens ''l1'' ([?r1] @ [?r2]))
       (snd (seed no_faults (\<lambda>_. Some ''l1'') demo_synced ''l1'') + spent sl_completion_tokens ''l1'' ([?r1] @ [?r2])) row"
    unfolding demo_synced_eval(3) [symmetric] by blast
  then have "row \<in> set news" "tm_prompt_tokens row = 5" "tm_cumulative_prompt_tokens row = 25"
    using demo_synced_eval(5,7) by (simp_all add: metric_of_def demo_spend_def)
  with run show ?thesis by auto
qed

section \<open>Pressure levels\<close>

text \<open>The level in whole numbers, for the default thresholds.\<close>

definition pressure_level :: "TokenMetricRow list \<Rightarrow> string" where
  "pressure_level rows =
     (let limit = modelContextLimit (tm_model (last rows)); tokens = tm_prompt_tokens (last rows);
          total_tokens = sum_list (map tm_prompt_tokens rows);
          recent_tokens = sum_list (map tm_prompt_tokens (drop (length rows - 5) rows))
      in if limit > 0 \<and> 100 * tokens \<ge> 85 * limit then ''critical''
         else if limit > 0 \<and> 100 * tokens \<ge> 65 * limit then ''warning''
         else if length rows > 5 \<and> total_tokens > 0 \<and> 2 * recent_tokens * int (length rows) \<ge> 15 * total_tokens then ''warning''
         else ''normal'')"

definition metrics_of :: "review_db \<Rightarrow> string \<Rightarrow> TokenMetricRow list" where
  "metrics_of d sid = sql_order tm_request_time (filter (\<lambda>r. tm_session_id r = sid) (session_token_metrics d))"

lemma rat_share:
  assumes "0 < n"
  shows "(of_int a / of_int n \<ge> (85 / 100 :: rat)) \<longleftrightarrow> 100 * a \<ge> 85 * n" and "(of_int a / of_int n \<ge> (65 / 100 :: rat)) \<longleftrightarrow> 100 * a \<ge> 65 * n"
proof -
  have "(of_int a / of_int n \<ge> (85 / 100 :: rat)) \<longleftrightarrow> (of_int (85 * n) :: rat) \<le> of_int (100 * a)" using assms by (simp add: field_simps)
  then show "(of_int a / of_int n \<ge> (85 / 100 :: rat)) \<longleftrightarrow> 100 * a \<ge> 85 * n" by (simp only: of_int_le_iff)
  have "(of_int a / of_int n \<ge> (65 / 100 :: rat)) \<longleftrightarrow> (of_int (65 * n) :: rat) \<le> of_int (100 * a)" using assms by (simp add: field_simps)
  then show "(of_int a / of_int n \<ge> (65 / 100 :: rat)) \<longleftrightarrow> 100 * a \<ge> 65 * n" by (simp only: of_int_le_iff)
qed

lemma window_default: "TrendWindow defaultPressureConfig = 5"
  by (simp add: defaultPressureConfig_def)

lemma threshold_default:
  "threshold_level defaultPressureConfig r =
     (let limit = modelContextLimit (tm_model r) in
      if limit > 0 \<and> 100 * tm_prompt_tokens r \<ge> 85 * limit then ''critical''
      else if limit > 0 \<and> 100 * tm_prompt_tokens r \<ge> 65 * limit then ''warning'' else ''normal'')"
proof (cases "modelContextLimit (tm_model r) > 0")
  case True
  show ?thesis
    unfolding threshold_level_def defaultPressureConfig_def PressureConfig.select_convs Let_def rat_share [OF True] using True by (simp only: if_True simp_thms)
qed (simp add: threshold_level_def)

lemma mean_positive: "rows \<noteq> [] \<Longrightarrow> mean_prompt rows > 0 \<longleftrightarrow> sum_list (map tm_prompt_tokens rows) > 0"
  by (simp add: mean_prompt_def zero_less_divide_iff)

lemma inflated_default:
  assumes "length rows > 5"
  shows "inflated defaultPressureConfig rows \<longleftrightarrow> sum_list (map tm_prompt_tokens rows) > 0 \<and>
    2 * sum_list (map tm_prompt_tokens (drop (length rows - 5) rows)) * int (length rows) \<ge> 15 * sum_list (map tm_prompt_tokens rows)"
proof -
  define a where "a = sum_list (map tm_prompt_tokens (drop (length rows - 5) rows))"
  define b where "b = sum_list (map tm_prompt_tokens rows)"
  define n where "n = int (length rows)"
  have ne: "rows \<noteq> []" using assms by (cases rows) simp_all
  then have n: "0 < n" "(of_nat (length rows) :: rat) = of_int n" "length (drop (length rows - 5) rows) = 5" using assms by (simp_all add: n_def)
  have "(3 / 2 * (of_int b / of_int n) \<le> (of_int a / 5 :: rat)) \<longleftrightarrow> (of_int (15 * b) :: rat) \<le> of_int (2 * a * n)"
    using n(1) by (simp add: field_simps)
  then have trend: "(3 / 2 * (of_int b / of_int n) \<le> (of_int a / 5 :: rat)) \<longleftrightarrow> 15 * b \<le> 2 * a * n" by (simp only: of_int_le_iff)
  have means: "mean_prompt rows = of_int b / of_int n" "mean_prompt (drop (length rows - 5) rows) = of_int a / 5"
    unfolding mean_prompt_def n a_def b_def by simp_all
  have "drop (length rows - 5) rows \<noteq> []" using assms ne by simp
  then have "inflated defaultPressureConfig rows \<longleftrightarrow> mean_prompt rows > 0 \<and> (3 / 2 * (of_int b / of_int n) \<le> (of_int a / 5 :: rat))"
    unfolding inflated_def defaultPressureConfig_def PressureConfig.select_convs Let_def means by blast
  then show ?thesis using trend unfolding mean_positive [OF ne] a_def b_def n_def by blast
qed

lemma evaluate_default:
  "evaluate defaultPressureConfig no_faults sid d = (Inr (), d\<lparr>agents := (agents d)\<lparr>agent_sessions :=
     map (\<lambda>s. if s_session_id s = sid \<and> metrics_of d sid \<noteq> [] then s\<lparr>s_context_pressure := pressure_level (metrics_of d sid)\<rparr> else s)
       (agent_sessions (agents d))\<rparr>\<rparr>)"
proof (cases "metrics_of d sid = []")
  case True
  then show ?thesis by (simp add: evaluate_def GetTokenMetrics_def metrics_of_def [symmetric])
next
  case False
  let ?rows = "metrics_of d sid" and ?cfg = defaultPressureConfig
  have lv: "(if threshold_level ?cfg (last ?rows) = ''normal'' \<and> length ?rows > TrendWindow ?cfg \<and> inflated ?cfg ?rows then ''warning''
      else threshold_level ?cfg (last ?rows)) = pressure_level ?rows"
    unfolding threshold_default pressure_level_def Let_def window_default
    by (cases "length ?rows > 5") (simp_all only: inflated_default simp_thms if_False split: if_split, auto)
  show ?thesis
    using False lv
    by (simp add: evaluate_def GetTokenMetrics_def metrics_of_def [symmetric] SetContextPressure_def exec_sessions_def upd_sessions_def sql_update_def Let_def)
qed

lemma evaluate_many:
  "fold (\<lambda>s d. snd (evaluate defaultPressureConfig no_faults (s_session_id s) d)) (ss :: AgentSession list) d = d\<lparr>agents := (agents d)\<lparr>agent_sessions :=
     map (\<lambda>s. if s_session_id s \<in> s_session_id ` set ss \<and> metrics_of d (s_session_id s) \<noteq> []
       then s\<lparr>s_context_pressure := pressure_level (metrics_of d (s_session_id s))\<rparr> else s) (agent_sessions (agents d))\<rparr>\<rparr>"
proof (induction ss arbitrary: d)
  case (Cons x ss)
  have m: "metrics_of (d\<lparr>agents := a\<rparr>) sid = metrics_of d sid" for a sid by (simp add: metrics_of_def)
  let ?f = "\<lambda>P s. if P (s_session_id s) \<and> metrics_of d (s_session_id s) \<noteq> [] then s\<lparr>s_context_pressure := pressure_level (metrics_of d (s_session_id s))\<rparr> else s"
  have step: "snd (evaluate defaultPressureConfig no_faults (s_session_id x) d) =
      d\<lparr>agents := (agents d)\<lparr>agent_sessions := map (?f (\<lambda>i. i = s_session_id x)) (agent_sessions (agents d))\<rparr>\<rparr>"
    unfolding evaluate_default snd_conv by (simp cong: if_cong conj_cong)
  have join: "map (?f (\<lambda>i. i \<in> s_session_id ` set ss)) (map (?f (\<lambda>i. i = s_session_id x)) rows) = map (?f (\<lambda>i. i \<in> s_session_id ` set (x # ss))) rows" for rows :: "session_row list"
    by (induction rows) auto
  show ?case unfolding fold_simps Cons.IH step m join [symmetric] by simp
qed simp

text \<open>
  The pressure of every session after an evaluation with the default thresholds. Without failures an open session that has metrics gets the level of the
  reference: critical from 85 percent of the context of its last request's model, warning from 65 percent, and otherwise
  warning when it has more than five requests and the last five took on average at least one and a half times the
  mean of all; an unknown model is only judged by the trend. Sessions that have ended or have no metrics keep their level, and nothing else
  changes.
\<close>

theorem pressure_levels_exact:
  "EvaluateAll defaultPressureConfig no_faults d = (Inr (), d\<lparr>agents := (agents d)\<lparr>agent_sessions :=
     map (\<lambda>s. if s_session_id s \<in> s_session_id ` set (filter open_session (agent_sessions (agents d))) \<and> metrics_of d (s_session_id s) \<noteq> []
       then s\<lparr>s_context_pressure := pressure_level (metrics_of d (s_session_id s))\<rparr> else s) (agent_sessions (agents d))\<rparr>\<rparr>)"
proof -
  have "s_session_id ` set (map scanAgentSession (sql_order_desc s_last_seen_at (filter open_session (agent_sessions (agents d))))) =
      s_session_id ` set (filter open_session (agent_sessions (agents d)))"
    by (auto simp: scanAgentSession_def AgentSession.defs image_image sql_order_desc_def)
  then show ?thesis by (simp only: EvaluateAll_def at_site_no_faults ListActiveAgentSessions_def stmt_no_faults sum.case evaluate_many)
qed

end
