(* ===== verification/GitHub_Client.thy ===== *)
theory GitHub_Client
  imports Reconciler Runner Pipeline
begin

text \<open>
  The GitHub client, \<open>internal/github\<close> (\<open>client.go\<close>, \<open>merge_readiness.go\<close>, \<open>pr_ops.go\<close>), its adapter for the delivery
  pipeline, \<open>cmd/codero/github_pipeline_adapter.go\<close>, and the review provider built on it,
  \<open>internal/runner/github_provider.go\<close>. GitHub itself, reached through the package go-github, is a record of functions that answer a
  request or fail with a text; getters of absent fields answer the zero value, as the package does. A paginated request
  answers a page and the number of the next one, zero after the last. The loops over pages need not end, so the
  functions that contain them answer \<open>None\<close> when they do not.
\<close>

section \<open>GitHub\<close>

record api_pull =
  pl_number :: int
  pl_state :: string
  pl_head_sha :: string
  pl_base_ref :: string
  pl_mergeable :: bool
  pl_mergeable_state :: string

record api_review =
  rv_id :: int
  rv_login :: string
  rv_state :: string
  rv_body :: string
  rv_commit_id :: string

record api_comment =
  rc_id :: int
  rc_login :: string
  rc_body :: string
  rc_path :: string
  rc_line :: int
  rc_commit_id :: string

record api_check_run =
  ar_name :: string
  ar_status :: string
  ar_conclusion :: string

record github_api =
  ga_list_pulls :: "string \<Rightarrow> string \<Rightarrow> string \<Rightarrow> string + api_pull list"
  ga_get_pull :: "string \<Rightarrow> string \<Rightarrow> int \<Rightarrow> string + api_pull"
  ga_reviews :: "string \<Rightarrow> string \<Rightarrow> int \<Rightarrow> int \<Rightarrow> string + api_review list \<times> int"
  ga_comments :: "string \<Rightarrow> string \<Rightarrow> int \<Rightarrow> int \<Rightarrow> string + api_comment list \<times> int"
  ga_check_runs :: "string \<Rightarrow> string \<Rightarrow> string \<Rightarrow> int \<Rightarrow> string + api_check_run list \<times> int"
  ga_merge :: "string \<Rightarrow> string \<Rightarrow> int \<Rightarrow> string \<Rightarrow> string \<Rightarrow> string option"
  ga_create :: "string \<Rightarrow> string \<Rightarrow> string \<Rightarrow> string \<Rightarrow> string \<Rightarrow> string \<Rightarrow> string + int"
  ga_comment :: "string \<Rightarrow> string \<Rightarrow> int \<Rightarrow> string \<Rightarrow> string option"
  ga_request_reviewers :: "string \<Rightarrow> string \<Rightarrow> int \<Rightarrow> string list \<Rightarrow> string option"
  ga_protection :: "string \<Rightarrow> string \<Rightarrow> string \<Rightarrow> string option"

text \<open>\<open>strings.Cut(repo, "/")\<close>.\<close>

definition owner_of :: "string \<Rightarrow> string" where
  "owner_of repo = takeWhile (\<lambda>c. c \<noteq> CHR ''/'') repo"

definition name_of :: "string \<Rightarrow> string" where
  "name_of repo = tl (dropWhile (\<lambda>c. c \<noteq> CHR ''/'') repo)"

section \<open>Reading\<close>

record ClientPRInfo =
  cp_number :: int
  cp_head_sha :: string
  cp_state :: string

record Review =
  r_id :: int
  r_user :: string
  r_is_bot :: bool
  r_state :: string
  r_body :: string
  r_commit_id :: string

record ReviewComment =
  k_id :: int
  k_user :: string
  k_is_bot :: bool
  k_body :: string
  k_path :: string
  k_line :: int
  k_commit_id :: string

record CheckRun =
  cr_name :: string
  cr_status :: string
  cr_conclusion :: string

definition ends_with :: "string \<Rightarrow> string \<Rightarrow> bool" where
  "ends_with s suf \<longleftrightarrow> HasPrefix (rev s) (rev suf)"

definition IsBot :: "string \<Rightarrow> bool" where
  "IsBot login \<longleftrightarrow> ends_with login ''[bot]'' \<or>
     ToLower login \<in> {''coderabbitai'', ''dependabot'', ''renovate'', ''github-actions'', ''codecov'', ''sonarcloud'', ''mergify'', ''snyk-bot''}"

definition FindOpenPR :: "github_api \<Rightarrow> string \<Rightarrow> string \<Rightarrow> string + ClientPRInfo option" where
  "FindOpenPR api repo branch =
     (let headFilter = (if CHR '':'' \<in> set branch then branch else owner_of repo @ '':'' @ branch)
      in case ga_list_pulls api (owner_of repo) (name_of repo) headFilter of
        Inl e \<Rightarrow> Inl (''find open PR: '' @ e)
      | Inr [] \<Rightarrow> Inr None
      | Inr (p # _) \<Rightarrow> Inr (Some \<lparr>cp_number = pl_number p, cp_head_sha = pl_head_sha p, cp_state = pl_state p\<rparr>))"

text \<open>The loop of the three listings, on pages whose elements are converted already.\<close>

partial_function (option) list_pages ::
  "(int \<Rightarrow> string + 'a list \<times> int) \<Rightarrow> string \<Rightarrow> int \<Rightarrow> 'a list \<Rightarrow> (string + 'a list) option" where
  "list_pages fetch what page all =
     (case fetch page of
        Inl e \<Rightarrow> Some (Inl (what @ e))
      | Inr (items, nextPage) \<Rightarrow>
        if nextPage = 0 then Some (Inr (all @ items)) else list_pages fetch what nextPage (all @ items))"

declare list_pages.simps [code]

definition page_of :: "('a \<Rightarrow> 'b) \<Rightarrow> string + 'a list \<times> int \<Rightarrow> string + 'b list \<times> int" where
  "page_of f answer = (case answer of Inl e \<Rightarrow> Inl e | Inr (items, n) \<Rightarrow> Inr (map f items, n))"

definition client_review :: "api_review \<Rightarrow> Review" where
  "client_review r = \<lparr>r_id = rv_id r, r_user = rv_login r, r_is_bot = IsBot (rv_login r), r_state = rv_state r, r_body = rv_body r,
     r_commit_id = rv_commit_id r\<rparr>"

definition client_comment :: "api_comment \<Rightarrow> ReviewComment" where
  "client_comment r = \<lparr>k_id = rc_id r, k_user = rc_login r, k_is_bot = IsBot (rc_login r), k_body = rc_body r, k_path = rc_path r,
     k_line = rc_line r, k_commit_id = rc_commit_id r\<rparr>"

definition client_run :: "api_check_run \<Rightarrow> CheckRun" where
  "client_run r = \<lparr>cr_name = ar_name r, cr_status = ar_status r, cr_conclusion = ar_conclusion r\<rparr>"

definition ListPRReviews :: "github_api \<Rightarrow> string \<Rightarrow> int \<Rightarrow> (string + Review list) option" where
  "ListPRReviews api repo prNumber =
     list_pages (\<lambda>p. page_of client_review (ga_reviews api (owner_of repo) (name_of repo) prNumber p)) ''list PR reviews: '' 1 []"

definition ListPRReviewComments :: "github_api \<Rightarrow> string \<Rightarrow> int \<Rightarrow> (string + ReviewComment list) option" where
  "ListPRReviewComments api repo prNumber =
     list_pages (\<lambda>p. page_of client_comment (ga_comments api (owner_of repo) (name_of repo) prNumber p)) ''list PR review comments: '' 1 []"

definition ListCheckRuns :: "github_api \<Rightarrow> string \<Rightarrow> string \<Rightarrow> (string + CheckRun list) option" where
  "ListCheckRuns api repo sha =
     list_pages (\<lambda>p. page_of client_run (ga_check_runs api (owner_of repo) (name_of repo) sha p)) ''list check runs: '' 1 []"

section \<open>Judging reviews and checks\<close>

definition note_verdict :: "Review \<Rightarrow> (string \<rightharpoonup> string) \<Rightarrow> (string \<rightharpoonup> string)" where
  "note_verdict r latest =
     (if r_state r \<in> {''APPROVED'', ''CHANGES_REQUESTED'', ''DISMISSED''} then latest(r_user r \<mapsto> r_state r) else latest)"

text \<open>The map ranges over the reviewers; each of them is counted once.\<close>

definition countChangesRequested :: "Review list \<Rightarrow> int" where
  "countChangesRequested reviews =
     (let latest = fold note_verdict reviews Map.empty
      in int (length (filter (\<lambda>u. latest u = Some ''CHANGES_REQUESTED'') (remdups (map r_user reviews)))))"

definition resolveApprovalStatus :: "Review list \<Rightarrow> bool \<times> bool" where
  "resolveApprovalStatus reviews =
     (let latest = fold note_verdict reviews Map.empty; states = map latest (map r_user reviews)
      in (Some ''APPROVED'' \<in> set states, Some ''CHANGES_REQUESTED'' \<in> set states))"

definition isCIGreen :: "CheckRun list \<Rightarrow> bool" where
  "isCIGreen runs \<longleftrightarrow> runs \<noteq> [] \<and>
     list_all (\<lambda>r. cr_status r = ''completed'' \<and> cr_conclusion r \<in> {''success'', ''neutral'', ''skipped''}) runs"

definition GetPRState :: "github_api \<Rightarrow> string \<Rightarrow> string \<Rightarrow> (string + GitHubState option) option" where
  "GetPRState api repo branch =
     (case FindOpenPR api repo branch of
        Inl e \<Rightarrow> Some (Inl e)
      | Inr None \<Rightarrow> Some (Inr None)
      | Inr (Some pr) \<Rightarrow> (case ListPRReviews api repo (cp_number pr) of
          None \<Rightarrow> None
        | Some (Inl e) \<Rightarrow> Some (Inl (''list PR reviews: '' @ e))
        | Some (Inr reviews) \<Rightarrow> (case ListCheckRuns api repo (cp_head_sha pr) of
            None \<Rightarrow> None
          | Some (Inl e) \<Rightarrow> Some (Inl (''list check runs: '' @ e))
          | Some (Inr runs) \<Rightarrow> Some (Inr (Some
              \<lparr>gh_repo = repo, gh_branch = branch, gh_head_hash = cp_head_sha pr, gh_pr_number = cp_number pr, gh_pr_open = True,
               gh_approved = fst (resolveApprovalStatus reviews), gh_ci_green = isCIGreen runs, gh_pending_events = 0,
               gh_unresolved_threads = countChangesRequested reviews\<rparr>)))))"

section \<open>Writing\<close>

text \<open>An error is its text, \<open>None\<close> is success.\<close>

definition Client_MergePR :: "github_api \<Rightarrow> string \<Rightarrow> int \<Rightarrow> string \<Rightarrow> string \<Rightarrow> string option" where
  "Client_MergePR api repo prNumber sha mergeMethod =
     (let m = (if mergeMethod = '''' then ''squash'' else mergeMethod)
      in case ga_merge api (owner_of repo) (name_of repo) prNumber sha m of
        None \<Rightarrow> None
      | Some e \<Rightarrow> Some (if Contains e ''405'' then ''PR not mergeable (405)''
          else if Contains e ''409'' then ''merge conflict or SHA mismatch (409)'' else ''merge PR: '' @ e))"

definition CreatePR :: "github_api \<Rightarrow> string \<Rightarrow> string \<Rightarrow> string \<Rightarrow> string \<Rightarrow> string \<Rightarrow> string + int" where
  "CreatePR api repo head base ttl body =
     (case ga_create api (owner_of repo) (name_of repo) ttl head base body of Inl e \<Rightarrow> Inl (''create PR: '' @ e) | Inr n \<Rightarrow> Inr n)"

definition PostComment :: "github_api \<Rightarrow> string \<Rightarrow> int \<Rightarrow> string \<Rightarrow> string option" where
  "PostComment api repo prNumber body =
     map_option (\<lambda>e. ''post comment: '' @ e) (ga_comment api (owner_of repo) (name_of repo) prNumber body)"

definition RequestReviewers :: "github_api \<Rightarrow> string \<Rightarrow> int \<Rightarrow> string list \<Rightarrow> string option" where
  "RequestReviewers api repo prNumber reviewers =
     (if reviewers = [] then None
      else case ga_request_reviewers api (owner_of repo) (name_of repo) prNumber reviewers of
        None \<Rightarrow> None
      | Some e \<Rightarrow> if Contains e ''Review cannot be requested'' then None else Some (''request reviewers: '' @ e))"

definition GetBranchProtection :: "github_api \<Rightarrow> string \<Rightarrow> string \<Rightarrow> string option" where
  "GetBranchProtection api repo branch =
     map_option (\<lambda>e. ''get branch protection: '' @ e) (ga_protection api (owner_of repo) (name_of repo) branch)"

definition flag_on :: "string \<Rightarrow> bool" where
  "flag_on v \<longleftrightarrow> v = '''' \<or> v = ''true'' \<or> v = ''1''"

definition PRAutoCreate :: "environ \<Rightarrow> bool" where
  "PRAutoCreate env = flag_on (getenv env ''CODERO_PR_AUTO_CREATE'')"

definition CodeRabbitAutoReview :: "environ \<Rightarrow> bool" where
  "CodeRabbitAutoReview env = flag_on (getenv env ''CODERO_CODERABBIT_AUTO_REVIEW'')"

text \<open>The arrow in the message for an existing pull request is the UTF-8 sequence of U+2192.\<close>

definition CreatePRIfEnabled ::
  "environ \<Rightarrow> github_api \<Rightarrow> string \<Rightarrow> string \<Rightarrow> string \<Rightarrow> string \<Rightarrow> string \<Rightarrow> (int \<times> bool) \<times> string option" where
  "CreatePRIfEnabled env api repo head base ttl body =
     (if \<not> PRAutoCreate env then ((0, False), None)
      else case CreatePR api repo head base ttl body of
        Inl e \<Rightarrow> ((0, False), Some (if Contains e ''422'' \<or> Contains e ''already exists''
          then ''PR already exists for '' @ head @ [CHR '' '', CHR 0xE2, CHR 0x86, CHR 0x92, CHR '' ''] @ base @ '': '' @ e else e))
      | Inr n \<Rightarrow> ((n, True), None))"

definition PostReviewComment :: "github_api \<Rightarrow> string \<Rightarrow> int \<Rightarrow> string \<Rightarrow> string option" where
  "PostReviewComment api repo prNumber body = PostComment api repo prNumber body"

definition TriggerCodeRabbitReview :: "environ \<Rightarrow> github_api \<Rightarrow> string \<Rightarrow> int \<Rightarrow> string option" where
  "TriggerCodeRabbitReview env api repo prNumber =
     (if \<not> CodeRabbitAutoReview env then None else PostReviewComment api repo prNumber ''@coderabbitai review'')"

section \<open>Merge readiness\<close>

record MergeReadiness =
  RuleChecksPassing :: bool
  NoUnresolvedCoderabbit :: bool
  CISuccess :: bool
  NoBlockingHumanReview :: bool
  NoMergeConflicts :: bool
  BranchUpToDate :: bool
  GitHubProtectionSatisfied :: bool

definition MergeReady :: "MergeReadiness \<Rightarrow> bool" where
  "MergeReady m \<longleftrightarrow> RuleChecksPassing m \<and> NoUnresolvedCoderabbit m \<and> CISuccess m \<and> NoBlockingHumanReview m \<and> NoMergeConflicts m \<and>
     BranchUpToDate m \<and> GitHubProtectionSatisfied m"

definition BlockingReasons :: "MergeReadiness \<Rightarrow> string list" where
  "BlockingReasons m =
     (if \<not> RuleChecksPassing m then [''rule checks are not passing''] else []) @
     (if \<not> NoUnresolvedCoderabbit m then [''unresolved CodeRabbit review threads''] else []) @
     (if \<not> CISuccess m then [''CI status is not success''] else []) @
     (if \<not> NoBlockingHumanReview m then [''blocking human review (changes requested)''] else []) @
     (if \<not> NoMergeConflicts m then [''merge conflicts detected''] else []) @
     (if \<not> BranchUpToDate m then [''branch is not up to date with base''] else []) @
     (if \<not> GitHubProtectionSatisfied m then [''branch protection rules not satisfied''] else [])"

definition MergeMethod :: "environ \<Rightarrow> string" where
  "MergeMethod env =
     (let v = getenv env ''CODERO_MERGE_METHOD'' in if v \<in> {''merge'', ''squash'', ''rebase''} then v else ''squash'')"

definition Client_EvaluateMergeReadiness :: "github_api \<Rightarrow> string \<Rightarrow> int \<Rightarrow> (string + MergeReadiness) option" where
  "Client_EvaluateMergeReadiness api repo prNumber =
     (case ga_get_pull api (owner_of repo) (name_of repo) prNumber of
        Inl e \<Rightarrow> Some (Inl (''get PR: '' @ e))
      | Inr pr \<Rightarrow> (case ListCheckRuns api repo (pl_head_sha pr) of
          None \<Rightarrow> None
        | Some (Inl e) \<Rightarrow> Some (Inl (''list check runs: '' @ e))
        | Some (Inr runs) \<Rightarrow> (case ListPRReviews api repo prNumber of
            None \<Rightarrow> None
          | Some (Inl e) \<Rightarrow> Some (Inl (''list reviews: '' @ e))
          | Some (Inr reviews) \<Rightarrow> Some (Inr
              \<lparr>RuleChecksPassing = True,
               NoUnresolvedCoderabbit = \<not> list_ex (\<lambda>r. IsBot (r_user r) \<and> r_state r = ''CHANGES_REQUESTED'') reviews,
               CISuccess = isCIGreen runs, NoBlockingHumanReview = \<not> snd (resolveApprovalStatus reviews),
               NoMergeConflicts = pl_mergeable pr, BranchUpToDate = (pl_mergeable_state pr \<noteq> ''behind''),
               GitHubProtectionSatisfied = (case GetBranchProtection api repo (pl_base_ref pr) of None \<Rightarrow> True | Some e \<Rightarrow> Contains e ''404'')\<rparr>))))"

definition MergePRWithMethod :: "environ \<Rightarrow> github_api \<Rightarrow> string \<Rightarrow> int \<Rightarrow> string \<Rightarrow> string option" where
  "MergePRWithMethod env api repo prNumber expectedSHA =
     (case ga_get_pull api (owner_of repo) (name_of repo) prNumber of
        Inl e \<Rightarrow> Some (''get PR for SHA check: '' @ e)
      | Inr pr \<Rightarrow>
        if pl_head_sha pr \<noteq> expectedSHA then Some (''stale SHA: expected '' @ expectedSHA @ '', current is '' @ pl_head_sha pr)
        else Client_MergePR api repo prNumber expectedSHA (MergeMethod env))"

section \<open>The adapter of the pipeline\<close>

definition map_right :: "('a \<Rightarrow> 'b) \<Rightarrow> string + 'a \<Rightarrow> string + 'b" where
  "map_right f r = (case r of Inl e \<Rightarrow> Inl e | Inr x \<Rightarrow> Inr (f x))"

definition Adapter_FindOpenPR :: "github_api \<Rightarrow> string \<Rightarrow> string \<Rightarrow> string + PRInfo option" where
  "Adapter_FindOpenPR api repo branch =
     map_right (map_option (\<lambda>pr. \<lparr>pi_number = cp_number pr, pi_head_sha = cp_head_sha pr\<rparr>)) (FindOpenPR api repo branch)"

definition check_run_info :: "CheckRun \<Rightarrow> CheckRunInfo" where
  "check_run_info r = \<lparr>ck_name = cr_name r, ck_status = cr_status r, ck_conclusion = cr_conclusion r\<rparr>"

definition Adapter_ListCheckRuns :: "github_api \<Rightarrow> string \<Rightarrow> string \<Rightarrow> (string + CheckRunInfo list) option" where
  "Adapter_ListCheckRuns api repo sha = map_option (map_right (map check_run_info)) (ListCheckRuns api repo sha)"

definition review_info :: "Review \<Rightarrow> ReviewInfo" where
  "review_info r = \<lparr>ri_state = r_state r, ri_user = r_user r, ri_is_bot = IsBot (r_user r)\<rparr>"

definition Adapter_ListPRReviews :: "github_api \<Rightarrow> string \<Rightarrow> int \<Rightarrow> (string + ReviewInfo list) option" where
  "Adapter_ListPRReviews api repo prNumber = map_option (map_right (map review_info)) (ListPRReviews api repo prNumber)"

section \<open>The review provider\<close>

definition codeRabbitUser :: string where
  "codeRabbitUser = ''coderabbitai''"

definition by_coderabbit :: "string \<Rightarrow> bool" where
  "by_coderabbit user \<longleftrightarrow> ToLower user = ToLower codeRabbitUser"

definition inferSeverity :: "string \<Rightarrow> string" where
  "inferSeverity body =
     (let lower = ToLower body in
      if list_ex (Contains lower) [''critical'', ''security'', ''vulnerability'', ''bug'', ''error''] then ''error''
      else if list_ex (Contains lower) [''warning'', ''warn'', ''should'', ''consider'', ''improvement''] then ''warning''
      else ''info'')"

definition raw_finding :: "string \<Rightarrow> string \<Rightarrow> int \<Rightarrow> string \<Rightarrow> RawFinding" where
  "raw_finding category path line msg = \<lparr>w_severity = inferSeverity msg, w_category = category, w_file = path, w_line = line, w_message = msg,
     w_source = codeRabbitUser, w_rule_id = '''', w_timestamp = zero_time\<rparr>"

definition other_commit :: "string \<Rightarrow> string \<Rightarrow> bool" where
  "other_commit headHash commit \<longleftrightarrow> headHash \<noteq> '''' \<and> commit \<noteq> '''' \<and> commit \<noteq> headHash"

definition comment_findings :: "string \<Rightarrow> ReviewComment list \<Rightarrow> RawFinding list" where
  "comment_findings headHash comments =
     List.map_filter (\<lambda>c. if \<not> by_coderabbit (k_user c) then None else if other_commit headHash (k_commit_id c) then None
       else Some (raw_finding ''review'' (k_path c) (k_line c) (k_body c))) comments"

text \<open>The loop over the reviews: the findings, the latest summary with its id, and whether one matched the head.\<close>

fun summary_loop ::
  "string \<Rightarrow> Review list \<Rightarrow> RawFinding list \<Rightarrow> RawFinding option \<Rightarrow> int \<Rightarrow> bool \<Rightarrow> RawFinding list \<times> RawFinding option \<times> int \<times> bool" where
  "summary_loop headHash [] acc latest latestID matched = (acc, latest, latestID, matched)"
| "summary_loop headHash (r # rs) acc latest latestID matched =
     (let body = TrimSpace (r_body r) in
      if \<not> by_coderabbit (r_user r) \<or> body = '''' then summary_loop headHash rs acc latest latestID matched
      else let finding = raw_finding ''review_summary'' '''' 0 body;
               latest' = (if r_id r > latestID then Some finding else latest);
               latestID' = (if r_id r > latestID then r_id r else latestID)
      in if other_commit headHash (r_commit_id r) then summary_loop headHash rs acc latest' latestID' matched
         else summary_loop headHash rs (acc @ [finding]) latest' latestID' True)"

definition GitHubProvider_Review :: "github_api \<Rightarrow> ReviewRequest \<Rightarrow> (string + RawFinding list) option" where
  "GitHubProvider_Review api req =
     (case FindOpenPR api (rq_repo req) (rq_branch req) of
        Inl e \<Rightarrow> Some (Inl (''find open PR: '' @ e))
      | Inr None \<Rightarrow> Some (Inr [])
      | Inr (Some pr) \<Rightarrow> (case ListPRReviewComments api (rq_repo req) (cp_number pr) of
          None \<Rightarrow> None
        | Some (Inl e) \<Rightarrow> Some (Inl (''list review comments: '' @ e))
        | Some (Inr comments) \<Rightarrow> (case ListPRReviews api (rq_repo req) (cp_number pr) of
            None \<Rightarrow> None
          | Some (Inl e) \<Rightarrow> Some (Inl (''list reviews: '' @ e))
          | Some (Inr reviews) \<Rightarrow> (case summary_loop (rq_head_hash req) reviews (comment_findings (rq_head_hash req) comments) None 0 False of
              (acc, latest, latestID, matched) \<Rightarrow> Some (Inr (acc @
                (if rq_head_hash req \<noteq> '''' \<and> \<not> matched \<and> latestID \<noteq> 0 then (case latest of Some f \<Rightarrow> [f] | None \<Rightarrow> []) else [])))))))"

section \<open>Pages\<close>

text \<open>A listing that GitHub serves as these pages: each names the next one, the last names none.\<close>

definition serves :: "(int \<Rightarrow> string + 'a list \<times> int) \<Rightarrow> 'a list list \<Rightarrow> bool" where
  "serves fetch pages \<longleftrightarrow> pages \<noteq> [] \<and>
     (\<forall>i<length pages. fetch (int i + 1) = Inr (pages ! i, if Suc i = length pages then 0 else int i + 2))"

text \<open>What the package promises of the next page: none, or a later one that exists.\<close>

definition moves_on :: "(int \<Rightarrow> string + 'a list \<times> int) \<Rightarrow> int \<Rightarrow> bool" where
  "moves_on fetch lastPage \<longleftrightarrow> (\<forall>p items n. fetch p = Inr (items, n) \<longrightarrow> n = 0 \<or> p < n \<and> n \<le> lastPage)"

lemma page_of_serves: "serves fetch pages \<Longrightarrow> serves (\<lambda>p. page_of f (fetch p)) (map (map f) pages)"
  by (auto simp: serves_def page_of_def)

lemma page_of_moves_on: "moves_on fetch l \<Longrightarrow> moves_on (\<lambda>p. page_of f (fetch p)) l"
  by (auto simp: moves_on_def page_of_def split: sum.splits)

lemma list_pages_ends:
  assumes "moves_on fetch l"
  shows "\<exists>r. list_pages fetch what p all = Some r"
proof (induction "nat (l - p)" arbitrary: p all rule: less_induct)
  case less
  show ?case
  proof (cases "fetch p")
    case (Inl e)
    then show ?thesis by (subst list_pages.simps) simp
  next
    case (Inr answer)
    obtain items n where a: "answer = (items, n)" by fastforce
    have "n = 0 \<or> p < n \<and> n \<le> l" using assms Inr a by (auto simp: moves_on_def)
    then consider "n = 0" | "nat (l - n) < nat (l - p)" by fastforce
    then show ?thesis using less [of n "all @ items"] Inr a by cases (subst list_pages.simps, simp)+
  qed
qed

lemma list_pages_returns: "moves_on fetch l \<Longrightarrow> list_pages (\<lambda>p. page_of f (fetch p)) what p all \<noteq> None"
  using list_pages_ends [OF page_of_moves_on] by (metis option.distinct(1))

lemma list_pages_from:
  assumes "serves fetch pages" and "i < length pages"
  shows "list_pages fetch what (int i + 1) all = Some (Inr (all @ concat (drop i pages)))"
  using assms(2)
proof (induction "length pages - i" arbitrary: i all)
  case (Suc k)
  have f: "fetch (int i + 1) = Inr (pages ! i, if Suc i = length pages then 0 else int i + 2)" using assms Suc.prems by (simp add: serves_def)
  have d: "drop i pages = pages ! i # drop (Suc i) pages" using Suc.prems by (simp add: Cons_nth_drop_Suc)
  show ?case
  proof (cases "Suc i = length pages")
    case True
    then show ?thesis using f d by (subst list_pages.simps) simp
  next
    case False
    then have "list_pages fetch what (int (Suc i) + 1) (all @ pages ! i) = Some (Inr ((all @ pages ! i) @ concat (drop (Suc i) pages)))"
      using Suc.prems Suc.hyps(2) by (intro Suc.hyps(1)) auto
    moreover have "int (Suc i) + 1 = int i + 2" by simp
    ultimately show ?thesis using f d False by (subst list_pages.simps) (simp del: of_nat_Suc)
  qed
qed simp

lemma list_pages_all: "serves fetch pages \<Longrightarrow> list_pages fetch what 1 [] = Some (Inr (concat pages))"
  using list_pages_from [of fetch pages 0 what "[]"] by (simp add: serves_def)

text \<open>
  The listings of the client are complete and end. When GitHub serves the reviews, comments or check runs as pages, the client answers
  all of them in order. When the next page that GitHub names is always none or a later existing one, every
  listing returns, whatever pages fail, and so do the state of a pull request and the review of the provider.
\<close>

theorem listings_complete:
  assumes rv: "\<And>n. moves_on (ga_reviews api (owner_of repo) (name_of repo) n) l" and cm: "\<And>n. moves_on (ga_comments api (owner_of repo) (name_of repo) n) l"
    and ck: "\<And>s. moves_on (ga_check_runs api (owner_of repo) (name_of repo) s) l"
  shows "GetPRState api repo branch \<noteq> None \<and> GitHubProvider_Review api \<lparr>rq_repo = repo, rq_branch = branch, rq_head_hash = h\<rparr> \<noteq> None \<and>
    (\<forall>pages. serves (ga_reviews api (owner_of repo) (name_of repo) n) pages \<longrightarrow> ListPRReviews api repo n = Some (Inr (map client_review (concat pages)))) \<and>
    (\<forall>pages. serves (ga_comments api (owner_of repo) (name_of repo) n) pages \<longrightarrow> ListPRReviewComments api repo n = Some (Inr (map client_comment (concat pages)))) \<and>
    (\<forall>pages. serves (ga_check_runs api (owner_of repo) (name_of repo) sha) pages \<longrightarrow> ListCheckRuns api repo sha = Some (Inr (map client_run (concat pages))))"
proof -
  have e: "ListPRReviews api repo m \<noteq> None" "ListPRReviewComments api repo m \<noteq> None" "ListCheckRuns api repo s \<noteq> None" for m s
    unfolding ListPRReviews_def ListPRReviewComments_def ListCheckRuns_def
    by (rule list_pages_returns [OF rv] list_pages_returns [OF cm] list_pages_returns [OF ck])+
  have "GetPRState api repo branch \<noteq> None" "GitHubProvider_Review api \<lparr>rq_repo = repo, rq_branch = branch, rq_head_hash = h\<rparr> \<noteq> None"
    by (auto simp: GetPRState_def GitHubProvider_Review_def e split: sum.splits option.splits prod.splits)
  then show ?thesis by (simp add: ListPRReviews_def ListPRReviewComments_def ListCheckRuns_def map_concat list_pages_all [OF page_of_serves])
qed

text \<open>A small repository: one pull request, two pages of reviews, one check run.\<close>

definition demo_review :: "int \<Rightarrow> string \<Rightarrow> string \<Rightarrow> string \<Rightarrow> api_review" where
  "demo_review i login st body = \<lparr>rv_id = i, rv_login = login, rv_state = st, rv_body = body, rv_commit_id = ''abc''\<rparr>"

definition demo_reviews :: "api_review list list" where
  "demo_reviews = [[demo_review 1 ''ann'' ''CHANGES_REQUESTED'' '''', demo_review 2 ''coderabbitai'' ''COMMENTED'' ''a bug'']
     , [demo_review 3 ''ann'' ''APPROVED'' '''']]"

definition demo_api :: github_api where
  "demo_api = \<lparr>
     ga_list_pulls = \<lambda>owner name head. Inr [\<lparr>pl_number = 7, pl_state = ''open'', pl_head_sha = ''abc'', pl_base_ref = ''main'',
       pl_mergeable = True, pl_mergeable_state = ''clean''\<rparr>],
     ga_get_pull = \<lambda>owner name n. Inl ''404'',
     ga_reviews = \<lambda>owner name n p. if p = 1 then Inr (demo_reviews ! 0, 2) else if p = 2 then Inr (demo_reviews ! 1, 0) else Inl ''422'',
     ga_comments = \<lambda>owner name n p. Inr ([], 0),
     ga_check_runs = \<lambda>owner name sha p. Inr ([\<lparr>ar_name = ''ci'', ar_status = ''completed'', ar_conclusion = ''success''\<rparr>], 0),
     ga_merge = \<lambda>owner name n sha m. None, ga_create = \<lambda>owner name ttl head base body. Inr 7, ga_comment = \<lambda>owner name n body. None,
     ga_request_reviewers = \<lambda>owner name n rs. None, ga_protection = \<lambda>owner name b. None\<rparr>"

lemma demo_api_pages:
  "moves_on (ga_reviews demo_api owner name n) 2" "moves_on (ga_comments demo_api owner name n) 2" "moves_on (ga_check_runs demo_api owner name sha) 2"
  "serves (ga_reviews demo_api owner name n) demo_reviews"
  by (auto simp: moves_on_def serves_def demo_api_def demo_reviews_def less_Suc_eq numeral_2_eq_2 split: if_splits)

theorem listings_complete_witness:
  "GetPRState demo_api ''acme/api'' ''feat'' \<noteq> None \<and> ListPRReviews demo_api ''acme/api'' 7 = Some (Inr (map client_review (concat demo_reviews)))"
  using listings_complete [where repo = "''acme/api''", OF demo_api_pages(1,2,3)] demo_api_pages(4) by blast

section \<open>Verdicts\<close>

text \<open>The last verdict of a reviewer.\<close>

definition decides :: "string \<Rightarrow> Review \<Rightarrow> bool" where
  "decides u r \<longleftrightarrow> r_user r = u \<and> r_state r \<in> {''APPROVED'', ''CHANGES_REQUESTED'', ''DISMISSED''}"

definition last_verdict :: "string \<Rightarrow> Review list \<Rightarrow> string option" where
  "last_verdict u rs = (let xs = filter (decides u) rs in if xs = [] then None else Some (r_state (last xs)))"

lemma fold_note_verdict: "fold note_verdict rs m u = (case last_verdict u rs of None \<Rightarrow> m u | Some v \<Rightarrow> Some v)"
proof (induction rs rule: rev_induct)
  case (snoc r rs)
  have "fold note_verdict (rs @ [r]) m u = (if decides u r then Some (r_state r) else fold note_verdict rs m u)"
    by (auto simp: note_verdict_def decides_def)
  then show ?case using snoc by (simp add: last_verdict_def Let_def)
qed (simp add: last_verdict_def)

lemma note_verdicts: "fold note_verdict rs Map.empty = (\<lambda>u. last_verdict u rs)"
  by (rule ext) (simp add: fold_note_verdict split: option.splits)

lemma last_verdict_user: "last_verdict u rs = Some v \<Longrightarrow> u \<in> r_user ` set rs"
  by (auto simp: last_verdict_def Let_def decides_def filter_empty_conv split: if_splits)

lemma resolve_approval: "resolveApprovalStatus rs = (\<exists>u. last_verdict u rs = Some ''APPROVED'', \<exists>u. last_verdict u rs = Some ''CHANGES_REQUESTED'')"
proof -
  have "(Some v \<in> set (map (\<lambda>u. last_verdict u rs) (map r_user rs))) \<longleftrightarrow> (\<exists>u. last_verdict u rs = Some v)" for v
    using last_verdict_user by (auto simp: image_iff) metis
  then show ?thesis unfolding resolveApprovalStatus_def Let_def note_verdicts by simp
qed

lemma count_changes: "countChangesRequested rs = int (card {u. last_verdict u rs = Some ''CHANGES_REQUESTED''})"
proof -
  have "set (filter (\<lambda>u. last_verdict u rs = Some ''CHANGES_REQUESTED'') (remdups (map r_user rs))) = {u. last_verdict u rs = Some ''CHANGES_REQUESTED''}"
    using last_verdict_user by fastforce
  then show ?thesis
    unfolding countChangesRequested_def Let_def note_verdicts by (metis distinct_card distinct_filter distinct_remdups)
qed

lemma ci_green_pipeline: "isCIGreen runs = fst (interpretCheckRuns (map check_run_info runs))"
  by (simp add: isCIGreen_def interpret_check_runs list.pred_map o_def run_green_def check_run_info_def)

lemma standing_info:
  "standing u (map review_info rs) = (let xs = filter (\<lambda>r. decisive u (review_info r)) rs in if xs = [] then None else Some (map upper_char (r_state (last xs))))"
  by (simp add: standing_def filter_map o_def Let_def last_map review_info_def)

text \<open>
  C39: how the reconciler and the pipeline read the same reviews and checks. Both call the checks passed in the same cases.
  The client lets the last verdict of every reviewer stand, where a dismissal is a verdict and bots are
  reviewers, and counts the standing requests for changes as unresolved threads. The pipeline leaves out bots and
  does not see dismissals, so an earlier verdict of a reviewer whose later review was dismissed stands again; on reviews by
  people, none dismissed, both agree.
\<close>

theorem review_readings_agree:
  "isCIGreen runs = fst (interpretCheckRuns (map check_run_info runs)) \<and>
   resolveApprovalStatus rs = (\<exists>u. last_verdict u rs = Some ''APPROVED'', \<exists>u. last_verdict u rs = Some ''CHANGES_REQUESTED'') \<and>
   countChangesRequested rs = int (card {u. last_verdict u rs = Some ''CHANGES_REQUESTED''}) \<and>
   interpretReviews (map review_info rs) =
     interpretReviews (map review_info (filter (\<lambda>r. \<not> IsBot (r_user r) \<and> map upper_char (r_state r) \<noteq> ''DISMISSED'') rs)) \<and>
   (list_all (\<lambda>r. \<not> IsBot (r_user r) \<and> map upper_char (r_state r) = r_state r \<and> r_state r \<noteq> ''DISMISSED'') rs \<longrightarrow>
     interpretReviews (map review_info rs) = resolveApprovalStatus rs)"
proof -
  have "filter (\<lambda>r. decisive u (review_info r)) rs =
      filter (\<lambda>r. decisive u (review_info r)) (filter (\<lambda>r. \<not> IsBot (r_user r) \<and> map upper_char (r_state r) \<noteq> ''DISMISSED'') rs)" for u
    unfolding filter_filter by (intro filter_cong refl) (auto simp: decisive_def review_info_def)
  then have blind: "standing u (map review_info rs) =
      standing u (map review_info (filter (\<lambda>r. \<not> IsBot (r_user r) \<and> map upper_char (r_state r) \<noteq> ''DISMISSED'') rs))" for u
    by (simp add: standing_info)
  have same: "standing u (map review_info rs) = last_verdict u rs"
    if "list_all (\<lambda>r. \<not> IsBot (r_user r) \<and> map upper_char (r_state r) = r_state r \<and> r_state r \<noteq> ''DISMISSED'') rs" for u
  proof -
    have f: "filter (\<lambda>r. decisive u (review_info r)) rs = filter (decides u) rs"
      using that by (intro filter_cong) (auto simp: list_all_iff decisive_def decides_def review_info_def)
    have "map upper_char (r_state (last (filter (decides u) rs))) = r_state (last (filter (decides u) rs))" if ne: "filter (decides u) rs \<noteq> []"
      using last_in_set [OF ne] \<open>list_all _ rs\<close> by (auto simp: list_all_iff)
    then show ?thesis unfolding standing_info f last_verdict_def Let_def by auto
  qed
  show ?thesis
    using ci_green_pipeline resolve_approval count_changes blind same by (simp add: interpret_reviews)
qed

lemma dismissed_approval_stands:
  "resolveApprovalStatus [client_review (demo_review 1 ''ann'' ''APPROVED'' ''''), client_review (demo_review 2 ''ann'' ''DISMISSED'' '''')] = (False, False)"
  "interpretReviews (map review_info [client_review (demo_review 1 ''ann'' ''APPROVED'' ''''), client_review (demo_review 2 ''ann'' ''DISMISSED'' '''')]) = (True, False)"
  "resolveApprovalStatus [client_review (demo_review 1 ''coderabbitai'' ''APPROVED'' '''')] = (True, False)"
  "interpretReviews (map review_info [client_review (demo_review 1 ''coderabbitai'' ''APPROVED'' '''')]) = (False, False)"
  by code_simp+

definition demo_people :: "Review list" where
  "demo_people = [client_review (demo_review 1 ''ann'' ''CHANGES_REQUESTED'' ''''), client_review (demo_review 3 ''ann'' ''APPROVED'' '''')]"

lemma demo_people_eval:
  "list_all (\<lambda>r. \<not> IsBot (r_user r) \<and> map upper_char (r_state r) = r_state r \<and> r_state r \<noteq> ''DISMISSED'') demo_people"
  "resolveApprovalStatus demo_people = (True, False)"
  by code_simp+

theorem review_readings_agree_witness: "interpretReviews (map review_info demo_people) = (True, False)"
  using review_readings_agree [of "[]" demo_people, THEN conjunct2, THEN conjunct2, THEN conjunct2, THEN conjunct2] demo_people_eval by simp

section \<open>The reconciler on this client\<close>

text \<open>The client as the reconciler's interface; a call that never returns is like one that fails: nothing happens to the branch.\<close>

definition reconciler_client :: "github_api \<Rightarrow> string \<Rightarrow> string \<Rightarrow> error + GitHubState option" where
  "reconciler_client api repo branch =
     (case GetPRState api repo branch of None \<Rightarrow> Inl (OtherError '''') | Some (Inl e) \<Rightarrow> Inl (OtherError e) | Some (Inr st) \<Rightarrow> Inr st)"

lemma GetPRState_cases:
  assumes "reconciler_client api repo branch = Inr (Some gh)"
  obtains pr rs runs where "FindOpenPR api repo branch = Inr (Some pr)" and "ListPRReviews api repo (cp_number pr) = Some (Inr rs)"
    and "ListCheckRuns api repo (cp_head_sha pr) = Some (Inr runs)" and "gh_pr_number gh = cp_number pr" and "gh_head_hash gh = cp_head_sha pr"
    and "gh_pr_open gh" and "gh_approved gh = fst (resolveApprovalStatus rs)" and "gh_ci_green gh = isCIGreen runs" and "gh_unresolved_threads gh = countChangesRequested rs"
  using assms by (auto simp: reconciler_client_def GetPRState_def split: option.splits sum.splits)

text \<open>
  C38: merges by the reconciler, down to what GitHub lists. With the GitHub client in place, a cycle asks for a merge only of the
  first open pull request that GitHub lists for the branch, at its number and head, when the full list of its reviews has a
  reviewer whose last verdict is an approval and none whose last verdict is a request for changes, and the
  full list of check runs of that head is not empty, each completed with success, neutral or skipped. The store invariant holds afterwards.
\<close>

theorem reconciler_merges_reviewed:
  assumes "fsm_library lib" and "agent_inv (agents d)" and "\<And>site d. agent_run lib pu d (workers site d)"
    and w: "get_pr_state w = reconciler_client api" and run: "runCycle lib w flt now workers cancelled d = (calls, d')"
  shows "agent_inv (agents d') \<and>
    (\<forall>repo n sha m dm. (MergePR repo n sha m, dm) \<in> set calls \<longrightarrow>
       (\<exists>branch pr rs runs. FindOpenPR api repo branch = Inr (Some pr) \<and> cp_number pr = n \<and> cp_head_sha pr = sha \<and>
         ListPRReviews api repo n = Some (Inr rs) \<and> (\<exists>u. last_verdict u rs = Some ''APPROVED'') \<and> (\<forall>u. last_verdict u rs \<noteq> Some ''CHANGES_REQUESTED'') \<and>
         ListCheckRuns api repo sha = Some (Inr runs) \<and> runs \<noteq> [] \<and>
         list_all (\<lambda>r. cr_status r = ''completed'' \<and> cr_conclusion r \<in> {''success'', ''neutral'', ''skipped''}) runs))"
proof -
  note c = run_cycle_merges [OF assms(3) run]
  have "agent_inv (agents d')" using agent_steps_inv [OF _ assms(1,2)] c unfolding agent_run_def by blast
  moreover have "\<exists>branch pr rs runs. FindOpenPR api repo branch = Inr (Some pr) \<and> cp_number pr = n \<and> cp_head_sha pr = sha \<and>
         ListPRReviews api repo n = Some (Inr rs) \<and> (\<exists>u. last_verdict u rs = Some ''APPROVED'') \<and> (\<forall>u. last_verdict u rs \<noteq> Some ''CHANGES_REQUESTED'') \<and>
         ListCheckRuns api repo sha = Some (Inr runs) \<and> runs \<noteq> [] \<and>
         list_all (\<lambda>r. cr_status r = ''completed'' \<and> cr_conclusion r \<in> {''success'', ''neutral'', ''skipped''}) runs"
    if "(MergePR repo n sha m, dm) \<in> set calls" for repo n sha m dm
  proof -
    from c that have "merge_justified w repo n sha dm" by blast
    then obtain gh branch where gh: "reconciler_client api repo branch = Inr (Some gh)" "gh_approved gh" "gh_ci_green gh"
      "gh_unresolved_threads gh \<le> 0" "gh_pr_number gh = n" "gh_head_hash gh = sha"
      unfolding merge_justified_def w by blast
    obtain pr rs runs where p: "FindOpenPR api repo branch = Inr (Some pr)" "ListPRReviews api repo (cp_number pr) = Some (Inr rs)"
      "ListCheckRuns api repo (cp_head_sha pr) = Some (Inr runs)" "gh_pr_number gh = cp_number pr" "gh_head_hash gh = cp_head_sha pr"
      "gh_approved gh = fst (resolveApprovalStatus rs)" "gh_ci_green gh = isCIGreen runs" "gh_unresolved_threads gh = countChangesRequested rs"
      using GetPRState_cases [OF gh(1)] by metis
    have fin: "finite {u. last_verdict u rs = Some ''CHANGES_REQUESTED''}"
      by (rule finite_subset [of _ "r_user ` set rs"]) (auto dest: last_verdict_user)
    have "{u. last_verdict u rs = Some ''CHANGES_REQUESTED''} = {}"
      using gh(4) p(8) fin by (simp add: count_changes)
    moreover have "\<exists>u. last_verdict u rs = Some ''APPROVED''" using gh(2) p(6) by (simp add: resolve_approval)
    ultimately show ?thesis
      using p gh by (intro exI [of _ branch] exI [of _ pr] exI [of _ rs] exI [of _ runs]) (auto simp: isCIGreen_def)
  qed
  ultimately show ?thesis by blast
qed

definition demo_github_outside :: outside where
  "demo_github_outside = demo_outside\<lparr>get_pr_state := reconciler_client demo_api\<rparr>"

lemma demo_github_eval:
  "map fst (fst (runCycle list_fsm demo_github_outside no_faults 10 (\<lambda>_ d. d) (\<lambda>_. False) demo_cycle_db)) =
     [MergePR ''acme/api'' 7 ''abc'' ''squash'']"
  by code_simp

theorem reconciler_merges_reviewed_witness:
  "\<exists>calls d' dm rs. runCycle list_fsm demo_github_outside no_faults 10 (\<lambda>_ d. d) (\<lambda>_. False) demo_cycle_db = (calls, d') \<and> agent_inv (agents d') \<and>
     (MergePR ''acme/api'' 7 ''abc'' ''squash'', dm) \<in> set calls \<and> ListPRReviews demo_api ''acme/api'' 7 = Some (Inr rs) \<and>
     (\<exists>u. last_verdict u rs = Some ''APPROVED'')"
proof -
  obtain calls d' where c: "runCycle list_fsm demo_github_outside no_faults 10 (\<lambda>_ d. d) (\<lambda>_. False) demo_cycle_db = (calls, d')" by fastforce
  have "agent_inv (agents demo_cycle_db)"
    using agent_inv_empty demo_approved_inv by (simp add: demo_cycle_db_def agent_inv_def empty_agent_db_def)
  moreover have "get_pr_state demo_github_outside = reconciler_client demo_api" by (simp add: demo_github_outside_def)
  ultimately have p: "agent_inv (agents d') \<and> (\<forall>repo n sha m dm. (MergePR repo n sha m, dm) \<in> set calls \<longrightarrow>
      (\<exists>rs. ListPRReviews demo_api repo n = Some (Inr rs) \<and> (\<exists>u. last_verdict u rs = Some ''APPROVED'')))"
    using reconciler_merges_reviewed [OF listfsm.fsm_library_axioms _ agent_run_refl _ c, where api = demo_api] by blast
  obtain dm where "(MergePR ''acme/api'' 7 ''abc'' ''squash'', dm) \<in> set calls"
    using demo_github_eval unfolding c by (cases calls) auto
  with p c show ?thesis by blast
qed

section \<open>What a review of the provider reports\<close>

definition summaries :: "Review list \<Rightarrow> Review list" where
  "summaries rs = filter (\<lambda>r. by_coderabbit (r_user r) \<and> TrimSpace (r_body r) \<noteq> '''') rs"

definition summary_finding :: "Review \<Rightarrow> RawFinding" where
  "summary_finding r = raw_finding ''review_summary'' '''' 0 (TrimSpace (r_body r))"

definition current_summaries :: "string \<Rightarrow> Review list \<Rightarrow> Review list" where
  "current_summaries h rs = filter (\<lambda>r. \<not> other_commit h (r_commit_id r)) (summaries rs)"

lemma summary_loop_exact:
  assumes "summary_loop h rs acc latest lid m = (acc', latest', lid', m')"
  shows "acc' = acc @ map summary_finding (current_summaries h rs) \<and> m' = (m \<or> current_summaries h rs \<noteq> []) \<and>
    lid \<le> lid' \<and> (\<forall>r\<in>set (summaries rs). r_id r \<le> lid') \<and>
    (if lid < lid' then \<exists>r\<in>set (summaries rs). r_id r = lid' \<and> latest' = Some (summary_finding r) else latest' = latest)"
  using assms
proof (induction rs arbitrary: acc latest lid m)
  case Nil
  then show ?case by (simp add: summaries_def current_summaries_def)
next
  case (Cons r rs)
  show ?case
  proof (cases "\<not> by_coderabbit (r_user r) \<or> TrimSpace (r_body r) = ''''")
    case True
    then have "summaries (r # rs) = summaries rs" by (simp add: summaries_def)
    then show ?thesis using Cons.IH [of acc latest lid m] Cons.prems True by (simp add: current_summaries_def)
  next
    case False
    then have ss: "summaries (r # rs) = r # summaries rs" by (simp add: summaries_def)
    let ?latest = "if r_id r > lid then Some (summary_finding r) else latest" and ?lid = "if r_id r > lid then r_id r else lid"
    let ?oc = "other_commit h (r_commit_id r)"
    have "summary_loop h rs (if ?oc then acc else acc @ [summary_finding r]) ?latest ?lid (m \<or> \<not> ?oc) = (acc', latest', lid', m')"
      using Cons.prems False by (auto simp: Let_def summary_finding_def split: if_splits)
    note ih = Cons.IH [OF this]
    have "acc' = acc @ map summary_finding (current_summaries h (r # rs)) \<and> m' = (m \<or> current_summaries h (r # rs) \<noteq> [])"
      using ih by (auto simp: current_summaries_def ss)
    moreover have "lid \<le> lid'" "\<forall>x\<in>set (r # summaries rs). r_id x \<le> lid'" using ih by (auto split: if_splits)
    moreover have "if lid < lid' then \<exists>x\<in>set (r # summaries rs). r_id x = lid' \<and> latest' = Some (summary_finding x) else latest' = latest"
    proof (cases "?lid < lid'")
      case True
      then show ?thesis using ih by (auto split: if_splits)
    next
      case False
      then have "?lid = lid'" "latest' = ?latest" using ih by (auto split: if_splits)
      then show ?thesis by (auto split: if_splits)
    qed
    ultimately show ?thesis unfolding ss by blast
  qed
qed

lemma comment_findings_filter:
  "comment_findings h cs = map (\<lambda>c. raw_finding ''review'' (k_path c) (k_line c) (k_body c))
     (filter (\<lambda>c. by_coderabbit (k_user c) \<and> \<not> other_commit h (k_commit_id c)) cs)"
  by (induction cs) (auto simp: comment_findings_def List.map_filter_simps)

text \<open>
  C40: what the provider reports of a pull request. When the listings succeed, a review reports, in this order, every inline comment
  of CodeRabbit and every non-empty summary of CodeRabbit, leaving out those on a commit other than the requested head, and nothing by
  anyone else. When a head is requested and no summary is on it, the report ends with the summary of the highest
  positive id instead, and otherwise with nothing. Without a pull request the report is empty. Each finding has a severity that the
  normaliser knows.
\<close>

theorem provider_review_exact:
  assumes pr: "FindOpenPR api (rq_repo req) (rq_branch req) = Inr (Some pr)" and cs: "ListPRReviewComments api (rq_repo req) (cp_number pr) = Some (Inr cs)"
    and rs: "ListPRReviews api (rq_repo req) (cp_number pr) = Some (Inr rs)" and h: "h = rq_head_hash req"
  shows "\<exists>rest. GitHubProvider_Review api req = Some (Inr (
      map (\<lambda>c. raw_finding ''review'' (k_path c) (k_line c) (k_body c)) (filter (\<lambda>c. by_coderabbit (k_user c) \<and> \<not> other_commit h (k_commit_id c)) cs) @
      map summary_finding (current_summaries h rs) @ rest)) \<and>
    (if h \<noteq> '''' \<and> current_summaries h rs = [] \<and> (\<exists>r\<in>set (summaries rs). 0 < r_id r)
     then \<exists>r\<in>set (summaries rs). rest = [summary_finding r] \<and> 0 < r_id r \<and> (\<forall>x\<in>set (summaries rs). r_id x \<le> r_id r)
     else rest = []) \<and>
    (\<forall>c p l m. w_severity (raw_finding c p l m) \<in> {''error'', ''warning'', ''info''} \<and> w_source (raw_finding c p l m) = ''coderabbitai'')"
proof -
  obtain acc' latest lid m where loop: "summary_loop h rs (comment_findings h cs) None 0 False = (acc', latest, lid, m)" by (metis prod_cases4)
  note l = summary_loop_exact [OF loop]
  define rest where "rest = (if h \<noteq> '''' \<and> \<not> m \<and> lid \<noteq> 0 then (case latest of Some f \<Rightarrow> [f] | None \<Rightarrow> []) else [])"
  have "GitHubProvider_Review api req = Some (Inr (acc' @ rest))"
    using loop by (simp add: GitHubProvider_Review_def pr cs rs h rest_def)
  moreover have "if h \<noteq> '''' \<and> current_summaries h rs = [] \<and> (\<exists>r\<in>set (summaries rs). 0 < r_id r)
     then \<exists>r\<in>set (summaries rs). rest = [summary_finding r] \<and> 0 < r_id r \<and> (\<forall>x\<in>set (summaries rs). r_id x \<le> r_id r)
     else rest = []"
  proof (cases "0 < lid")
    case True
    then obtain r where "r \<in> set (summaries rs)" "r_id r = lid" "latest = Some (summary_finding r)" using l by auto
    then show ?thesis using l True by (auto simp: rest_def)
  next
    case False
    then have lid: "lid = 0" using l by simp
    then have "\<not> (\<exists>r\<in>set (summaries rs). 0 < r_id r)" using l by force
    then show ?thesis using lid by (simp add: rest_def)
  qed
  ultimately show ?thesis
    using l by (intro exI [of _ rest]) (auto simp: comment_findings_filter raw_finding_def inferSeverity_def codeRabbitUser_def Let_def)
qed

definition demo_request :: ReviewRequest where
  "demo_request = \<lparr>rq_repo = ''acme/api'', rq_branch = ''feat'', rq_head_hash = ''new''\<rparr>"

lemma demo_provider_pages:
  "FindOpenPR demo_api (rq_repo demo_request) (rq_branch demo_request) = Inr (Some \<lparr>cp_number = 7, cp_head_sha = ''abc'', cp_state = ''open''\<rparr>)"
  "ListPRReviewComments demo_api ''acme/api'' 7 = Some (Inr [])"
  "ListPRReviews demo_api ''acme/api'' 7 = Some (Inr (map client_review (concat demo_reviews)))"
proof -
  show "FindOpenPR demo_api (rq_repo demo_request) (rq_branch demo_request) = Inr (Some \<lparr>cp_number = 7, cp_head_sha = ''abc'', cp_state = ''open''\<rparr>)"
    by (simp add: FindOpenPR_def demo_api_def)
  have "serves (ga_comments demo_api (owner_of ''acme/api'') (name_of ''acme/api'') 7) [[]]" by (simp add: serves_def demo_api_def)
  from list_pages_all [OF page_of_serves [OF this]] show "ListPRReviewComments demo_api ''acme/api'' 7 = Some (Inr [])"
    by (simp add: ListPRReviewComments_def)
  from list_pages_all [OF page_of_serves [OF demo_api_pages(4)]]
  show "ListPRReviews demo_api ''acme/api'' 7 = Some (Inr (map client_review (concat demo_reviews)))"
    by (simp add: ListPRReviews_def map_concat)
qed

lemma demo_summaries:
  "summaries (map client_review (concat demo_reviews)) = [client_review (demo_review 2 ''coderabbitai'' ''COMMENTED'' ''a bug'')]"
  by (simp add: summaries_def demo_reviews_def demo_review_def client_review_def by_coderabbit_def codeRabbitUser_def, code_simp)

theorem provider_review_exact_witness:
  "GitHubProvider_Review demo_api demo_request = Some (Inr [summary_finding (client_review (demo_review 2 ''coderabbitai'' ''COMMENTED'' ''a bug''))])"
proof -
  let ?r = "client_review (demo_review 2 ''coderabbitai'' ''COMMENTED'' ''a bug'')"
  have r: "r_id ?r = 2" "other_commit ''new'' (r_commit_id ?r)" by (simp_all add: client_review_def demo_review_def other_commit_def)
  let ?pr = "\<lparr>cp_number = 7, cp_head_sha = ''abc'', cp_state = ''open''\<rparr>" and ?rs = "map client_review (concat demo_reviews)"
  have c: "ListPRReviewComments demo_api (rq_repo demo_request) (cp_number ?pr) = Some (Inr [])"
    and v: "ListPRReviews demo_api (rq_repo demo_request) (cp_number ?pr) = Some (Inr ?rs)" and h: "''new'' = rq_head_hash demo_request"
    using demo_provider_pages(2,3) by (simp_all add: demo_request_def)
  have cur: "current_summaries ''new'' ?rs = []" using r(2) by (simp add: current_summaries_def demo_summaries)
  obtain rest where g: "GitHubProvider_Review demo_api demo_request = Some (Inr (
      map (\<lambda>c. raw_finding ''review'' (k_path c) (k_line c) (k_body c)) (filter (\<lambda>c. by_coderabbit (k_user c) \<and> \<not> other_commit ''new'' (k_commit_id c)) ([] :: ReviewComment list)) @
      map summary_finding (current_summaries ''new'' ?rs) @ rest))"
    and rest: "if ''new'' \<noteq> '''' \<and> current_summaries ''new'' ?rs = [] \<and> (\<exists>r\<in>set (summaries ?rs). 0 < r_id r)
     then \<exists>r\<in>set (summaries ?rs). rest = [summary_finding r] \<and> 0 < r_id r \<and> (\<forall>x\<in>set (summaries ?rs). r_id x \<le> r_id r)
     else rest = []"
    using provider_review_exact [OF demo_provider_pages(1) c v h] by blast
  have "rest = [summary_finding ?r]" using rest r(1) unfolding cur demo_summaries by simp
  then show ?thesis using g cur by (simp only: filter.simps list.map append_Nil)
qed

end
