(* ===== verification/Spec2Isabelle.thy ===== *)
theory Spec2Isabelle
  imports Slots Review_Store Runner Feedback Reconciler Webhook Gate_Config Delivery_Lock Submit_Handler
    Session_Service Env_Filter Session_Metrics GitHub_Client
begin

text \<open>
  Codero orchestrates coding agents: it keeps a record per repository branch, queues submitted branches
  for review, runs reviews under leases, delivers findings, tracks agent sessions and the tasks
  assigned to them, and merges a pull request when everything it waits for has arrived. This library models
  the Go code under \<open>src/internal\<close> that decides these things, and proves what makes it correct. It is
  organised as one theory per component; this theory imports them all.

  \<^bold>\<open>Parts and how they interact.\<close> Two stores hold the state: a SQLite database (branches and their audit
  trail, delivery events, webhook deliveries, review runs, findings, sessions, assignments, rules, archives,
  links, submissions) and a Redis server (queues, leases, slots, counters, dedup keys). The repositories of
  \<open>internal/state\<close> write the tables, except for the assignment that the submit endpoint creates itself and the
  columns that only the delivery pipeline uses; the scheduler packages are the only writers of
  the keys. The runner, the expiry worker, the webhook receiver, the reconciler, the delivery pipeline, the metrics
  monitor and the calls of the daemon's services run concurrently over the two stores. The gate engine checks the staged
  files of a worktree and has no part in them; its verdict reaches the stores through the pipeline and the services.

  \<^bold>\<open>Conventions\<close> (theories \<open>Prelude\<close>, \<open>Strconv\<close>, \<open>Store\<close>). A time or duration is an \<open>int\<close> of
  nanoseconds; a Go \<open>int\<close> is an \<open>int\<close>, except where the code can overflow, where \<open>int64\<close>
  or a 64-bit word wraps around. Floats of the queue are reals, averages are rationals. \<open>(T, error)\<close> is
  \<open>error + T\<close> with one constructor per sentinel error. A table is the list of its rows in insertion order
  and a SQL statement the list operation it denotes, with the constraints of the migrations as guards; a
  transaction is \<open>run_tx\<close>, which keeps the old database on an error, or the same written out. JSON
  columns that the code reads back are values, those it only writes are strings. Every call that can fail has a
  site in a fault oracle (\<open>faults\<close> for the database, \<open>rfaults\<close> for Redis, where a failing call may or may
  not have been applied); an operation hands its callees the part of the oracle under its own name
  (\<open>at_site\<close>). Times of \<open>time.Now\<close> and ids of \<open>uuid\<close> are arguments. Code outside the repository is a
  parameter: the Redis server (\<open>redis_api\<close>), the package looplab/fsm (\<open>fsm_lib\<close>), review providers, tmux,
  GitHub, regular expressions and JSON encoders.

  \<^bold>\<open>Interfaces.\<close> The locale \<open>lifecycle\<close> is the contract of a state machine, interpreted by the
  branch and the assignment machine; \<open>fsm_library\<close> is what the program relies on of looplab/fsm and
  \<open>redis_server\<close> what it relies on of Redis (documented command behaviour, interpreted by a small in-memory
  server), and the lemmas of the lease, queue, slot, delivery and runner theories about keys are
  proved inside it. Properties take these contracts as hypotheses, and their witnesses use the interpretations.

  \<^bold>\<open>Theories\<close>, with the code they model and what they show.
  \<^item> \<open>Branch_FSM\<close>: \<open>state/state.go\<close>, \<open>state/fsm.go\<close>. The transition table is the specified machine, the
    check through looplab/fsm agrees with it, merge_ready is only reached through a review, and every live state can
    still reach it.
  \<^item> \<open>Store\<close>, \<open>Branch_Store\<close>: \<open>state/repository.go\<close>, \<open>pr_tracking.go\<close>, \<open>daemon/grpc/tasks.go\<close>.
    Invariant of all reachable databases (keys, foreign keys, an audit trail that explains each state),
    refinement of the branch machine, atomicity of transitions and of findings, exact expiry queries.
  \<^item> \<open>Redis\<close>, \<open>Queue\<close>, \<open>Lease\<close>, \<open>Heartbeat\<close>, \<open>Slots\<close>: \<open>redis/keys.go\<close> and \<open>scheduler/queue.go\<close>,
    \<open>lease.go\<close>, \<open>heartbeat.go\<close>, \<open>slot.go\<close>, \<open>stall.go\<close>. Order and uniqueness of the queue,
    mutual exclusion and freedom of leases for any interleaving, the renewal loop, the slot bound, the stall report.
  \<^item> \<open>Delivery\<close>: \<open>delivery/delivery.go\<close>, \<open>webhook/dedup.go\<close>. Event numbers increase even over a loss of
    Redis, a webhook delivery is accepted once.
  \<^item> \<open>Assignment\<close>, \<open>Agent_Store\<close>, \<open>Sessions\<close>: \<open>state/assignment_fsm.go\<close>, \<open>assignment_compliance.go\<close>,
    \<open>session_archives.go\<close>, \<open>agent_sessions.go\<close>, \<open>session/session.go\<close>. \<open>Session_Inv\<close>,
    \<open>Session_Props\<close> and \<open>Session_Gate\<close> prove the invariant of the agent tables under every operation and
    failure, versions and claims as optimistic locks, the completion gate, the rule monitor and the secrets.
  \<^item> \<open>Expiry\<close>: \<open>scheduler/expiry.go\<close>. The time to live, the lease audit, the session expiry; every
    cycle is a run of repository operations.
  \<^item> \<open>Review_Store\<close>: \<open>state/github_links.go\<close>, \<open>feedback_cache.go\<close>, \<open>submissions.go\<close>,
    \<open>record_precommit.go\<close>, the pre-commit part of \<open>proving.go\<close>, \<open>merge_predicate.go\<close>, token metrics.
  \<^item> \<open>Normalizer\<close>: \<open>normalizer/normalizer.go\<close>, \<open>webhook/normalizer.go\<close>.
  \<^item> \<open>Runner\<close>: \<open>runner/runner.go\<close>, \<open>runner/provider.go\<close>. The outcome of a dispatched review, with the
    heartbeat's passes and other workers interleaved.
  \<^item> \<open>Feedback\<close>: \<open>feedback/aggregator.go\<close>, \<open>delivery_pipeline/feedback_builder.go\<close>, \<open>writer.go\<close>. The order of the
    sources, the size limits, termination of the trimming loop, which keeps the reviews.
  \<^item> \<open>Reconciler\<close>, \<open>Webhook\<close>: \<open>webhook/reconciler.go\<close>, \<open>feedback_push.go\<close>, \<open>webhook.go\<close>, \<open>processor.go\<close>,
    \<open>app_handler.go\<close>, \<open>openclaw_client.go\<close>, \<open>normalizer.go\<close>. A merge is asked for only in the state that justifies it; only
    authentic requests have an effect, and each once.
  \<^item> \<open>Gatecheck\<close>, \<open>Gate_Config\<close>: \<open>gatecheck/engine.go\<close>, \<open>model.go\<close>, \<open>env.go\<close>, \<open>substatus.go\<close>, \<open>gate/config.go\<close>,
    \<open>heartbeat.go\<close>, \<open>progress_env.go\<close>. Well-formed reports, the exact verdict, round trips of the configuration file,
    when the polling client returns.
  \<^item> \<open>Event\<close>, \<open>Pipeline\<close>, \<open>Delivery_Lock\<close>, \<open>Submit_Handler\<close>: \<open>event/envelope.go\<close>, \<open>reply_to.go\<close>,
    \<open>delivery_pipeline/pipeline.go\<close>, \<open>lock.go\<close>, \<open>daemon/submit_handler.go\<close>, and the agent kinds of \<open>config/user_config.go\<close>. A merge by the pipeline is
    justified by everything it saw, a failed gate stops the delivery, every submission returns, one delivery at a time
    runs in a worktree, and only the owner of an assignment can submit it.
  \<^item> \<open>Session_Service\<close>: \<open>daemon/grpc/sessions.go\<close>, \<open>sessions_recovery.go\<close>, \<open>assignments.go\<close>, \<open>gate.go\<close>,
    \<open>feedback.go\<close>, \<open>source_status.go\<close>, the interceptor of \<open>server.go\<close>. Heartbeats need the secret and reach one session only, a
    session has one secret, every call keeps the invariant of the agent tables, findings come back as feedback.
  \<^item> \<open>Env_Filter\<close>: \<open>session/env_filter.go\<close>. What reaches the environment of an agent process.
  \<^item> \<open>Session_Metrics\<close>: \<open>sessmetrics\<close>. What an import of token usage adds and how the pressure of a session is set.
  \<^item> \<open>GitHub_Client\<close>: \<open>github/client.go\<close>, \<open>merge_readiness.go\<close>, \<open>pr_ops.go\<close>, \<open>runner/github_provider.go\<close>,
    \<open>cmd/codero/github_pipeline_adapter.go\<close>. Complete and ending listings, how reconciler and pipeline read the same
    reviews, what a merge by the reconciler means in terms of what GitHub lists, the findings of the provider.

  \<^bold>\<open>Loops and fuel.\<close> Most loops of the modelled code run over a list and are structural recursion; the trimming
  of feedback and the replacement of substrings end by a measure. Three loops ask the outside until it gives a final answer: the
  polling of a gate, the monitoring of a pull request and the pages of a listing. They are partial functions into
  \<open>option\<close>, so that not returning is a value, and \<open>gate_poll_terminates\<close>, \<open>submit_returns\<close> and
  \<open>listings_complete\<close> say when they return. No definition needs fuel. The endless loops (tickers, the
  heartbeat goroutine) are modelled by one pass and by finite sequences of passes.

  \<^bold>\<open>Not modelled\<close>: the dashboard and its queries, the command line program, generated gRPC code with the client that
  forwards calls, health and metrics endpoints, configuration files and logging, the context indexer, tmux and git subprocesses, the
  scorecard of \<open>proving.go\<close>, the notification hooks, the OpenClaw adapter, the prompt service and the scripts. They
  present, transport or call out; the decisions they trigger are made by the modelled operations. Tables these parts alone use are left out, as are
  SQLite's own locking (each statement or transaction is one step) and the JSON texts.
\<close>

end
